(* ===== verification/SocPrelude.thy ===== *)
theory SocPrelude
  imports Complex_Main "HOL-Library.AList" "HOL-Library.Multiset" "HOL-Library.Char_ord"
    "HOL-Library.List_Lexorder" "HOL-Library.Product_Lexorder" "HOL-Library.Sublist"
begin

text \<open>
  Shared vocabulary of the development: Python values, strings, dictionaries and instants, and
  the generic lemmas the component theories rest on.

  Conventions. A Python \<open>str\<close> is a \<open>string\<close>; the case and whitespace
  operations are exact on ASCII text and leave other bytes alone. A \<open>dict\<close> that the code
  iterates or serialises is an association list in insertion order, updated with
  \<open>AList.update\<close> (in place when the key exists, at the end otherwise, as Python does). A
  Python \<open>float\<close> that holds a ratio or a confidence is a rational. An aware
  \<open>datetime\<close> is an instant in microseconds; every parser of the program normalises to
  UTC (\<open>agent/parsers/helpers.py\<close>), so the instant determines the rendered text.
\<close>

named_theorems dict_simps \<open>lookup in an updated or grouped dictionary\<close>
named_theorems list_bounds \<open>lengths and membership of bounded, deduplicated lists\<close>

section \<open>Python scalars\<close>

datatype pyval = PNone | PBool bool | PInt int | PFloat rat | PStr string
  | PList "pyval list" | PDict "(string \<times> pyval) list"

type_synonym pydict = "(string \<times> pyval) list"

text \<open>Truthiness of an optional string: \<open>None\<close> and \<open>""\<close> are false.\<close>

definition truthy :: "string option \<Rightarrow> bool" where
  "truthy s = (case s of None \<Rightarrow> False | Some x \<Rightarrow> x \<noteq> [])"

lemma truthy_simps [simp]: "\<not> truthy None" "truthy (Some x) \<longleftrightarrow> x \<noteq> []"
  by (simp_all add: truthy_def)

text \<open>\<open>a or b\<close> on optional strings.\<close>

definition py_or :: "string option \<Rightarrow> string option \<Rightarrow> string option" where
  "py_or a b = (if truthy a then a else b)"

definition truthy_value :: "string option \<Rightarrow> string option" where
  "truthy_value v = (if truthy v then v else None)"

text \<open>The values of a function that is defined on some elements only, in order.\<close>

definition somes :: "('a \<Rightarrow> 'b option) \<Rightarrow> 'a list \<Rightarrow> 'b list" where
  "somes f xs = List.map_filter f xs"

lemma set_somes: "set (somes f xs) = {y. \<exists>x \<in> set xs. f x = Some y}"
  by (induction xs) (auto simp: somes_def List.map_filter_simps split: option.splits)

section \<open>Strings\<close>

definition is_upper :: "char \<Rightarrow> bool" where
  "is_upper c = (65 \<le> (of_char c :: nat) \<and> (of_char c :: nat) \<le> 90)"

definition is_lower :: "char \<Rightarrow> bool" where
  "is_lower c = (97 \<le> (of_char c :: nat) \<and> (of_char c :: nat) \<le> 122)"

definition is_digit :: "char \<Rightarrow> bool" where
  "is_digit c = (48 \<le> (of_char c :: nat) \<and> (of_char c :: nat) \<le> 57)"

definition is_space :: "char \<Rightarrow> bool" where
  "is_space c = (let n = (of_char c :: nat) in n = 32 \<or> (9 \<le> n \<and> n \<le> 13) \<or> (28 \<le> n \<and> n \<le> 31))"

definition lower_char :: "char \<Rightarrow> char" where
  "lower_char c = (if is_upper c then char_of ((of_char c :: nat) + 32) else c)"

definition upper_char :: "char \<Rightarrow> char" where
  "upper_char c = (if is_lower c then char_of ((of_char c :: nat) - 32) else c)"

definition py_lower :: "string \<Rightarrow> string" where
  "py_lower s = map lower_char s"

definition py_upper :: "string \<Rightarrow> string" where
  "py_upper s = map upper_char s"

definition py_lstrip :: "string \<Rightarrow> string" where
  "py_lstrip s = dropWhile is_space s"

definition py_strip :: "string \<Rightarrow> string" where
  "py_strip s = rev (dropWhile is_space (rev (dropWhile is_space s)))"

text \<open>\<open>needle in haystack\<close> on strings.\<close>

fun contains :: "string \<Rightarrow> string \<Rightarrow> bool" where
  "contains sub [] = (sub = [])"
| "contains sub (c # cs) = (prefix sub (c # cs) \<or> contains sub cs)"

text \<open>\<open>sep.join(parts)\<close>.\<close>

fun py_join :: "string \<Rightarrow> string list \<Rightarrow> string" where
  "py_join sep [] = []"
| "py_join sep [x] = x"
| "py_join sep (x # y # zs) = x @ sep @ py_join sep (y # zs)"

text \<open>
  Splitting at separator characters. \<open>split_at\<close> keeps empty pieces (as
  \<open>str.split(",")\<close> does), \<open>tokens\<close> drops them (as \<open>str.split()\<close> and the
  \<open>re.split\<close> calls of the source, which filter empty tokens, do).
\<close>

fun split_at :: "(char \<Rightarrow> bool) \<Rightarrow> string \<Rightarrow> string list" where
  "split_at p [] = [[]]"
| "split_at p (c # cs) =
     (if p c then [] # split_at p cs
      else (case split_at p cs of [] \<Rightarrow> [[c]] | t # ts \<Rightarrow> (c # t) # ts))"

definition tokens :: "(char \<Rightarrow> bool) \<Rightarrow> string \<Rightarrow> string list" where
  "tokens p s = filter (\<lambda>t. t \<noteq> []) (split_at p s)"

fun str_of_nat :: "nat \<Rightarrow> string" where
  "str_of_nat n = (if n < 10 then [char_of (48 + n)]
     else str_of_nat (n div 10) @ [char_of (48 + n mod 10)])"

declare str_of_nat.simps [simp del]

definition str_of_int :: "int \<Rightarrow> string" where
  "str_of_int i = (if i < 0 then CHR ''-'' # str_of_nat (nat (- i)) else str_of_nat (nat i))"

lemma str_of_nat_not_Nil [simp]: "str_of_nat n \<noteq> []"
  by (subst str_of_nat.simps) simp

lemma py_strip_blank [simp]: "py_strip [] = []"
  by (simp add: py_strip_def)

lemma py_case_blank [simp]: "py_upper [] = []" "py_lower [] = []"
  by (simp_all add: py_upper_def py_lower_def)

section \<open>Sorted duplicate-free lists\<close>

text \<open>\<open>sorted(set(xs))\<close>: the shape every collection of the data model is kept in.\<close>

definition sort_uniq :: "'a::linorder list \<Rightarrow> 'a list" where
  "sort_uniq xs = sort (remdups xs)"

lemma set_sort_uniq [simp]: "set (sort_uniq xs) = set xs"
  by (simp add: sort_uniq_def)

lemma sorted_sort_uniq [simp]: "sorted (sort_uniq xs)"
  by (simp add: sort_uniq_def)

lemma distinct_sort_uniq [simp]: "distinct (sort_uniq xs)"
  by (simp add: sort_uniq_def)

lemma sort_uniq_Nil_iff [simp]: "sort_uniq xs = [] \<longleftrightarrow> xs = []"
  by (metis set_sort_uniq set_empty)

lemma sort_uniq_Nil [simp]: "sort_uniq [] = []"
  by (simp add: sort_uniq_def)

lemma length_sort_uniq: "length (sort_uniq xs) = card (set xs)"
  by (metis distinct_card distinct_sort_uniq set_sort_uniq)

lemma sort_uniq_cong: "set xs = set ys \<Longrightarrow> sort_uniq xs = sort_uniq ys"
  by (metis distinct_sort_uniq set_sort_uniq sorted_distinct_set_unique sorted_sort_uniq)

lemma sort_uniq_id: "sorted xs \<Longrightarrow> distinct xs \<Longrightarrow> sort_uniq xs = xs"
  by (simp add: sort_uniq_def distinct_remdups_id sorted_sort_id)

lemma sort_uniq_idem [simp]: "sort_uniq (sort_uniq xs) = sort_uniq xs"
  by (simp add: sort_uniq_id)

definition canonical :: "'a::linorder list \<Rightarrow> bool" where
  "canonical xs = (sorted xs \<and> distinct xs)"

lemma canonical_sort_uniq [simp, intro]: "canonical (sort_uniq xs)"
  by (simp add: canonical_def)

lemma canonical_take [intro]: "canonical xs \<Longrightarrow> canonical (take n xs)"
  by (simp add: canonical_def sorted_wrt_take)

lemma canonical_filter [intro]: "canonical xs \<Longrightarrow> canonical (filter p xs)"
  by (simp add: canonical_def sorted_wrt_filter)

lemma canonical_eqI: "canonical xs \<Longrightarrow> canonical ys \<Longrightarrow> set xs = set ys \<Longrightarrow> xs = ys"
  by (simp add: canonical_def sorted_distinct_set_unique)


text \<open>Bounded prefixes \<open>sorted(set(xs))[:limit]\<close>.\<close>

definition bounded_sorted_values :: "string list \<Rightarrow> nat \<Rightarrow> string list" where
  "bounded_sorted_values values limit = take limit (sort_uniq values)"

lemma length_bounded_sorted_values [list_bounds]:
  "length (bounded_sorted_values values limit) \<le> limit"
  by (simp add: bounded_sorted_values_def)

lemma subseq_set: "subseq xs ys \<Longrightarrow> set xs \<subseteq> set ys"
  by (induction rule: list_emb.induct) auto

section \<open>Selecting by a key\<close>

text \<open>
  \<open>sorted(xs, key=f)\<close> is the library's stable \<open>sort_key f xs\<close> and
  \<open>min(xs, key=f)\<close>, which returns the first minimal element, is \<open>arg_min_list f xs\<close>.
  Both are deterministic once the key separates the elements: this is what every "total order"
  remark of the source relies on, stated once as a locale.
\<close>

locale separating_key =
  fixes key :: "'a \<Rightarrow> 'k::linorder"
    and separated :: "'a set \<Rightarrow> bool"
  assumes key_inj: "separated A \<Longrightarrow> inj_on key A"
begin

lemma filter_same_key:
  assumes "separated A" and "set zs \<subseteq> A" and "k \<in> A"
  shows "filter (\<lambda>x. key k = key x) zs = replicate (count (mset zs) k) k"
  using assms(2,3) by (induction zs) (auto dest: inj_onD [OF key_inj [OF assms(1)]])

lemma sort_key_mset_eq:
  assumes "mset xs = mset ys" and "separated (set xs)"
  shows "sort_key key xs = sort_key key ys"
proof (rule properties_for_sort_key)
  show "mset (sort_key key ys) = mset xs" using assms(1) by simp
  show "sorted (map key (sort_key key ys))" by simp
next
  fix k assume "k \<in> set (sort_key key ys)"
  moreover have "set ys = set xs" using assms(1) by (metis mset_eq_setD)
  ultimately show
    "filter (\<lambda>x. key k = key x) (sort_key key ys) = filter (\<lambda>x. key k = key x) xs"
    using assms(1) by (simp add: filter_same_key [OF assms(2)])
qed

lemma arg_min_unique:
  assumes "x \<in> set xs" and "separated (set xs)" and "\<And>y. y \<in> set xs \<Longrightarrow> key x \<le> key y"
  shows "arg_min_list key xs = x"
proof -
  have ne: "xs \<noteq> []" using assms(1) by auto
  have "arg_min_list key xs \<in> set xs" using ne by (rule arg_min_list_in)
  moreover have "key (arg_min_list key xs) \<le> key x"
    using ne assms(1) by (simp add: f_arg_min_list_f)
  ultimately show ?thesis
    using assms key_inj [OF assms(2)] by (metis antisym inj_onD)
qed

lemma arg_min_set_eq:
  assumes "set xs = set ys" and "xs \<noteq> []" and "separated (set xs)"
  shows "arg_min_list key xs = arg_min_list key ys"
proof -
  have ne: "ys \<noteq> []" using assms by auto
  let ?m = "arg_min_list key ys"
  have "?m \<in> set xs" using arg_min_list_in [OF ne, of key] assms(1) by simp
  moreover have "\<And>y. y \<in> set xs \<Longrightarrow> key ?m \<le> key y"
    using assms(1) ne by (simp add: f_arg_min_list_f)
  ultimately show ?thesis using assms(3) by (intro arg_min_unique) auto
qed

end

lemma arg_min_list_le: "y \<in> set xs \<Longrightarrow> f (arg_min_list f xs) \<le> f y"
  by (metis Min_le f_arg_min_list_f finite_imageI finite_set imageI length_greater_0_conv
      length_pos_if_in_set)

section \<open>Dictionaries\<close>

text \<open>
  \<open>d.setdefault(k, []).append(x)\<close> and the grouping loops built on it. Keys keep the order
  of their first insertion.
\<close>

fun add_to :: "'k \<Rightarrow> 'v \<Rightarrow> ('k \<times> 'v list) list \<Rightarrow> ('k \<times> 'v list) list" where
  "add_to k v [] = [(k, [v])]"
| "add_to k v ((k', vs) # d) = (if k = k' then (k', vs @ [v]) # d else (k', vs) # add_to k v d)"

definition group_by :: "('a \<Rightarrow> 'k) \<Rightarrow> 'a list \<Rightarrow> ('k \<times> 'a list) list" where
  "group_by key xs = foldl (\<lambda>d x. add_to (key x) x d) [] xs"

lemma map_of_add_to [dict_simps]:
  "map_of (add_to k v d) =
     (map_of d)(k \<mapsto> (case map_of d k of None \<Rightarrow> [v] | Some vs \<Rightarrow> vs @ [v]))"
  by (induction k v d rule: add_to.induct) (auto simp: fun_upd_def)

lemma keys_add_to [dict_simps]:
  "map fst (add_to k v d) = (if k \<in> set (map fst d) then map fst d else map fst d @ [k])"
  by (induction k v d rule: add_to.induct) auto

lemma distinct_add_to: "distinct (map fst d) \<Longrightarrow> distinct (map fst (add_to k v d))"
  by (simp add: keys_add_to)

lemma group_by_snoc: "group_by key (xs @ [x]) = add_to (key x) x (group_by key xs)"
  by (simp add: group_by_def)

lemma group_by_Nil [simp]: "group_by key [] = []"
  by (simp add: group_by_def)

lemma distinct_group_by: "distinct (map fst (group_by key xs))"
  by (induction xs rule: rev_induct) (auto simp: group_by_snoc distinct_add_to)

lemma map_of_group_by:
  "map_of (group_by key xs) k =
     (if k \<in> key ` set xs then Some (filter (\<lambda>x. key x = k) xs) else None)"
proof (induction xs rule: rev_induct)
  case Nil
  then show ?case by simp
next
  case (snoc x xs)
  have "filter (\<lambda>x. key x = k) xs = []" if "k \<notin> key ` set xs"
    using that by (auto simp: filter_empty_conv)
  with snoc show ?case by (auto simp: group_by_snoc dict_simps)
qed

text \<open>A group holds exactly the elements with its key, in input order, and is never empty.\<close>

lemma group_by_member:
  assumes "(k, vs) \<in> set (group_by key xs)"
  shows "vs = filter (\<lambda>x. key x = k) xs" and "vs \<noteq> []"
proof -
  have m: "map_of (group_by key xs) k = Some vs"
    by (rule map_of_is_SomeI [OF distinct_group_by assms])
  then show "vs = filter (\<lambda>x. key x = k) xs"
    by (simp add: map_of_group_by split: if_splits)
  with m show "vs \<noteq> []" by (auto simp: map_of_group_by filter_empty_conv split: if_splits)
qed

lemma mset_add_to: "mset (concat (map snd (add_to k v d))) = add_mset v (mset (concat (map snd d)))"
  by (induction k v d rule: add_to.induct) auto

text \<open>The groups are a partition of the input.\<close>

lemma mset_group_by: "mset (concat (map snd (group_by key xs))) = mset xs"
  by (induction xs rule: rev_induct) (auto simp: group_by_snoc mset_add_to)

lemma set_group_by: "(\<Union>kv \<in> set (group_by key xs). set (snd kv)) = set xs"
proof -
  have "set (concat (map snd (group_by key xs))) = set xs"
    using mset_group_by by (rule mset_eq_setD)
  then show ?thesis by simp
qed

lemma length_group_by: "sum_list (map (\<lambda>kv. length (snd kv)) (group_by key xs)) = length xs"
proof -
  have "length (concat (map snd (group_by key xs))) = length xs"
    using mset_group_by by (metis size_mset)
  then show ?thesis by (simp add: length_concat o_def)
qed

text \<open>\<open>{key(x): x for x in xs}\<close>: first-occurrence order, the last value winning.\<close>

definition dict_of :: "('a \<Rightarrow> 'k) \<Rightarrow> 'a list \<Rightarrow> ('k \<times> 'a) list" where
  "dict_of key xs = foldl (\<lambda>d x. AList.update (key x) x d) [] xs"

lemma dict_of_Nil [simp]: "dict_of key [] = []"
  by (simp add: dict_of_def)

lemma dict_of_snoc: "dict_of key (xs @ [x]) = AList.update (key x) x (dict_of key xs)"
  by (simp add: dict_of_def)

lemma distinct_dict_of [simp]: "distinct (map fst (dict_of key xs))"
  by (induction xs rule: rev_induct) (auto simp: dict_of_snoc distinct_update)

lemma keys_dict_of [simp]: "fst ` set (dict_of key xs) = key ` set xs"
proof (induction xs rule: rev_induct)
  case (snoc x xs)
  then show ?case by (simp add: dict_of_snoc dom_update)
qed simp

lemma dict_of_member:
  "(k, v) \<in> set (dict_of key xs) \<Longrightarrow> v \<in> set xs \<and> key v = k"
proof (induction xs arbitrary: k v rule: rev_induct)
  case (snoc x xs)
  have "set (AList.update (key x) x d) \<subseteq> insert (key x, x) (set d)" for d
    by (induction d) auto
  with snoc show ?case by (fastforce simp: dict_of_snoc)
qed simp

lemma map_of_dict_of_SomeD: "map_of (dict_of key xs) k = Some v \<Longrightarrow> v \<in> set xs \<and> key v = k"
  by (meson dict_of_member map_of_SomeD)

lemma map_of_dict_of_None [simp]: "map_of (dict_of key xs) k = None \<longleftrightarrow> k \<notin> key ` set xs"
  by (metis keys_dict_of map_of_eq_None_iff)

lemma map_of_dict_of_inj:
  assumes "inj_on key (set xs)" and "x \<in> set xs"
  shows "map_of (dict_of key xs) (key x) = Some x"
proof -
  obtain v where "map_of (dict_of key xs) (key x) = Some v"
    using assms(2) map_of_dict_of_None [of key xs "key x"] by (auto simp del: map_of_dict_of_None)
  then show ?thesis
    using map_of_dict_of_SomeD assms by (metis inj_onD)
qed

section \<open>Instants\<close>

datatype datetime = Instant (micros: int)

instantiation datetime :: linorder
begin

definition less_eq_datetime :: "datetime \<Rightarrow> datetime \<Rightarrow> bool" where
  "less_eq_datetime a b = (micros a \<le> micros b)"

definition less_datetime :: "datetime \<Rightarrow> datetime \<Rightarrow> bool" where
  "less_datetime a b = (micros a < micros b)"

instance
  by standard (auto simp: less_eq_datetime_def less_datetime_def datetime.expand)

end

text \<open>\<open>(a - b)\<close> and \<open>a + timedelta(seconds=n)\<close>, in microseconds.\<close>

definition elapsed :: "datetime \<Rightarrow> datetime \<Rightarrow> int" where
  "elapsed a b = micros a - micros b"

definition seconds :: "int \<Rightarrow> int" where
  "seconds n = n * 1000000"

definition plus_seconds :: "datetime \<Rightarrow> int \<Rightarrow> datetime" where
  "plus_seconds t n = Instant (micros t + seconds n)"

lemmas instant_simps = less_eq_datetime_def less_datetime_def elapsed_def plus_seconds_def

text \<open>
  \<open>isoformat()\<close> of a UTC instant: \<open>YYYY-MM-DDTHH:MM:SS[.ffffff]+00:00\<close>. The date is
  the proleptic Gregorian date of the day number, counted in eras of 400 years.
\<close>

definition pad :: "nat \<Rightarrow> nat \<Rightarrow> string" where
  "pad w n = (let s = str_of_nat n in replicate (w - length s) (CHR ''0'') @ s)"

definition civil_date :: "int \<Rightarrow> int \<times> int \<times> int" where
  "civil_date day = (let z = day + 719468;
     era = z div 146097;
     doe = z mod 146097;
     yoe = (doe - doe div 1460 + doe div 36524 - doe div 146096) div 365;
     doy = doe - (365 * yoe + yoe div 4 - yoe div 100);
     mp = (5 * doy + 2) div 153;
     d = doy - (153 * mp + 2) div 5 + 1;
     m = (if mp < 10 then mp + 3 else mp - 9);
     y = yoe + era * 400 + (if m \<le> 2 then 1 else 0)
   in (y, m, d))"

definition isoformat :: "datetime \<Rightarrow> string" where
  "isoformat t = (let us = micros t mod 86400000000;
     day = micros t div 86400000000;
     sec = us div 1000000;
     frac = us mod 1000000
   in case civil_date day of (y, m, d) \<Rightarrow>
     pad 4 (nat y) @ ''-'' @ pad 2 (nat m) @ ''-'' @ pad 2 (nat d) @ ''T'' @
     pad 2 (nat (sec div 3600)) @ '':'' @ pad 2 (nat (sec div 60 mod 60)) @ '':'' @
     pad 2 (nat (sec mod 60)) @
     (if frac = 0 then [] else ''.'' @ pad 6 (nat frac)) @ ''+00:00'')"

lemma isoformat_epoch: "isoformat (Instant 0) = ''1970-01-01T00:00:00+00:00''"
  by code_simp

lemma isoformat_leap_day:
  "isoformat (Instant 1709251199000001) = ''2024-02-29T23:59:59.000001+00:00''"
  by code_simp

text \<open>\<open>t.replace(microsecond=0, second=0)\<close>.\<close>

definition floor_minute :: "datetime \<Rightarrow> datetime" where
  "floor_minute t = Instant (micros t - micros t mod 60000000)"

section \<open>Errors\<close>

text \<open>Sequencing of fallible steps: the first \<open>Inl\<close> wins, as a raise does.\<close>

definition bind_err :: "'e + 'a \<Rightarrow> ('a \<Rightarrow> 'e + 'b) \<Rightarrow> 'e + 'b" where
  "bind_err r f = (case r of Inl e \<Rightarrow> Inl e | Inr a \<Rightarrow> f a)"

lemma bind_err_simps [simp]: "bind_err (Inl e) f = Inl e" "bind_err (Inr a) f = f a"
  by (simp_all add: bind_err_def)

lemma bind_err_Inr: "bind_err r f = Inr b \<longleftrightarrow> (\<exists>a. r = Inr a \<and> f a = Inr b)"
  by (cases r) auto

definition check :: "bool \<Rightarrow> 'e \<Rightarrow> 'e + unit" where
  "check ok e = (if ok then Inr () else Inl e)"

lemma check_Inr [simp]: "check ok e = Inr u \<longleftrightarrow> ok"
  by (simp add: check_def)

fun first_failure :: "(bool \<times> 'e) list \<Rightarrow> 'e option" where
  "first_failure [] = None"
| "first_failure ((ok, e) # rest) = (if ok then first_failure rest else Some e)"

lemma first_failure_None: "first_failure cs = None \<longleftrightarrow> (\<forall>(ok, e) \<in> set cs. ok)"
  by (induction cs rule: first_failure.induct) auto

fun map_err :: "('a \<Rightarrow> 'e + 'b) \<Rightarrow> 'a list \<Rightarrow> 'e + 'b list" where
  "map_err f [] = Inr []"
| "map_err f (x # xs) = bind_err (f x) (\<lambda>y. bind_err (map_err f xs) (\<lambda>ys. Inr (y # ys)))"

lemma map_err_Inr: "map_err f xs = Inr ys \<longleftrightarrow> list_all2 (\<lambda>x y. f x = Inr y) xs ys"
  by (induction xs arbitrary: ys) (auto simp: bind_err_Inr list_all2_Cons1)

lemma map_err_member:
  "map_err f xs = Inr ys \<Longrightarrow> y \<in> set ys \<Longrightarrow> \<exists>x \<in> set xs. f x = Inr y"
  by (induction xs arbitrary: ys) (auto simp: bind_err_Inr)

lemma find_append: "find P (xs @ ys) = (case find P xs of None \<Rightarrow> find P ys | Some x \<Rightarrow> Some x)"
  by (induction xs) auto

end
