(* ===== verification/TcpFlags.thy ===== *)
theory TcpFlags
  imports SocPrelude
begin

text \<open>
  \<open>agent/tcp_flags.py\<close>: recognising TCP flag text in compact PF form (\<open>SA\<close>) or
  verbose form (\<open>SYN,ACK\<close>), and its canonical rendering. The lemmas show that a
  canonical rendering parses back to the same tokens and is a fixed point.
\<close>

definition TCP_FLAG_ORDER :: "string list" where
  "TCP_FLAG_ORDER = [''FIN'', ''SYN'', ''RST'', ''PSH'', ''ACK'', ''URG'', ''ECE'', ''CWR'']"

definition MAX_TCP_FLAG_INPUT_CHARS :: nat where
  "MAX_TCP_FLAG_INPUT_CHARS = 128"

definition PF_FLAG_MAP :: "(char \<times> string) list" where
  "PF_FLAG_MAP = [(CHR ''F'', ''FIN''), (CHR ''S'', ''SYN''), (CHR ''R'', ''RST''),
     (CHR ''P'', ''PSH''), (CHR ''A'', ''ACK''), (CHR ''U'', ''URG''), (CHR ''E'', ''ECE''),
     (CHR ''W'', ''CWR'')]"

definition EXPLICIT_NONE_VALUES :: "string list" where
  "EXPLICIT_NONE_VALUES = [[], ''0'', ''NONE'', ''NULL'', ''-'']"

record TcpFlagNormalization =
  tf_canonical :: "string option"
  tf_tokens :: "string list"
  tf_explicit_none :: bool
  tf_recognized :: bool

definition ordered_tokens :: "string set \<Rightarrow> string list" where
  "ordered_tokens toks = filter (\<lambda>flag. flag \<in> toks) TCP_FLAG_ORDER"

definition flag_separator :: "char \<Rightarrow> bool" where
  "flag_separator c = (is_space c \<or> c = CHR '','' \<or> c = CHR ''|'')"

text \<open>\<open>None\<close> stands for an unrecognised representation.\<close>

definition parse_known_tokens :: "string \<Rightarrow> string set option" where
  "parse_known_tokens value =
     (let normalized = py_upper (py_strip value);
          verbose_tokens = tokens flag_separator normalized
      in if length normalized > MAX_TCP_FLAG_INPUT_CHARS then None
         else if normalized \<in> set EXPLICIT_NONE_VALUES then Some {}
         else if verbose_tokens \<noteq> [] \<and> (\<forall>t \<in> set verbose_tokens. t \<in> set TCP_FLAG_ORDER)
           then Some (set verbose_tokens)
         else if normalized \<noteq> [] \<and> (\<forall>c \<in> set normalized. map_of PF_FLAG_MAP c \<noteq> None)
           then Some ((\<lambda>c. the (map_of PF_FLAG_MAP c)) ` set normalized)
         else None)"

definition parse_tcp_flag_tokens :: "string option \<Rightarrow> string set" where
  "parse_tcp_flag_tokens value =
     (case value of None \<Rightarrow> {}
      | Some v \<Rightarrow> (case parse_known_tokens v of None \<Rightarrow> {} | Some toks \<Rightarrow> toks))"

definition canonicalize_tcp_flags :: "string option \<Rightarrow> bool \<Rightarrow> TcpFlagNormalization" where
  "canonicalize_tcp_flags value field_present =
     (if \<not> field_present
      then \<lparr>tf_canonical = None, tf_tokens = [], tf_explicit_none = False, tf_recognized = True\<rparr>
      else (let normalized = (case value of None \<Rightarrow> [] | Some v \<Rightarrow> py_upper (py_strip v))
        in if normalized \<in> set EXPLICIT_NONE_VALUES
           then \<lparr>tf_canonical = Some ''NONE'', tf_tokens = [], tf_explicit_none = True,
                 tf_recognized = True\<rparr>
           else (case parse_known_tokens normalized of
               None \<Rightarrow> \<lparr>tf_canonical = None, tf_tokens = [], tf_explicit_none = False,
                        tf_recognized = False\<rparr>
             | Some parsed \<Rightarrow> (let ordered = ordered_tokens parsed
                 in \<lparr>tf_canonical = Some (py_join '','' ordered), tf_tokens = ordered,
                     tf_explicit_none = False, tf_recognized = True\<rparr>))))"

section \<open>Recognised tokens\<close>

lemma parse_known_tokens_subset:
  assumes "parse_known_tokens value = Some toks"
  shows "toks \<subseteq> set TCP_FLAG_ORDER"
proof -
  have "the (map_of PF_FLAG_MAP c) \<in> set TCP_FLAG_ORDER" if "map_of PF_FLAG_MAP c \<noteq> None" for c
    using that by (auto simp: PF_FLAG_MAP_def TCP_FLAG_ORDER_def split: if_splits)
  with assms show ?thesis
    by (auto simp: parse_known_tokens_def Let_def image_subset_iff split: if_splits)
qed

lemma parse_tcp_flag_tokens_subset: "parse_tcp_flag_tokens value \<subseteq> set TCP_FLAG_ORDER"
  using parse_known_tokens_subset
  by (auto simp: parse_tcp_flag_tokens_def split: option.splits)

lemma set_ordered_tokens: "toks \<subseteq> set TCP_FLAG_ORDER \<Longrightarrow> set (ordered_tokens toks) = toks"
  by (auto simp: ordered_tokens_def)

section \<open>Splitting a joined list\<close>

lemma split_at_no_sep: "(\<forall>c \<in> set t. \<not> p c) \<Longrightarrow> split_at p t = [t]"
  by (induction t) auto

lemma split_at_append_sep:
  assumes "\<forall>c \<in> set t. \<not> p c" and "p sep"
  shows "split_at p (t @ sep # rest) = t # split_at p rest"
  using assms by (induction t) auto

lemma split_at_join:
  assumes "ts \<noteq> []" and "\<forall>t \<in> set ts. \<forall>c \<in> set t. \<not> p c" and "p sep"
  shows "split_at p (py_join [sep] ts) = ts"
  using assms
proof (induction "[sep]" ts rule: py_join.induct)
  case 1
  then show ?case by simp
next
  case (2 x)
  then show ?case by (simp add: split_at_no_sep)
next
  case (3 x y zs)
  then show ?case by (simp add: split_at_append_sep)
qed

lemma tokens_join:
  assumes "\<forall>t \<in> set ts. t \<noteq> [] \<and> (\<forall>c \<in> set t. \<not> p c)" and "p sep"
  shows "tokens p (py_join [sep] ts) = ts"
proof (cases "ts = []")
  case True
  then show ?thesis by (simp add: tokens_def)
next
  case False
  then have "split_at p (py_join [sep] ts) = ts" using assms by (intro split_at_join) auto
  moreover have "filter (\<lambda>t. t \<noteq> []) ts = ts" using assms by (simp add: filter_id_conv)
  ultimately show ?thesis by (simp only: tokens_def)
qed

section \<open>Round trip\<close>

definition flag_char :: "char \<Rightarrow> bool" where
  "flag_char c = (is_upper c \<or> c = CHR '','')"

lemma flag_char_upper: "flag_char c \<Longrightarrow> upper_char c = c"
  by (auto simp: flag_char_def upper_char_def is_lower_def is_upper_def)

lemma flag_char_nonspace: "flag_char c \<Longrightarrow> \<not> is_space c"
  by (auto simp: flag_char_def is_space_def is_upper_def Let_def)

lemma dropWhile_none: "(\<forall>c \<in> set s. \<not> p c) \<Longrightarrow> dropWhile p s = s"
  by (cases s) auto

lemma flag_text_normal: "(\<forall>c \<in> set s. flag_char c) \<Longrightarrow> py_upper (py_strip s) = s"
  by (simp add: py_strip_def py_upper_def dropWhile_none flag_char_nonspace flag_char_upper
      map_idI)

lemma flag_names:
  assumes "t \<in> set TCP_FLAG_ORDER"
  shows "t \<noteq> [] \<and> length t = 3 \<and> (\<forall>c \<in> set t. is_upper c \<and> \<not> flag_separator c)"
  using assms
  by (auto simp: TCP_FLAG_ORDER_def is_upper_def flag_separator_def is_space_def Let_def)

lemma set_py_join: "set (py_join sep ts) \<subseteq> set sep \<union> \<Union> (set ` set ts)"
  by (induction sep ts rule: py_join.induct) auto

lemma length_py_join_flags:
  "\<forall>t \<in> set ts. length t = 3 \<Longrightarrow> length (py_join '','' ts) \<le> 4 * length ts"
  by (induction "'',''" ts rule: py_join.induct) auto

lemma length_ordered_tokens: "length (ordered_tokens toks) \<le> 8"
  using length_filter_le [of "\<lambda>flag. flag \<in> toks" TCP_FLAG_ORDER]
  by (simp add: ordered_tokens_def TCP_FLAG_ORDER_def del: length_filter_le)

lemma py_join_Nil_iff: "py_join '','' ts = [] \<Longrightarrow> \<forall>t \<in> set ts. t \<noteq> [] \<Longrightarrow> ts = []"
  by (induction "'',''" ts rule: py_join.induct) auto

lemma none_value_tokens:
  "\<forall>v \<in> set EXPLICIT_NONE_VALUES.
     tokens flag_separator v \<in> {[], [''0''], [''NONE''], [''NULL''], [''-'']}"
  by code_simp

lemma none_not_flags: "\<forall>t \<in> set [''0'', ''NONE'', ''NULL'', ''-'']. t \<notin> set TCP_FLAG_ORDER"
  by code_simp

text \<open>A rendered, non-empty set of flags parses back to that set.\<close>

lemma rendered_flags:
  assumes "toks \<subseteq> set TCP_FLAG_ORDER" and "toks \<noteq> {}"
  defines "r \<equiv> py_join '','' (ordered_tokens toks)"
  shows "py_upper (py_strip r) = r" and "r \<notin> set EXPLICIT_NONE_VALUES"
    and "parse_known_tokens r = Some toks"
proof -
  let ?ts = "ordered_tokens toks"
  have ts: "\<forall>t \<in> set ?ts. t \<in> set TCP_FLAG_ORDER" by (simp add: ordered_tokens_def)
  have setts: "set ?ts = toks" using assms(1) by (rule set_ordered_tokens)
  have "\<forall>c \<in> set r. flag_char c"
    using set_py_join [of "'',''" ?ts] ts flag_names
    by (fastforce simp: r_def flag_char_def)
  then show up: "py_upper (py_strip r) = r" by (rule flag_text_normal)
  have toks_r: "tokens flag_separator r = ?ts"
    unfolding r_def using ts flag_names
    by (intro tokens_join) (auto simp: flag_separator_def)
  have len: "length r \<le> 32"
    using length_py_join_flags [of ?ts] length_ordered_tokens [of toks] ts flag_names
    by (force simp: r_def)
  have ne: "?ts \<noteq> []" using setts assms(2) by auto
  show nn: "r \<notin> set EXPLICIT_NONE_VALUES"
  proof
    assume "r \<in> set EXPLICIT_NONE_VALUES"
    then have "tokens flag_separator r \<in> {[], [''0''], [''NONE''], [''NULL''], [''-'']}"
      using none_value_tokens by blast
    with toks_r ne have "\<exists>t \<in> set [''0'', ''NONE'', ''NULL'', ''-'']. t \<in> set ?ts" by force
    then show False using ts none_not_flags by blast
  qed
  show "parse_known_tokens r = Some toks"
    using len nn ne ts setts
    by (simp add: parse_known_tokens_def Let_def up toks_r MAX_TCP_FLAG_INPUT_CHARS_def)
qed

lemma parse_known_tokens_nonempty:
  assumes "parse_known_tokens value = Some toks"
    and "py_upper (py_strip value) \<notin> set EXPLICIT_NONE_VALUES"
  shows "toks \<noteq> {}"
  using assms by (auto simp: parse_known_tokens_def Let_def split: if_splits)

lemma upper_char_idem: "upper_char (upper_char c) = upper_char c"
proof -
  have "\<not> is_lower (char_of ((of_char c :: nat) - 32))" if "is_lower c"
    using that by (auto simp: is_lower_def)
  then show ?thesis by (simp add: upper_char_def)
qed

lemma is_space_upper: "is_space (upper_char c) = is_space c"
proof -
  have "\<not> is_space c" and "\<not> is_space (char_of ((of_char c :: nat) - 32))" if "is_lower c"
    using that by (auto simp: is_lower_def is_space_def Let_def)
  then show ?thesis by (auto simp: upper_char_def)
qed

lemma dropWhile_idem: "dropWhile p (dropWhile p s) = dropWhile p s"
  by (induction s) auto

lemma py_strip_upper: "py_strip (py_upper s) = py_upper (py_strip s)"
  by (simp add: py_strip_def py_upper_def dropWhile_map rev_map comp_def is_space_upper)

lemma py_upper_idem: "py_upper (py_upper s) = py_upper s"
  by (simp add: py_upper_def upper_char_idem)

lemma dropWhile_rev_dropWhile:
  "dropWhile p (rev (dropWhile p (rev (dropWhile p s)))) = rev (dropWhile p (rev (dropWhile p s)))"
proof -
  let ?d = "dropWhile p s"
  show ?thesis
  proof (cases "?d")
    case Nil
    show ?thesis unfolding Nil by simp
  next
    case (Cons c cs)
    then have "\<not> p c" by (metis hd_dropWhile list.distinct(1) list.sel(1))
    with Cons show ?thesis by (simp add: dropWhile_append)
  qed
qed

lemma py_strip_idem: "py_strip (py_strip s) = py_strip s"
  by (simp add: py_strip_def dropWhile_rev_dropWhile dropWhile_idem)

lemma normalize_idem: "py_upper (py_strip (py_upper (py_strip s))) = py_upper (py_strip s)"
  by (simp add: py_strip_upper py_strip_idem py_upper_idem)

text \<open>C25: canonical TCP flag text is a fixed point: canonicalising the rendering of a
  recognised value gives the same normalisation, and the rendering parses to its tokens.\<close>

theorem canonicalize_round_trip:
  assumes "canonicalize_tcp_flags v True = n" and "tf_canonical n = Some c"
  shows "canonicalize_tcp_flags (Some c) True = n
       \<and> parse_tcp_flag_tokens (Some c) = set (tf_tokens n)"
proof -
  let ?u = "case v of None \<Rightarrow> [] | Some w \<Rightarrow> py_upper (py_strip w)"
  show ?thesis
  proof (cases "?u \<in> set EXPLICIT_NONE_VALUES")
    case True
    then have n: "n = \<lparr>tf_canonical = Some ''NONE'', tf_tokens = [], tf_explicit_none = True,
        tf_recognized = True\<rparr>"
      using assms(1) by (simp add: canonicalize_tcp_flags_def)
    then have c: "c = ''NONE''" using assms(2) by simp
    have up: "py_upper (py_strip ''NONE'') = ''NONE''"
      by (rule flag_text_normal) (simp add: flag_char_def is_upper_def)
    show ?thesis
      unfolding c n
      by (simp add: canonicalize_tcp_flags_def up EXPLICIT_NONE_VALUES_def
          parse_tcp_flag_tokens_def parse_known_tokens_def Let_def MAX_TCP_FLAG_INPUT_CHARS_def)
  next
    case False
    then obtain toks where p: "parse_known_tokens ?u = Some toks"
      and n: "n = \<lparr>tf_canonical = Some (py_join '','' (ordered_tokens toks)),
        tf_tokens = ordered_tokens toks, tf_explicit_none = False, tf_recognized = True\<rparr>"
      using assms by (auto simp: canonicalize_tcp_flags_def Let_def split: option.splits if_splits)
    have "py_upper (py_strip ?u) = ?u" by (cases v) (simp_all add: normalize_idem)
    then have "toks \<noteq> {}" using parse_known_tokens_nonempty [OF p] False by simp
    then have r: "py_upper (py_strip c) = c" "c \<notin> set EXPLICIT_NONE_VALUES"
      "parse_known_tokens c = Some toks"
      using rendered_flags [OF parse_known_tokens_subset [OF p]] assms(2) n by simp_all
    show ?thesis
      using r n set_ordered_tokens [OF parse_known_tokens_subset [OF p]]
      by (simp add: canonicalize_tcp_flags_def parse_tcp_flag_tokens_def Let_def)
  qed
qed

theorem canonicalize_round_trip_witness:
  "canonicalize_tcp_flags (Some ''SYN,ACK'') True
     = canonicalize_tcp_flags (Some '' sa '') True
   \<and> parse_tcp_flag_tokens (Some ''SYN,ACK'')
     = set (tf_tokens (canonicalize_tcp_flags (Some '' sa '') True))"
proof -
  have "tf_canonical (canonicalize_tcp_flags (Some '' sa '') True) = Some ''SYN,ACK''"
    by code_simp
  from canonicalize_round_trip [OF refl this] show ?thesis .
qed

end
