(* ===== verification/Events.thy ===== *)
theory Events
  imports TcpFlags
begin

text \<open>
  The canonical event (\<open>agent/schema.py\<close>), the evidence records built from it
  (\<open>agent/detection/evidence.py\<close>) and the shared event predicates of the detectors
  (\<open>agent/detection/detectors/scan_helpers.py\<close>).

  A timestamp is \<open>Aware\<close> or \<open>Naive\<close>; only aware ones reach the detectors. Field
  names carry the prefix \<open>e_\<close> (events) and \<open>ev_\<close> (evidence).
\<close>

datatype timestamp = Aware datetime | Naive datetime

primrec instant :: "timestamp \<Rightarrow> datetime" where
  "instant (Aware t) = t"
| "instant (Naive t) = t"

primrec is_aware :: "timestamp \<Rightarrow> bool" where
  "is_aware (Aware t) = True"
| "is_aware (Naive t) = False"

record canonical_event =
  e_event_id :: string
  e_timestamp :: "timestamp option"
  e_observed_at :: "timestamp option"
  e_src_ip :: "string option"
  e_dst_ip :: "string option"
  e_src_port :: "int option"
  e_dst_port :: "int option"
  e_protocol :: "string option"
  e_action :: "string option"
  e_action_reason :: "string option"
  e_event_type :: "string option"
  e_event_category :: "string option"
  e_event_outcome :: "string option"
  e_tcp_flags :: "string option"
  e_inbound_interface :: "string option"
  e_outbound_interface :: "string option"
  e_inbound_zone :: "string option"
  e_outbound_zone :: "string option"
  e_source_fqdns :: "string list"
  e_destination_fqdns :: "string list"
  e_source_username :: "string option"
  e_bytes :: "int option"
  e_packets :: "int option"
  e_duration_ms :: "int option"
  e_nat_type :: "string option"
  e_translated_src_ip :: "string option"
  e_translated_dst_ip :: "string option"
  e_translated_src_port :: "int option"
  e_translated_dst_port :: "int option"
  e_parser_name :: string
  e_parser_version :: "string option"
  e_parser_confidence :: rat
  e_schema_fingerprint :: "string option"
  e_parse_status :: string
  e_parse_warnings :: "string list"
  e_source_name :: "string option"
  e_source_line :: "int option"
  e_raw_record_hash :: "string option"
  e_safe_message_excerpt :: string
  e_parser_metadata :: "pydict option"

text \<open>The constructor with only the required fields given; the rest take their defaults.\<close>

definition CanonicalLogEvent :: "string \<Rightarrow> string \<Rightarrow> string \<Rightarrow> canonical_event" where
  "CanonicalLogEvent event_id parser_name parse_status =
     \<lparr>e_event_id = event_id, e_timestamp = None, e_observed_at = None, e_src_ip = None,
      e_dst_ip = None, e_src_port = None, e_dst_port = None, e_protocol = None, e_action = None,
      e_action_reason = None, e_event_type = None, e_event_category = None,
      e_event_outcome = None, e_tcp_flags = None, e_inbound_interface = None,
      e_outbound_interface = None, e_inbound_zone = None, e_outbound_zone = None,
      e_source_fqdns = [], e_destination_fqdns = [], e_source_username = None, e_bytes = None,
      e_packets = None, e_duration_ms = None, e_nat_type = None, e_translated_src_ip = None,
      e_translated_dst_ip = None, e_translated_src_port = None, e_translated_dst_port = None,
      e_parser_name = parser_name, e_parser_version = None, e_parser_confidence = 0,
      e_schema_fingerprint = None, e_parse_status = parse_status, e_parse_warnings = [],
      e_source_name = None, e_source_line = None, e_raw_record_hash = None,
      e_safe_message_excerpt = [], e_parser_metadata = None\<rparr>"

abbreviation event_time :: "canonical_event \<Rightarrow> datetime option" where
  "event_time e \<equiv> map_option instant (e_timestamp e)"

section \<open>Evidence\<close>

record DetectionEvidence =
  ev_event_id :: string
  ev_quote :: string
  ev_reason :: string
  ev_source :: string
  ev_original_fields :: pydict
  ev_correlation_context :: pydict

definition opt_str_field :: "string \<Rightarrow> string option \<Rightarrow> pydict" where
  "opt_str_field name v = (case v of Some s \<Rightarrow> if s \<noteq> [] then [(name, PStr s)] else [] | None \<Rightarrow> [])"

text \<open>\<open>Inl\<close> is the \<open>ValueError\<close> for an event without identifier.\<close>

definition create_evidence_from_event ::
  "canonical_event \<Rightarrow> string \<Rightarrow> string \<Rightarrow> pydict \<Rightarrow> string + DetectionEvidence" where
  "create_evidence_from_event event reason source_rule correlation_context =
     (if e_event_id event = [] then Inl ''ValueError''
      else Inr \<lparr>ev_event_id = e_event_id event,
        ev_quote = e_safe_message_excerpt event,
        ev_reason = reason,
        ev_source = source_rule,
        ev_original_fields =
          opt_str_field ''src_ip'' (e_src_ip event) @
          opt_str_field ''dst_ip'' (e_dst_ip event) @
          (case e_dst_port event of None \<Rightarrow> [] | Some p \<Rightarrow> [(''dst_port'', PInt p)]) @
          opt_str_field ''action'' (e_action event) @
          (case event_time event of None \<Rightarrow> [] | Some t \<Rightarrow> [(''timestamp'', PStr (isoformat t))]) @
          opt_str_field ''protocol'' (e_protocol event) @
          opt_str_field ''action_reason'' (e_action_reason event),
        ev_correlation_context = correlation_context\<rparr>)"

definition select_representative_evidence ::
  "canonical_event list \<Rightarrow> nat \<Rightarrow> string \<Rightarrow> string \<Rightarrow> pydict \<Rightarrow> string + DetectionEvidence list" where
  "select_representative_evidence events max_evidence reason source_rule correlation_context =
     map_err (\<lambda>e. create_evidence_from_event e reason source_rule correlation_context)
       (take max_evidence events)"

lemma create_evidence_id:
  "create_evidence_from_event e r s c = Inr ev \<Longrightarrow> ev_event_id ev = e_event_id e"
  by (auto simp: create_evidence_from_event_def split: if_splits)

lemma create_evidence_ok:
  "e_event_id e \<noteq> [] \<Longrightarrow> \<exists>ev. create_evidence_from_event e r s c = Inr ev"
  by (simp add: create_evidence_from_event_def)

text \<open>Evidence is at most \<open>max_evidence\<close> items and quotes the first events, in order.\<close>

lemma select_representative_evidence_ids:
  assumes "select_representative_evidence es m r s c = Inr evs"
  shows "map ev_event_id evs = take m (map e_event_id es)"
proof -
  have "list_all2 (\<lambda>e ev. create_evidence_from_event e r s c = Inr ev) (take m es) evs"
    using assms by (simp add: select_representative_evidence_def map_err_Inr)
  then have "map ev_event_id evs = map e_event_id (take m es)"
    by (induction rule: list_all2_induct) (auto simp: create_evidence_id)
  then show ?thesis by (simp add: take_map)
qed

lemma select_representative_evidence_ok:
  assumes "\<forall>e \<in> set es. e_event_id e \<noteq> []"
  shows "\<exists>evs. select_representative_evidence es m r s c = Inr evs"
proof -
  have "\<exists>evs. map_err (\<lambda>e. create_evidence_from_event e r s c) xs = Inr evs"
    if "\<forall>e \<in> set xs. e_event_id e \<noteq> []" for xs
    using that create_evidence_ok by (induction xs) (auto simp: bind_err_Inr)
  moreover have "\<forall>e \<in> set (take m es). e_event_id e \<noteq> []"
    using assms by (meson in_set_takeD)
  ultimately show ?thesis by (simp add: select_representative_evidence_def)
qed

section \<open>Actions, protocols and services\<close>

definition BLOCKED_ACTIONS :: "string list" where
  "BLOCKED_ACTIONS = [''block'', ''blocked'', ''deny'', ''denied'', ''drop'', ''dropped'',
     ''reject'', ''rejected'']"

definition ALLOWED_ACTIONS :: "string list" where
  "ALLOWED_ACTIONS = [''allow'', ''allowed'', ''accept'', ''accepted'', ''pass'', ''passed'']"

definition SERVICE_PORTS :: "(string \<times> int list) list" where
  "SERVICE_PORTS = [(''database'', [1433, 1521, 3306, 5432]), (''docker'', [2375, 2376]),
     (''elasticsearch'', [9200]), (''ftp'', [21]), (''ftp_data'', [20]), (''ipmi'', [623]),
     (''kubernetes'', [6443, 10250]), (''ldap'', [389]), (''memcached'', [11211]),
     (''mongodb'', [27017]), (''msrpc'', [135]), (''rdp'', [3389]), (''redis'', [6379]),
     (''smb'', [139, 445]), (''snmp'', [161]), (''ssh'', [22, 2022, 2222]), (''telnet'', [23]),
     (''vnc'', [5900, 5901, 5902, 5903, 5904, 5905]), (''winrm'', [5985, 5986])]"

definition PORT_TO_SERVICE :: "(int \<times> string) list" where
  "PORT_TO_SERVICE =
     concat (map (\<lambda>(service, ports). map (\<lambda>port. (port, service)) ports) SERVICE_PORTS)"

definition classify_service :: "int option \<Rightarrow> string option" where
  "classify_service port = (case port of None \<Rightarrow> None | Some p \<Rightarrow> map_of PORT_TO_SERVICE p)"

definition normalized_protocol :: "canonical_event \<Rightarrow> string" where
  "normalized_protocol event =
     (case e_protocol event of None \<Rightarrow> ''UNKNOWN''
      | Some p \<Rightarrow> if p = [] then ''UNKNOWN'' else py_upper p)"

definition is_blocked :: "canonical_event \<Rightarrow> bool" where
  "is_blocked event = (case e_action event of None \<Rightarrow> False
     | Some a \<Rightarrow> a \<noteq> [] \<and> py_lower (py_strip a) \<in> set BLOCKED_ACTIONS)"

definition is_allowed :: "canonical_event \<Rightarrow> bool" where
  "is_allowed event = (case e_action event of None \<Rightarrow> False
     | Some a \<Rightarrow> a \<noteq> [] \<and> py_lower (py_strip a) \<in> set ALLOWED_ACTIONS)"

text \<open>The port table has no port twice, so the reversed table loses nothing; and an action is
  never both blocked and allowed.\<close>

lemma distinct_service_ports: "distinct (map fst PORT_TO_SERVICE)"
  by code_simp

lemma blocked_allowed_disjoint: "\<forall>a \<in> set BLOCKED_ACTIONS. a \<notin> set ALLOWED_ACTIONS"
  by code_simp

lemma not_blocked_and_allowed: "is_blocked e \<Longrightarrow> \<not> is_allowed e"
  using blocked_allowed_disjoint by (auto simp: is_blocked_def is_allowed_def split: option.splits)

section \<open>TCP and SPI predicates\<close>

definition event_tcp_flag_tokens :: "canonical_event \<Rightarrow> string set" where
  "event_tcp_flag_tokens event = parse_tcp_flag_tokens (e_tcp_flags event)"

definition has_exact_tcp_flags :: "canonical_event \<Rightarrow> string set \<Rightarrow> bool" where
  "has_exact_tcp_flags event expected = (event_tcp_flag_tokens event = expected)"

definition has_tcp_flags :: "canonical_event \<Rightarrow> string set \<Rightarrow> bool" where
  "has_tcp_flags event required = (required \<subseteq> event_tcp_flag_tokens event)"

definition metadata_get :: "canonical_event \<Rightarrow> string \<Rightarrow> pyval option" where
  "metadata_get event k = (case e_parser_metadata event of None \<Rightarrow> None | Some d \<Rightarrow> map_of d k)"

definition is_explicit_tcp_null :: "canonical_event \<Rightarrow> bool" where
  "is_explicit_tcp_null event =
     (metadata_get event ''tcp_flags_present'' = Some (PBool True) \<and>
      metadata_get event ''tcp_flags_explicit_none'' = Some (PBool True) \<or>
      tf_explicit_none (canonicalize_tcp_flags (e_tcp_flags event) (e_tcp_flags event \<noteq> None)))"

definition is_tcp_syn :: "canonical_event \<Rightarrow> bool" where
  "is_tcp_syn event = (normalized_protocol event = ''TCP'' \<and>
     ''SYN'' \<in> event_tcp_flag_tokens event \<and> ''ACK'' \<notin> event_tcp_flag_tokens event)"

definition is_tcp_initial_connection_probe :: "canonical_event \<Rightarrow> bool" where
  "is_tcp_initial_connection_probe event = (normalized_protocol event = ''TCP'' \<and>
     ''SYN'' \<in> event_tcp_flag_tokens event \<and>
     event_tcp_flag_tokens event \<inter> {''ACK'', ''RST'', ''FIN''} = {})"

definition mentions :: "string \<Rightarrow> string option \<Rightarrow> bool" where
  "mentions needle v = (case v of None \<Rightarrow> False | Some s \<Rightarrow> s \<noteq> [] \<and> contains needle (py_lower s))"

definition is_spi_anomaly_event :: "canonical_event \<Rightarrow> bool \<Rightarrow> bool" where
  "is_spi_anomaly_event event fallback_raw_match =
     (mentions ''spi'' (e_action_reason event) \<or>
      mentions ''spi'' (e_event_outcome event) \<or>
      mentions ''spi'' (e_action event) \<or>
      metadata_get event ''spi_anomaly'' = Some (PBool True) \<or>
      (fallback_raw_match \<and> mentions ''blocked by spi'' (Some (e_safe_message_excerpt event))))"

definition is_spi_block_event :: "canonical_event \<Rightarrow> bool \<Rightarrow> bool" where
  "is_spi_block_event event fallback_raw_match =
     (is_spi_anomaly_event event fallback_raw_match \<and>
      (is_blocked event \<or>
       (\<exists>marker \<in> set [''block'', ''deny'', ''drop'']. mentions marker (e_action event)) \<or>
       (fallback_raw_match \<and> mentions ''blocked by spi'' (Some (e_safe_message_excerpt event)))))"

lemma probe_is_syn: "is_tcp_initial_connection_probe e \<Longrightarrow> is_tcp_syn e"
  by (auto simp: is_tcp_initial_connection_probe_def is_tcp_syn_def)

section \<open>Ratios and spans\<close>

definition count_if :: "('a \<Rightarrow> bool) \<Rightarrow> 'a list \<Rightarrow> nat" where
  "count_if p xs = length (filter p xs)"

definition event_ratios :: "canonical_event list \<Rightarrow> rat \<times> rat" where
  "event_ratios events =
     (if events = [] then (0, 0)
      else (of_nat (count_if is_blocked events) / of_nat (length events),
            of_nat (count_if is_tcp_syn events) / of_nat (length events)))"

text \<open>\<open>observed_span_seconds\<close>, in microseconds.\<close>

definition observed_span :: "canonical_event list \<Rightarrow> int" where
  "observed_span events =
     (case List.map_filter event_time events of
        [] \<Rightarrow> 0
      | [t] \<Rightarrow> 0
      | ts \<Rightarrow> max 0 (elapsed (Max (set ts)) (Min (set ts))))"

lemma count_if_le: "count_if p xs \<le> length xs"
  by (simp add: count_if_def)

lemma event_ratios_bounds:
  "0 \<le> fst (event_ratios es) \<and> fst (event_ratios es) \<le> 1 \<and>
   0 \<le> snd (event_ratios es) \<and> snd (event_ratios es) \<le> 1"
  by (auto simp: event_ratios_def count_if_le divide_le_eq_1 zero_le_divide_iff)

end
