(* ===== verification/Settings.thy ===== *)
theory Settings
  imports SocPrelude
begin

text \<open>
  The detection settings (\<open>agent/detection/config.py\<close>): every field of
  \<open>DetectionSettings\<close>, the defaults used when the environment overrides nothing, and the
  constraints the model checks on construction. Window lengths and spans are integers, counts and
  prefix lengths natural numbers (a negative count would act as zero), ratios rationals.
\<close>

record DetectionSettings =
  DETECTION_MAX_LATENESS_SECONDS :: int
  INTERNAL_NETWORKS :: "string list"
  HORIZONTAL_SCAN_WINDOW_SECONDS :: int
  HORIZONTAL_SCAN_MIN_EVENTS :: nat
  HORIZONTAL_SCAN_MIN_DISTINCT_TARGETS :: nat
  HORIZONTAL_SCAN_MIN_BLOCK_RATIO :: rat
  HORIZONTAL_SCAN_MIN_SYN_RATIO :: rat
  VERTICAL_SCAN_WINDOW_SECONDS :: int
  VERTICAL_SCAN_MIN_EVENTS :: nat
  VERTICAL_SCAN_MIN_DISTINCT_PORTS :: nat
  VERTICAL_SCAN_MIN_BLOCK_RATIO :: rat
  VERTICAL_SCAN_MIN_SYN_RATIO :: rat
  REMOTE_SERVICE_WINDOW_SECONDS :: int
  RDP_PORTS :: "int list"
  SSH_PORTS :: "int list"
  REMOTE_SERVICE_MIN_EVENTS :: nat
  REMOTE_SERVICE_MIN_DISTINCT_TARGETS :: nat
  REMOTE_SERVICE_MIN_BLOCK_RATIO :: rat
  REMOTE_SERVICE_MIN_SYN_RATIO :: rat
  EXTENDED_SERVICE_PROBE_WINDOW_SECONDS :: int
  EXTENDED_SERVICE_PROBE_MIN_EVENTS :: nat
  EXTENDED_SERVICE_PROBE_MIN_DISTINCT_TARGETS :: nat
  EXTENDED_SERVICE_PROBE_MIN_BLOCK_RATIO :: rat
  EXTENDED_SERVICE_PROBE_MIN_SYN_RATIO :: rat
  WEB_ADMIN_PROBE_MIN_EVENTS :: nat
  WEB_ADMIN_PROBE_MIN_DISTINCT_TARGETS :: nat
  WEB_ADMIN_PROBE_MIN_BLOCK_RATIO :: rat
  WEB_ADMIN_PROBE_MIN_SYN_RATIO :: rat
  TCP_FLAG_SCAN_WINDOW_SECONDS :: int
  TCP_FLAG_SCAN_MIN_EVENTS :: nat
  TCP_FLAG_SCAN_MIN_DISTINCT_TARGETS :: nat
  TCP_FLAG_SCAN_MIN_DISTINCT_PORTS :: nat
  TCP_FLAG_SCAN_MIN_BLOCK_RATIO :: rat
  TCP_ACK_SCAN_MIN_EVENTS :: nat
  TCP_ACK_SCAN_MIN_BLOCK_RATIO :: rat
  TCP_INVALID_COMBINATION_MIN_EVENTS :: nat
  TCP_INVALID_COMBINATION_MIN_BLOCK_RATIO :: rat
  TCP_RESET_ANOMALY_WINDOW_SECONDS :: int
  TCP_RESET_ANOMALY_MIN_EVENTS :: nat
  TCP_RESET_ANOMALY_MIN_DISTINCT_TARGETS :: nat
  TCP_RESET_ANOMALY_MIN_DISTINCT_PORTS :: nat
  TCP_RESET_ANOMALY_MIN_BLOCK_RATIO :: rat
  SPI_THEN_ALLOWED_WINDOW_SECONDS :: int
  SPI_THEN_ALLOWED_MIN_SPI_EVENTS :: nat
  INBOUND_EXPOSURE_WINDOW_SECONDS :: int
  INBOUND_SENSITIVE_MIN_ALLOWED_EVENTS :: nat
  INBOUND_SENSITIVE_MIN_DISTINCT_DESTINATIONS :: nat
  CRITICAL_MANAGEMENT_EXPOSURE_MIN_EVENTS :: nat
  WAN_TO_LAN_MIN_ALLOWED_EVENTS :: nat
  WAN_TO_DMZ_ADMIN_MIN_ALLOWED_EVENTS :: nat
  BLOCKED_THEN_ALLOWED_WINDOW_SECONDS :: int
  BLOCKED_THEN_ALLOWED_MIN_BLOCKED_EVENTS :: nat
  MULTI_SOURCE_SENSITIVE_WINDOW_SECONDS :: int
  MULTI_SOURCE_SENSITIVE_MIN_EVENTS :: nat
  MULTI_SOURCE_SENSITIVE_MIN_DISTINCT_SOURCES :: nat
  SPI_ANOMALY_WINDOW_SECONDS :: int
  SPI_ANOMALY_MIN_EVENTS :: nat
  SPI_ANOMALY_MIN_DISTINCT_TARGETS :: nat
  SPI_ANOMALY_FALLBACK_RAW_MATCH :: bool
  NETWORK_FLOOD_WINDOW_SECONDS :: int
  NETWORK_FLOOD_MIN_EVENTS :: nat
  NETWORK_FLOOD_MIN_BLOCK_RATIO :: rat
  LOW_SLOW_HORIZONTAL_WINDOW_SECONDS :: int
  LOW_SLOW_HORIZONTAL_MIN_EVENTS :: nat
  LOW_SLOW_HORIZONTAL_MIN_DISTINCT_TARGETS :: nat
  LOW_SLOW_HORIZONTAL_MIN_SPAN_SECONDS :: int
  LOW_SLOW_HORIZONTAL_MIN_BLOCK_RATIO :: rat
  LOW_SLOW_HORIZONTAL_MIN_SYN_RATIO :: rat
  LOW_SLOW_VERTICAL_WINDOW_SECONDS :: int
  LOW_SLOW_VERTICAL_MIN_EVENTS :: nat
  LOW_SLOW_VERTICAL_MIN_DISTINCT_PORTS :: nat
  LOW_SLOW_VERTICAL_MIN_SPAN_SECONDS :: int
  LOW_SLOW_VERTICAL_MIN_BLOCK_RATIO :: rat
  LOW_SLOW_VERTICAL_MIN_SYN_RATIO :: rat
  REPEATED_BLOCKED_SCANNER_WINDOW_SECONDS :: int
  REPEATED_BLOCKED_SCANNER_MIN_EVENTS :: nat
  REPEATED_BLOCKED_SCANNER_MIN_BLOCK_RATIO :: rat
  REPEATED_BLOCKED_SCANNER_MIN_DISTINCT_TARGETS :: nat
  REPEATED_BLOCKED_SCANNER_MIN_DISTINCT_PORTS :: nat
  INTERNAL_LATERAL_SCAN_PORTS :: "int list"
  INTERNAL_LATERAL_SCAN_WINDOW_SECONDS :: int
  INTERNAL_LATERAL_SCAN_MIN_EVENTS :: nat
  INTERNAL_LATERAL_SCAN_MIN_DISTINCT_TARGETS :: nat
  INTERNAL_LATERAL_SCAN_MIN_BLOCK_RATIO :: rat
  INTERNAL_LATERAL_SCAN_MIN_SYN_RATIO :: rat
  SUBNET_SWEEP_IPV4_PREFIX :: nat
  SUBNET_SWEEP_IPV6_PREFIX :: nat
  SUBNET_SWEEP_WINDOW_SECONDS :: int
  SUBNET_SWEEP_MIN_EVENTS :: nat
  SUBNET_SWEEP_MIN_DISTINCT_TARGETS :: nat
  SUBNET_SWEEP_MIN_BLOCK_RATIO :: rat
  SUBNET_SWEEP_MIN_SYN_RATIO :: rat
  DISTRIBUTED_SCAN_WINDOW_SECONDS :: int
  DISTRIBUTED_SCAN_MIN_EVENTS :: nat
  DISTRIBUTED_SCAN_MIN_DISTINCT_SOURCES :: nat
  DISTRIBUTED_SCAN_MIN_BLOCK_RATIO :: rat
  DISTRIBUTED_SCAN_MIN_SYN_RATIO :: rat
  MULTI_SERVICE_SWEEP_WINDOW_SECONDS :: int
  MULTI_SERVICE_SWEEP_MIN_EVENTS :: nat
  MULTI_SERVICE_SWEEP_MIN_DISTINCT_SERVICES :: nat
  MULTI_SERVICE_SWEEP_MIN_DISTINCT_TARGETS :: nat
  MULTI_SERVICE_SWEEP_MIN_BLOCK_RATIO :: rat
  MULTI_SERVICE_SWEEP_MIN_SYN_RATIO :: rat
  SCAN_THEN_ALLOWED_WINDOW_SECONDS :: int
  SCAN_THEN_ALLOWED_MIN_BLOCKED_EVENTS :: nat
  SCAN_THEN_ALLOWED_MIN_DISTINCT_TARGETS :: nat
  SCAN_THEN_ALLOWED_MIN_DISTINCT_PORTS :: nat
  INCIDENT_MERGE_WINDOW_SECONDS :: int
  INCIDENT_EVENT_OVERLAP_THRESHOLD :: rat
  MAX_CONTEXT_EVENTS_PER_INCIDENT :: nat
  FIXED_SOURCE_PORT_SCAN_ENABLED :: bool
  FIXED_SOURCE_PORT_SCAN_PORTS :: "int list"
  FIXED_SOURCE_PORT_SCAN_WINDOW_SECONDS :: int
  FIXED_SOURCE_PORT_SCAN_MIN_EVENTS :: nat
  FIXED_SOURCE_PORT_SCAN_MIN_DISTINCT_PORTS :: nat
  FIXED_SOURCE_PORT_CLUSTER_MIN_SOURCES :: nat
  FIXED_SOURCE_PORT_CLUSTER_MIN_EVENTS_PER_SOURCE :: nat
  FIXED_SOURCE_PORT_CLUSTER_MIN_TOTAL_EVENTS :: nat
  FIXED_SOURCE_PORT_CLUSTER_WINDOW_SECONDS :: int

definition default_settings :: DetectionSettings where
  "default_settings = \<lparr>
     DETECTION_MAX_LATENESS_SECONDS = 120,
     INTERNAL_NETWORKS = [''10.0.0.0/8'', ''172.16.0.0/12'', ''192.168.0.0/16''],
     HORIZONTAL_SCAN_WINDOW_SECONDS = 300,
     HORIZONTAL_SCAN_MIN_EVENTS = 10,
     HORIZONTAL_SCAN_MIN_DISTINCT_TARGETS = 8,
     HORIZONTAL_SCAN_MIN_BLOCK_RATIO = 3/5,
     HORIZONTAL_SCAN_MIN_SYN_RATIO = 1/2,
     VERTICAL_SCAN_WINDOW_SECONDS = 300,
     VERTICAL_SCAN_MIN_EVENTS = 10,
     VERTICAL_SCAN_MIN_DISTINCT_PORTS = 8,
     VERTICAL_SCAN_MIN_BLOCK_RATIO = 3/5,
     VERTICAL_SCAN_MIN_SYN_RATIO = 1/2,
     REMOTE_SERVICE_WINDOW_SECONDS = 300,
     RDP_PORTS = [3389],
     SSH_PORTS = [22],
     REMOTE_SERVICE_MIN_EVENTS = 5,
     REMOTE_SERVICE_MIN_DISTINCT_TARGETS = 3,
     REMOTE_SERVICE_MIN_BLOCK_RATIO = 3/5,
     REMOTE_SERVICE_MIN_SYN_RATIO = 1/2,
     EXTENDED_SERVICE_PROBE_WINDOW_SECONDS = 300,
     EXTENDED_SERVICE_PROBE_MIN_EVENTS = 5,
     EXTENDED_SERVICE_PROBE_MIN_DISTINCT_TARGETS = 3,
     EXTENDED_SERVICE_PROBE_MIN_BLOCK_RATIO = 3/5,
     EXTENDED_SERVICE_PROBE_MIN_SYN_RATIO = 1/2,
     WEB_ADMIN_PROBE_MIN_EVENTS = 8,
     WEB_ADMIN_PROBE_MIN_DISTINCT_TARGETS = 5,
     WEB_ADMIN_PROBE_MIN_BLOCK_RATIO = 4/5,
     WEB_ADMIN_PROBE_MIN_SYN_RATIO = 3/5,
     TCP_FLAG_SCAN_WINDOW_SECONDS = 300,
     TCP_FLAG_SCAN_MIN_EVENTS = 5,
     TCP_FLAG_SCAN_MIN_DISTINCT_TARGETS = 3,
     TCP_FLAG_SCAN_MIN_DISTINCT_PORTS = 3,
     TCP_FLAG_SCAN_MIN_BLOCK_RATIO = 3/5,
     TCP_ACK_SCAN_MIN_EVENTS = 10,
     TCP_ACK_SCAN_MIN_BLOCK_RATIO = 17/20,
     TCP_INVALID_COMBINATION_MIN_EVENTS = 5,
     TCP_INVALID_COMBINATION_MIN_BLOCK_RATIO = 4/5,
     TCP_RESET_ANOMALY_WINDOW_SECONDS = 300,
     TCP_RESET_ANOMALY_MIN_EVENTS = 10,
     TCP_RESET_ANOMALY_MIN_DISTINCT_TARGETS = 3,
     TCP_RESET_ANOMALY_MIN_DISTINCT_PORTS = 3,
     TCP_RESET_ANOMALY_MIN_BLOCK_RATIO = 3/5,
     SPI_THEN_ALLOWED_WINDOW_SECONDS = 600,
     SPI_THEN_ALLOWED_MIN_SPI_EVENTS = 3,
     INBOUND_EXPOSURE_WINDOW_SECONDS = 300,
     INBOUND_SENSITIVE_MIN_ALLOWED_EVENTS = 1,
     INBOUND_SENSITIVE_MIN_DISTINCT_DESTINATIONS = 1,
     CRITICAL_MANAGEMENT_EXPOSURE_MIN_EVENTS = 1,
     WAN_TO_LAN_MIN_ALLOWED_EVENTS = 2,
     WAN_TO_DMZ_ADMIN_MIN_ALLOWED_EVENTS = 3,
     BLOCKED_THEN_ALLOWED_WINDOW_SECONDS = 600,
     BLOCKED_THEN_ALLOWED_MIN_BLOCKED_EVENTS = 3,
     MULTI_SOURCE_SENSITIVE_WINDOW_SECONDS = 300,
     MULTI_SOURCE_SENSITIVE_MIN_EVENTS = 5,
     MULTI_SOURCE_SENSITIVE_MIN_DISTINCT_SOURCES = 3,
     SPI_ANOMALY_WINDOW_SECONDS = 300,
     SPI_ANOMALY_MIN_EVENTS = 5,
     SPI_ANOMALY_MIN_DISTINCT_TARGETS = 1,
     SPI_ANOMALY_FALLBACK_RAW_MATCH = True,
     NETWORK_FLOOD_WINDOW_SECONDS = 60,
     NETWORK_FLOOD_MIN_EVENTS = 100,
     NETWORK_FLOOD_MIN_BLOCK_RATIO = 4/5,
     LOW_SLOW_HORIZONTAL_WINDOW_SECONDS = 3600,
     LOW_SLOW_HORIZONTAL_MIN_EVENTS = 12,
     LOW_SLOW_HORIZONTAL_MIN_DISTINCT_TARGETS = 8,
     LOW_SLOW_HORIZONTAL_MIN_SPAN_SECONDS = 900,
     LOW_SLOW_HORIZONTAL_MIN_BLOCK_RATIO = 3/5,
     LOW_SLOW_HORIZONTAL_MIN_SYN_RATIO = 1/2,
     LOW_SLOW_VERTICAL_WINDOW_SECONDS = 3600,
     LOW_SLOW_VERTICAL_MIN_EVENTS = 12,
     LOW_SLOW_VERTICAL_MIN_DISTINCT_PORTS = 8,
     LOW_SLOW_VERTICAL_MIN_SPAN_SECONDS = 900,
     LOW_SLOW_VERTICAL_MIN_BLOCK_RATIO = 3/5,
     LOW_SLOW_VERTICAL_MIN_SYN_RATIO = 1/2,
     REPEATED_BLOCKED_SCANNER_WINDOW_SECONDS = 300,
     REPEATED_BLOCKED_SCANNER_MIN_EVENTS = 6,
     REPEATED_BLOCKED_SCANNER_MIN_BLOCK_RATIO = 4/5,
     REPEATED_BLOCKED_SCANNER_MIN_DISTINCT_TARGETS = 2,
     REPEATED_BLOCKED_SCANNER_MIN_DISTINCT_PORTS = 2,
     INTERNAL_LATERAL_SCAN_PORTS = [22, 135, 139, 445, 3389, 5900, 5985, 5986],
     INTERNAL_LATERAL_SCAN_WINDOW_SECONDS = 300,
     INTERNAL_LATERAL_SCAN_MIN_EVENTS = 5,
     INTERNAL_LATERAL_SCAN_MIN_DISTINCT_TARGETS = 3,
     INTERNAL_LATERAL_SCAN_MIN_BLOCK_RATIO = 3/5,
     INTERNAL_LATERAL_SCAN_MIN_SYN_RATIO = 1/2,
     SUBNET_SWEEP_IPV4_PREFIX = 24,
     SUBNET_SWEEP_IPV6_PREFIX = 64,
     SUBNET_SWEEP_WINDOW_SECONDS = 300,
     SUBNET_SWEEP_MIN_EVENTS = 8,
     SUBNET_SWEEP_MIN_DISTINCT_TARGETS = 6,
     SUBNET_SWEEP_MIN_BLOCK_RATIO = 3/5,
     SUBNET_SWEEP_MIN_SYN_RATIO = 1/2,
     DISTRIBUTED_SCAN_WINDOW_SECONDS = 300,
     DISTRIBUTED_SCAN_MIN_EVENTS = 12,
     DISTRIBUTED_SCAN_MIN_DISTINCT_SOURCES = 6,
     DISTRIBUTED_SCAN_MIN_BLOCK_RATIO = 4/5,
     DISTRIBUTED_SCAN_MIN_SYN_RATIO = 3/5,
     MULTI_SERVICE_SWEEP_WINDOW_SECONDS = 300,
     MULTI_SERVICE_SWEEP_MIN_EVENTS = 8,
     MULTI_SERVICE_SWEEP_MIN_DISTINCT_SERVICES = 3,
     MULTI_SERVICE_SWEEP_MIN_DISTINCT_TARGETS = 3,
     MULTI_SERVICE_SWEEP_MIN_BLOCK_RATIO = 3/5,
     MULTI_SERVICE_SWEEP_MIN_SYN_RATIO = 1/2,
     SCAN_THEN_ALLOWED_WINDOW_SECONDS = 600,
     SCAN_THEN_ALLOWED_MIN_BLOCKED_EVENTS = 5,
     SCAN_THEN_ALLOWED_MIN_DISTINCT_TARGETS = 2,
     SCAN_THEN_ALLOWED_MIN_DISTINCT_PORTS = 2,
     INCIDENT_MERGE_WINDOW_SECONDS = 300,
     INCIDENT_EVENT_OVERLAP_THRESHOLD = 7/10,
     MAX_CONTEXT_EVENTS_PER_INCIDENT = 50,
     FIXED_SOURCE_PORT_SCAN_ENABLED = True,
     FIXED_SOURCE_PORT_SCAN_PORTS = [53, 80, 443],
     FIXED_SOURCE_PORT_SCAN_WINDOW_SECONDS = 300,
     FIXED_SOURCE_PORT_SCAN_MIN_EVENTS = 5,
     FIXED_SOURCE_PORT_SCAN_MIN_DISTINCT_PORTS = 3,
     FIXED_SOURCE_PORT_CLUSTER_MIN_SOURCES = 2,
     FIXED_SOURCE_PORT_CLUSTER_MIN_EVENTS_PER_SOURCE = 3,
     FIXED_SOURCE_PORT_CLUSTER_MIN_TOTAL_EVENTS = 7,
     FIXED_SOURCE_PORT_CLUSTER_WINDOW_SECONDS = 60\<rparr>"

text \<open>\<open>Field(gt=0)\<close>, \<open>Field(ge=0.0, le=1.0)\<close> and the other field constraints.\<close>

text \<open>\<open>DetectionSettings.model_fields\<close>.\<close>

definition settings_fields :: "string list" where
  "settings_fields =
     [''DETECTION_MAX_LATENESS_SECONDS'', ''INTERNAL_NETWORKS'',
      ''HORIZONTAL_SCAN_WINDOW_SECONDS'', ''HORIZONTAL_SCAN_MIN_EVENTS'',
      ''HORIZONTAL_SCAN_MIN_DISTINCT_TARGETS'', ''HORIZONTAL_SCAN_MIN_BLOCK_RATIO'',
      ''HORIZONTAL_SCAN_MIN_SYN_RATIO'', ''VERTICAL_SCAN_WINDOW_SECONDS'',
      ''VERTICAL_SCAN_MIN_EVENTS'', ''VERTICAL_SCAN_MIN_DISTINCT_PORTS'',
      ''VERTICAL_SCAN_MIN_BLOCK_RATIO'', ''VERTICAL_SCAN_MIN_SYN_RATIO'',
      ''REMOTE_SERVICE_WINDOW_SECONDS'', ''RDP_PORTS'', ''SSH_PORTS'',
      ''REMOTE_SERVICE_MIN_EVENTS'', ''REMOTE_SERVICE_MIN_DISTINCT_TARGETS'',
      ''REMOTE_SERVICE_MIN_BLOCK_RATIO'', ''REMOTE_SERVICE_MIN_SYN_RATIO'',
      ''EXTENDED_SERVICE_PROBE_WINDOW_SECONDS'', ''EXTENDED_SERVICE_PROBE_MIN_EVENTS'',
      ''EXTENDED_SERVICE_PROBE_MIN_DISTINCT_TARGETS'',
      ''EXTENDED_SERVICE_PROBE_MIN_BLOCK_RATIO'', ''EXTENDED_SERVICE_PROBE_MIN_SYN_RATIO'',
      ''WEB_ADMIN_PROBE_MIN_EVENTS'', ''WEB_ADMIN_PROBE_MIN_DISTINCT_TARGETS'',
      ''WEB_ADMIN_PROBE_MIN_BLOCK_RATIO'', ''WEB_ADMIN_PROBE_MIN_SYN_RATIO'',
      ''TCP_FLAG_SCAN_WINDOW_SECONDS'', ''TCP_FLAG_SCAN_MIN_EVENTS'',
      ''TCP_FLAG_SCAN_MIN_DISTINCT_TARGETS'', ''TCP_FLAG_SCAN_MIN_DISTINCT_PORTS'',
      ''TCP_FLAG_SCAN_MIN_BLOCK_RATIO'', ''TCP_ACK_SCAN_MIN_EVENTS'',
      ''TCP_ACK_SCAN_MIN_BLOCK_RATIO'', ''TCP_INVALID_COMBINATION_MIN_EVENTS'',
      ''TCP_INVALID_COMBINATION_MIN_BLOCK_RATIO'', ''TCP_RESET_ANOMALY_WINDOW_SECONDS'',
      ''TCP_RESET_ANOMALY_MIN_EVENTS'', ''TCP_RESET_ANOMALY_MIN_DISTINCT_TARGETS'',
      ''TCP_RESET_ANOMALY_MIN_DISTINCT_PORTS'', ''TCP_RESET_ANOMALY_MIN_BLOCK_RATIO'',
      ''SPI_THEN_ALLOWED_WINDOW_SECONDS'', ''SPI_THEN_ALLOWED_MIN_SPI_EVENTS'',
      ''INBOUND_EXPOSURE_WINDOW_SECONDS'', ''INBOUND_SENSITIVE_MIN_ALLOWED_EVENTS'',
      ''INBOUND_SENSITIVE_MIN_DISTINCT_DESTINATIONS'',
      ''CRITICAL_MANAGEMENT_EXPOSURE_MIN_EVENTS'', ''WAN_TO_LAN_MIN_ALLOWED_EVENTS'',
      ''WAN_TO_DMZ_ADMIN_MIN_ALLOWED_EVENTS'', ''BLOCKED_THEN_ALLOWED_WINDOW_SECONDS'',
      ''BLOCKED_THEN_ALLOWED_MIN_BLOCKED_EVENTS'', ''MULTI_SOURCE_SENSITIVE_WINDOW_SECONDS'',
      ''MULTI_SOURCE_SENSITIVE_MIN_EVENTS'', ''MULTI_SOURCE_SENSITIVE_MIN_DISTINCT_SOURCES'',
      ''SPI_ANOMALY_WINDOW_SECONDS'', ''SPI_ANOMALY_MIN_EVENTS'',
      ''SPI_ANOMALY_MIN_DISTINCT_TARGETS'', ''SPI_ANOMALY_FALLBACK_RAW_MATCH'',
      ''NETWORK_FLOOD_WINDOW_SECONDS'', ''NETWORK_FLOOD_MIN_EVENTS'',
      ''NETWORK_FLOOD_MIN_BLOCK_RATIO'', ''LOW_SLOW_HORIZONTAL_WINDOW_SECONDS'',
      ''LOW_SLOW_HORIZONTAL_MIN_EVENTS'', ''LOW_SLOW_HORIZONTAL_MIN_DISTINCT_TARGETS'',
      ''LOW_SLOW_HORIZONTAL_MIN_SPAN_SECONDS'', ''LOW_SLOW_HORIZONTAL_MIN_BLOCK_RATIO'',
      ''LOW_SLOW_HORIZONTAL_MIN_SYN_RATIO'', ''LOW_SLOW_VERTICAL_WINDOW_SECONDS'',
      ''LOW_SLOW_VERTICAL_MIN_EVENTS'', ''LOW_SLOW_VERTICAL_MIN_DISTINCT_PORTS'',
      ''LOW_SLOW_VERTICAL_MIN_SPAN_SECONDS'', ''LOW_SLOW_VERTICAL_MIN_BLOCK_RATIO'',
      ''LOW_SLOW_VERTICAL_MIN_SYN_RATIO'', ''REPEATED_BLOCKED_SCANNER_WINDOW_SECONDS'',
      ''REPEATED_BLOCKED_SCANNER_MIN_EVENTS'', ''REPEATED_BLOCKED_SCANNER_MIN_BLOCK_RATIO'',
      ''REPEATED_BLOCKED_SCANNER_MIN_DISTINCT_TARGETS'',
      ''REPEATED_BLOCKED_SCANNER_MIN_DISTINCT_PORTS'', ''INTERNAL_LATERAL_SCAN_PORTS'',
      ''INTERNAL_LATERAL_SCAN_WINDOW_SECONDS'', ''INTERNAL_LATERAL_SCAN_MIN_EVENTS'',
      ''INTERNAL_LATERAL_SCAN_MIN_DISTINCT_TARGETS'', ''INTERNAL_LATERAL_SCAN_MIN_BLOCK_RATIO'',
      ''INTERNAL_LATERAL_SCAN_MIN_SYN_RATIO'', ''SUBNET_SWEEP_IPV4_PREFIX'',
      ''SUBNET_SWEEP_IPV6_PREFIX'', ''SUBNET_SWEEP_WINDOW_SECONDS'', ''SUBNET_SWEEP_MIN_EVENTS'',
      ''SUBNET_SWEEP_MIN_DISTINCT_TARGETS'', ''SUBNET_SWEEP_MIN_BLOCK_RATIO'',
      ''SUBNET_SWEEP_MIN_SYN_RATIO'', ''DISTRIBUTED_SCAN_WINDOW_SECONDS'',
      ''DISTRIBUTED_SCAN_MIN_EVENTS'', ''DISTRIBUTED_SCAN_MIN_DISTINCT_SOURCES'',
      ''DISTRIBUTED_SCAN_MIN_BLOCK_RATIO'', ''DISTRIBUTED_SCAN_MIN_SYN_RATIO'',
      ''MULTI_SERVICE_SWEEP_WINDOW_SECONDS'', ''MULTI_SERVICE_SWEEP_MIN_EVENTS'',
      ''MULTI_SERVICE_SWEEP_MIN_DISTINCT_SERVICES'',
      ''MULTI_SERVICE_SWEEP_MIN_DISTINCT_TARGETS'', ''MULTI_SERVICE_SWEEP_MIN_BLOCK_RATIO'',
      ''MULTI_SERVICE_SWEEP_MIN_SYN_RATIO'', ''SCAN_THEN_ALLOWED_WINDOW_SECONDS'',
      ''SCAN_THEN_ALLOWED_MIN_BLOCKED_EVENTS'', ''SCAN_THEN_ALLOWED_MIN_DISTINCT_TARGETS'',
      ''SCAN_THEN_ALLOWED_MIN_DISTINCT_PORTS'', ''INCIDENT_MERGE_WINDOW_SECONDS'',
      ''INCIDENT_EVENT_OVERLAP_THRESHOLD'', ''MAX_CONTEXT_EVENTS_PER_INCIDENT'',
      ''FIXED_SOURCE_PORT_SCAN_ENABLED'', ''FIXED_SOURCE_PORT_SCAN_PORTS'',
      ''FIXED_SOURCE_PORT_SCAN_WINDOW_SECONDS'', ''FIXED_SOURCE_PORT_SCAN_MIN_EVENTS'',
      ''FIXED_SOURCE_PORT_SCAN_MIN_DISTINCT_PORTS'', ''FIXED_SOURCE_PORT_CLUSTER_MIN_SOURCES'',
      ''FIXED_SOURCE_PORT_CLUSTER_MIN_EVENTS_PER_SOURCE'',
      ''FIXED_SOURCE_PORT_CLUSTER_MIN_TOTAL_EVENTS'',
      ''FIXED_SOURCE_PORT_CLUSTER_WINDOW_SECONDS'']"

definition positive_seconds :: "DetectionSettings \<Rightarrow> int list" where
  "positive_seconds st =
     [EXTENDED_SERVICE_PROBE_WINDOW_SECONDS st,
      TCP_FLAG_SCAN_WINDOW_SECONDS st,
      TCP_RESET_ANOMALY_WINDOW_SECONDS st,
      SPI_THEN_ALLOWED_WINDOW_SECONDS st,
      INBOUND_EXPOSURE_WINDOW_SECONDS st,
      BLOCKED_THEN_ALLOWED_WINDOW_SECONDS st,
      MULTI_SOURCE_SENSITIVE_WINDOW_SECONDS st,
      LOW_SLOW_HORIZONTAL_WINDOW_SECONDS st,
      LOW_SLOW_HORIZONTAL_MIN_SPAN_SECONDS st,
      LOW_SLOW_VERTICAL_WINDOW_SECONDS st,
      LOW_SLOW_VERTICAL_MIN_SPAN_SECONDS st,
      REPEATED_BLOCKED_SCANNER_WINDOW_SECONDS st,
      INTERNAL_LATERAL_SCAN_WINDOW_SECONDS st,
      SUBNET_SWEEP_WINDOW_SECONDS st,
      DISTRIBUTED_SCAN_WINDOW_SECONDS st,
      MULTI_SERVICE_SWEEP_WINDOW_SECONDS st,
      SCAN_THEN_ALLOWED_WINDOW_SECONDS st,
      INCIDENT_MERGE_WINDOW_SECONDS st,
      FIXED_SOURCE_PORT_SCAN_WINDOW_SECONDS st,
      FIXED_SOURCE_PORT_CLUSTER_WINDOW_SECONDS st]"

definition positive_counts :: "DetectionSettings \<Rightarrow> nat list" where
  "positive_counts st =
     [EXTENDED_SERVICE_PROBE_MIN_EVENTS st,
      EXTENDED_SERVICE_PROBE_MIN_DISTINCT_TARGETS st,
      WEB_ADMIN_PROBE_MIN_EVENTS st,
      WEB_ADMIN_PROBE_MIN_DISTINCT_TARGETS st,
      TCP_FLAG_SCAN_MIN_EVENTS st,
      TCP_FLAG_SCAN_MIN_DISTINCT_TARGETS st,
      TCP_FLAG_SCAN_MIN_DISTINCT_PORTS st,
      TCP_ACK_SCAN_MIN_EVENTS st,
      TCP_INVALID_COMBINATION_MIN_EVENTS st,
      TCP_RESET_ANOMALY_MIN_EVENTS st,
      TCP_RESET_ANOMALY_MIN_DISTINCT_TARGETS st,
      TCP_RESET_ANOMALY_MIN_DISTINCT_PORTS st,
      SPI_THEN_ALLOWED_MIN_SPI_EVENTS st,
      INBOUND_SENSITIVE_MIN_ALLOWED_EVENTS st,
      INBOUND_SENSITIVE_MIN_DISTINCT_DESTINATIONS st,
      CRITICAL_MANAGEMENT_EXPOSURE_MIN_EVENTS st,
      WAN_TO_LAN_MIN_ALLOWED_EVENTS st,
      WAN_TO_DMZ_ADMIN_MIN_ALLOWED_EVENTS st,
      BLOCKED_THEN_ALLOWED_MIN_BLOCKED_EVENTS st,
      MULTI_SOURCE_SENSITIVE_MIN_EVENTS st,
      MULTI_SOURCE_SENSITIVE_MIN_DISTINCT_SOURCES st,
      LOW_SLOW_HORIZONTAL_MIN_EVENTS st,
      LOW_SLOW_HORIZONTAL_MIN_DISTINCT_TARGETS st,
      LOW_SLOW_VERTICAL_MIN_EVENTS st,
      LOW_SLOW_VERTICAL_MIN_DISTINCT_PORTS st,
      REPEATED_BLOCKED_SCANNER_MIN_EVENTS st,
      REPEATED_BLOCKED_SCANNER_MIN_DISTINCT_TARGETS st,
      REPEATED_BLOCKED_SCANNER_MIN_DISTINCT_PORTS st,
      INTERNAL_LATERAL_SCAN_MIN_EVENTS st,
      INTERNAL_LATERAL_SCAN_MIN_DISTINCT_TARGETS st,
      SUBNET_SWEEP_MIN_EVENTS st,
      SUBNET_SWEEP_MIN_DISTINCT_TARGETS st,
      DISTRIBUTED_SCAN_MIN_EVENTS st,
      DISTRIBUTED_SCAN_MIN_DISTINCT_SOURCES st,
      MULTI_SERVICE_SWEEP_MIN_EVENTS st,
      MULTI_SERVICE_SWEEP_MIN_DISTINCT_SERVICES st,
      MULTI_SERVICE_SWEEP_MIN_DISTINCT_TARGETS st,
      SCAN_THEN_ALLOWED_MIN_BLOCKED_EVENTS st,
      SCAN_THEN_ALLOWED_MIN_DISTINCT_TARGETS st,
      SCAN_THEN_ALLOWED_MIN_DISTINCT_PORTS st,
      MAX_CONTEXT_EVENTS_PER_INCIDENT st,
      FIXED_SOURCE_PORT_SCAN_MIN_EVENTS st,
      FIXED_SOURCE_PORT_SCAN_MIN_DISTINCT_PORTS st,
      FIXED_SOURCE_PORT_CLUSTER_MIN_EVENTS_PER_SOURCE st,
      FIXED_SOURCE_PORT_CLUSTER_MIN_TOTAL_EVENTS st]"

definition unit_ratios :: "DetectionSettings \<Rightarrow> rat list" where
  "unit_ratios st =
     [EXTENDED_SERVICE_PROBE_MIN_BLOCK_RATIO st,
      EXTENDED_SERVICE_PROBE_MIN_SYN_RATIO st,
      WEB_ADMIN_PROBE_MIN_BLOCK_RATIO st,
      WEB_ADMIN_PROBE_MIN_SYN_RATIO st,
      TCP_FLAG_SCAN_MIN_BLOCK_RATIO st,
      TCP_ACK_SCAN_MIN_BLOCK_RATIO st,
      TCP_INVALID_COMBINATION_MIN_BLOCK_RATIO st,
      TCP_RESET_ANOMALY_MIN_BLOCK_RATIO st,
      LOW_SLOW_HORIZONTAL_MIN_BLOCK_RATIO st,
      LOW_SLOW_HORIZONTAL_MIN_SYN_RATIO st,
      LOW_SLOW_VERTICAL_MIN_BLOCK_RATIO st,
      LOW_SLOW_VERTICAL_MIN_SYN_RATIO st,
      REPEATED_BLOCKED_SCANNER_MIN_BLOCK_RATIO st,
      INTERNAL_LATERAL_SCAN_MIN_BLOCK_RATIO st,
      INTERNAL_LATERAL_SCAN_MIN_SYN_RATIO st,
      SUBNET_SWEEP_MIN_BLOCK_RATIO st,
      SUBNET_SWEEP_MIN_SYN_RATIO st,
      DISTRIBUTED_SCAN_MIN_BLOCK_RATIO st,
      DISTRIBUTED_SCAN_MIN_SYN_RATIO st,
      MULTI_SERVICE_SWEEP_MIN_BLOCK_RATIO st,
      MULTI_SERVICE_SWEEP_MIN_SYN_RATIO st,
      INCIDENT_EVENT_OVERLAP_THRESHOLD st]"

definition valid_fields :: "DetectionSettings \<Rightarrow> bool" where
  "valid_fields st =
     ((\<forall>n \<in> set (positive_seconds st). 0 < n) \<and> (\<forall>n \<in> set (positive_counts st). 0 < n) \<and>
      (\<forall>r \<in> set (unit_ratios st). 0 \<le> r \<and> r \<le> 1) \<and>
      SUBNET_SWEEP_IPV4_PREFIX st \<le> 32 \<and> SUBNET_SWEEP_IPV6_PREFIX st \<le> 128 \<and> 1 < FIXED_SOURCE_PORT_CLUSTER_MIN_SOURCES st \<and>
      INTERNAL_LATERAL_SCAN_PORTS st \<noteq> [])"

text \<open>The validators: the lateral ports are valid, duplicate-free and stored in order, and the
  minimal spans fit their windows. \<open>Inl\<close> is the \<open>ValidationError\<close>.\<close>

definition valid_lateral_ports :: "int list \<Rightarrow> bool" where
  "valid_lateral_ports ports = ((\<forall>p \<in> set ports. 1 \<le> p \<and> p \<le> 65535) \<and> distinct ports)"

definition valid_spans :: "DetectionSettings \<Rightarrow> bool" where
  "valid_spans st =
     (LOW_SLOW_HORIZONTAL_MIN_SPAN_SECONDS st \<le> LOW_SLOW_HORIZONTAL_WINDOW_SECONDS st \<and>
      LOW_SLOW_VERTICAL_MIN_SPAN_SECONDS st \<le> LOW_SLOW_VERTICAL_WINDOW_SECONDS st)"

definition validate_settings :: "DetectionSettings \<Rightarrow> string + DetectionSettings" where
  "validate_settings st =
     (if valid_fields st \<and> valid_lateral_ports (INTERNAL_LATERAL_SCAN_PORTS st) \<and> valid_spans st
      then Inr (st\<lparr>INTERNAL_LATERAL_SCAN_PORTS := sort (INTERNAL_LATERAL_SCAN_PORTS st)\<rparr>)
      else Inl ''ValidationError'')"

text \<open>The older fields have no constraint; \<open>usable_settings\<close> adds what the rules' arithmetic
  relies on there: no negative window and positive event counts.\<close>

definition usable_settings :: "DetectionSettings \<Rightarrow> bool" where
  "usable_settings st =
     (0 \<le> HORIZONTAL_SCAN_WINDOW_SECONDS st \<and> 0 \<le> VERTICAL_SCAN_WINDOW_SECONDS st \<and>
      0 \<le> REMOTE_SERVICE_WINDOW_SECONDS st \<and>
      0 \<le> SPI_ANOMALY_WINDOW_SECONDS st \<and> 0 \<le> NETWORK_FLOOD_WINDOW_SECONDS st \<and>
      0 < HORIZONTAL_SCAN_MIN_EVENTS st \<and> 0 < VERTICAL_SCAN_MIN_EVENTS st \<and>
      0 < REMOTE_SERVICE_MIN_EVENTS st \<and>
      0 < SPI_ANOMALY_MIN_EVENTS st \<and> 0 < NETWORK_FLOOD_MIN_EVENTS st \<and>
      valid_fields st)"

lemma valid_fields_windows:
  "valid_fields st \<Longrightarrow> n \<in> set (positive_seconds st) \<Longrightarrow> 0 < n"
  by (simp add: valid_fields_def)

lemma valid_fields_counts:
  "valid_fields st \<Longrightarrow> n \<in> set (positive_counts st) \<Longrightarrow> 0 < n"
  by (simp add: valid_fields_def)

lemma usable_window:
  assumes "usable_settings st"
    and "n \<in> set (positive_seconds st) \<or> n = REMOTE_SERVICE_WINDOW_SECONDS st"
  shows "0 \<le> n"
  using assms valid_fields_windows [of st n] by (auto simp: usable_settings_def)

lemma usable_valid_fields: "usable_settings st \<Longrightarrow> valid_fields st"
  by (simp add: usable_settings_def)

text \<open>The defaults pass the validation unchanged.\<close>

lemma default_settings_valid: "valid_fields default_settings"
  by code_simp

lemma default_settings_validated: "validate_settings default_settings = Inr default_settings"
proof -
  have "valid_lateral_ports (INTERNAL_LATERAL_SCAN_PORTS default_settings)"
    and "valid_spans default_settings"
    and sorted: "sort (INTERNAL_LATERAL_SCAN_PORTS default_settings) = INTERNAL_LATERAL_SCAN_PORTS default_settings"
    by code_simp+
  then show ?thesis by (simp add: validate_settings_def default_settings_valid)
qed

lemma default_settings_usable [simp]: "usable_settings default_settings"
  using default_settings_valid by (simp add: usable_settings_def) (simp add: default_settings_def)

end
