(* ===== verification/Sha256.thy ===== *)
theory Sha256
  imports SocPrelude "HOL-Library.Word"
begin

text \<open>
  \<open>hashlib.sha256(data.encode("utf-8")).hexdigest()\<close>, which every identity of the program
  (signal, incident, correlation, idempotency, deduplication keys) goes through. The digest of
  the standard library is written out (FIPS 180-4) on 32-bit words with wrap-around addition; the
  round constants are those of the standard, in decimal.
\<close>

unbundle bit_operations_syntax

type_synonym w32 = "32 word"

definition rotr :: "nat \<Rightarrow> w32 \<Rightarrow> w32" where
  "rotr n x = (drop_bit n x) OR (push_bit (32 - n) x)"

definition round_constants :: "w32 list" where
  "round_constants =
    [1116352408, 1899447441, 3049323471, 3921009573, 961987163, 1508970993, 2453635748, 2870763221,
     3624381080, 310598401, 607225278, 1426881987, 1925078388, 2162078206, 2614888103, 3248222580,
     3835390401, 4022224774, 264347078, 604807628, 770255983, 1249150122, 1555081692, 1996064986,
     2554220882, 2821834349, 2952996808, 3210313671, 3336571891, 3584528711, 113926993, 338241895,
     666307205, 773529912, 1294757372, 1396182291, 1695183700, 1986661051, 2177026350, 2456956037,
     2730485921, 2820302411, 3259730800, 3345764771, 3516065817, 3600352804, 4094571909, 275423344,
     430227734, 506948616, 659060556, 883997877, 958139571, 1322822218, 1537002063, 1747873779,
     1955562222, 2024104815, 2227730452, 2361852424, 2428436474, 2756734187, 3204031479, 3329325298]"

definition initial_hash :: "w32 \<times> w32 \<times> w32 \<times> w32 \<times> w32 \<times> w32 \<times> w32 \<times> w32" where
  "initial_hash = (1779033703, 3144134277, 1013904242, 2773480762,
                   1359893119, 2600822924, 528734635, 1541459225)"

text \<open>Padding to a multiple of 64 bytes: \<open>0x80\<close>, zeros, the bit length in 8 bytes.\<close>

definition be_bytes :: "nat \<Rightarrow> int \<Rightarrow> int list" where
  "be_bytes n x = map (\<lambda>i. (x div 256 ^ (n - 1 - i)) mod 256) [0..<n]"

definition pad_message :: "int list \<Rightarrow> int list" where
  "pad_message bs = (let n = int (length bs); z = (55 - n) mod 64
     in bs @ [128] @ replicate (nat z) 0 @ be_bytes 8 (8 * n))"

fun words_of :: "int list \<Rightarrow> w32 list" where
  "words_of (a # b # c # d # rest) =
     of_int (((a * 256 + b) * 256 + c) * 256 + d) # words_of rest"
| "words_of _ = []"

fun blocks_of :: "nat \<Rightarrow> 'a list \<Rightarrow> 'a list list" where
  "blocks_of 0 xs = []"
| "blocks_of (Suc k) xs = (if xs = [] then [] else take 16 xs # blocks_of k (drop 16 xs))"

text \<open>The message schedule, kept newest first.\<close>

fun extend_schedule :: "nat \<Rightarrow> w32 list \<Rightarrow> w32 list" where
  "extend_schedule 0 ws = ws"
| "extend_schedule (Suc k) ws =
     (let w15 = ws ! 14; w2 = ws ! 1; w16 = ws ! 15; w7 = ws ! 6;
        s0 = rotr 7 w15 XOR rotr 18 w15 XOR drop_bit 3 w15;
        s1 = rotr 17 w2 XOR rotr 19 w2 XOR drop_bit 10 w2
      in extend_schedule k ((w16 + s0 + w7 + s1) # ws))"

type_synonym working = "w32 \<times> w32 \<times> w32 \<times> w32 \<times> w32 \<times> w32 \<times> w32 \<times> w32"

definition round_step :: "working \<Rightarrow> w32 \<times> w32 \<Rightarrow> working" where
  "round_step st kw = (case st of (a, b, c, d, e, f, g, h) \<Rightarrow>
     (let s1 = rotr 6 e XOR rotr 11 e XOR rotr 25 e;
        ch = (e AND f) XOR (NOT e AND g);
        t1 = h + s1 + ch + fst kw + snd kw;
        s0 = rotr 2 a XOR rotr 13 a XOR rotr 22 a;
        maj = (a AND b) XOR (a AND c) XOR (b AND c);
        t2 = s0 + maj
      in (t1 + t2, a, b, c, d + t1, e, f, g)))"

definition working_list :: "working \<Rightarrow> w32 list" where
  "working_list st = (case st of (a, b, c, d, e, f, g, h) \<Rightarrow> [a, b, c, d, e, f, g, h])"

definition compress :: "working \<Rightarrow> w32 list \<Rightarrow> working" where
  "compress st block =
     (case (st, foldl round_step st (zip round_constants (rev (extend_schedule 48 (rev block))))) of
        ((a, b, c, d, e, f, g, h), (a', b', c', d', e', f', g', h')) \<Rightarrow>
          (a + a', b + b', c + c', d + d', e + e', f + f', g + g', h + h'))"

definition sha256_words :: "int list \<Rightarrow> w32 list" where
  "sha256_words bs = (let ws = words_of (pad_message bs)
     in working_list (foldl compress initial_hash (blocks_of (length ws) ws)))"

definition hex_digit :: "int \<Rightarrow> char" where
  "hex_digit n = (if n < 10 then char_of (48 + n) else char_of (87 + n))"

definition hex_word :: "w32 \<Rightarrow> string" where
  "hex_word w = map (\<lambda>i. hex_digit ((uint w div 16 ^ (7 - i)) mod 16)) [0..<8]"

text \<open>ASCII text encodes to its own bytes in UTF-8.\<close>

definition utf8 :: "string \<Rightarrow> int list" where
  "utf8 s = map of_char s"

definition sha256_hex :: "string \<Rightarrow> string" where
  "sha256_hex s = concat (map hex_word (sha256_words (utf8 s)))"

lemma length_hex_word [simp]: "length (hex_word w) = 8"
  by (simp add: hex_word_def)

lemma length_sha256_words [simp]: "length (sha256_words bs) = 8"
  by (simp add: sha256_words_def working_list_def Let_def split: prod.splits)

lemma length_sha256_hex [simp]: "length (sha256_hex s) = 64"
proof -
  have "length (concat (map hex_word ws)) = 8 * length ws" for ws
    by (induction ws) auto
  then show ?thesis by (simp add: sha256_hex_def)
qed

end
