(* ===== verification/Signals.thy ===== *)
theory Signals
  imports Events Settings Sha256
begin

text \<open>
  The detection data model (\<open>agent/detection/models.py\<close>). \<open>validate_signal\<close> and
  \<open>validate_incident\<close> are the pydantic constructors: they reject what the field
  constraints and validators reject and store what the validators return. Field names carry the
  prefixes \<open>s_\<close> (signals) and \<open>i_\<close> (incidents).
\<close>

type_synonym metrics = pydict

record DetectionSignal =
  s_signal_id :: string
  s_rule_id :: string
  s_rule_version :: string
  s_rule_name :: string
  s_signal_type :: string
  s_signal_family :: string
  s_severity :: string
  s_confidence :: rat
  s_first_seen :: datetime
  s_last_seen :: datetime
  s_event_ids :: "string list"
  s_primary_entity :: string
  s_target_entities :: "string list"
  s_metrics :: metrics
  s_evidence :: "DetectionEvidence list"
  s_mitre_techniques :: "string list"
  s_tags :: "string list"
  s_suppressed :: bool
  s_suppression_reason :: "string option"

record IncidentBundle =
  i_incident_id :: string
  i_incident_type :: string
  i_incident_family :: string
  i_title :: string
  i_severity :: string
  i_confidence :: rat
  i_first_seen :: datetime
  i_last_seen :: datetime
  i_primary_entity :: string
  i_target_entities :: "string list"
  i_signal_ids :: "string list"
  i_event_ids :: "string list"
  i_context_event_ids :: "string list"
  i_evidence :: "DetectionEvidence list"
  i_metrics :: metrics
  i_mitre_techniques :: "string list"
  i_merge_key :: string
  i_review_reason :: "string option"
  i_absorbed_signal_ids :: "string list"

record DetectionMetrics =
  m_total_events :: nat
  m_eligible_events :: nat
  m_skipped_events :: nat
  m_signal_count :: nat
  m_suppressed_signal_count :: nat
  m_incident_count :: nat
  m_duplicate_signal_count :: nat
  m_merge_count :: nat

record DetectionResult =
  r_signals :: "DetectionSignal list"
  r_incidents :: "IncidentBundle list"
  r_suppressed_signals :: "DetectionSignal list"
  r_uncorrelated_event_ids :: "string list"
  r_metrics :: DetectionMetrics
  r_warnings :: "string list"

definition SEVERITIES :: "string list" where
  "SEVERITIES = [''informational'', ''low'', ''medium'', ''high'', ''critical'']"

definition validate_signal :: "DetectionSignal \<Rightarrow> string + DetectionSignal" where
  "validate_signal s =
     (if s_signal_id s \<noteq> [] \<and> s_rule_id s \<noteq> [] \<and> s_severity s \<in> set SEVERITIES \<and>
         0 \<le> s_confidence s \<and> s_confidence s \<le> 1 \<and> s_first_seen s \<le> s_last_seen s
      then Inr (s\<lparr>s_event_ids := sort_uniq (s_event_ids s),
                  s_target_entities := sort_uniq (s_target_entities s)\<rparr>)
      else Inl ''ValidationError'')"

definition validate_incident :: "IncidentBundle \<Rightarrow> string + IncidentBundle" where
  "validate_incident i =
     (if i_incident_id i \<noteq> [] \<and> i_severity i \<in> set SEVERITIES \<and>
         0 \<le> i_confidence i \<and> i_confidence i \<le> 1 \<and> i_first_seen i \<le> i_last_seen i \<and>
         set (i_event_ids i) \<inter> set (i_context_event_ids i) = {}
      then Inr (i\<lparr>i_signal_ids := sort_uniq (i_signal_ids i),
                  i_event_ids := sort_uniq (i_event_ids i),
                  i_context_event_ids := sort_uniq (i_context_event_ids i),
                  i_target_entities := sort_uniq (i_target_entities i),
                  i_absorbed_signal_ids := sort_uniq (i_absorbed_signal_ids i)\<rparr>)
      else Inl ''ValidationError'')"

definition generate_signal_id ::
  "string \<Rightarrow> string \<Rightarrow> string \<Rightarrow> string \<Rightarrow> datetime \<Rightarrow> string list \<Rightarrow> string" where
  "generate_signal_id rule_id rule_version primary_entity correlation_key first_seen event_ids =
     (let data = py_join ''|'' [rule_id, rule_version, primary_entity, correlation_key,
            isoformat (floor_minute first_seen), py_join '','' (sort event_ids)]
      in ''SIG-'' @ py_upper (take 12 (sha256_hex data)))"

definition generate_incident_id ::
  "string \<Rightarrow> string \<Rightarrow> string \<Rightarrow> string \<Rightarrow> datetime \<Rightarrow> string" where
  "generate_incident_id incident_family incident_type primary_entity merge_key first_seen =
     (let data = py_join ''|'' [incident_family, incident_type, primary_entity, merge_key,
            isoformat (floor_minute first_seen)]
      in ''INC-'' @ py_upper (take 12 (sha256_hex data)))"

section \<open>Well-formed signals and incidents\<close>

text \<open>What the validators establish, and what every later operation has to keep.\<close>

definition wf_signal :: "DetectionSignal \<Rightarrow> bool" where
  "wf_signal s = (s_signal_id s \<noteq> [] \<and> s_rule_id s \<noteq> [] \<and> s_severity s \<in> set SEVERITIES \<and>
     0 \<le> s_confidence s \<and> s_confidence s \<le> 1 \<and> s_first_seen s \<le> s_last_seen s \<and>
     canonical (s_event_ids s) \<and> canonical (s_target_entities s))"

definition wf_incident :: "IncidentBundle \<Rightarrow> bool" where
  "wf_incident i = (i_incident_id i \<noteq> [] \<and> i_severity i \<in> set SEVERITIES \<and>
     0 \<le> i_confidence i \<and> i_confidence i \<le> 1 \<and> i_first_seen i \<le> i_last_seen i \<and>
     set (i_event_ids i) \<inter> set (i_context_event_ids i) = {} \<and>
     canonical (i_signal_ids i) \<and> canonical (i_event_ids i) \<and>
     canonical (i_context_event_ids i) \<and> canonical (i_target_entities i) \<and>
     canonical (i_absorbed_signal_ids i))"

lemma validate_signal_wf: "validate_signal s = Inr s' \<Longrightarrow> wf_signal s'"
  by (auto simp: validate_signal_def wf_signal_def split: if_splits)

lemma validate_incident_wf: "validate_incident i = Inr i' \<Longrightarrow> wf_incident i'"
  by (auto simp: validate_incident_def wf_incident_def split: if_splits)

lemma validate_signal_idem: "wf_signal s \<Longrightarrow> validate_signal s = Inr s"
  by (simp add: validate_signal_def wf_signal_def canonical_def sort_uniq_id)

lemma validate_incident_idem: "wf_incident i \<Longrightarrow> validate_incident i = Inr i"
  by (simp add: validate_incident_def wf_incident_def canonical_def sort_uniq_id)

lemma generated_ids_nonempty [simp]:
  "generate_signal_id a b c d t es \<noteq> []" "generate_incident_id a b c d t \<noteq> []"
  by (simp_all add: generate_signal_id_def generate_incident_id_def Let_def)

lemma length_generated_ids:
  "length (generate_signal_id a b c d t es) = 16" "length (generate_incident_id a b c d t) = 16"
  by (simp_all add: generate_signal_id_def generate_incident_id_def Let_def py_upper_def)

text \<open>The signal identity does not depend on the order of the contributing events, nor on
  seconds within the first minute.\<close>

lemma generate_signal_id_perm:
  "mset es = mset es' \<Longrightarrow> floor_minute t = floor_minute t' \<Longrightarrow>
   generate_signal_id a b c d t es = generate_signal_id a b c d t' es'"
proof -
  assume "mset es = mset es'" and t: "floor_minute t = floor_minute t'"
  then have "sort es = sort es'" by (metis properties_for_sort mset_sort sorted_sort)
  then show ?thesis by (simp add: generate_signal_id_def t)
qed

end
