(* ===== verification/Contracts.thy ===== *)
theory Contracts
  imports Signals
begin

text \<open>
  Rule contracts and the rule registry (\<open>agent/detection/contracts.py\<close>,
  \<open>agent/detection/detectors/base.py\<close>, \<open>agent/detection/registry.py\<close>):
  metadata validation, event selection, the signal contract check in the order the code performs
  it, and registration. A rule is its metadata, its class and its \<open>evaluate\<close> method; an
  exception inside \<open>evaluate\<close> is \<open>Inl\<close> with the exception's type name.
\<close>

record DetectionSignalVariant =
  v_rule_id :: string
  v_rule_name :: string
  v_signal_type :: string

record DetectionRuleMetadata =
  md_rule_id :: string
  md_version :: string
  md_name :: string
  md_family :: string
  md_priority :: int
  md_supported_event_types :: "string list"
  md_required_fields :: "string list"
  md_signal_type :: string
  md_signal_variants :: "DetectionSignalVariant list"
  md_default_severity :: string
  md_mitre_techniques :: "string list"
  md_window_setting :: "string option"
  md_minimum_events_setting :: "string option"

record DetectionContext =
  ctx_settings :: DetectionSettings
  ctx_analysis_started_at :: datetime
  ctx_source_name :: string
  ctx_now :: datetime  \<comment> \<open>the clock read of the \<open>or datetime.now()\<close> fallbacks\<close>

record BaseDetectionRule =
  rule_class :: string
  metadata :: DetectionRuleMetadata
  evaluate :: "canonical_event list \<Rightarrow> DetectionContext \<Rightarrow> string + DetectionSignal list"

section \<open>Metadata validation\<close>

text \<open>\<open>[a-z][a-z0-9]*(_[a-z0-9]+)*\<close>, matched in full.\<close>

definition word_char :: "char \<Rightarrow> bool" where
  "word_char c = (is_lower c \<or> is_digit c)"

definition is_identifier :: "string \<Rightarrow> bool" where
  "is_identifier s = (case split_at (\<lambda>c. c = CHR ''_'') s of
       [] \<Rightarrow> False
     | p # ps \<Rightarrow> (case p of [] \<Rightarrow> False | c # cs \<Rightarrow> is_lower c \<and> (\<forall>x \<in> set cs. word_char x)) \<and>
         (\<forall>q \<in> set ps. q \<noteq> [] \<and> (\<forall>x \<in> set q. word_char x)))"

definition is_semver :: "string \<Rightarrow> bool" where
  "is_semver s = (let ps = split_at (\<lambda>c. c = CHR ''.'') s
     in length ps = 3 \<and> (\<forall>p \<in> set ps. p \<noteq> [] \<and> (\<forall>c \<in> set p. is_digit c)))"

definition is_display_name :: "string \<Rightarrow> bool" where
  "is_display_name s = (py_strip s \<noteq> [] \<and> CHR 0x0A \<notin> set s \<and> CHR 0x0D \<notin> set s)"

definition variant_identity :: "DetectionSignalVariant \<Rightarrow> string \<times> string \<times> string" where
  "variant_identity v = (v_rule_id v, v_rule_name v, v_signal_type v)"

definition valid_variant :: "DetectionSignalVariant \<Rightarrow> bool" where
  "valid_variant v = (is_identifier (v_rule_id v) \<and> length (v_rule_id v) \<le> 100 \<and>
     is_identifier (v_signal_type v) \<and> length (v_signal_type v) \<le> 100 \<and>
     is_display_name (v_rule_name v) \<and> length (v_rule_name v) \<le> 200)"

text \<open>The field names of the canonical event model, and those of the settings model the
  development carries.\<close>

definition canonical_fields :: "string list" where
  "canonical_fields = [''event_id'', ''timestamp'', ''observed_at'', ''src_ip'', ''dst_ip'',
     ''src_port'', ''dst_port'', ''protocol'', ''action'', ''action_reason'', ''event_type'',
     ''event_category'', ''event_outcome'', ''tcp_flags'', ''inbound_interface'',
     ''outbound_interface'', ''inbound_zone'', ''outbound_zone'', ''source_fqdns'',
     ''destination_fqdns'', ''source_username'', ''bytes'', ''packets'', ''duration_ms'',
     ''nat_type'', ''translated_src_ip'', ''translated_dst_ip'', ''translated_src_port'',
     ''translated_dst_port'', ''parser_name'', ''parser_version'', ''parser_confidence'',
     ''schema_fingerprint'', ''parse_status'', ''parse_warnings'', ''source_name'',
     ''source_line'', ''raw_record_hash'', ''safe_message_excerpt'', ''parser_metadata'']"

definition unique_trimmed :: "string list \<Rightarrow> bool" where
  "unique_trimmed xs = ((\<forall>x \<in> set xs. x \<noteq> [] \<and> x = py_strip x) \<and> distinct xs)"

text \<open>\<open>DetectionRuleMetadata.model_validate\<close>: the settings field names are the argument
  \<open>setting_names\<close>, which the default registry instantiates with \<open>settings_fields\<close>.\<close>

definition metadata_ok :: "string list \<Rightarrow> DetectionRuleMetadata \<Rightarrow> bool" where
  "metadata_ok setting_names m =
     ((\<forall>x \<in> set [md_rule_id m, md_family m, md_signal_type m].
         is_identifier x \<and> length x \<le> 100) \<and>
      is_semver (md_version m) \<and> length (md_version m) \<le> 32 \<and>
      is_display_name (md_name m) \<and> length (md_name m) \<le> 200 \<and>
      0 \<le> md_priority m \<and> md_priority m \<le> 10000 \<and>
      unique_trimmed (md_supported_event_types m) \<and> unique_trimmed (md_mitre_techniques m) \<and>
      distinct (md_required_fields m) \<and>
      (\<forall>f \<in> set (md_required_fields m). f \<in> set canonical_fields) \<and>
      (\<forall>v \<in> set (md_signal_variants m). valid_variant v) \<and>
      distinct (map variant_identity (md_signal_variants m)) \<and>
      md_default_severity m \<in> set SEVERITIES \<and>
      (\<forall>x \<in> set [md_window_setting m, md_minimum_events_setting m].
         case x of None \<Rightarrow> True | Some n \<Rightarrow> n \<in> set setting_names))"

definition validate_metadata ::
  "string list \<Rightarrow> DetectionRuleMetadata \<Rightarrow> string + DetectionRuleMetadata" where
  "validate_metadata setting_names m =
     (if metadata_ok setting_names m
      then Inr (m\<lparr>md_supported_event_types := sort (md_supported_event_types m),
                  md_mitre_techniques := sort (md_mitre_techniques m),
                  md_required_fields := sort (md_required_fields m),
                  md_signal_variants := sort_key variant_identity (md_signal_variants m)\<rparr>)
      else Inl ''ValidationError'')"

section \<open>Selecting the events of a rule\<close>

text \<open>
  \<open>getattr(event, field)\<close> as the check sees it: whether the value is present (not
  \<open>None\<close>, and not blank when it is a string).
\<close>

definition present_str :: "string option \<Rightarrow> bool" where
  "present_str v = (case v of None \<Rightarrow> False | Some s \<Rightarrow> py_strip s \<noteq> [])"

definition field_present :: "canonical_event \<Rightarrow> string \<Rightarrow> bool" where
  "field_present e f =
    (case map_of
      [(''event_id'', present_str (Some (e_event_id e))),
       (''timestamp'', e_timestamp e \<noteq> None), (''observed_at'', e_observed_at e \<noteq> None),
       (''src_ip'', present_str (e_src_ip e)), (''dst_ip'', present_str (e_dst_ip e)),
       (''src_port'', e_src_port e \<noteq> None), (''dst_port'', e_dst_port e \<noteq> None),
       (''protocol'', present_str (e_protocol e)), (''action'', present_str (e_action e)),
       (''action_reason'', present_str (e_action_reason e)),
       (''event_type'', present_str (e_event_type e)),
       (''event_category'', present_str (e_event_category e)),
       (''event_outcome'', present_str (e_event_outcome e)),
       (''tcp_flags'', present_str (e_tcp_flags e)),
       (''inbound_interface'', present_str (e_inbound_interface e)),
       (''outbound_interface'', present_str (e_outbound_interface e)),
       (''inbound_zone'', present_str (e_inbound_zone e)),
       (''outbound_zone'', present_str (e_outbound_zone e)),
       (''source_fqdns'', True), (''destination_fqdns'', True),
       (''source_username'', present_str (e_source_username e)),
       (''bytes'', e_bytes e \<noteq> None), (''packets'', e_packets e \<noteq> None),
       (''duration_ms'', e_duration_ms e \<noteq> None), (''nat_type'', present_str (e_nat_type e)),
       (''translated_src_ip'', present_str (e_translated_src_ip e)),
       (''translated_dst_ip'', present_str (e_translated_dst_ip e)),
       (''translated_src_port'', e_translated_src_port e \<noteq> None),
       (''translated_dst_port'', e_translated_dst_port e \<noteq> None),
       (''parser_name'', present_str (Some (e_parser_name e))),
       (''parser_version'', present_str (e_parser_version e)), (''parser_confidence'', True),
       (''schema_fingerprint'', present_str (e_schema_fingerprint e)),
       (''parse_status'', present_str (Some (e_parse_status e))), (''parse_warnings'', True),
       (''source_name'', present_str (e_source_name e)), (''source_line'', e_source_line e \<noteq> None),
       (''raw_record_hash'', present_str (e_raw_record_hash e)),
       (''safe_message_excerpt'', present_str (Some (e_safe_message_excerpt e))),
       (''parser_metadata'', e_parser_metadata e \<noteq> None)] f
     of None \<Rightarrow> False | Some b \<Rightarrow> b)"

definition event_has_required_fields :: "canonical_event \<Rightarrow> string list \<Rightarrow> bool" where
  "event_has_required_fields event required_fields =
     (\<forall>f \<in> set required_fields. field_present event f)"

definition select_rule_events ::
  "canonical_event list \<Rightarrow> DetectionRuleMetadata \<Rightarrow> canonical_event list" where
  "select_rule_events events m =
     filter (\<lambda>event.
        (md_supported_event_types m = [] \<or>
         (case e_event_type event of None \<Rightarrow> False
          | Some ty \<Rightarrow> ty \<in> set (md_supported_event_types m))) \<and>
        event_has_required_fields event (md_required_fields m)) events"

lemma select_rule_events_subset: "set (select_rule_events es m) \<subseteq> set es"
  by (auto simp: select_rule_events_def)

section \<open>The signal contract\<close>

text \<open>The checks in source order; the first that fails is the category raised.\<close>

definition identity_checks :: "DetectionRuleMetadata \<Rightarrow> DetectionSignal \<Rightarrow> (bool \<times> string) list" where
  "identity_checks m s =
     (if md_signal_variants m \<noteq> []
      then [((s_rule_id s, s_rule_name s, s_signal_type s)
               \<in> set (map variant_identity (md_signal_variants m)), ''undeclared_signal_variant'')]
      else [(s_rule_id s = md_rule_id m, ''rule_id_mismatch''),
            (s_rule_name s = md_name m, ''rule_name_mismatch''),
            (s_signal_type s = md_signal_type m, ''signal_type_mismatch'')])"

definition contract_checks ::
  "DetectionRuleMetadata \<Rightarrow> DetectionSignal \<Rightarrow> string set \<Rightarrow> (bool \<times> string) list" where
  "contract_checks m s input_event_ids =
     identity_checks m s @
     [(s_rule_version s = md_version m, ''rule_version_mismatch''),
      (s_signal_family s = md_family m, ''signal_family_mismatch''),
      (s_severity s \<in> set SEVERITIES, ''invalid_severity''),
      (s_event_ids s \<noteq> [], ''empty_event_ids''),
      (set (s_event_ids s) \<subseteq> input_event_ids, ''foreign_event_id''),
      ((\<forall>ev \<in> set (s_evidence s). ev_event_id ev \<in> set (s_event_ids s)),
         ''evidence_not_in_signal_events''),
      (s_first_seen s \<le> s_last_seen s, ''invalid_time_range''),
      (py_strip (s_primary_entity s) \<noteq> [], ''empty_primary_entity''),
      (distinct (s_event_ids s), ''duplicate_event_ids''),
      (distinct (map ev_event_id (s_evidence s)), ''duplicate_evidence_event_ids''),
      (distinct (s_target_entities s), ''duplicate_target_entities''),
      (distinct (s_mitre_techniques s), ''duplicate_mitre_techniques''),
      (distinct (s_tags s), ''duplicate_tags'')]"

definition validate_signal_contract ::
  "DetectionSignal \<Rightarrow> BaseDetectionRule \<Rightarrow> string set \<Rightarrow> string + unit" where
  "validate_signal_contract s rule input_event_ids =
     (case first_failure (contract_checks (metadata rule) s input_event_ids) of
        None \<Rightarrow> Inr () | Some category \<Rightarrow> Inl category)"

text \<open>The declarative contract, and the check's equivalence with it.\<close>

definition declared_identity :: "DetectionRuleMetadata \<Rightarrow> DetectionSignal \<Rightarrow> bool" where
  "declared_identity m s =
     (if md_signal_variants m = []
      then s_rule_id s = md_rule_id m \<and> s_rule_name s = md_name m \<and>
           s_signal_type s = md_signal_type m
      else (\<exists>v \<in> set (md_signal_variants m). s_rule_id s = v_rule_id v \<and>
           s_rule_name s = v_rule_name v \<and> s_signal_type s = v_signal_type v))"

definition honours_contract ::
  "DetectionRuleMetadata \<Rightarrow> string set \<Rightarrow> DetectionSignal \<Rightarrow> bool" where
  "honours_contract m input_event_ids s =
     (declared_identity m s \<and> s_rule_version s = md_version m \<and> s_signal_family s = md_family m \<and>
      s_severity s \<in> set SEVERITIES \<and>
      s_event_ids s \<noteq> [] \<and> distinct (s_event_ids s) \<and> set (s_event_ids s) \<subseteq> input_event_ids \<and>
      ev_event_id ` set (s_evidence s) \<subseteq> set (s_event_ids s) \<and>
      distinct (map ev_event_id (s_evidence s)) \<and>
      s_first_seen s \<le> s_last_seen s \<and> py_strip (s_primary_entity s) \<noteq> [] \<and>
      distinct (s_target_entities s) \<and> distinct (s_mitre_techniques s) \<and> distinct (s_tags s))"

lemma identity_checks_ok:
  "first_failure (identity_checks m s @ rest) = None \<longleftrightarrow>
     declared_identity m s \<and> first_failure rest = None"
  by (auto simp: identity_checks_def declared_identity_def variant_identity_def image_iff)

lemma contract_check:
  "validate_signal_contract s rule ids = Inr () \<longleftrightarrow> honours_contract (metadata rule) ids s"
proof -
  have "first_failure (contract_checks (metadata rule) s ids) = None
      \<longleftrightarrow> honours_contract (metadata rule) ids s"
    unfolding contract_checks_def identity_checks_ok honours_contract_def
    by (auto simp: image_subset_iff)
  then show ?thesis
    by (auto simp: validate_signal_contract_def split: option.splits)
qed

text \<open>A signal passes the contract check exactly when it honours the declared contract of
  its rule.\<close>

theorem contract_check_iff:
  "validate_signal_contract s rule ids = Inr () \<longleftrightarrow> honours_contract (metadata rule) ids s"
  by (rule contract_check)

section \<open>Registry\<close>

type_synonym registry = "(string \<times> BaseDetectionRule) list"

datatype register_error = InvalidMetadata | ConflictingRegistration

text \<open>
  \<open>register\<close>: the rule's identity attributes are the metadata's own fields
  (\<open>BaseDetectionRule\<close> exposes them as properties), so the conflict loop over them compares
  equal values and is not represented. Two rules are the same registration when class and
  metadata agree.
\<close>

definition register ::
  "string list \<Rightarrow> BaseDetectionRule \<Rightarrow> registry \<Rightarrow> register_error + registry" where
  "register setting_names rule reg =
     (case validate_metadata setting_names (metadata rule) of
        Inl e \<Rightarrow> Inl InvalidMetadata
      | Inr m \<Rightarrow>
          (case map_of reg (md_rule_id (metadata rule)) of
             Some existing \<Rightarrow>
               if rule_class existing = rule_class rule \<and> metadata existing = metadata rule
               then Inr reg else Inl ConflictingRegistration
           | None \<Rightarrow> Inr (reg @ [(md_rule_id (metadata rule), rule)])))"

definition unregister :: "string \<Rightarrow> registry \<Rightarrow> registry" where
  "unregister rule_id reg = filter (\<lambda>(k, r). k \<noteq> rule_id) reg"

definition rule_order :: "BaseDetectionRule \<Rightarrow> int \<times> string" where
  "rule_order r = (md_priority (metadata r), md_rule_id (metadata r))"

definition get_all_rules :: "registry \<Rightarrow> BaseDetectionRule list" where
  "get_all_rules reg = sort_key rule_order (map snd reg)"

definition get_rule :: "string \<Rightarrow> registry \<Rightarrow> string + BaseDetectionRule" where
  "get_rule rule_id reg = (case map_of reg rule_id of None \<Rightarrow> Inl ''KeyError'' | Some r \<Rightarrow> Inr r)"

definition wf_registry :: "registry \<Rightarrow> bool" where
  "wf_registry reg = (distinct (map fst reg) \<and>
     (\<forall>(k, r) \<in> set reg. k = md_rule_id (metadata r)))"

lemma wf_registry_Nil [simp]: "wf_registry []"
  by (simp add: wf_registry_def)

lemma wf_registry_unregister: "wf_registry reg \<Longrightarrow> wf_registry (unregister k reg)"
  by (auto simp: wf_registry_def unregister_def distinct_map_filter)

lemma wf_registry_register:
  assumes "wf_registry reg" and "register names rule reg = Inr reg'"
  shows "wf_registry reg'"
  using assms
  by (auto simp: register_def wf_registry_def map_of_eq_None_iff image_iff
      split: sum.splits option.splits if_splits)

text \<open>Rule identities in a well-formed registry are unique, so the rule order is total.\<close>

definition registered_together :: "BaseDetectionRule set \<Rightarrow> bool" where
  "registered_together A = (\<exists>reg. wf_registry reg \<and> A = snd ` set reg)"

lemma rule_order_inj:
  assumes "registered_together A"
  shows "inj_on rule_order A"
proof (rule inj_onI)
  obtain reg where reg: "wf_registry reg" and A: "A = snd ` set reg"
    using assms by (auto simp: registered_together_def)
  fix r r' assume "r \<in> A" and "r' \<in> A" and eq: "rule_order r = rule_order r'"
  then obtain k k' where k: "(k, r) \<in> set reg" and k': "(k', r') \<in> set reg"
    using A by auto
  have "k = md_rule_id (metadata r)" and "k' = md_rule_id (metadata r')"
    using reg k k' by (auto simp: wf_registry_def)
  with eq have "k = k'" by (simp add: rule_order_def)
  with k k' reg show "r = r'"
    by (metis eq_key_imp_eq_value wf_registry_def)
qed

interpretation rule_sort: separating_key rule_order registered_together
  by unfold_locales (rule rule_order_inj)

lemma register_idem:
  assumes "register names rule reg = Inr reg1"
  shows "register names rule reg1 = Inr reg1"
proof (cases "map_of reg (md_rule_id (metadata rule))")
  case None
  then have "reg1 = reg @ [(md_rule_id (metadata rule), rule)]"
    using assms by (simp add: register_def split: sum.splits)
  with None assms show ?thesis by (simp add: register_def map_add_def split: sum.splits)
next
  case (Some r)
  with assms have "reg1 = reg" by (simp add: register_def split: sum.splits if_splits)
  with assms show ?thesis by simp
qed

text \<open>Registration is idempotent, and the execution order does not depend on the order of
  registration: registries with the same rules list them in the same sequence, ascending in
  priority and then rule identity.\<close>

theorem registry_order_deterministic:
  assumes "wf_registry reg" and "mset reg = mset reg'"
  shows "get_all_rules reg = get_all_rules reg'
    \<and> sorted (map rule_order (get_all_rules reg))
    \<and> (register names rule reg = Inr reg1 \<longrightarrow> register names rule reg1 = Inr reg1)"
proof (intro conjI impI)
  have "mset (map snd reg) = mset (map snd reg')" using assms(2) by (metis mset_map)
  moreover have "registered_together (set (map snd reg))"
    using assms(1) by (auto simp: registered_together_def)
  ultimately show "get_all_rules reg = get_all_rules reg'"
    unfolding get_all_rules_def by (rule rule_sort.sort_key_mset_eq)
  show "sorted (map rule_order (get_all_rules reg))"
    by (simp add: get_all_rules_def)
qed (rule register_idem)

definition named_rule :: "string \<Rightarrow> int \<Rightarrow> BaseDetectionRule" where
  "named_rule name priority = \<lparr>rule_class = ''SampleRule'',
     metadata = \<lparr>md_rule_id = name, md_version = ''1.0.0'', md_name = ''Sample'',
       md_family = ''network_anomaly'', md_priority = priority, md_supported_event_types = [],
       md_required_fields = [], md_signal_type = ''sample'', md_signal_variants = [],
       md_default_severity = ''low'', md_mitre_techniques = [], md_window_setting = None,
       md_minimum_events_setting = None\<rparr>,
     evaluate = (\<lambda>events ctx. Inr [])\<rparr>"

theorem registry_order_deterministic_witness:
  "get_all_rules [(''b'', named_rule ''b'' 10), (''a'', named_rule ''a'' 10)]
     = get_all_rules [(''a'', named_rule ''a'' 10), (''b'', named_rule ''b'' 10)]
   \<and> sorted (map rule_order (get_all_rules [(''b'', named_rule ''b'' 10), (''a'', named_rule ''a'' 10)]))
   \<and> register [] (named_rule ''c'' 5)
        [(''b'', named_rule ''b'' 10), (''a'', named_rule ''a'' 10), (''c'', named_rule ''c'' 5)]
      = Inr [(''b'', named_rule ''b'' 10), (''a'', named_rule ''a'' 10), (''c'', named_rule ''c'' 5)]"
proof -
  have "map_sum (\<lambda>e. ()) (\<lambda>m. ()) (validate_metadata [] (metadata (named_rule ''c'' 5))) = Inr ()"
    by code_simp
  then obtain m where "validate_metadata [] (metadata (named_rule ''c'' 5)) = Inr m"
    by (cases "validate_metadata [] (metadata (named_rule ''c'' 5))") auto
  then have "register [] (named_rule ''c'' 5) [(''b'', named_rule ''b'' 10), (''a'', named_rule ''a'' 10)]
      = Inr [(''b'', named_rule ''b'' 10), (''a'', named_rule ''a'' 10), (''c'', named_rule ''c'' 5)]"
    by (simp add: register_def) (simp add: named_rule_def)
  moreover have "wf_registry [(''b'', named_rule ''b'' 10), (''a'', named_rule ''a'' 10)]"
    by (simp add: wf_registry_def named_rule_def)
  moreover have "mset [(''b'', named_rule ''b'' 10), (''a'', named_rule ''a'' 10)]
      = mset [(''a'', named_rule ''a'' 10), (''b'', named_rule ''b'' 10)]"
    by (simp add: add_mset_commute)
  ultimately show ?thesis using registry_order_deterministic by blast
qed

end
