(* ===== verification/SlidingWindow.thy ===== *)
theory SlidingWindow
  imports Events
begin

text \<open>
  \<open>agent/detection/correlation.py\<close>: the queue-based sliding window all the burst rules
  scan with. The condition function returns the pair the code returns. The main lemma shows the
  queue to be an optimisation of the direct reading: at every event, the window is the filter of
  the events so far that are within the window length of it.
\<close>

definition expired :: "int \<Rightarrow> canonical_event \<Rightarrow> canonical_event \<Rightarrow> bool" where
  "expired window_seconds event oldest =
     (case (event_time event, event_time oldest) of
        (Some t, Some t0) \<Rightarrow> elapsed t t0 > seconds window_seconds
      | _ \<Rightarrow> False)"

text \<open>The inner \<open>while\<close> loop pops expired events from the left.\<close>

definition advance :: "int \<Rightarrow> canonical_event list \<Rightarrow> canonical_event \<Rightarrow> canonical_event list" where
  "advance window_seconds window event = dropWhile (expired window_seconds event) (window @ [event])"

fun window_loop ::
  "int \<Rightarrow> (canonical_event list \<Rightarrow> bool \<times> pydict) \<Rightarrow> canonical_event list \<Rightarrow> canonical_event list
     \<Rightarrow> (canonical_event list \<times> pydict) list" where
  "window_loop window_seconds condition_fn window [] = []"
| "window_loop window_seconds condition_fn window (event # events) =
     (let window' = advance window_seconds window event;
          (is_match, context) = condition_fn window'
      in (if is_match then [(window', context)] else []) @
         window_loop window_seconds condition_fn window' events)"

definition sliding_window_scan ::
  "canonical_event list \<Rightarrow> int \<Rightarrow> (canonical_event list \<Rightarrow> bool \<times> pydict)
     \<Rightarrow> (canonical_event list \<times> pydict) list" where
  "sliding_window_scan events window_seconds condition_fn =
     window_loop window_seconds condition_fn [] events"

section \<open>The direct reading\<close>

definition time_ordered :: "canonical_event list \<Rightarrow> bool" where
  "time_ordered events = ((\<forall>e \<in> set events. e_timestamp e \<noteq> None) \<and>
     sorted (map (\<lambda>e. the (event_time e)) events))"

text \<open>The window at the last event of a prefix.\<close>

definition window_at :: "int \<Rightarrow> canonical_event list \<Rightarrow> canonical_event list" where
  "window_at window_seconds seen =
     filter (\<lambda>x. \<not> expired window_seconds (last seen) x) seen"

definition reference_scan ::
  "canonical_event list \<Rightarrow> int \<Rightarrow> (canonical_event list \<Rightarrow> bool \<times> pydict)
     \<Rightarrow> (canonical_event list \<times> pydict) list" where
  "reference_scan events window_seconds condition_fn =
     concat (map (\<lambda>n. let w = window_at window_seconds (take (Suc n) events);
                         (is_match, context) = condition_fn w
                     in if is_match then [(w, context)] else [])
       [0..<length events])"

lemma time_ordered_append:
  "time_ordered (xs @ ys) \<longleftrightarrow> time_ordered xs \<and> time_ordered ys \<and>
     (\<forall>x \<in> set xs. \<forall>y \<in> set ys. the (event_time x) \<le> the (event_time y))"
  by (auto simp: time_ordered_def sorted_append)

lemma expired_iff:
  "e_timestamp e \<noteq> None \<Longrightarrow> e_timestamp x \<noteq> None \<Longrightarrow>
   expired w e x \<longleftrightarrow> elapsed (the (event_time e)) (the (event_time x)) > seconds w"
  by (auto simp: expired_def)

text \<open>On a time-ordered prefix the expired events are a prefix of the queue.\<close>

lemma dropWhile_eq_filter:
  assumes "sorted_wrt (\<lambda>x y. p y \<longrightarrow> p x) xs"
  shows "dropWhile p xs = filter (\<lambda>x. \<not> p x) xs"
  using assms
proof (induction xs)
  case (Cons x xs)
  show ?case
  proof (cases "p x")
    case False
    with Cons.prems have "\<forall>y \<in> set xs. \<not> p y" by auto
    with False show ?thesis by (simp add: filter_id_conv)
  qed (use Cons in auto)
qed simp

lemma expired_sorted:
  assumes "time_ordered xs" and "e_timestamp e \<noteq> None"
  shows "sorted_wrt (\<lambda>x y. expired w e y \<longrightarrow> expired w e x) xs"
  using assms(1)
proof (induction xs)
  case (Cons x xs)
  then have "time_ordered xs" and x: "e_timestamp x \<noteq> None"
    and "\<forall>y \<in> set xs. e_timestamp y \<noteq> None \<and> the (event_time x) \<le> the (event_time y)"
    by (auto simp: time_ordered_def)
  with Cons.IH assms(2) show ?case
    by (fastforce simp: expired_iff less_eq_datetime_def elapsed_def)
qed simp

lemma window_at_snoc:
  assumes "time_ordered (seen @ [e])" and "seen \<noteq> []"
  shows "advance w (window_at w seen) e = window_at w (seen @ [e])"
proof -
  let ?last = "last seen"
  have ts: "e_timestamp e \<noteq> None" "\<forall>x \<in> set seen. e_timestamp x \<noteq> None"
    and le: "the (event_time ?last) \<le> the (event_time e)"
    using assms by (auto simp: time_ordered_def sorted_append)
  have "time_ordered (window_at w seen @ [e])"
    using assms(1) unfolding time_ordered_append
    by (auto simp: window_at_def time_ordered_def sorted_filter)
  then have "advance w (window_at w seen) e = filter (\<lambda>x. \<not> expired w e x) (window_at w seen @ [e])"
    unfolding advance_def by (intro dropWhile_eq_filter expired_sorted ts(1))
  moreover have "\<not> expired w e x \<longrightarrow> \<not> expired w ?last x" if "x \<in> set seen" for x
    using that ts le assms(2) by (auto simp: expired_iff less_eq_datetime_def elapsed_def)
  ultimately show ?thesis
    by (auto simp: window_at_def filter_filter intro: filter_cong)
qed

lemma window_at_single: "e_timestamp e \<noteq> None \<Longrightarrow> advance w [] e = window_at w [e]"
  by (simp add: advance_def window_at_def)

lemma window_loop_reference:
  assumes "time_ordered (seen @ rest)"
    and "window = (if seen = [] then [] else window_at w seen)"
  shows "window_loop w cond window rest =
    concat (map (\<lambda>n. let v = window_at w (take (Suc n) (seen @ rest)); (m, ctx) = cond v
                    in if m then [(v, ctx)] else [])
      [length seen..<length (seen @ rest)])"
  using assms
proof (induction rest arbitrary: seen window)
  case Nil
  then show ?case by simp
next
  case (Cons e rest)
  let ?v = "window_at w (seen @ [e])"
  have ord: "time_ordered (seen @ [e])"
    using Cons.prems(1) by (auto simp: time_ordered_append [of "seen @ [e]" rest, simplified])
  then have "advance w window e = ?v"
    using Cons.prems(2) window_at_snoc [OF ord] window_at_single
    by (auto simp: time_ordered_def)
  moreover have "window_loop w cond ?v rest =
    concat (map (\<lambda>n. let v = window_at w (take (Suc n) ((seen @ [e]) @ rest)); (m, ctx) = cond v
                    in if m then [(v, ctx)] else [])
      [length (seen @ [e])..<length ((seen @ [e]) @ rest)])"
    using Cons.prems(1) by (intro Cons.IH) auto
  moreover have "[length seen..<length (seen @ e # rest)] =
      length seen # [length (seen @ [e])..<length ((seen @ [e]) @ rest)]"
    by (simp add: upt_rec)
  ultimately show ?case by (simp add: Let_def split: prod.splits)
qed

lemma sliding_window_reference:
  assumes "time_ordered events"
  shows "sliding_window_scan events w cond = reference_scan events w cond"
  unfolding sliding_window_scan_def reference_scan_def
  using window_loop_reference [of "[]" events "[]" w cond] assms by simp

section \<open>Consequences for the rules\<close>

lemma sliding_window_match:
  assumes "time_ordered events" and "(win, ctx) \<in> set (sliding_window_scan events w cond)"
  obtains seen where "seen \<noteq> []" and "prefix seen events" and "win = window_at w seen"
    and "cond win = (True, ctx)"
proof -
  obtain n where n: "n < length events" and win: "win = window_at w (take (Suc n) events)"
    and c: "cond win = (True, ctx)"
    using assms unfolding sliding_window_reference [OF assms(1)] reference_scan_def
    by (fastforce simp: Let_def split: prod.splits if_splits)
  then show ?thesis using that [of "take (Suc n) events"] by (cases events) (auto simp: take_is_prefix)
qed

lemma sliding_window_complete:
  assumes "time_ordered events" and "seen \<noteq> []" and "prefix seen events"
    and "cond (window_at w seen) = (True, ctx)"
  shows "(window_at w seen, ctx) \<in> set (sliding_window_scan events w cond)"
proof -
  have "seen = take (Suc (length seen - 1)) events" and "length seen - 1 < length events"
    using assms(2,3) by (cases seen; auto simp: prefix_def)+
  then obtain n where "seen = take (Suc n) events" and "n < length events" by blast
  then show ?thesis
    using assms(4) unfolding sliding_window_reference [OF assms(1)] reference_scan_def
    by (force simp: Let_def)
qed

text \<open>With a non-negative window length no matched window is empty, each is a subsequence of the
  input ending in the event that was added, and it spans at most the window length.\<close>

lemma sliding_window_window:
  assumes "time_ordered events" and "(win, ctx) \<in> set (sliding_window_scan events w cond)"
    and "0 \<le> w"
  shows "win \<noteq> []" and "subseq win events" and "time_ordered win"
    and "elapsed (the (event_time (last win))) (the (event_time (hd win))) \<le> seconds w"
proof -
  obtain seen where ne: "seen \<noteq> []" and pre: "prefix seen events" and win: "win = window_at w seen"
    using sliding_window_match [OF assms(1,2)] by blast
  have ord: "time_ordered seen"
    using pre assms(1) by (auto simp: prefix_def time_ordered_append)
  then have ts: "\<forall>x \<in> set seen. e_timestamp x \<noteq> None" by (simp add: time_ordered_def)
  have keep: "\<not> expired w (last seen) (last seen)"
    using assms(3) ts ne by (simp add: expired_iff elapsed_def seconds_def)
  have win': "win = filter (\<lambda>x. \<not> expired w (last seen) x) (butlast seen) @ [last seen]"
    using keep ne win append_butlast_last_id [OF ne]
    by (metis (no_types, lifting) filter.simps filter_append window_at_def)
  then show "win \<noteq> []" by simp
  show "subseq win events"
    using win pre by (metis prefix_imp_subseq subseq_filter_left subseq_order.trans window_at_def)
  show "time_ordered win"
    using ord by (auto simp: win window_at_def time_ordered_def sorted_filter)
  have "hd win \<in> set win" using \<open>win \<noteq> []\<close> by simp
  moreover have lw: "last win = last seen" using win' by simp
  ultimately have "hd win \<in> set seen \<and> \<not> expired w (last seen) (hd win)"
    by (auto simp: win window_at_def)
  then show "elapsed (the (event_time (last win))) (the (event_time (hd win))) \<le> seconds w"
    using ts ne lw expired_iff [of "last seen" "hd win" w] by (metis last_in_set linorder_not_less)
qed

definition sample_event :: "string \<Rightarrow> int \<Rightarrow> canonical_event" where
  "sample_event eid t =
     (CanonicalLogEvent eid ''mock'' ''parsed'')
       \<lparr>e_timestamp := Some (Aware (Instant (seconds t)))\<rparr>"



end
