(* ===== verification/RuleInterface.thy ===== *)
theory RuleInterface
  imports Contracts SlidingWindow
begin

text \<open>
  The interface between the engine and a detection rule. The engine's side is one turn of the
  rule loop of \<open>DetectionEngine.analyze\<close> (\<open>agent/detection/engine.py\<close>): select
  the rule's events, evaluate, keep the signals that pass the contract, turn failures into
  warnings. The rule's side is the locale \<open>sound_rule\<close>: on an input the engine can
  produce, evaluation does not raise and every signal honours the rule's contract.
\<close>

definition identifier_char :: "char \<Rightarrow> bool" where
  "identifier_char c = (is_upper c \<or> is_lower c \<or> is_digit c \<or> c \<in> set ''-_.:'')"

definition bounded_identifier :: "string \<Rightarrow> nat \<Rightarrow> string" where
  "bounded_identifier value max_length =
     (let safe_value = map (\<lambda>c. if identifier_char c then c else CHR ''_'') value;
          bounded = take max_length safe_value
      in if bounded = [] then ''unknown'' else bounded)"

definition invalid_signal_warning :: "BaseDetectionRule \<Rightarrow> DetectionSignal \<Rightarrow> string \<Rightarrow> string" where
  "invalid_signal_warning rule s category =
     ''Rule '' @ md_rule_id (metadata rule) @ '' produced invalid signal '' @
     bounded_identifier (s_signal_id s) 80 @ '': '' @ category"

definition run_rule ::
  "canonical_event list \<Rightarrow> DetectionContext \<Rightarrow> BaseDetectionRule
     \<Rightarrow> DetectionSignal list \<times> string list" where
  "run_rule eligible_events ctx rule =
     (let rule_events = select_rule_events eligible_events (metadata rule)
      in if rule_events = [] then ([], [])
         else (case evaluate rule rule_events ctx of
             Inl ex \<Rightarrow> ([], [''Rule '' @ md_rule_id (metadata rule) @ '' failed: '' @ ex])
           | Inr signals \<Rightarrow>
               (let ids = set (map e_event_id rule_events);
                    verdict = (\<lambda>s. validate_signal_contract s rule ids)
                in (filter (\<lambda>s. verdict s = Inr ()) signals,
                    concat (map (\<lambda>s. case verdict s of Inr _ \<Rightarrow> []
                                      | Inl category \<Rightarrow> [invalid_signal_warning rule s category])
                              signals)))))"

text \<open>The events the engine hands to a rule.\<close>

definition rule_input :: "canonical_event list \<Rightarrow> bool" where
  "rule_input events = (time_ordered events \<and> distinct (map e_event_id events) \<and>
     (\<forall>e \<in> set events. e_event_id e \<noteq> []))"

lemma rule_input_filter: "rule_input es \<Longrightarrow> rule_input (filter p es)"
  by (auto simp: rule_input_def time_ordered_def sorted_filter distinct_map_filter)

lemma rule_input_select: "rule_input es \<Longrightarrow> rule_input (select_rule_events es m)"
  by (simp add: select_rule_events_def rule_input_filter)

text \<open>Whatever a rule does, the engine only lets contract-honouring signals through.\<close>

lemma run_rule_honours:
  "s \<in> set (fst (run_rule es ctx rule)) \<Longrightarrow>
   honours_contract (metadata rule) (e_event_id ` set (select_rule_events es (metadata rule))) s"
  by (auto simp: run_rule_def Let_def contract_check split: if_splits sum.splits)

lemma run_rule_event_ids:
  "s \<in> set (fst (run_rule es ctx rule)) \<Longrightarrow> set (s_event_ids s) \<subseteq> e_event_id ` set es"
  using run_rule_honours [of s es ctx rule]
    image_mono [OF select_rule_events_subset [of es "metadata rule"], of e_event_id]
  unfolding honours_contract_def by (meson subset_trans)

locale sound_rule =
  fixes rule :: BaseDetectionRule
    and settings_ok :: "DetectionSettings \<Rightarrow> bool"
  assumes never_raises:
    "rule_input events \<Longrightarrow> settings_ok (ctx_settings ctx) \<Longrightarrow>
     \<exists>signals. evaluate rule (select_rule_events events (metadata rule)) ctx = Inr signals"
  and keeps_contract:
    "rule_input events \<Longrightarrow> settings_ok (ctx_settings ctx) \<Longrightarrow>
     evaluate rule (select_rule_events events (metadata rule)) ctx = Inr signals \<Longrightarrow>
     s \<in> set signals \<Longrightarrow>
     honours_contract (metadata rule) (e_event_id ` set (select_rule_events events (metadata rule))) s"
begin

text \<open>The engine reports no warning for a sound rule and drops none of its signals.\<close>

lemma run_rule_clean:
  assumes "rule_input events" and "settings_ok (ctx_settings ctx)"
  shows "snd (run_rule events ctx rule) = []"
    and "select_rule_events events (metadata rule) \<noteq> [] \<Longrightarrow>
      evaluate rule (select_rule_events events (metadata rule)) ctx
        = Inr (fst (run_rule events ctx rule))"
proof -
  obtain signals where
    ev: "evaluate rule (select_rule_events events (metadata rule)) ctx = Inr signals"
    using never_raises [OF assms] by blast
  then have ok: "\<forall>s \<in> set signals. validate_signal_contract s rule
      (e_event_id ` set (select_rule_events events (metadata rule))) = Inr ()"
    using keeps_contract [OF assms ev] by (simp add: contract_check)
  then show "snd (run_rule events ctx rule) = []"
    by (simp add: run_rule_def Let_def ev)
  show "evaluate rule (select_rule_events events (metadata rule)) ctx
        = Inr (fst (run_rule events ctx rule))"
    if "select_rule_events events (metadata rule) \<noteq> []"
    using ok that by (simp add: run_rule_def Let_def ev filter_id_conv)
qed

end

end
