(* ===== verification/Exposure.thy ===== *)
theory Exposure
  imports Events
begin

text \<open>
  Zone and port vocabulary of the exposure rules, and the effective (translated) destination of
  an event (\<open>agent/detection/detectors/exposure_helpers.py\<close>). The predicates of that
  module on public and private addresses are in theory \<open>Addresses\<close>.
\<close>

definition MAX_ZONE_TEXT_CHARS :: nat where
  "MAX_ZONE_TEXT_CHARS = 128"

definition MAX_ZONE_TOKENS :: nat where
  "MAX_ZONE_TOKENS = 16"

definition WAN_ZONE_TOKENS :: "string list" where
  "WAN_ZONE_TOKENS = [''wan'', ''internet'', ''external'', ''outside'', ''untrust'']"

definition LAN_ZONE_TOKENS :: "string list" where
  "LAN_ZONE_TOKENS = [''lan'', ''internal'', ''inside'', ''trust'']"

definition DMZ_ZONE_TOKENS :: "string list" where
  "DMZ_ZONE_TOKENS = [''dmz'']"

definition SENSITIVE_SERVICE_PORTS :: "int list" where
  "SENSITIVE_SERVICE_PORTS = [20, 21, 22, 23, 135, 139, 389, 445, 1433, 3306, 3389, 5432, 5900]"

definition DMZ_ADMINISTRATIVE_PORTS :: "int list" where
  "DMZ_ADMINISTRATIVE_PORTS = [8000, 8080, 8443, 8888, 9000, 9443, 10000]"

definition CRITICAL_MANAGEMENT_PORTS :: "int list" where
  "CRITICAL_MANAGEMENT_PORTS = [161, 623, 2375, 5985, 6379, 9200, 10250, 11211, 27017]"

definition EXPOSURE_SERVICE_PORTS :: "int list" where
  "EXPOSURE_SERVICE_PORTS = SENSITIVE_SERVICE_PORTS @ CRITICAL_MANAGEMENT_PORTS"

definition zone_separator :: "char \<Rightarrow> bool" where
  "zone_separator c = (c = CHR ''-'' \<or> c = CHR ''_'' \<or> is_space c)"

definition zone_tokens :: "string option \<Rightarrow> string list" where
  "zone_tokens value = (case value of None \<Rightarrow> []
     | Some v \<Rightarrow> take MAX_ZONE_TOKENS (tokens zone_separator (take MAX_ZONE_TEXT_CHARS (py_lower v))))"

text \<open>\<open>re.fullmatch(r"wan\d+", token)\<close>.\<close>

definition numbered_wan :: "string \<Rightarrow> bool" where
  "numbered_wan token = (take 3 token = ''wan'' \<and> drop 3 token \<noteq> [] \<and>
     (\<forall>c \<in> set (drop 3 token). is_digit c))"

definition contains_zone_token :: "string option \<Rightarrow> string list \<Rightarrow> bool \<Rightarrow> bool" where
  "contains_zone_token value expected allow_numbered_wan =
     (\<exists>token \<in> set (zone_tokens value).
        token \<in> set expected \<or> (allow_numbered_wan \<and> numbered_wan token))"

definition is_explicit_wan_zone :: "string option \<Rightarrow> bool" where
  "is_explicit_wan_zone value = contains_zone_token value WAN_ZONE_TOKENS True"

definition is_explicit_lan_zone :: "string option \<Rightarrow> bool" where
  "is_explicit_lan_zone value = contains_zone_token value LAN_ZONE_TOKENS False"

definition is_explicit_dmz_zone :: "string option \<Rightarrow> bool" where
  "is_explicit_dmz_zone value = contains_zone_token value DMZ_ZONE_TOKENS False"

definition bounded_zone :: "string option \<Rightarrow> string" where
  "bounded_zone value = (case value of None \<Rightarrow> ''unknown''
     | Some v \<Rightarrow> (let normalized = take MAX_ZONE_TEXT_CHARS (py_join '' '' (tokens is_space v))
         in if normalized = [] then ''unknown'' else normalized))"

definition effective_destination_ip :: "canonical_event \<Rightarrow> string option" where
  "effective_destination_ip event = py_or (e_translated_dst_ip event) (e_dst_ip event)"

definition effective_destination_port :: "canonical_event \<Rightarrow> int option" where
  "effective_destination_port event =
     (case e_translated_dst_port event of Some p \<Rightarrow> Some p | None \<Rightarrow> e_dst_port event)"

definition has_destination_translation :: "canonical_event \<Rightarrow> bool" where
  "has_destination_translation event =
     ((case e_translated_dst_ip event of None \<Rightarrow> False | Some ip \<Rightarrow> ip \<noteq> [] \<and> py_strip ip \<noteq> []) \<or>
      e_translated_dst_port event \<noteq> None)"

definition sensitive_service_for_port :: "int option \<Rightarrow> string option" where
  "sensitive_service_for_port port = (case port of None \<Rightarrow> None
     | Some p \<Rightarrow> if p \<in> set EXPOSURE_SERVICE_PORTS then classify_service (Some p) else None)"

definition administrative_service_for_port :: "int option \<Rightarrow> string option" where
  "administrative_service_for_port port =
     (case sensitive_service_for_port port of
        Some service \<Rightarrow> Some service
      | None \<Rightarrow> (case port of Some p \<Rightarrow>
            if p \<in> set DMZ_ADMINISTRATIVE_PORTS then Some ''web_admin'' else None
          | None \<Rightarrow> None))"

definition is_critical_management_port :: "int option \<Rightarrow> bool" where
  "is_critical_management_port port =
     (case port of None \<Rightarrow> False | Some p \<Rightarrow> p \<in> set CRITICAL_MANAGEMENT_PORTS)"

text \<open>Every exposure port has a service name, so the sensitive-service lookup never fails on
  one; the ordinary web ports are not exposure ports.\<close>

lemma exposure_ports_classified:
  "\<forall>p \<in> set EXPOSURE_SERVICE_PORTS. classify_service (Some p) \<noteq> None"
  by code_simp

lemma exposure_ports_exclude_web: "(80::int) \<notin> set EXPOSURE_SERVICE_PORTS \<and>
   (443::int) \<notin> set EXPOSURE_SERVICE_PORTS"
  by code_simp

lemma sensitive_service_iff:
  "sensitive_service_for_port (Some p) \<noteq> None \<longleftrightarrow> p \<in> set EXPOSURE_SERVICE_PORTS"
  using exposure_ports_classified by (auto simp: sensitive_service_for_port_def)

lemma length_zone_tokens [list_bounds]: "length (zone_tokens v) \<le> 16"
  by (simp add: zone_tokens_def MAX_ZONE_TOKENS_def split: option.split)

lemma effective_destination_ip_truthy:
  "truthy (effective_destination_ip e) \<longleftrightarrow> truthy (e_translated_dst_ip e) \<or> truthy (e_dst_ip e)"
  by (simp add: effective_destination_ip_def py_or_def)

end
