(* ===== verification/Scoring.thy ===== *)
theory Scoring
  imports Signals Exposure
begin

text \<open>
  Severity and confidence (\<open>agent/detection/scoring.py\<close>): the typed facts derived from an
  incident's canonical events, the family-aware severity policy and the confidence formulas.
\<close>

definition RECON_FAMILIES :: "string list" where
  "RECON_FAMILIES = [''network_scanning'', ''service_probing'']"

definition EVENT_AWARE_FAMILIES :: "string list" where
  "EVENT_AWARE_FAMILIES = RECON_FAMILIES @
     [''firewall_exposure'', ''firewall_policy'', ''network_intrusion_candidate'']"

datatype AssetValue = Standard | Sensitive | Critical

datatype Targeting = Targeted | Broad

primrec asset_name :: "AssetValue \<Rightarrow> string" where
  "asset_name Standard = ''standard''"
| "asset_name Sensitive = ''sensitive''"
| "asset_name Critical = ''critical''"

primrec targeting_name :: "Targeting \<Rightarrow> string" where
  "targeting_name Targeted = ''targeted''"
| "targeting_name Broad = ''broad''"

record IncidentSeverityFacts =
  f_family :: string
  f_total_event_count :: nat
  f_allowed_event_count :: nat
  f_blocked_event_count :: nat
  f_distinct_destination_count :: nat
  f_asset_value :: AssetValue
  f_targeting :: Targeting
  f_max_sensitive_ports_per_destination :: nat

definition as_metrics :: "IncidentSeverityFacts \<Rightarrow> metrics" where
  "as_metrics f =
     [(''severity_family'', PStr (f_family f)),
      (''severity_total_event_count'', PInt (int (f_total_event_count f))),
      (''allowed_event_count'', PInt (int (f_allowed_event_count f))),
      (''blocked_event_count'', PInt (int (f_blocked_event_count f))),
      (''distinct_destination_count'', PInt (int (f_distinct_destination_count f))),
      (''asset_value'', PStr (asset_name (f_asset_value f))),
      (''targeting'', PStr (targeting_name (f_targeting f))),
      (''max_sensitive_ports_per_destination'',
         PInt (int (f_max_sensitive_ports_per_destination f)))]"

text \<open>\<open>{event.event_id: event for event in events}.values()\<close>: one event per identifier,
  at the place of its first occurrence, the last one winning.\<close>

definition unique_events :: "canonical_event list \<Rightarrow> canonical_event list" where
  "unique_events events = map snd (dict_of e_event_id events)"

definition derive_incident_severity_facts ::
  "canonical_event list \<Rightarrow> string \<Rightarrow> IncidentSeverityFacts" where
  "derive_incident_severity_facts events family =
     (let ordered_events = unique_events events;
          allowed_events = filter is_allowed ordered_events;
          blocked_events = filter is_blocked ordered_events;
          destinations = set (somes (\<lambda>e. truthy_value (effective_destination_ip e)) ordered_events);
          allowed_ports = set (somes effective_destination_port allowed_events);
          asset_value =
            (if allowed_ports \<inter> set CRITICAL_MANAGEMENT_PORTS \<noteq> {} then Critical
             else if allowed_ports \<inter> set SENSITIVE_SERVICE_PORTS \<noteq> {} then Sensitive
             else Standard);
          sensitive_pairs = somes (\<lambda>e.
            (case (truthy_value (effective_destination_ip e), effective_destination_port e) of
               (Some d, Some p) \<Rightarrow> if p \<in> set SENSITIVE_SERVICE_PORTS then Some (d, p) else None
             | _ \<Rightarrow> None)) allowed_events;
          max_sensitive_ports =
            foldl max 0 (map (\<lambda>(d, ps). card (set (map snd ps))) (group_by fst sensitive_pairs));
          distinct_destination_count = card destinations
      in \<lparr>f_family = family,
          f_total_event_count = length ordered_events,
          f_allowed_event_count = length allowed_events,
          f_blocked_event_count = length blocked_events,
          f_distinct_destination_count = distinct_destination_count,
          f_asset_value = asset_value,
          f_targeting = (if distinct_destination_count \<le> 2 then Targeted else Broad),
          f_max_sensitive_ports_per_destination = max_sensitive_ports\<rparr>)"

section \<open>Confidence\<close>

definition calculate_signal_confidence :: "nat \<Rightarrow> nat \<Rightarrow> rat \<Rightarrow> rat \<Rightarrow> rat" where
  "calculate_signal_confidence event_count threshold_count base_confidence max_confidence =
     (if threshold_count = 0 then base_confidence
      else (let ratio = of_nat event_count / of_nat threshold_count
        in if ratio < 1 then base_confidence * ratio
           else (let extra = ratio - 1;
                     boost = (1 - 1 / (1 + extra * (1/2))) * (max_confidence - base_confidence)
             in min (base_confidence + boost) max_confidence)))"

definition calculate_incident_confidence :: "DetectionSignal list \<Rightarrow> rat" where
  "calculate_incident_confidence signals =
     (if signals = [] then 0
      else (let confs = rev (sort (map s_confidence signals)); top_confs = take 3 confs
        in sum_list top_confs / of_nat (length top_confs)))"

section \<open>Severity\<close>

definition severity_value :: "string \<Rightarrow> nat option" where
  "severity_value s = map_of (zip SEVERITIES [0..<5]) s"

definition value_severity :: "nat \<Rightarrow> string" where
  "value_severity n = SEVERITIES ! n"

definition severity_rank :: "string \<Rightarrow> nat" where
  "severity_rank s = (case severity_value s of None \<Rightarrow> 0 | Some n \<Rightarrow> n)"

definition legacy_signal_severity :: "DetectionSignal list \<Rightarrow> nat" where
  "legacy_signal_severity signals = foldl max 0 (map (\<lambda>s. severity_rank (s_severity s)) signals)"

text \<open>\<open>primary_entity\<close> and \<open>settings\<close> are deleted unread by the code and dropped here.\<close>

definition calculate_incident_severity ::
  "DetectionSignal list \<Rightarrow> IncidentSeverityFacts option \<Rightarrow> string" where
  "calculate_incident_severity signals facts =
    (if signals = [] then ''informational''
     else (let legacy = legacy_signal_severity signals in
       case (case facts of None \<Rightarrow> None
             | Some f \<Rightarrow> if f_family f \<in> set EVENT_AWARE_FAMILIES then Some f else None) of
         None \<Rightarrow>
           (let total_events = sum_list (map (\<lambda>s. length (s_event_ids s)) signals);
                distinct_targets = card (\<Union> (set (map (\<lambda>s. set (s_target_entities s)) signals)))
            in value_severity (if total_events > 500 \<or> distinct_targets > 50
                               then min 4 (legacy + 1) else legacy))
       | Some f \<Rightarrow>
           if f_allowed_event_count f = 0 \<and> f_family f \<in> set RECON_FAMILIES
           then value_severity (if f_distinct_destination_count f \<ge> 25 then 2 else 1)
           else if f_allowed_event_count f > 0
           then (let v0 = (case f_asset_value f of Standard \<Rightarrow> 2 | Sensitive \<Rightarrow> 3 | Critical \<Rightarrow> 4);
                     v1 = (if f_targeting f = Targeted \<and>
                              f_max_sensitive_ports_per_destination f \<ge> 2
                           then min 4 (v0 + 1) else v0);
                     v2 = (if f_total_event_count f > 500 \<or> f_distinct_destination_count f > 50
                           then min 4 (v1 + 1) else v1)
                 in value_severity v2)
           else ''low''))"

section \<open>Facts about the facts\<close>

lemma unique_events_ids:
  "map e_event_id (unique_events es) = map fst (dict_of e_event_id es)"
  by (auto simp: unique_events_def dest: dict_of_member)

lemma distinct_unique_events: "distinct (map e_event_id (unique_events es))"
  by (simp add: unique_events_ids)

lemma set_unique_events: "set (unique_events es) \<subseteq> set es"
  by (auto simp: unique_events_def dest: dict_of_member)

lemma ids_unique_events: "e_event_id ` set (unique_events es) = e_event_id ` set es"
  by (metis keys_dict_of list.set_map unique_events_ids)

lemma unique_events_distinct: "inj_on e_event_id (set es) \<Longrightarrow> set (unique_events es) = set es"
  by (rule subset_antisym [OF set_unique_events])
     (metis ids_unique_events inj_on_image_eq_iff order_refl set_unique_events subset_refl)

text \<open>The facts count every event once, and allowed and blocked events are disjoint.\<close>

lemma facts_total: "f_total_event_count (derive_incident_severity_facts es fam) =
    card (e_event_id ` set es)"
proof -
  have "length (unique_events es) = card (set (map e_event_id (unique_events es)))"
    by (metis distinct_card distinct_unique_events length_map)
  then show ?thesis by (simp add: derive_incident_severity_facts_def Let_def ids_unique_events)
qed

lemma facts_allowed_blocked:
  "f_allowed_event_count (derive_incident_severity_facts es fam)
     + f_blocked_event_count (derive_incident_severity_facts es fam)
   \<le> f_total_event_count (derive_incident_severity_facts es fam)"
proof -
  have "length (filter is_allowed xs) + length (filter is_blocked xs) \<le> length xs" for xs
    by (induction xs) (auto simp: not_blocked_and_allowed)
  then show ?thesis by (simp add: derive_incident_severity_facts_def Let_def)
qed

lemma facts_allowed_zero:
  "f_allowed_event_count (derive_incident_severity_facts es fam) = 0 \<longleftrightarrow>
     (\<forall>e \<in> set (unique_events es). \<not> is_allowed e)"
  by (simp add: derive_incident_severity_facts_def Let_def filter_empty_conv)

lemma facts_family [simp]: "f_family (derive_incident_severity_facts es fam) = fam"
  by (simp add: derive_incident_severity_facts_def Let_def)

section \<open>Confidence bounds\<close>

lemma boost_bounds:
  fixes x :: rat
  assumes "0 \<le> x"
  shows "0 \<le> 1 - 1 / (1 + x)" and "1 - 1 / (1 + x) \<le> 1"
  using assms by (simp_all add: divide_le_eq_1)

lemma boost_mono:
  fixes x y :: rat
  assumes "1 \<le> x" and "x \<le> y"
  shows "1 / (1 + (y - 1) * (1/2)) \<le> 1 / (1 + (x - 1) * (1/2))"
proof -
  have "0 \<le> (x - 1) * (1/2)" using assms(1) by (intro mult_nonneg_nonneg) auto
  then have "0 < 1 + (x - 1) * (1/2)" by (rule add_pos_nonneg [OF zero_less_one])
  moreover have "1 + (x - 1) * (1/2) \<le> 1 + (y - 1) * (1/2)"
    using assms(2) by (intro add_left_mono mult_right_mono diff_right_mono) auto
  ultimately show ?thesis by (rule frac_le [OF zero_le_one order_refl])
qed

lemma signal_confidence_facts:
  assumes "0 \<le> base" and "base \<le> cap"
  shows "0 \<le> calculate_signal_confidence n k base cap
    \<and> calculate_signal_confidence n k base cap \<le> cap
    \<and> calculate_signal_confidence k k base cap = base
    \<and> (n \<le> n' \<longrightarrow>
        calculate_signal_confidence n k base cap \<le> calculate_signal_confidence n' k base cap)"
proof (cases "k = 0")
  case True
  with assms show ?thesis by (simp add: calculate_signal_confidence_def)
next
  case False
  then have k: "0 < (of_nat k :: rat)" by simp
  let ?c = "\<lambda>n. calculate_signal_confidence n k base cap"
  let ?r = "\<lambda>n. of_nat n / of_nat k :: rat"
  let ?b = "\<lambda>n. base + (1 - 1 / (1 + (?r n - 1) * (1/2))) * (cap - base)"
  have low: "?c n = base * ?r n" if "?r n < 1" for n
    using that False by (simp add: calculate_signal_confidence_def)
  have high: "?c n = min (?b n) cap" if "\<not> ?r n < 1" for n
    using that False by (simp add: calculate_signal_confidence_def Let_def)
  have r0: "0 \<le> ?r n" for n by simp
  have base_high: "base \<le> ?c n \<and> ?c n \<le> cap" if "\<not> ?r n < 1" for n
  proof -
    have "0 \<le> (1 - 1 / (1 + (?r n - 1) * (1/2))) * (cap - base)"
      using that assms boost_bounds(1) [of "(?r n - 1) * (1/2)"] by (intro mult_nonneg_nonneg) auto
    then show ?thesis using high [OF that] assms(2) by auto
  qed
  have low_bound: "0 \<le> ?c n \<and> ?c n \<le> base" if "?r n < 1" for n
    using low [OF that] assms(1) that r0 [of n] mult_left_le [of "?r n" base]
    by (simp add: mult_nonneg_nonneg)
  have bounds: "0 \<le> ?c n \<and> ?c n \<le> cap" for n
    using base_high [of n] low_bound [of n] assms by (cases "?r n < 1") auto
  have mono: "?c n \<le> ?c n'" if "n \<le> n'"
  proof -
    have rr: "?r n \<le> ?r n'" using that k by (simp add: divide_right_mono)
    show ?thesis
    proof (cases "?r n < 1")
      case True
      show ?thesis
      proof (cases "?r n' < 1")
        case True
        with \<open>?r n < 1\<close> show ?thesis using mult_left_mono [OF rr assms(1)] by (simp only: low)
      next
        case False
        then show ?thesis using low_bound [OF \<open>?r n < 1\<close>] base_high [OF False] by linarith
      qed
    next
      case False
      with rr have n': "\<not> ?r n' < 1" by linarith
      have "1 / (1 + (?r n' - 1) * (1/2)) \<le> 1 / (1 + (?r n - 1) * (1/2))"
        using False rr by (intro boost_mono) simp_all
      then have "?b n \<le> ?b n'" using assms(2) by (simp add: mult_right_mono)
      then show ?thesis using high [OF False] high [OF n'] by auto
    qed
  qed
  have "?c k = base" using False assms by (simp add: calculate_signal_confidence_def)
  with bounds mono show ?thesis by blast
qed

text \<open>A signal's confidence never leaves \<open>[0, max_confidence]\<close>, reaches the base
  confidence exactly at the rule's threshold and never decreases when more events are seen.\<close>

theorem signal_confidence_bounds:
  assumes "0 \<le> base" and "base \<le> cap"
  shows "0 \<le> calculate_signal_confidence n k base cap
    \<and> calculate_signal_confidence n k base cap \<le> cap
    \<and> calculate_signal_confidence k k base cap = base
    \<and> (n \<le> n' \<longrightarrow>
        calculate_signal_confidence n k base cap \<le> calculate_signal_confidence n' k base cap)"
  using assms by (rule signal_confidence_facts)

theorem signal_confidence_bounds_witness:
  "0 \<le> calculate_signal_confidence 30 10 (3/5) (9/10)
    \<and> calculate_signal_confidence 30 10 (3/5) (9/10) \<le> 9/10
    \<and> calculate_signal_confidence 10 10 (3/5) (9/10) = 3/5
    \<and> calculate_signal_confidence 30 10 (3/5) (9/10) \<le> calculate_signal_confidence 40 10 (3/5) (9/10)"
  using signal_confidence_bounds [of "3/5" "9/10" 30 10 40] signal_confidence_bounds [of "3/5" "9/10" 10 10 10]
  by simp

lemma incident_confidence_bounds:
  assumes "\<forall>s \<in> set signals. 0 \<le> s_confidence s \<and> s_confidence s \<le> 1"
  shows "0 \<le> calculate_incident_confidence signals \<and> calculate_incident_confidence signals \<le> 1"
proof (cases "signals = []")
  case True
  then show ?thesis by (simp add: calculate_incident_confidence_def)
next
  case False
  define best where "best = take 3 (rev (sort (map s_confidence signals)))"
  have "set best \<subseteq> s_confidence ` set signals"
    using set_take_subset [of 3 "rev (sort (map s_confidence signals))"] by (auto simp: best_def)
  then have b: "\<forall>c \<in> set best. 0 \<le> c \<and> c \<le> 1" using assms by auto
  have len: "0 < length best" using False by (simp add: best_def)
  have "0 \<le> sum_list best" using b by (intro sum_list_nonneg) auto
  moreover have "sum_list best \<le> of_nat (length best)"
    using b by (induction best) auto
  ultimately have "0 \<le> sum_list best / of_nat (length best)
      \<and> sum_list best / of_nat (length best) \<le> 1"
    using len by (simp add: divide_le_eq_1)
  moreover have "calculate_incident_confidence signals = sum_list best / of_nat (length best)"
    using False by (simp only: calculate_incident_confidence_def Let_def best_def if_False)
  ultimately show ?thesis by simp
qed

section \<open>Severity policy\<close>

lemma foldl_max_le: "(\<forall>x \<in> set xs. x \<le> b) \<Longrightarrow> a \<le> b \<Longrightarrow> foldl max a xs \<le> b" for a b :: nat
  by (induction xs arbitrary: a) auto

lemma severity_rank_le: "severity_rank s \<le> 4"
proof -
  have "\<forall>n. severity_value s = Some n \<longrightarrow> n \<in> set [0..<5]"
    unfolding severity_value_def by (metis map_of_SomeD set_zip_rightD)
  then show ?thesis by (auto simp: severity_rank_def split: option.split)
qed

lemma legacy_severity_le: "legacy_signal_severity ss \<le> 4"
  unfolding legacy_signal_severity_def by (rule foldl_max_le) (auto simp: severity_rank_le)

lemma value_severity_in: "n \<le> 4 \<Longrightarrow> value_severity n \<in> set SEVERITIES"
  by (simp add: value_severity_def SEVERITIES_def nth_Cons split: nat.splits)

lemma severity_rank_value: "n \<le> 4 \<Longrightarrow> severity_rank (value_severity n) = n"
proof -
  have "\<forall>n \<in> set [0..<5]. severity_rank (value_severity n) = n" by code_simp
  then show "n \<le> 4 \<Longrightarrow> severity_rank (value_severity n) = n" by auto
qed

lemma incident_severity_in: "calculate_incident_severity ss facts \<in> set SEVERITIES"
proof -
  have "''informational'' \<in> set SEVERITIES" "''low'' \<in> set SEVERITIES"
    by (simp_all add: SEVERITIES_def)
  moreover have "value_severity n \<in> set SEVERITIES" if "n \<le> 4" for n
    using that by (rule value_severity_in)
  ultimately show ?thesis
    using legacy_severity_le [of ss]
    by (auto simp: calculate_incident_severity_def Let_def split: option.splits AssetValue.splits)
qed

text \<open>Fully blocked reconnaissance is never graded above medium, whatever the severities of
  the contributing signals and however many events there are; it is medium exactly when at least
  25 distinct destinations were touched.\<close>

theorem blocked_recon_capped:
  assumes "signals \<noteq> []" and "family \<in> set RECON_FAMILIES"
    and "\<forall>e \<in> set events. \<not> is_allowed e"
  defines "facts \<equiv> derive_incident_severity_facts events family"
  shows "calculate_incident_severity signals (Some facts) =
    (if f_distinct_destination_count facts \<ge> 25 then ''medium'' else ''low'')"
proof -
  have "f_allowed_event_count facts = 0"
    using assms(3) set_unique_events by (auto simp: facts_def facts_allowed_zero)
  then show ?thesis
    using assms(1,2)
    by (simp add: calculate_incident_severity_def facts_def EVENT_AWARE_FAMILIES_def
        value_severity_def SEVERITIES_def)
qed

definition scored_signal :: DetectionSignal where
  "scored_signal = \<lparr>s_signal_id = ''SIG-1'', s_rule_id = ''network_scan_vertical'',
     s_rule_version = ''1.1.0'', s_rule_name = ''Vertical Port Scan'',
     s_signal_type = ''vertical_scan'', s_signal_family = ''network_scanning'',
     s_severity = ''critical'', s_confidence = 3/5, s_first_seen = Instant 0,
     s_last_seen = Instant 0, s_event_ids = [''E1''], s_primary_entity = ''203.0.113.7'',
     s_target_entities = [''10.0.0.1''], s_metrics = [], s_evidence = [],
     s_mitre_techniques = [], s_tags = [], s_suppressed = False, s_suppression_reason = None\<rparr>"

definition scored_event :: "string \<Rightarrow> string \<Rightarrow> int \<Rightarrow> canonical_event" where
  "scored_event eid action port = (CanonicalLogEvent eid ''mock'' ''parsed'')
     \<lparr>e_action := Some action, e_dst_ip := Some ''10.0.0.1'', e_dst_port := Some port\<rparr>"

theorem blocked_recon_capped_witness:
  "calculate_incident_severity [scored_signal]
     (Some (derive_incident_severity_facts
        [scored_event ''E1'' ''block'' 22, scored_event ''E2'' ''drop'' 6379] ''network_scanning'')) =
    (if f_distinct_destination_count (derive_incident_severity_facts
        [scored_event ''E1'' ''block'' 22, scored_event ''E2'' ''drop'' 6379] ''network_scanning'') \<ge> 25
     then ''medium'' else ''low'')"
proof -
  have "\<forall>e \<in> set [scored_event ''E1'' ''block'' 22, scored_event ''E2'' ''drop'' 6379]. \<not> is_allowed e"
    by code_simp
  then show ?thesis by (intro blocked_recon_capped) (simp_all add: RECON_FAMILIES_def)
qed

text \<open>An incident of an event-aware family with an allowed event is graded at least medium,
  at least high when a sensitive service was allowed and critical when a critical management
  service was; without an allowed event an exposure or policy incident stays low.\<close>

theorem exposure_severity_floor:
  assumes "signals \<noteq> []" and "f_family facts \<in> set EVENT_AWARE_FAMILIES"
  shows "(f_allowed_event_count facts > 0 \<longrightarrow>
      severity_rank (calculate_incident_severity signals (Some facts)) \<ge>
        (case f_asset_value facts of Standard \<Rightarrow> 2 | Sensitive \<Rightarrow> 3 | Critical \<Rightarrow> 4))
    \<and> (f_allowed_event_count facts = 0 \<and> f_family facts \<notin> set RECON_FAMILIES \<longrightarrow>
      calculate_incident_severity signals (Some facts) = ''low'')"
  using assms
  by (auto simp: calculate_incident_severity_def Let_def severity_rank_value
      split: AssetValue.splits)

theorem exposure_severity_floor_witness:
  "severity_rank (calculate_incident_severity [scored_signal]
     (Some (derive_incident_severity_facts [scored_event ''E1'' ''allow'' 6379] ''firewall_exposure''))) \<ge> 4"
proof -
  let ?f = "derive_incident_severity_facts [scored_event ''E1'' ''allow'' 6379] ''firewall_exposure''"
  have "f_allowed_event_count ?f > 0 \<and> f_asset_value ?f = Critical" by code_simp
  with exposure_severity_floor [of "[scored_signal]" ?f] show ?thesis
    by (simp add: EVENT_AWARE_FAMILIES_def)
qed

end
