(* ===== verification/Detectors.thy ===== *)
theory Detectors
  imports RuleInterface Scoring
begin

text \<open>
  The steps the burst rules of \<open>agent/detection/detectors\<close> share: the grouping and
  scanning loop, the construction of a signal from a matched window, and the lemmas that reduce
  the soundness of a rule to its grouping key and its constants. A matched window is never
  empty for the non-negative window lengths of \<open>usable_settings\<close>, so the ratio divisions
  are never by zero there.
\<close>

section \<open>Steps shared by the evaluation loops\<close>

text \<open>\<open>match_events[0].timestamp or datetime.now()\<close>, and the same at the other end; an
  empty list is the \<open>IndexError\<close> of the subscript.\<close>

definition time_or :: "datetime \<Rightarrow> canonical_event \<Rightarrow> datetime" where
  "time_or fallback e = (case event_time e of Some t \<Rightarrow> t | None \<Rightarrow> fallback)"

definition seen_at :: "DetectionContext \<Rightarrow> canonical_event \<Rightarrow> datetime" where
  "seen_at ctx = time_or (ctx_now ctx)"

text \<open>\<open>str(e.action).lower() in ["block", "deny", "drop"]\<close>.\<close>

definition raw_block :: "canonical_event \<Rightarrow> bool" where
  "raw_block e = (py_lower (case e_action e of None \<Rightarrow> ''None'' | Some a \<Rightarrow> a)
     \<in> set [''block'', ''deny'', ''drop''])"

definition ratio :: "('a \<Rightarrow> bool) \<Rightarrow> 'a list \<Rightarrow> rat" where
  "ratio p xs = of_nat (count_if p xs) / of_nat (length xs)"

definition protocol_or_unknown :: "canonical_event \<Rightarrow> string" where
  "protocol_or_unknown e = (case truthy_value (e_protocol e) of None \<Rightarrow> ''UNKNOWN'' | Some p \<Rightarrow> p)"

text \<open>The tail of every loop body: identity and signal. The identity the signal carries is the
  rule's own or a declared variant; the identifier is derived from \<open>id_rule\<close>.\<close>

definition own_identity :: "DetectionRuleMetadata \<Rightarrow> string \<Rightarrow> DetectionSignalVariant" where
  "own_identity md signal_type =
     \<lparr>v_rule_id = md_rule_id md, v_rule_name = md_name md, v_signal_type = signal_type\<rparr>"

definition assemble_signal ::
  "DetectionRuleMetadata \<Rightarrow> DetectionSignalVariant \<Rightarrow> string \<Rightarrow> string list \<Rightarrow> datetime \<Rightarrow> datetime
   \<Rightarrow> pydict \<Rightarrow> string \<Rightarrow> string \<Rightarrow> rat \<Rightarrow> string \<Rightarrow> string list \<Rightarrow> string list \<Rightarrow> string list
   \<Rightarrow> DetectionEvidence list \<Rightarrow> string + DetectionSignal" where
  "assemble_signal md identity id_rule event_ids first_seen last_seen match_context primary
     correlation_key confidence severity targets techniques tags evidence =
     validate_signal
       \<lparr>s_signal_id = generate_signal_id id_rule (md_version md) primary correlation_key first_seen event_ids,
        s_rule_id = v_rule_id identity, s_rule_version = md_version md,
        s_rule_name = v_rule_name identity, s_signal_type = v_signal_type identity,
        s_signal_family = md_family md, s_severity = severity, s_confidence = confidence,
        s_first_seen = first_seen, s_last_seen = last_seen, s_event_ids = event_ids,
        s_primary_entity = primary, s_target_entities = targets, s_metrics = match_context,
        s_evidence = evidence, s_mitre_techniques = techniques, s_tags = tags,
        s_suppressed = False, s_suppression_reason = None\<rparr>"

text \<open>With three items of evidence, the first matched events.\<close>

definition build_signal ::
  "DetectionRuleMetadata \<Rightarrow> canonical_event list \<Rightarrow> datetime \<Rightarrow> datetime \<Rightarrow> pydict \<Rightarrow> string
   \<Rightarrow> string \<Rightarrow> string \<Rightarrow> rat \<Rightarrow> string \<Rightarrow> string \<Rightarrow> string list \<Rightarrow> string list
   \<Rightarrow> string list \<Rightarrow> string + DetectionSignal" where
  "build_signal md match_events first_seen last_seen match_context primary correlation_key reason
     confidence signal_type severity targets techniques tags =
     bind_err (select_representative_evidence match_events 3 reason (md_rule_id md) match_context)
       (assemble_signal md (own_identity md signal_type) (md_rule_id md) (map e_event_id match_events)
          first_seen last_seen match_context primary correlation_key confidence severity targets
          techniques tags)"

definition emit_signal ::
  "DetectionRuleMetadata \<Rightarrow> DetectionContext \<Rightarrow> canonical_event list \<Rightarrow> pydict \<Rightarrow> string
   \<Rightarrow> string \<Rightarrow> string \<Rightarrow> rat \<Rightarrow> string \<Rightarrow> string \<Rightarrow> string list \<Rightarrow> string list
   \<Rightarrow> string list \<Rightarrow> string + DetectionSignal" where
  "emit_signal md ctx match_events match_context primary correlation_key reason confidence
     signal_type severity targets techniques tags =
     (if match_events = [] then Inl ''IndexError''
      else build_signal md match_events (seen_at ctx (hd match_events))
             (seen_at ctx (last match_events)) match_context primary correlation_key reason
             confidence signal_type severity targets techniques tags)"

definition concat_err :: "('a \<Rightarrow> 'e + 'b list) \<Rightarrow> 'a list \<Rightarrow> 'e + 'b list" where
  "concat_err f xs = bind_err (map_err f xs) (\<lambda>yss. Inr (concat yss))"

lemma variant_fields [simp]:
  "\<lparr>v_rule_id = v_rule_id v, v_rule_name = v_rule_name v, v_signal_type = v_signal_type v\<rparr> = v"
  by simp

lemma assemble_signal_ok:
  assumes "v_rule_id v \<noteq> []" and "t0 \<le> t1" and "0 \<le> conf" and "conf \<le> 1" and "sev \<in> set SEVERITIES"
  shows "\<exists>s. assemble_signal md v id_rule ids t0 t1 mc prim key conf sev targets techs tags evs = Inr s"
  using assms by (simp add: assemble_signal_def validate_signal_def)

lemma assemble_signal_fields:
  assumes "assemble_signal md v id_rule ids t0 t1 mc prim key conf sev targets techs tags evs = Inr s"
  shows "s_event_ids s = sort_uniq ids" and "s_primary_entity s = prim"
    and "s_target_entities s = sort_uniq targets" and "s_severity s = sev"
    and "s_metrics s = mc" and "s_evidence s = evs" and "s_rule_id s = v_rule_id v"
    and "s_first_seen s = t0" and "s_last_seen s = t1"
  using assms by (auto simp: assemble_signal_def validate_signal_def split: if_splits)

definition declared_variant :: "DetectionRuleMetadata \<Rightarrow> DetectionSignalVariant \<Rightarrow> bool" where
  "declared_variant md v =
     (md_signal_variants md = [] \<and> v = own_identity md (md_signal_type md) \<or> v \<in> set (md_signal_variants md))"

lemma assemble_signal_honours:
  assumes "assemble_signal md v id_rule ids t0 t1 mc prim key conf sev targets techs tags evs = Inr s"
    and "ids \<noteq> []" and "set ids \<subseteq> input" and "py_strip prim \<noteq> []"
    and "ev_event_id ` set evs \<subseteq> set ids" and "distinct (map ev_event_id evs)"
    and "distinct techs" and "distinct tags" and "declared_variant md v"
  shows "honours_contract md input s"
proof -
  have s: "s_rule_id s = v_rule_id v" "s_rule_name s = v_rule_name v" "s_signal_type s = v_signal_type v"
    "s_rule_version s = md_version md" "s_signal_family s = md_family md"
    "s_event_ids s = sort_uniq ids" "s_evidence s = evs"
    "s_primary_entity s = prim" "s_mitre_techniques s = techs" "s_tags s = tags"
    using assms(1) by (auto simp: assemble_signal_def validate_signal_def split: if_splits)
  have ident: "declared_identity md s"
    using assms(9) by (auto simp: declared_identity_def declared_variant_def own_identity_def s)
  have wf: "wf_signal s"
    using assms(1) by (auto simp: assemble_signal_def intro: validate_signal_wf)
  show ?thesis
    unfolding honours_contract_def
    using ident s wf assms(2-8) by (simp add: wf_signal_def canonical_def)
qed

lemma build_signal_ok:
  assumes "rule_input es" and "md_rule_id md \<noteq> []" and "t0 \<le> t1"
    and "0 \<le> conf" and "conf \<le> 1" and "sev \<in> set SEVERITIES"
  shows "\<exists>s. build_signal md es t0 t1 mc prim key reason conf ty sev targets techs tags = Inr s"
proof -
  obtain evs where "select_representative_evidence es 3 reason (md_rule_id md) mc = Inr evs"
    using select_representative_evidence_ok [of es 3 reason "md_rule_id md" mc] assms(1)
    by (auto simp: rule_input_def)
  then show ?thesis using assms(2-)
    by (simp add: build_signal_def assemble_signal_ok own_identity_def)
qed

lemma time_or_ordered:
  assumes "time_ordered es" and "es \<noteq> []"
  shows "time_or fallback (hd es) \<le> time_or fallback (last es)"
proof -
  have ts: "\<forall>e \<in> set es. e_timestamp e \<noteq> None"
    and srt: "sorted (map (\<lambda>e. the (event_time e)) es)"
    using assms(1) by (auto simp: time_ordered_def)
  have "the (event_time (hd es)) \<le> the (event_time (last es))"
    using srt assms(2) by (cases es rule: rev_cases) (auto simp: sorted_append hd_append)
  moreover have "time_or fallback e = the (event_time e)" if "e \<in> set es" for e
    using ts that by (auto simp: time_or_def)
  ultimately show ?thesis using assms(2) by simp
qed

lemma seen_at_ordered:
  "time_ordered es \<Longrightarrow> es \<noteq> [] \<Longrightarrow> seen_at ctx (hd es) \<le> seen_at ctx (last es)"
  unfolding seen_at_def by (rule time_or_ordered)

lemma emit_signal_ok:
  assumes "rule_input es" and "es \<noteq> []" and "md_rule_id md \<noteq> []"
    and "0 \<le> conf" and "conf \<le> 1" and "sev \<in> set SEVERITIES"
  shows "\<exists>s. emit_signal md ctx es mc prim key reason conf ty sev targets techs tags = Inr s"
proof -
  have "seen_at ctx (hd es) \<le> seen_at ctx (last es)"
    using assms(1,2) by (intro seen_at_ordered) (simp_all add: rule_input_def)
  then show ?thesis
    using build_signal_ok [OF assms(1,3)] assms(2,4-) by (simp add: emit_signal_def)
qed

text \<open>Evidence selected from the matched events quotes each of them once.\<close>

lemma selected_evidence:
  assumes "select_representative_evidence es n reason src mc = Inr evs" and "rule_input es"
  shows "ev_event_id ` set evs \<subseteq> e_event_id ` set es" and "distinct (map ev_event_id evs)"
proof -
  have evids: "map ev_event_id evs = take n (map e_event_id es)"
    by (rule select_representative_evidence_ids [OF assms(1)])
  show "ev_event_id ` set evs \<subseteq> e_event_id ` set es"
    by (metis evids list.set_map set_take_subset)
  show "distinct (map ev_event_id evs)"
    using assms(2) unfolding evids by (simp add: rule_input_def distinct_take)
qed

lemma build_signal_honours:
  assumes "build_signal md es t0 t1 mc prim key reason conf ty sev targets techs tags = Inr s"
    and "rule_input es" and "es \<noteq> []" and "py_strip prim \<noteq> []"
    and "e_event_id ` set es \<subseteq> ids" and "distinct techs" and "distinct tags"
    and "md_signal_variants md = [] \<and> ty = md_signal_type md \<or>
         (md_rule_id md, md_name md, ty) \<in> set (map variant_identity (md_signal_variants md))"
  shows "honours_contract md ids s"
proof -
  obtain evs where ev: "select_representative_evidence es 3 reason (md_rule_id md) mc = Inr evs"
    and s: "assemble_signal md (own_identity md ty) (md_rule_id md) (map e_event_id es) t0 t1 mc prim key
        conf sev targets techs tags evs = Inr s"
    using assms(1) by (auto simp: build_signal_def bind_err_Inr)
  have "declared_variant md (own_identity md ty)"
    using assms(8) by (auto simp: declared_variant_def own_identity_def variant_identity_def)
  then show ?thesis
    using selected_evidence [OF ev assms(2)] assms(3-7)
    by (intro assemble_signal_honours [OF s]) auto
qed

lemma emit_signal_honours:
  assumes "emit_signal md ctx es mc prim key reason conf ty sev targets techs tags = Inr s"
    and "rule_input es" and "py_strip prim \<noteq> []"
    and "e_event_id ` set es \<subseteq> ids" and "distinct techs" and "distinct tags"
    and "md_signal_variants md = [] \<and> ty = md_signal_type md \<or>
         (md_rule_id md, md_name md, ty) \<in> set (map variant_identity (md_signal_variants md))"
  shows "honours_contract md ids s"
  using assms build_signal_honours by (auto simp: emit_signal_def split: if_splits)

lemma concat_err_Inr:
  "concat_err f xs = Inr ys \<longleftrightarrow> (\<exists>yss. map_err f xs = Inr yss \<and> ys = concat yss)"
  by (auto simp: concat_err_def bind_err_Inr)

lemma concat_err_member:
  "concat_err f xs = Inr ys \<Longrightarrow> y \<in> set ys \<Longrightarrow> \<exists>x \<in> set xs. \<exists>zs. f x = Inr zs \<and> y \<in> set zs"
  unfolding concat_err_Inr using map_err_member by fastforce

lemma map_err_set: "map_err f xs = Inr ys \<Longrightarrow> y \<in> set ys \<longleftrightarrow> (\<exists>x \<in> set xs. f x = Inr y)"
  by (induction xs arbitrary: ys) (auto simp: bind_err_Inr)

lemma map_err_each: "map_err f xs = Inr ys \<Longrightarrow> x \<in> set xs \<Longrightarrow> \<exists>y. f x = Inr y"
  by (induction xs arbitrary: ys) (auto simp: bind_err_Inr)

lemma concat_err_set:
  "concat_err f xs = Inr ys \<Longrightarrow>
   y \<in> set ys \<longleftrightarrow> (\<exists>x \<in> set xs. \<exists>zs. f x = Inr zs \<and> y \<in> set zs)"
  unfolding concat_err_Inr using map_err_set by fastforce

lemma concat_err_each: "concat_err f xs = Inr ys \<Longrightarrow> x \<in> set xs \<Longrightarrow> \<exists>zs. f x = Inr zs"
  using map_err_each [of f xs _ x] by (auto simp: concat_err_Inr)

lemma map_err_total: "(\<And>x. x \<in> set xs \<Longrightarrow> \<exists>y. f x = Inr y) \<Longrightarrow> \<exists>ys. map_err f xs = Inr ys"
proof (induction xs)
  case (Cons x xs)
  then obtain y ys where "f x = Inr y" and "map_err f xs = Inr ys" by force
  then show ?case by simp
qed simp

lemma concat_err_total:
  "(\<And>x. x \<in> set xs \<Longrightarrow> \<exists>ys. f x = Inr ys) \<Longrightarrow> \<exists>ys. concat_err f xs = Inr ys"
  using map_err_total [of xs f] by (auto simp: concat_err_def)

lemma map_err_sound:
  assumes "\<And>x. x \<in> set xs \<Longrightarrow> \<exists>y. f x = Inr y \<and> P y"
  shows "\<exists>ys. map_err f xs = Inr ys \<and> (\<forall>y \<in> set ys. P y)"
  using map_err_total [of xs f] map_err_member [of f xs] assms by fastforce

lemma concat_err_sound:
  assumes "\<And>x. x \<in> set xs \<Longrightarrow> \<exists>ys. f x = Inr ys \<and> (\<forall>y \<in> set ys. P y)"
  shows "\<exists>ys. concat_err f xs = Inr ys \<and> (\<forall>y \<in> set ys. P y)"
  using concat_err_total [of xs f] concat_err_member [of f xs] assms by fastforce

text \<open>Windows of a group of the rule's events are inputs of the same kind.\<close>

lemma subseq_distinct_map: "subseq xs ys \<Longrightarrow> distinct (map f ys) \<Longrightarrow> distinct (map f xs)"
  by (induction rule: list_emb.induct) (auto dest: subseq_set)

lemma rule_input_subseq: "subseq xs es \<Longrightarrow> time_ordered xs \<Longrightarrow> rule_input es \<Longrightarrow> rule_input xs"
  using subseq_set [of xs es] subseq_distinct_map [of xs es e_event_id]
  by (auto simp: rule_input_def)

text \<open>
  The loop of the window rules: group the usable events, skip groups below the minimum, bring each
  group in order (the burst rules keep it as it is), scan it with the window condition and turn
  every matched window into a signal.
\<close>

definition scan_arranged ::
  "(canonical_event list \<Rightarrow> canonical_event list) \<Rightarrow>
   (canonical_event \<Rightarrow> 'k) \<Rightarrow> (canonical_event \<Rightarrow> bool) \<Rightarrow> int \<Rightarrow> nat
   \<Rightarrow> ('k \<Rightarrow> canonical_event list \<Rightarrow> bool \<times> pydict)
   \<Rightarrow> ('k \<Rightarrow> canonical_event list \<Rightarrow> pydict \<Rightarrow> string + DetectionSignal)
   \<Rightarrow> canonical_event list \<Rightarrow> string + DetectionSignal list" where
  "scan_arranged arrange key usable window_seconds min_events check_window emit events =
     concat_err (\<lambda>(k, evs). if length evs < min_events then Inr []
         else map_err (\<lambda>(win, mc). emit k win mc)
                (sliding_window_scan (arrange evs) window_seconds (check_window k)))
       (group_by key (filter usable events))"

definition scan_groups ::
  "(canonical_event \<Rightarrow> 'k) \<Rightarrow> (canonical_event \<Rightarrow> bool) \<Rightarrow> int \<Rightarrow> nat
   \<Rightarrow> ('k \<Rightarrow> canonical_event list \<Rightarrow> bool \<times> pydict)
   \<Rightarrow> ('k \<Rightarrow> canonical_event list \<Rightarrow> pydict \<Rightarrow> string + DetectionSignal)
   \<Rightarrow> canonical_event list \<Rightarrow> string + DetectionSignal list" where
  "scan_groups = scan_arranged (\<lambda>evs. evs)"

text \<open>\<open>sorted(events, key=lambda event: (event.timestamp or fallback, event.event_id))\<close>.\<close>

definition ordered_events :: "datetime \<Rightarrow> canonical_event list \<Rightarrow> canonical_event list" where
  "ordered_events fallback events = sort_key (\<lambda>e. (time_or fallback e, e_event_id e)) events"

lemma sorted_by_time:
  assumes "\<forall>e \<in> set es. e_timestamp e \<noteq> None"
    and "\<And>e. e \<in> set es \<Longrightarrow> fst (key e) = the (event_time e)"
  shows "time_ordered (sort_key key es)"
proof -
  let ?o = "sort_key key es"
  have "sorted_wrt (\<lambda>a b. key a \<le> key b) ?o"
    using sorted_sort_key [of key es] by (simp add: sorted_map)
  then have "sorted_wrt (\<lambda>a b. the (event_time a) \<le> the (event_time b)) ?o"
  proof (rule sorted_wrt_mono_rel [rotated])
    fix a b assume "a \<in> set ?o" "b \<in> set ?o" "key a \<le> key b"
    then have "fst (key a) \<le> fst (key b)" by (auto simp: less_eq_prod_def less_imp_le)
    then show "the (event_time a) \<le> the (event_time b)"
      using assms(2) \<open>a \<in> set ?o\<close> \<open>b \<in> set ?o\<close> by simp
  qed
  then show ?thesis using assms(1) by (simp add: time_ordered_def sorted_map)
qed

lemma rule_input_sorted:
  assumes "rule_input es" and "\<And>e. e \<in> set es \<Longrightarrow> fst (key e) = the (event_time e)"
  shows "rule_input (sort_key key es)"
proof -
  have "time_ordered (sort_key key es)"
    using assms by (intro sorted_by_time) (auto simp: rule_input_def time_ordered_def)
  moreover have "distinct (map e_event_id (sort_key key es))"
    using assms(1) by (simp add: rule_input_def distinct_map)
  ultimately show ?thesis using assms(1) by (simp add: rule_input_def)
qed

lemma rule_input_ordered: "rule_input es \<Longrightarrow> rule_input (ordered_events fallback es)"
  unfolding ordered_events_def
  by (rule rule_input_sorted) (auto simp: rule_input_def time_ordered_def time_or_def)

lemma set_ordered_events [simp]: "set (ordered_events fallback es) = set es"
  by (simp add: ordered_events_def)

lemma length_ordered_events [simp]: "length (ordered_events fallback es) = length es"
  by (simp add: ordered_events_def)

text \<open>What an arrangement has to keep of a group.\<close>

definition keeps_group :: "(canonical_event list \<Rightarrow> canonical_event list) \<Rightarrow> bool" where
  "keeps_group arrange = (\<forall>es. rule_input es \<longrightarrow>
     rule_input (arrange es) \<and> set (arrange es) = set es \<and> length (arrange es) = length es)"

lemma keeps_group_id [simp]: "keeps_group (\<lambda>evs. evs)"
  by (simp add: keeps_group_def)

lemma keeps_group_ordered [simp]: "keeps_group (ordered_events fallback)"
  by (simp add: keeps_group_def rule_input_ordered)

lemma group_window:
  assumes "keeps_group arrange" and "rule_input es"
    and "(k, evs) \<in> set (group_by key (filter p es))" and "0 \<le> w"
    and "(win, mc) \<in> set (sliding_window_scan (arrange evs) w cond)"
  shows "rule_input win" and "win \<noteq> []" and "set win \<subseteq> set es"
    and "\<forall>e \<in> set win. p e \<and> key e = k"
proof -
  have evs: "evs = filter (\<lambda>x. key x = k) (filter p es)"
    using group_by_member(1) [OF assms(3)] .
  have "rule_input evs" using assms(2) by (simp only: evs rule_input_filter)
  then have ri: "rule_input (arrange evs)" and same: "set (arrange evs) = set evs"
    using assms(1) by (auto simp: keeps_group_def)
  then have ord: "time_ordered (arrange evs)" by (simp add: rule_input_def)
  note win = sliding_window_window [OF ord assms(5,4)]
  show "rule_input win" by (rule rule_input_subseq [OF win(2,3) ri])
  show "win \<noteq> []" by (rule win(1))
  have sub: "set win \<subseteq> set evs" using win(2) subseq_set same by blast
  then show "set win \<subseteq> set es" and "\<forall>e \<in> set win. p e \<and> key e = k"
    by (auto simp: evs)
qed

lemma scan_arranged_sound:
  assumes "keeps_group arrange" and "rule_input es" and "0 \<le> w"
    and emit: "\<And>k win mc. rule_input win \<Longrightarrow> win \<noteq> [] \<Longrightarrow> set win \<subseteq> set es \<Longrightarrow>
      \<forall>e \<in> set win. p e \<and> key e = k \<Longrightarrow> \<exists>s. emit k win mc = Inr s \<and> P s"
  shows "\<exists>ss. scan_arranged arrange key p w n cond emit es = Inr ss \<and> (\<forall>s \<in> set ss. P s)"
proof -
  have win: "\<exists>s. emit k win mc = Inr s \<and> P s"
    if "(k, evs) \<in> set (group_by key (filter p es))"
      and "(win, mc) \<in> set (sliding_window_scan (arrange evs) w (cond k))" for k evs win mc
    using group_window [OF assms(1,2) that(1) assms(3) that(2)] by (rule emit)
  have "\<exists>zs. (if length evs < n then Inr [] else map_err (\<lambda>(win, mc). emit k win mc)
        (sliding_window_scan (arrange evs) w (cond k))) = Inr zs \<and> (\<forall>s \<in> set zs. P s)"
    if "(k, evs) \<in> set (group_by key (filter p es))" for k evs
  proof (cases "length evs < n")
    case False
    have "\<exists>zs. map_err (\<lambda>(win, mc). emit k win mc) (sliding_window_scan (arrange evs) w (cond k)) = Inr zs
        \<and> (\<forall>s \<in> set zs. P s)"
      by (rule map_err_sound, clarify) (rule win [OF that])
    with False show ?thesis by simp
  qed simp
  then show ?thesis
    unfolding scan_arranged_def by (intro concat_err_sound) auto
qed

lemmas scan_groups_sound =
  scan_arranged_sound [OF keeps_group_id, folded scan_groups_def]

lemma scan_arranged_member:
  assumes "scan_arranged arrange key p w n cond emit es = Inr ss"
  shows "s \<in> set ss \<longleftrightarrow> (\<exists>k evs win mc. (k, evs) \<in> set (group_by key (filter p es)) \<and>
     n \<le> length evs \<and> (win, mc) \<in> set (sliding_window_scan (arrange evs) w (cond k)) \<and>
     emit k win mc = Inr s)" (is "_ \<longleftrightarrow> ?rhs")
proof -
  let ?f = "\<lambda>(k, evs). if length evs < n then Inr []
         else map_err (\<lambda>(win, mc). emit k win mc) (sliding_window_scan (arrange evs) w (cond k))"
  let ?gs = "group_by key (filter p es)"
  have ss: "concat_err ?f ?gs = Inr ss" using assms by (simp add: scan_arranged_def)
  have total: "\<exists>zs. ?f g = Inr zs" if "g \<in> set ?gs" for g
    by (rule concat_err_each [OF ss that])
  have "s \<in> set ss \<longleftrightarrow> (\<exists>g \<in> set ?gs. \<exists>zs. ?f g = Inr zs \<and> s \<in> set zs)"
    by (rule concat_err_set [OF ss])
  also have "\<dots> \<longleftrightarrow> ?rhs"
  proof
    assume "\<exists>g \<in> set ?gs. \<exists>zs. ?f g = Inr zs \<and> s \<in> set zs"
    then show ?rhs by (fastforce split: if_splits dest: map_err_member)
  next
    assume ?rhs
    then obtain k evs win mc where g: "(k, evs) \<in> set ?gs" and n: "n \<le> length evs"
      and win: "(win, mc) \<in> set (sliding_window_scan (arrange evs) w (cond k))" and e: "emit k win mc = Inr s"
      by blast
    obtain zs where zs: "?f (k, evs) = Inr zs" using total [OF g] by blast
    then have "s \<in> set zs" using n win e
      by (auto simp: map_err_set split: if_splits intro!: bexI [of _ "(win, mc)"])
    then show "\<exists>g \<in> set ?gs. \<exists>zs. ?f g = Inr zs \<and> s \<in> set zs" using g zs by blast
  qed
  finally show ?thesis .
qed

lemma group_by_filter_member:
  assumes "x \<in> set es" and "p x"
  shows "(key x, filter (\<lambda>e. p e \<and> key e = key x) es) \<in> set (group_by key (filter p es))"
proof -
  have "map_of (group_by key (filter p es)) (key x) =
      Some (filter (\<lambda>e. p e \<and> key e = key x) es)"
    using assms by (auto simp: map_of_group_by intro: filter_cong)
  then show ?thesis by (rule map_of_SomeD)
qed

lemma fst_TrueE: "fst p \<Longrightarrow> (\<And>c. p = (True, c) \<Longrightarrow> thesis) \<Longrightarrow> thesis"
  by (cases p) auto

lemma window_at_nonempty:
  assumes "time_ordered es" and "0 \<le> w" and "seen \<noteq> []" and "prefix seen es"
  shows "window_at w seen \<noteq> []"
proof -
  have "last seen \<in> set es" using assms(3,4) set_mono_prefix last_in_set by blast
  then have "e_timestamp (last seen) \<noteq> None" using assms(1) by (simp add: time_ordered_def)
  then have "\<not> expired w (last seen) (last seen)"
    using assms(2) by (simp add: expired_iff elapsed_def seconds_def)
  then show ?thesis using assms(3) last_in_set by (auto simp: window_at_def filter_empty_conv)
qed

lemma window_at_subset: "prefix seen es \<Longrightarrow> set (window_at w seen) \<subseteq> set es"
  using set_mono_prefix by (force simp: window_at_def)

lemma window_at_length: "length (window_at w seen) \<le> length seen"
  by (simp add: window_at_def)

text \<open>
  The loop reports exactly the windows that meet the condition: one window for each event of a
  group, holding the events of the group up to it that are not older than the window length.
\<close>

lemma scan_arranged_exact:
  assumes "keeps_group arrange" and "rule_input es" and "0 \<le> w"
    and scan: "scan_arranged arrange key p w n cond emit es = Inr ss"
    and enough: "\<And>k win mc. cond k win = (True, mc) \<Longrightarrow> n \<le> length win"
  defines "grp \<equiv> \<lambda>k. arrange (filter (\<lambda>e. p e \<and> key e = k) es)"
  shows "s \<in> set ss \<longleftrightarrow> (\<exists>k seen mc. seen \<noteq> [] \<and> prefix seen (grp k) \<and>
     cond k (window_at w seen) = (True, mc) \<and> emit k (window_at w seen) mc = Inr s)" (is "_ \<longleftrightarrow> ?rhs")
proof -
  have kept: "rule_input (grp k) \<and> set (grp k) = {e \<in> set es. p e \<and> key e = k} \<and>
      length (grp k) = length (filter (\<lambda>e. p e \<and> key e = k) es)" for k
    using assms(1) rule_input_filter [OF assms(2)] unfolding keeps_group_def grp_def by auto
  then have ord: "time_ordered (grp k)" for k by (simp add: rule_input_def)
  show ?thesis
  proof
    assume "s \<in> set ss"
    then obtain k evs win mc where g: "(k, evs) \<in> set (group_by key (filter p es))"
      and win: "(win, mc) \<in> set (sliding_window_scan (arrange evs) w (cond k))" and e: "emit k win mc = Inr s"
      unfolding scan_arranged_member [OF scan] by blast
    have evs: "arrange evs = grp k"
      using group_by_member(1) [OF g] by (auto simp: grp_def intro!: arg_cong [where f = arrange] filter_cong)
    show ?rhs
      using sliding_window_match [OF ord win [unfolded evs]] e by metis
  next
    assume ?rhs
    then obtain k seen mc where seen: "seen \<noteq> []" "prefix seen (grp k)"
      and c: "cond k (window_at w seen) = (True, mc)" and e: "emit k (window_at w seen) mc = Inr s" by blast
    have "last seen \<in> set (grp k)" using seen set_mono_prefix last_in_set by blast
    then have mem: "last seen \<in> set es" "p (last seen)" "key (last seen) = k" using kept [of k] by auto
    have g: "(k, filter (\<lambda>e. p e \<and> key e = k) es) \<in> set (group_by key (filter p es))"
      using group_by_filter_member [of "last seen" es p key] mem by simp
    have "n \<le> length (grp k)"
      using enough [OF c] window_at_length [of w seen] prefix_length_le [OF seen(2)] by linarith
    then show "s \<in> set ss"
      unfolding scan_arranged_member [OF scan]
      using g kept [of k] sliding_window_complete [where cond = "cond k", OF ord seen c] e
      by (auto simp: grp_def)
  qed
qed

definition text_of :: "string option \<Rightarrow> string" where
  "text_of v = (case v of None \<Rightarrow> [] | Some s \<Rightarrow> s)"

text \<open>\<open>match_context[key]\<close> for the counters every window condition records.\<close>

definition metric_count :: "pydict \<Rightarrow> string \<Rightarrow> nat" where
  "metric_count mc k = (case map_of mc k of Some (PInt n) \<Rightarrow> nat n | _ \<Rightarrow> 0)"

definition distinct_target_ips :: "canonical_event list \<Rightarrow> string list" where
  "distinct_target_ips events = remdups (somes (\<lambda>e. truthy_value (e_dst_ip e)) events)"

definition severity_above :: "nat \<Rightarrow> nat \<Rightarrow> string" where
  "severity_above n threshold = (if n > threshold * 2 then ''high'' else ''medium'')"

lemma severity_above_in [simp]: "severity_above n k \<in> set SEVERITIES"
  by (simp add: severity_above_def SEVERITIES_def)

lemma severity_names_in [simp]: "''low'' \<in> set SEVERITIES" "''medium'' \<in> set SEVERITIES"
  "''high'' \<in> set SEVERITIES"
  by (simp_all add: SEVERITIES_def)

text \<open>What a burst rule has to show of its groups: the primary entity is not blank.\<close>

lemma selected_source:
  assumes "e \<in> set (select_rule_events es md)" and "''src_ip'' \<in> set (md_required_fields md)"
  shows "py_strip (text_of (e_src_ip e)) \<noteq> []"
proof -
  have "field_present e ''src_ip''"
    using assms by (auto simp: select_rule_events_def event_has_required_fields_def)
  then show ?thesis
    by (simp add: field_present_def present_str_def text_of_def split: option.splits)
qed

lemma signal_confidence_unit:
  "0 \<le> base \<Longrightarrow> base \<le> cap \<Longrightarrow> cap \<le> 1 \<Longrightarrow> 0 \<le> calculate_signal_confidence n k base cap
    \<and> calculate_signal_confidence n k base cap \<le> 1"
  using signal_confidence_facts [of base cap n k] by (meson order_trans)

lemma emit_sound:
  assumes "rule_input win" and "win \<noteq> []" and "set win \<subseteq> set sel" and "md_rule_id md \<noteq> []"
    and "0 \<le> base" and "base \<le> cap" and "cap \<le> 1" and "sev \<in> set SEVERITIES"
    and "\<forall>e \<in> set win. text_of (e_src_ip e) = prim"
    and "\<forall>e \<in> set sel. py_strip (text_of (e_src_ip e)) \<noteq> []"
    and "distinct techs" and "distinct tags"
    and "md_signal_variants md = [] \<and> ty = md_signal_type md \<or>
         (md_rule_id md, md_name md, ty) \<in> set (map variant_identity (md_signal_variants md))"
  shows "\<exists>s. emit_signal md ctx win mc prim key reason (calculate_signal_confidence n k base cap)
      ty sev targets techs tags = Inr s \<and> honours_contract md (e_event_id ` set sel) s"
proof -
  have "0 \<le> calculate_signal_confidence n k base cap
      \<and> calculate_signal_confidence n k base cap \<le> 1"
    by (rule signal_confidence_unit [OF assms(5,6,7)])
  then obtain s where s: "emit_signal md ctx win mc prim key reason
      (calculate_signal_confidence n k base cap) ty sev targets techs tags = Inr s"
    using emit_signal_ok [OF assms(1,2,4) _ _ assms(8)] by blast
  have "hd win \<in> set win" using assms(2) by simp
  then have "py_strip prim \<noteq> []" using assms(3,9,10) by (metis subsetD)
  moreover have "e_event_id ` set win \<subseteq> e_event_id ` set sel" using assms(3) by (rule image_mono)
  ultimately have "honours_contract md (e_event_id ` set sel) s"
    by (intro emit_signal_honours [OF s assms(1)] assms(11,12,13))
  with s show ?thesis by blast
qed

section \<open>Signals of the window rules\<close>

text \<open>The shared tail: the first and last matched events give the times (a missing timestamp falls
  back to \<open>fallback\<close>), three of them the evidence.\<close>

definition window_signal ::
  "DetectionRuleMetadata \<Rightarrow> DetectionSignalVariant \<Rightarrow> string \<Rightarrow> datetime \<Rightarrow> canonical_event list
   \<Rightarrow> pydict \<Rightarrow> string \<Rightarrow> string \<Rightarrow> string \<Rightarrow> rat \<Rightarrow> string list \<Rightarrow> string list \<Rightarrow> string + DetectionSignal" where
  "window_signal md identity id_rule fallback match_events metrics primary correlation_key reason
     confidence targets tags =
     (if match_events = [] then Inl ''IndexError''
      else bind_err (select_representative_evidence match_events 3 reason (md_rule_id md) metrics)
        (assemble_signal md identity id_rule (map e_event_id match_events)
           (time_or fallback (hd match_events)) (time_or fallback (last match_events)) metrics primary
           correlation_key confidence (md_default_severity md) targets (md_mitre_techniques md) tags))"

definition own_signal ::
  "DetectionRuleMetadata \<Rightarrow> DetectionContext \<Rightarrow> canonical_event list
   \<Rightarrow> pydict \<Rightarrow> string \<Rightarrow> string \<Rightarrow> string \<Rightarrow> rat \<Rightarrow> string list \<Rightarrow> string list \<Rightarrow> string + DetectionSignal" where
  "own_signal md ctx = window_signal md (own_identity md (md_signal_type md)) (md_rule_id md)
     (ctx_analysis_started_at ctx)"

text \<open>What a rule declares about itself that every signal of its needs.\<close>

definition sound_metadata :: "DetectionRuleMetadata \<Rightarrow> bool" where
  "sound_metadata md =
     (md_rule_id md \<noteq> [] \<and> md_default_severity md \<in> set SEVERITIES \<and> distinct (md_mitre_techniques md) \<and>
      (\<forall>v \<in> set (md_signal_variants md). v_rule_id v \<noteq> []))"

lemma declared_variant_id: "declared_variant md v \<Longrightarrow> sound_metadata md \<Longrightarrow> v_rule_id v \<noteq> []"
  by (auto simp: declared_variant_def sound_metadata_def own_identity_def)

lemma window_signal_sound:
  assumes "rule_input win" and "win \<noteq> []" and "set win \<subseteq> set sel" and "sound_metadata md"
    and "declared_variant md v" and "0 \<le> conf \<and> conf \<le> 1" and "py_strip prim \<noteq> []" and "distinct tags"
  shows "\<exists>s. window_signal md v id_rule fb win mc prim key reason conf targets tags = Inr s \<and>
    honours_contract md (e_event_id ` set sel) s"
proof -
  obtain evs where ev: "select_representative_evidence win 3 reason (md_rule_id md) mc = Inr evs"
    using select_representative_evidence_ok [of win 3 reason "md_rule_id md" mc] assms(1)
    by (auto simp: rule_input_def)
  have md: "md_default_severity md \<in> set SEVERITIES" "distinct (md_mitre_techniques md)"
    using assms(4) by (auto simp: sound_metadata_def)
  obtain s where s: "assemble_signal md v id_rule (map e_event_id win) (time_or fb (hd win))
      (time_or fb (last win)) mc prim key conf (md_default_severity md) targets (md_mitre_techniques md) tags evs = Inr s"
    using assemble_signal_ok [OF declared_variant_id [OF assms(5,4)] time_or_ordered [OF _ assms(2)] _ _ md(1)]
      assms(1,6) unfolding rule_input_def by blast
  have "honours_contract md (e_event_id ` set sel) s"
    using selected_evidence [OF ev assms(1)] assms(2,3,5,7,8) md(2)
    by (intro assemble_signal_honours [OF s]) auto
  with s ev assms(2) show ?thesis by (simp add: window_signal_def)
qed

lemma own_identity_declared: "md_signal_variants md = [] \<Longrightarrow> declared_variant md (own_identity md (md_signal_type md))"
  by (simp add: declared_variant_def)

lemma own_signal_sound:
  assumes "rule_input win" and "win \<noteq> []" and "set win \<subseteq> set sel" and "sound_metadata md"
    and "md_signal_variants md = []" and "0 \<le> conf \<and> conf \<le> 1" and "py_strip prim \<noteq> []"
    and "distinct tags"
  shows "\<exists>s. own_signal md ctx win mc prim key reason conf targets tags = Inr s \<and>
    honours_contract md (e_event_id ` set sel) s"
  unfolding own_signal_def
  by (rule window_signal_sound [OF assms(1-4) own_identity_declared [OF assms(5)] assms(6-8)])

text \<open>A rule is sound once its evaluation is, on events that carry the fields it requires.\<close>

lemma required_field_visible:
  assumes "event_has_required_fields e fs"
  shows "''src_ip'' \<in> set fs \<Longrightarrow> py_strip (text_of (e_src_ip e)) \<noteq> []"
    and "''dst_ip'' \<in> set fs \<Longrightarrow> py_strip (text_of (e_dst_ip e)) \<noteq> []"
proof -
  have present: "field_present e f" if "f \<in> set fs" for f
    using assms that by (simp add: event_has_required_fields_def)
  show "py_strip (text_of (e_src_ip e)) \<noteq> []" if "''src_ip'' \<in> set fs"
    using present [OF that] by (simp add: field_present_def present_str_def text_of_def split: option.splits)
  show "py_strip (text_of (e_dst_ip e)) \<noteq> []" if "''dst_ip'' \<in> set fs"
    using present [OF that] by (simp add: field_present_def present_str_def text_of_def split: option.splits)
qed

lemma primary_visible:
  assumes "\<forall>e \<in> set es. event_has_required_fields e fs" and "set win \<subseteq> set es" and "win \<noteq> []"
  shows "''src_ip'' \<in> set fs \<Longrightarrow> \<forall>e \<in> set win. text_of (e_src_ip e) = prim \<Longrightarrow> py_strip prim \<noteq> []"
    and "''dst_ip'' \<in> set fs \<Longrightarrow> \<forall>e \<in> set win. text_of (e_dst_ip e) = prim \<Longrightarrow> py_strip prim \<noteq> []"
proof -
  have hd: "hd win \<in> set win" "event_has_required_fields (hd win) fs"
    using hd_in_set [OF assms(3)] assms(1,2) by auto
  show "py_strip prim \<noteq> []" if "''src_ip'' \<in> set fs" and "\<forall>e \<in> set win. text_of (e_src_ip e) = prim"
    using required_field_visible(1) [OF hd(2) that(1)] that(2) hd(1) by simp
  show "py_strip prim \<noteq> []" if "''dst_ip'' \<in> set fs" and "\<forall>e \<in> set win. text_of (e_dst_ip e) = prim"
    using required_field_visible(2) [OF hd(2) that(1)] that(2) hd(1) by simp
qed

lemma select_has_fields:
  "e \<in> set (select_rule_events es md) \<Longrightarrow> event_has_required_fields e (md_required_fields md)"
  by (simp add: select_rule_events_def)

lemma sound_rule_evaluateI:
  assumes "\<And>es ctx. rule_input es \<Longrightarrow> usable_settings (ctx_settings ctx) \<Longrightarrow>
      \<forall>e \<in> set es. event_has_required_fields e (md_required_fields (metadata rule)) \<Longrightarrow>
      \<exists>ss. evaluate rule es ctx = Inr ss \<and>
        (\<forall>s \<in> set ss. honours_contract (metadata rule) (e_event_id ` set es) s)"
  shows "sound_rule rule usable_settings"
proof -
  have main: "\<exists>ss. evaluate rule (select_rule_events es (metadata rule)) ctx = Inr ss \<and>
      (\<forall>s \<in> set ss. honours_contract (metadata rule)
        (e_event_id ` set (select_rule_events es (metadata rule))) s)"
    if "rule_input es" and "usable_settings (ctx_settings ctx)" for es ctx
    using that select_has_fields by (intro assms rule_input_select) blast+
  show ?thesis by unfold_locales (use main in fastforce)+
qed

text \<open>Some rules return their signals sorted.\<close>

definition sort_signals :: "DetectionSignal list \<Rightarrow> DetectionSignal list" where
  "sort_signals signals = sort_key (\<lambda>s. (s_first_seen s, s_rule_id s, s_signal_id s)) signals"

lemma sort_signals_sound:
  assumes "\<exists>ss. x = Inr ss \<and> (\<forall>s \<in> set ss. P s)"
  shows "\<exists>ss. bind_err x (\<lambda>signals. Inr (sort_signals signals)) = Inr ss \<and> (\<forall>s \<in> set ss. P s)"
  using assms by (auto simp: sort_signals_def)

end
