(* ===== verification/BurstRules.thy ===== *)
theory BurstRules
  imports Detectors
begin

text \<open>
  Four default rules of \<open>agent/detection/detectors\<close>: the horizontal and vertical port
  scans (the latter with its fixed-source-port variant), the SPI anomaly burst and the network
  flood. Each rule is its metadata, its window condition and its evaluation loop; each is an
  interpretation of the rule interface.
\<close>

section \<open>Horizontal port scan (\<open>horizontal_scan.py\<close>)\<close>

definition horizontal_metadata :: DetectionRuleMetadata where
  "horizontal_metadata =
     \<lparr>md_rule_id = ''network_scan_horizontal'', md_version = ''1.0.0'',
      md_name = ''Horizontal Port Scan'', md_family = ''network_scanning'', md_priority = 100,
      md_supported_event_types = [], md_required_fields = [''src_ip'', ''dst_port''],
      md_signal_type = ''horizontal_scan'', md_signal_variants = [],
      md_default_severity = ''medium'', md_mitre_techniques = [''T1046''],
      md_window_setting = Some ''HORIZONTAL_SCAN_WINDOW_SECONDS'',
      md_minimum_events_setting = Some ''HORIZONTAL_SCAN_MIN_EVENTS''\<rparr>"

definition port_or_zero :: "canonical_event \<Rightarrow> int" where
  "port_or_zero e = (case e_dst_port e of None \<Rightarrow> 0 | Some p \<Rightarrow> p)"

definition horizontal_usable :: "canonical_event \<Rightarrow> bool" where
  "horizontal_usable e = (truthy (e_src_ip e) \<and> port_or_zero e \<noteq> 0)"

definition horizontal_key :: "canonical_event \<Rightarrow> string \<times> int \<times> string" where
  "horizontal_key e = (text_of (e_src_ip e), port_or_zero e, protocol_or_unknown e)"

definition horizontal_check ::
  "DetectionSettings \<Rightarrow> string \<times> int \<times> string \<Rightarrow> canonical_event list \<Rightarrow> bool \<times> pydict" where
  "horizontal_check st = (\<lambda>(src_ip, dst_port, protocol) window.
     (let targets = distinct_target_ips window; block_ratio = ratio raw_block window in
      if length window < HORIZONTAL_SCAN_MIN_EVENTS st then (False, [])
      else if length targets < HORIZONTAL_SCAN_MIN_DISTINCT_TARGETS st then (False, [])
      else if block_ratio < HORIZONTAL_SCAN_MIN_BLOCK_RATIO st then (False, [])
      else if py_upper protocol = ''TCP'' \<and> ratio is_tcp_syn window < HORIZONTAL_SCAN_MIN_SYN_RATIO st
        then (False, [])
      else (True, [(''distinct_targets'', PInt (int (length targets))),
         (''block_ratio'', PFloat block_ratio), (''event_count'', PInt (int (length window))),
         (''port'', PInt dst_port), (''protocol'', PStr protocol)])))"

definition horizontal_emit ::
  "DetectionContext \<Rightarrow> string \<times> int \<times> string \<Rightarrow> canonical_event list \<Rightarrow> pydict
     \<Rightarrow> string + DetectionSignal" where
  "horizontal_emit ctx = (\<lambda>(src_ip, dst_port, protocol) match_events match_context.
     emit_signal horizontal_metadata ctx match_events match_context src_ip
       (''port_'' @ str_of_int dst_port @ ''_'' @ protocol)
       (''Horizontal scan detected on port '' @ str_of_int dst_port)
       (calculate_signal_confidence (metric_count match_context ''event_count'')
          (HORIZONTAL_SCAN_MIN_EVENTS (ctx_settings ctx)) (6/10) (9/10))
       ''horizontal_scan''
       (severity_above (metric_count match_context ''distinct_targets'')
          (HORIZONTAL_SCAN_MIN_DISTINCT_TARGETS (ctx_settings ctx)))
       (distinct_target_ips match_events) [''T1046'']
       [''network'', ''scan'', ''port_'' @ str_of_int dst_port])"

definition horizontal_evaluate ::
  "canonical_event list \<Rightarrow> DetectionContext \<Rightarrow> string + DetectionSignal list" where
  "horizontal_evaluate events ctx =
     (let st = ctx_settings ctx in
      scan_groups horizontal_key horizontal_usable (HORIZONTAL_SCAN_WINDOW_SECONDS st)
        (HORIZONTAL_SCAN_MIN_EVENTS st) (horizontal_check st) (horizontal_emit ctx) events)"

definition HorizontalScanRule :: BaseDetectionRule where
  "HorizontalScanRule = \<lparr>rule_class = ''HorizontalScanRule'', metadata = horizontal_metadata,
     evaluate = horizontal_evaluate\<rparr>"

section \<open>SPI anomaly burst (\<open>spi_anomaly.py\<close>)\<close>

definition spi_metadata :: DetectionRuleMetadata where
  "spi_metadata =
     \<lparr>md_rule_id = ''spi_anomaly_burst'', md_version = ''1.0.0'',
      md_name = ''SPI Anomaly Burst'', md_family = ''network_anomaly'', md_priority = 100,
      md_supported_event_types = [], md_required_fields = [''src_ip''],
      md_signal_type = ''spi_anomaly'', md_signal_variants = [],
      md_default_severity = ''medium'', md_mitre_techniques = [],
      md_window_setting = Some ''SPI_ANOMALY_WINDOW_SECONDS'',
      md_minimum_events_setting = Some ''SPI_ANOMALY_MIN_EVENTS''\<rparr>"

definition spi_usable :: "DetectionSettings \<Rightarrow> canonical_event \<Rightarrow> bool" where
  "spi_usable st e =
     (truthy (e_src_ip e) \<and> is_spi_anomaly_event e (SPI_ANOMALY_FALLBACK_RAW_MATCH st))"

definition spi_check ::
  "DetectionSettings \<Rightarrow> string \<Rightarrow> canonical_event list \<Rightarrow> bool \<times> pydict" where
  "spi_check st src_ip window =
     (let targets = distinct_target_ips window in
      if length window < SPI_ANOMALY_MIN_EVENTS st then (False, [])
      else if length targets < SPI_ANOMALY_MIN_DISTINCT_TARGETS st then (False, [])
      else (True, [(''distinct_targets'', PInt (int (length targets))),
         (''event_count'', PInt (int (length window)))]))"

definition spi_emit ::
  "DetectionContext \<Rightarrow> string \<Rightarrow> canonical_event list \<Rightarrow> pydict \<Rightarrow> string + DetectionSignal" where
  "spi_emit ctx src_ip match_events match_context =
     emit_signal spi_metadata ctx match_events match_context src_ip ''spi_burst''
       ''Repeated SPI anomaly blocks''
       (calculate_signal_confidence (metric_count match_context ''event_count'')
          (SPI_ANOMALY_MIN_EVENTS (ctx_settings ctx)) (5/10) (85/100))
       ''spi_anomaly'' ''medium'' (distinct_target_ips match_events) []
       [''network'', ''anomaly'', ''spi'']"

definition spi_evaluate ::
  "canonical_event list \<Rightarrow> DetectionContext \<Rightarrow> string + DetectionSignal list" where
  "spi_evaluate events ctx =
     (let st = ctx_settings ctx in
      scan_groups (\<lambda>e. text_of (e_src_ip e)) (spi_usable st) (SPI_ANOMALY_WINDOW_SECONDS st)
        (SPI_ANOMALY_MIN_EVENTS st) (spi_check st) (spi_emit ctx) events)"

definition SPIAnomalyRule :: BaseDetectionRule where
  "SPIAnomalyRule = \<lparr>rule_class = ''SPIAnomalyRule'', metadata = spi_metadata,
     evaluate = spi_evaluate\<rparr>"

section \<open>Network flood (\<open>network_flood.py\<close>)\<close>

definition flood_metadata :: DetectionRuleMetadata where
  "flood_metadata =
     \<lparr>md_rule_id = ''network_flood_dos'', md_version = ''1.0.0'',
      md_name = ''Network Flood (DoS) Attempt'', md_family = ''network_dos'', md_priority = 100,
      md_supported_event_types = [], md_required_fields = [''src_ip'', ''dst_ip''],
      md_signal_type = ''network_flood'', md_signal_variants = [],
      md_default_severity = ''high'', md_mitre_techniques = [''T1498''],
      md_window_setting = Some ''NETWORK_FLOOD_WINDOW_SECONDS'',
      md_minimum_events_setting = Some ''NETWORK_FLOOD_MIN_EVENTS''\<rparr>"

definition endpoints_usable :: "canonical_event \<Rightarrow> bool" where
  "endpoints_usable e = (truthy (e_src_ip e) \<and> truthy (e_dst_ip e))"

definition flood_key :: "canonical_event \<Rightarrow> string \<times> string \<times> int \<times> string" where
  "flood_key e =
     (text_of (e_src_ip e), text_of (e_dst_ip e), port_or_zero e, protocol_or_unknown e)"

text \<open>\<open>max(1.0, (last_ts - first_ts).total_seconds())\<close>, 1 when a timestamp is missing.\<close>

definition observed_seconds :: "canonical_event list \<Rightarrow> rat" where
  "observed_seconds window =
     (case (event_time (hd window), event_time (last window)) of
        (Some first_ts, Some last_ts) \<Rightarrow> max 1 (of_int (elapsed last_ts first_ts) / 1000000)
      | _ \<Rightarrow> 1)"

definition flood_check ::
  "DetectionSettings \<Rightarrow> string \<times> string \<times> int \<times> string \<Rightarrow> canonical_event list \<Rightarrow> bool \<times> pydict" where
  "flood_check st = (\<lambda>(src_ip, dst_ip, dst_port, protocol) window.
     (let block_ratio = ratio raw_block window; observed_duration = observed_seconds window in
      if length window < NETWORK_FLOOD_MIN_EVENTS st then (False, [])
      else if block_ratio < NETWORK_FLOOD_MIN_BLOCK_RATIO st then (False, [])
      else (True, [(''block_ratio'', PFloat block_ratio),
         (''event_count'', PInt (int (length window))),
         (''eps'', PFloat (of_nat (length window) / observed_duration)),
         (''observed_window_seconds'', PFloat observed_duration),
         (''destination_port'', PInt dst_port), (''protocol'', PStr protocol)])))"

definition flood_emit ::
  "DetectionContext \<Rightarrow> string \<times> string \<times> int \<times> string \<Rightarrow> canonical_event list \<Rightarrow> pydict
     \<Rightarrow> string + DetectionSignal" where
  "flood_emit ctx = (\<lambda>(src_ip, dst_ip, dst_port, protocol) match_events match_context.
     emit_signal flood_metadata ctx match_events match_context src_ip
       (''target_'' @ dst_ip @ ''_'' @ str_of_int dst_port @ ''_'' @ protocol)
       (''High volume blocked traffic targeting '' @ dst_ip)
       (calculate_signal_confidence (metric_count match_context ''event_count'')
          (NETWORK_FLOOD_MIN_EVENTS (ctx_settings ctx)) (7/10) (9/10))
       ''network_flood'' ''high'' [dst_ip] [''T1498''] [''network'', ''dos'', ''flood''])"

definition flood_evaluate ::
  "canonical_event list \<Rightarrow> DetectionContext \<Rightarrow> string + DetectionSignal list" where
  "flood_evaluate events ctx =
     (let st = ctx_settings ctx in
      scan_groups flood_key endpoints_usable (NETWORK_FLOOD_WINDOW_SECONDS st)
        (NETWORK_FLOOD_MIN_EVENTS st) (flood_check st) (flood_emit ctx) events)"

definition NetworkFloodRule :: BaseDetectionRule where
  "NetworkFloodRule = \<lparr>rule_class = ''NetworkFloodRule'', metadata = flood_metadata,
     evaluate = flood_evaluate\<rparr>"

section \<open>Fixed source ports (\<open>scan_helpers.find_fixed_source_port_groups\<close>)\<close>

record FixedSourcePortGroup =
  g_source_ip :: string
  g_source_port :: int
  g_events :: "canonical_event list"
  g_destination_ips :: "string list"
  g_destination_ports :: "int list"
  g_allowed_event_count :: nat
  g_blocked_event_count :: nat
  g_first_seen :: datetime
  g_last_seen :: datetime

definition datetime_min :: datetime where
  "datetime_min = Instant (- 62135596800000000)"

definition fixed_port_candidate ::
  "int list \<Rightarrow> (canonical_event \<Rightarrow> bool) \<Rightarrow> canonical_event \<Rightarrow> bool" where
  "fixed_port_candidate source_ports is_external_inbound e =
     (truthy (e_src_ip e) \<and>
      (case e_src_port e of None \<Rightarrow> False | Some p \<Rightarrow> p \<in> set source_ports) \<and>
      is_tcp_initial_connection_probe e \<and> is_external_inbound e \<and>
      e_dst_port e \<noteq> None \<and> truthy (e_dst_ip e))"

definition fixed_port_key :: "canonical_event \<Rightarrow> string \<times> int" where
  "fixed_port_key e =
     (text_of (e_src_ip e), (case e_src_port e of None \<Rightarrow> 0 | Some p \<Rightarrow> p))"

fun collect_fixed_port ::
  "(canonical_event \<Rightarrow> bool) \<Rightarrow> string list \<Rightarrow> ((string \<times> int) \<times> canonical_event list) list
   \<Rightarrow> canonical_event list \<Rightarrow> ((string \<times> int) \<times> canonical_event list) list" where
  "collect_fixed_port candidate seen grouped [] = grouped"
| "collect_fixed_port candidate seen grouped (e # es) =
     (if e_event_id e \<in> set seen \<or> \<not> candidate e then collect_fixed_port candidate seen grouped es
      else collect_fixed_port candidate (e_event_id e # seen)
             (add_to (fixed_port_key e) e grouped) es)"

definition group_order :: "canonical_event \<Rightarrow> datetime \<times> string" where
  "group_order e =
     ((case event_time e of Some t \<Rightarrow> t | None \<Rightarrow> datetime_min), e_event_id e)"

text \<open>One group's turn of the second loop; an empty list is a \<open>continue\<close>.\<close>

definition fixed_port_group ::
  "nat \<Rightarrow> nat \<Rightarrow> int \<Rightarrow> (string \<times> int) \<times> canonical_event list \<Rightarrow> FixedSourcePortGroup list" where
  "fixed_port_group min_events min_distinct_ports window_seconds =
     (\<lambda>((source_ip, source_port), group_events).
       (let ordered = sort_key group_order group_events;
            timestamps = somes event_time ordered;
            destination_ports = sort_uniq (somes e_dst_port ordered)
        in if timestamps = [] then []
           else if elapsed (last timestamps) (hd timestamps) > seconds window_seconds then []
           else if length ordered < min_events then []
           else if length destination_ports < min_distinct_ports then []
           else [\<lparr>g_source_ip = source_ip, g_source_port = source_port, g_events = ordered,
                  g_destination_ips = sort_uniq (somes (\<lambda>e. truthy_value (e_dst_ip e)) ordered),
                  g_destination_ports = destination_ports,
                  g_allowed_event_count = count_if is_allowed ordered,
                  g_blocked_event_count = count_if is_blocked ordered,
                  g_first_seen = hd timestamps, g_last_seen = last timestamps\<rparr>]))"

definition find_fixed_source_port_groups ::
  "canonical_event list \<Rightarrow> int list \<Rightarrow> nat \<Rightarrow> nat \<Rightarrow> int \<Rightarrow> (canonical_event \<Rightarrow> bool)
     \<Rightarrow> FixedSourcePortGroup list" where
  "find_fixed_source_port_groups events source_ports min_events min_distinct_ports window_seconds
     is_external_inbound =
     concat (map (fixed_port_group min_events min_distinct_ports window_seconds)
       (sort_key fst (collect_fixed_port (fixed_port_candidate source_ports is_external_inbound)
          [] [] events)))"

section \<open>Vertical port scan (\<open>vertical_scan.py\<close>)\<close>

definition MAX_METRIC_PORTS :: nat where
  "MAX_METRIC_PORTS = 15"

definition vertical_metadata :: DetectionRuleMetadata where
  "vertical_metadata =
     \<lparr>md_rule_id = ''network_scan_vertical'', md_version = ''1.1.0'',
      md_name = ''Vertical Port Scan'', md_family = ''network_scanning'', md_priority = 100,
      md_supported_event_types = [], md_required_fields = [''src_ip'', ''dst_ip''],
      md_signal_type = ''vertical_scan'',
      md_signal_variants =
        [\<lparr>v_rule_id = ''network_scan_vertical'', v_rule_name = ''Vertical Port Scan'',
          v_signal_type = ''vertical_scan''\<rparr>,
         \<lparr>v_rule_id = ''network_scan_vertical'', v_rule_name = ''Vertical Port Scan'',
          v_signal_type = ''fixed_source_port_scan''\<rparr>],
      md_default_severity = ''medium'', md_mitre_techniques = [''T1046''],
      md_window_setting = Some ''VERTICAL_SCAN_WINDOW_SECONDS'',
      md_minimum_events_setting = Some ''VERTICAL_SCAN_MIN_EVENTS''\<rparr>"

definition vertical_key :: "canonical_event \<Rightarrow> string \<times> string \<times> string" where
  "vertical_key e = (text_of (e_src_ip e), text_of (e_dst_ip e), protocol_or_unknown e)"

definition vertical_check ::
  "DetectionSettings \<Rightarrow> string \<times> string \<times> string \<Rightarrow> canonical_event list \<Rightarrow> bool \<times> pydict" where
  "vertical_check st = (\<lambda>(src_ip, dst_ip, protocol) window.
     (let ports = remdups (filter (\<lambda>p. p \<noteq> 0) (somes e_dst_port window));
          block_ratio = ratio raw_block window in
      if length window < VERTICAL_SCAN_MIN_EVENTS st then (False, [])
      else if length ports < VERTICAL_SCAN_MIN_DISTINCT_PORTS st then (False, [])
      else if block_ratio < VERTICAL_SCAN_MIN_BLOCK_RATIO st then (False, [])
      else if py_upper protocol = ''TCP'' \<and> ratio is_tcp_syn window < VERTICAL_SCAN_MIN_SYN_RATIO st
        then (False, [])
      else (True, [(''distinct_ports'', PInt (int (length ports))),
         (''block_ratio'', PFloat block_ratio), (''event_count'', PInt (int (length window))),
         (''target'', PStr dst_ip), (''protocol'', PStr protocol)])))"

definition vertical_emit ::
  "DetectionContext \<Rightarrow> string \<times> string \<times> string \<Rightarrow> canonical_event list \<Rightarrow> pydict
     \<Rightarrow> string + DetectionSignal" where
  "vertical_emit ctx = (\<lambda>(src_ip, dst_ip, protocol) match_events match_context.
     emit_signal vertical_metadata ctx match_events match_context src_ip
       (''target_'' @ dst_ip @ ''_'' @ protocol)
       (''Vertical scan detected targeting '' @ dst_ip)
       (calculate_signal_confidence (metric_count match_context ''event_count'')
          (VERTICAL_SCAN_MIN_EVENTS (ctx_settings ctx)) (6/10) (9/10))
       ''vertical_scan''
       (severity_above (metric_count match_context ''distinct_ports'')
          (VERTICAL_SCAN_MIN_DISTINCT_PORTS (ctx_settings ctx)))
       [dst_ip] [''T1046''] [''network'', ''scan'', ''vertical''])"

definition fixed_port_severity :: "FixedSourcePortGroup \<Rightarrow> string" where
  "fixed_port_severity g =
     (if g_allowed_event_count g = 0
      then (if length (g_events g) < 10 then ''low'' else ''medium'')
      else if filter (\<lambda>p. sensitive_service_for_port (Some p) \<noteq> None) (g_destination_ports g) \<noteq> []
      then ''high'' else ''medium'')"

definition port_list :: "int list \<Rightarrow> string" where
  "port_list ports = py_join '','' (map str_of_int (take MAX_METRIC_PORTS ports))"

definition fixed_port_signal ::
  "DetectionContext \<Rightarrow> FixedSourcePortGroup \<Rightarrow> string + DetectionSignal" where
  "fixed_port_signal ctx g =
     (let sensitive_ports =
            sort (filter (\<lambda>p. sensitive_service_for_port (Some p) \<noteq> None) (g_destination_ports g));
          metrics =
            [(''variant'', PStr ''fixed_source_port_scan''),
             (''fixed_source_port'', PInt (g_source_port g)),
             (''event_count'', PInt (int (length (g_events g)))),
             (''allowed_event_count'', PInt (int (g_allowed_event_count g))),
             (''blocked_event_count'', PInt (int (g_blocked_event_count g))),
             (''distinct_destination_ports'', PInt (int (length (g_destination_ports g)))),
             (''distinct_destination_ips'', PInt (int (length (g_destination_ips g)))),
             (''destination_ports'', PStr (port_list (g_destination_ports g))),
             (''sensitive_destination_ports'', PStr (port_list sensitive_ports)),
             (''mitre_tactic'', PStr ''TA0007'')]
      in build_signal vertical_metadata (g_events g) (g_first_seen g) (g_last_seen g) metrics
           (g_source_ip g) (''fixed_source_port_'' @ str_of_int (g_source_port g))
           (''Fixed source port '' @ str_of_int (g_source_port g) @ '' enumeration across '' @
            str_of_nat (length (g_destination_ports g)) @ '' destination port(s)'')
           (calculate_signal_confidence (length (g_events g))
              (FIXED_SOURCE_PORT_SCAN_MIN_EVENTS (ctx_settings ctx)) (6/10) (9/10))
           ''fixed_source_port_scan'' (fixed_port_severity g) (g_destination_ips g)
           [''T1046''] [''network'', ''scan'', ''fixed_source_port''])"

definition evaluate_fixed_source_port ::
  "canonical_event list \<Rightarrow> DetectionContext \<Rightarrow> string + DetectionSignal list" where
  "evaluate_fixed_source_port events ctx =
     (let st = ctx_settings ctx in
      if \<not> FIXED_SOURCE_PORT_SCAN_ENABLED st then Inr []
      else map_err (fixed_port_signal ctx)
        (find_fixed_source_port_groups events (FIXED_SOURCE_PORT_SCAN_PORTS st)
           (FIXED_SOURCE_PORT_SCAN_MIN_EVENTS st) (FIXED_SOURCE_PORT_SCAN_MIN_DISTINCT_PORTS st)
           (FIXED_SOURCE_PORT_SCAN_WINDOW_SECONDS st)
           (\<lambda>event. is_explicit_wan_zone (e_inbound_zone event))))"

definition vertical_evaluate ::
  "canonical_event list \<Rightarrow> DetectionContext \<Rightarrow> string + DetectionSignal list" where
  "vertical_evaluate events ctx =
     (let st = ctx_settings ctx in
      bind_err (scan_groups vertical_key endpoints_usable (VERTICAL_SCAN_WINDOW_SECONDS st)
          (VERTICAL_SCAN_MIN_EVENTS st) (vertical_check st) (vertical_emit ctx) events)
        (\<lambda>signals. bind_err (evaluate_fixed_source_port events ctx)
          (\<lambda>fixed. Inr (signals @ fixed))))"

definition VerticalScanRule :: BaseDetectionRule where
  "VerticalScanRule = \<lparr>rule_class = ''VerticalScanRule'', metadata = vertical_metadata,
     evaluate = vertical_evaluate\<rparr>"

section \<open>The rules meet the interface\<close>

lemma horizontal_sound:
  assumes "rule_input es" and "usable_settings (ctx_settings ctx)"
    and sel: "\<forall>e \<in> set es. py_strip (text_of (e_src_ip e)) \<noteq> []"
  shows "\<exists>ss. horizontal_evaluate es ctx = Inr ss \<and>
    (\<forall>s \<in> set ss. honours_contract horizontal_metadata (e_event_id ` set es) s)"
  unfolding horizontal_evaluate_def Let_def
proof (rule scan_groups_sound [OF assms(1)])
  show "0 \<le> HORIZONTAL_SCAN_WINDOW_SECONDS (ctx_settings ctx)"
    using assms(2) by (simp add: usable_settings_def)
next
  fix k win mc
  assume "rule_input win" "win \<noteq> []" "set win \<subseteq> set es"
    "\<forall>e \<in> set win. horizontal_usable e \<and> horizontal_key e = k"
  then show "\<exists>s. horizontal_emit ctx k win mc = Inr s \<and>
      honours_contract horizontal_metadata (e_event_id ` set es) s"
    by (cases k) (auto simp: horizontal_emit_def horizontal_key_def horizontal_metadata_def
        intro!: emit_sound [OF _ _ _ _ _ _ _ _ _ sel])
qed

lemma spi_sound:
  assumes "rule_input es" and "usable_settings (ctx_settings ctx)"
    and sel: "\<forall>e \<in> set es. py_strip (text_of (e_src_ip e)) \<noteq> []"
  shows "\<exists>ss. spi_evaluate es ctx = Inr ss \<and>
    (\<forall>s \<in> set ss. honours_contract spi_metadata (e_event_id ` set es) s)"
  unfolding spi_evaluate_def Let_def
proof (rule scan_groups_sound [OF assms(1)])
  show "0 \<le> SPI_ANOMALY_WINDOW_SECONDS (ctx_settings ctx)"
    using assms(2) by (simp add: usable_settings_def)
next
  fix k win mc
  assume "rule_input win" "win \<noteq> []" "set win \<subseteq> set es"
    "\<forall>e \<in> set win. spi_usable (ctx_settings ctx) e \<and> text_of (e_src_ip e) = k"
  then show "\<exists>s. spi_emit ctx k win mc = Inr s \<and>
      honours_contract spi_metadata (e_event_id ` set es) s"
    by (auto simp: spi_emit_def spi_metadata_def intro!: emit_sound [OF _ _ _ _ _ _ _ _ _ sel])
qed

lemma flood_sound:
  assumes "rule_input es" and "usable_settings (ctx_settings ctx)"
    and sel: "\<forall>e \<in> set es. py_strip (text_of (e_src_ip e)) \<noteq> []"
  shows "\<exists>ss. flood_evaluate es ctx = Inr ss \<and>
    (\<forall>s \<in> set ss. honours_contract flood_metadata (e_event_id ` set es) s)"
  unfolding flood_evaluate_def Let_def
proof (rule scan_groups_sound [OF assms(1)])
  show "0 \<le> NETWORK_FLOOD_WINDOW_SECONDS (ctx_settings ctx)"
    using assms(2) by (simp add: usable_settings_def)
next
  fix k win mc
  assume "rule_input win" "win \<noteq> []" "set win \<subseteq> set es"
    "\<forall>e \<in> set win. endpoints_usable e \<and> flood_key e = k"
  then show "\<exists>s. flood_emit ctx k win mc = Inr s \<and>
      honours_contract flood_metadata (e_event_id ` set es) s"
    by (cases k) (auto simp: flood_emit_def flood_key_def flood_metadata_def
        intro!: emit_sound [OF _ _ _ _ _ _ _ _ _ sel])
qed

lemma collect_fixed_port_group_by:
  assumes "distinct (map e_event_id es)" and "set (map e_event_id es) \<inter> set seen = {}"
  shows "collect_fixed_port p seen (group_by fixed_port_key xs) es =
    group_by fixed_port_key (xs @ filter p es)"
  using assms
proof (induction es arbitrary: seen xs)
  case (Cons e es)
  show ?case
  proof (cases "p e")
    case True
    have "collect_fixed_port p (e_event_id e # seen) (group_by fixed_port_key (xs @ [e])) es =
        group_by fixed_port_key ((xs @ [e]) @ filter p es)"
      using Cons.prems by (intro Cons.IH) auto
    with True Cons.prems show ?thesis by (simp add: group_by_snoc)
  next
    case False
    with Cons show ?thesis by simp
  qed
qed simp

lemma find_fixed_groups:
  assumes "distinct (map e_event_id es)"
  shows "g \<in> set (find_fixed_source_port_groups es sps n k w ext) \<longleftrightarrow>
    (\<exists>key evs. (key, evs) \<in> set (group_by fixed_port_key (filter (fixed_port_candidate sps ext) es))
       \<and> g \<in> set (fixed_port_group n k w (key, evs)))"
  using collect_fixed_port_group_by [OF assms, of "[]" "fixed_port_candidate sps ext" "[]"]
  by (auto simp: find_fixed_source_port_groups_def)

lemma somes_event_time:
  "\<forall>e \<in> set es. e_timestamp e \<noteq> None \<Longrightarrow> somes event_time es = map (\<lambda>e. the (event_time e)) es"
  by (induction es) (auto simp: somes_def List.map_filter_simps)

lemma rule_input_sort_group: "rule_input es \<Longrightarrow> rule_input (sort_key group_order es)"
  by (rule rule_input_sorted) (auto simp: rule_input_def time_ordered_def group_order_def)

text \<open>What a group is, in terms of the rule's events.\<close>

lemma fixed_port_group_facts:
  assumes "rule_input es" and "g \<in> set (find_fixed_source_port_groups es sps n k w ext)"
  shows "rule_input (g_events g)" and "g_events g \<noteq> []"
    and "set (g_events g) = {e \<in> set es. fixed_port_candidate sps ext e \<and>
           fixed_port_key e = (g_source_ip g, g_source_port g)}"
    and "g_first_seen g \<le> g_last_seen g"
    and "elapsed (g_last_seen g) (g_first_seen g) \<le> seconds w"
    and "n \<le> length (g_events g)" and "k \<le> length (g_destination_ports g)"
    and "g_destination_ports g = sort_uniq (somes e_dst_port (g_events g))"
    and "g_first_seen g = the (event_time (hd (g_events g)))"
    and "g_last_seen g = the (event_time (last (g_events g)))"
proof -
  have dist: "distinct (map e_event_id es)" using assms(1) by (simp add: rule_input_def)
  obtain ip port evs where
    mem: "((ip, port), evs) \<in> set (group_by fixed_port_key (filter (fixed_port_candidate sps ext) es))"
    and g: "g \<in> set (fixed_port_group n k w ((ip, port), evs))"
    using find_fixed_groups [OF dist] assms(2) by (metis surj_pair)
  have evs: "evs = filter (\<lambda>e. fixed_port_key e = (ip, port)) (filter (fixed_port_candidate sps ext) es)"
    by (rule group_by_member(1) [OF mem])
  have ri: "rule_input evs" using assms(1) by (simp only: evs rule_input_filter)
  let ?o = "sort_key group_order evs"
  have rio: "rule_input ?o" by (rule rule_input_sort_group [OF ri])
  then have ord: "time_ordered ?o" by (simp add: rule_input_def)
  then have st: "somes event_time ?o = map (\<lambda>e. the (event_time e)) ?o"
    by (intro somes_event_time) (simp add: time_ordered_def)
  have ne: "?o \<noteq> []" using group_by_member(2) [OF mem]
    by (metis length_0_conv length_sort)
  have ge: "g_events g = ?o" "g_source_ip g = ip" "g_source_port g = port"
    "g_first_seen g = hd (somes event_time ?o)" "g_last_seen g = last (somes event_time ?o)"
    "elapsed (last (somes event_time ?o)) (hd (somes event_time ?o)) \<le> seconds w"
    "n \<le> length ?o" "g_destination_ports g = sort_uniq (somes e_dst_port ?o)"
    "k \<le> length (sort_uniq (somes e_dst_port ?o))"
    using g by (auto simp: fixed_port_group_def Let_def split: if_splits)
  show "rule_input (g_events g)" using rio ge by simp
  show "g_events g \<noteq> []" using ne ge by simp
  show "set (g_events g) = {e \<in> set es. fixed_port_candidate sps ext e \<and>
           fixed_port_key e = (g_source_ip g, g_source_port g)}"
    unfolding ge by (auto simp: evs)
  show first: "g_first_seen g = the (event_time (hd (g_events g)))"
    and last: "g_last_seen g = the (event_time (last (g_events g)))"
    using ge(1,4,5) ne by (simp_all add: st hd_map last_map)
  show "g_first_seen g \<le> g_last_seen g"
    unfolding first last ge using ord ne
    by (cases ?o rule: rev_cases) (auto simp: time_ordered_def sorted_append hd_append)
  show "elapsed (g_last_seen g) (g_first_seen g) \<le> seconds w" using ge by simp
  show "n \<le> length (g_events g)" "k \<le> length (g_destination_ports g)"
    "g_destination_ports g = sort_uniq (somes e_dst_port (g_events g))"
    using ge by simp_all
qed

lemma fixed_port_severity_in: "fixed_port_severity g \<in> set SEVERITIES"
  by (simp add: fixed_port_severity_def)

lemma fixed_port_signal_sound:
  assumes "rule_input es" and "g \<in> set (find_fixed_source_port_groups es sps n k w ext)"
    and sel: "\<forall>e \<in> set es. py_strip (text_of (e_src_ip e)) \<noteq> []"
  shows "\<exists>s. fixed_port_signal ctx g = Inr s \<and>
    honours_contract vertical_metadata (e_event_id ` set es) s"
proof -
  note g = fixed_port_group_facts [OF assms(1,2)]
  let ?k = "FIXED_SOURCE_PORT_SCAN_MIN_EVENTS (ctx_settings ctx)"
  let ?c = "calculate_signal_confidence (length (g_events g)) ?k (6/10) (9/10)"
  have c: "0 \<le> ?c" "?c \<le> 1"
    using signal_confidence_unit [of "6/10" "9/10" "length (g_events g)" ?k] by auto
  have "md_rule_id vertical_metadata \<noteq> []" by (simp add: vertical_metadata_def)
  then obtain s where s: "fixed_port_signal ctx g = Inr s"
    using build_signal_ok [OF g(1) _ g(4) c fixed_port_severity_in]
    unfolding fixed_port_signal_def Let_def by blast
  have hd: "hd (g_events g) \<in> set (g_events g)" using g(2) by simp
  then have "text_of (e_src_ip (hd (g_events g))) = g_source_ip g" and "hd (g_events g) \<in> set es"
    unfolding g(3) by (auto simp: fixed_port_key_def)
  then have "py_strip (g_source_ip g) \<noteq> []" using sel by auto
  moreover have "e_event_id ` set (g_events g) \<subseteq> e_event_id ` set es"
    unfolding g(3) by auto
  ultimately have "honours_contract vertical_metadata (e_event_id ` set es) s"
    by (intro build_signal_honours [OF s [unfolded fixed_port_signal_def Let_def] g(1,2)])
       (simp_all add: vertical_metadata_def variant_identity_def)
  with s show ?thesis by blast
qed

lemma vertical_sound:
  assumes "rule_input es" and "usable_settings (ctx_settings ctx)"
    and sel: "\<forall>e \<in> set es. py_strip (text_of (e_src_ip e)) \<noteq> []"
  shows "\<exists>ss. vertical_evaluate es ctx = Inr ss \<and>
    (\<forall>s \<in> set ss. honours_contract vertical_metadata (e_event_id ` set es) s)"
proof -
  let ?st = "ctx_settings ctx"
  have scan: "\<exists>ss. scan_groups vertical_key endpoints_usable (VERTICAL_SCAN_WINDOW_SECONDS ?st)
      (VERTICAL_SCAN_MIN_EVENTS ?st) (vertical_check ?st) (vertical_emit ctx) es = Inr ss \<and>
      (\<forall>s \<in> set ss. honours_contract vertical_metadata (e_event_id ` set es) s)"
  proof (rule scan_groups_sound [OF assms(1)])
    show "0 \<le> VERTICAL_SCAN_WINDOW_SECONDS ?st" using assms(2) by (simp add: usable_settings_def)
  next
    fix k win mc
    assume "rule_input win" "win \<noteq> []" "set win \<subseteq> set es"
      "\<forall>e \<in> set win. endpoints_usable e \<and> vertical_key e = k"
    then show "\<exists>s. vertical_emit ctx k win mc = Inr s \<and>
        honours_contract vertical_metadata (e_event_id ` set es) s"
      by (cases k) (auto simp: vertical_emit_def vertical_key_def vertical_metadata_def
          variant_identity_def intro!: emit_sound [OF _ _ _ _ _ _ _ _ _ sel])
  qed
  let ?gs = "find_fixed_source_port_groups es (FIXED_SOURCE_PORT_SCAN_PORTS ?st)
     (FIXED_SOURCE_PORT_SCAN_MIN_EVENTS ?st) (FIXED_SOURCE_PORT_SCAN_MIN_DISTINCT_PORTS ?st)
     (FIXED_SOURCE_PORT_SCAN_WINDOW_SECONDS ?st) (\<lambda>event. is_explicit_wan_zone (e_inbound_zone event))"
  have each: "\<exists>s. fixed_port_signal ctx g = Inr s \<and>
      honours_contract vertical_metadata (e_event_id ` set es) s" if "g \<in> set ?gs" for g
    by (rule fixed_port_signal_sound [OF assms(1) that sel])
  obtain fs where fs: "map_err (fixed_port_signal ctx) ?gs = Inr fs"
    using map_err_total [of ?gs "fixed_port_signal ctx"] each by blast
  then have "\<forall>s \<in> set fs. honours_contract vertical_metadata (e_event_id ` set es) s"
    using each map_err_member by fastforce
  with fs have fixed: "\<exists>ss. evaluate_fixed_source_port es ctx = Inr ss \<and>
      (\<forall>s \<in> set ss. honours_contract vertical_metadata (e_event_id ` set es) s)"
    by (simp add: evaluate_fixed_source_port_def Let_def)
  show ?thesis using scan fixed by (auto simp: vertical_evaluate_def)
qed

section \<open>The default rules as interpretations\<close>

text \<open>A rule that requires a source address is sound once its evaluation is.\<close>

lemma sound_ruleI:
  assumes "''src_ip'' \<in> set (md_required_fields (metadata rule))"
    and "\<And>es ctx. rule_input es \<Longrightarrow> usable_settings (ctx_settings ctx) \<Longrightarrow>
      \<forall>e \<in> set es. py_strip (text_of (e_src_ip e)) \<noteq> [] \<Longrightarrow>
      \<exists>ss. evaluate rule es ctx = Inr ss \<and>
        (\<forall>s \<in> set ss. honours_contract (metadata rule) (e_event_id ` set es) s)"
  shows "sound_rule rule usable_settings"
proof -
  have main: "\<exists>ss. evaluate rule (select_rule_events es (metadata rule)) ctx = Inr ss \<and>
      (\<forall>s \<in> set ss. honours_contract (metadata rule)
        (e_event_id ` set (select_rule_events es (metadata rule))) s)"
    if "rule_input es" and "usable_settings (ctx_settings ctx)" for es ctx
    using that selected_source [OF _ assms(1)] by (intro assms(2) rule_input_select) blast+
  show ?thesis by unfold_locales (use main in fastforce)+
qed

interpretation horizontal: sound_rule HorizontalScanRule usable_settings
  by (rule sound_ruleI)
     (simp_all add: HorizontalScanRule_def horizontal_metadata_def horizontal_sound
        [unfolded horizontal_metadata_def])

interpretation vertical: sound_rule VerticalScanRule usable_settings
  by (rule sound_ruleI)
     (simp_all add: VerticalScanRule_def vertical_metadata_def vertical_sound
        [unfolded vertical_metadata_def])

interpretation spi: sound_rule SPIAnomalyRule usable_settings
  by (rule sound_ruleI)
     (simp_all add: SPIAnomalyRule_def spi_metadata_def spi_sound [unfolded spi_metadata_def])

interpretation flood: sound_rule NetworkFloodRule usable_settings
  by (rule sound_ruleI)
     (simp_all add: NetworkFloodRule_def flood_metadata_def flood_sound [unfolded flood_metadata_def])

definition burst_rules :: "BaseDetectionRule list" where
  "burst_rules = [HorizontalScanRule, VerticalScanRule, SPIAnomalyRule, NetworkFloodRule]"

lemma burst_rules_clean:
  assumes "rule_input events" and "usable_settings (ctx_settings ctx)"
    and "rule \<in> set burst_rules"
  shows "snd (run_rule events ctx rule) = []"
  using assms horizontal.run_rule_clean(1) vertical.run_rule_clean(1) spi.run_rule_clean(1)
    flood.run_rule_clean(1)
  by (auto simp: burst_rules_def)

section \<open>What the rules detect\<close>

text \<open>The thresholds of the horizontal scan, read off a window.\<close>

definition horizontal_evidence :: "DetectionSettings \<Rightarrow> canonical_event list \<Rightarrow> bool" where
  "horizontal_evidence st win =
     (HORIZONTAL_SCAN_MIN_EVENTS st \<le> length win \<and>
      HORIZONTAL_SCAN_MIN_DISTINCT_TARGETS st \<le>
        card ((\<lambda>e. the (e_dst_ip e)) ` {e \<in> set win. truthy (e_dst_ip e)}) \<and>
      HORIZONTAL_SCAN_MIN_BLOCK_RATIO st * of_nat (length win) \<le> of_nat (count_if raw_block win) \<and>
      (py_upper (protocol_or_unknown (last win)) = ''TCP'' \<longrightarrow>
        HORIZONTAL_SCAN_MIN_SYN_RATIO st * of_nat (length win) \<le> of_nat (count_if is_tcp_syn win)))"

lemma length_distinct_target_ips:
  "length (distinct_target_ips es) =
     card ((\<lambda>e. the (e_dst_ip e)) ` {e \<in> set es. truthy (e_dst_ip e)})"
proof -
  have "set (somes (\<lambda>e. truthy_value (e_dst_ip e)) es) =
      (\<lambda>e. the (e_dst_ip e)) ` {e \<in> set es. truthy (e_dst_ip e)}"
    by (auto simp: somes_def map_filter_def truthy_value_def truthy_def image_iff
        split: option.splits if_splits)
  then show ?thesis
    by (metis distinct_card distinct_remdups distinct_target_ips_def set_remdups)
qed

lemma ratio_less_iff: "xs \<noteq> [] \<Longrightarrow> ratio p xs < r \<longleftrightarrow> \<not> r * of_nat (length xs) \<le> of_nat (count_if p xs)"
  by (simp add: ratio_def divide_less_eq not_le)

lemma horizontal_check_iff:
  assumes "win \<noteq> []" and "\<forall>e \<in> set win. horizontal_key e = k"
  shows "fst (horizontal_check st k win) \<longleftrightarrow> horizontal_evidence st win"
proof -
  obtain ip port prot where k: "k = (ip, port, prot)" by (cases k)
  have "horizontal_key (last win) = k" using assms by simp
  then have "protocol_or_unknown (last win) = prot" by (simp add: k horizontal_key_def)
  then show ?thesis
    using assms(1) unfolding k horizontal_check_def horizontal_evidence_def
    by (auto simp: Let_def ratio_less_iff length_distinct_target_ips not_less)
qed

lemma emit_signal_fields:
  assumes "emit_signal md ctx es mc prim key reason conf ty sev targets techs tags = Inr s"
  shows "s_event_ids s = sort_uniq (map e_event_id es)" and "s_primary_entity s = prim"
    and "s_target_entities s = sort_uniq targets" and "s_severity s = sev"
  using assms
  by (auto simp: emit_signal_def build_signal_def bind_err_Inr assemble_signal_fields split: if_splits)

lemma horizontal_emit_fields:
  "horizontal_emit ctx k win mc = Inr s \<Longrightarrow>
   s_event_ids s = sort_uniq (map e_event_id win) \<and> s_primary_entity s = fst k"
  by (cases k) (auto simp: horizontal_emit_def dest: emit_signal_fields)

lemma horizontal_enough:
  "horizontal_check st k win = (True, mc) \<Longrightarrow> HORIZONTAL_SCAN_MIN_EVENTS st \<le> length win"
  by (cases k) (simp add: horizontal_check_def Let_def split: if_splits)

lemma horizontal_emit_total:
  assumes "rule_input win" and "win \<noteq> []"
  shows "\<exists>s. horizontal_emit ctx k win mc = Inr s"
proof (cases k)
  case (fields src port prot)
  have "0 \<le> calculate_signal_confidence n m (6/10) (9/10) \<and> calculate_signal_confidence n m (6/10) (9/10) \<le> 1"
    for n m by (rule signal_confidence_unit) simp_all
  then show ?thesis
    unfolding fields horizontal_emit_def
    by (auto intro!: emit_signal_ok assms simp: horizontal_metadata_def)
qed

lemma horizontal_detection:
  assumes ri: "rule_input es" and us: "usable_settings (ctx_settings ctx)"
    and ev: "horizontal_evaluate es ctx = Inr ss"
  defines "grp \<equiv> \<lambda>k. filter (\<lambda>e. horizontal_usable e \<and> horizontal_key e = k) es"
    and "w \<equiv> HORIZONTAL_SCAN_WINDOW_SECONDS (ctx_settings ctx)"
  shows "s \<in> set ss \<longleftrightarrow> (\<exists>k seen mc. seen \<noteq> [] \<and> prefix seen (grp k) \<and>
      horizontal_check (ctx_settings ctx) k (window_at w seen) = (True, mc) \<and>
      horizontal_emit ctx k (window_at w seen) mc = Inr s)"
    and "seen \<noteq> [] \<Longrightarrow> prefix seen (grp k) \<Longrightarrow>
      fst (horizontal_check (ctx_settings ctx) k (window_at w seen))
        \<longleftrightarrow> horizontal_evidence (ctx_settings ctx) (window_at w seen)"
    and "seen \<noteq> [] \<Longrightarrow> prefix seen (grp k) \<Longrightarrow> \<exists>s. horizontal_emit ctx k (window_at w seen) mc = Inr s"
proof -
  have w0: "0 \<le> w" using us by (simp add: w_def usable_settings_def)
  have scan: "scan_arranged (\<lambda>evs. evs) horizontal_key horizontal_usable w
      (HORIZONTAL_SCAN_MIN_EVENTS (ctx_settings ctx))
      (horizontal_check (ctx_settings ctx)) (horizontal_emit ctx) es = Inr ss"
    using ev by (simp add: horizontal_evaluate_def scan_groups_def Let_def w_def)
  show "s \<in> set ss \<longleftrightarrow> (\<exists>k seen mc. seen \<noteq> [] \<and> prefix seen (grp k) \<and>
      horizontal_check (ctx_settings ctx) k (window_at w seen) = (True, mc) \<and>
      horizontal_emit ctx k (window_at w seen) mc = Inr s)"
    unfolding grp_def by (rule scan_arranged_exact [OF keeps_group_id ri w0 scan horizontal_enough])
  assume seen: "seen \<noteq> []" "prefix seen (grp k)"
  have gri: "rule_input (grp k)" using rule_input_filter [OF ri] by (simp add: grp_def)
  then have ord: "time_ordered (grp k)" by (simp add: rule_input_def)
  note ne = window_at_nonempty [OF ord w0 seen]
  have "\<forall>e \<in> set (window_at w seen). horizontal_key e = k"
    using window_at_subset [OF seen(2), of w] by (auto simp: grp_def)
  then show "fst (horizontal_check (ctx_settings ctx) k (window_at w seen))
        \<longleftrightarrow> horizontal_evidence (ctx_settings ctx) (window_at w seen)"
    by (rule horizontal_check_iff [OF ne])
  have "subseq (window_at w seen) (grp k)"
    unfolding window_at_def using seen(2)
    by (meson prefix_imp_subseq subseq_filter_left subseq_order.trans)
  then have "rule_input (window_at w seen)"
    using rule_input_filter [of seen] rule_input_subseq [OF prefix_imp_subseq [OF seen(2)] _ gri]
      seen(2) ord by (auto simp: window_at_def prefix_def time_ordered_append)
  then show "\<exists>s. horizontal_emit ctx k (window_at w seen) mc = Inr s"
    using ne by (rule horizontal_emit_total)
qed

text \<open>The horizontal scan rule is sound and complete for its thresholds. Every signal lists
  exactly the events of a window of one source, port and protocol that reaches the minimum event
  count, distinct targets, block ratio and (for TCP) SYN ratio, and every window that reaches
  them is reported.\<close>

theorem horizontal_scan_exact:
  assumes "rule_input es" and "usable_settings (ctx_settings ctx)"
    and "horizontal_evaluate es ctx = Inr ss"
  shows "(\<lambda>s. (s_event_ids s, s_primary_entity s)) ` set ss =
    {(sort_uniq (map e_event_id win), fst k) | k seen win.
       seen \<noteq> [] \<and> prefix seen (filter (\<lambda>e. horizontal_usable e \<and> horizontal_key e = k) es) \<and>
       win = window_at (HORIZONTAL_SCAN_WINDOW_SECONDS (ctx_settings ctx)) seen \<and>
       horizontal_evidence (ctx_settings ctx) win}" (is "?signals = ?windows")
proof (intro subset_antisym subsetI)
  note hd = horizontal_detection [OF assms]
  fix x assume "x \<in> ?signals"
  then obtain s where s: "s \<in> set ss" and x: "x = (s_event_ids s, s_primary_entity s)" by blast
  then obtain k seen mc where *: "seen \<noteq> []" "prefix seen (filter (\<lambda>e. horizontal_usable e \<and> horizontal_key e = k) es)"
    "horizontal_check (ctx_settings ctx) k (window_at (HORIZONTAL_SCAN_WINDOW_SECONDS (ctx_settings ctx)) seen) = (True, mc)"
    "horizontal_emit ctx k (window_at (HORIZONTAL_SCAN_WINDOW_SECONDS (ctx_settings ctx)) seen) mc = Inr s"
    using hd(1) by blast
  have "horizontal_evidence (ctx_settings ctx)
      (window_at (HORIZONTAL_SCAN_WINDOW_SECONDS (ctx_settings ctx)) seen)"
    using hd(2) [OF *(1,2)] *(3) by simp
  with *(1,2) horizontal_emit_fields [OF *(4)] show "x \<in> ?windows" unfolding x by blast
next
  note hd = horizontal_detection [OF assms]
  fix x assume "x \<in> ?windows"
  then obtain k seen where x: "x = (sort_uniq (map e_event_id (window_at
        (HORIZONTAL_SCAN_WINDOW_SECONDS (ctx_settings ctx)) seen)), fst k)"
    and *: "seen \<noteq> []" "prefix seen (filter (\<lambda>e. horizontal_usable e \<and> horizontal_key e = k) es)"
    and evd: "horizontal_evidence (ctx_settings ctx)
      (window_at (HORIZONTAL_SCAN_WINDOW_SECONDS (ctx_settings ctx)) seen)" by blast
  have "fst (horizontal_check (ctx_settings ctx) k
      (window_at (HORIZONTAL_SCAN_WINDOW_SECONDS (ctx_settings ctx)) seen))"
    unfolding hd(2) [OF *] by (rule evd)
  then obtain mc where c: "horizontal_check (ctx_settings ctx) k
      (window_at (HORIZONTAL_SCAN_WINDOW_SECONDS (ctx_settings ctx)) seen) = (True, mc)"
    by (rule fst_TrueE)
  obtain s where e: "horizontal_emit ctx k (window_at (HORIZONTAL_SCAN_WINDOW_SECONDS (ctx_settings ctx)) seen) mc = Inr s"
    using hd(3) [OF *] by blast
  have "s \<in> set ss" unfolding hd(1) using c * e by blast
  then show "x \<in> ?signals" by (rule rev_image_eqI) (simp add: x horizontal_emit_fields [OF e])
qed

definition probe :: "string \<Rightarrow> int \<Rightarrow> string \<Rightarrow> int \<Rightarrow> canonical_event" where
  "probe eid t dst dport =
     (sample_event eid t)\<lparr>e_src_ip := Some ''203.0.113.7'', e_src_port := Some 53,
        e_dst_ip := Some dst, e_dst_port := Some dport, e_protocol := Some ''tcp'',
        e_action := Some ''block'', e_tcp_flags := Some ''SYN'', e_inbound_zone := Some ''wan''\<rparr>"

definition probes :: "canonical_event list" where
  "probes = [probe ''E1'' 0 ''10.0.0.1'' 22, probe ''E2'' 1 ''10.0.0.2'' 23, probe ''E3'' 2 ''10.0.0.3'' 22]"

definition two_hit_settings :: DetectionSettings where
  "two_hit_settings = default_settings\<lparr>HORIZONTAL_SCAN_MIN_EVENTS := 2,
     HORIZONTAL_SCAN_MIN_DISTINCT_TARGETS := 2\<rparr>"

definition probe_context :: DetectionContext where
  "probe_context = \<lparr>ctx_settings = two_hit_settings, ctx_analysis_started_at = Instant 0,
     ctx_source_name = ''sample'', ctx_now = Instant 0\<rparr>"

lemma probes_input: "rule_input probes"
  by (simp add: rule_input_def time_ordered_def probes_def probe_def sample_event_def
      less_eq_datetime_def seconds_def CanonicalLogEvent_def)

lemma probes_settings: "usable_settings (ctx_settings probe_context)"
  by code_simp

lemma probes_sources: "\<forall>e \<in> set probes. py_strip (text_of (e_src_ip e)) \<noteq> []"
  by code_simp

theorem horizontal_scan_exact_witness:
  "\<exists>ss. horizontal_evaluate probes probe_context = Inr ss \<and>
    (\<lambda>s. (s_event_ids s, s_primary_entity s)) ` set ss =
    {(sort_uniq (map e_event_id win), fst k) | k seen win.
       seen \<noteq> [] \<and> prefix seen (filter (\<lambda>e. horizontal_usable e \<and> horizontal_key e = k) probes) \<and>
       win = window_at (HORIZONTAL_SCAN_WINDOW_SECONDS (ctx_settings probe_context)) seen \<and>
       horizontal_evidence (ctx_settings probe_context) win}"
proof -
  obtain ss where "horizontal_evaluate probes probe_context = Inr ss"
    using horizontal_sound [OF probes_input probes_settings probes_sources] by blast
  with horizontal_scan_exact [OF probes_input probes_settings this] show ?thesis by blast
qed

text \<open>On any chronologically ordered input with distinct identifiers, the four burst rules
  never raise and every signal they emit honours its rule's contract, so the engine records no
  warning for them.\<close>

theorem burst_rules_sound:
  assumes "rule_input events" and "usable_settings (ctx_settings ctx)"
    and "rule \<in> set burst_rules"
  shows "snd (run_rule events ctx rule) = []"
  using assms by (rule burst_rules_clean)

theorem burst_rules_sound_witness:
  "snd (run_rule probes probe_context VerticalScanRule) = []"
  by (rule burst_rules_sound [OF probes_input probes_settings]) (simp add: burst_rules_def)

text \<open>A fixed-source-port group holds all candidate probes of one exact source and source
  port, within the configured window and at or above both minimums, and it quotes each event
  once.\<close>

theorem fixed_source_port_groups_exact:
  assumes "rule_input es"
    and "g \<in> set (find_fixed_source_port_groups es source_ports n k w external)"
  shows "set (g_events g) = {e \<in> set es. fixed_port_candidate source_ports external e \<and>
      fixed_port_key e = (g_source_ip g, g_source_port g)}
    \<and> distinct (map e_event_id (g_events g))
    \<and> n \<le> length (g_events g)
    \<and> k \<le> card (set (g_destination_ports g))
    \<and> elapsed (g_last_seen g) (g_first_seen g) \<le> seconds w"
proof -
  note g = fixed_port_group_facts [OF assms]
  have "card (set (g_destination_ports g)) = length (g_destination_ports g)"
    unfolding g(8) by (simp add: length_sort_uniq)
  then show ?thesis using g(1,3,5-7) by (simp add: rule_input_def)
qed

definition sample_group :: FixedSourcePortGroup where
  "sample_group = \<lparr>g_source_ip = ''203.0.113.7'', g_source_port = 53, g_events = probes,
     g_destination_ips = [''10.0.0.1'', ''10.0.0.2'', ''10.0.0.3''], g_destination_ports = [22, 23],
     g_allowed_event_count = 0, g_blocked_event_count = 3,
     g_first_seen = Instant 0, g_last_seen = Instant 2000000\<rparr>"

lemma sample_group_found:
  "find_fixed_source_port_groups probes [53, 80, 443] 3 2 300
     (\<lambda>e. is_explicit_wan_zone (e_inbound_zone e)) = [sample_group]"
  by code_simp

theorem fixed_source_port_groups_exact_witness:
  "set (g_events sample_group) = {e \<in> set probes. fixed_port_candidate [53, 80, 443]
      (\<lambda>e. is_explicit_wan_zone (e_inbound_zone e)) e \<and> fixed_port_key e = (''203.0.113.7'', 53)}
    \<and> distinct (map e_event_id (g_events sample_group))
    \<and> 3 \<le> length (g_events sample_group)
    \<and> 2 \<le> card (set (g_destination_ports sample_group))
    \<and> elapsed (g_last_seen sample_group) (g_first_seen sample_group) \<le> seconds 300"
  using fixed_source_port_groups_exact [OF probes_input, of sample_group "[53, 80, 443]" 3 2 300
      "\<lambda>e. is_explicit_wan_zone (e_inbound_zone e)"]
  by (simp add: sample_group_found) (simp add: sample_group_def)

end
