(* ===== verification/IpAddress.thy ===== *)
theory IpAddress
  imports SocPrelude
begin

text \<open>
  What the program uses of Python's \<open>ipaddress\<close> module: parsing of IPv4 and IPv6
  addresses, of networks with \<open>strict=False\<close>, membership, the text of an address and the
  classification properties, as in Python 3.11. A failed parse is \<open>None\<close> (the
  \<open>ValueError\<close> every caller catches).
\<close>

text \<open>An IPv6 address may carry a scope identifier; equality looks at it, as in Python.\<close>

datatype ip_address = V4 int | V6 int "string option"

datatype ip_network = Net4 int nat | Net6 int nat  \<comment> \<open>address and prefix length\<close>

fun digits_value :: "int \<Rightarrow> (char \<Rightarrow> int) \<Rightarrow> int \<Rightarrow> string \<Rightarrow> int" where
  "digits_value base f acc [] = acc"
| "digits_value base f acc (c # cs) = digits_value base f (acc * base + f c) cs"

definition decimal :: "string \<Rightarrow> int option" where
  "decimal s = (if s \<noteq> [] \<and> (\<forall>c \<in> set s. is_digit c)
     then Some (digits_value 10 (\<lambda>c. of_char c - 48) 0 s) else None)"

fun sequence_options :: "'a option list \<Rightarrow> 'a list option" where
  "sequence_options [] = Some []"
| "sequence_options (None # xs) = None"
| "sequence_options (Some x # xs) = map_option (\<lambda>ys. x # ys) (sequence_options xs)"

definition parse_octet :: "string \<Rightarrow> int option" where
  "parse_octet s = (case decimal s of None \<Rightarrow> None
     | Some n \<Rightarrow> if length s > 3 \<or> (s \<noteq> ''0'' \<and> hd s = CHR ''0'') \<or> n > 255 then None else Some n)"

definition parse_ipv4 :: "string \<Rightarrow> int option" where
  "parse_ipv4 s =
     (let octets = split_at (\<lambda>c. c = CHR ''.'') s
      in if length octets \<noteq> 4 then None
         else map_option (foldl (\<lambda>acc n. acc * 256 + n) 0) (sequence_options (map parse_octet octets)))"

definition hex_value :: "char \<Rightarrow> int option" where
  "hex_value c = (if is_digit c then Some (of_char c - 48)
     else if 97 \<le> (of_char c :: int) \<and> (of_char c :: int) \<le> 102 then Some (of_char c - 87)
     else if 65 \<le> (of_char c :: int) \<and> (of_char c :: int) \<le> 70 then Some (of_char c - 55)
     else None)"

definition parse_hextet :: "string \<Rightarrow> int option" where
  "parse_hextet s = (if s = [] \<or> length s > 4 \<or> (\<exists>c \<in> set s. hex_value c = None) then None
     else Some (digits_value 16 (\<lambda>c. the (hex_value c)) 0 s))"

text \<open>The parts of an IPv6 text as values: a dotted-quad tail counts as two hextets.\<close>

datatype hextet_part = Blank | Hextet "int option"

definition ipv6_parts :: "string \<Rightarrow> hextet_part list option" where
  "ipv6_parts s =
     (let parts = split_at (\<lambda>c. c = CHR '':'') s;
          hextet = (\<lambda>p. if p = [] then Blank else Hextet (parse_hextet p))
      in if length parts < 3 then None
         else if CHR ''.'' \<in> set (last parts)
         then (case parse_ipv4 (last parts) of None \<Rightarrow> None
            | Some v \<Rightarrow> Some (map hextet (butlast parts) @
                 [Hextet (Some (v div 65536)), Hextet (Some (v mod 65536))]))
         else Some (map hextet parts))"

definition hextets_value :: "int \<Rightarrow> hextet_part list \<Rightarrow> int option" where
  "hextets_value acc parts =
     map_option (foldl (\<lambda>acc n. acc * 65536 + n) acc)
       (sequence_options (map (\<lambda>p. case p of Blank \<Rightarrow> None | Hextet v \<Rightarrow> v) parts))"

text \<open>The inner positions of the blank parts; more than one is an error.\<close>

definition blank_positions :: "hextet_part list \<Rightarrow> nat list" where
  "blank_positions parts = filter (\<lambda>i. parts ! i = Blank) [1..<length parts - 1]"

definition parse_ipv6_body :: "string \<Rightarrow> int option" where
  "parse_ipv6_body s =
     (case ipv6_parts s of None \<Rightarrow> None
      | Some parts \<Rightarrow>
          if length parts > 9 then None
          else (case blank_positions parts of
              [] \<Rightarrow> if length parts \<noteq> 8 then None else hextets_value 0 parts
            | [skip] \<Rightarrow>
                (let hi = (if hd parts = Blank then skip - 1 else skip);
                     lo = length parts - skip - 1;
                     lo' = (if last parts = Blank then lo - 1 else lo)
                 in if hd parts = Blank \<and> hi \<noteq> 0 then None
                    else if last parts = Blank \<and> lo' \<noteq> 0 then None
                    else if hi + lo' \<ge> 8 then None
                    else (case hextets_value 0 (take hi parts) of None \<Rightarrow> None
                      | Some v \<Rightarrow> hextets_value (v * 65536 ^ (8 - (hi + lo')))
                          (if lo' = 0 then [] else drop (length parts - lo) parts)))
            | _ \<Rightarrow> None))"

text \<open>The scope identifier follows one percent sign; an empty or doubled one is an error.\<close>

definition parse_ipv6 :: "string \<Rightarrow> (int \<times> string option) option" where
  "parse_ipv6 s = (case split_at (\<lambda>c. c = CHR ''%'') s of
       [host] \<Rightarrow> map_option (\<lambda>n. (n, None)) (parse_ipv6_body host)
     | [host, scope] \<Rightarrow> if scope = [] \<or> CHR ''/'' \<in> set scope then None
         else map_option (\<lambda>n. (n, Some scope)) (parse_ipv6_body host)
     | _ \<Rightarrow> None)"

definition parse_ip :: "string \<Rightarrow> ip_address option" where
  "parse_ip s = (case parse_ipv4 s of Some n \<Rightarrow> Some (V4 n)
     | None \<Rightarrow> map_option (\<lambda>(n, scope). V6 n scope) (parse_ipv6 s))"

section \<open>Networks\<close>

definition prefix_from_string :: "nat \<Rightarrow> string \<Rightarrow> nat option" where
  "prefix_from_string width s = (case decimal s of None \<Rightarrow> None
     | Some n \<Rightarrow> if n \<le> int width then Some (nat n) else None)"

text \<open>An IPv4 mask is a netmask or, failing that, a hostmask.\<close>

definition netmask_prefix :: "int \<Rightarrow> nat option" where
  "netmask_prefix m = find (\<lambda>p. m = 2 ^ 32 - 2 ^ (32 - p)) [0..<33]"

definition parse_ipv4_prefix :: "string \<Rightarrow> nat option" where
  "parse_ipv4_prefix s =
     (case prefix_from_string 32 s of
        Some p \<Rightarrow> Some p
      | None \<Rightarrow> (case parse_ipv4 s of None \<Rightarrow> None
          | Some m \<Rightarrow> (case netmask_prefix m of Some p \<Rightarrow> Some p
              | None \<Rightarrow> netmask_prefix (2 ^ 32 - 1 - m))))"

definition parse_network :: "string \<Rightarrow> ip_network option" where
  "parse_network s =
     (case split_at (\<lambda>c. c = CHR ''/'') s of
        [host] \<Rightarrow> (case parse_ipv4 host of Some n \<Rightarrow> Some (Net4 n 32)
           | None \<Rightarrow> map_option (\<lambda>(n, scope). Net6 n 128) (parse_ipv6 host))
      | [host, netm] \<Rightarrow>
          (case (parse_ipv4 host, parse_ipv4_prefix netm) of
             (Some n, Some p) \<Rightarrow> Some (Net4 n p)
           | _ \<Rightarrow> (case (parse_ipv6 host, prefix_from_string 128 netm) of
               (Some (n, scope), Some p) \<Rightarrow> Some (Net6 n p)
             | _ \<Rightarrow> None))
      | _ \<Rightarrow> None)"

text \<open>Membership: same version and equal leading bits.\<close>

fun in_network :: "ip_address \<Rightarrow> ip_network \<Rightarrow> bool" where
  "in_network (V4 a) (Net4 n p) = (a div 2 ^ (32 - p) = n div 2 ^ (32 - p))"
| "in_network (V6 a scope) (Net6 n p) = (a div 2 ^ (128 - p) = n div 2 ^ (128 - p))"
| "in_network _ _ = False"

lemma ip_examples:
  "parse_ip ''192.0.2.1'' = Some (V4 3221225985)"
  "parse_ip ''192.0.2.01'' = None"
  "parse_ip ''::1'' = Some (V6 1 None)"
  "parse_ip ''fe80::1%eth0'' = Some (V6 338288524927261089654018896841347694593 (Some ''eth0''))"
  "parse_ip ''2001:db8::'' = Some (V6 42540766411282592856903984951653826560 None)"
  "parse_ip ''1:2:3:4:5:6:7:8:9'' = None"
  "parse_ip ''::ffff:10.0.0.1'' = Some (V6 281470849515521 None)"
  "parse_ip '':1::2'' = None"
  by code_simp+

lemma network_examples:
  "parse_network ''10.1.2.3/8'' = Some (Net4 167838211 8)"
  "parse_network ''10.0.0.0/255.0.0.0'' = Some (Net4 167772160 8)"
  "parse_network ''10.0.0.0/33'' = None"
  "parse_network ''2001:db8::/32'' = Some (Net6 42540766411282592856903984951653826560 32)"
  by code_simp+

text \<open>A prefix is at most the width, and a network of full length holds only its own address.\<close>

lemma prefix_from_string_le: "prefix_from_string w s = Some p \<Longrightarrow> p \<le> w"
  by (auto simp: prefix_from_string_def split: option.splits if_splits)

lemma netmask_prefix_le: "netmask_prefix m = Some p \<Longrightarrow> p \<le> 32"
  unfolding netmask_prefix_def by (auto simp: find_Some_iff)

lemma ipv4_prefix_le: "parse_ipv4_prefix s = Some p \<Longrightarrow> p \<le> 32"
  by (auto simp: parse_ipv4_prefix_def dest: prefix_from_string_le netmask_prefix_le
      split: option.splits)

lemma network_prefix_bounds:
  "parse_network s = Some (Net4 n p) \<Longrightarrow> p \<le> 32"
  "parse_network s = Some (Net6 n p) \<Longrightarrow> p \<le> 128"
  by (auto simp: parse_network_def dest: ipv4_prefix_le prefix_from_string_le
      split: list.splits option.splits)

lemma host_network: "in_network (V4 a) (Net4 n 32) \<longleftrightarrow> a = n" "in_network (V6 a scope) (Net6 n 128) \<longleftrightarrow> a = n"
  by simp_all

text \<open>Membership is monotone in the prefix: a shorter prefix holds more addresses.\<close>

lemma div_prefix_mono:
  fixes a n :: int and k m :: nat
  assumes "a div 2 ^ k = n div 2 ^ k" and "k \<le> m"
  shows "a div 2 ^ m = n div 2 ^ m"
proof -
  have "(2::int) ^ m = 2 ^ k * 2 ^ (m - k)" using assms(2) by (simp flip: power_add)
  then show ?thesis using assms(1) by (metis zdiv_zmult2_eq zero_le_numeral zero_le_power)
qed

lemma in_network_mono:
  "in_network a (Net4 n p) \<Longrightarrow> q \<le> p \<Longrightarrow> in_network a (Net4 n q)"
  "in_network a (Net6 n p) \<Longrightarrow> q \<le> p \<Longrightarrow> in_network a (Net6 n q)"
  by (cases a; force intro: div_prefix_mono diff_le_mono2)+

section \<open>Text\<close>

definition render_ipv4 :: "int \<Rightarrow> string" where
  "render_ipv4 n = py_join ''.'' (map (\<lambda>k. str_of_int (n div 256 ^ k mod 256)) [3, 2, 1, 0])"

definition lower_hex :: "int \<Rightarrow> string" where
  "lower_hex n = (let char_at = (\<lambda>d. if d < 10 then char_of (48 + d) else char_of (87 + d));
       ds = map (\<lambda>k. n div 16 ^ k mod 16) [3, 2, 1, 0]
     in (case dropWhile (\<lambda>d. d = 0) ds of [] \<Rightarrow> ''0'' | rest \<Rightarrow> map char_at rest))"

text \<open>Length of the run of zeros at the front, and the first longest run (start, length).\<close>

fun zero_run :: "int list \<Rightarrow> nat" where
  "zero_run [] = 0"
| "zero_run (x # xs) = (if x = 0 then Suc (zero_run xs) else 0)"

definition longest_zero_run :: "int list \<Rightarrow> nat \<times> nat" where
  "longest_zero_run xs =
     foldl (\<lambda>(start, len) i. let n = zero_run (drop i xs) in if n > len then (i, n) else (start, len))
       (0, 0) [0..<length xs]"

definition render_ipv6 :: "int \<Rightarrow> string" where
  "render_ipv6 n =
     (let hextets = map (\<lambda>k. n div 65536 ^ k mod 65536) [7, 6, 5, 4, 3, 2, 1, 0];
          (start, len) = longest_zero_run hextets;
          texts = map lower_hex hextets
      in if len \<le> 1 then py_join '':'' texts
         else (let tail = drop (start + len) texts;
                   body = take start texts @ [[]] @ (if tail = [] then [[]] else tail)
               in py_join '':'' (if start = 0 then [] # body else body)))"

primrec ip_text :: "ip_address \<Rightarrow> string" where
  "ip_text (V4 n) = render_ipv4 n"
| "ip_text (V6 n scope) = render_ipv6 n @ (case scope of None \<Rightarrow> [] | Some s \<Rightarrow> ''%'' @ s)"

lemma text_examples:
  "map_option ip_text (parse_ip ''192.0.2.1'') = Some ''192.0.2.1''"
  "map_option ip_text (parse_ip ''2001:DB8:0:0:1:0:0:1'') = Some ''2001:db8::1:0:0:1''"
  "map_option ip_text (parse_ip ''0::0'') = Some ''::''"
  "map_option ip_text (parse_ip ''1:0::'') = Some ''1::''"
  "map_option ip_text (parse_ip ''fe80::1%en0'') = Some ''fe80::1%en0''"
  by code_simp+

section \<open>Classification\<close>

definition ipv4_private_networks :: "ip_network list" where
  "ipv4_private_networks = somes parse_network
     [''0.0.0.0/8'', ''10.0.0.0/8'', ''127.0.0.0/8'', ''169.254.0.0/16'', ''172.16.0.0/12'',
      ''192.0.0.0/24'', ''192.0.0.170/31'', ''192.0.2.0/24'', ''192.168.0.0/16'', ''198.18.0.0/15'',
      ''198.51.100.0/24'', ''203.0.113.0/24'', ''240.0.0.0/4'', ''255.255.255.255/32'']"

definition ipv4_private_exceptions :: "ip_network list" where
  "ipv4_private_exceptions = somes parse_network [''192.0.0.9/32'', ''192.0.0.10/32'']"

definition ipv6_private_networks :: "ip_network list" where
  "ipv6_private_networks = somes parse_network
     [''::1/128'', ''::/128'', ''::ffff:0:0/96'', ''64:ff9b:1::/48'', ''100::/64'', ''2001::/23'',
      ''2001:db8::/32'', ''2002::/16'', ''fc00::/7'', ''fe80::/10'']"

definition ipv6_private_exceptions :: "ip_network list" where
  "ipv6_private_exceptions = somes parse_network
     [''2001:1::1/128'', ''2001:1::2/128'', ''2001:3::/32'', ''2001:4:112::/48'', ''2001:20::/28'',
      ''2001:30::/28'']"

definition in_any :: "ip_address \<Rightarrow> ip_network list \<Rightarrow> bool" where
  "in_any a nets = (\<exists>net \<in> set nets. in_network a net)"

text \<open>\<open>ipv4_mapped\<close>.\<close>

definition ipv4_mapped :: "int \<Rightarrow> int option" where
  "ipv4_mapped n = (if n div 2 ^ 32 = 65535 then Some (n mod 2 ^ 32) else None)"

definition private_v4 :: "int \<Rightarrow> bool" where
  "private_v4 n = (in_any (V4 n) ipv4_private_networks \<and> \<not> in_any (V4 n) ipv4_private_exceptions)"

primrec is_private :: "ip_address \<Rightarrow> bool" where
  "is_private (V4 n) = private_v4 n"
| "is_private (V6 n scope) = (case ipv4_mapped n of Some m \<Rightarrow> private_v4 m
     | None \<Rightarrow> in_any (V6 n scope) ipv6_private_networks \<and> \<not> in_any (V6 n scope) ipv6_private_exceptions)"

primrec is_global :: "ip_address \<Rightarrow> bool" where
  "is_global (V4 n) = (\<not> in_any (V4 n) (somes parse_network [''100.64.0.0/10'']) \<and> \<not> is_private (V4 n))"
| "is_global (V6 n scope) = (\<not> is_private (V6 n scope))"

primrec is_loopback :: "ip_address \<Rightarrow> bool" where
  "is_loopback (V4 n) = in_any (V4 n) (somes parse_network [''127.0.0.0/8''])"
| "is_loopback (V6 n scope) = (n = 1)"

primrec is_multicast :: "ip_address \<Rightarrow> bool" where
  "is_multicast (V4 n) = in_any (V4 n) (somes parse_network [''224.0.0.0/4''])"
| "is_multicast (V6 n scope) = in_any (V6 n scope) (somes parse_network [''ff00::/8''])"

primrec is_unspecified :: "ip_address \<Rightarrow> bool" where
  "is_unspecified (V4 n) = (n = 0)"
| "is_unspecified (V6 n scope) = (n = 0)"

primrec is_link_local :: "ip_address \<Rightarrow> bool" where
  "is_link_local (V4 n) = in_any (V4 n) (somes parse_network [''169.254.0.0/16''])"
| "is_link_local (V6 n scope) = in_any (V6 n scope) (somes parse_network [''fe80::/10''])"

text \<open>No address is both private and global; the shared space 100.64.0.0/10 is neither.\<close>

lemma private_not_global: "is_global a \<Longrightarrow> \<not> is_private a"
  by (cases a) auto

lemma classification_examples:
  "map_option is_private (parse_ip ''10.1.2.3'') = Some True"
  "map_option is_private (parse_ip ''192.0.0.9'') = Some False"
  "map_option is_global (parse_ip ''8.8.8.8'') = Some True"
  "map_option (\<lambda>a. is_private a \<or> is_global a) (parse_ip ''100.64.1.1'') = Some False"
  "map_option is_private (parse_ip ''::ffff:10.0.0.1'') = Some True"
  "map_option is_global (parse_ip ''2001:4860::8888'') = Some True"
  "map_option is_link_local (parse_ip ''fe80::1%eth0'') = Some True"
  by code_simp+

end
