(* ===== verification/Suppression.thy ===== *)
theory Suppression
  imports Signals IpAddress
begin

text \<open>
  The suppression policy (\<open>agent/detection/suppression.py\<close>): the late-RST pattern of the
  stateful firewall and the allow lists, in the order the code consults them.
\<close>

definition LATE_RST_SERVICE_SOURCE_PORTS :: "int list" where
  "LATE_RST_SERVICE_SOURCE_PORTS = [22, 53, 80, 443, 993, 995]"

definition LATE_RST_MIN_EPHEMERAL_PORT :: int where
  "LATE_RST_MIN_EPHEMERAL_PORT = 32768"

definition LATE_RST_MIN_EVENTS :: nat where
  "LATE_RST_MIN_EVENTS = 2"

definition LATE_RST_SUPPRESSION_REASON :: string where
  "LATE_RST_SUPPRESSION_REASON = ''late_rst_from_established_service''"

text \<open>\<open>str(metadata.get(key, ""))\<close> for a comparison with plain text; a value that is not a
  string never renders as the compared texts.\<close>

definition metadata_text :: "canonical_event \<Rightarrow> string \<Rightarrow> string" where
  "metadata_text event k = (case metadata_get event k of Some (PStr s) \<Rightarrow> s | _ \<Rightarrow> [])"

definition is_explicit_spi_block :: "canonical_event \<Rightarrow> bool" where
  "is_explicit_spi_block event =
     (let original_action = py_lower (py_strip (metadata_text event ''original_device_action''));
          canonical_action = py_lower (py_strip
            (case e_action event of None \<Rightarrow> [] | Some a \<Rightarrow> a));
          explicit_spi = (metadata_get event ''spi_anomaly'' = Some (PBool True) \<or>
            original_action = ''blocked by spi'' \<or> canonical_action = ''blocked by spi'')
      in explicit_spi \<and> (is_blocked event \<or> canonical_action = ''blocked by spi''))"

definition is_late_rst_spi_pattern :: "DetectionSignal \<Rightarrow> (string \<times> canonical_event) list \<Rightarrow> bool" where
  "is_late_rst_spi_pattern signal event_lookup =
     (if s_signal_type signal \<noteq> ''spi_anomaly'' \<or> s_rule_id signal \<noteq> ''spi_anomaly_burst'' then False
      else if event_lookup = [] \<or> s_event_ids signal = [] then False
      else if \<exists>eid \<in> set (s_event_ids signal). map_of event_lookup eid = None then False
      else (let events = map (\<lambda>eid. the (map_of event_lookup eid)) (s_event_ids signal)
        in if length events < LATE_RST_MIN_EVENTS \<or> \<not> (\<forall>e \<in> set events. is_explicit_spi_block e)
           then False
           else if card (set (map e_src_port events)) \<noteq> 1 \<or>
             (case e_src_port (hd events) of None \<Rightarrow> True
              | Some p \<Rightarrow> p \<notin> set LATE_RST_SERVICE_SOURCE_PORTS) then False
           else if \<exists>e \<in> set events. (case e_dst_port e of None \<Rightarrow> True
              | Some p \<Rightarrow> p < LATE_RST_MIN_EPHEMERAL_PORT) then False
           else if \<not> distinct (map e_dst_port events) then False
           else if card (set (List.map_filter (\<lambda>e. case e_dst_ip e of None \<Rightarrow> None
              | Some ip \<Rightarrow> if ip = [] then None else Some ip) events)) \<noteq> 1 then False
           else (\<forall>e \<in> set events. parse_tcp_flag_tokens (e_tcp_flags e) = {''RST''} \<or>
              parse_tcp_flag_tokens (e_tcp_flags e) = {''RST'', ''ACK''})))"

record SuppressionPolicy =
  allowed_sources :: "string list"
  allowed_destinations :: "string list"
  allowed_rules :: "string list"
  allowed_ports :: "int list"
  allowed_ip_pairs :: "(string \<times> string) list"

definition new_policy :: SuppressionPolicy where
  "new_policy = \<lparr>allowed_sources = [], allowed_destinations = [], allowed_rules = [],
     allowed_ports = [], allowed_ip_pairs = []\<rparr>"

definition any_network :: "string \<Rightarrow> bool" where
  "any_network cidr = (cidr = ''0.0.0.0/0'' \<or> cidr = ''::/0'')"

definition add_allowed_source :: "string \<Rightarrow> SuppressionPolicy \<Rightarrow> SuppressionPolicy" where
  "add_allowed_source cidr p =
     (if any_network cidr then p else p\<lparr>allowed_sources := allowed_sources p @ [cidr]\<rparr>)"

definition add_allowed_destination :: "string \<Rightarrow> SuppressionPolicy \<Rightarrow> SuppressionPolicy" where
  "add_allowed_destination cidr p =
     (if any_network cidr then p else p\<lparr>allowed_destinations := allowed_destinations p @ [cidr]\<rparr>)"

text \<open>\<open>ip in ip_network(cidr, strict=False)\<close>, a malformed network counting as no match.\<close>

definition matches_cidr :: "ip_address \<Rightarrow> string \<Rightarrow> bool" where
  "matches_cidr ip cidr = (case parse_network cidr of None \<Rightarrow> False | Some net \<Rightarrow> in_network ip net)"

definition target_reason ::
  "SuppressionPolicy \<Rightarrow> DetectionSignal \<Rightarrow> ip_address option \<Rightarrow> string \<Rightarrow> string option" where
  "target_reason policy signal src_ip target =
     (case parse_ip target of
        None \<Rightarrow> None
      | Some dst_ip \<Rightarrow>
          if \<exists>allowed \<in> set (allowed_destinations policy). matches_cidr dst_ip allowed
          then Some (''Destination '' @ target @ '' is in allowed destinations'')
          else (case src_ip of None \<Rightarrow> None
            | Some src \<Rightarrow>
                if \<exists>(src_cidr, dst_cidr) \<in> set (allowed_ip_pairs policy).
                     matches_cidr src src_cidr \<and> matches_cidr dst_ip dst_cidr
                then Some (''IP pair '' @ s_primary_entity signal @ '' -> '' @ target @ '' is allowed'')
                else None))"

fun first_some :: "('a \<Rightarrow> 'b option) \<Rightarrow> 'a list \<Rightarrow> 'b option" where
  "first_some f [] = None"
| "first_some f (x # xs) = (case f x of Some y \<Rightarrow> Some y | None \<Rightarrow> first_some f xs)"

definition source_address :: "DetectionSignal \<Rightarrow> ip_address option" where
  "source_address signal =
     (if s_primary_entity signal = [] then None else parse_ip (s_primary_entity signal))"

definition is_suppressed ::
  "SuppressionPolicy \<Rightarrow> DetectionSignal \<Rightarrow> (string \<times> canonical_event) list \<Rightarrow> string option" where
  "is_suppressed policy signal event_lookup =
     (if is_late_rst_spi_pattern signal event_lookup then Some LATE_RST_SUPPRESSION_REASON
      else if s_rule_id signal \<in> set (allowed_rules policy)
      then Some (''Rule '' @ s_rule_id signal @ '' is globally allowed'')
      else (let src_ip = source_address signal
        in if (case src_ip of None \<Rightarrow> False
              | Some ip \<Rightarrow> \<exists>allowed \<in> set (allowed_sources policy). matches_cidr ip allowed)
           then Some (''Source '' @ s_primary_entity signal @ '' is in allowed sources'')
           else first_some (target_reason policy signal src_ip) (s_target_entities signal)))"

section \<open>What is suppressed\<close>

definition source_allowed :: "SuppressionPolicy \<Rightarrow> DetectionSignal \<Rightarrow> bool" where
  "source_allowed p s = (\<exists>ip cidr. source_address s = Some ip \<and> cidr \<in> set (allowed_sources p) \<and>
     matches_cidr ip cidr)"

definition destination_allowed :: "SuppressionPolicy \<Rightarrow> DetectionSignal \<Rightarrow> bool" where
  "destination_allowed p s = (\<exists>t \<in> set (s_target_entities s). \<exists>ip. parse_ip t = Some ip \<and>
     (\<exists>cidr \<in> set (allowed_destinations p). matches_cidr ip cidr))"

definition pair_allowed :: "SuppressionPolicy \<Rightarrow> DetectionSignal \<Rightarrow> bool" where
  "pair_allowed p s = (\<exists>t \<in> set (s_target_entities s). \<exists>src dst. source_address s = Some src \<and>
     parse_ip t = Some dst \<and>
     (\<exists>(sc, dc) \<in> set (allowed_ip_pairs p). matches_cidr src sc \<and> matches_cidr dst dc))"

lemma first_some_None: "first_some f xs = None \<longleftrightarrow> (\<forall>x \<in> set xs. f x = None)"
  by (induction xs) (auto split: option.splits)

lemma target_reason_None:
  "target_reason p s src t = None \<longleftrightarrow> (\<forall>dst. parse_ip t = Some dst \<longrightarrow>
     (\<forall>cidr \<in> set (allowed_destinations p). \<not> matches_cidr dst cidr) \<and>
     (\<forall>ip. src = Some ip \<longrightarrow> (\<forall>(sc, dc) \<in> set (allowed_ip_pairs p).
        \<not> (matches_cidr ip sc \<and> matches_cidr dst dc))))"
  by (auto simp: target_reason_def split: option.splits if_splits)

lemma suppression_iff:
  "is_suppressed p s lk \<noteq> None \<longleftrightarrow> is_late_rst_spi_pattern s lk \<or> s_rule_id s \<in> set (allowed_rules p) \<or>
     source_allowed p s \<or> destination_allowed p s \<or> pair_allowed p s"
proof -
  have src: "(case source_address s of None \<Rightarrow> False
      | Some ip \<Rightarrow> \<exists>allowed \<in> set (allowed_sources p). matches_cidr ip allowed) \<longleftrightarrow> source_allowed p s"
    by (auto simp: source_allowed_def split: option.splits)
  have tgt: "first_some (target_reason p s (source_address s)) (s_target_entities s) \<noteq> None \<longleftrightarrow>
      destination_allowed p s \<or> pair_allowed p s"
    unfolding first_some_None target_reason_None destination_allowed_def pair_allowed_def by fast
  show ?thesis using tgt unfolding is_suppressed_def Let_def src by auto
qed

text \<open>The late-RST pattern never hides an allowed flow: all its events are blocked ones.\<close>

lemma explicit_spi_block_not_allowed: "is_explicit_spi_block e \<Longrightarrow> \<not> is_allowed e"
proof
  assume block: "is_explicit_spi_block e" and allowed: "is_allowed e"
  then obtain a where a: "e_action e = Some a" "py_lower (py_strip a) \<in> set ALLOWED_ACTIONS"
    by (auto simp: is_allowed_def split: option.splits)
  then have "py_lower (py_strip a) = ''blocked by spi''"
    using block allowed not_blocked_and_allowed by (auto simp: is_explicit_spi_block_def Let_def)
  with a(2) show False by (simp add: ALLOWED_ACTIONS_def)
qed

lemma late_rst_facts:
  assumes "is_late_rst_spi_pattern s lk"
  shows "2 \<le> length (s_event_ids s)"
    and "\<forall>eid \<in> set (s_event_ids s). \<exists>e. map_of lk eid = Some e \<and> is_explicit_spi_block e \<and>
      ''RST'' \<in> parse_tcp_flag_tokens (e_tcp_flags e)"
proof -
  let ?e = "\<lambda>eid. the (map_of lk eid)"
  have known: "\<forall>eid \<in> set (s_event_ids s). map_of lk eid \<noteq> None"
    and len: "2 \<le> length (s_event_ids s)"
    and block: "\<forall>eid \<in> set (s_event_ids s). is_explicit_spi_block (?e eid)"
    and flags: "\<forall>eid \<in> set (s_event_ids s). parse_tcp_flag_tokens (e_tcp_flags (?e eid)) = {''RST''} \<or>
      parse_tcp_flag_tokens (e_tcp_flags (?e eid)) = {''RST'', ''ACK''}"
    using assms unfolding is_late_rst_spi_pattern_def Let_def LATE_RST_MIN_EVENTS_def
    by (simp_all split: if_split_asm)
  show "2 \<le> length (s_event_ids s)" by (rule len)
  show "\<forall>eid \<in> set (s_event_ids s). \<exists>e. map_of lk eid = Some e \<and> is_explicit_spi_block e \<and>
      ''RST'' \<in> parse_tcp_flag_tokens (e_tcp_flags e)"
  proof
    fix eid assume eid: "eid \<in> set (s_event_ids s)"
    then obtain e where "map_of lk eid = Some e" using known by blast
    with eid block flags show "\<exists>e. map_of lk eid = Some e \<and> is_explicit_spi_block e \<and>
      ''RST'' \<in> parse_tcp_flag_tokens (e_tcp_flags e)" by (metis insertCI option.sel)
  qed
qed

text \<open>C24: a signal is suppressed exactly when it is a late-RST burst or matches an allow list,
  and a late-RST burst consists of at least two blocked resets, so that suppression never hides
  an allowed connection by itself.\<close>

theorem suppression_exact:
  "(is_suppressed p s lk \<noteq> None \<longleftrightarrow>
     is_late_rst_spi_pattern s lk \<or> s_rule_id s \<in> set (allowed_rules p) \<or>
     source_allowed p s \<or> destination_allowed p s \<or> pair_allowed p s)
   \<and> (is_late_rst_spi_pattern s lk \<longrightarrow> 2 \<le> length (s_event_ids s) \<and>
     (\<forall>eid \<in> set (s_event_ids s). \<exists>e. map_of lk eid = Some e \<and> \<not> is_allowed e \<and>
        ''RST'' \<in> parse_tcp_flag_tokens (e_tcp_flags e)))"
  using suppression_iff late_rst_facts explicit_spi_block_not_allowed by blast

definition late_reset :: "string \<Rightarrow> int \<Rightarrow> canonical_event" where
  "late_reset eid dport = (CanonicalLogEvent eid ''mock'' ''parsed'')
     \<lparr>e_action := Some ''Blocked by SPI'', e_src_port := Some 443, e_dst_port := Some dport,
      e_dst_ip := Some ''10.0.0.5'', e_tcp_flags := Some ''RST''\<rparr>"

definition late_reset_signal :: DetectionSignal where
  "late_reset_signal = \<lparr>s_signal_id = ''SIG-1'', s_rule_id = ''spi_anomaly_burst'',
     s_rule_version = ''1.0.0'', s_rule_name = ''SPI Anomaly Burst'',
     s_signal_type = ''spi_anomaly'', s_signal_family = ''network_anomaly'',
     s_severity = ''medium'', s_confidence = 1/2, s_first_seen = Instant 0,
     s_last_seen = Instant 0, s_event_ids = [''E1'', ''E2''], s_primary_entity = ''203.0.113.7'',
     s_target_entities = [''10.0.0.5''], s_metrics = [], s_evidence = [],
     s_mitre_techniques = [], s_tags = [], s_suppressed = False, s_suppression_reason = None\<rparr>"

theorem suppression_exact_witness:
  "is_suppressed new_policy late_reset_signal
      [(''E1'', late_reset ''E1'' 40000), (''E2'', late_reset ''E2'' 40001)] \<noteq> None
   \<and> (\<exists>e. map_of [(''E1'', late_reset ''E1'' 40000), (''E2'', late_reset ''E2'' 40001)] ''E1'' = Some e
        \<and> \<not> is_allowed e)
   \<and> (\<exists>e. map_of [(''E1'', late_reset ''E1'' 40000), (''E2'', late_reset ''E2'' 40001)] ''E2'' = Some e
        \<and> \<not> is_allowed e)"
proof -
  have "is_late_rst_spi_pattern late_reset_signal
      [(''E1'', late_reset ''E1'' 40000), (''E2'', late_reset ''E2'' 40001)]"
    by code_simp
  moreover have "set (s_event_ids late_reset_signal) = {''E1'', ''E2''}"
    by (simp add: late_reset_signal_def)
  ultimately show ?thesis
    using suppression_exact [of new_policy late_reset_signal
        "[(''E1'', late_reset ''E1'' 40000), (''E2'', late_reset ''E2'' 40001)]"] by (metis insertI1 insertI2)
qed

end
