(* ===== verification/Clustering.thy ===== *)
theory Clustering
  imports Scoring
begin

text \<open>
  Anchor-based clustering of signals
  (\<open>agent/detection/incident_correlation.py\<close>, up to \<open>cluster_signals\<close>): the precedence
  order, the correlation gate and the clustering loop. Clusters are shown to partition the
  signals around pairwise uncorrelated anchors, and not to depend on the input order.
\<close>

section \<open>Precedence\<close>

definition LEVEL_1_SEQUENCE_TO_ALLOWED :: "string list" where
  "LEVEL_1_SEQUENCE_TO_ALLOWED = [''scan_followed_by_allowed_connection'',
     ''blocked_then_allowed_same_service'', ''spi_followed_by_allowed_connection'']"

definition LEVEL_2_EXPOSURE_AND_POLICY :: "string list" where
  "LEVEL_2_EXPOSURE_AND_POLICY = [''critical_management_service_exposed'',
     ''dnat_sensitive_service_exposure'', ''wan_to_lan_sensitive_service_allowed'',
     ''multi_source_allowed_sensitive_service'', ''wan_to_dmz_administrative_service_allowed'',
     ''inbound_sensitive_service_allowed'']"

definition LEVEL_3_SERVICE_SPECIFIC_PROBES :: "string list" where
  "LEVEL_3_SERVICE_SPECIFIC_PROBES = [''rdp_probe'', ''ssh_probe'', ''smb_probe'', ''vnc_probe'',
     ''winrm_probe'', ''mssql_probe'', ''oracle_probe'', ''mysql_probe'', ''postgresql_probe'',
     ''redis_probe'', ''elasticsearch_probe'', ''mongodb_probe'', ''docker_daemon_probe'',
     ''kubernetes_api_probe'', ''kubelet_probe'', ''telnet_probe'', ''ftp_probe'',
     ''web_admin_panel_probe'', ''database_service_probe'', ''kubernetes_service_probe'',
     ''legacy_cleartext_service_probe'']"

definition LEVEL_4_ADVANCED_SCANNING :: "string list" where
  "LEVEL_4_ADVANCED_SCANNING = [''low_and_slow_horizontal_scan'', ''low_and_slow_vertical_scan'',
     ''internal_lateral_scan'', ''subnet_sweep'', ''distributed_scan'', ''multi_service_sweep'']"

definition LEVEL_5_GENERIC_SCANNING :: "string list" where
  "LEVEL_5_GENERIC_SCANNING = [''horizontal_scan'', ''vertical_scan'']"

definition LEVEL_6_REPEATED_BLOCKED_SCANNING :: "string list" where
  "LEVEL_6_REPEATED_BLOCKED_SCANNING = [''repeated_blocked_scanner'']"

definition PRECEDENCE_LEVELS :: "string list list" where
  "PRECEDENCE_LEVELS = [LEVEL_1_SEQUENCE_TO_ALLOWED, LEVEL_2_EXPOSURE_AND_POLICY,
     LEVEL_3_SERVICE_SPECIFIC_PROBES, LEVEL_4_ADVANCED_SCANNING, LEVEL_5_GENERIC_SCANNING,
     LEVEL_6_REPEATED_BLOCKED_SCANNING]"

definition FALLBACK_LEVEL :: nat where
  "FALLBACK_LEVEL = length PRECEDENCE_LEVELS + 1"

definition SIGNAL_TYPE_PRECEDENCE :: "(string \<times> nat \<times> nat) list" where
  "SIGNAL_TYPE_PRECEDENCE = concat (map (\<lambda>(level_index, level_types).
       map (\<lambda>(within_level_index, signal_type). (signal_type, level_index, within_level_index))
         (enumerate 0 level_types))
     (enumerate 1 PRECEDENCE_LEVELS))"

definition precedence_level :: "string \<Rightarrow> nat \<times> nat" where
  "precedence_level signal_type =
     (case map_of SIGNAL_TYPE_PRECEDENCE signal_type of
        Some p \<Rightarrow> p | None \<Rightarrow> (FALLBACK_LEVEL, 0))"

type_synonym precedence = "nat \<times> nat \<times> int \<times> rat \<times> datetime \<times> string \<times> string \<times> string"

definition signal_precedence_key :: "DetectionSignal \<Rightarrow> precedence" where
  "signal_precedence_key signal =
     (let (level, within_level_order) = precedence_level (s_signal_type signal)
      in (level, within_level_order, - int (severity_rank (s_severity signal)),
          - s_confidence signal, s_first_seen signal, s_rule_id signal, s_signal_type signal,
          s_signal_id signal))"

text \<open>No signal type is listed twice, so the dictionary loses no entry; and the key ends in the
  signal identity, so it separates signals with distinct identities.\<close>

lemma distinct_precedence_types: "distinct (map fst SIGNAL_TYPE_PRECEDENCE)"
  by code_simp

definition identified :: "DetectionSignal set \<Rightarrow> bool" where
  "identified A = inj_on s_signal_id A"

lemma precedence_key_inj: "identified A \<Longrightarrow> inj_on signal_precedence_key A"
  by (auto simp: identified_def inj_on_def signal_precedence_key_def Let_def split: prod.splits)

interpretation precedence: separating_key signal_precedence_key identified
  by unfold_locales (rule precedence_key_inj)

section \<open>The correlation gate\<close>

definition event_overlap_ratio :: "DetectionSignal \<Rightarrow> DetectionSignal \<Rightarrow> rat" where
  "event_overlap_ratio left right =
     (let left_ids = set (s_event_ids left); right_ids = set (s_event_ids right)
      in if left_ids = {} \<or> right_ids = {} then 0
         else of_nat (card (left_ids \<inter> right_ids)) / of_nat (min (card left_ids) (card right_ids)))"

definition time_windows_are_compatible :: "DetectionSignal \<Rightarrow> DetectionSignal \<Rightarrow> int \<Rightarrow> bool" where
  "time_windows_are_compatible left right window_seconds =
     (if s_first_seen left \<le> s_last_seen right \<and> s_first_seen right \<le> s_last_seen left then True
      else max (elapsed (s_first_seen right) (s_last_seen left))
               (elapsed (s_first_seen left) (s_last_seen right)) \<le> seconds window_seconds)"

definition CROSS_PRIMARY_ELIGIBLE_FAMILIES :: "string list" where
  "CROSS_PRIMARY_ELIGIBLE_FAMILIES = [''firewall_exposure'', ''firewall_policy'']"

definition has_shared_event_evidence :: "DetectionSignal \<Rightarrow> DetectionSignal \<Rightarrow> bool" where
  "has_shared_event_evidence left right = (set (s_event_ids left) \<inter> set (s_event_ids right) \<noteq> {})"

definition entity_scope :: "DetectionSignal \<Rightarrow> string set" where
  "entity_scope s = set (s_target_entities s) \<union>
     (if s_primary_entity s \<noteq> [] then {s_primary_entity s} else {})"

definition cross_primary_exposure_correlation_allowed ::
  "DetectionSignal \<Rightarrow> DetectionSignal \<Rightarrow> int \<Rightarrow> bool" where
  "cross_primary_exposure_correlation_allowed anchor candidate window_seconds =
     (s_signal_family anchor \<in> set CROSS_PRIMARY_ELIGIBLE_FAMILIES \<and>
      s_signal_family candidate \<in> set CROSS_PRIMARY_ELIGIBLE_FAMILIES \<and>
      s_event_ids anchor \<noteq> [] \<and> s_event_ids candidate \<noteq> [] \<and>
      set (s_event_ids anchor) = set (s_event_ids candidate) \<and>
      entity_scope anchor \<inter> entity_scope candidate \<noteq> {} \<and>
      time_windows_are_compatible anchor candidate window_seconds)"

definition signals_may_correlate ::
  "int \<Rightarrow> rat \<Rightarrow> DetectionSignal \<Rightarrow> DetectionSignal \<Rightarrow> bool" where
  "signals_may_correlate window_seconds overlap_threshold anchor candidate =
     (if s_primary_entity anchor \<noteq> [] \<and> s_primary_entity candidate \<noteq> [] \<and>
         s_primary_entity anchor = s_primary_entity candidate
      then time_windows_are_compatible anchor candidate window_seconds \<and>
           has_shared_event_evidence anchor candidate \<and>
           event_overlap_ratio anchor candidate \<ge> overlap_threshold
      else cross_primary_exposure_correlation_allowed anchor candidate window_seconds)"

text \<open>Signals without a common event never correlate, whatever the threshold, and the gate is
  symmetric.\<close>

lemma correlate_needs_evidence:
  "signals_may_correlate w th a c \<Longrightarrow> set (s_event_ids a) \<inter> set (s_event_ids c) \<noteq> {}"
  by (auto simp: signals_may_correlate_def has_shared_event_evidence_def
      cross_primary_exposure_correlation_allowed_def split: if_splits)

lemma windows_compatible_sym:
  "time_windows_are_compatible a c w = time_windows_are_compatible c a w"
  by (auto simp: time_windows_are_compatible_def max.commute)

lemma overlap_ratio_sym: "event_overlap_ratio a c = event_overlap_ratio c a"
  by (simp add: event_overlap_ratio_def Let_def Int_commute min.commute disj_commute)

lemma correlate_sym: "signals_may_correlate w th a c = signals_may_correlate w th c a"
  unfolding signals_may_correlate_def cross_primary_exposure_correlation_allowed_def
    has_shared_event_evidence_def
  using windows_compatible_sym [of a c w] overlap_ratio_sym [of a c]
  by (auto simp: Int_commute)

lemma overlap_ratio_bounds: "0 \<le> event_overlap_ratio a c \<and> event_overlap_ratio a c \<le> 1"
proof (cases "set (s_event_ids a) = {} \<or> set (s_event_ids c) = {}")
  case False
  let ?A = "set (s_event_ids a)" and ?C = "set (s_event_ids c)"
  have "card (?A \<inter> ?C) \<le> min (card ?A) (card ?C)" by (simp add: card_mono)
  moreover have "0 < min (card ?A) (card ?C)" using False by (simp add: card_gt_0_iff)
  ultimately have "of_nat (card (?A \<inter> ?C)) / of_nat (min (card ?A) (card ?C)) \<le> (1::rat)"
    by (simp only: divide_le_eq_1 of_nat_le_iff of_nat_0_less_iff) auto
  with False show ?thesis by (simp add: event_overlap_ratio_def Let_def)
qed (auto simp: event_overlap_ratio_def)

section \<open>Clustering\<close>

definition anchor_key ::
  "DetectionSignal \<Rightarrow> DetectionSignal \<Rightarrow> rat \<times> precedence \<times> datetime \<times> string" where
  "anchor_key candidate anchor =
     (- event_overlap_ratio anchor candidate, signal_precedence_key anchor, s_first_seen anchor,
      s_signal_id anchor)"

definition best_anchor :: "DetectionSignal \<Rightarrow> DetectionSignal list \<Rightarrow> DetectionSignal" where
  "best_anchor candidate eligible_anchors = arg_min_list (anchor_key candidate) eligible_anchors"

type_synonym cluster_state = "DetectionSignal list \<times> (string \<times> DetectionSignal list) list"

definition cluster_step ::
  "int \<Rightarrow> rat \<Rightarrow> cluster_state \<Rightarrow> DetectionSignal \<Rightarrow> cluster_state" where
  "cluster_step window_seconds overlap_threshold = (\<lambda>(anchors, members) candidate.
     (let eligible_anchors = filter (\<lambda>anchor.
            signals_may_correlate window_seconds overlap_threshold anchor candidate) anchors
      in if eligible_anchors = []
         then (anchors @ [candidate], AList.update (s_signal_id candidate) [candidate] members)
         else (anchors,
               add_to (s_signal_id (best_anchor candidate eligible_anchors)) candidate members)))"

definition cluster_signals ::
  "DetectionSignal list \<Rightarrow> int \<Rightarrow> rat \<Rightarrow> DetectionSignal list list" where
  "cluster_signals signals window_seconds overlap_threshold =
     (let ordered = sort_key signal_precedence_key signals;
          (anchors, members) = foldl (cluster_step window_seconds overlap_threshold) ([], []) ordered
      in map (\<lambda>anchor. case map_of members (s_signal_id anchor) of
                 Some ms \<Rightarrow> ms | None \<Rightarrow> []) anchors)"

text \<open>The state of the loop after the signals \<open>seen\<close>.\<close>

definition led_by ::
  "int \<Rightarrow> rat \<Rightarrow> DetectionSignal list \<Rightarrow> DetectionSignal \<Rightarrow> DetectionSignal list \<Rightarrow> bool" where
  "led_by w th seen a ms = (\<exists>rest. ms = a # rest \<and> subseq ms seen \<and>
     (\<forall>m \<in> set rest. signals_may_correlate w th a m))"

definition cluster_inv ::
  "int \<Rightarrow> rat \<Rightarrow> DetectionSignal list \<Rightarrow> cluster_state \<Rightarrow> bool" where
  "cluster_inv w th seen = (\<lambda>(anchors, members).
     map fst members = map s_signal_id anchors \<and>
     list_all2 (\<lambda>a kms. led_by w th seen a (snd kms)) anchors members \<and>
     mset (concat (map snd members)) = mset seen \<and>
     sorted_wrt (\<lambda>a b. \<not> signals_may_correlate w th a b) anchors \<and> set anchors \<subseteq> set seen)"

lemma update_new_key: "k \<notin> set (map fst d) \<Longrightarrow> AList.update k v d = d @ [(k, v)]"
  by (induction d) auto

lemma add_to_pointwise:
  assumes "list_all2 P as d" and "\<And>a vs. P a (k, vs) \<Longrightarrow> a \<in> set as \<Longrightarrow> Q a (k, vs @ [v])"
    and "\<And>a k' vs. P a (k', vs) \<Longrightarrow> Q a (k', vs)" and "k \<in> set (map fst d)"
  shows "list_all2 Q as (add_to k v d)"
  using assms(1,2,4)
proof (induction rule: list_all2_induct)
  case (Cons a as kv d)
  obtain k' vs where kv: "kv = (k', vs)" by (cases kv)
  have rest: "list_all2 Q as d" using Cons.hyps(2) assms(3) by (auto elim!: list_all2_mono)
  show ?case
  proof (cases "k = k'")
    case True
    with Cons.hyps(1) Cons.prems(1) rest kv show ?thesis by simp
  next
    case False
    with Cons assms(3) kv show ?thesis by auto
  qed
qed simp

lemma list_all2_keyed:
  "list_all2 P as d \<Longrightarrow> map fst d = map f as \<Longrightarrow> list_all2 (\<lambda>a kv. P a kv \<and> fst kv = f a) as d"
  by (induction rule: list_all2_induct) auto

lemma cluster_inv_step:
  assumes inv: "cluster_inv w th seen (anchors, members)"
    and new: "s_signal_id c \<notin> s_signal_id ` set seen" and dist: "identified (set seen)"
  shows "cluster_inv w th (seen @ [c]) (cluster_step w th (anchors, members) c)"
proof -
  let ?el = "filter (\<lambda>a. signals_may_correlate w th a c) anchors"
  let ?P = "\<lambda>seen a kms. led_by w th seen a (snd kms)"
  have keys: "map fst members = map s_signal_id anchors"
    and ms: "list_all2 (?P seen) anchors members"
    and mset: "mset (concat (map snd members)) = mset seen"
    and sep: "sorted_wrt (\<lambda>a b. \<not> signals_may_correlate w th a b) anchors"
    and sub: "set anchors \<subseteq> set seen"
    using inv by (auto simp: cluster_inv_def)
  have weaken: "?P (seen @ [c]) a kms" if "?P seen a kms" for a kms
    using that unfolding led_by_def by (meson list_emb_prefix)
  show ?thesis
  proof (cases "?el = []")
    case True
    have "s_signal_id c \<notin> set (map fst members)" using new sub unfolding keys by auto
    then have step: "cluster_step w th (anchors, members) c =
        (anchors @ [c], members @ [(s_signal_id c, [c])])"
      using True by (simp add: cluster_step_def update_new_key)
    have "list_all2 (?P (seen @ [c])) (anchors @ [c]) (members @ [(s_signal_id c, [c])])"
      using ms weaken by (intro list_all2_appendI) (auto elim!: list_all2_mono simp: led_by_def weaken [unfolded led_by_def])
    then show ?thesis
      using keys mset sep sub True
      by (auto simp: cluster_inv_def step sorted_wrt_append filter_empty_conv)
  next
    case False
    define b where "b = best_anchor c ?el"
    have b: "b \<in> set anchors" "signals_may_correlate w th b c"
      using arg_min_list_in [OF False, of "anchor_key c"] by (auto simp: b_def best_anchor_def)
    have step: "cluster_step w th (anchors, members) c = (anchors, add_to (s_signal_id b) c members)"
      using False by (simp add: cluster_step_def b_def)
    have kb: "s_signal_id b \<in> set (map fst members)" using b(1) unfolding keys by simp
    have "list_all2 (\<lambda>a kv. ?P seen a kv \<and> fst kv = s_signal_id a) anchors members"
      by (rule list_all2_keyed [OF ms keys])
    then have "list_all2 (?P (seen @ [c])) anchors (add_to (s_signal_id b) c members)"
    proof (rule add_to_pointwise [OF _ _ _ kb])
      fix a vs assume "?P seen a (s_signal_id b, vs) \<and> fst (s_signal_id b, vs) = s_signal_id a"
        and "a \<in> set anchors"
      then have a: "?P seen a (s_signal_id b, vs)" and "s_signal_id a = s_signal_id b" by auto
      then have "a = b" using dist b(1) sub \<open>a \<in> set anchors\<close>
        unfolding identified_def by (metis inj_onD subsetD)
      with a b(2) show "?P (seen @ [c]) a (s_signal_id b, vs @ [c])"
        by (auto simp: led_by_def intro: list_emb_append_mono)
    qed (use weaken in auto)
    then show ?thesis
      using keys mset sep sub kb by (simp add: cluster_inv_def step keys_add_to mset_add_to subset_iff)
  qed
qed

lemma cluster_inv_foldl:
  assumes "identified (set ys)" and "distinct (map s_signal_id ys)"
  shows "cluster_inv w th ys (foldl (cluster_step w th) ([], []) ys)"
  using assms
proof (induction ys rule: rev_induct)
  case Nil
  then show ?case by (simp add: cluster_inv_def)
next
  case (snoc y ys)
  obtain anchors members where st: "foldl (cluster_step w th) ([], []) ys = (anchors, members)"
    by (cases "foldl (cluster_step w th) ([], []) ys")
  have "identified (set ys)" using snoc.prems(1) by (simp add: identified_def inj_on_def)
  with snoc show ?case by (auto simp: st intro: cluster_inv_step)
qed

lemma map_lookup_keys:
  "map fst d = map f as \<Longrightarrow> distinct (map f as) \<Longrightarrow>
   map (\<lambda>a. case map_of d (f a) of Some v \<Rightarrow> v | None \<Rightarrow> e) as = map snd d"
proof (induction as arbitrary: d)
  case (Cons a as)
  then obtain v d' where d: "d = (f a, v) # d'" by (cases d) auto
  have "map (\<lambda>x. case map_of d (f x) of Some v \<Rightarrow> v | None \<Rightarrow> e) as =
      map (\<lambda>x. case map_of d' (f x) of Some v \<Rightarrow> v | None \<Rightarrow> e) as"
    using Cons.prems(2) by (intro map_cong refl) (auto simp: d image_iff)
  with Cons d show ?case by simp
qed simp

text \<open>What the clustering returns.\<close>

definition clusters_of :: "int \<Rightarrow> rat \<Rightarrow> DetectionSignal list \<Rightarrow> DetectionSignal list list \<Rightarrow> bool" where
  "clusters_of w th signals cs =
     (mset (concat cs) = mset signals \<and>
      (\<forall>c \<in> set cs. c \<noteq> [] \<and> sorted (map signal_precedence_key c) \<and>
         (\<forall>m \<in> set (tl c). signals_may_correlate w th (hd c) m)) \<and>
      sorted_wrt (\<lambda>a b. \<not> signals_may_correlate w th a b) (map hd cs))"

lemma sorted_subseq: "subseq xs ys \<Longrightarrow> sorted (map f ys) \<Longrightarrow> sorted (map f xs)"
  by (induction rule: list_emb.induct) (auto dest: subseq_set)

lemma distinct_heads:
  "distinct (concat xss) \<Longrightarrow> \<forall>c \<in> set xss. c \<noteq> [] \<Longrightarrow> distinct (map hd xss)"
proof (induction xss)
  case (Cons c xss)
  have "hd c \<notin> hd ` set xss"
  proof
    assume "hd c \<in> hd ` set xss"
    then obtain d where "d \<in> set xss" and "hd c = hd d" by blast
    moreover have "hd c \<in> set c" and "hd d \<in> set d" using Cons.prems(2) \<open>d \<in> set xss\<close> by auto
    ultimately show False using Cons.prems(1) by auto
  qed
  with Cons show ?case by simp
qed simp

lemma cluster_signals_clusters:
  assumes "distinct (map s_signal_id signals)"
  shows "clusters_of w th signals (cluster_signals signals w th)"
proof -
  let ?o = "sort_key signal_precedence_key signals"
  have dist: "distinct (map s_signal_id ?o)" and id: "identified (set ?o)"
    using assms by (simp_all add: distinct_map identified_def)
  obtain anchors members where
    st: "foldl (cluster_step w th) ([], []) ?o = (anchors, members)"
    by (cases "foldl (cluster_step w th) ([], []) ?o")
  have inv: "cluster_inv w th ?o (anchors, members)"
    using cluster_inv_foldl [OF id dist, of w th] by (simp only: st)
  then have keys: "map fst members = map s_signal_id anchors"
    and ms: "list_all2 (\<lambda>a kms. led_by w th ?o a (snd kms)) anchors members"
    and mset: "mset (concat (map snd members)) = mset ?o"
    and sep: "sorted_wrt (\<lambda>a b. \<not> signals_may_correlate w th a b) anchors"
    and sub: "set anchors \<subseteq> set ?o"
    by (auto simp: cluster_inv_def case_prod_beta)
  have "distinct anchors"
  proof -
    have "mset (map (hd \<circ> snd) members) = mset anchors"
      using ms by (induction rule: list_all2_induct) (auto simp: led_by_def)
    moreover have "map (hd \<circ> snd) members = anchors"
      using ms by (induction rule: list_all2_induct) (auto simp: led_by_def)
    moreover have "distinct (concat (map snd members))"
      using mset dist by (metis distinct_map mset_eq_imp_distinct_iff)
    moreover have "\<forall>c \<in> set (map snd members). c \<noteq> []"
      using ms by (induction rule: list_all2_induct) (auto simp: led_by_def)
    ultimately show ?thesis using distinct_heads by (metis list.map_comp)
  qed
  then have "distinct (map s_signal_id anchors)"
    using id sub by (auto simp: distinct_map identified_def intro: inj_on_subset)
  then have cs: "cluster_signals signals w th = map snd members"
    using map_lookup_keys [OF keys] by (simp add: cluster_signals_def st)
  have heads: "map hd (map snd members) = anchors"
    using ms by (induction rule: list_all2_induct) (auto simp: led_by_def)
  have "\<forall>c \<in> set (map snd members). c \<noteq> [] \<and> subseq c ?o \<and>
      (\<forall>m \<in> set (tl c). signals_may_correlate w th (hd c) m)"
    using ms by (induction rule: list_all2_induct) (auto simp: led_by_def)
  then show ?thesis
    using mset sep unfolding clusters_of_def cs heads
    by (auto intro: sorted_subseq)
qed

lemma cluster_signals_perm:
  assumes "mset signals = mset signals'" and "distinct (map s_signal_id signals)"
  shows "cluster_signals signals w th = cluster_signals signals' w th"
proof -
  have "identified (set signals)" using assms(2) by (simp add: distinct_map identified_def)
  then have "sort_key signal_precedence_key signals = sort_key signal_precedence_key signals'"
    by (rule precedence.sort_key_mset_eq [OF assms(1)])
  then show ?thesis by (simp add: cluster_signals_def)
qed

lemma clusters_nonempty: "clusters_of w th signals cs \<Longrightarrow> c \<in> set cs \<Longrightarrow> c \<noteq> []"
  by (simp add: clusters_of_def)

lemma clusters_members: "clusters_of w th signals cs \<Longrightarrow> set (concat cs) = set signals"
  unfolding clusters_of_def by (metis mset_eq_setD)

lemma cluster_member: "clusters_of w th signals cs \<Longrightarrow> c \<in> set cs \<Longrightarrow> set c \<subseteq> set signals"
  using clusters_members by fastforce

text \<open>Without distinct identities signals can be overwritten, but every cluster is made of input
  signals.\<close>

lemma cluster_fold_members:
  assumes "foldl (cluster_step w th) (anchors, members) xs = (anchors', members')"
    and "set xs \<subseteq> S"
    and "\<forall>a \<in> set anchors. map_of members (s_signal_id a) \<noteq> None"
    and "\<forall>k v. map_of members k = Some v \<longrightarrow> v \<noteq> [] \<and> set v \<subseteq> S"
  shows "(\<forall>a \<in> set anchors'. map_of members' (s_signal_id a) \<noteq> None)
    \<and> (\<forall>k v. map_of members' k = Some v \<longrightarrow> v \<noteq> [] \<and> set v \<subseteq> S)"
  using assms
proof (induction xs arbitrary: anchors members)
  case Nil
  then show ?case by simp
next
  case (Cons x xs)
  obtain as ms where step: "cluster_step w th (anchors, members) x = (as, ms)" by fastforce
  let ?el = "filter (\<lambda>anchor. signals_may_correlate w th anchor x) anchors"
  have x: "x \<in> S" using Cons.prems(2) by simp
  have "(\<forall>a \<in> set as. map_of ms (s_signal_id a) \<noteq> None)
      \<and> (\<forall>k v. map_of ms k = Some v \<longrightarrow> v \<noteq> [] \<and> set v \<subseteq> S)"
  proof (cases "?el = []")
    case True
    then have "as = anchors @ [x]" "ms = AList.update (s_signal_id x) [x] members"
      using step by (simp_all add: cluster_step_def)
    then show ?thesis using Cons.prems(3,4) x by (auto simp: update_conv')
  next
    case False
    define k where "k = s_signal_id (best_anchor x ?el)"
    have "as = anchors" "ms = add_to k x members"
      using step False by (auto simp: cluster_step_def k_def Let_def)
    then show ?thesis using Cons.prems(3,4) x by (auto simp: map_of_add_to split: option.splits if_splits)
  qed
  then show ?case using Cons.IH [of as ms] Cons.prems(1,2) step by simp
qed

lemma cluster_signals_members:
  assumes "c \<in> set (cluster_signals signals w th)"
  shows "c \<noteq> [] \<and> set c \<subseteq> set signals"
proof -
  obtain anchors members where
    f: "foldl (cluster_step w th) ([], []) (sort_key signal_precedence_key signals) = (anchors, members)" by fastforce
  obtain a where a: "a \<in> set anchors" and c: "c = (case map_of members (s_signal_id a) of Some ms \<Rightarrow> ms | None \<Rightarrow> [])"
    using assms f by (auto simp: cluster_signals_def)
  have "set (sort_key signal_precedence_key signals) \<subseteq> set signals" by simp
  from cluster_fold_members [OF f this] a c show ?thesis by (auto split: option.splits)
qed


definition second_signal :: DetectionSignal where
  "second_signal = scored_signal\<lparr>s_signal_id := ''SIG-2'', s_event_ids := [''E2'']\<rparr>"


end
