(* ===== verification/ContextMatching.thy ===== *)
theory ContextMatching
  imports Scoring
begin

text \<open>
  \<open>agent/detection/context_matching.py\<close>: when a context event may be attached to an
  incident event. Relatedness is shown to be symmetric and to need two endpoint matches.
\<close>

definition endpoint_ip_sets :: "canonical_event \<Rightarrow> string set \<times> string set" where
  "endpoint_ip_sets event =
     (set (somes truthy_value [e_src_ip event, e_translated_src_ip event]),
      set (somes truthy_value [e_dst_ip event, e_translated_dst_ip event]))"

definition endpoint_port_sets :: "canonical_event \<Rightarrow> int set \<times> int set" where
  "endpoint_port_sets event =
     (set (somes id [e_src_port event, e_translated_src_port event]),
      set (somes id [e_dst_port event, e_translated_dst_port event]))"

definition protocols_compatible :: "canonical_event \<Rightarrow> canonical_event \<Rightarrow> bool" where
  "protocols_compatible reference candidate =
     (case (truthy_value (e_protocol reference), truthy_value (e_protocol candidate)) of
        (Some p, Some q) \<Rightarrow> py_upper p = py_upper q
      | _ \<Rightarrow> True)"

definition is_likely_service_port :: "int \<Rightarrow> bool" where
  "is_likely_service_port port = (port < 1024 \<or> classify_service (Some port) \<noteq> None)"

definition services_of :: "int set \<Rightarrow> string set" where
  "services_of ports = {the (classify_service (Some port)) | port.
     port \<in> ports \<and> classify_service (Some port) \<noteq> None}"

lemma services_of_code [code]:
  "services_of ports =
     (\<lambda>p. the (classify_service (Some p))) ` Set.filter (\<lambda>p. classify_service (Some p) \<noteq> None) ports"
  by (auto simp: services_of_def)

text \<open>\<open>bool(a & b)\<close> on sets.\<close>

definition meets :: "'a set \<Rightarrow> 'a set \<Rightarrow> bool" where
  "meets A B = (A \<inter> B \<noteq> {})"

definition events_are_bidirectionally_related :: "canonical_event \<Rightarrow> canonical_event \<Rightarrow> bool" where
  "events_are_bidirectionally_related reference candidate =
     (let (ref_src_ips, ref_dst_ips) = endpoint_ip_sets reference;
          (cand_src_ips, cand_dst_ips) = endpoint_ip_sets candidate;
          forward_ip = (meets ref_src_ips cand_src_ips \<and> meets ref_dst_ips cand_dst_ips);
          reverse_ip = (meets ref_src_ips cand_dst_ips \<and> meets ref_dst_ips cand_src_ips);
          (ref_src_ports, ref_dst_ports) = endpoint_port_sets reference;
          (cand_src_ports, cand_dst_ports) = endpoint_port_sets candidate;
          forward_ports = (meets ref_src_ports cand_src_ports \<and> meets ref_dst_ports cand_dst_ports);
          reverse_ports = (meets ref_src_ports cand_dst_ports \<and> meets ref_dst_ports cand_src_ports);
          ref_service_src_ports = Set.filter is_likely_service_port ref_src_ports;
          ref_service_dst_ports = Set.filter is_likely_service_port ref_dst_ports;
          reverse_service_port_match = (reverse_ip \<and>
            (meets ref_service_dst_ports cand_src_ports \<or> meets ref_service_src_ports cand_dst_ports));
          all_ref_ports = ref_src_ports \<union> ref_dst_ports;
          all_cand_ports = cand_src_ports \<union> cand_dst_ports;
          compatible_service = meets (services_of all_ref_ports) (services_of all_cand_ports)
      in if \<not> protocols_compatible reference candidate then False
         else if \<not> (forward_ip \<or> reverse_ip) then False
         else if all_ref_ports = {} \<and> all_cand_ports = {} then True
         else forward_ports \<or> reverse_ports \<or> compatible_service \<or> reverse_service_port_match)"

definition find_related_context_events ::
  "canonical_event list \<Rightarrow> canonical_event list \<Rightarrow> canonical_event list" where
  "find_related_context_events reference_events context_events =
     filter (\<lambda>candidate. \<exists>reference \<in> set reference_events.
       events_are_bidirectionally_related reference candidate) context_events"

lemma protocols_compatible_sym: "protocols_compatible a b = protocols_compatible b a"
  by (auto simp: protocols_compatible_def split: option.splits)

lemma meets_sym: "meets A B = meets B A"
  by (simp add: meets_def Int_commute)

lemma meets_filter: "meets (Set.filter p A) B = meets (Set.filter p B) A"
  by (auto simp: meets_def)

definition same_flow :: "canonical_event \<Rightarrow> canonical_event \<Rightarrow> bool" where
  "same_flow a b =
     (meets (fst (endpoint_ip_sets a)) (fst (endpoint_ip_sets b)) \<and>
      meets (snd (endpoint_ip_sets a)) (snd (endpoint_ip_sets b)))"

definition reverse_flow :: "canonical_event \<Rightarrow> canonical_event \<Rightarrow> bool" where
  "reverse_flow a b =
     (meets (fst (endpoint_ip_sets a)) (snd (endpoint_ip_sets b)) \<and>
      meets (snd (endpoint_ip_sets a)) (fst (endpoint_ip_sets b)))"

lemma flow_sym: "same_flow a b = same_flow b a" "reverse_flow a b = reverse_flow b a"
  using meets_sym by (auto simp: same_flow_def reverse_flow_def)

lemma related_iff:
  "events_are_bidirectionally_related a b \<longleftrightarrow>
     protocols_compatible a b \<and> (same_flow a b \<or> reverse_flow a b) \<and>
     (let (as, ad) = endpoint_port_sets a; (bs, bd) = endpoint_port_sets b in
       (as \<union> ad = {} \<and> bs \<union> bd = {}) \<or> (meets as bs \<and> meets ad bd) \<or> (meets as bd \<and> meets ad bs) \<or>
       meets (services_of (as \<union> ad)) (services_of (bs \<union> bd)) \<or>
       (reverse_flow a b \<and> (meets (Set.filter is_likely_service_port ad) bs \<or>
          meets (Set.filter is_likely_service_port as) bd)))"
  unfolding events_are_bidirectionally_related_def same_flow_def reverse_flow_def Let_def case_prod_beta
  by argo

lemma related_sym: "events_are_bidirectionally_related a b = events_are_bidirectionally_related b a"
proof -
  obtain aps apd bps bpd where
    ports: "endpoint_port_sets a = (aps, apd)" "endpoint_port_sets b = (bps, bpd)"
    by (metis surj_pair)
  note swap = meets_sym [of bps aps] meets_sym [of bpd apd] meets_sym [of bps apd]
    meets_sym [of bpd aps] meets_sym [of "services_of (bps \<union> bpd)"]
    meets_filter [of _ bpd aps] meets_filter [of _ bps apd]
    flow_sym [of b a] protocols_compatible_sym [of b a]
  show ?thesis unfolding related_iff ports Let_def prod.case swap by blast
qed

text \<open>Relatedness of two events does not depend on which one is the reference, and it always
  takes two endpoint matches (forward or reversed) and compatible protocols: one shared address
  never suffices.\<close>

theorem related_symmetric_strict:
  "events_are_bidirectionally_related a b = events_are_bidirectionally_related b a
   \<and> \<not> (events_are_bidirectionally_related a b \<and> \<not> protocols_compatible a b)
   \<and> \<not> (events_are_bidirectionally_related a b \<and> \<not> same_flow a b \<and> \<not> reverse_flow a b)"
proof (intro conjI)
  show "events_are_bidirectionally_related a b = events_are_bidirectionally_related b a"
    by (rule related_sym)
qed (unfold related_iff, blast+)

end
