(* ===== verification/IncidentBuild.thy ===== *)
theory IncidentBuild
  imports Clustering ContextMatching
begin

text \<open>
  From a cluster to an incident (\<open>agent/detection/incident_correlation.py\<close>):
  \<open>_select_context_event_ids\<close>, \<open>_collect_evidence\<close>, the title and ownership
  helpers and \<open>build_correlated_incident\<close>. The event lookup is the association list the
  engine's dictionary is; the metrics keys \<open>source_ips\<close> and \<open>source_ip\<close> hold strings
  in every rule that records them.
\<close>

definition MAX_INCIDENT_EVIDENCE :: nat where
  "MAX_INCIDENT_EVIDENCE = 10"

definition ASSET_PRIMARY_FAMILIES :: "string list" where
  "ASSET_PRIMARY_FAMILIES = [''firewall_exposure'', ''firewall_policy'']"

type_synonym event_lookup = "(string \<times> canonical_event) list"

section \<open>Context events\<close>

text \<open>The time window and relatedness conditions of the loop body, in source order.\<close>

definition attachable :: "int \<Rightarrow> int \<Rightarrow> canonical_event list \<Rightarrow> canonical_event \<Rightarrow> bool" where
  "attachable start_window end_window incident_events ce =
     (case event_time ce of
        None \<Rightarrow> False
      | Some t \<Rightarrow> start_window \<le> micros t \<and> micros t \<le> end_window \<and>
          (\<exists>reference \<in> set incident_events. events_are_bidirectionally_related reference ce))"

text \<open>The loop of \<open>_select_context_event_ids\<close>; \<open>acc\<close> is \<open>context_ids\<close>, whose
  elements are exactly \<open>seen_context_ids\<close>.\<close>

fun context_loop ::
  "nat \<Rightarrow> string set \<Rightarrow> (canonical_event \<Rightarrow> bool) \<Rightarrow> string list \<Rightarrow> canonical_event list
     \<Rightarrow> string list" where
  "context_loop limit incident_ids ok acc [] = acc"
| "context_loop limit incident_ids ok acc (ce # ces) =
     (if length acc \<ge> limit then acc
      else if e_event_id ce \<in> incident_ids \<or> e_event_id ce \<in> set acc
      then context_loop limit incident_ids ok acc ces
      else if \<not> ok ce then context_loop limit incident_ids ok acc ces
      else context_loop limit incident_ids ok (acc @ [e_event_id ce]) ces)"

definition looked_up :: "event_lookup \<Rightarrow> string list \<Rightarrow> canonical_event list" where
  "looked_up event_lookup ids = somes (map_of event_lookup) ids"

definition select_context_event_ids ::
  "string list \<Rightarrow> event_lookup \<Rightarrow> canonical_event list \<Rightarrow> datetime \<Rightarrow> datetime \<Rightarrow> DetectionSettings
     \<Rightarrow> string list" where
  "select_context_event_ids incident_event_ids event_lookup sorted_context_events first_seen
     last_seen settings =
     (let incident_events = looked_up event_lookup incident_event_ids
      in if sorted_context_events = [] \<or> incident_events = [] then []
         else context_loop (MAX_CONTEXT_EVENTS_PER_INCIDENT settings) (set incident_event_ids)
                (attachable (micros first_seen - seconds (INCIDENT_MERGE_WINDOW_SECONDS settings))
                   (micros last_seen + seconds (INCIDENT_MERGE_WINDOW_SECONDS settings))
                   incident_events) [] sorted_context_events)"

lemma context_loop_facts:
  "length acc \<le> limit \<Longrightarrow> distinct acc \<Longrightarrow> set acc \<inter> ids = {} \<Longrightarrow>
   length (context_loop limit ids ok acc ces) \<le> limit
   \<and> distinct (context_loop limit ids ok acc ces)
   \<and> set (context_loop limit ids ok acc ces) \<inter> ids = {}"
  by (induction limit ids ok acc ces rule: context_loop.induct) auto

lemma context_loop_related:
  "set (context_loop limit ids ok acc ces) \<subseteq> set acc \<union> e_event_id ` {ce \<in> set ces. ok ce}"
  by (induction limit ids ok acc ces rule: context_loop.induct) (auto split: if_splits)

lemma select_context_facts:
  "length (select_context_event_ids ids lk ces t0 t1 st) \<le> MAX_CONTEXT_EVENTS_PER_INCIDENT st"
  "set (select_context_event_ids ids lk ces t0 t1 st) \<inter> set ids = {}"
  using context_loop_facts [of "[]" "MAX_CONTEXT_EVENTS_PER_INCIDENT st" "set ids"]
  by (simp_all add: select_context_event_ids_def Let_def)

section \<open>Evidence\<close>

text \<open>The nested loops of \<open>_collect_evidence\<close> stop for good once ten items are collected, so
  they are one pass over the items in anchor-first order.\<close>

definition collect_item ::
  "string set \<Rightarrow> DetectionEvidence list \<Rightarrow> DetectionEvidence \<Rightarrow> DetectionEvidence list" where
  "collect_item incident_event_ids evidence item =
     (if length evidence \<ge> MAX_INCIDENT_EVIDENCE then evidence
      else if ev_event_id item \<in> ev_event_id ` set evidence then evidence
      else if ev_event_id item \<notin> incident_event_ids then evidence
      else evidence @ [item])"

definition collect_evidence ::
  "DetectionSignal list \<Rightarrow> string set \<Rightarrow> DetectionEvidence list" where
  "collect_evidence cluster incident_event_ids =
     foldl (collect_item incident_event_ids) []
       (concat (map (\<lambda>signal. sort_key ev_event_id (s_evidence signal)) cluster))"

lemma collect_items_facts:
  "length acc \<le> 10 \<Longrightarrow> distinct (map ev_event_id acc) \<Longrightarrow> ev_event_id ` set acc \<subseteq> ids \<Longrightarrow>
   length (foldl (collect_item ids) acc items) \<le> 10
   \<and> distinct (map ev_event_id (foldl (collect_item ids) acc items))
   \<and> ev_event_id ` set (foldl (collect_item ids) acc items) \<subseteq> ids
   \<and> set (foldl (collect_item ids) acc items) \<subseteq> set acc \<union> set items"
proof (induction items arbitrary: acc)
  case (Cons item items)
  let ?acc = "collect_item ids acc item"
  have "length ?acc \<le> 10 \<and> distinct (map ev_event_id ?acc) \<and> ev_event_id ` set ?acc \<subseteq> ids
      \<and> set ?acc \<subseteq> insert item (set acc)"
    using Cons.prems by (auto simp: collect_item_def MAX_INCIDENT_EVIDENCE_def)
  with Cons.IH [of ?acc] show ?case by auto
qed simp

lemma collect_evidence_facts:
  "length (collect_evidence cluster ids) \<le> 10"
  "distinct (map ev_event_id (collect_evidence cluster ids))"
  "ev_event_id ` set (collect_evidence cluster ids) \<subseteq> ids"
  using collect_items_facts [of "[]" ids] by (simp_all add: collect_evidence_def)

section \<open>Title and ownership\<close>

definition metric_string :: "metrics \<Rightarrow> string \<Rightarrow> string" where
  "metric_string m k = (case map_of m k of Some (PStr s) \<Rightarrow> s | _ \<Rightarrow> [])"

definition incident_title_source :: "DetectionSignal \<Rightarrow> event_lookup \<Rightarrow> string" where
  "incident_title_source signal event_lookup =
     (let source_ips = sort_uniq (somes (\<lambda>event. truthy_value (e_src_ip event))
            (looked_up event_lookup (s_event_ids signal)));
          source_metrics = (if metric_string (s_metrics signal) ''source_ips'' \<noteq> []
            then metric_string (s_metrics signal) ''source_ips''
            else metric_string (s_metrics signal) ''source_ip'');
          metric_sources = sort_uniq (filter (\<lambda>v. v \<noteq> [])
            (map py_strip (split_at (\<lambda>c. c = CHR '','') source_metrics)))
      in case source_ips of ip # _ \<Rightarrow> ip
         | [] \<Rightarrow> (case metric_sources of ip # _ \<Rightarrow> ip | [] \<Rightarrow> s_primary_entity signal))"

definition incident_primary_entity :: "DetectionSignal \<Rightarrow> event_lookup \<Rightarrow> string" where
  "incident_primary_entity signal event_lookup =
     (if s_signal_family signal \<notin> set ASSET_PRIMARY_FAMILIES \<or> event_lookup = []
      then s_primary_entity signal
      else (case sort_uniq (somes (\<lambda>event. truthy_value
               (py_or (e_translated_dst_ip event) (e_dst_ip event)))
               (looked_up event_lookup (s_event_ids signal))) of
          destination # _ \<Rightarrow> destination
        | [] \<Rightarrow> s_primary_entity signal))"

section \<open>One incident per cluster\<close>

text \<open>\<open>int(t.timestamp())\<close> truncates towards zero.\<close>

definition epoch_seconds :: "datetime \<Rightarrow> int" where
  "epoch_seconds t = (if micros t < 0 then - ((- micros t) div 1000000) else micros t div 1000000)"

definition anchor_merge_key :: "DetectionSignal \<Rightarrow> DetectionSettings \<Rightarrow> string" where
  "anchor_merge_key anchor settings =
     ''v2:'' @ s_rule_id anchor @ '':'' @ s_signal_id anchor @ '':'' @
     str_of_int (epoch_seconds (s_first_seen anchor) div INCIDENT_MERGE_WINDOW_SECONDS settings)"

definition build_correlated_incident ::
  "DetectionSignal list \<Rightarrow> event_lookup \<Rightarrow> canonical_event list \<Rightarrow> DetectionSettings
     \<Rightarrow> string + IncidentBundle" where
  "build_correlated_incident cluster event_lookup sorted_context_events settings =
     (if cluster = [] then Inl ''IndexError''
      else if INCIDENT_MERGE_WINDOW_SECONDS settings = 0 then Inl ''ZeroDivisionError''
      else (let anchor = hd cluster;
          signal_ids = sort_uniq (map s_signal_id cluster);
          absorbed_signal_ids = sort_uniq
            (filter (\<lambda>sid. sid \<noteq> s_signal_id anchor) (map s_signal_id cluster));
          event_ids = sort_uniq (concat (map s_event_ids cluster));
          target_entities = sort_uniq (concat (map s_target_entities cluster));
          mitre_techniques = sort_uniq (concat (map s_mitre_techniques cluster));
          first_seen = Min (set (map s_first_seen cluster));
          last_seen = Max (set (map s_last_seen cluster));
          evidence = collect_evidence cluster (set event_ids);
          facts = derive_incident_severity_facts (looked_up event_lookup event_ids)
            (s_signal_family anchor);
          primary_entity = incident_primary_entity anchor event_lookup;
          merge_key = anchor_merge_key anchor settings
        in validate_incident
          \<lparr>i_incident_id = generate_incident_id (s_signal_family anchor) (s_signal_type anchor)
             primary_entity merge_key (s_first_seen anchor),
           i_incident_type = s_signal_type anchor, i_incident_family = s_signal_family anchor,
           i_title = ''Detected '' @ s_rule_name anchor @ '' from '' @
             incident_title_source anchor event_lookup,
           i_severity = calculate_incident_severity cluster (Some facts),
           i_confidence = calculate_incident_confidence cluster,
           i_first_seen = first_seen, i_last_seen = last_seen, i_primary_entity = primary_entity,
           i_target_entities = target_entities, i_signal_ids = signal_ids,
           i_event_ids = event_ids,
           i_context_event_ids = select_context_event_ids event_ids event_lookup
             sorted_context_events first_seen last_seen settings,
           i_evidence = evidence,
           i_metrics = [(''total_events'', PInt (int (length event_ids))),
             (''distinct_targets'', PInt (int (length target_entities))),
             (''correlated_signal_count'', PInt (int (length cluster))),
             (''absorbed_signal_count'', PInt (int (length absorbed_signal_ids))),
             (''primary_signal_id'', PStr (s_signal_id anchor)),
             (''correlation_version'', PStr ''2'')] @ as_metrics facts,
           i_mitre_techniques = mitre_techniques, i_merge_key = merge_key,
           i_review_reason = None, i_absorbed_signal_ids = absorbed_signal_ids\<rparr>))"

text \<open>What the anchor alone decides.\<close>

definition incident_identity ::
  "IncidentBundle \<Rightarrow> string \<times> string \<times> string \<times> string \<times> string \<times> string" where
  "incident_identity i = (i_incident_id i, i_incident_type i, i_incident_family i, i_title i,
     i_primary_entity i, i_merge_key i)"

lemma first_last_ordered:
  assumes "cluster \<noteq> []" and "\<forall>s \<in> set cluster. s_first_seen s \<le> s_last_seen s"
  shows "Min (s_first_seen ` set cluster) \<le> Max (s_last_seen ` set cluster)"
proof -
  have h: "hd cluster \<in> set cluster" using assms(1) by simp
  have "Min (s_first_seen ` set cluster) \<le> s_first_seen (hd cluster)" using h by simp
  also have "\<dots> \<le> s_last_seen (hd cluster)" using assms(2) h by blast
  also have "\<dots> \<le> Max (s_last_seen ` set cluster)" using h by simp
  finally show ?thesis .
qed

text \<open>A cluster of well-formed signals always builds, and the incident is well-formed.\<close>

lemma build_incident_ok:
  assumes "cluster \<noteq> []" and "\<forall>s \<in> set cluster. wf_signal s"
    and "INCIDENT_MERGE_WINDOW_SECONDS st > 0"
  obtains i where "build_correlated_incident cluster lk ces st = Inr i"
proof -
  have "Min (s_first_seen ` set cluster) \<le> Max (s_last_seen ` set cluster)"
    using assms by (intro first_last_ordered) (auto simp: wf_signal_def)
  moreover have "0 \<le> calculate_incident_confidence cluster
      \<and> calculate_incident_confidence cluster \<le> 1"
    using assms(2) by (intro incident_confidence_bounds) (auto simp: wf_signal_def)
  moreover have "set (sort_uniq (concat (map s_event_ids cluster))) \<inter>
      set (select_context_event_ids (sort_uniq (concat (map s_event_ids cluster))) lk ces
        (Min (s_first_seen ` set cluster)) (Max (s_last_seen ` set cluster)) st) = {}"
    using select_context_facts(2) by fast
  ultimately show ?thesis
    using that assms(1,3) incident_severity_in
    by (simp add: build_correlated_incident_def Let_def validate_incident_def)
qed

lemma build_incident_fields:
  assumes "build_correlated_incident cluster lk ces st = Inr i"
  shows "set (i_signal_ids i) = s_signal_id ` set cluster"
    and "set (i_event_ids i) = \<Union> (set (map (\<lambda>s. set (s_event_ids s)) cluster))"
    and "length (i_evidence i) \<le> 10"
    and "ev_event_id ` set (i_evidence i) \<subseteq> set (i_event_ids i)"
    and "length (i_context_event_ids i) \<le> MAX_CONTEXT_EVENTS_PER_INCIDENT st"
    and "wf_incident i"
    and "map_of (i_metrics i) ''primary_signal_id'' = Some (PStr (s_signal_id (hd cluster)))"
    and "i_incident_type i = s_signal_type (hd cluster)"
proof -
  obtain raw where raw: "validate_incident raw = Inr i"
    "set (i_signal_ids raw) = s_signal_id ` set cluster"
    "set (i_event_ids raw) = \<Union> (set (map (\<lambda>s. set (s_event_ids s)) cluster))"
    "i_evidence raw = collect_evidence cluster (set (i_event_ids raw))"
    "length (i_context_event_ids raw) \<le> MAX_CONTEXT_EVENTS_PER_INCIDENT st"
    "map_of (i_metrics raw) ''primary_signal_id'' = Some (PStr (s_signal_id (hd cluster)))"
    "i_incident_type raw = s_signal_type (hd cluster)"
    using assms select_context_facts(1)
    by (auto simp: build_correlated_incident_def Let_def split: if_splits)
  have keep: "set (i_signal_ids i) = set (i_signal_ids raw)" "i_evidence i = i_evidence raw"
    "set (i_event_ids i) = set (i_event_ids raw)" "i_metrics i = i_metrics raw"
    "i_incident_type i = i_incident_type raw"
    "i_context_event_ids i = sort_uniq (i_context_event_ids raw)"
    using raw(1) by (auto simp: validate_incident_def split: if_splits)
  show "set (i_signal_ids i) = s_signal_id ` set cluster"
    "set (i_event_ids i) = \<Union> (set (map (\<lambda>s. set (s_event_ids s)) cluster))"
    "map_of (i_metrics i) ''primary_signal_id'' = Some (PStr (s_signal_id (hd cluster)))"
    "i_incident_type i = s_signal_type (hd cluster)"
    using raw keep by simp_all
  show "length (i_evidence i) \<le> 10" "ev_event_id ` set (i_evidence i) \<subseteq> set (i_event_ids i)"
    unfolding keep raw(4) by (rule collect_evidence_facts)+
  have "length (sort_uniq (i_context_event_ids raw)) \<le> length (i_context_event_ids raw)"
    by (simp add: length_sort_uniq card_length)
  then show "length (i_context_event_ids i) \<le> MAX_CONTEXT_EVENTS_PER_INCIDENT st"
    using raw(5) keep(6) by simp
  show "wf_incident i" by (rule validate_incident_wf [OF raw(1)])
qed

text \<open>The identity of an incident (its identifier, type, family, title, owner and merge key)
  is decided by the anchor: adding or removing supporting signals never changes it.\<close>

theorem incident_identity_from_anchor:
  assumes "build_correlated_incident (anchor # supporters) lk ces st = Inr i"
    and "build_correlated_incident (anchor # supporters') lk ces' st = Inr i'"
  shows "incident_identity i = incident_identity i'"
  using assms
  by (auto simp: build_correlated_incident_def Let_def validate_incident_def incident_identity_def
      split: if_splits)

lemma scored_signal_wf: "wf_signal scored_signal"
  by (simp add: wf_signal_def scored_signal_def SEVERITIES_def canonical_def less_eq_datetime_def)

lemma second_signal_wf: "wf_signal second_signal"
  by (simp add: wf_signal_def second_signal_def scored_signal_def SEVERITIES_def canonical_def
      less_eq_datetime_def)

lemma default_window: "INCIDENT_MERGE_WINDOW_SECONDS default_settings > 0"
  by (simp add: default_settings_def)

theorem incident_identity_from_anchor_witness:
  "\<exists>i i'. build_correlated_incident [scored_signal] [] [] default_settings = Inr i
     \<and> build_correlated_incident [scored_signal, second_signal] [] [] default_settings = Inr i'
     \<and> incident_identity i = incident_identity i'"
proof -
  obtain i where i: "build_correlated_incident [scored_signal] [] [] default_settings = Inr i"
    by (rule build_incident_ok [of "[scored_signal]" default_settings "[]" "[]"])
       (simp_all add: scored_signal_wf default_window)
  obtain i' where
    i': "build_correlated_incident [scored_signal, second_signal] [] [] default_settings = Inr i'"
    by (rule build_incident_ok [of "[scored_signal, second_signal]" default_settings "[]" "[]"])
       (simp_all add: scored_signal_wf second_signal_wf default_window)
  from i i' incident_identity_from_anchor [OF i i'] show ?thesis by blast
qed

lemma build_incident_context:
  assumes "build_correlated_incident cluster lk ces st = Inr i"
  shows "\<forall>x \<in> set (i_context_event_ids i). \<exists>ce \<in> set ces. e_event_id ce = x \<and>
    (\<exists>r \<in> set (looked_up lk (i_event_ids i)). events_are_bidirectionally_related r ce)"
proof
  fix x assume "x \<in> set (i_context_event_ids i)"
  moreover have "i_event_ids i = sort_uniq (concat (map s_event_ids cluster))"
    and "set (i_context_event_ids i) = set (select_context_event_ids
        (sort_uniq (concat (map s_event_ids cluster))) lk ces
        (Min (set (map s_first_seen cluster))) (Max (set (map s_last_seen cluster))) st)"
    using assms by (auto simp: build_correlated_incident_def Let_def validate_incident_def
        split: if_splits)
  ultimately show "\<exists>ce \<in> set ces. e_event_id ce = x \<and>
      (\<exists>r \<in> set (looked_up lk (i_event_ids i)). events_are_bidirectionally_related r ce)"
    using context_loop_related [of _ _ _ "[]"]
    by (fastforce simp: select_context_event_ids_def Let_def attachable_def
        split: if_splits option.splits)
qed

text \<open>C22: a non-empty cluster of well-formed signals always becomes an incident. The incident is
  well-formed, quotes at most ten evidence items, all of its own events, and attaches at most the
  configured number of context events, each related to one of its events.\<close>

theorem built_incident_sound:
  assumes "cluster \<noteq> []" and "\<forall>s \<in> set cluster. wf_signal s"
    and "INCIDENT_MERGE_WINDOW_SECONDS st > 0"
  shows "\<exists>i. build_correlated_incident cluster lk ces st = Inr i
    \<and> wf_incident i
    \<and> length (i_evidence i) \<le> 10 \<and> ev_event_id ` set (i_evidence i) \<subseteq> set (i_event_ids i)
    \<and> length (i_context_event_ids i) \<le> MAX_CONTEXT_EVENTS_PER_INCIDENT st
    \<and> (\<forall>x \<in> set (i_context_event_ids i). \<exists>ce \<in> set ces. e_event_id ce = x \<and>
        (\<exists>r \<in> set (looked_up lk (i_event_ids i)). events_are_bidirectionally_related r ce))"
proof -
  obtain i where i: "build_correlated_incident cluster lk ces st = Inr i"
    by (rule build_incident_ok [OF assms])
  with build_incident_fields [OF i] build_incident_context [OF i] show ?thesis by blast
qed

theorem built_incident_sound_witness:
  "\<exists>i. build_correlated_incident [scored_signal, second_signal] [] [] default_settings = Inr i
    \<and> wf_incident i \<and> length (i_evidence i) \<le> 10"
  using built_incident_sound [of "[scored_signal, second_signal]" default_settings "[]" "[]"]
    scored_signal_wf second_signal_wf default_window by auto

end
