(* ===== verification/IncidentCorrelation.thy ===== *)
theory IncidentCorrelation
  imports IncidentBuild
begin

text \<open>
  The second half of \<open>agent/detection/incident_correlation.py\<close>: the merging of overlapping
  incidents and \<open>build_correlated_incidents\<close>, the entry point of correlation. The signal
  lookup is only subscripted, so it is a map here. Conservation of signals and events, the exact
  merge count and independence of the input order are proved for the whole pipeline.
\<close>

section \<open>Merging two incidents\<close>

definition windows_overlap_or_touch :: "IncidentBundle \<Rightarrow> IncidentBundle \<Rightarrow> bool" where
  "windows_overlap_or_touch left right =
     (i_first_seen left \<le> i_last_seen right \<and> i_first_seen right \<le> i_last_seen left)"

definition event_sets_overlap :: "IncidentBundle \<Rightarrow> IncidentBundle \<Rightarrow> bool" where
  "event_sets_overlap left right =
     (let left_ids = set (i_event_ids left); right_ids = set (i_event_ids right)
      in if left_ids = {} \<or> right_ids = {} then False
         else if left_ids \<subseteq> right_ids \<or> right_ids \<subseteq> left_ids then True
         else (of_nat (card (left_ids \<inter> right_ids)) :: rat) / of_nat (card (left_ids \<union> right_ids)) \<ge> 1/2)"

definition overlapping_incidents_are_mergeable :: "IncidentBundle \<Rightarrow> IncidentBundle \<Rightarrow> bool" where
  "overlapping_incidents_are_mergeable left right =
     (i_incident_type left = i_incident_type right \<and>
      i_primary_entity left = i_primary_entity right \<and>
      windows_overlap_or_touch left right \<and> event_sets_overlap left right)"

definition incident_keeper_key :: "IncidentBundle \<Rightarrow> int \<times> datetime \<times> string" where
  "incident_keeper_key i = (- int (length (i_event_ids i)), i_first_seen i, i_incident_id i)"

definition evidence_key :: "DetectionEvidence \<Rightarrow> string \<times> string \<times> string \<times> string" where
  "evidence_key ev = (ev_event_id ev, ev_source ev, ev_reason ev, ev_quote ev)"

text \<open>The evidence loop appends before it tests the bound and breaks once ten are held; the
  accumulator is shorter than ten at every test.\<close>

fun merge_evidence ::
  "string set \<Rightarrow> DetectionEvidence list \<Rightarrow> DetectionEvidence list \<Rightarrow> DetectionEvidence list" where
  "merge_evidence event_ids evidence [] = evidence"
| "merge_evidence event_ids evidence (item # items) =
     (if ev_event_id item \<notin> event_ids \<or> evidence_key item \<in> evidence_key ` set evidence
      then merge_evidence event_ids evidence items
      else if length (evidence @ [item]) \<ge> MAX_INCIDENT_EVIDENCE then evidence @ [item]
      else merge_evidence event_ids (evidence @ [item]) items)"

definition metric_int :: "metrics \<Rightarrow> string \<Rightarrow> int" where
  "metric_int m k = (case map_of m k of Some (PInt n) \<Rightarrow> n | _ \<Rightarrow> 0)"

definition update_metrics :: "metrics \<Rightarrow> metrics \<Rightarrow> metrics" where
  "update_metrics new m = foldl (\<lambda>d (k, v). AList.update k v d) m new"

definition lookup_signals :: "(string \<rightharpoonup> DetectionSignal) \<Rightarrow> string list \<Rightarrow> string + DetectionSignal list" where
  "lookup_signals signal_lookup ids =
     map_err (\<lambda>sid. case signal_lookup sid of None \<Rightarrow> Inl ''KeyError'' | Some s \<Rightarrow> Inr s) ids"

definition remaining_absorbed :: "IncidentBundle \<Rightarrow> IncidentBundle \<Rightarrow> string list" where
  "remaining_absorbed keeper absorbed =
     sort_uniq (filter (\<lambda>x. map_of (i_metrics keeper) ''primary_signal_id'' \<noteq> Some (PStr x))
       (i_absorbed_signal_ids keeper @ i_signal_ids absorbed @ i_absorbed_signal_ids absorbed))"

definition remaining_context :: "nat \<Rightarrow> string list \<Rightarrow> string list \<Rightarrow> string list" where
  "remaining_context limit event_ids context_ids =
     take limit (sort_uniq (filter (\<lambda>x. x \<notin> set event_ids) context_ids))"

text \<open>\<open>model_copy(update=...)\<close> does not validate, so well-formedness of the result is a
  lemma below.\<close>

definition merge_incident_pair ::
  "IncidentBundle \<Rightarrow> IncidentBundle \<Rightarrow> (string \<rightharpoonup> DetectionSignal) \<Rightarrow> DetectionSettings
     \<Rightarrow> event_lookup option \<Rightarrow> string + IncidentBundle" where
  "merge_incident_pair keeper absorbed signal_lookup settings event_lookup =
     (let event_ids = sort_uniq (i_event_ids keeper @ i_event_ids absorbed);
          signal_ids = sort_uniq (i_signal_ids keeper @ i_signal_ids absorbed);
          absorbed_signal_ids = remaining_absorbed keeper absorbed;
          evidence = merge_evidence (set event_ids) [] (i_evidence keeper @ i_evidence absorbed);
          target_entities = sort_uniq (i_target_entities keeper @ i_target_entities absorbed);
          severity_facts = map_option (\<lambda>lk. derive_incident_severity_facts
            (looked_up lk event_ids) (i_incident_family keeper)) event_lookup;
          metrics = update_metrics
            [(''total_events'', PInt (int (length event_ids))),
             (''distinct_targets'', PInt (int (length target_entities))),
             (''correlated_signal_count'', PInt (int (length signal_ids))),
             (''absorbed_signal_count'', PInt (int (length absorbed_signal_ids))),
             (''overlapping_incident_merge_count'', PInt
               (metric_int (i_metrics keeper) ''overlapping_incident_merge_count'' + 1 +
                metric_int (i_metrics absorbed) ''overlapping_incident_merge_count''))]
            (i_metrics keeper);
          metrics' = (case severity_facts of None \<Rightarrow> metrics
            | Some f \<Rightarrow> update_metrics (as_metrics f) metrics)
      in bind_err (lookup_signals signal_lookup signal_ids) (\<lambda>signals. Inr (keeper
        \<lparr>i_severity := calculate_incident_severity signals severity_facts,
         i_confidence := calculate_incident_confidence signals,
         i_first_seen := min (i_first_seen keeper) (i_first_seen absorbed),
         i_last_seen := max (i_last_seen keeper) (i_last_seen absorbed),
         i_target_entities := target_entities,
         i_signal_ids := signal_ids,
         i_event_ids := event_ids,
         i_context_event_ids := remaining_context (MAX_CONTEXT_EVENTS_PER_INCIDENT settings)
           event_ids (i_context_event_ids keeper @ i_context_event_ids absorbed),
         i_evidence := evidence,
         i_metrics := metrics',
         i_mitre_techniques := sort_uniq (i_mitre_techniques keeper @ i_mitre_techniques absorbed),
         i_absorbed_signal_ids := absorbed_signal_ids\<rparr>)))"

section \<open>Merging overlapping incidents\<close>

text \<open>\<open>merged[merged.index(keeper)] = x\<close>.\<close>

fun replace_first :: "'a \<Rightarrow> 'a \<Rightarrow> 'a list \<Rightarrow> 'a list" where
  "replace_first old new [] = []"
| "replace_first old new (x # xs) = (if x = old then new # xs else x # replace_first old new xs)"

fun merge_loop ::
  "(string \<rightharpoonup> DetectionSignal) \<Rightarrow> DetectionSettings \<Rightarrow> event_lookup option
   \<Rightarrow> IncidentBundle list \<Rightarrow> nat \<Rightarrow> IncidentBundle list \<Rightarrow> string + IncidentBundle list \<times> nat" where
  "merge_loop signal_lookup settings event_lookup merged absorbed_count [] =
     Inr (merged, absorbed_count)"
| "merge_loop signal_lookup settings event_lookup merged absorbed_count (candidate # rest) =
     (let eligible = filter (\<lambda>i. overlapping_incidents_are_mergeable i candidate) merged
      in if eligible = []
         then merge_loop signal_lookup settings event_lookup (merged @ [candidate]) absorbed_count rest
         else (let keeper = arg_min_list incident_keeper_key eligible
           in bind_err (merge_incident_pair keeper candidate signal_lookup settings event_lookup)
             (\<lambda>new. merge_loop signal_lookup settings event_lookup
                (replace_first keeper new merged) (absorbed_count + 1) rest)))"

definition final_order :: "IncidentBundle \<Rightarrow> datetime \<times> string" where
  "final_order i = (i_first_seen i, i_incident_id i)"

definition signal_lookup_of :: "DetectionSignal list \<Rightarrow> string \<rightharpoonup> DetectionSignal" where
  "signal_lookup_of signals = map_of (dict_of s_signal_id signals)"

definition merge_overlapping_incidents ::
  "IncidentBundle list \<Rightarrow> DetectionSignal list \<Rightarrow> DetectionSettings \<Rightarrow> event_lookup option
     \<Rightarrow> string + IncidentBundle list \<times> nat" where
  "merge_overlapping_incidents incidents signals settings event_lookup =
     bind_err (merge_loop (signal_lookup_of signals) settings event_lookup [] 0
         (sort_key incident_keeper_key incidents))
       (\<lambda>(merged, n). Inr (sort_key final_order merged, n))"

definition context_order :: "canonical_event \<Rightarrow> string \<times> string" where
  "context_order e = ((case event_time e of Some t \<Rightarrow> isoformat t | None \<Rightarrow> []), e_event_id e)"

definition build_correlated_incidents ::
  "DetectionSignal list \<Rightarrow> canonical_event list \<Rightarrow> canonical_event list \<Rightarrow> DetectionSettings
     \<Rightarrow> string + IncidentBundle list \<times> nat" where
  "build_correlated_incidents signals context_events candidate_events settings =
     (if signals = [] then Inr ([], 0)
      else (let event_lookup = dict_of e_event_id (filter (\<lambda>e. e_event_id e \<noteq> []) candidate_events);
          sorted_context_events =
            sort_key context_order (filter (\<lambda>e. e_event_id e \<noteq> []) context_events);
          clusters = cluster_signals signals (INCIDENT_MERGE_WINDOW_SECONDS settings)
            (INCIDENT_EVENT_OVERLAP_THRESHOLD settings);
          merge_count = sum_list (map (\<lambda>c. length c - 1) clusters)
        in bind_err (map_err (\<lambda>c. build_correlated_incident c event_lookup sorted_context_events settings)
               clusters)
             (\<lambda>incidents. bind_err
               (merge_overlapping_incidents incidents signals settings (Some event_lookup))
               (\<lambda>(merged, overlapping_merge_count).
                  Inr (merged, merge_count + overlapping_merge_count)))))"

section \<open>One merge step\<close>

lemma merge_evidence_facts:
  "length acc \<le> 9 \<or> items = [] \<and> length acc \<le> 10 \<Longrightarrow> ev_event_id ` set acc \<subseteq> ids \<Longrightarrow>
   distinct (map evidence_key acc) \<Longrightarrow>
   length (merge_evidence ids acc items) \<le> 10
   \<and> ev_event_id ` set (merge_evidence ids acc items) \<subseteq> ids
   \<and> distinct (map evidence_key (merge_evidence ids acc items))"
  by (induction ids acc items rule: merge_evidence.induct) (auto simp: MAX_INCIDENT_EVIDENCE_def)

lemma lookup_signals_ok:
  assumes "\<forall>sid \<in> set ids. \<exists>s. lk sid = Some s \<and> wf_signal s"
  obtains ss where "lookup_signals lk ids = Inr ss" and "\<forall>s \<in> set ss. wf_signal s"
    and "length ss = length ids"
proof -
  have "\<exists>ss. lookup_signals lk ids = Inr ss \<and> (\<forall>s \<in> set ss. wf_signal s) \<and> length ss = length ids"
    using assms unfolding lookup_signals_def by (induction ids) (auto simp: bind_err_Inr)
  then show ?thesis using that by blast
qed

lemma remaining_context_facts:
  "set (remaining_context n ids xs) \<inter> set ids = {}" "canonical (remaining_context n ids xs)"
  "length (remaining_context n ids xs) \<le> n"
  by (auto simp: remaining_context_def dest: in_set_takeD)

text \<open>What correlation keeps of every incident.\<close>

definition sound_incident :: "DetectionSettings \<Rightarrow> IncidentBundle \<Rightarrow> bool" where
  "sound_incident st i = (wf_incident i \<and> length (i_evidence i) \<le> 10 \<and>
     ev_event_id ` set (i_evidence i) \<subseteq> set (i_event_ids i) \<and>
     length (i_context_event_ids i) \<le> MAX_CONTEXT_EVENTS_PER_INCIDENT st)"

lemma merge_pair_ok:
  assumes "sound_incident st k" and "sound_incident st a"
    and "\<forall>sid \<in> set (i_signal_ids k) \<union> set (i_signal_ids a). \<exists>s. lk sid = Some s \<and> wf_signal s"
  shows "\<exists>i. merge_incident_pair k a lk st ev = Inr i \<and> sound_incident st i
    \<and> set (i_signal_ids i) = set (i_signal_ids k) \<union> set (i_signal_ids a)
    \<and> set (i_event_ids i) = set (i_event_ids k) \<union> set (i_event_ids a)"
proof -
  let ?ids = "sort_uniq (i_signal_ids k @ i_signal_ids a)"
  obtain ss where ss: "lookup_signals lk ?ids = Inr ss" "\<forall>s \<in> set ss. wf_signal s"
    by (rule lookup_signals_ok [of ?ids lk]) (use assms(3) in auto)
  have conf: "0 \<le> calculate_incident_confidence ss \<and> calculate_incident_confidence ss \<le> 1"
    using ss(2) by (intro incident_confidence_bounds) (auto simp: wf_signal_def)
  have wf: "wf_incident k" "wf_incident a" using assms by (simp_all add: sound_incident_def)
  have times: "min (i_first_seen k) (i_first_seen a) \<le> max (i_last_seen k) (i_last_seen a)"
    using wf by (auto simp: wf_incident_def intro: le_max_iff_disj [THEN iffD2] min_le_iff_disj [THEN iffD2])
  have ev: "length (merge_evidence ids [] items) \<le> 10"
    "ev_event_id ` set (merge_evidence ids [] items) \<subseteq> ids" for ids items
    using merge_evidence_facts [of "[]" items ids] by simp_all
  have ctx: "(set (i_event_ids k) \<union> set (i_event_ids a)) \<inter> set (remaining_context n
      (sort_uniq (i_event_ids k @ i_event_ids a)) xs) = {}" for n xs
    using remaining_context_facts(1) [of n "sort_uniq (i_event_ids k @ i_event_ids a)" xs] by auto
  show ?thesis
    unfolding merge_incident_pair_def Let_def ss(1) bind_err_simps
    using wf conf times ev ctx incident_severity_in remaining_context_facts(2,3)
    by (simp add: sound_incident_def wf_incident_def remaining_absorbed_def)
qed

text \<open>The loop: every step keeps soundness, moves signals and events between incidents without
  loss, and either adds an incident or counts an absorption.\<close>

definition all_ids :: "(IncidentBundle \<Rightarrow> string list) \<Rightarrow> IncidentBundle list \<Rightarrow> string set" where
  "all_ids f is = \<Union> (set (map (\<lambda>i. set (f i)) is))"

lemma all_ids_simps [simp]:
  "all_ids f [] = {}" "all_ids f (i # is) = set (f i) \<union> all_ids f is"
  "all_ids f (is @ js) = all_ids f is \<union> all_ids f js"
  by (auto simp: all_ids_def)

lemma all_ids_cong: "set is = set js \<Longrightarrow> all_ids f is = all_ids f js"
  by (simp add: all_ids_def)

lemma replace_first_facts:
  assumes "old \<in> set is"
  shows "length (replace_first old new is) = length is"
    and "set (replace_first old new is) \<subseteq> insert new (set is)"
    and "set (f new) = set (f old) \<union> A \<Longrightarrow>
      all_ids f (replace_first old new is) = all_ids f is \<union> A"
  using assms by (induction "is") (auto simp: all_ids_def)

lemma merge_loop_ok:
  assumes "\<forall>i \<in> set merged \<union> set rest. sound_incident st i"
    and "\<forall>sid \<in> all_ids i_signal_ids (merged @ rest). \<exists>s. lk sid = Some s \<and> wf_signal s"
  shows "\<exists>is m. merge_loop lk st ev merged n rest = Inr (is, m)
    \<and> (\<forall>i \<in> set is. sound_incident st i)
    \<and> all_ids i_signal_ids is = all_ids i_signal_ids (merged @ rest)
    \<and> all_ids i_event_ids is = all_ids i_event_ids (merged @ rest)
    \<and> length is + m = length merged + length rest + n"
  using assms
proof (induction rest arbitrary: merged n)
  case Nil
  then show ?case by simp
next
  case (Cons c rest)
  let ?el = "filter (\<lambda>i. overlapping_incidents_are_mergeable i c) merged"
  show ?case
  proof (cases "?el = []")
    case True
    have "\<exists>is m. merge_loop lk st ev (merged @ [c]) n rest = Inr (is, m)
      \<and> (\<forall>i \<in> set is. sound_incident st i)
      \<and> all_ids i_signal_ids is = all_ids i_signal_ids ((merged @ [c]) @ rest)
      \<and> all_ids i_event_ids is = all_ids i_event_ids ((merged @ [c]) @ rest)
      \<and> length is + m = length (merged @ [c]) + length rest + n"
      using Cons.prems by (intro Cons.IH) auto
    with True show ?thesis by (simp add: Let_def)
  next
    case False
    define k where "k = arg_min_list incident_keeper_key ?el"
    have k: "k \<in> set merged" using arg_min_list_in [OF False, of incident_keeper_key]
      by (simp add: k_def)
    have "set (i_signal_ids k) \<subseteq> all_ids i_signal_ids merged" using k by (auto simp: all_ids_def)
    then obtain i where i: "merge_incident_pair k c lk st ev = Inr i" "sound_incident st i"
      "set (i_signal_ids i) = set (i_signal_ids k) \<union> set (i_signal_ids c)"
      "set (i_event_ids i) = set (i_event_ids k) \<union> set (i_event_ids c)"
      using merge_pair_ok [of st k c lk ev] Cons.prems k by auto
    note rep = replace_first_facts(1,2) [OF k, of i]
    have sig: "all_ids i_signal_ids (replace_first k i merged) =
        all_ids i_signal_ids merged \<union> set (i_signal_ids c)"
      and evs: "all_ids i_event_ids (replace_first k i merged) =
        all_ids i_event_ids merged \<union> set (i_event_ids c)"
      using replace_first_facts(3) [OF k] i(3,4) by blast+
    have "\<exists>is m. merge_loop lk st ev (replace_first k i merged) (n + 1) rest = Inr (is, m)
      \<and> (\<forall>i \<in> set is. sound_incident st i)
      \<and> all_ids i_signal_ids is = all_ids i_signal_ids (replace_first k i merged @ rest)
      \<and> all_ids i_event_ids is = all_ids i_event_ids (replace_first k i merged @ rest)
      \<and> length is + m = length (replace_first k i merged) + length rest + (n + 1)"
      using Cons.prems rep(2) i(2) sig by (intro Cons.IH) auto
    with False i(1) sig evs rep(1) show ?thesis
      by (simp add: Let_def k_def Un_assoc)
  qed
qed

lemma signal_lookup_ok:
  "distinct (map s_signal_id ss) \<Longrightarrow> s \<in> set ss \<Longrightarrow> signal_lookup_of ss (s_signal_id s) = Some s"
  by (simp add: signal_lookup_of_def map_of_dict_of_inj distinct_map)

lemma signal_lookup_perm:
  assumes "distinct (map s_signal_id ss)" and "mset ss = mset ss'"
  shows "signal_lookup_of ss = signal_lookup_of ss'"
proof
  have d: "distinct (map s_signal_id ss')"
    using assms by (metis mset_eq_imp_distinct_iff mset_map)
  have eq: "set ss = set ss'" using assms(2) by (rule mset_eq_setD)
  fix sid
  show "signal_lookup_of ss sid = signal_lookup_of ss' sid"
  proof (cases "sid \<in> s_signal_id ` set ss")
    case True
    then show ?thesis using signal_lookup_ok [OF assms(1)] signal_lookup_ok [OF d] eq by auto
  next
    case False
    then have "signal_lookup_of ss sid = None" and "signal_lookup_of ss' sid = None"
      using eq by (simp_all add: signal_lookup_of_def)
    then show ?thesis by simp
  qed
qed

section \<open>The pipeline\<close>

lemma build_all_ok:
  assumes "\<forall>c \<in> set cs. c \<noteq> [] \<and> (\<forall>s \<in> set c. wf_signal s)"
    and "INCIDENT_MERGE_WINDOW_SECONDS st > 0"
  shows "\<exists>is. map_err (\<lambda>c. build_correlated_incident c lk ces st) cs = Inr is
    \<and> (\<forall>i \<in> set is. sound_incident st i) \<and> length is = length cs
    \<and> all_ids i_signal_ids is = s_signal_id ` set (concat cs)
    \<and> all_ids i_event_ids is = (\<Union>s \<in> set (concat cs). set (s_event_ids s))"
  using assms(1)
proof (induction cs)
  case (Cons c cs)
  then obtain "is" where IH: "map_err (\<lambda>c. build_correlated_incident c lk ces st) cs = Inr is"
    "\<forall>i \<in> set is. sound_incident st i" "length is = length cs"
    "all_ids i_signal_ids is = s_signal_id ` set (concat cs)"
    "all_ids i_event_ids is = (\<Union>s \<in> set (concat cs). set (s_event_ids s))" by auto
  obtain i where i: "build_correlated_incident c lk ces st = Inr i"
    using build_incident_ok [of c st lk ces] Cons.prems assms(2) by auto
  have "sound_incident st i"
    using build_incident_fields [OF i] by (simp add: sound_incident_def)
  with IH i build_incident_fields(1,2) [OF i] show ?case
    by (simp add: image_Un)
qed simp

lemma cluster_counts:
  "\<forall>c \<in> set cs. c \<noteq> [] \<Longrightarrow> length cs + sum_list (map (\<lambda>c. length c - 1) cs) = length (concat cs)"
  by (induction cs) (auto simp: neq_Nil_conv)

lemma build_correlated_ok:
  assumes "\<forall>s \<in> set signals. wf_signal s" and "distinct (map s_signal_id signals)"
    and "INCIDENT_MERGE_WINDOW_SECONDS st > 0"
  shows "\<exists>is m. build_correlated_incidents signals ctx evs st = Inr (is, m)
    \<and> (\<forall>i \<in> set is. sound_incident st i)
    \<and> all_ids i_signal_ids is = s_signal_id ` set signals
    \<and> all_ids i_event_ids is = (\<Union>s \<in> set signals. set (s_event_ids s))
    \<and> length is + m = length signals
    \<and> sorted (map final_order is)"
proof (cases "signals = []")
  case True
  then show ?thesis by (simp add: build_correlated_incidents_def)
next
  case False
  let ?lk = "dict_of e_event_id (filter (\<lambda>e. e_event_id e \<noteq> []) evs)"
  let ?ces = "sort_key context_order (filter (\<lambda>e. e_event_id e \<noteq> []) ctx)"
  let ?cs = "cluster_signals signals (INCIDENT_MERGE_WINDOW_SECONDS st)
            (INCIDENT_EVENT_OVERLAP_THRESHOLD st)"
  note cl = cluster_signals_clusters [OF assms(2), of "INCIDENT_MERGE_WINDOW_SECONDS st"
      "INCIDENT_EVENT_OVERLAP_THRESHOLD st"]
  have members: "set (concat ?cs) = set signals" by (rule clusters_members [OF cl])
  have each: "\<forall>c \<in> set ?cs. c \<noteq> [] \<and> (\<forall>s \<in> set c. wf_signal s)"
    using clusters_nonempty [OF cl] cluster_member [OF cl] assms(1) by blast
  obtain "is" where b: "map_err (\<lambda>c. build_correlated_incident c ?lk ?ces st) ?cs = Inr is"
    "\<forall>i \<in> set is. sound_incident st i" "length is = length ?cs"
    "all_ids i_signal_ids is = s_signal_id ` set (concat ?cs)"
    "all_ids i_event_ids is = (\<Union>s \<in> set (concat ?cs). set (s_event_ids s))"
    using build_all_ok [OF each assms(3)] by blast
  let ?sorted = "sort_key incident_keeper_key is"
  have same: "all_ids f ?sorted = all_ids f is" for f by (rule all_ids_cong) simp
  have "\<forall>i \<in> set [] \<union> set ?sorted. sound_incident st i" using b(2) by simp
  moreover have "\<forall>sid \<in> all_ids i_signal_ids ([] @ ?sorted).
      \<exists>s. signal_lookup_of signals sid = Some s \<and> wf_signal s"
    using b(4) members assms(1) signal_lookup_ok [OF assms(2)] by (auto simp: same)
  ultimately obtain js m where
    ml: "merge_loop (signal_lookup_of signals) st (Some ?lk) [] 0 ?sorted = Inr (js, m)"
    "\<forall>i \<in> set js. sound_incident st i" "all_ids i_signal_ids js = all_ids i_signal_ids is"
    "all_ids i_event_ids js = all_ids i_event_ids is" "length js + m = length is"
    using merge_loop_ok [of "[]" ?sorted st "signal_lookup_of signals" "Some ?lk" 0]
    by (auto simp: same)
  let ?final = "sort_key final_order js"
  have fin: "all_ids f ?final = all_ids f js" for f by (rule all_ids_cong) simp
  have "length ?cs + sum_list (map (\<lambda>c. length c - 1) ?cs) = length (concat ?cs)"
    using each by (intro cluster_counts) auto
  moreover have "length (concat ?cs) = length signals"
    using cl unfolding clusters_of_def by (metis size_mset)
  ultimately have count: "length js + (sum_list (map (\<lambda>c. length c - 1) ?cs) + m) = length signals"
    using ml(5) b(3) by simp
  have "build_correlated_incidents signals ctx evs st =
      Inr (?final, sum_list (map (\<lambda>c. length c - 1) ?cs) + m)"
    using False by (simp add: build_correlated_incidents_def Let_def b(1)
        merge_overlapping_incidents_def ml(1))
  moreover have "all_ids i_signal_ids js = s_signal_id ` set signals"
    by (simp only: ml(3) b(4) members)
  moreover have "all_ids i_event_ids js = (\<Union>s \<in> set signals. set (s_event_ids s))"
    by (simp only: ml(4) b(5) members)
  ultimately show ?thesis using ml(2) count by (simp add: fin)
qed

text \<open>Without distinct identities correlation still returns incidents, all sound, of events of the
  signals.\<close>

lemma signal_lookup_found:
  assumes "s \<in> set ss"
  shows "\<exists>t \<in> set ss. signal_lookup_of ss (s_signal_id s) = Some t"
proof (cases "signal_lookup_of ss (s_signal_id s)")
  case None
  then have "s_signal_id s \<notin> s_signal_id ` set ss" by (simp add: signal_lookup_of_def)
  then show ?thesis using assms by blast
next
  case (Some t)
  then show ?thesis using map_of_dict_of_SomeD [of s_signal_id ss] unfolding signal_lookup_of_def by blast
qed

lemma build_correlated_total:
  assumes "\<forall>s \<in> set signals. wf_signal s" and "INCIDENT_MERGE_WINDOW_SECONDS st > 0"
  shows "\<exists>is m. build_correlated_incidents signals ctx evs st = Inr (is, m)
    \<and> (\<forall>i \<in> set is. sound_incident st i)
    \<and> all_ids i_event_ids is \<subseteq> (\<Union>s \<in> set signals. set (s_event_ids s))"
proof (cases "signals = []")
  case True
  then show ?thesis by (simp add: build_correlated_incidents_def)
next
  case False
  let ?lk = "dict_of e_event_id (filter (\<lambda>e. e_event_id e \<noteq> []) evs)"
  let ?ces = "sort_key context_order (filter (\<lambda>e. e_event_id e \<noteq> []) ctx)"
  let ?cs = "cluster_signals signals (INCIDENT_MERGE_WINDOW_SECONDS st)
            (INCIDENT_EVENT_OVERLAP_THRESHOLD st)"
  have each: "\<forall>c \<in> set ?cs. c \<noteq> [] \<and> (\<forall>s \<in> set c. wf_signal s)" and inside: "set (concat ?cs) \<subseteq> set signals"
    using cluster_signals_members assms(1) by fastforce+
  obtain "is" where b: "map_err (\<lambda>c. build_correlated_incident c ?lk ?ces st) ?cs = Inr is"
    "\<forall>i \<in> set is. sound_incident st i" "all_ids i_signal_ids is = s_signal_id ` set (concat ?cs)"
    "all_ids i_event_ids is = (\<Union>s \<in> set (concat ?cs). set (s_event_ids s))"
    using build_all_ok [OF each assms(2)] by blast
  let ?sorted = "sort_key incident_keeper_key is"
  have same: "all_ids f ?sorted = all_ids f is" for f by (rule all_ids_cong) simp
  have "\<exists>s. signal_lookup_of signals sid = Some s \<and> wf_signal s" if "sid \<in> all_ids i_signal_ids ([] @ ?sorted)" for sid
  proof -
    have "sid \<in> s_signal_id ` set (concat ?cs)" using that unfolding append_Nil same b(3) .
    then obtain s where "s \<in> set signals" "sid = s_signal_id s" using inside by blast
    then show ?thesis using signal_lookup_found assms(1) by blast
  qed
  moreover have "\<forall>i \<in> set [] \<union> set ?sorted. sound_incident st i" using b(2) by simp
  ultimately obtain js m where
    ml: "merge_loop (signal_lookup_of signals) st (Some ?lk) [] 0 ?sorted = Inr (js, m)"
    "\<forall>i \<in> set js. sound_incident st i" "all_ids i_event_ids js = all_ids i_event_ids is"
    using merge_loop_ok [of "[]" ?sorted st "signal_lookup_of signals" "Some ?lk" 0] by (auto simp: same)
  let ?final = "sort_key final_order js"
  have fin: "all_ids f ?final = all_ids f js" for f by (rule all_ids_cong) simp
  have "build_correlated_incidents signals ctx evs st =
      Inr (?final, sum_list (map (\<lambda>c. length c - 1) ?cs) + m)"
    using False by (simp add: build_correlated_incidents_def Let_def b(1)
        merge_overlapping_incidents_def ml(1))
  moreover have "all_ids i_event_ids js \<subseteq> (\<Union>s \<in> set signals. set (s_event_ids s))"
    using inside by (auto simp only: ml(3) b(4))
  ultimately show ?thesis using ml(2) by (simp add: fin)
qed

text \<open>C2: correlating well-formed signals with distinct identities never raises and conserves
  everything: the incidents together carry exactly the signals and exactly the events of the
  input, the incidents and the reported merges add up to the signals, every incident is
  well-formed with at most ten evidence items and a bounded context, and the list is ordered.\<close>

theorem correlation_conserves:
  assumes "\<forall>s \<in> set signals. wf_signal s" and "distinct (map s_signal_id signals)"
    and "INCIDENT_MERGE_WINDOW_SECONDS st > 0"
  shows "\<exists>is m. build_correlated_incidents signals ctx evs st = Inr (is, m)
    \<and> (\<forall>i \<in> set is. sound_incident st i)
    \<and> all_ids i_signal_ids is = s_signal_id ` set signals
    \<and> all_ids i_event_ids is = (\<Union>s \<in> set signals. set (s_event_ids s))
    \<and> length is + m = length signals
    \<and> sorted (map final_order is)"
  using assms by (rule build_correlated_ok)

theorem correlation_conserves_witness:
  "\<exists>is m. build_correlated_incidents [scored_signal, second_signal] [] [] default_settings = Inr (is, m)
    \<and> all_ids i_event_ids is = {''E1'', ''E2''} \<and> length is + m = 2"
proof -
  have "\<forall>s \<in> set [scored_signal, second_signal]. wf_signal s"
    by (simp add: scored_signal_wf second_signal_wf)
  moreover have "distinct (map s_signal_id [scored_signal, second_signal])"
    by (simp add: second_signal_def scored_signal_def)
  ultimately obtain "is" m where
    "build_correlated_incidents [scored_signal, second_signal] [] [] default_settings = Inr (is, m)"
    "all_ids i_event_ids is = (\<Union>s \<in> set [scored_signal, second_signal]. set (s_event_ids s))"
    "length is + m = length [scored_signal, second_signal]"
    using correlation_conserves [of "[scored_signal, second_signal]" default_settings "[]" "[]"]
      default_window by blast
  then show ?thesis by (simp add: second_signal_def scored_signal_def insert_commute)
qed

lemma build_correlated_perm:
  assumes "mset signals = mset signals'" and "distinct (map s_signal_id signals)"
  shows "build_correlated_incidents signals ctx evs st = build_correlated_incidents signals' ctx evs st"
proof -
  have "signals = [] \<longleftrightarrow> signals' = []" using assms(1) by (metis mset_zero_iff)
  then show ?thesis
    unfolding build_correlated_incidents_def merge_overlapping_incidents_def
      cluster_signals_perm [OF assms] signal_lookup_perm [OF assms(2,1)] by simp
qed

text \<open>The incidents do not depend on the order in which the rules produced the signals.\<close>

theorem correlation_order_independent:
  assumes "mset signals = mset signals'" and "distinct (map s_signal_id signals)"
  shows "build_correlated_incidents signals ctx evs st = build_correlated_incidents signals' ctx evs st"
  using assms by (rule build_correlated_perm)

theorem correlation_order_independent_witness:
  "build_correlated_incidents [scored_signal, second_signal] [] [] default_settings
   = build_correlated_incidents [second_signal, scored_signal] [] [] default_settings"
  by (rule correlation_order_independent) (simp_all add: second_signal_def scored_signal_def)

end
