(* ===== verification/Engine.thy ===== *)
theory Engine
  imports BurstRules Suppression IncidentCorrelation
begin

text \<open>
  \<open>DetectionEngine.analyze\<close> and \<open>_deduplicate_signals\<close>
  (\<open>agent/detection/engine.py\<close>): event deduplication and eligibility, rule execution
  through \<open>run_rule\<close>, suppression, same-rule merging and incident correlation. The wall
  clock (\<open>duration_ms\<close>) and the log calls are left out.
\<close>

section \<open>Event intake\<close>

definition dedup_key :: "canonical_event \<Rightarrow> string" where
  "dedup_key e = e_event_id e @ ''|'' @
     (case e_raw_record_hash e of None \<Rightarrow> [] | Some h \<Rightarrow> h)"

text \<open>The events kept, the number skipped and the warnings of the first loop.\<close>

fun dedup_loop :: "string set \<Rightarrow> canonical_event list \<Rightarrow> canonical_event list \<times> nat \<times> string list" where
  "dedup_loop seen_keys [] = ([], 0, [])"
| "dedup_loop seen_keys (e # es) =
     (if e_event_id e = []
      then (case dedup_loop seen_keys es of (kept, skipped, warnings) \<Rightarrow>
              (kept, skipped + 1, ''Skipped event without ID'' # warnings))
      else if dedup_key e \<in> seen_keys
      then (case dedup_loop seen_keys es of (kept, skipped, warnings) \<Rightarrow> (kept, skipped + 1, warnings))
      else (case dedup_loop (insert (dedup_key e) seen_keys) es of
              (kept, skipped, warnings) \<Rightarrow> (e # kept, skipped, warnings)))"

definition REJECTED_STATUSES :: "string list" where
  "REJECTED_STATUSES = [''failed'', ''unsupported_schema'', ''semantically_invalid'']"

definition ineligible_reason :: "canonical_event \<Rightarrow> string option" where
  "ineligible_reason e =
     (case e_timestamp e of
        None \<Rightarrow> Some (''Event '' @ e_event_id e @ '' skipped: missing timestamp'')
      | Some t \<Rightarrow>
          if \<not> is_aware t then Some (''Event '' @ e_event_id e @ '' skipped: timezone-naive timestamp'')
          else if e_parse_status e \<in> set REJECTED_STATUSES
          then Some (''Event '' @ e_event_id e @ '' skipped: invalid parse_status '' @
                 [CHR 0x27] @ e_parse_status e @ [CHR 0x27])
          else None)"

definition event_order :: "canonical_event \<Rightarrow> datetime \<times> string" where
  "event_order e = (the (event_time e), e_event_id e)"

definition eligible_of :: "canonical_event list \<Rightarrow> canonical_event list" where
  "eligible_of candidate_events =
     sort_key event_order (filter (\<lambda>e. ineligible_reason e = None) (fst (dedup_loop {} candidate_events)))"

section \<open>Same-rule merging\<close>

definition append_new_evidence ::
  "DetectionEvidence list \<Rightarrow> DetectionEvidence \<Rightarrow> DetectionEvidence list" where
  "append_new_evidence evidence ev =
     (if ev_event_id ev \<in> ev_event_id ` set evidence then evidence else evidence @ [ev])"

definition merge_signal_pair :: "DetectionSignal \<Rightarrow> DetectionSignal \<Rightarrow> DetectionSignal" where
  "merge_signal_pair prev cur =
     (let event_ids = sort_uniq (s_event_ids prev @ s_event_ids cur);
          targets = sort_uniq (s_target_entities prev @ s_target_entities cur);
          corr_key = (case targets of t # _ \<Rightarrow> ''target_'' @ t | [] \<Rightarrow> ''multiple'')
      in prev\<lparr>s_event_ids := event_ids,
              s_last_seen := max (s_last_seen prev) (s_last_seen cur),
              s_target_entities := targets,
              s_evidence := foldl append_new_evidence (s_evidence prev) (s_evidence cur),
              s_signal_id := generate_signal_id (s_rule_id prev) (s_rule_version prev)
                (s_primary_entity prev) corr_key (s_first_seen prev) event_ids\<rparr>)"

definition continues :: "int \<Rightarrow> DetectionSignal \<Rightarrow> DetectionSignal \<Rightarrow> bool" where
  "continues window prev cur =
     (set (s_event_ids cur) \<inter> set (s_event_ids prev) \<noteq> {} \<and>
      elapsed (s_first_seen cur) (s_last_seen prev) \<le> seconds window)"

definition merge_into :: "int \<Rightarrow> DetectionSignal list \<Rightarrow> DetectionSignal \<Rightarrow> DetectionSignal list" where
  "merge_into window merged cur =
     (if merged = [] then [cur]
      else if continues window (last merged) cur
      then butlast merged @ [merge_signal_pair (last merged) cur]
      else merged @ [cur])"

definition merge_rule_signals :: "int \<Rightarrow> DetectionSignal list \<Rightarrow> DetectionSignal list" where
  "merge_rule_signals window sigs = foldl (merge_into window) [] (sort_key s_first_seen sigs)"

definition deduplicate_signals :: "int \<Rightarrow> DetectionSignal list \<Rightarrow> DetectionSignal list" where
  "deduplicate_signals window signals =
     concat (map (\<lambda>(src, sigs). concat (map (\<lambda>(rule_id, rule_sigs). merge_rule_signals window rule_sigs)
                                        (group_by s_rule_id sigs)))
       (group_by s_primary_entity signals))"

section \<open>Analysis\<close>

definition run_rules ::
  "canonical_event list \<Rightarrow> DetectionContext \<Rightarrow> BaseDetectionRule list
     \<Rightarrow> DetectionSignal list \<times> string list" where
  "run_rules eligible ctx rules =
     (concat (map (\<lambda>r. fst (run_rule eligible ctx r)) rules),
      concat (map (\<lambda>r. snd (run_rule eligible ctx r)) rules))"

definition mark_suppressed ::
  "SuppressionPolicy \<Rightarrow> event_lookup \<Rightarrow> DetectionSignal \<Rightarrow> DetectionSignal" where
  "mark_suppressed policy lk s =
     (case is_suppressed policy s lk of None \<Rightarrow> s
      | Some reason \<Rightarrow> s\<lparr>s_suppressed := True, s_suppression_reason := Some reason\<rparr>)"

record DetectionEngine =
  en_registry :: registry
  en_settings :: DetectionSettings
  en_policy :: SuppressionPolicy

definition rule_context :: "DetectionEngine \<Rightarrow> datetime \<Rightarrow> canonical_event list \<Rightarrow> DetectionContext" where
  "rule_context en now eligible =
     \<lparr>ctx_settings = en_settings en,
      ctx_analysis_started_at = (case event_time (hd eligible) of Some t \<Rightarrow> t | None \<Rightarrow> now),
      ctx_source_name = ''unknown'', ctx_now = now\<rparr>"

definition analyze ::
  "DetectionEngine \<Rightarrow> datetime \<Rightarrow> canonical_event list \<Rightarrow> canonical_event list
     \<Rightarrow> string + DetectionResult" where
  "analyze en now candidate_events context_events =
     (let (deduped, duplicates, warnings1) = dedup_loop {} candidate_events;
          warnings2 = somes ineligible_reason deduped;
          eligible = eligible_of candidate_events;
          skipped = duplicates + length warnings2;
          metrics = \<lparr>m_total_events = length candidate_events, m_eligible_events = length eligible,
            m_skipped_events = skipped, m_signal_count = 0, m_suppressed_signal_count = 0,
            m_incident_count = 0, m_duplicate_signal_count = 0, m_merge_count = 0\<rparr>
      in if eligible = []
         then Inr \<lparr>r_signals = [], r_incidents = [], r_suppressed_signals = [],
           r_uncorrelated_event_ids = [], r_metrics = metrics, r_warnings = warnings1 @ warnings2\<rparr>
         else (let ctx = rule_context en now eligible;
            (all_signals, warnings3) = run_rules eligible ctx (get_all_rules (en_registry en));
            lk = dict_of e_event_id eligible;
            active = filter (\<lambda>s. is_suppressed (en_policy en) s lk = None) all_signals;
            suppressed = map (mark_suppressed (en_policy en) lk)
              (filter (\<lambda>s. is_suppressed (en_policy en) s lk \<noteq> None) all_signals);
            deduped_signals =
              deduplicate_signals (INCIDENT_MERGE_WINDOW_SECONDS (en_settings en)) active
          in bind_err (build_correlated_incidents deduped_signals context_events eligible (en_settings en))
            (\<lambda>(incidents, merge_count). Inr
              \<lparr>r_signals = deduped_signals, r_incidents = incidents,
               r_suppressed_signals = suppressed,
               r_uncorrelated_event_ids = filter (\<lambda>eid. \<not> (\<exists>i \<in> set incidents. eid \<in> set (i_event_ids i)))
                 (map e_event_id eligible),
               r_metrics = metrics\<lparr>m_signal_count := length all_signals,
                 m_suppressed_signal_count := length suppressed,
                 m_incident_count := length incidents,
                 m_duplicate_signal_count := length active - length deduped_signals,
                 m_merge_count := merge_count\<rparr>,
               r_warnings = warnings1 @ warnings2 @ warnings3\<rparr>)))"

section \<open>Intake lemmas\<close>

lemma dedup_loop_count:
  "dedup_loop seen es = (kept, skipped, warnings) \<Longrightarrow> length kept + skipped = length es"
  by (induction seen es arbitrary: kept skipped warnings rule: dedup_loop.induct)
     (auto split: if_splits prod.splits)

lemma dedup_loop_subset: "set (fst (dedup_loop seen es)) \<subseteq> {e \<in> set es. e_event_id e \<noteq> []}"
proof (induction seen es rule: dedup_loop.induct)
  case (2 seen e es)
  then show ?case
    by (cases "e_event_id e = []"; cases "dedup_key e \<in> seen") (auto split: prod.splits)
qed simp

lemma dedup_loop_distinct:
  assumes "distinct (map e_event_id es)"
    and "\<forall>e \<in> set es. dedup_key e \<notin> seen" and "inj_on dedup_key (set es)"
  shows "fst (dedup_loop seen es) = filter (\<lambda>e. e_event_id e \<noteq> []) es"
  using assms
proof (induction seen es rule: dedup_loop.induct)
  case (2 seen e es)
  then have "e \<notin> set es" by auto
  then have "\<forall>x \<in> set es. dedup_key x \<noteq> dedup_key e"
    using inj_onD [OF 2(6)] by (metis list.set_intros)
  with 2 show ?case by (auto split: prod.splits)
qed simp

lemma length_somes: "length (somes f xs) + length (filter (\<lambda>x. f x = None) xs) = length xs"
  by (induction xs) (auto simp: somes_def List.map_filter_simps)

lemma eligible_facts:
  assumes "e \<in> set (eligible_of es)"
  shows "e \<in> set es" and "e_event_id e \<noteq> []" and "e_timestamp e \<noteq> None"
  using assms dedup_loop_subset [of "{}" es]
  by (auto simp: eligible_of_def ineligible_reason_def split: option.splits)

lemma intake_count:
  assumes "dedup_loop {} es = (kept, skipped, ws)"
  shows "length es = length (eligible_of es) + (skipped + length (somes ineligible_reason kept))"
  using dedup_loop_count [OF assms] length_somes [of ineligible_reason kept] assms
  by (simp add: eligible_of_def)

section \<open>Merging lemmas\<close>

lemma append_new_evidence_ids:
  "ev_event_id ` set (foldl append_new_evidence acc evs) =
     ev_event_id ` set acc \<union> ev_event_id ` set evs"
  by (induction evs arbitrary: acc) (auto simp: append_new_evidence_def)

lemma append_new_evidence_distinct:
  "distinct (map ev_event_id acc) \<Longrightarrow> distinct (map ev_event_id (foldl append_new_evidence acc evs))"
  by (induction evs arbitrary: acc) (auto simp: append_new_evidence_def)

lemma merge_signal_pair_fields:
  "s_rule_id (merge_signal_pair p c) = s_rule_id p"
  "s_primary_entity (merge_signal_pair p c) = s_primary_entity p"
  "set (s_event_ids (merge_signal_pair p c)) = set (s_event_ids p) \<union> set (s_event_ids c)"
  "s_first_seen (merge_signal_pair p c) = s_first_seen p"
  by (simp_all add: merge_signal_pair_def Let_def)

lemma merge_signal_pair_wf: "wf_signal p \<Longrightarrow> wf_signal (merge_signal_pair p c)"
  by (auto simp: merge_signal_pair_def Let_def wf_signal_def le_max_iff_disj)

definition union_ids :: "DetectionSignal list \<Rightarrow> string set" where
  "union_ids ss = (\<Union>s \<in> set ss. set (s_event_ids s))"

lemma union_ids_simps [simp]:
  "union_ids [] = {}" "union_ids (s # ss) = set (s_event_ids s) \<union> union_ids ss"
  "union_ids (ss @ ts) = union_ids ss \<union> union_ids ts"
  by (auto simp: union_ids_def)

lemma merge_into_facts:
  "union_ids (merge_into w ms c) = union_ids ms \<union> set (s_event_ids c)"
  "length (merge_into w ms c) \<le> Suc (length ms)"
  "\<forall>s \<in> set ms. P s \<Longrightarrow> P c \<Longrightarrow> (\<And>p. P p \<Longrightarrow> P (merge_signal_pair p c)) \<Longrightarrow>
     \<forall>s \<in> set (merge_into w ms c). P s"
  by (cases ms rule: rev_cases; auto simp: merge_into_def merge_signal_pair_fields)+

lemma merge_rule_signals_facts:
  "union_ids (merge_rule_signals w ss) = union_ids ss"
  "length (merge_rule_signals w ss) \<le> length ss"
  "\<forall>s \<in> set ss. P s \<Longrightarrow> (\<And>p c. P p \<Longrightarrow> P c \<Longrightarrow> P (merge_signal_pair p c)) \<Longrightarrow>
     \<forall>s \<in> set (merge_rule_signals w ss). P s"
proof -
  have ids: "union_ids (foldl (merge_into w) acc xs) = union_ids acc \<union> union_ids xs" for acc xs
    by (induction xs arbitrary: acc) (auto simp: merge_into_facts)
  show "union_ids (merge_rule_signals w ss) = union_ids ss"
    by (simp add: merge_rule_signals_def ids) (simp add: union_ids_def)
  have len: "length (foldl (merge_into w) acc xs) \<le> length acc + length xs" for acc xs
  proof (induction xs arbitrary: acc)
    case (Cons x xs)
    have "length (foldl (merge_into w) acc (x # xs)) \<le> length (merge_into w acc x) + length xs"
      using Cons.IH by simp
    then show ?case using merge_into_facts(2) [of w acc x] by simp
  qed simp
  show "length (merge_rule_signals w ss) \<le> length ss"
    using len [of "[]" "sort_key s_first_seen ss"] by (simp add: merge_rule_signals_def)
  show "\<forall>s \<in> set (merge_rule_signals w ss). P s"
    if "\<forall>s \<in> set ss. P s" and step: "\<And>p c. P p \<Longrightarrow> P c \<Longrightarrow> P (merge_signal_pair p c)"
  proof -
    have fold: "\<forall>s \<in> set (foldl (merge_into w) acc xs). P s"
      if "\<forall>s \<in> set acc. P s" and "\<forall>s \<in> set xs. P s" for acc xs
      using that
    proof (induction xs arbitrary: acc)
      case (Cons x xs)
      have "\<forall>s \<in> set (merge_into w acc x). P s"
        using Cons.prems step by (intro merge_into_facts(3)) auto
      with Cons show ?case by simp
    qed simp
    show ?thesis
      unfolding merge_rule_signals_def
      using fold [of "[]" "sort_key s_first_seen ss"] \<open>\<forall>s \<in> set ss. P s\<close> by simp
  qed
qed

lemma union_ids_concat: "union_ids (concat xss) = (\<Union>ss \<in> set xss. union_ids ss)"
  by (auto simp: union_ids_def)

lemma union_ids_group_by: "(\<Union>kv \<in> set (group_by key ss). union_ids (snd kv)) = union_ids ss"
  unfolding union_ids_def using set_group_by [of key ss] by blast

lemma length_concat_le:
  "(\<And>x. x \<in> set xs \<Longrightarrow> length (f x) \<le> g x) \<Longrightarrow> length (concat (map f xs)) \<le> sum_list (map g xs)"
proof (induction xs)
  case (Cons x xs)
  have "length (f x) \<le> g x" and "length (concat (map f xs)) \<le> sum_list (map g xs)"
    using Cons by simp_all
  then show ?case by simp
qed simp

definition per_source :: "int \<Rightarrow> DetectionSignal list \<Rightarrow> DetectionSignal list" where
  "per_source w sigs = concat (map (\<lambda>kv. merge_rule_signals w (snd kv)) (group_by s_rule_id sigs))"

lemma deduplicate_per_source:
  "deduplicate_signals w ss = concat (map (\<lambda>kv. per_source w (snd kv)) (group_by s_primary_entity ss))"
  by (simp add: deduplicate_signals_def per_source_def case_prod_beta')

lemma deduplicate_union: "union_ids (deduplicate_signals w ss) = union_ids ss"
proof -
  have src: "union_ids (per_source w sigs) = union_ids sigs" for sigs
    by (simp add: per_source_def union_ids_concat merge_rule_signals_facts union_ids_group_by)
  show ?thesis
    by (simp add: deduplicate_per_source union_ids_concat src union_ids_group_by)
qed

lemma deduplicate_length: "length (deduplicate_signals w ss) \<le> length ss"
proof -
  have src: "length (per_source w sigs) \<le> length sigs" for sigs
  proof -
    have "length (per_source w sigs)
        \<le> sum_list (map (\<lambda>kv. length (snd kv)) (group_by s_rule_id sigs))"
      unfolding per_source_def by (intro length_concat_le merge_rule_signals_facts)
    then show ?thesis by (simp add: length_group_by)
  qed
  have "length (deduplicate_signals w ss)
      \<le> sum_list (map (\<lambda>kv. length (snd kv)) (group_by s_primary_entity ss))"
    unfolding deduplicate_per_source by (intro length_concat_le src)
  then show ?thesis by (simp add: length_group_by)
qed

lemma deduplicate_all:
  assumes "\<forall>s \<in> set ss. P s" and "\<And>p c. P p \<Longrightarrow> P c \<Longrightarrow> P (merge_signal_pair p c)"
  shows "\<forall>s \<in> set (deduplicate_signals w ss). P s"
proof -
  have group: "\<forall>s \<in> set vs. P s" if "(k, vs) \<in> set (group_by key xs)" "\<forall>s \<in> set xs. P s"
    for k vs xs and key :: "DetectionSignal \<Rightarrow> string"
    using group_by_member(1) [OF that(1)] that(2) by simp
  have src: "\<forall>s \<in> set (per_source w sigs). P s" if "\<forall>s \<in> set sigs. P s" for sigs
  proof -
    have "\<forall>s \<in> set (merge_rule_signals w vs). P s" if "(k, vs) \<in> set (group_by s_rule_id sigs)" for k vs
      using group [OF that \<open>\<forall>s \<in> set sigs. P s\<close>] assms(2) by (rule merge_rule_signals_facts(3))
    then show ?thesis by (auto simp: per_source_def)
  qed
  have "\<forall>s \<in> set (per_source w vs). P s" if "(k, vs) \<in> set (group_by s_primary_entity ss)" for k vs
    using group [OF that assms(1)] by (rule src)
  then show ?thesis by (auto simp: deduplicate_per_source)
qed

section \<open>The analysis, unfolded\<close>

definition returns_valid :: "registry \<Rightarrow> bool" where
  "returns_valid reg = (\<forall>rule \<in> snd ` set reg. \<forall>es ctx signals.
     evaluate rule es ctx = Inr signals \<longrightarrow> (\<forall>s \<in> set signals. wf_signal s))"

definition engine_signals :: "DetectionEngine \<Rightarrow> datetime \<Rightarrow> canonical_event list \<Rightarrow> DetectionSignal list" where
  "engine_signals en now eligible =
     fst (run_rules eligible (rule_context en now eligible) (get_all_rules (en_registry en)))"

definition active_signals :: "DetectionEngine \<Rightarrow> datetime \<Rightarrow> canonical_event list \<Rightarrow> DetectionSignal list" where
  "active_signals en now eligible =
     filter (\<lambda>s. is_suppressed (en_policy en) s (dict_of e_event_id eligible) = None)
       (engine_signals en now eligible)"

definition reported_signals :: "DetectionEngine \<Rightarrow> datetime \<Rightarrow> canonical_event list \<Rightarrow> DetectionSignal list" where
  "reported_signals en now eligible =
     deduplicate_signals (INCIDENT_MERGE_WINDOW_SECONDS (en_settings en)) (active_signals en now eligible)"

lemma run_rule_valid:
  assumes "\<forall>es ctx signals. evaluate rule es ctx = Inr signals \<longrightarrow> (\<forall>s \<in> set signals. wf_signal s)"
  shows "\<forall>s \<in> set (fst (run_rule es ctx rule)). wf_signal s"
  using assms by (auto simp: run_rule_def Let_def split: sum.splits if_splits)

lemma engine_signals_facts:
  assumes "s \<in> set (engine_signals en now eligible)"
  shows "returns_valid (en_registry en) \<Longrightarrow> wf_signal s"
    and "set (s_event_ids s) \<subseteq> e_event_id ` set eligible" and "s_event_ids s \<noteq> []"
    and "ev_event_id ` set (s_evidence s) \<subseteq> set (s_event_ids s)"
proof -
  obtain r where r: "r \<in> snd ` set (en_registry en)"
    and s: "s \<in> set (fst (run_rule eligible (rule_context en now eligible) r))"
    using assms by (auto simp: engine_signals_def run_rules_def get_all_rules_def)
  show "wf_signal s" if "returns_valid (en_registry en)"
    using run_rule_valid [of r] that r s by (auto simp: returns_valid_def)
  show "set (s_event_ids s) \<subseteq> e_event_id ` set eligible" by (rule run_rule_event_ids [OF s])
  show "s_event_ids s \<noteq> []" "ev_event_id ` set (s_evidence s) \<subseteq> set (s_event_ids s)"
    using run_rule_honours [OF s] by (simp_all add: honours_contract_def)
qed

text \<open>Properties of the rules' signals that same-rule merging keeps reach the report.\<close>

lemma reported_signals_facts:
  "returns_valid (en_registry en) \<Longrightarrow> \<forall>s \<in> set (reported_signals en now eligible). wf_signal s"
  "\<forall>s \<in> set (reported_signals en now eligible).
     set (s_event_ids s) \<subseteq> e_event_id ` set eligible \<and> s_event_ids s \<noteq> [] \<and>
     ev_event_id ` set (s_evidence s) \<subseteq> set (s_event_ids s)"
proof -
  show "\<forall>s \<in> set (reported_signals en now eligible). wf_signal s"
    if "returns_valid (en_registry en)"
    unfolding reported_signals_def
    using engine_signals_facts(1) that merge_signal_pair_wf
    by (intro deduplicate_all) (auto simp: active_signals_def)
  let ?P = "\<lambda>s. set (s_event_ids s) \<subseteq> e_event_id ` set eligible \<and> s_event_ids s \<noteq> [] \<and>
     ev_event_id ` set (s_evidence s) \<subseteq> set (s_event_ids s)"
  have step: "?P (merge_signal_pair p c)" if "?P p" and "?P c" for p c
  proof -
    have "set (s_event_ids (merge_signal_pair p c)) = set (s_event_ids p) \<union> set (s_event_ids c)"
      by (rule merge_signal_pair_fields)
    moreover from this have "s_event_ids (merge_signal_pair p c) \<noteq> []" using that by force
    moreover have "ev_event_id ` set (s_evidence (merge_signal_pair p c)) =
        ev_event_id ` set (s_evidence p) \<union> ev_event_id ` set (s_evidence c)"
      by (simp add: merge_signal_pair_def Let_def append_new_evidence_ids)
    ultimately show ?thesis using that by auto
  qed
  have "?P s" if "s \<in> set (active_signals en now eligible)" for s
    using that engine_signals_facts(2-4) [of s en now eligible] by (simp add: active_signals_def)
  then show "\<forall>s \<in> set (reported_signals en now eligible). ?P s"
    unfolding reported_signals_def by (intro deduplicate_all step) blast+
qed

lemma analyze_empty:
  "eligible_of es = [] \<Longrightarrow> analyze en now es ctx = Inr r \<Longrightarrow>
   r_signals r = [] \<and> r_incidents r = [] \<and> r_suppressed_signals r = [] \<and> r_uncorrelated_event_ids r = []
   \<and> m_signal_count (r_metrics r) = 0 \<and> m_suppressed_signal_count (r_metrics r) = 0
   \<and> m_incident_count (r_metrics r) = 0 \<and> m_merge_count (r_metrics r) = 0
   \<and> m_duplicate_signal_count (r_metrics r) = 0"
  by (auto simp: analyze_def Let_def split: prod.splits)

lemma analyze_nonempty:
  assumes "eligible_of es \<noteq> []" and "analyze en now es ctx = Inr r"
  shows "build_correlated_incidents (r_signals r) ctx (eligible_of es) (en_settings en)
      = Inr (r_incidents r, m_merge_count (r_metrics r))"
    and "r_signals r = reported_signals en now (eligible_of es)"
    and "r_suppressed_signals r = map (mark_suppressed (en_policy en) (dict_of e_event_id (eligible_of es)))
      (filter (\<lambda>s. is_suppressed (en_policy en) s (dict_of e_event_id (eligible_of es)) \<noteq> None)
        (engine_signals en now (eligible_of es)))"
    and "r_uncorrelated_event_ids r = filter (\<lambda>eid. eid \<notin> all_ids i_event_ids (r_incidents r))
      (map e_event_id (eligible_of es))"
    and "m_signal_count (r_metrics r) = length (engine_signals en now (eligible_of es))"
    and "m_suppressed_signal_count (r_metrics r) = length (r_suppressed_signals r)"
    and "m_incident_count (r_metrics r) = length (r_incidents r)"
    and "m_duplicate_signal_count (r_metrics r) =
      length (active_signals en now (eligible_of es)) - length (r_signals r)"
  using assms
  by (auto simp: analyze_def Let_def engine_signals_def active_signals_def reported_signals_def
      bind_err_Inr all_ids_def split: prod.splits)

lemma analyze_counts:
  assumes "analyze en now es ctx = Inr r"
  shows "m_total_events (r_metrics r) = length es \<and>
    m_total_events (r_metrics r) = m_eligible_events (r_metrics r) + m_skipped_events (r_metrics r)"
proof -
  obtain kept skipped ws where d: "dedup_loop {} es = (kept, skipped, ws)" by (metis surj_pair)
  have "m_total_events (r_metrics r) = length es \<and>
      m_eligible_events (r_metrics r) = length (eligible_of es) \<and>
      m_skipped_events (r_metrics r) = skipped + length (somes ineligible_reason kept)"
    using assms
    by (auto simp: analyze_def Let_def d bind_err_Inr split: prod.splits if_splits)
  then show ?thesis using intake_count [OF d] by simp
qed

text \<open>C7: the counters of an analysis balance: every candidate event is eligible or skipped, and
  every signal the rules produced is reported, suppressed or counted as a duplicate.\<close>

theorem analysis_accounting:
  assumes "analyze en now es ctx = Inr r"
  shows "m_total_events (r_metrics r) = length es
    \<and> m_total_events (r_metrics r) = m_eligible_events (r_metrics r) + m_skipped_events (r_metrics r)
    \<and> m_signal_count (r_metrics r) = length (r_signals r) + m_duplicate_signal_count (r_metrics r)
        + m_suppressed_signal_count (r_metrics r)
    \<and> m_suppressed_signal_count (r_metrics r) = length (r_suppressed_signals r)
    \<and> m_incident_count (r_metrics r) = length (r_incidents r)"
proof (cases "eligible_of es = []")
  case True
  with analyze_empty [OF True assms] analyze_counts [OF assms] show ?thesis by simp
next
  case False
  note r = analyze_nonempty [OF False assms]
  let ?all = "engine_signals en now (eligible_of es)"
  let ?p = "\<lambda>s. is_suppressed (en_policy en) s (dict_of e_event_id (eligible_of es)) = None"
  have "length ?all = length (filter ?p ?all) + length (filter (\<lambda>s. \<not> ?p s) ?all)"
    by (rule sum_length_filter_compl [symmetric])
  moreover have "length (r_signals r) \<le> length (active_signals en now (eligible_of es))"
    unfolding r(2) reported_signals_def by (rule deduplicate_length)
  moreover have "length (r_suppressed_signals r) = length (filter (\<lambda>s. \<not> ?p s) ?all)"
    unfolding r(3) by simp
  ultimately show ?thesis
    using r(5-8) analyze_counts [OF assms] by (simp add: active_signals_def)
qed

section \<open>Totality, isolation and order\<close>

text \<open>The result without its warnings, as a function of the eligible events and the signals the
  rules produced from them.\<close>

definition without_warnings :: "DetectionResult \<Rightarrow> DetectionResult" where
  "without_warnings r = r\<lparr>r_warnings := []\<rparr>"

definition outcome ::
  "DetectionSettings \<Rightarrow> SuppressionPolicy \<Rightarrow> nat \<Rightarrow> canonical_event list \<Rightarrow> DetectionSignal list
     \<Rightarrow> canonical_event list \<Rightarrow> string + DetectionResult" where
  "outcome st policy event_total eligible all_signals context_events =
     (let lk = dict_of e_event_id eligible;
          metrics = \<lparr>m_total_events = event_total, m_eligible_events = length eligible,
            m_skipped_events = event_total - length eligible, m_signal_count = 0,
            m_suppressed_signal_count = 0, m_incident_count = 0, m_duplicate_signal_count = 0,
            m_merge_count = 0\<rparr>
      in if eligible = []
         then Inr \<lparr>r_signals = [], r_incidents = [], r_suppressed_signals = [],
           r_uncorrelated_event_ids = [], r_metrics = metrics, r_warnings = []\<rparr>
         else (let active = filter (\<lambda>s. is_suppressed policy s lk = None) all_signals;
            suppressed = map (mark_suppressed policy lk)
              (filter (\<lambda>s. is_suppressed policy s lk \<noteq> None) all_signals);
            deduped_signals = deduplicate_signals (INCIDENT_MERGE_WINDOW_SECONDS st) active
          in bind_err (build_correlated_incidents deduped_signals context_events eligible st)
            (\<lambda>(incidents, merge_count). Inr
              \<lparr>r_signals = deduped_signals, r_incidents = incidents,
               r_suppressed_signals = suppressed,
               r_uncorrelated_event_ids = filter (\<lambda>eid. \<not> (\<exists>i \<in> set incidents. eid \<in> set (i_event_ids i)))
                 (map e_event_id eligible),
               r_metrics = metrics\<lparr>m_signal_count := length all_signals,
                 m_suppressed_signal_count := length suppressed,
                 m_incident_count := length incidents,
                 m_duplicate_signal_count := length active - length deduped_signals,
                 m_merge_count := merge_count\<rparr>,
               r_warnings = []\<rparr>)))"

lemma analyze_outcome:
  "map_sum id without_warnings (analyze en now es ctx) =
     outcome (en_settings en) (en_policy en) (length es) (eligible_of es)
       (engine_signals en now (eligible_of es)) ctx"
proof -
  obtain kept skipped ws where d: "dedup_loop {} es = (kept, skipped, ws)" by (metis surj_pair)
  have n: "skipped + length (somes ineligible_reason kept) = length es - length (eligible_of es)"
    using intake_count [OF d] by simp
  obtain sigs warns where
    rr: "run_rules (eligible_of es) (rule_context en now (eligible_of es)) (get_all_rules (en_registry en))
      = (sigs, warns)" by (metis surj_pair)
  show ?thesis
    unfolding analyze_def outcome_def Let_def d prod.case rr n engine_signals_def fst_conv
    by (auto simp: without_warnings_def bind_err_def split: sum.splits)
qed

lemma outcome_total:
  assumes "\<forall>s \<in> set (deduplicate_signals (INCIDENT_MERGE_WINDOW_SECONDS st)
      (filter (\<lambda>s. is_suppressed p s (dict_of e_event_id el) = None) sigs)). wf_signal s"
    and "INCIDENT_MERGE_WINDOW_SECONDS st > 0"
  shows "\<exists>r. outcome st p n el sigs ctx = Inr r"
  using build_correlated_total [OF assms, of ctx el] by (auto simp: outcome_def Let_def)

lemma analyze_total:
  assumes "returns_valid (en_registry en)" and "INCIDENT_MERGE_WINDOW_SECONDS (en_settings en) > 0"
  shows "\<exists>r. analyze en now es ctx = Inr r"
proof -
  have "\<exists>r. map_sum id without_warnings (analyze en now es ctx) = Inr r"
    unfolding analyze_outcome
    using outcome_total reported_signals_facts(1) [OF assms(1)] assms(2)
    by (simp add: reported_signals_def active_signals_def)
  then show ?thesis by (cases "analyze en now es ctx") auto
qed

lemma map_sum_eq_Inr:
  "map_sum id f x = map_sum id f y \<Longrightarrow> x = Inr a \<Longrightarrow> \<exists>b. y = Inr b \<and> f a = f b"
  by (cases y) auto

definition rule_raises ::
  "canonical_event list \<Rightarrow> DetectionContext \<Rightarrow> BaseDetectionRule \<Rightarrow> bool" where
  "rule_raises es ctx rule =
     (case evaluate rule (select_rule_events es (metadata rule)) ctx of Inl _ \<Rightarrow> True | Inr _ \<Rightarrow> False)"

definition drop_rules :: "(BaseDetectionRule \<Rightarrow> bool) \<Rightarrow> DetectionEngine \<Rightarrow> DetectionEngine" where
  "drop_rules bad en = en\<lparr>en_registry := filter (\<lambda>(k, r). \<not> bad r) (en_registry en)\<rparr>"

lemma raising_rule_silent: "rule_raises es ctx rule \<Longrightarrow> fst (run_rule es ctx rule) = []"
  by (auto simp: rule_raises_def run_rule_def Let_def split: sum.splits)

lemma concat_map_filter: "(\<And>x. \<not> p x \<Longrightarrow> f x = []) \<Longrightarrow> concat (map f (filter p xs)) = concat (map f xs)"
  by (induction xs) auto

lemma get_all_rules_drop:
  "get_all_rules (filter (\<lambda>(k, r). p r) reg) = filter p (get_all_rules reg)"
proof -
  have "map snd (filter (\<lambda>(k, r). p r) reg) = filter p (map snd reg)"
    by (induction reg) auto
  then show ?thesis by (simp add: get_all_rules_def filter_sort)
qed

lemma engine_signals_drop:
  assumes "\<And>r. bad r \<Longrightarrow> rule_raises el (rule_context en now el) r"
  shows "engine_signals (drop_rules bad en) now el = engine_signals en now el"
proof -
  have "concat (map (\<lambda>r. fst (run_rule el (rule_context en now el) r))
      (filter (\<lambda>r. \<not> bad r) (get_all_rules (en_registry en)))) =
    concat (map (\<lambda>r. fst (run_rule el (rule_context en now el) r)) (get_all_rules (en_registry en)))"
    by (rule concat_map_filter) (simp add: assms raising_rule_silent)
  then show ?thesis
    by (simp add: engine_signals_def run_rules_def drop_rules_def rule_context_def get_all_rules_drop)
qed


text \<open>C5: a rule that raises costs the analysis nothing but a warning: the analysis completes or
  raises exactly as that of the same engine without that rule, and signals, incidents, suppression and
  counters are the same.\<close>

theorem rule_failure_isolated:
  assumes "\<forall>rule. bad rule \<longrightarrow> rule_raises (eligible_of es) (rule_context en now (eligible_of es)) rule"
  shows "map_sum id without_warnings (analyze en now es ctx)
    = map_sum id without_warnings (analyze (drop_rules bad en) now es ctx)"
proof -
  have "engine_signals (drop_rules bad en) now (eligible_of es) = engine_signals en now (eligible_of es)"
    using assms by (intro engine_signals_drop) blast
  then show ?thesis unfolding analyze_outcome by (simp add: drop_rules_def)
qed

interpretation event_sort: separating_key event_order "\<lambda>A. inj_on e_event_id A"
  by unfold_locales (auto simp: inj_on_def event_order_def)

lemma eligible_perm:
  assumes "mset es = mset es'" and "distinct (map e_event_id es)" and "inj_on dedup_key (set es)"
  shows "eligible_of es = eligible_of es'"
proof -
  have s: "set es = set es'" using assms(1) by (rule mset_eq_setD)
  have d: "distinct (map e_event_id es')"
    using assms(1,2) by (metis mset_eq_imp_distinct_iff mset_map)
  have "fst (dedup_loop {} es) = filter (\<lambda>e. e_event_id e \<noteq> []) es"
    using assms by (intro dedup_loop_distinct) auto
  moreover have "fst (dedup_loop {} es') = filter (\<lambda>e. e_event_id e \<noteq> []) es'"
    using assms(3) d s by (intro dedup_loop_distinct) auto
  moreover have "inj_on e_event_id (set es)" using assms(2) by (simp add: distinct_map)
  then have "inj_on e_event_id (set (filter (\<lambda>e. ineligible_reason e = None)
      (filter (\<lambda>e. e_event_id e \<noteq> []) es)))"
    by (rule inj_on_subset) auto
  ultimately show ?thesis
    unfolding eligible_of_def using assms(1)
    by (intro event_sort.sort_key_mset_eq) simp_all
qed


section \<open>A concrete analysis\<close>

text \<open>An engine with two rules: one that reports its whole input as one signal, and one that
  raises.\<close>

definition report_all :: BaseDetectionRule where
  "report_all = \<lparr>rule_class = ''ReportAll'', metadata = vertical_metadata,
     evaluate = (\<lambda>events ctx. Inr [scored_signal\<lparr>s_event_ids := sort_uniq (map e_event_id events)\<rparr>])\<rparr>"

definition broken_rule :: BaseDetectionRule where
  "broken_rule = \<lparr>rule_class = ''Broken'', metadata = spi_metadata,
     evaluate = (\<lambda>events ctx. Inl ''KeyError'')\<rparr>"

definition sample_engine :: DetectionEngine where
  "sample_engine = \<lparr>en_registry = [(''spi_anomaly_burst'', broken_rule), (''network_scan_vertical'', report_all)],
     en_settings = default_settings, en_policy = new_policy\<rparr>"

definition reported_probe_signal :: DetectionSignal where
  "reported_probe_signal = scored_signal\<lparr>s_event_ids := [''E1'', ''E2'', ''E3'']\<rparr>"

lemma sample_eligible: "eligible_of probes = probes"
  by code_simp

lemma sample_signals: "engine_signals sample_engine (Instant 0) probes = [reported_probe_signal]"
  by code_simp

lemma sample_reported: "reported_signals sample_engine (Instant 0) (eligible_of probes) = [reported_probe_signal]"
proof -
  have "is_suppressed new_policy reported_probe_signal lk = None" for lk
    using suppression_iff [of new_policy reported_probe_signal lk]
    by (simp add: new_policy_def reported_probe_signal_def scored_signal_def source_allowed_def
        destination_allowed_def pair_allowed_def is_late_rst_spi_pattern_def)
  then have "active_signals sample_engine (Instant 0) probes = [reported_probe_signal]"
    unfolding active_signals_def sample_signals by (simp add: sample_engine_def)
  then show ?thesis
    unfolding reported_signals_def sample_eligible
    by (simp add: deduplicate_signals_def group_by_def merge_rule_signals_def merge_into_def)
qed

lemma sample_valid: "returns_valid (en_registry sample_engine)"
  using scored_signal_wf
  by (auto simp: returns_valid_def sample_engine_def broken_rule_def report_all_def wf_signal_def)

lemma sample_window: "INCIDENT_MERGE_WINDOW_SECONDS (en_settings sample_engine) > 0"
  by (simp add: sample_engine_def default_settings_def)

lemma sample_analysis:
  obtains r where "analyze sample_engine (Instant 0) probes [] = Inr r"
    and "r_signals r = [reported_probe_signal]"
proof -
  obtain r where r: "analyze sample_engine (Instant 0) probes [] = Inr r"
    using analyze_total [OF sample_valid sample_window, of "Instant 0" probes "[]"] by blast
  moreover have "eligible_of probes \<noteq> []" unfolding sample_eligible by (simp add: probes_def)
  ultimately show ?thesis using that analyze_nonempty(2) [OF _ r] by (simp add: sample_reported)
qed

theorem analysis_accounting_witness:
  "\<exists>r. analyze sample_engine (Instant 0) probes [] = Inr r \<and> m_total_events (r_metrics r) = 3
    \<and> 3 = m_eligible_events (r_metrics r) + m_skipped_events (r_metrics r)
    \<and> m_signal_count (r_metrics r) = 1 + m_duplicate_signal_count (r_metrics r)
        + m_suppressed_signal_count (r_metrics r)"
proof -
  obtain r where r: "analyze sample_engine (Instant 0) probes [] = Inr r"
    "r_signals r = [reported_probe_signal]" by (rule sample_analysis)
  moreover have "length probes = 3" by (simp add: probes_def)
  ultimately show ?thesis using analysis_accounting [OF r(1)] by auto
qed


theorem rule_failure_isolated_witness:
  "\<exists>r r'. analyze sample_engine (Instant 0) probes [] = Inr r
    \<and> analyze (drop_rules (\<lambda>rule. rule = broken_rule) sample_engine) (Instant 0) probes [] = Inr r'
    \<and> without_warnings r = without_warnings r'"
proof -
  obtain r where r: "analyze sample_engine (Instant 0) probes [] = Inr r"
    by (rule sample_analysis)
  have "\<forall>rule. rule = broken_rule \<longrightarrow>
      rule_raises (eligible_of probes) (rule_context sample_engine (Instant 0) (eligible_of probes)) rule"
    by (simp add: rule_raises_def broken_rule_def)
  from map_sum_eq_Inr [OF rule_failure_isolated [OF this] r] r show ?thesis by blast
qed


end
