(* ===== verification/CrossJobMerge.thy ===== *)
theory CrossJobMerge
  imports IncidentCorrelation
begin

text \<open>
  Merging an incoming incident into a persisted one (\<open>agent/correlation/merge.py\<close>):
  evidence selection that starves neither side, anchor selection over the attached signals and
  \<open>merge_incident_bundles\<close>.
\<close>

section \<open>Evidence\<close>

definition valid_sorted_unique ::
  "DetectionEvidence list \<Rightarrow> string set \<Rightarrow> DetectionEvidence list" where
  "valid_sorted_unique evidence incident_event_ids =
     foldl (\<lambda>result item.
         if ev_event_id item \<notin> incident_event_ids \<or> ev_event_id item \<in> ev_event_id ` set result
         then result else result @ [item])
       [] (sort_key ev_event_id evidence)"

definition fill_step :: "DetectionEvidence list \<Rightarrow> DetectionEvidence \<Rightarrow> DetectionEvidence list" where
  "fill_step selected item =
     (if length selected \<ge> MAX_INCIDENT_EVIDENCE then selected
      else if ev_event_id item \<in> ev_event_id ` set selected then selected
      else selected @ [item])"

definition fill_evidence ::
  "DetectionEvidence list \<Rightarrow> DetectionEvidence list \<Rightarrow> DetectionEvidence list" where
  "fill_evidence selected pool = foldl fill_step selected pool"

definition reserve_slot ::
  "DetectionEvidence list \<Rightarrow> DetectionEvidence list \<Rightarrow> DetectionEvidence list" where
  "reserve_slot selected valid =
     (case valid of [] \<Rightarrow> selected
      | item # _ \<Rightarrow> if ev_event_id item \<in> ev_event_id ` set selected \<or>
            length selected \<ge> MAX_INCIDENT_EVIDENCE
          then selected else selected @ [item])"

definition merge_evidence_fairly ::
  "DetectionEvidence list \<Rightarrow> DetectionEvidence list \<Rightarrow> string set \<Rightarrow> DetectionEvidence list" where
  "merge_evidence_fairly canonical_evidence incoming_evidence incident_event_ids =
     (let canonical_valid = valid_sorted_unique canonical_evidence incident_event_ids;
          incoming_valid = valid_sorted_unique incoming_evidence incident_event_ids;
          selected = reserve_slot (reserve_slot [] canonical_valid) incoming_valid;
          remaining_pool = sort_key ev_event_id
            (map snd (dict_of ev_event_id (canonical_valid @ incoming_valid)))
      in take MAX_INCIDENT_EVIDENCE (sort_key ev_event_id (fill_evidence selected remaining_pool)))"

section \<open>Identity\<close>

definition select_anchor ::
  "IncidentBundle \<Rightarrow> IncidentBundle \<Rightarrow> DetectionSignal list option \<Rightarrow> DetectionSignal option" where
  "select_anchor canon incoming available_signals =
     (let required_ids = sort_uniq (i_signal_ids canon @ i_signal_ids incoming);
          signals = (case available_signals of None \<Rightarrow> [] | Some ss \<Rightarrow> ss);
          by_id = dict_of s_signal_id signals
      in if required_ids = [] \<or> signals = [] then None
         else if \<exists>sid \<in> set required_ids. map_of by_id sid = None then None
         else Some (arg_min_list signal_precedence_key (map (\<lambda>sid. the (map_of by_id sid)) required_ids)))"

record IncidentMergeOutcome =
  mo_incident :: IncidentBundle
  mo_primary_signal_id :: string
  mo_identity_promoted :: bool
  mo_scoring_recalculated :: bool
  mo_material_changes :: "string list"

definition fallback_primary_signal :: "IncidentBundle \<Rightarrow> string" where
  "fallback_primary_signal canon =
     (if metric_string (i_metrics canon) ''primary_signal_id'' \<noteq> []
      then metric_string (i_metrics canon) ''primary_signal_id''
      else (case i_signal_ids canon of [] \<Rightarrow> [] | sid # _ \<Rightarrow> sid))"

definition promoted_entity :: "DetectionSignal \<Rightarrow> IncidentBundle \<Rightarrow> IncidentBundle \<Rightarrow> string" where
  "promoted_entity anchor canon incoming =
     (if s_signal_family anchor \<in> set ASSET_PRIMARY_FAMILIES
      then i_primary_entity (if s_signal_id anchor \<in> set (i_signal_ids incoming) then incoming else canon)
      else s_primary_entity anchor)"

definition merge_identity_fields ::
  "DetectionSignal option \<Rightarrow> IncidentBundle \<Rightarrow> IncidentBundle \<Rightarrow> string \<times> string \<times> string \<times> string \<times> string" where
  "merge_identity_fields anchor canon incoming =
     (case anchor of
        None \<Rightarrow> (fallback_primary_signal canon, i_incident_type canon, i_incident_family canon,
          i_title canon, i_primary_entity canon)
      | Some a \<Rightarrow> (s_signal_id a, s_signal_type a, s_signal_family a,
          ''Detected '' @ s_rule_name a @ '' from '' @ incident_title_source a [],
          promoted_entity a canon incoming))"

definition merge_cluster ::
  "IncidentBundle \<Rightarrow> IncidentBundle \<Rightarrow> DetectionSignal list option \<Rightarrow> DetectionSignal list" where
  "merge_cluster canon incoming available_signals =
     filter (\<lambda>s. s_signal_id s \<in> set (i_signal_ids canon) \<union> set (i_signal_ids incoming))
       (case available_signals of None \<Rightarrow> [] | Some ss \<Rightarrow> ss)"

definition identity_promoted ::
  "DetectionSignal option \<Rightarrow> IncidentBundle \<Rightarrow> IncidentBundle \<Rightarrow> bool" where
  "identity_promoted anchor canon incoming =
     (case anchor of None \<Rightarrow> False
      | Some a \<Rightarrow> s_signal_type a \<noteq> i_incident_type canon \<or>
          s_signal_family a \<noteq> i_incident_family canon \<or>
          promoted_entity a canon incoming \<noteq> i_primary_entity canon)"

text \<open>Scores are recomputed only over the complete event set.\<close>

definition merge_facts ::
  "DetectionSignal option \<Rightarrow> string \<Rightarrow> string list \<Rightarrow> canonical_event list option
     \<Rightarrow> IncidentSeverityFacts option" where
  "merge_facts anchor family event_ids final_events =
     (let final_event_map = dict_of e_event_id (case final_events of None \<Rightarrow> [] | Some es \<Rightarrow> es)
      in if anchor \<noteq> None \<and> fst ` set final_event_map = set event_ids
         then Some (derive_incident_severity_facts (map snd final_event_map) family) else None)"

definition merged_bundle ::
  "DetectionSignal option \<Rightarrow> IncidentBundle \<Rightarrow> IncidentBundle \<Rightarrow> DetectionSignal list option \<Rightarrow> nat
     \<Rightarrow> canonical_event list option \<Rightarrow> IncidentBundle" where
  "merged_bundle anchor canon incoming available_signals max_context_events final_events =
     (let signal_ids = sort_uniq (i_signal_ids canon @ i_signal_ids incoming);
          event_ids = sort_uniq (i_event_ids canon @ i_event_ids incoming);
          (primary_signal_id, incident_type, incident_family, title, primary_entity) =
            merge_identity_fields anchor canon incoming;
          cluster = merge_cluster canon incoming available_signals;
          severity_facts = merge_facts anchor incident_family event_ids final_events;
          absorbed_signal_ids = sort (filter (\<lambda>sid. sid \<noteq> primary_signal_id) signal_ids);
          metrics = update_metrics
            [(''total_events'', PInt (int (length event_ids))),
             (''correlated_signal_count'', PInt (int (length signal_ids))),
             (''absorbed_signal_count'', PInt (int (length absorbed_signal_ids))),
             (''primary_signal_id'', PStr primary_signal_id)] (i_metrics canon)
      in \<lparr>i_incident_id = i_incident_id canon, i_incident_type = incident_type,
          i_incident_family = incident_family, i_title = title,
          i_severity = (case severity_facts of None \<Rightarrow> i_severity canon
            | Some f \<Rightarrow> calculate_incident_severity cluster (Some f)),
          i_confidence = (case anchor of None \<Rightarrow> i_confidence canon
            | Some _ \<Rightarrow> calculate_incident_confidence cluster),
          i_first_seen = min (i_first_seen canon) (i_first_seen incoming),
          i_last_seen = max (i_last_seen canon) (i_last_seen incoming),
          i_primary_entity = primary_entity,
          i_target_entities = sort_uniq (i_target_entities canon @ i_target_entities incoming),
          i_signal_ids = signal_ids, i_event_ids = event_ids,
          i_context_event_ids = remaining_context max_context_events event_ids
            (i_context_event_ids canon @ i_context_event_ids incoming),
          i_evidence = merge_evidence_fairly (i_evidence canon) (i_evidence incoming) (set event_ids),
          i_metrics = (case severity_facts of None \<Rightarrow> metrics
            | Some f \<Rightarrow> update_metrics (as_metrics f) metrics),
          i_mitre_techniques = sort_uniq (i_mitre_techniques canon @ i_mitre_techniques incoming),
          i_merge_key = i_merge_key canon, i_review_reason = i_review_reason canon,
          i_absorbed_signal_ids = absorbed_signal_ids\<rparr>)"

definition changed :: "bool \<Rightarrow> string \<Rightarrow> string list" where
  "changed c name = (if c then [name] else [])"

definition material_changes :: "IncidentBundle \<Rightarrow> IncidentBundle \<Rightarrow> bool \<Rightarrow> string list" where
  "material_changes canon merged promoted =
     changed (length (i_event_ids merged) > length (i_event_ids canon)) ''events_added'' @
     changed (length (i_signal_ids merged) > length (i_signal_ids canon)) ''signals_added'' @
     changed (length (i_target_entities merged) > length (i_target_entities canon)) ''targets_added'' @
     changed (severity_rank (i_severity merged) > severity_rank (i_severity canon)) ''severity_increased'' @
     changed (abs (i_confidence merged - i_confidence canon) > 1/1000000000) ''confidence_changed'' @
     changed promoted ''primary_identity_promoted'' @
     changed (i_first_seen merged < i_first_seen canon \<or> i_last_seen merged > i_last_seen canon)
       ''time_window_extended''"

definition merge_incident_bundles ::
  "IncidentBundle \<Rightarrow> IncidentBundle \<Rightarrow> DetectionSignal list option \<Rightarrow> nat
     \<Rightarrow> canonical_event list option \<Rightarrow> string + IncidentMergeOutcome" where
  "merge_incident_bundles canon incoming available_signals max_context_events final_events =
     (let anchor = select_anchor canon incoming available_signals;
          raw = merged_bundle anchor canon incoming available_signals max_context_events final_events;
          promoted = identity_promoted anchor canon incoming;
          (primary_signal_id, _, incident_family, _, _) = merge_identity_fields anchor canon incoming
      in bind_err (validate_incident raw)
        (\<lambda>merged. Inr
          \<lparr>mo_incident = merged, mo_primary_signal_id = primary_signal_id,
           mo_identity_promoted = promoted,
           mo_scoring_recalculated =
             (merge_facts anchor incident_family (i_event_ids raw) final_events \<noteq> None),
           mo_material_changes = material_changes canon raw promoted\<rparr>))"

section \<open>Evidence lemmas\<close>

lemma valid_fold_facts:
  assumes "sorted (map ev_event_id (acc @ items))" and "distinct (map ev_event_id acc)"
    and "ev_event_id ` set acc \<subseteq> ids"
  defines "r \<equiv> foldl (\<lambda>result item.
         if ev_event_id item \<notin> ids \<or> ev_event_id item \<in> ev_event_id ` set result
         then result else result @ [item]) acc items"
  shows "sorted (map ev_event_id r) \<and> distinct (map ev_event_id r) \<and>
    ev_event_id ` set r = ev_event_id ` set acc \<union> (ev_event_id ` set items \<inter> ids) \<and>
    set r \<subseteq> set acc \<union> set items"
  using assms(1-3) unfolding r_def
proof (induction items arbitrary: acc)
  case (Cons x xs)
  let ?acc = "if ev_event_id x \<notin> ids \<or> ev_event_id x \<in> ev_event_id ` set acc then acc else acc @ [x]"
  have "sorted (map ev_event_id (?acc @ xs))" "distinct (map ev_event_id ?acc)"
    "ev_event_id ` set ?acc \<subseteq> ids"
    using Cons.prems by (auto simp: sorted_append)
  from Cons.IH [OF this] show ?case by (auto split: if_splits)
qed (simp add: sorted_append)

lemma valid_sorted_unique_facts:
  "sorted (map ev_event_id (valid_sorted_unique evs ids))"
  "distinct (map ev_event_id (valid_sorted_unique evs ids))"
  "ev_event_id ` set (valid_sorted_unique evs ids) = ev_event_id ` set evs \<inter> ids"
  "set (valid_sorted_unique evs ids) \<subseteq> set evs"
  using valid_fold_facts [of "[]" "sort_key ev_event_id evs" ids]
  by (simp_all add: valid_sorted_unique_def)

lemma fill_evidence_facts:
  "length sel \<le> 10 \<Longrightarrow> distinct (map ev_event_id sel) \<Longrightarrow>
   length (fill_evidence sel pool) \<le> 10 \<and> distinct (map ev_event_id (fill_evidence sel pool)) \<and>
   set sel \<subseteq> set (fill_evidence sel pool) \<and> set (fill_evidence sel pool) \<subseteq> set sel \<union> set pool"
proof (induction pool arbitrary: sel)
  case (Cons x xs)
  let ?sel = "fill_step sel x"
  have "length ?sel \<le> 10" "distinct (map ev_event_id ?sel)" "set sel \<subseteq> set ?sel"
    "set ?sel \<subseteq> set sel \<union> {x}"
    using Cons.prems by (auto simp: MAX_INCIDENT_EVIDENCE_def fill_step_def)
  with Cons.IH [of ?sel] show ?case by (auto simp: fill_evidence_def)
qed (simp add: fill_evidence_def)

lemma reserve_slot_facts:
  "reserve_slot [] (x # xs) = [x]" "reserve_slot sel [] = sel"
  "length sel \<le> 1 \<Longrightarrow> distinct (map ev_event_id sel) \<Longrightarrow>
     length (reserve_slot sel vs) \<le> 2 \<and> distinct (map ev_event_id (reserve_slot sel vs)) \<and>
     set sel \<subseteq> set (reserve_slot sel vs) \<and> set (reserve_slot sel vs) \<subseteq> set sel \<union> set vs \<and>
     (vs \<noteq> [] \<longrightarrow> ev_event_id (hd vs) \<in> ev_event_id ` set (reserve_slot sel vs))"
  by (auto simp: reserve_slot_def MAX_INCIDENT_EVIDENCE_def split: list.splits)

lemma hd_valid_least:
  assumes "valid_sorted_unique evs ids \<noteq> []" and "ev \<in> set evs" and "ev_event_id ev \<in> ids"
  shows "ev_event_id (hd (valid_sorted_unique evs ids)) \<le> ev_event_id ev"
proof -
  let ?v = "valid_sorted_unique evs ids"
  have "ev_event_id ev \<in> ev_event_id ` set ?v" using assms(2,3) valid_sorted_unique_facts(3) by blast
  then have "ev_event_id ev \<in> set (map ev_event_id ?v)" by simp
  moreover have "sorted (map ev_event_id ?v)" by (rule valid_sorted_unique_facts(1))
  ultimately show ?thesis using assms(1) by (cases ?v) auto
qed

lemma merge_evidence_fairly_facts:
  fixes can inc :: "DetectionEvidence list" and ids :: "string set"
  defines "r \<equiv> merge_evidence_fairly can inc ids"
  shows "length r \<le> 10" and "distinct (map ev_event_id r)" and "sorted (map ev_event_id r)"
    and "ev_event_id ` set r \<subseteq> ids" and "set r \<subseteq> set can \<union> set inc"
    and "valid_sorted_unique can ids \<noteq> [] \<Longrightarrow>
      ev_event_id (hd (valid_sorted_unique can ids)) \<in> ev_event_id ` set r"
    and "valid_sorted_unique inc ids \<noteq> [] \<Longrightarrow>
      ev_event_id (hd (valid_sorted_unique inc ids)) \<in> ev_event_id ` set r"
proof -
  let ?cv = "valid_sorted_unique can ids" and ?iv = "valid_sorted_unique inc ids"
  let ?s1 = "reserve_slot [] ?cv"
  let ?s2 = "reserve_slot ?s1 ?iv"
  let ?pool = "sort_key ev_event_id (map snd (dict_of ev_event_id (?cv @ ?iv)))"
  let ?f = "fill_evidence ?s2 ?pool"
  have s1: "length ?s1 \<le> 1" "distinct (map ev_event_id ?s1)" "set ?s1 \<subseteq> set ?cv"
    "?cv \<noteq> [] \<longrightarrow> ev_event_id (hd ?cv) \<in> ev_event_id ` set ?s1"
    by (cases ?cv; simp add: reserve_slot_facts)+
  have s2: "length ?s2 \<le> 2" "distinct (map ev_event_id ?s2)" "set ?s1 \<subseteq> set ?s2"
    "set ?s2 \<subseteq> set ?s1 \<union> set ?iv" "?iv \<noteq> [] \<longrightarrow> ev_event_id (hd ?iv) \<in> ev_event_id ` set ?s2"
    using reserve_slot_facts(3) [OF s1(1,2), of ?iv] by auto
  have f: "length ?f \<le> 10" "distinct (map ev_event_id ?f)" "set ?s2 \<subseteq> set ?f"
    "set ?f \<subseteq> set ?s2 \<union> set ?pool"
    using fill_evidence_facts [of ?s2 ?pool] s2(1,2) by auto
  have r: "r = sort_key ev_event_id ?f"
    using f(1) by (simp add: r_def merge_evidence_fairly_def Let_def MAX_INCIDENT_EVIDENCE_def)
  have pool: "set ?pool \<subseteq> set ?cv \<union> set ?iv"
  proof
    fix x assume "x \<in> set ?pool"
    then obtain k where "(k, x) \<in> set (dict_of ev_event_id (?cv @ ?iv))" by auto
    then show "x \<in> set ?cv \<union> set ?iv" using dict_of_member by fastforce
  qed
  show "length r \<le> 10" "sorted (map ev_event_id r)" using f(1) by (simp_all add: r)
  show "distinct (map ev_event_id r)"
    using f(2) by (metis mset_map mset_eq_imp_distinct_iff mset_sort r)
  have setr: "set r = set ?f" by (simp add: r)
  have mem: "set r \<subseteq> set ?cv \<union> set ?iv" unfolding setr using f(4) s2(4) s1(3) pool by blast
  then show "set r \<subseteq> set can \<union> set inc" using valid_sorted_unique_facts(4) by blast
  show "ev_event_id ` set r \<subseteq> ids" using mem valid_sorted_unique_facts(3) by blast
  show "?cv \<noteq> [] \<Longrightarrow> ev_event_id (hd ?cv) \<in> ev_event_id ` set r"
    unfolding setr using s1(4) s2(3) f(3) by blast
  show "?iv \<noteq> [] \<Longrightarrow> ev_event_id (hd ?iv) \<in> ev_event_id ` set r"
    unfolding setr using s2(5) f(3) by blast
qed

text \<open>Merged evidence is bounded, quotes each merged event once, in order, and starves
  neither side: the earliest usable item of each side keeps its place, however many items the
  other side has.\<close>

theorem evidence_merge_fair:
  "length (merge_evidence_fairly can inc ids) \<le> 10
   \<and> canonical (map ev_event_id (merge_evidence_fairly can inc ids))
   \<and> ev_event_id ` set (merge_evidence_fairly can inc ids) \<subseteq> ids
   \<and> (\<forall>evs \<in> {can, inc}. (\<exists>ev \<in> set evs. ev_event_id ev \<in> ids) \<longrightarrow>
        Min (ev_event_id ` {ev \<in> set evs. ev_event_id ev \<in> ids})
          \<in> ev_event_id ` set (merge_evidence_fairly can inc ids))"
proof -
  have least: "Min (ev_event_id ` {ev \<in> set evs. ev_event_id ev \<in> ids})
      = ev_event_id (hd (valid_sorted_unique evs ids)) \<and> valid_sorted_unique evs ids \<noteq> []"
    if "\<exists>ev \<in> set evs. ev_event_id ev \<in> ids" for evs
  proof -
    have ne: "valid_sorted_unique evs ids \<noteq> []"
      using that valid_sorted_unique_facts(3) [of evs ids] by fastforce
    then have "hd (valid_sorted_unique evs ids) \<in> set (valid_sorted_unique evs ids)" by simp
    then have "ev_event_id (hd (valid_sorted_unique evs ids)) \<in> ev_event_id ` set evs \<inter> ids"
      unfolding valid_sorted_unique_facts(3) [symmetric] by (rule imageI)
    then have "ev_event_id (hd (valid_sorted_unique evs ids))
        \<in> ev_event_id ` {ev \<in> set evs. ev_event_id ev \<in> ids}" by auto
    then have "Min (ev_event_id ` {ev \<in> set evs. ev_event_id ev \<in> ids})
        = ev_event_id (hd (valid_sorted_unique evs ids))"
    proof (intro Min_eqI)
      fix y assume "y \<in> ev_event_id ` {ev \<in> set evs. ev_event_id ev \<in> ids}"
      then show "ev_event_id (hd (valid_sorted_unique evs ids)) \<le> y"
        using hd_valid_least [OF ne] by blast
    qed simp_all
    with ne show ?thesis by simp
  qed
  let ?r = "merge_evidence_fairly can inc ids"
  note facts = merge_evidence_fairly_facts [where can = can and inc = inc and ids = ids]
  have "canonical (map ev_event_id ?r)" using facts(2,3) by (simp add: canonical_def)
  moreover have "Min (ev_event_id ` {ev \<in> set evs. ev_event_id ev \<in> ids}) \<in> ev_event_id ` set ?r"
    if "evs \<in> {can, inc}" and "\<exists>ev \<in> set evs. ev_event_id ev \<in> ids" for evs
  proof -
    have "evs = can \<or> evs = inc" using that(1) by simp
    moreover note least [OF that(2)]
    ultimately show ?thesis using facts(6,7) by metis
  qed
  ultimately show ?thesis using facts(1,4) by blast
qed

definition quoted :: "string \<Rightarrow> DetectionEvidence" where
  "quoted eid = \<lparr>ev_event_id = eid, ev_quote = [], ev_reason = [], ev_source = [],
     ev_original_fields = [], ev_correlation_context = []\<rparr>"

definition early_evidence :: "DetectionEvidence list" where
  "early_evidence = map (\<lambda>n. quoted (CHR ''A'' # str_of_nat n)) [0..<12]"

theorem evidence_merge_fair_witness:
  "''Z'' \<in> ev_event_id ` set (merge_evidence_fairly early_evidence [quoted ''Z'']
      (insert ''Z'' (ev_event_id ` set early_evidence)))
   \<and> length (merge_evidence_fairly early_evidence [quoted ''Z'']
      (insert ''Z'' (ev_event_id ` set early_evidence))) \<le> 10"
proof -
  let ?ids = "insert ''Z'' (ev_event_id ` set early_evidence)"
  have "{ev \<in> set [quoted ''Z'']. ev_event_id ev \<in> ?ids} = {quoted ''Z''}"
    by (auto simp: quoted_def)
  then have "Min (ev_event_id ` {ev \<in> set [quoted ''Z'']. ev_event_id ev \<in> ?ids}) = ''Z''"
    by (simp add: quoted_def)
  moreover have "\<exists>ev \<in> set [quoted ''Z'']. ev_event_id ev \<in> ?ids" by (simp add: quoted_def)
  ultimately show ?thesis
    using evidence_merge_fair [of early_evidence "[quoted ''Z'']" ?ids] by auto
qed

section \<open>Merging\<close>

lemma select_anchor_facts:
  assumes "select_anchor canon incoming (Some ss) = Some a"
  shows "a \<in> set ss" and "s_signal_id a \<in> set (i_signal_ids canon) \<union> set (i_signal_ids incoming)"
    and "\<forall>sid \<in> set (i_signal_ids canon) \<union> set (i_signal_ids incoming).
      \<exists>s \<in> set ss. s_signal_id s = sid \<and> signal_precedence_key a \<le> signal_precedence_key s"
proof -
  let ?ids = "sort_uniq (i_signal_ids canon @ i_signal_ids incoming)"
  let ?d = "dict_of s_signal_id ss"
  let ?cluster = "map (\<lambda>sid. the (map_of ?d sid)) ?ids"
  have ne: "?cluster \<noteq> []" and all: "\<forall>sid \<in> set ?ids. map_of ?d sid \<noteq> None"
    and a: "a = arg_min_list signal_precedence_key ?cluster"
    using assms by (auto simp: select_anchor_def Let_def split: if_splits)
  have mem: "the (map_of ?d sid) \<in> set ss \<and> s_signal_id (the (map_of ?d sid)) = sid"
    if "sid \<in> set ?ids" for sid
  proof -
    have "map_of ?d sid \<noteq> None" using all that by (rule bspec)
    then obtain v where "map_of ?d sid = Some v" by (rule not_None_eq [THEN iffD1, THEN exE])
    with map_of_dict_of_SomeD [OF this] show ?thesis by simp
  qed
  obtain sid where sid: "sid \<in> set ?ids" "a = the (map_of ?d sid)"
    using arg_min_list_in [OF ne, of signal_precedence_key] unfolding a by auto
  show "a \<in> set ss" "s_signal_id a \<in> set (i_signal_ids canon) \<union> set (i_signal_ids incoming)"
    using mem [OF sid(1)] sid by simp_all
  show "\<forall>sid \<in> set (i_signal_ids canon) \<union> set (i_signal_ids incoming).
      \<exists>s \<in> set ss. s_signal_id s = sid \<and> signal_precedence_key a \<le> signal_precedence_key s"
  proof
    fix x assume "x \<in> set (i_signal_ids canon) \<union> set (i_signal_ids incoming)"
    then have x: "x \<in> set ?ids" by simp
    then have "the (map_of ?d x) \<in> set ?cluster" by simp
    then have "signal_precedence_key a \<le> signal_precedence_key (the (map_of ?d x))"
      unfolding a by (rule arg_min_list_le)
    with mem [OF x] show "\<exists>s \<in> set ss. s_signal_id s = x \<and>
        signal_precedence_key a \<le> signal_precedence_key s" by blast
  qed
qed

lemma select_anchor_needs_signals: "select_anchor canon incoming avail = Some a \<Longrightarrow> \<exists>ss. avail = Some ss"
  by (cases avail) (auto simp: select_anchor_def Let_def split: if_splits)

text \<open>The bundle that is handed to validation, by its fields.\<close>

lemma merge_bundles_fields:
  assumes "merge_incident_bundles canon incoming avail n evs = Inr out"
  defines "i \<equiv> mo_incident out"
  shows "i_incident_id i = i_incident_id canon" and "i_merge_key i = i_merge_key canon"
    and "set (i_signal_ids i) = set (i_signal_ids canon) \<union> set (i_signal_ids incoming)"
    and "set (i_event_ids i) = set (i_event_ids canon) \<union> set (i_event_ids incoming)"
    and "set (i_target_entities i) = set (i_target_entities canon) \<union> set (i_target_entities incoming)"
    and "i_first_seen i = min (i_first_seen canon) (i_first_seen incoming)"
    and "i_last_seen i = max (i_last_seen canon) (i_last_seen incoming)"
    and "i_evidence i = merge_evidence_fairly (i_evidence canon) (i_evidence incoming)
      (set (i_event_ids canon) \<union> set (i_event_ids incoming))"
    and "wf_incident i"
    and "select_anchor canon incoming avail = None \<Longrightarrow>
      i_incident_type i = i_incident_type canon \<and> i_incident_family i = i_incident_family canon \<and>
      i_title i = i_title canon \<and> i_primary_entity i = i_primary_entity canon \<and>
      i_severity i = i_severity canon \<and> i_confidence i = i_confidence canon \<and>
      \<not> mo_identity_promoted out \<and> \<not> mo_scoring_recalculated out"
    and "select_anchor canon incoming avail = Some a \<Longrightarrow>
      i_incident_type i = s_signal_type a \<and> mo_primary_signal_id out = s_signal_id a"
proof -
  obtain raw where raw: "validate_incident raw = Inr i"
    "i_incident_id raw = i_incident_id canon" "i_merge_key raw = i_merge_key canon"
    "i_signal_ids raw = sort_uniq (i_signal_ids canon @ i_signal_ids incoming)"
    "i_event_ids raw = sort_uniq (i_event_ids canon @ i_event_ids incoming)"
    "i_target_entities raw = sort_uniq (i_target_entities canon @ i_target_entities incoming)"
    "i_first_seen raw = min (i_first_seen canon) (i_first_seen incoming)"
    "i_last_seen raw = max (i_last_seen canon) (i_last_seen incoming)"
    "i_evidence raw = merge_evidence_fairly (i_evidence canon) (i_evidence incoming)
      (set (i_event_ids canon) \<union> set (i_event_ids incoming))"
    "raw = merged_bundle (select_anchor canon incoming avail) canon incoming avail n evs"
    "mo_identity_promoted out = identity_promoted (select_anchor canon incoming avail) canon incoming"
    "select_anchor canon incoming avail = None \<longrightarrow> \<not> mo_scoring_recalculated out"
    "mo_primary_signal_id out = fst (merge_identity_fields (select_anchor canon incoming avail) canon incoming)"
    using assms(1) unfolding i_def
    by (auto simp: merge_incident_bundles_def Let_def bind_err_Inr merged_bundle_def merge_facts_def
        split: prod.splits)
  have none: "select_anchor canon incoming avail = None \<longrightarrow>
      i_incident_type raw = i_incident_type canon \<and> i_incident_family raw = i_incident_family canon \<and>
      i_title raw = i_title canon \<and> i_primary_entity raw = i_primary_entity canon \<and>
      i_severity raw = i_severity canon \<and> i_confidence raw = i_confidence canon \<and>
      \<not> mo_identity_promoted out \<and> \<not> mo_scoring_recalculated out"
    using raw(11,12) by (simp add: raw(10) merged_bundle_def merge_identity_fields_def merge_facts_def
        identity_promoted_def Let_def)
  have some: "select_anchor canon incoming avail = Some a \<longrightarrow>
      i_incident_type raw = s_signal_type a \<and> mo_primary_signal_id out = s_signal_id a"
    using raw(13) by (simp add: raw(10) merged_bundle_def merge_identity_fields_def Let_def)
  have keep: "i_incident_id i = i_incident_id raw" "i_merge_key i = i_merge_key raw"
    "set (i_signal_ids i) = set (i_signal_ids raw)" "set (i_event_ids i) = set (i_event_ids raw)"
    "set (i_target_entities i) = set (i_target_entities raw)" "i_first_seen i = i_first_seen raw"
    "i_last_seen i = i_last_seen raw" "i_evidence i = i_evidence raw"
    "i_incident_type i = i_incident_type raw" "i_incident_family i = i_incident_family raw"
    "i_title i = i_title raw" "i_primary_entity i = i_primary_entity raw"
    "i_severity i = i_severity raw" "i_confidence i = i_confidence raw"
    using raw(1) by (auto simp: validate_incident_def split: if_splits)
  show "wf_incident i" by (rule validate_incident_wf [OF raw(1)])
  show "i_incident_id i = i_incident_id canon" "i_merge_key i = i_merge_key canon"
    "set (i_signal_ids i) = set (i_signal_ids canon) \<union> set (i_signal_ids incoming)"
    "set (i_event_ids i) = set (i_event_ids canon) \<union> set (i_event_ids incoming)"
    "set (i_target_entities i) = set (i_target_entities canon) \<union> set (i_target_entities incoming)"
    "i_first_seen i = min (i_first_seen canon) (i_first_seen incoming)"
    "i_last_seen i = max (i_last_seen canon) (i_last_seen incoming)"
    "i_evidence i = merge_evidence_fairly (i_evidence canon) (i_evidence incoming)
      (set (i_event_ids canon) \<union> set (i_event_ids incoming))"
    unfolding keep raw(2-9) by simp_all
  show "select_anchor canon incoming avail = None \<Longrightarrow>
      i_incident_type i = i_incident_type canon \<and> i_incident_family i = i_incident_family canon \<and>
      i_title i = i_title canon \<and> i_primary_entity i = i_primary_entity canon \<and>
      i_severity i = i_severity canon \<and> i_confidence i = i_confidence canon \<and>
      \<not> mo_identity_promoted out \<and> \<not> mo_scoring_recalculated out"
    unfolding keep using none by blast
  show "select_anchor canon incoming avail = Some a \<Longrightarrow>
      i_incident_type i = s_signal_type a \<and> mo_primary_signal_id out = s_signal_id a"
    unfolding keep using some by blast
qed

lemma merge_bundles_ok:
  assumes "wf_incident canon" and "wf_incident incoming"
    and "\<forall>s \<in> set (case avail of None \<Rightarrow> [] | Some ss \<Rightarrow> ss). wf_signal s"
  shows "\<exists>out. merge_incident_bundles canon incoming avail n evs = Inr out"
proof -
  let ?ss = "case avail of None \<Rightarrow> [] | Some ss \<Rightarrow> ss"
  have conf: "0 \<le> calculate_incident_confidence (filter p ?ss)
      \<and> calculate_incident_confidence (filter p ?ss) \<le> 1" for p
    using assms(3) by (intro incident_confidence_bounds) (auto simp: wf_signal_def)
  have times: "min (i_first_seen canon) (i_first_seen incoming)
      \<le> max (i_last_seen canon) (i_last_seen incoming)"
    using assms(1) by (auto simp: wf_incident_def min_le_iff_disj le_max_iff_disj)
  have ctx: "(set (i_event_ids canon) \<union> set (i_event_ids incoming)) \<inter> set (remaining_context n
      (sort_uniq (i_event_ids canon @ i_event_ids incoming)) xs) = {}" for xs
    using remaining_context_facts(1) [of n "sort_uniq (i_event_ids canon @ i_event_ids incoming)" xs]
    by auto
  obtain pid ty fam ttl ent where
    ident: "merge_identity_fields (select_anchor canon incoming avail) canon incoming = (pid, ty, fam, ttl, ent)"
    by (metis surj_pair)
  have "\<exists>m. validate_incident (merged_bundle (select_anchor canon incoming avail) canon incoming avail n evs)
      = Inr m"
    unfolding merged_bundle_def Let_def ident prod.case merge_cluster_def
    using conf times ctx assms(1) incident_severity_in
    by (auto simp: validate_incident_def wf_incident_def split: option.splits)
  then show ?thesis unfolding merge_incident_bundles_def Let_def ident prod.case by auto
qed


definition stored_incident :: IncidentBundle where
  "stored_incident = \<lparr>i_incident_id = ''INC-1'', i_incident_type = ''vertical_scan'',
     i_incident_family = ''network_scanning'', i_title = ''Detected'', i_severity = ''low'',
     i_confidence = 3/5, i_first_seen = Instant 0, i_last_seen = Instant 5,
     i_primary_entity = ''203.0.113.7'', i_target_entities = [''10.0.0.1''],
     i_signal_ids = [''SIG-1''], i_event_ids = [''E1''], i_context_event_ids = [''E2''],
     i_evidence = [], i_metrics = [(''primary_signal_id'', PStr ''SIG-1'')],
     i_mitre_techniques = [''T1046''], i_merge_key = ''v2:k'', i_review_reason = None,
     i_absorbed_signal_ids = []\<rparr>"

lemma stored_incident_wf: "wf_incident stored_incident"
  by (simp add: wf_incident_def stored_incident_def SEVERITIES_def canonical_def less_eq_datetime_def)

definition incoming_incident :: IncidentBundle where
  "incoming_incident = stored_incident\<lparr>i_incident_id := ''INC-2'', i_signal_ids := [''SIG-2''],
     i_event_ids := [''E2''], i_target_entities := [''10.0.0.2''], i_context_event_ids := []\<rparr>"

lemma incoming_incident_wf: "wf_incident incoming_incident"
  by (simp add: wf_incident_def incoming_incident_def stored_incident_def SEVERITIES_def
      canonical_def less_eq_datetime_def)


end
