(* ===== verification/Addresses.thy ===== *)
theory Addresses
  imports Exposure IpAddress
begin

text \<open>
  The address predicates of the detectors: \<open>parse_ip_address\<close>, \<open>is_private_unicast\<close> and
  \<open>destination_subnet\<close> of \<open>scan_helpers.py\<close>, the public and private predicates and the
  network direction of \<open>exposure_helpers.py\<close>, and \<open>derive_flow_direction\<close> of
  \<open>triage/network_context.py\<close>.
\<close>

definition parse_ip_address :: "string option \<Rightarrow> ip_address option" where
  "parse_ip_address value = (case truthy_value value of None \<Rightarrow> None | Some s \<Rightarrow> parse_ip s)"

definition holds_address :: "(ip_address \<Rightarrow> bool) \<Rightarrow> string option \<Rightarrow> bool" where
  "holds_address p value = (case parse_ip_address value of None \<Rightarrow> False | Some a \<Rightarrow> p a)"

definition is_private_unicast :: "string option \<Rightarrow> bool" where
  "is_private_unicast value = holds_address (\<lambda>a. is_private a \<and> \<not> is_loopback a \<and> \<not> is_multicast a \<and>
     \<not> is_unspecified a \<and> \<not> is_link_local a) value"

text \<open>The network of the address with the prefix of its version; a scope identifier survives only
  when the address has no host bits.\<close>

definition destination_subnet :: "string option \<Rightarrow> nat \<Rightarrow> nat \<Rightarrow> string option" where
  "destination_subnet v ipv4_prefix ipv6_prefix =
     (case parse_ip_address v of
        None \<Rightarrow> None
      | Some (V4 n) \<Rightarrow> if ipv4_prefix > 32 then None
          else Some (ip_text (V4 (n div 2 ^ (32 - ipv4_prefix) * 2 ^ (32 - ipv4_prefix))) @ ''/'' @
                 str_of_nat ipv4_prefix)
      | Some (V6 n scope) \<Rightarrow> if ipv6_prefix > 128 then None
          else (let m = n div 2 ^ (128 - ipv6_prefix) * 2 ^ (128 - ipv6_prefix)
            in Some (ip_text (V6 m (if m = n then scope else None)) @ ''/'' @ str_of_nat ipv6_prefix)))"

lemma subnet_examples:
  "destination_subnet (Some ''10.1.2.3'') 24 64 = Some ''10.1.2.0/24''"
  "destination_subnet (Some ''2001:db8:0:1:2:3:4:5'') 24 64 = Some ''2001:db8:0:1::/64''"
  "destination_subnet (Some ''::1'') 24 64 = Some ''::/64''"
  "destination_subnet (Some ''host'') 24 64 = None"
  by code_simp+

section \<open>Exposure predicates\<close>

definition is_usable_ip :: "string option \<Rightarrow> bool" where
  "is_usable_ip value = holds_address (\<lambda>a. \<not> is_loopback a \<and> \<not> is_multicast a \<and>
     \<not> is_unspecified a \<and> \<not> is_link_local a) value"

definition is_public_source :: "canonical_event \<Rightarrow> bool" where
  "is_public_source event = (is_usable_ip (e_src_ip event) \<and> holds_address is_global (e_src_ip event))"

definition is_private_source :: "canonical_event \<Rightarrow> bool" where
  "is_private_source event = (is_usable_ip (e_src_ip event) \<and> holds_address is_private (e_src_ip event))"

definition is_private_effective_destination :: "canonical_event \<Rightarrow> bool" where
  "is_private_effective_destination event =
     (let value = effective_destination_ip event in is_usable_ip value \<and> holds_address is_private value)"

definition has_private_destination_translation :: "canonical_event \<Rightarrow> bool" where
  "has_private_destination_translation event =
     (has_destination_translation event \<and> is_usable_ip (e_translated_dst_ip event) \<and>
      holds_address is_private (e_translated_dst_ip event))"

definition has_public_to_private_destination_translation :: "canonical_event \<Rightarrow> bool" where
  "has_public_to_private_destination_translation event =
     (is_usable_ip (e_dst_ip event) \<and> holds_address is_global (e_dst_ip event) \<and>
      has_private_destination_translation event)"

definition internal_traffic :: "canonical_event \<Rightarrow> bool" where
  "internal_traffic event = (is_private_source event \<and> is_private_effective_destination event)"

definition has_external_inbound_evidence :: "canonical_event \<Rightarrow> bool" where
  "has_external_inbound_evidence event =
     (\<not> internal_traffic event \<and>
      (is_explicit_wan_zone (e_inbound_zone event) \<or>
       (is_public_source event \<and> is_private_effective_destination event) \<or>
       has_public_to_private_destination_translation event))"

definition classify_network_direction :: "canonical_event \<Rightarrow> string" where
  "classify_network_direction event =
     (let inbound_wan = is_explicit_wan_zone (e_inbound_zone event)
      in if internal_traffic event then ''private_internal''
         else if inbound_wan \<and> is_explicit_lan_zone (e_outbound_zone event) then ''wan_to_lan''
         else if inbound_wan \<and> is_explicit_dmz_zone (e_outbound_zone event) then ''wan_to_dmz''
         else if inbound_wan then ''external_inbound''
         else if has_public_to_private_destination_translation event then ''dnat_inbound''
         else if is_public_source event \<and> is_private_effective_destination event then ''public_to_private''
         else ''unknown'')"

definition is_internal_zone :: "string option \<Rightarrow> bool" where
  "is_internal_zone zone = (is_explicit_lan_zone zone \<or> is_explicit_dmz_zone zone)"

definition derive_flow_direction :: "canonical_event \<Rightarrow> string" where
  "derive_flow_direction event =
     (let inbound_is_wan = is_explicit_wan_zone (e_inbound_zone event);
          outbound_is_wan = is_explicit_wan_zone (e_outbound_zone event);
          destination = effective_destination_ip event;
          source_is_private = is_private_unicast (e_src_ip event);
          destination_is_private = is_private_unicast destination
      in if inbound_is_wan \<and> is_internal_zone (e_outbound_zone event) then ''inbound''
         else if outbound_is_wan \<and> is_internal_zone (e_inbound_zone event) then ''outbound''
         else if inbound_is_wan then ''inbound''
         else if outbound_is_wan then ''outbound''
         else if parse_ip_address (e_src_ip event) = None \<or> parse_ip_address destination = None then ''unknown''
         else if \<not> source_is_private \<and> destination_is_private then ''inbound''
         else if source_is_private \<and> \<not> destination_is_private then ''outbound''
         else if source_is_private \<and> destination_is_private then ''lateral''
         else ''unknown'')"

definition address_text :: "string option \<Rightarrow> string" where
  "address_text v = (case parse_ip_address v of None \<Rightarrow> [] | Some a \<Rightarrow> ip_text a)"

definition target_addresses :: "canonical_event list \<Rightarrow> string list" where
  "target_addresses events = somes (\<lambda>e. map_option ip_text (parse_ip_address (e_dst_ip e))) events"

section \<open>Facts\<close>

lemma holds_address_iff: "holds_address p v \<longleftrightarrow> (\<exists>a. parse_ip_address v = Some a \<and> p a)"
  by (auto simp: holds_address_def split: option.splits)

lemma parse_ip_address_Some: "parse_ip_address v = Some a \<longleftrightarrow> (\<exists>s. v = Some s \<and> s \<noteq> [] \<and> parse_ip s = Some a)"
  by (auto simp: parse_ip_address_def truthy_value_def truthy_def split: option.splits if_splits)

lemma parsed_truthy: "parse_ip_address v \<noteq> None \<Longrightarrow> truthy v"
  by (auto simp: parse_ip_address_Some)

lemma public_source_not_private: "is_public_source e \<Longrightarrow> \<not> is_private_source e"
  by (auto simp: is_public_source_def is_private_source_def holds_address_iff private_not_global)

text \<open>Inbound evidence has a direction, and traffic between private addresses has none.\<close>

lemma external_inbound_direction:
  "has_external_inbound_evidence e \<longleftrightarrow>
   classify_network_direction e \<noteq> ''private_internal'' \<and> classify_network_direction e \<noteq> ''unknown''"
  by (auto simp: has_external_inbound_evidence_def classify_network_direction_def Let_def)

text \<open>The text of a parsed address is never blank.\<close>

lemma strip_visible: "c \<in> set s \<Longrightarrow> \<not> is_space c \<Longrightarrow> py_strip s \<noteq> []"
  by (auto simp: py_strip_def dropWhile_eq_Nil_conv dest: set_dropWhileD)
     (metis Un_iff dropWhile_eq_Nil_conv set_append set_dropWhileD takeWhile_dropWhile_id set_takeWhileD)

lemma join_holds_separator: "2 \<le> length xs \<Longrightarrow> set sep \<subseteq> set (py_join sep xs)"
  by (induction sep xs rule: py_join.induct) auto

lemma render_ipv6_colon: "CHR '':'' \<in> set (render_ipv6 n)"
proof -
  define hextets where "hextets = map (\<lambda>k. n div 65536 ^ k mod 65536) [7, 6, 5, 4, 3, 2, 1, 0::nat]"
  obtain start len where run: "longest_zero_run hextets = (start, len)" by fastforce
  define texts where "texts = map lower_hex hextets"
  define tail where "tail = drop (start + len) texts"
  define body where "body = take start texts @ [[]] @ (if tail = [] then [[]] else tail)"
  define parts where "parts = (if len \<le> 1 then texts else if start = 0 then [] # body else body)"
  have "2 \<le> length texts" by (simp add: texts_def hextets_def)
  moreover have "2 \<le> length body" by (cases tail) (simp_all add: body_def)
  ultimately have "2 \<le> length parts" by (simp add: parts_def)
  moreover have "render_ipv6 n = py_join '':'' parts"
    unfolding render_ipv6_def Let_def hextets_def [symmetric] run
    by (simp add: parts_def body_def tail_def texts_def)
  ultimately show ?thesis using join_holds_separator [of parts "'':''"] by simp
qed

lemma ip_text_visible: "py_strip (ip_text a) \<noteq> []"
proof (cases a)
  case (V4 n)
  have "CHR ''.'' \<in> set (ip_text a)"
    using join_holds_separator [of "map (\<lambda>k. str_of_int (n div 256 ^ k mod 256)) [3, 2, 1, 0]" "''.''"]
    by (simp add: V4 render_ipv4_def)
  then show ?thesis by (rule strip_visible) (simp add: is_space_def)
next
  case (V6 n scope)
  have "CHR '':'' \<in> set (ip_text a)" using render_ipv6_colon by (simp add: V6)
  then show ?thesis by (rule strip_visible) (simp add: is_space_def)
qed

lemma address_text_visible: "parse_ip_address v \<noteq> None \<Longrightarrow> py_strip (address_text v) \<noteq> []"
  by (auto simp: address_text_def ip_text_visible)

end
