(* ===== verification/Json.thy ===== *)
theory Json
  imports SocPrelude
begin

text \<open>
  \<open>json.dumps(..., sort_keys=True, separators=(",", ":"))\<close> on the values the key texts are
  made of: strings, optional strings, integers and lists. The texts are uniquely readable, so two
  values with one text are equal.
\<close>

definition hex_nibble :: "nat \<Rightarrow> char" where
  "hex_nibble k = (if k < 10 then char_of (48 + k) else char_of (87 + k))"

definition hex4 :: "char \<Rightarrow> string" where
  "hex4 c = (let n = (of_char c :: nat) in ''00'' @ [hex_nibble (n div 16), hex_nibble (n mod 16)])"

definition json_char :: "char \<Rightarrow> string" where
  "json_char c = (let n = (of_char c :: nat) in
     if n = 34 then [CHR 0x5C, CHR 0x22] else if n = 92 then [CHR 0x5C, CHR 0x5C]
     else if 32 \<le> n \<and> n \<le> 126 then [c]
     else if n = 10 then CHR 0x5C # ''n'' else if n = 13 then CHR 0x5C # ''r''
     else if n = 9 then CHR 0x5C # ''t'' else if n = 8 then CHR 0x5C # ''b''
     else if n = 12 then CHR 0x5C # ''f''
     else CHR 0x5C # CHR ''u'' # hex4 c)"

definition json_string :: "string \<Rightarrow> string" where
  "json_string s = [CHR 0x22] @ concat (map json_char s) @ [CHR 0x22]"

definition json_optional :: "string option \<Rightarrow> string" where
  "json_optional v = (case v of None \<Rightarrow> ''null'' | Some s \<Rightarrow> json_string s)"

definition json_list :: "('a \<Rightarrow> string) \<Rightarrow> 'a list \<Rightarrow> string" where
  "json_list f xs = ''['' @ py_join '','' (map f xs) @ '']''"


section \<open>Reading a string back\<close>

definition hex_value :: "char \<Rightarrow> nat" where
  "hex_value c = (let n = of_char c in if n < 58 then n - 48 else n - 87)"

definition simple_escape :: "char \<Rightarrow> char" where
  "simple_escape c =
     (if c = CHR ''n'' then CHR 0x0A else if c = CHR ''r'' then CHR 0x0D
      else if c = CHR ''t'' then CHR 0x09 else if c = CHR ''b'' then CHR 0x08
      else if c = CHR ''f'' then CHR 0x0C else c)"

definition cons_fst :: "char \<Rightarrow> (string \<times> string) option \<Rightarrow> (string \<times> string) option" where
  "cons_fst c = map_option (\<lambda>(s, rest). (c # s, rest))"

fun read_body :: "string \<Rightarrow> (string \<times> string) option" where
  "read_body [] = None"
| "read_body (c # cs) =
     (if c = CHR 0x22 then Some ([], cs)
      else if c \<noteq> CHR 0x5C then cons_fst c (read_body cs)
      else (case cs of
          [] \<Rightarrow> None
        | d # ds \<Rightarrow>
            if d \<noteq> CHR ''u'' then cons_fst (simple_escape d) (read_body ds)
            else (case ds of
                _ # _ # h # l # rest \<Rightarrow> cons_fst (char_of (16 * hex_value h + hex_value l)) (read_body rest)
              | _ \<Rightarrow> None)))"

lemma hex_value_nibble: "k < 16 \<Longrightarrow> hex_value (hex_nibble k) = k"
  by (auto simp: hex_value_def hex_nibble_def Let_def)

lemma hex4_shape: "\<exists>h l. hex4 c = [CHR ''0'', CHR ''0'', h, l] \<and> char_of (16 * hex_value h + hex_value l) = c"
proof -
  let ?n = "of_char c :: nat"
  have "?n < 256" by simp
  then have "?n div 16 < 16" and "?n mod 16 < 16" by (auto simp: less_mult_imp_div_less)
  then have "char_of (16 * hex_value (hex_nibble (?n div 16)) + hex_value (hex_nibble (?n mod 16))) = c"
    by (simp add: hex_value_nibble)
  then show ?thesis by (simp add: hex4_def Let_def)
qed

lemma char_literals:
  "char_of (34::nat) = CHR 0x22" "char_of (92::nat) = CHR 0x5C" "char_of (10::nat) = CHR 0x0A"
  "char_of (13::nat) = CHR 0x0D" "char_of (9::nat) = CHR 0x09" "char_of (8::nat) = CHR 0x08"
  "char_of (12::nat) = CHR 0x0C"
  by code_simp+

lemma read_char: "read_body (json_char c @ rest) = cons_fst c (read_body rest)"
proof -
  let ?n = "of_char c :: nat"
  have c_of: "c = char_of k" if "?n = k" for k using that by (metis char_of_char)
  consider "?n = 34" | "?n = 92" | "?n = 10" | "?n = 13" | "?n = 9" | "?n = 8" | "?n = 12"
    | (plain) "?n \<noteq> 34" "?n \<noteq> 92" "32 \<le> ?n" "?n \<le> 126"
    | (coded) "?n \<noteq> 34" "?n \<noteq> 92" "\<not> (32 \<le> ?n \<and> ?n \<le> 126)" "?n \<notin> {10, 13, 9, 8, 12}"
    by blast
  then show ?thesis
  proof cases
    case plain
    then have "c \<noteq> CHR 0x22" "c \<noteq> CHR 0x5C" by auto
    with plain show ?thesis by (simp add: json_char_def)
  next
    case coded
    obtain h l where "hex4 c = [CHR ''0'', CHR ''0'', h, l]"
      "char_of (16 * hex_value h + hex_value l) = c" using hex4_shape by blast
    moreover have "json_char c = CHR 0x5C # CHR ''u'' # hex4 c"
      using coded by (auto simp: json_char_def Let_def)
    ultimately show ?thesis by simp
  qed (auto simp: json_char_def simple_escape_def char_literals dest!: c_of)
qed

lemma read_body_string: "read_body (concat (map json_char s) @ CHR 0x22 # rest) = Some (s, rest)"
  by (induction s) (simp_all add: read_char cons_fst_def)

section \<open>Unique readability\<close>

text \<open>A text is self-delimiting when what follows it can be told from where it ends; a number is
  so only before a separator.\<close>

definition separator :: "char \<Rightarrow> bool" where
  "separator c = (c = CHR '','' \<or> c = CHR '']'' \<or> c = CHR ''}'')"

definition readable :: "('a \<Rightarrow> string) \<Rightarrow> bool" where
  "readable f = (\<forall>x y r r' d d'. separator d \<longrightarrow> separator d' \<longrightarrow> f x @ d # r = f y @ d' # r' \<longrightarrow>
     x = y \<and> d = d' \<and> r = r')"

lemma readableD:
  "readable f \<Longrightarrow> f x @ d # r = f y @ d' # r' \<Longrightarrow> separator d \<Longrightarrow> separator d' \<Longrightarrow> x = y \<and> d = d' \<and> r = r'"
  unfolding readable_def by blast

lemma json_string_prefix_free: "json_string s @ r = json_string t @ r' \<Longrightarrow> s = t \<and> r = r'"
proof -
  assume "json_string s @ r = json_string t @ r'"
  then have "concat (map json_char s) @ CHR 0x22 # r = concat (map json_char t) @ CHR 0x22 # r'"
    by (simp add: json_string_def)
  then have "read_body (concat (map json_char s) @ CHR 0x22 # r)
      = read_body (concat (map json_char t) @ CHR 0x22 # r')" by simp
  then show ?thesis by (simp add: read_body_string)
qed

lemma readable_string: "readable json_string"
  unfolding readable_def using json_string_prefix_free by blast

lemma json_optional_simps: "json_optional None = ''null''" "json_optional (Some s) = json_string s"
  by (simp_all add: json_optional_def)

lemma null_not_string: "''null'' @ r \<noteq> json_string s @ r'" "json_string s @ r \<noteq> ''null'' @ r'"
  by (simp_all add: json_string_def)

lemma json_optional_prefix_free: "json_optional x @ r = json_optional y @ r' \<Longrightarrow> x = y \<and> r = r'"
proof (induction x)
  case None
  then show ?case by (cases y) (simp_all only: json_optional_simps null_not_string same_append_eq)
next
  case (Some s)
  then show ?case
  proof (cases y)
    case None
    with Some show ?thesis by (simp only: json_optional_simps null_not_string)
  next
    case (Some t)
    then have "json_string s @ r = json_string t @ r'"
      using \<open>json_optional (Some s) @ r = json_optional y @ r'\<close> by (simp only: json_optional_simps)
    with Some show ?thesis using json_string_prefix_free by blast
  qed
qed

lemma readable_optional: "readable json_optional"
  unfolding readable_def using json_optional_prefix_free by blast

lemma digits_of_nat: "\<forall>c \<in> set (str_of_nat n). 48 \<le> (of_char c :: nat) \<and> (of_char c :: nat) \<le> 57"
  by (induction n rule: str_of_nat.induct) (subst str_of_nat.simps, auto)

lemma value_of_nat: "foldl (\<lambda>n c. 10 * n + (of_char c - 48)) 0 (str_of_nat n) = (n :: nat)"
  by (induction n rule: str_of_nat.induct) (subst str_of_nat.simps, auto)

lemma str_of_nat_inj: "str_of_nat m = str_of_nat n \<Longrightarrow> m = n"
  by (metis value_of_nat)

lemma str_of_int_inj: "str_of_int i = str_of_int j \<Longrightarrow> i = j"
proof -
  have minus: "CHR ''-'' # s \<noteq> str_of_nat n" for s n
  proof
    assume "CHR ''-'' # s = str_of_nat n"
    then have "CHR ''-'' \<in> set (str_of_nat n)" by (metis list.set_intros(1))
    with digits_of_nat [of n] show False by auto
  qed
  assume "str_of_int i = str_of_int j"
  then show "i = j"
    using minus minus [symmetric] by (auto simp: str_of_int_def dest!: str_of_nat_inj split: if_splits)
qed

lemma no_separator_int: "\<forall>c \<in> set (str_of_int i). \<not> separator c"
proof -
  have "\<not> separator c" if "48 \<le> (of_char c :: nat) \<and> (of_char c :: nat) \<le> 57" for c
    using that by (auto simp: separator_def)
  moreover have "\<not> separator (CHR ''-'')" by (simp add: separator_def)
  ultimately show ?thesis using digits_of_nat by (auto simp: str_of_int_def)
qed

lemma split_before_separator:
  assumes "xs @ d # r = ys @ d' # r'" and "\<forall>c \<in> set xs. \<not> separator c" and "\<forall>c \<in> set ys. \<not> separator c"
    and "separator d" and "separator d'"
  shows "xs = ys \<and> d = d' \<and> r = r'"
  using assms by (induction xs arbitrary: ys) (auto simp: Cons_eq_append_conv append_eq_Cons_conv)

lemma readable_int: "readable str_of_int"
  unfolding readable_def
proof (intro allI impI)
  fix i j r r' d d'
  assume "separator d" "separator d'" "str_of_int i @ d # r = str_of_int j @ d' # r'"
  with split_before_separator no_separator_int
  have "str_of_int i = str_of_int j \<and> d = d' \<and> r = r'" by blast
  then show "i = j \<and> d = d' \<and> r = r'" using str_of_int_inj by blast
qed

section \<open>Lists\<close>

definition opens :: "('a \<Rightarrow> string) \<Rightarrow> bool" where
  "opens f = (\<forall>x. \<exists>c s. f x = c # s \<and> \<not> separator c)"

lemma opens_string: "opens json_string"
  by (simp add: opens_def json_string_def separator_def)

lemma opens_int: "opens str_of_int"
  unfolding opens_def
proof
  fix i
  have "str_of_int i \<noteq> []" by (simp add: str_of_int_def)
  then show "\<exists>c s. str_of_int i = c # s \<and> \<not> separator c"
    using no_separator_int [of i] by (cases "str_of_int i") auto
qed

fun list_tail :: "('a \<Rightarrow> string) \<Rightarrow> 'a list \<Rightarrow> string \<Rightarrow> string" where
  "list_tail f [] r = CHR '']'' # r"
| "list_tail f (x # xs) r = CHR '','' # f x @ list_tail f xs r"

lemma json_list_Cons: "json_list f (x # xs) @ r = CHR ''['' # f x @ list_tail f xs r"
proof -
  have "py_join '','' (map f (x # xs)) @ CHR '']'' # r = f x @ list_tail f xs r"
    by (induction xs arbitrary: x) auto
  then show ?thesis by (simp add: json_list_def)
qed

lemma json_list_Nil: "json_list f [] @ r = CHR ''['' # CHR '']'' # r"
  by (simp add: json_list_def)

lemma list_tail_opens: "\<exists>d s. list_tail f xs r = d # s \<and> separator d"
  by (cases xs) (auto simp: separator_def)

lemma list_tail_inj:
  assumes "readable f"
  shows "list_tail f xs r = list_tail f ys r' \<Longrightarrow> xs = ys \<and> r = r'"
proof (induction xs arbitrary: ys)
  case Nil
  then show ?case by (cases ys) auto
next
  case (Cons x xs)
  show ?case
  proof (cases ys)
    case Nil
    with Cons.prems show ?thesis by simp
  next
    fix y ys'
    assume ys: "ys = y # ys'"
    obtain d s d' s' where t: "list_tail f xs r = d # s" "separator d"
      "list_tail f ys' r' = d' # s'" "separator d'" using list_tail_opens by meson
    with Cons.prems ys have "f x @ d # s = f y @ d' # s'" by simp
    from readableD [OF assms this t(2,4)] t have "x = y" "list_tail f xs r = list_tail f ys' r'" by auto
    with Cons.IH ys show ?thesis by simp
  qed
qed

lemma json_list_prefix_free:
  assumes "readable f" and "opens f" and "json_list f xs @ r = json_list f ys @ r'"
  shows "xs = ys \<and> r = r'"
proof (cases xs)
  case Nil
  have "f y @ s \<noteq> CHR '']'' # t" for y s t
    using assms(2) unfolding opens_def by (metis append_Cons list.inject separator_def)
  with assms(3) Nil show ?thesis by (cases ys) (simp_all add: json_list_Nil json_list_Cons, metis)
next
  fix x xs'
  assume xs: "xs = x # xs'"
  show ?thesis
  proof (cases ys)
    case Nil
    have "f y @ s \<noteq> CHR '']'' # t" for y s t
      using assms(2) unfolding opens_def by (metis append_Cons list.inject separator_def)
    with assms(3) Nil xs show ?thesis by (simp add: json_list_Nil json_list_Cons)
  next
    fix y ys'
    assume ys: "ys = y # ys'"
    obtain d s d' s' where t: "list_tail f xs' r = d # s" "separator d"
      "list_tail f ys' r' = d' # s'" "separator d'" using list_tail_opens by meson
    with assms(3) xs ys have "f x @ d # s = f y @ d' # s'" by (simp add: json_list_Cons)
    from readableD [OF assms(1) this t(2,4)] t have "x = y" "list_tail f xs' r = list_tail f ys' r'"
      by auto
    with list_tail_inj [OF assms(1)] xs ys show ?thesis by blast
  qed
qed

lemmas json_text_cancel =
  json_optional_prefix_free json_string_prefix_free
  json_list_prefix_free [OF readable_string opens_string]
  json_list_prefix_free [OF readable_int opens_int]

end
