(* ===== verification/StatefulProfile.thy ===== *)
theory StatefulProfile
  imports Signals Addresses Scoring Json
begin

text \<open>
  The cross-job correlation contract (\<open>agent/correlation/stateful.py\<close>): derivation of the
  profile under the three strategies, its validation, the correlation key and the state decision.
\<close>

section \<open>Profiles\<close>

datatype StatefulStrategy = SourceServiceCampaign | SourceTargetSequence | ProtectedServiceExposure

primrec strategy_name :: "StatefulStrategy \<Rightarrow> string" where
  "strategy_name SourceServiceCampaign = ''source_service_campaign''"
| "strategy_name SourceTargetSequence = ''source_target_sequence''"
| "strategy_name ProtectedServiceExposure = ''protected_service_exposure''"

record StatefulCorrelationProfile =
  p_correlation_version :: string
  p_strategy :: StatefulStrategy
  p_actor_entity :: "string option"
  p_protected_entity :: "string option"
  p_protocols :: "string list"
  p_services :: "string list"
  p_destination_ports :: "int list"
  p_target_scopes :: "string list"

definition normalize_entity :: "string option \<Rightarrow> string option" where
  "normalize_entity v = (case v of None \<Rightarrow> None | Some s \<Rightarrow> truthy_value (Some (py_strip s)))"

definition normalize_str_tuple :: "string list \<Rightarrow> string list" where
  "normalize_str_tuple vs =
     sort_uniq (map (\<lambda>i. py_upper (py_strip i)) (filter (\<lambda>i. py_strip i \<noteq> []) vs))"

text \<open>The constructor: field constraints, field validators, then the model validator. A
  \<open>ValueError\<close> is \<open>None\<close>, as every caller treats it.\<close>

definition required_identity :: "StatefulCorrelationProfile \<Rightarrow> bool" where
  "required_identity p =
     ((case p_strategy p of
         ProtectedServiceExposure \<Rightarrow> p_actor_entity p = None \<and> truthy (p_protected_entity p)
       | SourceTargetSequence \<Rightarrow> truthy (p_actor_entity p) \<and> truthy (p_protected_entity p)
       | SourceServiceCampaign \<Rightarrow> truthy (p_actor_entity p)) \<and>
      p_protocols p \<noteq> [] \<and> (p_services p \<noteq> [] \<or> p_destination_ports p \<noteq> []))"

definition at_most :: "nat \<Rightarrow> string option \<Rightarrow> bool" where
  "at_most n v = (case v of None \<Rightarrow> True | Some s \<Rightarrow> length s \<le> n)"

definition validate_profile :: "StatefulCorrelationProfile \<Rightarrow> StatefulCorrelationProfile option" where
  "validate_profile p =
     (if \<not> (p_correlation_version p \<noteq> [] \<and> length (p_correlation_version p) \<le> 16 \<and>
            at_most 128 (p_actor_entity p) \<and> at_most 128 (p_protected_entity p) \<and>
            length (p_protocols p) \<le> 100 \<and> length (p_services p) \<le> 100 \<and>
            length (p_destination_ports p) \<le> 100 \<and> length (p_target_scopes p) \<le> 100)
      then None
      else (let q = p\<lparr>p_actor_entity := normalize_entity (p_actor_entity p),
            p_protected_entity := normalize_entity (p_protected_entity p),
            p_protocols := normalize_str_tuple (p_protocols p),
            p_services := normalize_str_tuple (p_services p),
            p_destination_ports := sort_uniq (p_destination_ports p),
            p_target_scopes := normalize_str_tuple (p_target_scopes p)\<rparr>
        in if required_identity q then Some q else None))"

section \<open>The correlation key\<close>

text \<open>\<open>json.dumps(payload, sort_keys=True, separators=(",", ":"))\<close>.\<close>

definition profile_json :: "StatefulCorrelationProfile \<Rightarrow> string" where
  "profile_json p =
     ''{'' @ py_join '','' (map (\<lambda>(k, v). json_string k @ '':'' @ v)
       [(''actor_entity'', json_optional (p_actor_entity p)),
        (''correlation_version'', json_string (p_correlation_version p)),
        (''destination_ports'', json_list str_of_int (p_destination_ports p)),
        (''protected_entity'', json_optional (p_protected_entity p)),
        (''protocols'', json_list json_string (p_protocols p)),
        (''services'', json_list json_string (p_services p)),
        (''strategy'', json_string (strategy_name (p_strategy p))),
        (''target_scopes'', json_list json_string (p_target_scopes p))]) @ ''}''"

definition compute_correlation_key :: "StatefulCorrelationProfile \<Rightarrow> string" where
  "compute_correlation_key p =
     ''scv'' @ p_correlation_version p @ '':'' @ sha256_hex (profile_json p)"

lemma strategy_name_inj: "strategy_name s = strategy_name t \<Longrightarrow> s = t"
  by (cases s; cases t) simp_all

text \<open>The key text is uniquely readable: field by field, from the front.\<close>

lemma profile_json_inj:
  assumes "profile_json p = profile_json q"
  shows "p = (q :: StatefulCorrelationProfile)"
proof -
  note eq = assms [unfolded profile_json_def list.map prod.case py_join.simps append_assoc same_append_eq]
  note a = json_optional_prefix_free [OF eq]
  note v = json_string_prefix_free [OF a [THEN conjunct2, unfolded same_append_eq]]
  note d = json_list_prefix_free [OF readable_int opens_int v [THEN conjunct2, unfolded same_append_eq]]
  note e = json_optional_prefix_free [OF d [THEN conjunct2, unfolded same_append_eq]]
  note pr = json_list_prefix_free [OF readable_string opens_string e [THEN conjunct2, unfolded same_append_eq]]
  note se = json_list_prefix_free [OF readable_string opens_string pr [THEN conjunct2, unfolded same_append_eq]]
  note st = json_string_prefix_free [OF se [THEN conjunct2, unfolded same_append_eq]]
  note sc = json_list_prefix_free [OF readable_string opens_string st [THEN conjunct2, unfolded same_append_eq]]
  show ?thesis
    using a v d e pr se strategy_name_inj [OF st [THEN conjunct1]] sc
    by (intro StatefulCorrelationProfile.equality) auto
qed

lemma correlation_key_eq_iff:
  "compute_correlation_key p = compute_correlation_key q \<longleftrightarrow>
     p_correlation_version p = p_correlation_version q \<and>
     sha256_hex (profile_json p) = sha256_hex (profile_json q)"
  by (auto simp: compute_correlation_key_def append_eq_append_conv)

text \<open>C26: the correlation key identifies the profile up to a SHA-256 collision: the text that is
  hashed is the same for two profiles only when the profiles are equal in every field, and two keys
  are equal exactly when versions and digests are.\<close>

theorem correlation_key_faithful:
  "(profile_json p = profile_json q \<longleftrightarrow> p = q)
   \<and> (compute_correlation_key p = compute_correlation_key q \<longleftrightarrow>
        p_correlation_version p = p_correlation_version q \<and>
        sha256_hex (profile_json p) = sha256_hex (profile_json q))"
  using profile_json_inj correlation_key_eq_iff by blast

section \<open>Deriving a profile\<close>

definition AMBIGUOUS_SERVICE_BUCKETS :: "string list" where
  "AMBIGUOUS_SERVICE_BUCKETS = [''database'', ''kubernetes'', ''docker'']"

definition SOURCE_SERVICE_BROAD_TYPES :: "string list" where
  "SOURCE_SERVICE_BROAD_TYPES = [''horizontal_scan'', ''low_and_slow_horizontal_scan'',
     ''multi_service_sweep'', ''repeated_blocked_scanner'', ''rdp_probe'', ''ssh_probe'',
     ''smb_probe'', ''vnc_probe'', ''winrm_probe'', ''mssql_probe'', ''oracle_probe'',
     ''mysql_probe'', ''postgresql_probe'', ''redis_probe'', ''elasticsearch_probe'',
     ''mongodb_probe'', ''docker_daemon_probe'', ''kubernetes_api_probe'', ''kubelet_probe'',
     ''telnet_probe'', ''ftp_probe'', ''web_admin_panel_probe'']"

definition SOURCE_SERVICE_NARROW_TYPES :: "string list" where
  "SOURCE_SERVICE_NARROW_TYPES = [''vertical_scan'', ''low_and_slow_vertical_scan'',
     ''internal_lateral_scan'']"

definition SOURCE_SERVICE_SUBNET_TYPES :: "string list" where
  "SOURCE_SERVICE_SUBNET_TYPES = [''subnet_sweep'']"

definition SOURCE_SERVICE_FAMILIES :: "string list" where
  "SOURCE_SERVICE_FAMILIES = [''network_scanning'', ''service_probing'', ''network_anomaly'']"

definition SEQUENCE_INCIDENT_TYPES :: "string list" where
  "SEQUENCE_INCIDENT_TYPES = [''scan_followed_by_allowed_connection'',
     ''blocked_then_allowed_same_service'', ''spi_followed_by_allowed_connection'']"

definition EXPOSURE_FAMILIES :: "string list" where
  "EXPOSURE_FAMILIES = [''firewall_exposure'', ''firewall_policy'']"

definition clean_protocol :: "canonical_event \<Rightarrow> string option" where
  "clean_protocol e = (case truthy_value (e_protocol e) of None \<Rightarrow> None
     | Some p \<Rightarrow> truthy_value (Some (py_upper (py_strip p))))"

definition single_protocol :: "canonical_event list \<Rightarrow> string list" where
  "single_protocol events =
     (case remdups (somes clean_protocol events) of [p] \<Rightarrow> [p] | _ \<Rightarrow> [])"

definition PROBE_SUFFIX :: string where
  "PROBE_SUFFIX = ''_probe''"

definition probe_service_from_incident_type :: "string \<Rightarrow> string option" where
  "probe_service_from_incident_type ty =
     (if suffix PROBE_SUFFIX ty
      then truthy_value (Some (py_strip (take (length ty - length PROBE_SUFFIX) ty))) else None)"

definition specific_service :: "int \<Rightarrow> string option" where
  "specific_service port = (case truthy_value (classify_service (Some port)) of None \<Rightarrow> None
     | Some s \<Rightarrow> if s \<in> set AMBIGUOUS_SERVICE_BUCKETS then None else Some s)"

definition service_identity :: "string \<Rightarrow> int list \<Rightarrow> nat \<Rightarrow> string list \<times> int list" where
  "service_identity incident_type ports max_items =
     (case probe_service_from_incident_type incident_type of
        Some service \<Rightarrow> ([service], [])
      | None \<Rightarrow> (take max_items (sort_uniq (somes specific_service ports)),
          take max_items (sort_uniq (filter (\<lambda>p. specific_service p = None) ports))))"

definition event_destinations :: "canonical_event list \<Rightarrow> string list" where
  "event_destinations events = somes (\<lambda>e. truthy_value (effective_destination_ip e)) events"

definition sole_destination :: "canonical_event list \<Rightarrow> string option" where
  "sole_destination events = (case remdups (event_destinations events) of [d] \<Rightarrow> Some d | _ \<Rightarrow> None)"

definition event_services :: "string \<Rightarrow> canonical_event list \<Rightarrow> nat \<Rightarrow> string list \<times> int list" where
  "event_services ty events max_items =
     service_identity ty (somes effective_destination_port events) max_items"

definition with_identity ::
  "string list \<times> string list \<times> int list \<Rightarrow> (string list \<Rightarrow> string list \<Rightarrow> int list \<Rightarrow> 'a option) \<Rightarrow> 'a option" where
  "with_identity = (\<lambda>(protocols, services, ports) k.
     if protocols = [] then None else if services = [] \<and> ports = [] then None
     else k protocols services ports)"

definition source_service_scopes ::
  "string \<Rightarrow> canonical_event list \<Rightarrow> nat \<Rightarrow> nat \<Rightarrow> nat \<Rightarrow> string list option" where
  "source_service_scopes ty events max_items v4 v6 =
     (if ty \<in> set SOURCE_SERVICE_SUBNET_TYPES
      then (let scopes = take max_items (sort_uniq (somes (\<lambda>e. truthy_value
                (destination_subnet (effective_destination_ip e) v4 v6)) events))
            in if scopes = [] then None else Some scopes)
      else if ty \<in> set SOURCE_SERVICE_NARROW_TYPES
      then (let scopes = take max_items (sort_uniq (event_destinations events))
            in if scopes = [] then None else Some scopes)
      else Some [])"

definition derive_source_service_profile ::
  "IncidentBundle \<Rightarrow> canonical_event list \<Rightarrow> string \<Rightarrow> nat \<Rightarrow> nat \<Rightarrow> nat
     \<Rightarrow> StatefulCorrelationProfile option" where
  "derive_source_service_profile incident incident_events version max_items v4 v6 =
     (if i_incident_family incident \<notin> set SOURCE_SERVICE_FAMILIES then None
      else if i_incident_type incident \<notin> set (SOURCE_SERVICE_BROAD_TYPES @
           SOURCE_SERVICE_NARROW_TYPES @ SOURCE_SERVICE_SUBNET_TYPES) then None
      else if incident_events = [] then None
      else if py_strip (i_primary_entity incident) = [] then None
      else with_identity (single_protocol incident_events,
             event_services (i_incident_type incident) incident_events max_items)
           (\<lambda>protocols services ports.
             case source_service_scopes (i_incident_type incident) incident_events max_items v4 v6 of
               None \<Rightarrow> None
             | Some scopes \<Rightarrow> validate_profile
                 \<lparr>p_correlation_version = version, p_strategy = SourceServiceCampaign,
                  p_actor_entity = Some (py_strip (i_primary_entity incident)),
                  p_protected_entity = None, p_protocols = protocols, p_services = services,
                  p_destination_ports = ports, p_target_scopes = scopes\<rparr>))"

definition derive_source_target_sequence_profile ::
  "IncidentBundle \<Rightarrow> canonical_event list \<Rightarrow> string \<Rightarrow> nat \<Rightarrow> StatefulCorrelationProfile option" where
  "derive_source_target_sequence_profile incident incident_events version max_items =
     (if i_incident_type incident \<notin> set SEQUENCE_INCIDENT_TYPES then None
      else if incident_events = [] then None
      else if py_strip (i_primary_entity incident) = [] then None
      else (case sole_destination incident_events of None \<Rightarrow> None
        | Some protected_entity \<Rightarrow> with_identity (single_protocol incident_events,
             event_services (i_incident_type incident) incident_events max_items)
           (\<lambda>protocols services ports. validate_profile
              \<lparr>p_correlation_version = version, p_strategy = SourceTargetSequence,
               p_actor_entity = Some (py_strip (i_primary_entity incident)),
               p_protected_entity = Some protected_entity, p_protocols = protocols,
               p_services = services, p_destination_ports = ports, p_target_scopes = []\<rparr>)))"

definition derive_protected_service_exposure_profile ::
  "IncidentBundle \<Rightarrow> canonical_event list \<Rightarrow> string \<Rightarrow> nat \<Rightarrow> StatefulCorrelationProfile option" where
  "derive_protected_service_exposure_profile incident incident_events version max_items =
     (if i_incident_family incident \<notin> set EXPOSURE_FAMILIES then None
      else if incident_events = [] then None
      else (case sole_destination incident_events of None \<Rightarrow> None
        | Some protected_entity \<Rightarrow> with_identity (single_protocol incident_events,
             event_services (i_incident_type incident) incident_events max_items)
           (\<lambda>protocols services ports. validate_profile
              \<lparr>p_correlation_version = version, p_strategy = ProtectedServiceExposure,
               p_actor_entity = None, p_protected_entity = Some protected_entity,
               p_protocols = protocols, p_services = services, p_destination_ports = ports,
               p_target_scopes = []\<rparr>)))"

definition derive_stateful_profile ::
  "IncidentBundle \<Rightarrow> canonical_event list \<Rightarrow> string \<Rightarrow> nat \<Rightarrow> nat \<Rightarrow> nat
     \<Rightarrow> StatefulCorrelationProfile option" where
  "derive_stateful_profile incident events version max_items v4 v6 =
     (let incident_events = filter (\<lambda>e. e_event_id e \<in> set (i_event_ids incident)) events
      in case derive_source_target_sequence_profile incident incident_events version max_items of
           Some p \<Rightarrow> Some p
         | None \<Rightarrow>
             (case derive_protected_service_exposure_profile incident incident_events version max_items of
                Some p \<Rightarrow> Some p
              | None \<Rightarrow> derive_source_service_profile incident incident_events version max_items v4 v6))"

section \<open>State decisions\<close>

record StatefulStateSnapshot =
  st_correlation_version :: string
  st_generation :: nat
  st_incident_id :: string
  st_first_seen :: datetime
  st_last_seen :: datetime
  st_expires_at :: datetime

datatype StateDecision = Merge | NewGeneration | Stale | Repair

definition classify_state_decision ::
  "StatefulStateSnapshot \<Rightarrow> string \<Rightarrow> bool \<Rightarrow> datetime \<Rightarrow> datetime \<Rightarrow> int \<Rightarrow> datetime \<Rightarrow> StateDecision" where
  "classify_state_decision state correlation_version incident_exists incoming_first_seen
     incoming_last_seen window_seconds now =
     (if \<not> incident_exists then Repair
      else if st_correlation_version state \<noteq> correlation_version then NewGeneration
      else if st_expires_at state \<le> now then NewGeneration
      else if incoming_first_seen > incoming_last_seen then Stale
      else if incoming_first_seen > plus_seconds (st_last_seen state) window_seconds then NewGeneration
      else if incoming_last_seen < plus_seconds (st_first_seen state) (- window_seconds) then Stale
      else Merge)"

definition is_state_eligible ::
  "StatefulStateSnapshot \<Rightarrow> string \<Rightarrow> bool \<Rightarrow> datetime \<Rightarrow> datetime \<Rightarrow> int \<Rightarrow> datetime \<Rightarrow> bool" where
  "is_state_eligible state version incident_exists first_seen last_seen window_seconds now =
     (classify_state_decision state version incident_exists first_seen last_seen window_seconds now = Merge)"

section \<open>Derivation lemmas\<close>

lemma sort_uniq_somes_cong: "set xs = set ys \<Longrightarrow> sort_uniq (somes f xs) = sort_uniq (somes f ys)"
  by (rule sort_uniq_cong) (simp add: set_somes)

lemma remdups_single_iff: "remdups xs = [d] \<longleftrightarrow> set xs = {d}"
proof
  assume "remdups xs = [d]"
  then show "set xs = {d}" by (metis empty_set list.simps(15) set_remdups)
next
  assume "set xs = {d}"
  then have "set (remdups xs) = {d}" and "length (remdups xs) = card {d}"
    by (simp_all add: length_remdups_card_conv)
  then show "remdups xs = [d]" by (cases "remdups xs") auto
qed

lemma sole_cong:
  assumes "set xs = set ys"
  shows "(case remdups xs of [d] \<Rightarrow> f d | _ \<Rightarrow> c) = (case remdups ys of [d] \<Rightarrow> f d | _ \<Rightarrow> c)"
proof (cases "\<exists>d. set xs = {d}")
  case True
  then obtain d where "remdups xs = [d]" "remdups ys = [d]"
    using assms remdups_single_iff by metis
  then show ?thesis by simp
next
  case False
  then have "\<nexists>d. remdups xs = [d]" "\<nexists>d. remdups ys = [d]"
    using assms by (metis remdups_single_iff)+
  then show ?thesis by (auto split: list.splits)
qed

lemma single_protocol_cong: "set xs = set ys \<Longrightarrow> single_protocol xs = single_protocol ys"
  unfolding single_protocol_def by (rule sole_cong) (simp add: set_somes)

lemma sole_destination_cong: "set xs = set ys \<Longrightarrow> sole_destination xs = sole_destination ys"
  unfolding sole_destination_def by (rule sole_cong) (simp add: set_somes event_destinations_def)

lemma event_services_cong:
  assumes "set xs = set ys"
  shows "event_services ty xs n = event_services ty ys n"
proof -
  let ?ports = "\<lambda>zs. somes effective_destination_port zs"
  have "set (?ports xs) = set (?ports ys)" by (simp add: set_somes assms)
  then have "sort_uniq (somes specific_service (?ports xs)) = sort_uniq (somes specific_service (?ports ys))"
    and "sort_uniq (filter (\<lambda>p. specific_service p = None) (?ports xs))
      = sort_uniq (filter (\<lambda>p. specific_service p = None) (?ports ys))"
    by (auto intro!: sort_uniq_cong simp: set_somes [of specific_service])
  then show ?thesis by (simp add: event_services_def service_identity_def split: option.split)
qed

lemma source_service_scopes_cong:
  assumes "set xs = set ys"
  shows "source_service_scopes ty xs n v4 v6 = source_service_scopes ty ys n v4 v6"
proof -
  have "sort_uniq (somes f xs) = sort_uniq (somes f ys)" for f :: "canonical_event \<Rightarrow> string option"
    using assms by (rule sort_uniq_somes_cong)
  then show ?thesis by (simp add: source_service_scopes_def event_destinations_def)
qed

lemma empty_cong: "set xs = set ys \<Longrightarrow> (xs = []) = (ys = [])"
  by auto

lemmas derive_congs = single_protocol_cong sole_destination_cong event_services_cong
  source_service_scopes_cong empty_cong

lemma derive_profile_set_cong:
  assumes "set events = set events'"
  shows "derive_stateful_profile incident events version n v4 v6
    = derive_stateful_profile incident events' version n v4 v6"
proof -
  let ?own = "\<lambda>es. filter (\<lambda>e. e_event_id e \<in> set (i_event_ids incident)) es"
  have eq: "set (?own events) = set (?own events')" using assms by simp
  show ?thesis
    unfolding derive_stateful_profile_def derive_source_target_sequence_profile_def Let_def
      derive_protected_service_exposure_profile_def derive_source_service_profile_def
    by (simp only: derive_congs [OF eq])
qed

text \<open>The correlation key of an incident depends only on which events it has: neither the
  order in which they were read nor repeated rows change the profile or the key.\<close>

theorem correlation_key_order_independent:
  assumes "set events = set events'"
  shows "map_option compute_correlation_key (derive_stateful_profile incident events version n v4 v6)
    = map_option compute_correlation_key (derive_stateful_profile incident events' version n v4 v6)"
  by (simp only: derive_profile_set_cong [OF assms])

section \<open>What a derived profile guarantees\<close>

definition canonical_profile :: "StatefulCorrelationProfile \<Rightarrow> bool" where
  "canonical_profile p =
     (canonical (p_protocols p) \<and> canonical (p_services p) \<and> canonical (p_destination_ports p) \<and>
      canonical (p_target_scopes p))"

lemma validate_profileD:
  assumes "validate_profile p = Some q"
  shows "required_identity q" "canonical_profile q" "p_strategy q = p_strategy p"
    "p_actor_entity q = normalize_entity (p_actor_entity p)"
    "p_protected_entity q = normalize_entity (p_protected_entity p)"
    "p_services q = normalize_str_tuple (p_services p)"
    "p_destination_ports q = sort_uniq (p_destination_ports p)"
    "length (p_services p) \<le> 100" "length (p_destination_ports p) \<le> 100"
  using assms
  by (auto simp: validate_profile_def Let_def canonical_profile_def normalize_str_tuple_def
      simp del: sort_uniq_Nil_iff split: if_splits)

lemma with_identity_SomeE:
  assumes "with_identity (protocols, services, ports) k = Some p"
  shows "k protocols services ports = Some p"
  using assms by (auto simp: with_identity_def split: if_splits)

lemma normalize_stripped: "py_strip s \<noteq> [] \<Longrightarrow> normalize_entity (Some (py_strip s)) = Some (py_strip s)"
  by (simp add: normalize_entity_def py_strip_idem truthy_value_def)

lemma derive_source_serviceD:
  assumes "derive_source_service_profile i es version n v4 v6 = Some p"
  shows "required_identity p" "canonical_profile p" "p_strategy p = SourceServiceCampaign"
    "p_actor_entity p = Some (py_strip (i_primary_entity i))"
    "p_services p = normalize_str_tuple (fst (event_services (i_incident_type i) es n))"
    "p_destination_ports p = sort_uniq (snd (event_services (i_incident_type i) es n))"
proof -
  obtain scopes where v: "py_strip (i_primary_entity i) \<noteq> []" "validate_profile
      \<lparr>p_correlation_version = version, p_strategy = SourceServiceCampaign,
       p_actor_entity = Some (py_strip (i_primary_entity i)), p_protected_entity = None,
       p_protocols = single_protocol es, p_services = fst (event_services (i_incident_type i) es n),
       p_destination_ports = snd (event_services (i_incident_type i) es n),
       p_target_scopes = scopes\<rparr> = Some p"
    using assms
    by (cases "event_services (i_incident_type i) es n")
      (auto simp: derive_source_service_profile_def with_identity_def split: if_splits option.splits)
  from validate_profileD [OF v(2)] v(1)
  show "required_identity p" "canonical_profile p" "p_strategy p = SourceServiceCampaign"
    "p_actor_entity p = Some (py_strip (i_primary_entity i))"
    "p_services p = normalize_str_tuple (fst (event_services (i_incident_type i) es n))"
    "p_destination_ports p = sort_uniq (snd (event_services (i_incident_type i) es n))"
    by (simp_all add: normalize_stripped)
qed

lemma derive_sequenceD:
  assumes "derive_source_target_sequence_profile i es version n = Some p"
  shows "required_identity p" "canonical_profile p" "p_strategy p = SourceTargetSequence"
    "p_actor_entity p = Some (py_strip (i_primary_entity i))"
    "p_services p = normalize_str_tuple (fst (event_services (i_incident_type i) es n))"
    "p_destination_ports p = sort_uniq (snd (event_services (i_incident_type i) es n))"
proof -
  obtain target where v: "py_strip (i_primary_entity i) \<noteq> []" "validate_profile
      \<lparr>p_correlation_version = version, p_strategy = SourceTargetSequence,
       p_actor_entity = Some (py_strip (i_primary_entity i)), p_protected_entity = Some target,
       p_protocols = single_protocol es, p_services = fst (event_services (i_incident_type i) es n),
       p_destination_ports = snd (event_services (i_incident_type i) es n),
       p_target_scopes = []\<rparr> = Some p"
    using assms
    by (cases "event_services (i_incident_type i) es n")
      (auto simp: derive_source_target_sequence_profile_def with_identity_def split: if_splits option.splits)
  from validate_profileD [OF v(2)] v(1)
  show "required_identity p" "canonical_profile p" "p_strategy p = SourceTargetSequence"
    "p_actor_entity p = Some (py_strip (i_primary_entity i))"
    "p_services p = normalize_str_tuple (fst (event_services (i_incident_type i) es n))"
    "p_destination_ports p = sort_uniq (snd (event_services (i_incident_type i) es n))"
    by (simp_all add: normalize_stripped)
qed

lemma derive_exposureD:
  assumes "derive_protected_service_exposure_profile i es version n = Some p"
  shows "required_identity p" "canonical_profile p" "p_strategy p = ProtectedServiceExposure"
    "p_actor_entity p = None"
    "p_services p = normalize_str_tuple (fst (event_services (i_incident_type i) es n))"
    "p_destination_ports p = sort_uniq (snd (event_services (i_incident_type i) es n))"
proof -
  obtain target where v: "validate_profile
      \<lparr>p_correlation_version = version, p_strategy = ProtectedServiceExposure,
       p_actor_entity = None, p_protected_entity = Some target,
       p_protocols = single_protocol es, p_services = fst (event_services (i_incident_type i) es n),
       p_destination_ports = snd (event_services (i_incident_type i) es n),
       p_target_scopes = []\<rparr> = Some p"
    using assms
    by (cases "event_services (i_incident_type i) es n")
      (auto simp: derive_protected_service_exposure_profile_def with_identity_def split: if_splits option.splits)
  from validate_profileD [OF v]
  show "required_identity p" "canonical_profile p" "p_strategy p = ProtectedServiceExposure"
    "p_actor_entity p = None"
    "p_services p = normalize_str_tuple (fst (event_services (i_incident_type i) es n))"
    "p_destination_ports p = sort_uniq (snd (event_services (i_incident_type i) es n))"
    by (simp_all add: normalize_entity_def)
qed

lemma unambiguous_services:
  "\<forall>s \<in> snd ` set PORT_TO_SERVICE. s \<notin> set AMBIGUOUS_SERVICE_BUCKETS \<longrightarrow>
     py_upper (py_strip s) \<notin> py_upper ` set AMBIGUOUS_SERVICE_BUCKETS"
  by code_simp

lemma specific_service_unambiguous:
  assumes "specific_service port = Some s"
  shows "py_upper (py_strip s) \<notin> py_upper ` set AMBIGUOUS_SERVICE_BUCKETS"
proof -
  have "map_of PORT_TO_SERVICE port = Some s" and "s \<notin> set AMBIGUOUS_SERVICE_BUCKETS"
    using assms by (auto simp: specific_service_def classify_service_def truthy_value_def
        split: option.splits if_splits)
  then show ?thesis using unambiguous_services by (force dest: map_of_SomeD)
qed

lemma event_services_unambiguous:
  assumes "probe_service_from_incident_type ty = None"
  shows "set (normalize_str_tuple (fst (event_services ty es n))) \<inter> py_upper ` set AMBIGUOUS_SERVICE_BUCKETS = {}"
proof -
  have "set (fst (event_services ty es n)) \<subseteq> {s. \<exists>port. specific_service port = Some s}"
    using assms set_take_subset
    by (fastforce simp: event_services_def service_identity_def set_somes)
  then have "py_upper (py_strip s) \<notin> py_upper ` set AMBIGUOUS_SERVICE_BUCKETS"
    if "s \<in> set (fst (event_services ty es n))" for s
    using that specific_service_unambiguous by blast
  then show ?thesis by (auto simp: normalize_str_tuple_def)
qed

text \<open>Every derived profile has the identity its strategy needs and canonical lists; the
  actor is the incident's owner, except that an exposure profile never has an actor, so hosts that
  reach one exposed service share its campaign; without a probe-specific incident type, the
  ambiguous service buckets never become a service identity.\<close>

theorem stateful_profile_sound:
  assumes "derive_stateful_profile incident events version n v4 v6 = Some p"
  shows "required_identity p \<and> canonical_profile p
    \<and> p_actor_entity p = (if p_strategy p = ProtectedServiceExposure then None
         else Some (py_strip (i_primary_entity incident)))
    \<and> (probe_service_from_incident_type (i_incident_type incident) = None \<longrightarrow>
         set (p_services p) \<inter> {''DATABASE'', ''KUBERNETES'', ''DOCKER''} = {})"
proof -
  let ?es = "filter (\<lambda>e. e_event_id e \<in> set (i_event_ids incident)) events"
  have amb: "py_upper ` set AMBIGUOUS_SERVICE_BUCKETS = {''DATABASE'', ''KUBERNETES'', ''DOCKER''}"
    by code_simp
  consider (sequence) "derive_source_target_sequence_profile incident ?es version n = Some p"
    | (exposure) "derive_protected_service_exposure_profile incident ?es version n = Some p"
    | (campaign) "derive_source_service_profile incident ?es version n v4 v6 = Some p"
    using assms by (auto simp: derive_stateful_profile_def Let_def split: option.splits)
  then show ?thesis
  proof cases
    case sequence
    then show ?thesis using derive_sequenceD [OF sequence] event_services_unambiguous amb by simp
  next
    case exposure
    then show ?thesis using derive_exposureD [OF exposure] event_services_unambiguous amb by simp
  next
    case campaign
    then show ?thesis using derive_source_serviceD [OF campaign] event_services_unambiguous amb by simp
  qed
qed

section \<open>A concrete campaign\<close>

definition campaign_incident :: IncidentBundle where
  "campaign_incident = \<lparr>i_incident_id = ''INC-1'', i_incident_type = ''horizontal_scan'',
     i_incident_family = ''network_scanning'', i_title = ''Detected'', i_severity = ''low'',
     i_confidence = 3/5, i_first_seen = Instant 0, i_last_seen = Instant 5,
     i_primary_entity = ''203.0.113.7'', i_target_entities = [], i_signal_ids = [''SIG-1''],
     i_event_ids = [''E1'', ''E2''], i_context_event_ids = [], i_evidence = [], i_metrics = [],
     i_mitre_techniques = [], i_merge_key = ''v2:k'', i_review_reason = None,
     i_absorbed_signal_ids = []\<rparr>"

definition campaign_event :: "string \<Rightarrow> int \<Rightarrow> canonical_event" where
  "campaign_event eid port = (CanonicalLogEvent eid ''mock'' ''parsed'')
     \<lparr>e_protocol := Some ''tcp'', e_dst_port := Some port, e_dst_ip := Some ''10.0.0.5''\<rparr>"

definition campaign_events :: "canonical_event list" where
  "campaign_events = [campaign_event ''E1'' 3306, campaign_event ''E2'' 3389]"

definition campaign_profile :: StatefulCorrelationProfile where
  "campaign_profile = \<lparr>p_correlation_version = ''1'', p_strategy = SourceServiceCampaign,
     p_actor_entity = Some ''203.0.113.7'', p_protected_entity = None, p_protocols = [''TCP''],
     p_services = [''RDP''], p_destination_ports = [3306], p_target_scopes = []\<rparr>"

lemma campaign_derived:
  "derive_stateful_profile campaign_incident campaign_events ''1'' 100 24 64 = Some campaign_profile"
  by code_simp

theorem correlation_key_order_independent_witness:
  "map_option compute_correlation_key
      (derive_stateful_profile campaign_incident (rev campaign_events @ campaign_events) ''1'' 100 24 64)
    = Some (compute_correlation_key campaign_profile)"
  using correlation_key_order_independent [of "rev campaign_events @ campaign_events" campaign_events]
  by (simp add: campaign_derived)

theorem stateful_profile_sound_witness:
  "required_identity campaign_profile \<and> canonical_profile campaign_profile
    \<and> p_actor_entity campaign_profile = Some ''203.0.113.7''
    \<and> set (p_services campaign_profile) \<inter> {''DATABASE'', ''KUBERNETES'', ''DOCKER''} = {}"
proof -
  have "probe_service_from_incident_type (i_incident_type campaign_incident) = None" by code_simp
  moreover have "py_strip (i_primary_entity campaign_incident) = ''203.0.113.7''" by code_simp
  moreover have "p_strategy campaign_profile \<noteq> ProtectedServiceExposure"
    by (simp add: campaign_profile_def)
  ultimately show ?thesis using stateful_profile_sound [OF campaign_derived] by simp
qed

end
