(* ===== verification/Routing.thy ===== *)
theory Routing
  imports IncidentCorrelation
begin

text \<open>
  Deterministic triage routing (\<open>triage/routing.py\<close> with \<open>triage/provenance.py\<close>): the
  route of an incident, the deterministic report and the digest of low-value incidents.
\<close>

section \<open>Routes\<close>

datatype TriageRoute = individual_triage | deterministic_report | digest | store_only

datatype TriageOrigin = OriginLlm | OriginDeterministic | OriginNone

record RoutingDecision =
  d_route :: TriageRoute
  d_reason :: string
  d_triage_origin :: TriageOrigin
  d_llm_invoked :: bool

definition HIGH_VALUE_RULE_IDS :: "string set" where
  "HIGH_VALUE_RULE_IDS = {''inbound_sensitive_service_allowed'', ''critical_management_service_exposed'',
     ''dnat_sensitive_service_exposure'', ''wan_to_lan_sensitive_service_allowed'',
     ''wan_to_dmz_administrative_service_allowed'', ''blocked_then_allowed_same_service'',
     ''multi_source_allowed_sensitive_service'', ''scan_followed_by_allowed_connection'',
     ''spi_followed_by_allowed_connection''}"

definition RESPONSE_ORIENTED_FLAGS :: "string set" where
  "RESPONSE_ORIENTED_FLAGS = {''ACK'', ''RST'', ''FIN''}"

definition response_oriented_without_syn :: "canonical_event \<Rightarrow> bool" where
  "response_oriented_without_syn event =
     (''SYN'' \<notin> event_tcp_flag_tokens event \<and>
      event_tcp_flag_tokens event \<inter> RESPONSE_ORIENTED_FLAGS \<noteq> {})"

definition spi_response_events :: "canonical_event list \<Rightarrow> bool \<Rightarrow> canonical_event list" where
  "spi_response_events incident_events fallback_raw_match =
     filter (\<lambda>e. is_spi_anomaly_event e fallback_raw_match \<and> response_oriented_without_syn e)
       incident_events"

definition is_likely_spi_state_desync ::
  "IncidentBundle \<Rightarrow> canonical_event list \<Rightarrow> canonical_event list \<Rightarrow> bool \<Rightarrow> bool" where
  "is_likely_spi_state_desync incident incident_events related_context_events fallback_raw_match =
     (if i_incident_family incident \<noteq> ''network_anomaly'' then False
      else (let spi = spi_response_events incident_events fallback_raw_match
        in if spi = [] then False
           else (\<exists>c \<in> set related_context_events. is_allowed c \<and>
                   (\<exists>e \<in> set spi. events_are_bidirectionally_related e c))))"

definition decide_route ::
  "IncidentBundle \<Rightarrow> canonical_event list \<Rightarrow> canonical_event list \<Rightarrow> string list \<Rightarrow> DetectionSettings
     \<Rightarrow> RoutingDecision" where
  "decide_route incident incident_events related_context_events signal_rule_ids settings =
     (let high_value_rules = sort_uniq (filter (\<lambda>r. r \<in> HIGH_VALUE_RULE_IDS) signal_rule_ids)
      in if high_value_rules \<noteq> []
         then \<lparr>d_route = individual_triage, d_reason = ''high_value_rule:'' @ hd high_value_rules,
           d_triage_origin = OriginDeterministic, d_llm_invoked = False\<rparr>
         else if \<exists>e \<in> set incident_events. is_allowed e
         then \<lparr>d_route = individual_triage, d_reason = ''allowed_connection_observed'',
           d_triage_origin = OriginDeterministic, d_llm_invoked = False\<rparr>
         else if is_likely_spi_state_desync incident incident_events related_context_events
             (SPI_ANOMALY_FALLBACK_RAW_MATCH settings)
         then \<lparr>d_route = store_only, d_reason = ''verified_spi_state_desynchronization'',
           d_triage_origin = OriginNone, d_llm_invoked = False\<rparr>
         else if \<not> (incident_events \<noteq> [] \<and> (\<forall>e \<in> set incident_events. is_blocked e))
         then \<lparr>d_route = individual_triage, d_reason = ''not_fully_blocked_conservative'',
           d_triage_origin = OriginDeterministic, d_llm_invoked = False\<rparr>
         else if i_incident_family incident = ''network_scanning'' \<and> i_severity incident = ''low''
         then \<lparr>d_route = digest, d_reason = ''low_severity_fully_blocked_scanner'',
           d_triage_origin = OriginDeterministic, d_llm_invoked = False\<rparr>
         else \<lparr>d_route = deterministic_report, d_reason = ''fully_blocked_reconnaissance'',
           d_triage_origin = OriginDeterministic, d_llm_invoked = False\<rparr>)"

section \<open>Provenance text\<close>

text \<open>\<open>int(v or 0)\<close> on a metric; a decimal numeral is read without underscores.\<close>

definition decimal_value :: "string \<Rightarrow> int" where
  "decimal_value s = foldl (\<lambda>n c. 10 * n + (of_char c - 48)) 0 s"

definition is_digit :: "char \<Rightarrow> bool" where
  "is_digit c = (48 \<le> (of_char c :: nat) \<and> (of_char c :: nat) \<le> 57)"

definition int_of_text :: "string \<Rightarrow> string + int" where
  "int_of_text s =
     (let t = py_strip s; negative = (prefix ''-'' t);
          ds = (if prefix ''-'' t \<or> prefix ''+'' t then tl t else t)
      in if ds \<noteq> [] \<and> (\<forall>c \<in> set ds. is_digit c)
         then Inr (if negative then - decimal_value ds else decimal_value ds) else Inl ''ValueError'')"

definition metric_count :: "metrics \<Rightarrow> string \<Rightarrow> string + int" where
  "metric_count m k = (case map_of m k of
       Some (PInt n) \<Rightarrow> Inr n
     | Some (PBool b) \<Rightarrow> Inr (if b then 1 else 0)
     | Some (PFloat q) \<Rightarrow> Inr (if q < 0 then - \<lfloor>- q\<rfloor> else \<lfloor>q\<rfloor>)
     | Some (PStr s) \<Rightarrow> if s = [] then Inr 0 else int_of_text s
     | Some (PList xs) \<Rightarrow> if xs = [] then Inr 0 else Inl ''TypeError''
     | Some (PDict d) \<Rightarrow> if d = [] then Inr 0 else Inl ''TypeError''
     | _ \<Rightarrow> Inr 0)"

text \<open>The Turkish words, in UTF-8.\<close>

definition turkish_run :: string where
  "turkish_run = '' bu '' @ [CHR 0xC3, CHR 0xA7] @ ''al'' @ [CHR 0xC4, CHR 0xB1, CHR 0xC5, CHR 0x9F] @
     ''t'' @ [CHR 0xC4, CHR 0xB1] @ ''rmada, ''"

definition turkish_job :: string where
  "turkish_job = [CHR 0xC3, CHR 0xB6] @ ''nceki''"

definition turkish_from :: string where
  "turkish_from = '' i'' @ [CHR 0xC5, CHR 0x9F] @ ''ten)''"

definition provenance_text :: "string \<Rightarrow> string \<Rightarrow> string \<Rightarrow> string \<Rightarrow> string \<Rightarrow> bool \<Rightarrow> string" where
  "provenance_text lang events current prior jobs one_job =
     (if lang = ''tr''
      then events @ '' ('' @ current @ turkish_run @ prior @ '' olay '' @ jobs @ '' '' @ turkish_job @ turkish_from
      else events @ '' ('' @ current @ '' this run, '' @ prior @ '' from '' @ jobs @ '' earlier '' @
        (if one_job then ''job'' else ''jobs'') @ '')'')"

definition format_event_provenance :: "nat \<Rightarrow> metrics \<Rightarrow> string \<Rightarrow> string + string" where
  "format_event_provenance total_events metrics lang =
     bind_err (metric_count metrics ''contributing_job_count'') (\<lambda>contributing_jobs.
     bind_err (metric_count metrics ''current_job_event_count'') (\<lambda>current_events.
     bind_err (metric_count metrics ''prior_job_event_count'') (\<lambda>prior_events.
       if contributing_jobs \<le> 1 \<or> prior_events \<le> 0 then Inr (str_of_nat total_events)
       else (let prior_jobs = max 1 (contributing_jobs - 1)
         in Inr (provenance_text lang (str_of_nat total_events) (str_of_int current_events)
              (str_of_int prior_events) (str_of_int prior_jobs) (prior_jobs = 1))))))"

section \<open>Reports and digests\<close>

definition destination_ips :: "canonical_event list \<Rightarrow> string list" where
  "destination_ips events = sort_uniq (somes (\<lambda>e. truthy_value (e_dst_ip e)) events)"

definition destination_ports :: "canonical_event list \<Rightarrow> int list" where
  "destination_ports events = sort_uniq (somes e_dst_port events)"

definition joined_or :: "string \<Rightarrow> nat \<Rightarrow> string list \<Rightarrow> string" where
  "joined_or fallback n parts =
     (let s = py_join '', '' (take n parts)
      in (if s = [] then fallback else s) @ (if length parts > n then '', ...'' else []))"

definition blocked_statement :: "nat \<Rightarrow> nat \<Rightarrow> string" where
  "blocked_statement event_count blocked_count =
     (if event_count > 0 \<and> blocked_count = event_count
      then ''All '' @ str_of_nat event_count @ '' observed event(s) were blocked by the firewall. No successful connection, authentication, exploitation, or compromise was proven by this deterministic analysis.''
      else str_of_nat blocked_count @ '' of '' @ str_of_nat event_count @ '' observed event(s) were blocked by the firewall. No successful connection, authentication, exploitation, or compromise was proven by this deterministic analysis.'')"

definition generate_deterministic_report :: "IncidentBundle \<Rightarrow> canonical_event list \<Rightarrow> string + string" where
  "generate_deterministic_report incident incident_events =
     (let event_count = length incident_events;
          blocked_count = count_if is_blocked incident_events;
          target_ips = destination_ips incident_events;
          ports = destination_ports incident_events;
          services = sort_uniq (somes (\<lambda>p. classify_service (Some p)) ports);
          service_summary = joined_or ''none classified'' (length services) services
      in bind_err (format_event_provenance event_count (i_metrics incident) ''en'') (\<lambda>provenance.
         Inr (py_join [CHR 0x0A]
           [''# Deterministic Report: '' @ i_title incident,
            [],
            ''- **Observed activity:** '' @ i_incident_type incident @ '' ('' @ i_incident_family incident @ '')'',
            ''- **Source:** '' @ i_primary_entity incident,
            ''- **Events:** '' @ provenance @ '' total, '' @ str_of_nat blocked_count @ '' blocked'',
            ''- **Distinct targets:** '' @ str_of_nat (length target_ips) @ '' ('' @
              joined_or ''unknown'' 10 target_ips @ '')'',
            ''- **Ports:** '' @ joined_or ''none observed'' 15 (map str_of_int ports),
            ''- **Services:** '' @ service_summary,
            ''- **Window:** '' @ isoformat (i_first_seen incident) @ '' to '' @ isoformat (i_last_seen incident),
            [],
            blocked_statement event_count blocked_count])))"

record DigestMember =
  dm_incident_id :: string
  dm_primary_entity :: "string option"
  dm_events :: "canonical_event list"
  dm_first_seen :: "datetime option"
  dm_last_seen :: "datetime option"

record Digest =
  dg_incident_type :: string
  dg_incident_count :: nat
  dg_incident_ids :: "string list"
  dg_source_count :: nat
  dg_sources :: "string list"
  dg_sources_truncated :: bool
  dg_total_blocked_events :: nat
  dg_distinct_target_count :: nat
  dg_common_ports :: "int list"
  dg_time_range_start :: "string option"
  dg_time_range_end :: "string option"
  dg_statement :: string

definition DIGEST_STATEMENT :: string where
  "DIGEST_STATEMENT = ''No allowed connection was observed for any incident in this digest; all activity was blocked reconnaissance.''"

text \<open>The ten most frequent destination ports, the lower port first among equals.\<close>

definition common_ports :: "canonical_event list \<Rightarrow> int list" where
  "common_ports events =
     take 10 (map fst (sort_key (\<lambda>(port, n). (- int n, port))
       (map (\<lambda>(port, ports). (port, length ports)) (group_by id (somes e_dst_port events)))))"

definition least_instant :: "datetime list \<Rightarrow> datetime option" where
  "least_instant ts = (if ts = [] then None else Some (Min (set ts)))"

definition greatest_instant :: "datetime list \<Rightarrow> datetime option" where
  "greatest_instant ts = (if ts = [] then None else Some (Max (set ts)))"

definition build_digest :: "string \<Rightarrow> DigestMember list \<Rightarrow> Digest" where
  "build_digest incident_type members =
     (let sources = sort_uniq (somes (\<lambda>m. truthy_value (dm_primary_entity m)) members);
          all_events = concat (map dm_events members);
          bounded_sources = take 20 sources
      in \<lparr>dg_incident_type = incident_type, dg_incident_count = length members,
          dg_incident_ids = sort (map dm_incident_id members), dg_source_count = length sources,
          dg_sources = bounded_sources,
          dg_sources_truncated = (length sources > length bounded_sources),
          dg_total_blocked_events = count_if is_blocked all_events,
          dg_distinct_target_count = length (destination_ips all_events),
          dg_common_ports = common_ports all_events,
          dg_time_range_start = map_option isoformat (least_instant (somes dm_first_seen members)),
          dg_time_range_end = map_option isoformat (greatest_instant (somes dm_last_seen members)),
          dg_statement = DIGEST_STATEMENT\<rparr>)"

section \<open>What the routes promise\<close>

definition fully_blocked :: "canonical_event list \<Rightarrow> bool" where
  "fully_blocked events = (events \<noteq> [] \<and> (\<forall>e \<in> set events. is_blocked e))"

lemma fully_blocked_not_allowed: "fully_blocked es \<Longrightarrow> \<not> (\<exists>e \<in> set es. is_allowed e)"
  by (auto simp: fully_blocked_def dest: not_blocked_and_allowed)

definition high_value :: "string list \<Rightarrow> bool" where
  "high_value rules = (\<exists>r \<in> set rules. r \<in> HIGH_VALUE_RULE_IDS)"

lemma high_value_filter:
  "sort_uniq (filter (\<lambda>r. r \<in> HIGH_VALUE_RULE_IDS) rules) \<noteq> [] \<longleftrightarrow> high_value rules"
  by (auto simp: high_value_def filter_empty_conv)

text \<open>The route, as a decision table.\<close>

lemma decide_route_table:
  "d_route (decide_route i es cs rules st) =
     (if high_value rules \<or> (\<exists>e \<in> set es. is_allowed e) then individual_triage
      else if is_likely_spi_state_desync i es cs (SPI_ANOMALY_FALLBACK_RAW_MATCH st) then store_only
      else if \<not> fully_blocked es then individual_triage
      else if i_incident_family i = ''network_scanning'' \<and> i_severity i = ''low'' then digest
      else deterministic_report)"
  unfolding decide_route_def Let_def high_value_filter fully_blocked_def by simp

lemma desync_facts:
  assumes "is_likely_spi_state_desync i es cs fallback"
  shows "i_incident_family i = ''network_anomaly''"
    and "\<exists>e \<in> set es. \<exists>c \<in> set cs. is_spi_anomaly_event e fallback \<and> response_oriented_without_syn e \<and>
      is_allowed c \<and> events_are_bidirectionally_related e c"
  using assms
  by (auto simp: is_likely_spi_state_desync_def spi_response_events_def Let_def split: if_splits)

definition summarised :: "TriageRoute \<Rightarrow> bool" where
  "summarised r = (r = digest \<or> r = deterministic_report)"

lemma decide_route_facts:
  fixes i es cs rules st
  defines "d \<equiv> decide_route i es cs rules st"
  shows "\<not> d_llm_invoked d"
    and "high_value rules \<or> (\<exists>e \<in> set es. is_allowed e) \<Longrightarrow> d_route d = individual_triage"
    and "summarised (d_route d) \<Longrightarrow> fully_blocked es \<and> \<not> high_value rules"
    and "d_route d = store_only \<Longrightarrow> is_likely_spi_state_desync i es cs (SPI_ANOMALY_FALLBACK_RAW_MATCH st)"
proof -
  show "\<not> d_llm_invoked d" by (simp add: d_def decide_route_def Let_def)
  show "high_value rules \<or> (\<exists>e \<in> set es. is_allowed e) \<Longrightarrow> d_route d = individual_triage"
    unfolding d_def decide_route_table by simp
  show "summarised (d_route d) \<Longrightarrow> fully_blocked es \<and> \<not> high_value rules"
    unfolding d_def decide_route_table summarised_def by (simp split: if_splits)
  show "d_route d = store_only \<Longrightarrow> is_likely_spi_state_desync i es cs (SPI_ANOMALY_FALLBACK_RAW_MATCH st)"
    unfolding d_def decide_route_table by (simp split: if_splits)
qed

text \<open>C31: routing is conservative. No route calls a provider; an incident with a high-value rule
  or an allowed event always gets its own row; only an incident with events, all of them blocked,
  is summarised without one; and an incident is stored silently only when it is a network anomaly of
  which one event is an SPI anomaly with ACK, RST or FIN and without SYN, that event is related to an
  allowed context event, and no event of the incident was allowed.\<close>

theorem routing_conservative:
  fixes i es cs rules st
  defines "d \<equiv> decide_route i es cs rules st"
  shows "\<not> d_llm_invoked d
    \<and> (high_value rules \<or> (\<exists>e \<in> set es. is_allowed e) \<longrightarrow> d_route d = individual_triage)
    \<and> (summarised (d_route d) \<longrightarrow> es \<noteq> [] \<and> (\<forall>e \<in> set es. is_blocked e \<and> \<not> is_allowed e))
    \<and> (d_route d = store_only \<longrightarrow> i_incident_family i = ''network_anomaly''
         \<and> (\<forall>e \<in> set es. \<not> is_allowed e)
         \<and> (\<exists>e \<in> set es. \<exists>c \<in> set cs. is_spi_anomaly_event e (SPI_ANOMALY_FALLBACK_RAW_MATCH st)
              \<and> event_tcp_flag_tokens e \<inter> {''ACK'', ''RST'', ''FIN''} \<noteq> {} \<and> ''SYN'' \<notin> event_tcp_flag_tokens e
              \<and> is_allowed c \<and> events_are_bidirectionally_related e c))"
proof (intro conjI impI)
  note facts = decide_route_facts [where i = i and es = es and cs = cs and rules = rules and st = st, folded d_def]
  show "\<not> d_llm_invoked d" by (rule facts(1))
  show "d_route d = individual_triage" if "high_value rules \<or> (\<exists>e \<in> set es. is_allowed e)"
    using that by (rule facts(2))
  show "es \<noteq> []" "\<forall>e \<in> set es. is_blocked e \<and> \<not> is_allowed e" if "summarised (d_route d)"
    using facts(3) [OF that] fully_blocked_not_allowed [of es] by (auto simp: fully_blocked_def)
  assume stored: "d_route d = store_only"
  note desync = desync_facts [OF facts(4) [OF stored]]
  show "i_incident_family i = ''network_anomaly''" by (rule desync(1))
  show "\<forall>e \<in> set es. \<not> is_allowed e" using facts(2) stored by auto
  show "\<exists>e \<in> set es. \<exists>c \<in> set cs. is_spi_anomaly_event e (SPI_ANOMALY_FALLBACK_RAW_MATCH st)
      \<and> event_tcp_flag_tokens e \<inter> {''ACK'', ''RST'', ''FIN''} \<noteq> {} \<and> ''SYN'' \<notin> event_tcp_flag_tokens e
      \<and> is_allowed c \<and> events_are_bidirectionally_related e c"
    using desync(2) unfolding response_oriented_without_syn_def RESPONSE_ORIENTED_FLAGS_def by blast
qed

text \<open>What the digest and the report state is true of the incidents routed to them: when every
  member was routed to a summary, every counted event is blocked and none is allowed, the port and
  source lists are bounded, and a routed report says that all its events were blocked.\<close>

theorem digest_truthful:
  assumes "\<forall>m \<in> set members. \<exists>i cs rules st. summarised (d_route (decide_route i (dm_events m) cs rules st))"
  shows "dg_total_blocked_events (build_digest ty members) = length (concat (map dm_events members))
    \<and> (\<forall>e \<in> set (concat (map dm_events members)). \<not> is_allowed e)
    \<and> dg_incident_count (build_digest ty members) = length members
    \<and> length (dg_common_ports (build_digest ty members)) \<le> 10
    \<and> length (dg_sources (build_digest ty members)) \<le> 20
    \<and> (dg_sources_truncated (build_digest ty members) \<longleftrightarrow> dg_source_count (build_digest ty members) > 20)
    \<and> (\<forall>m \<in> set members. blocked_statement (length (dm_events m)) (count_if is_blocked (dm_events m))
         = ''All '' @ str_of_nat (length (dm_events m)) @ '' observed event(s) were blocked by the firewall. No successful connection, authentication, exploitation, or compromise was proven by this deterministic analysis.'')"
proof -
  have blocked: "fully_blocked (dm_events m)" if "m \<in> set members" for m
    using assms that decide_route_facts(3) by blast
  have all: "count_if is_blocked es = length es" if "\<forall>e \<in> set es. is_blocked e" for es
    using that by (simp add: count_if_def)
  let ?es = "concat (map dm_events members)"
  have "\<forall>e \<in> set ?es. is_blocked e" using blocked by (auto simp: fully_blocked_def)
  note total = all [OF this]
  have single: "blocked_statement (length (dm_events m)) (count_if is_blocked (dm_events m))
      = ''All '' @ str_of_nat (length (dm_events m)) @ '' observed event(s) were blocked by the firewall. No successful connection, authentication, exploitation, or compromise was proven by this deterministic analysis.''"
    if "m \<in> set members" for m
    using blocked [OF that] all [of "dm_events m"] by (simp add: fully_blocked_def blocked_statement_def)
  have none: "\<forall>e \<in> set ?es. \<not> is_allowed e"
    using blocked fully_blocked_not_allowed by fastforce
  show ?thesis
    using total none single by (simp add: build_digest_def Let_def common_ports_def min_def)
qed

section \<open>A concrete scanner\<close>

definition blocked_probe :: canonical_event where
  "blocked_probe = (CanonicalLogEvent ''E1'' ''mock'' ''parsed'')
     \<lparr>e_action := Some ''block'', e_dst_ip := Some ''10.0.0.5'', e_dst_port := Some 22\<rparr>"

definition scanner_incident :: IncidentBundle where
  "scanner_incident = \<lparr>i_incident_id = ''INC-1'', i_incident_type = ''repeated_blocked_scanner'',
     i_incident_family = ''network_scanning'', i_title = ''Detected'', i_severity = ''low'',
     i_confidence = 3/5, i_first_seen = Instant 0, i_last_seen = Instant 5,
     i_primary_entity = ''203.0.113.7'', i_target_entities = [''10.0.0.5''],
     i_signal_ids = [''SIG-1''], i_event_ids = [''E1''], i_context_event_ids = [], i_evidence = [],
     i_metrics = [], i_mitre_techniques = [], i_merge_key = ''v2:k'', i_review_reason = None,
     i_absorbed_signal_ids = []\<rparr>"

lemma scanner_route:
  "d_route (decide_route scanner_incident [blocked_probe] [] [''repeated_blocked_scanner''] default_settings)
     = digest"
  by code_simp

text \<open>A late RST of an allowed flow, refused by stateful inspection.\<close>

definition late_rst :: canonical_event where
  "late_rst = (CanonicalLogEvent ''E2'' ''mock'' ''parsed'')
     \<lparr>e_action := Some ''block'', e_action_reason := Some ''spi'', e_src_ip := Some ''198.51.100.4'', e_src_port := Some 443,
      e_dst_ip := Some ''10.0.0.5'', e_dst_port := Some 51000, e_protocol := Some ''TCP'', e_tcp_flags := Some ''RST''\<rparr>"

definition allowed_flow :: canonical_event where
  "allowed_flow = (CanonicalLogEvent ''E3'' ''mock'' ''parsed'')
     \<lparr>e_action := Some ''pass'', e_src_ip := Some ''10.0.0.5'', e_src_port := Some 51000,
      e_dst_ip := Some ''198.51.100.4'', e_dst_port := Some 443, e_protocol := Some ''TCP''\<rparr>"

definition anomaly_incident :: IncidentBundle where
  "anomaly_incident = scanner_incident\<lparr>i_incident_family := ''network_anomaly'', i_incident_type := ''spi_anomaly''\<rparr>"

lemma anomaly_route:
  "d_route (decide_route anomaly_incident [late_rst] [allowed_flow] [''spi_anomaly_burst''] default_settings) = store_only"
  by code_simp

theorem routing_conservative_witness:
  "is_blocked blocked_probe \<and> \<not> is_allowed blocked_probe
    \<and> \<not> d_llm_invoked
        (decide_route scanner_incident [blocked_probe] [] [''repeated_blocked_scanner''] default_settings)
    \<and> is_spi_anomaly_event late_rst (SPI_ANOMALY_FALLBACK_RAW_MATCH default_settings)
    \<and> ''SYN'' \<notin> event_tcp_flag_tokens late_rst \<and> events_are_bidirectionally_related late_rst allowed_flow"
proof -
  note facts = routing_conservative [where i = scanner_incident and es = "[blocked_probe]" and cs = "[]"
      and rules = "[''repeated_blocked_scanner'']" and st = default_settings]
  note silent = routing_conservative [where i = anomaly_incident and es = "[late_rst]" and cs = "[allowed_flow]"
      and rules = "[''spi_anomaly_burst'']" and st = default_settings]
  have "summarised (d_route
      (decide_route scanner_incident [blocked_probe] [] [''repeated_blocked_scanner''] default_settings))"
    unfolding scanner_route summarised_def by (rule disjI1) (rule refl)
  with facts have "\<forall>e \<in> set [blocked_probe]. is_blocked e \<and> \<not> is_allowed e" by blast
  moreover from silent anomaly_route have "\<exists>e \<in> set [late_rst]. \<exists>c \<in> set [allowed_flow].
      is_spi_anomaly_event e (SPI_ANOMALY_FALLBACK_RAW_MATCH default_settings)
      \<and> event_tcp_flag_tokens e \<inter> {''ACK'', ''RST'', ''FIN''} \<noteq> {} \<and> ''SYN'' \<notin> event_tcp_flag_tokens e
      \<and> is_allowed c \<and> events_are_bidirectionally_related e c" by blast
  ultimately show ?thesis using facts [THEN conjunct1] by simp
qed

definition scanner_member :: DigestMember where
  "scanner_member = \<lparr>dm_incident_id = ''INC-1'', dm_primary_entity = Some ''203.0.113.7'',
     dm_events = [blocked_probe], dm_first_seen = Some (Instant 0), dm_last_seen = Some (Instant 5)\<rparr>"

theorem digest_truthful_witness:
  "dg_total_blocked_events (build_digest ''repeated_blocked_scanner'' [scanner_member]) = 1
    \<and> \<not> is_allowed blocked_probe \<and> dg_incident_count (build_digest ''repeated_blocked_scanner'' [scanner_member]) = 1"
proof -
  have "summarised (d_route (decide_route scanner_incident (dm_events scanner_member) []
      [''repeated_blocked_scanner''] default_settings))"
    by (simp add: scanner_route summarised_def scanner_member_def)
  then have "\<forall>m \<in> set [scanner_member].
      \<exists>i cs rules st. summarised (d_route (decide_route i (dm_events m) cs rules st))" by auto
  note facts = digest_truthful [OF this, of "''repeated_blocked_scanner''"]
  have "dg_total_blocked_events (build_digest ''repeated_blocked_scanner'' [scanner_member]) = 1"
    using facts [THEN conjunct1] by (simp add: scanner_member_def)
  moreover have "\<not> is_allowed blocked_probe"
    using facts [THEN conjunct2, THEN conjunct1] by (simp add: scanner_member_def)
  moreover have "dg_incident_count (build_digest ''repeated_blocked_scanner'' [scanner_member]) = 1"
    using facts [THEN conjunct2, THEN conjunct2, THEN conjunct1] by simp
  ultimately show ?thesis by blast
qed

end
