(* ===== verification/StateMachines.thy ===== *)
theory StateMachines
  imports SocPrelude
begin

text \<open>
  What the state machines of the program share: the states reachable from an initial one by a step
  relation, and the locale of an inductive invariant.
\<close>

inductive reach :: "('s \<Rightarrow> bool) \<Rightarrow> ('s \<Rightarrow> 's \<Rightarrow> bool) \<Rightarrow> 's \<Rightarrow> bool"
  for initial step where
  reach_initial: "initial s \<Longrightarrow> reach initial step s"
| reach_step: "reach initial step s \<Longrightarrow> step s t \<Longrightarrow> reach initial step t"

lemma reach_rtranclp: "reach initial step t \<longleftrightarrow> (\<exists>s. initial s \<and> step\<^sup>*\<^sup>* s t)"
proof
  assume "reach initial step t"
  then show "\<exists>s. initial s \<and> step\<^sup>*\<^sup>* s t"
    by induction (blast intro: rtranclp.rtrancl_into_rtrancl)+
next
  assume "\<exists>s. initial s \<and> step\<^sup>*\<^sup>* s t"
  then obtain s where "step\<^sup>*\<^sup>* s t" "initial s" by blast
  then show "reach initial step t"
    by (induction rule: rtranclp_induct) (blast intro: reach_initial reach_step)+
qed

locale invariant_machine =
  fixes initial :: "'s \<Rightarrow> bool" and step :: "'s \<Rightarrow> 's \<Rightarrow> bool" and inv :: "'s \<Rightarrow> bool"
  assumes initial_inv: "initial s \<Longrightarrow> inv s"
    and step_inv: "inv s \<Longrightarrow> step s t \<Longrightarrow> inv t"
begin

lemma reach_inv: "reach initial step s \<Longrightarrow> inv s"
  by (induction rule: reach.induct) (auto intro: initial_inv step_inv)

lemma steps_inv: "step\<^sup>*\<^sup>* s t \<Longrightarrow> inv s \<Longrightarrow> inv t"
  by (induction rule: rtranclp_induct) (auto intro: step_inv)

end

end
