(* ===== verification/Lifecycle.thy ===== *)
theory Lifecycle
  imports StateMachines
begin

text \<open>
  The incident lifecycle (\<open>persistence/lifecycle.py\<close>): the transition table, one transition
  with its audit event, and the machine whose steps are the accepted transitions. The random part
  of the audit identifier and the current time are arguments.
\<close>

section \<open>Transitions\<close>

definition VALID_TRANSITIONS :: "(string \<times> string list) list" where
  "VALID_TRANSITIONS =
     [(''new'', [''triaged'', ''closed'', ''needs_review'']),
      (''triaged'', [''investigating'', ''assigned'', ''needs_review'', ''resolved'', ''false_positive'']),
      (''needs_review'', [''assigned'', ''investigating'', ''triaged'']),
      (''assigned'', [''investigating'']),
      (''investigating'', [''confirmed'', ''resolved'', ''false_positive'']),
      (''confirmed'', [''resolved'']),
      (''resolved'', [''closed'', ''reopened'']),
      (''false_positive'', [''closed'', ''reopened'']),
      (''closed'', [''reopened'']),
      (''reopened'', [''investigating'', ''assigned'', ''needs_review''])]"

record AuditEvent =
  au_audit_event_id :: string
  au_incident_id :: string
  au_event_type :: string
  au_entity_type :: string
  au_entity_id :: string
  au_action :: string
  au_old_status :: string
  au_new_status :: string
  au_actor :: string
  au_actor_type :: "string option"
  au_actor_id :: "string option"
  au_old_values_json :: "(string \<times> string) list"
  au_new_values_json :: "(string \<times> string) list"
  au_request_id :: "string option"
  au_details :: "(string \<times> string) list"
  au_timestamp :: datetime

record Incident =
  li_incident_id :: string
  li_status :: string
  li_version :: "int option"
  li_audit_events :: "AuditEvent list"

record transition_request =
  tr_actor :: string
  tr_actor_type :: "string option"
  tr_actor_id :: "string option"
  tr_request_id :: "string option"
  tr_details :: "(string \<times> string) list option"

definition system_request :: transition_request where
  "system_request = \<lparr>tr_actor = ''system'', tr_actor_type = None, tr_actor_id = None,
     tr_request_id = None, tr_details = None\<rparr>"

definition allowed_next :: "string \<Rightarrow> string list" where
  "allowed_next old_status = (case map_of VALID_TRANSITIONS old_status of None \<Rightarrow> [] | Some l \<Rightarrow> l)"

text \<open>\<open>(incident.version or 1) + 1\<close>: a missing version and version 0 both count as 1.\<close>

definition next_version :: "int option \<Rightarrow> int" where
  "next_version v = (case v of None \<Rightarrow> 1 | Some n \<Rightarrow> if n = 0 then 1 else n) + 1"

definition audit_of ::
  "Incident \<Rightarrow> string \<Rightarrow> transition_request \<Rightarrow> string \<Rightarrow> datetime \<Rightarrow> AuditEvent" where
  "audit_of incident new_status req uuid_hex now =
     \<lparr>au_audit_event_id = ''ae_'' @ uuid_hex, au_incident_id = li_incident_id incident,
      au_event_type = ''status_transition'', au_entity_type = ''incident'',
      au_entity_id = li_incident_id incident, au_action = ''status_change'',
      au_old_status = li_status incident, au_new_status = new_status, au_actor = tr_actor req,
      au_actor_type = tr_actor_type req, au_actor_id = tr_actor_id req,
      au_old_values_json = [(''status'', li_status incident)],
      au_new_values_json = [(''status'', new_status)], au_request_id = tr_request_id req,
      au_details = (case tr_details req of None \<Rightarrow> [] | Some d \<Rightarrow> d), au_timestamp = now\<rparr>"

definition transition ::
  "Incident \<Rightarrow> string \<Rightarrow> transition_request \<Rightarrow> string \<Rightarrow> datetime
     \<Rightarrow> string + (Incident \<times> AuditEvent option)" where
  "transition incident new_status req uuid_hex now =
     (if li_status incident = new_status then Inr (incident, None)
      else if new_status \<notin> set (allowed_next (li_status incident))
      then Inl (''invalid_incident_transition: Cannot transition from '' @ li_status incident @
        '' to '' @ new_status)
      else (let audit = audit_of incident new_status req uuid_hex now
        in Inr (incident\<lparr>li_status := new_status, li_version := Some (next_version (li_version incident)),
             li_audit_events := li_audit_events incident @ [audit]\<rparr>, Some audit)))"

section \<open>The machine\<close>

definition fresh_incident :: "Incident \<Rightarrow> bool" where
  "fresh_incident i = (li_status i = ''new'' \<and> li_version i = Some 1 \<and> li_audit_events i = [])"

inductive lifecycle_step :: "Incident \<Rightarrow> Incident \<Rightarrow> bool" where
  "transition i new_status req uuid_hex now = Inr (j, audit) \<Longrightarrow> lifecycle_step i j"

inductive_cases lifecycle_stepE: "lifecycle_step i j"

abbreviation reachable_incident :: "Incident \<Rightarrow> bool" where
  "reachable_incident \<equiv> reach fresh_incident lifecycle_step"

lemma transition_cases [consumes 1]:
  assumes "transition i s req u now = Inr (j, audit)"
  obtains (same) "s = li_status i" "j = i" "audit = None"
  | (changed) "s \<in> set (allowed_next (li_status i))" "audit = Some (audit_of i s req u now)"
    "j = i\<lparr>li_status := s, li_version := Some (next_version (li_version i)),
      li_audit_events := li_audit_events i @ [audit_of i s req u now]\<rparr>"
proof (cases "li_status i = s")
  case True
  then have "j = i" and "audit = None" using assms by (simp_all add: transition_def)
  then show thesis by (rule same [OF True [symmetric]])
next
  case False
  with assms have "s \<in> set (allowed_next (li_status i))"
    by (auto simp: transition_def split: if_splits)
  then show thesis
  proof (rule changed)
    show "audit = Some (audit_of i s req u now)" using assms False \<open>s \<in> _\<close>
      by (simp add: transition_def Let_def)
    show "j = i\<lparr>li_status := s, li_version := Some (next_version (li_version i)),
      li_audit_events := li_audit_events i @ [audit_of i s req u now]\<rparr>"
      using assms False \<open>s \<in> _\<close> by (simp add: transition_def Let_def)
  qed
qed

text \<open>The audit trail replayed from a status: every recorded change starts where the previous one
  ended and is in the table.\<close>

fun replay :: "string \<Rightarrow> AuditEvent list \<Rightarrow> string option" where
  "replay s [] = Some s"
| "replay s (a # as) =
     (if au_old_status a = s \<and> au_new_status a \<in> set (allowed_next s)
      then replay (au_new_status a) as else None)"

lemma replay_append [simp]:
  "replay s (as @ bs) = (case replay s as of None \<Rightarrow> None | Some t \<Rightarrow> replay t bs)"
  by (induction as arbitrary: s) auto

definition audited :: "Incident \<Rightarrow> bool" where
  "audited i =
     (replay ''new'' (li_audit_events i) = Some (li_status i) \<and>
      li_version i = Some (1 + int (length (li_audit_events i))) \<and>
      (\<forall>a \<in> set (li_audit_events i). au_incident_id a = li_incident_id i))"

lemma audited_fresh: "fresh_incident i \<Longrightarrow> audited i"
  by (simp add: audited_def fresh_incident_def)

lemma audited_step: "audited i \<Longrightarrow> lifecycle_step i j \<Longrightarrow> audited j"
  by (elim lifecycle_stepE transition_cases)
    (auto simp: audited_def audit_of_def next_version_def)

interpretation lifecycle: invariant_machine fresh_incident lifecycle_step audited
  by unfold_locales (rule audited_fresh, assumption, rule audited_step)

text \<open>C30: in every incident the lifecycle can produce, replaying the audit trail from
  \<open>new\<close> along the transition table ends in the current status, and the version counts exactly
  the recorded transitions: no change goes unrecorded and no no-op is counted.\<close>

theorem lifecycle_audit_complete:
  assumes "reachable_incident i"
  shows "replay ''new'' (li_audit_events i) = Some (li_status i)
    \<and> li_version i = Some (1 + int (length (li_audit_events i)))"
  using lifecycle.reach_inv [OF assms] by (simp add: audited_def)

section \<open>No dead ends\<close>

definition known_statuses :: "string list" where
  "known_statuses = map fst VALID_TRANSITIONS"

fun path_ok :: "string \<Rightarrow> string list \<Rightarrow> bool" where
  "path_ok s [] = True"
| "path_ok s (t # ts) = (t \<in> set (allowed_next s) \<and> path_ok t ts)"

text \<open>A way to \<open>closed\<close> from each status.\<close>

definition closing_path :: "string \<Rightarrow> string list" where
  "closing_path s =
     (if s = ''closed'' then []
      else if s \<in> {''new'', ''resolved'', ''false_positive''} then [''closed'']
      else if s \<in> {''triaged'', ''investigating'', ''confirmed''} then [''resolved'', ''closed'']
      else [''investigating'', ''resolved'', ''closed''])"

lemma closing_path_ok:
  "\<forall>s \<in> set known_statuses. path_ok s (closing_path s) \<and> last (s # closing_path s) = ''closed''
     \<and> length (closing_path s) \<le> 3"
  by code_simp

lemma targets_known: "\<forall>s \<in> set known_statuses. set (allowed_next s) \<subseteq> set known_statuses"
  by code_simp

lemma replay_known:
  "replay s as = Some t \<Longrightarrow> s \<in> set known_statuses \<Longrightarrow> t \<in> set known_statuses"
  using targets_known by (induction as arbitrary: s) (auto split: if_splits)

lemma follow_path:
  assumes "path_ok (li_status i) ts"
  shows "\<exists>j. lifecycle_step\<^sup>*\<^sup>* i j \<and> li_status j = last (li_status i # ts)"
  using assms
proof (induction ts arbitrary: i)
  case Nil
  then show ?case by auto
next
  case (Cons t ts)
  show ?case
  proof (cases "t = li_status i")
    case True
    with Cons show ?thesis by auto
  next
    case False
    let ?j = "i\<lparr>li_status := t, li_version := Some (next_version (li_version i)),
      li_audit_events := li_audit_events i @ [audit_of i t system_request [] (Instant 0)]\<rparr>"
    have "transition i t system_request [] (Instant 0)
        = Inr (?j, Some (audit_of i t system_request [] (Instant 0)))"
      using Cons.prems False by (simp add: transition_def Let_def)
    then have "lifecycle_step i ?j" by (rule lifecycle_step.intros)
    moreover obtain j where "lifecycle_step\<^sup>*\<^sup>* ?j j" "li_status j = last (t # ts)"
      using Cons.IH [of ?j] Cons.prems by auto
    ultimately show ?thesis by (auto intro: converse_rtranclp_into_rtranclp)
  qed
qed

text \<open>The lifecycle has no dead end: from every reachable incident there are transitions
  that close it.\<close>

theorem lifecycle_can_close:
  assumes "reachable_incident i"
  shows "\<exists>j. lifecycle_step\<^sup>*\<^sup>* i j \<and> li_status j = ''closed'' \<and> reachable_incident j"
proof -
  have "replay ''new'' (li_audit_events i) = Some (li_status i)"
    using lifecycle.reach_inv [OF assms] by (simp add: audited_def)
  moreover have "''new'' \<in> set known_statuses" by code_simp
  ultimately have "li_status i \<in> set known_statuses" by (rule replay_known)
  then obtain j where j: "lifecycle_step\<^sup>*\<^sup>* i j" "li_status j = ''closed''"
    using closing_path_ok follow_path by metis
  have "reachable_incident j"
    using j(1) assms by (induction rule: rtranclp_induct) (blast intro: reach_step)+
  with j show ?thesis by blast
qed

section \<open>A concrete incident\<close>

definition new_incident :: Incident where
  "new_incident = \<lparr>li_incident_id = ''INC-1'', li_status = ''new'', li_version = Some 1,
     li_audit_events = []\<rparr>"

definition triaged_incident :: Incident where
  "triaged_incident = new_incident\<lparr>li_status := ''triaged'', li_version := Some 2,
     li_audit_events := [audit_of new_incident ''triaged'' system_request ''0'' (Instant 5)]\<rparr>"

lemma triaged_reachable: "reachable_incident triaged_incident"
proof (rule reach_step)
  show "reachable_incident new_incident"
    by (rule reach_initial) (simp add: fresh_incident_def new_incident_def)
  have "''triaged'' \<in> set (allowed_next ''new'')" by code_simp
  then have "transition new_incident ''triaged'' system_request ''0'' (Instant 5)
      = Inr (triaged_incident, Some (audit_of new_incident ''triaged'' system_request ''0'' (Instant 5)))"
    by (simp add: transition_def Let_def new_incident_def triaged_incident_def next_version_def)
  then show "lifecycle_step new_incident triaged_incident" by (rule lifecycle_step.intros)
qed

theorem lifecycle_audit_complete_witness:
  "replay ''new'' (li_audit_events triaged_incident) = Some ''triaged''
   \<and> li_version triaged_incident = Some 2"
  using lifecycle_audit_complete [OF triaged_reachable]
  by (simp add: triaged_incident_def)

theorem lifecycle_can_close_witness:
  "\<exists>j. lifecycle_step\<^sup>*\<^sup>* triaged_incident j \<and> li_status j = ''closed''"
  using lifecycle_can_close [OF triaged_reachable] by blast

end
