(* ===== verification/Resilience.thy ===== *)
theory Resilience
  imports Sha256 Json
begin

text \<open>
  What keeps triage alive when a provider fails: the circuit breaker
  (\<open>triage/circuit_breaker.py\<close>), the bounded retry loop (\<open>triage/retry.py\<close>) and the result
  cache (\<open>triage/cache.py\<close>). Clocks are arguments; seconds are rationals.
\<close>

section \<open>Circuit breaker\<close>

datatype breaker_state = StateClosed | StateOpen | StateHalfOpen

record CircuitBreaker =
  cb_failure_threshold :: int
  cb_reset_seconds :: rat
  cb_failures :: int
  cb_last_failure_time :: rat
  cb_state :: breaker_state

definition new_breaker :: "int \<Rightarrow> rat \<Rightarrow> CircuitBreaker" where
  "new_breaker failure_threshold reset_seconds =
     \<lparr>cb_failure_threshold = failure_threshold, cb_reset_seconds = reset_seconds, cb_failures = 0,
      cb_last_failure_time = 0, cb_state = StateClosed\<rparr>"

definition record_failure :: "rat \<Rightarrow> CircuitBreaker \<Rightarrow> CircuitBreaker" where
  "record_failure now b = (let b' = b\<lparr>cb_failures := cb_failures b + 1, cb_last_failure_time := now\<rparr>
     in if cb_failures b' \<ge> cb_failure_threshold b' then b'\<lparr>cb_state := StateOpen\<rparr> else b')"

definition record_success :: "CircuitBreaker \<Rightarrow> CircuitBreaker" where
  "record_success b = b\<lparr>cb_failures := 0, cb_state := StateClosed\<rparr>"

definition check :: "rat \<Rightarrow> CircuitBreaker \<Rightarrow> string + CircuitBreaker" where
  "check now b =
     (if cb_state b = StateOpen
      then if now - cb_last_failure_time b > cb_reset_seconds b then Inr (b\<lparr>cb_state := StateHalfOpen\<rparr>)
           else Inl ''CircuitBreakerOpenError''
      else Inr b)"

text \<open>The calls a client makes, each at its time. A refused check leaves the breaker as it is.\<close>

datatype breaker_call = Failure rat | Success rat | Check rat

primrec call_time :: "breaker_call \<Rightarrow> rat" where
  "call_time (Failure t) = t"
| "call_time (Success t) = t"
| "call_time (Check t) = t"

primrec apply_call :: "breaker_call \<Rightarrow> CircuitBreaker \<Rightarrow> CircuitBreaker" where
  "apply_call (Failure t) b = record_failure t b"
| "apply_call (Success t) b = record_success b"
| "apply_call (Check t) b = (case check t b of Inl _ \<Rightarrow> b | Inr b' \<Rightarrow> b')"

definition run_calls :: "CircuitBreaker \<Rightarrow> breaker_call list \<Rightarrow> CircuitBreaker" where
  "run_calls b calls = foldl (\<lambda>b c. apply_call c b) b calls"

lemma run_calls_snoc [simp]: "run_calls b (cs @ [c]) = apply_call c (run_calls b cs)"
  by (simp add: run_calls_def)

lemma run_calls_Nil [simp]: "run_calls b [] = b"
  by (simp add: run_calls_def)

text \<open>The specification has no state: it looks at the failures since the last success.\<close>

fun failures_since_success :: "breaker_call list \<Rightarrow> rat list" where
  "failures_since_success [] = []"
| "failures_since_success (Success t # older) = []"
| "failures_since_success (Check t # older) = failures_since_success older"
| "failures_since_success (Failure t # older) = t # failures_since_success older"

definition tripped :: "int \<Rightarrow> rat \<Rightarrow> breaker_call list \<Rightarrow> rat \<Rightarrow> bool" where
  "tripped threshold reset_seconds calls now =
     (case failures_since_success (rev calls) of [] \<Rightarrow> False
      | latest # earlier \<Rightarrow> int (length (latest # earlier)) \<ge> threshold \<and> now - latest \<le> reset_seconds)"

definition breaker_agrees :: "int \<Rightarrow> rat \<Rightarrow> breaker_call list \<Rightarrow> CircuitBreaker \<Rightarrow> bool" where
  "breaker_agrees threshold reset_seconds calls b =
     (let fs = failures_since_success (rev calls) in
      cb_failure_threshold b = threshold \<and> cb_reset_seconds b = reset_seconds \<and>
      cb_failures b = int (length fs) \<and>
      (fs \<noteq> [] \<longrightarrow> cb_last_failure_time b = hd fs) \<and>
      (cb_state b = StateClosed \<longleftrightarrow> int (length fs) < threshold) \<and>
      (cb_state b = StateHalfOpen \<longrightarrow> (\<exists>t \<in> call_time ` set calls. t - hd fs > reset_seconds)))"

lemma breaker_agrees_run:
  assumes "0 < threshold"
  shows "breaker_agrees threshold reset_seconds calls (run_calls (new_breaker threshold reset_seconds) calls)"
proof (induction calls rule: rev_induct)
  case Nil
  with assms show ?case by (simp add: breaker_agrees_def new_breaker_def)
next
  case (snoc c calls)
  let ?b = "run_calls (new_breaker threshold reset_seconds) calls"
  show ?case
  proof (cases c)
    case (Failure t)
    with snoc show ?thesis
      by (auto simp: breaker_agrees_def Let_def record_failure_def)
  next
    case (Success t)
    with snoc assms show ?thesis by (simp add: breaker_agrees_def Let_def record_success_def)
  next
    case (Check t)
    with snoc assms show ?thesis by (auto simp: breaker_agrees_def Let_def check_def)
  qed
qed

text \<open>The circuit breaker is exactly its specification. Whatever calls came before, in time
  order, a check is refused when and only when the threshold of failures without a success in
  between is reached and the latest failure is at most the reset interval ago; every other check
  passes.\<close>

theorem circuit_breaker_exact:
  assumes "0 < threshold" and "sorted (map call_time calls @ [now])"
  shows "(\<exists>e. check now (run_calls (new_breaker threshold reset_seconds) calls) = Inl e)
    \<longleftrightarrow> tripped threshold reset_seconds calls now"
proof -
  let ?b = "run_calls (new_breaker threshold reset_seconds) calls"
  let ?fs = "failures_since_success (rev calls)"
  have a: "breaker_agrees threshold reset_seconds calls ?b" by (rule breaker_agrees_run [OF assms(1)])
  have before: "t \<le> now" if "t \<in> call_time ` set calls" for t
    using that assms(2) by (auto simp: sorted_append)
  have open_iff: "cb_state ?b = StateOpen \<and> now - hd ?fs \<le> reset_seconds
      \<longleftrightarrow> int (length ?fs) \<ge> threshold \<and> now - hd ?fs \<le> reset_seconds"
  proof (cases "cb_state ?b")
    case StateHalfOpen
    then obtain t where "t \<in> call_time ` set calls" "t - hd ?fs > reset_seconds"
      using a by (auto simp: breaker_agrees_def Let_def)
    with before have "\<not> now - hd ?fs \<le> reset_seconds" by force
    then show ?thesis by simp
  qed (use a in \<open>auto simp: breaker_agrees_def Let_def\<close>)
  show ?thesis
  proof (cases ?fs)
    case Nil
    then have "cb_state ?b = StateClosed" using a assms(1) by (simp add: breaker_agrees_def)
    with Nil show ?thesis by (simp add: check_def tripped_def)
  next
    case (Cons latest earlier)
    then have "cb_last_failure_time ?b = latest" "cb_reset_seconds ?b = reset_seconds"
      using a by (auto simp: breaker_agrees_def Let_def)
    with open_iff Cons show ?thesis by (auto simp: check_def tripped_def not_less)
  qed
qed

theorem circuit_breaker_exact_witness:
  "tripped 2 60 [Failure 1, Check 2, Failure 3, Check 4] 5
   \<and> (\<exists>e. check 5 (run_calls (new_breaker 2 60) [Failure 1, Check 2, Failure 3, Check 4]) = Inl e)"
proof -
  have "tripped 2 60 [Failure 1, Check 2, Failure 3, Check 4] 5" by (simp add: tripped_def)
  then show ?thesis
    using circuit_breaker_exact [of 2 "[Failure 1, Check 2, Failure 3, Check 4]" 5 60] by simp
qed

section \<open>Bounded retry\<close>

text \<open>What one call of the wrapped function does: it returns, raises one of the three provider
  errors that are retried, or raises something else. The carried text is the exception.\<close>

datatype 'a call_outcome = Returned 'a | RateLimited "rat option" string | TimedOut string
  | Unavailable string | OtherError string

primrec retryable :: "'a call_outcome \<Rightarrow> string option" where
  "retryable (Returned v) = None"
| "retryable (RateLimited after e) = Some e"
| "retryable (TimedOut e) = Some e"
| "retryable (Unavailable e) = Some e"
| "retryable (OtherError e) = None"

definition retry_delay :: "rat \<Rightarrow> rat \<Rightarrow> nat \<Rightarrow> 'a call_outcome \<Rightarrow> rat" where
  "retry_delay base_delay max_delay attempt outcome =
     (let delay = min (base_delay * 2 ^ (attempt - 1)) max_delay
      in case outcome of
           RateLimited (Some retry_after) e \<Rightarrow> max delay (min (max retry_after 0) 60)
         | _ \<Rightarrow> delay)"

text \<open>The result with the number of failed attempts, and the delays slept. Call number \<open>k\<close> of
  the function (from 0) behaves as \<open>func k\<close>.\<close>

function retry_loop ::
  "(nat \<Rightarrow> 'a call_outcome) \<Rightarrow> int \<Rightarrow> rat \<Rightarrow> rat \<Rightarrow> nat \<Rightarrow> (string + 'a \<times> nat) \<times> rat list" where
  "retry_loop func max_retries base_delay max_delay attempt =
     (case func attempt of
        Returned v \<Rightarrow> (Inr (v, attempt), [])
      | OtherError e \<Rightarrow> (Inl e, [])
      | failure \<Rightarrow>
          if int (Suc attempt) > max_retries then (Inl (the (retryable failure)), [])
          else (case retry_loop func max_retries base_delay max_delay (Suc attempt) of
              (result, sleeps) \<Rightarrow>
                (result, retry_delay base_delay max_delay (Suc attempt) failure # sleeps)))"
  by pat_completeness auto
termination
  by (relation "measure (\<lambda>(func, max_retries, base_delay, max_delay, attempt). nat (max_retries - int attempt))")
    auto

declare retry_loop.simps [simp del]

definition with_retry ::
  "(nat \<Rightarrow> 'a call_outcome) \<Rightarrow> int \<Rightarrow> rat \<Rightarrow> rat \<Rightarrow> (string + 'a \<times> nat) \<times> rat list" where
  "with_retry func max_retries base_delay max_delay = retry_loop func max_retries base_delay max_delay 0"

lemma retry_loop_cases:
  "retry_loop func n b m k =
     (case retryable (func k) of
        None \<Rightarrow> (case func k of Returned v \<Rightarrow> (Inr (v, k), []) | OtherError e \<Rightarrow> (Inl e, []) | _ \<Rightarrow> undefined)
      | Some e \<Rightarrow> if int (Suc k) > n then (Inl e, [])
          else (fst (retry_loop func n b m (Suc k)),
                retry_delay b m (Suc k) (func k) # snd (retry_loop func n b m (Suc k))))"
  by (subst retry_loop.simps) (auto split: call_outcome.split prod.split)

text \<open>The call that decides: the first one that does not raise a retried error, or the last one
  allowed.\<close>

definition decides :: "(nat \<Rightarrow> 'a call_outcome) \<Rightarrow> int \<Rightarrow> nat \<Rightarrow> bool" where
  "decides func max_retries k =
     ((\<forall>j < k. retryable (func j) \<noteq> None) \<and> k \<le> nat max_retries \<and>
      (retryable (func k) = None \<or> k = nat max_retries))"

primrec outcome_result :: "'a call_outcome \<Rightarrow> nat \<Rightarrow> string + 'a \<times> nat" where
  "outcome_result (Returned v) k = Inr (v, k)"
| "outcome_result (RateLimited after e) k = Inl e"
| "outcome_result (TimedOut e) k = Inl e"
| "outcome_result (Unavailable e) k = Inl e"
| "outcome_result (OtherError e) k = Inl e"

lemma retry_loop_decides:
  assumes "k \<le> nat n" and "\<forall>j < k. retryable (func j) \<noteq> None"
  shows "\<exists>d. decides func n d \<and> k \<le> d \<and> fst (retry_loop func n b m k) = outcome_result (func d) d
    \<and> snd (retry_loop func n b m k) = map (\<lambda>j. retry_delay b m (Suc j) (func j)) [k..<d]"
  using assms
proof (induction "nat n - k" arbitrary: k)
  case 0
  then have "k = nat n" by simp
  with 0 have "decides func n k" by (simp add: decides_def)
  moreover have "int (Suc k) > n" using \<open>k = nat n\<close> by linarith
  then have "retry_loop func n b m k = (outcome_result (func k) k, [])"
    by (subst retry_loop_cases) (cases "func k"; simp)
  ultimately show ?case by (intro exI [of _ k]) simp
next
  case (Suc r)
  show ?case
  proof (cases "retryable (func k)")
    case None
    with Suc have "decides func n k" by (simp add: decides_def)
    moreover have "retry_loop func n b m k = (outcome_result (func k) k, [])"
      using None by (subst retry_loop_cases) (cases "func k"; simp)
    ultimately show ?thesis by (intro exI [of _ k]) simp
  next
    case (Some e)
    have "r = nat n - Suc k" and le: "Suc k \<le> nat n" using Suc.hyps(2) by linarith+
    moreover have "\<forall>j < Suc k. retryable (func j) \<noteq> None" using Suc.prems(2) Some by (simp add: less_Suc_eq)
    ultimately obtain d where d: "decides func n d" "Suc k \<le> d"
      "fst (retry_loop func n b m (Suc k)) = outcome_result (func d) d"
      "snd (retry_loop func n b m (Suc k)) = map (\<lambda>j. retry_delay b m (Suc j) (func j)) [Suc k..<d]"
      using Suc.hyps(1) [of "Suc k"] by blast
    have "\<not> int (Suc k) > n" using le by linarith
    then have "retry_loop func n b m k = (fst (retry_loop func n b m (Suc k)),
        retry_delay b m (Suc k) (func k) # snd (retry_loop func n b m (Suc k)))"
      using Some by (subst retry_loop_cases) simp
    with d show ?thesis by (intro exI [of _ d]) (simp add: upt_conv_Cons)
  qed
qed

lemma retry_delay_bounds:
  assumes "0 \<le> b" and "0 \<le> m"
  shows "0 \<le> retry_delay b m k out \<and> retry_delay b m k out \<le> max m 60"
proof -
  have "0 \<le> b * 2 ^ (k - 1)" using assms(1) by simp
  with assms(2) have "0 \<le> min (b * 2 ^ (k - 1)) m" by simp
  then show ?thesis
    by (auto simp: retry_delay_def Let_def le_max_iff_disj min_le_iff_disj split: call_outcome.split option.split)
qed

text \<open>The retry loop always ends. One call decides: the first that does not raise a retried
  provider error, or the one after \<open>max_retries\<close> failures, so the function is called at most
  \<open>max_retries + 1\<close> times; the result is that call's result, there is one sleep per failed call
  before it, and every sleep is between zero and the larger of the maximal delay and a minute.\<close>

theorem retry_bounded:
  assumes "0 \<le> base_delay" and "0 \<le> max_delay"
  shows "\<exists>k. decides func max_retries k \<and> k \<le> nat max_retries
    \<and> fst (with_retry func max_retries base_delay max_delay) = outcome_result (func k) k
    \<and> length (snd (with_retry func max_retries base_delay max_delay)) = k
    \<and> (\<forall>s \<in> set (snd (with_retry func max_retries base_delay max_delay)). 0 \<le> s \<and> s \<le> max max_delay 60)"
proof -
  obtain k where k: "decides func max_retries k"
    "fst (with_retry func max_retries base_delay max_delay) = outcome_result (func k) k"
    "snd (with_retry func max_retries base_delay max_delay)
       = map (\<lambda>j. retry_delay base_delay max_delay (Suc j) (func j)) [0..<k]"
    using retry_loop_decides [of 0 max_retries func base_delay max_delay]
    by (auto simp: with_retry_def)
  moreover have "\<forall>s \<in> set (map (\<lambda>j. retry_delay base_delay max_delay (Suc j) (func j)) [0..<k]).
      0 \<le> s \<and> s \<le> max max_delay 60"
    using retry_delay_bounds [OF assms] by auto
  ultimately show ?thesis by (intro exI [of _ k]) (simp add: decides_def)
qed

theorem retry_bounded_witness:
  "\<exists>k \<le> 3. decides (\<lambda>k. if k < 2 then TimedOut ''t'' else Returned ''ok'') 3 k
    \<and> fst (with_retry (\<lambda>k. if k < 2 then TimedOut ''t'' else Returned ''ok'') 3 1 10)
        = outcome_result (if k < 2 then TimedOut ''t'' else Returned ''ok'') k"
  using retry_bounded [of 1 10 "\<lambda>k. if k < 2 then TimedOut ''t'' else Returned ''ok''" 3] by auto

section \<open>The result cache\<close>

text \<open>Keys map to a value and the time it expires. Reading an expired entry removes it.\<close>

type_synonym 'v cache = "(string \<times> ('v \<times> rat)) list"

definition cache_get :: "string \<Rightarrow> rat \<Rightarrow> 'v cache \<Rightarrow> 'v option \<times> 'v cache" where
  "cache_get key now store =
     (case map_of store key of
        None \<Rightarrow> (None, store)
      | Some (item, expires_at) \<Rightarrow>
          if now < expires_at then (Some item, store) else (None, AList.delete key store))"

definition cache_set :: "string \<Rightarrow> 'v \<Rightarrow> rat \<Rightarrow> rat \<Rightarrow> 'v cache \<Rightarrow> 'v cache" where
  "cache_set key v ttl_seconds now store = AList.update key (v, now + ttl_seconds) store"

datatype 'v cache_call = Get string rat | Put string 'v rat rat

primrec cache_time :: "'v cache_call \<Rightarrow> rat" where
  "cache_time (Get key t) = t"
| "cache_time (Put key v ttl t) = t"

primrec apply_cache_call :: "'v cache_call \<Rightarrow> 'v cache \<Rightarrow> 'v cache" where
  "apply_cache_call (Get key t) store = snd (cache_get key t store)"
| "apply_cache_call (Put key v ttl t) store = cache_set key v ttl t store"

definition run_cache :: "'v cache_call list \<Rightarrow> 'v cache" where
  "run_cache calls = foldl (\<lambda>s c. apply_cache_call c s) [] calls"

text \<open>The latest write of a key, newest call first, with its expiry.\<close>

fun latest_write :: "string \<Rightarrow> 'v cache_call list \<Rightarrow> ('v \<times> rat) option" where
  "latest_write key [] = None"
| "latest_write key (Get k t # older) = latest_write key older"
| "latest_write key (Put k v ttl t # older) = (if k = key then Some (v, t + ttl) else latest_write key older)"

definition live :: "('v \<times> rat) option \<Rightarrow> rat \<Rightarrow> 'v option" where
  "live w now = (case w of None \<Rightarrow> None | Some (v, expires_at) \<Rightarrow> if now < expires_at then Some v else None)"

lemma run_cache_snoc: "run_cache (cs @ [c]) = apply_cache_call c (run_cache cs)"
  by (simp add: run_cache_def)

text \<open>The store holds the latest write of each key, or nothing when that write has been seen
  expired.\<close>

lemma run_cache_entry:
  assumes "sorted (map cache_time calls)" and "\<forall>t \<in> set (map cache_time calls). t \<le> now"
  shows "map_of (run_cache calls) key = latest_write key (rev calls)
    \<or> map_of (run_cache calls) key = None \<and> live (latest_write key (rev calls)) now = None"
  using assms
proof (induction calls arbitrary: now rule: rev_induct)
  case Nil
  then show ?case by (simp add: run_cache_def)
next
  case (snoc c calls)
  have earlier: "sorted (map cache_time calls)" "\<forall>t \<in> set (map cache_time calls). t \<le> cache_time c"
    and c: "cache_time c \<le> now" using snoc.prems by (auto simp: sorted_append)
  note ih = snoc.IH [OF earlier]
  show ?case
  proof (cases c)
    case (Get k t)
    with c have "t \<le> now" by simp
    then have later: "live w t = None \<Longrightarrow> live w now = None" for w :: "('a \<times> rat) option"
      by (auto simp: live_def split: option.splits if_splits)
    have t: "cache_time c = t" using Get by simp
    show ?thesis
      using ih [unfolded t] later [of "latest_write key (rev calls)"] Get
      by (auto simp: run_cache_snoc cache_get_def live_def delete_conv' split: option.splits if_splits prod.splits)
  next
    case (Put k v ttl t)
    show ?thesis
      using ih Put c by (auto simp: run_cache_snoc cache_set_def update_conv' live_def split: option.splits if_splits)
  qed
qed

text \<open>The cache never serves a stale or foreign result: whatever calls came before, in time
  order, a read returns the value most recently written under exactly this key, and only while the
  life given at that write lasts. Dropping expired entries on reads is invisible.\<close>

theorem cache_serves_latest:
  assumes "sorted (map cache_time calls @ [now])"
  shows "fst (cache_get key now (run_cache calls)) = live (latest_write key (rev calls)) now"
proof -
  have "sorted (map cache_time calls)" and "\<forall>t \<in> set (map cache_time calls). t \<le> now"
    using assms by (auto simp: sorted_append)
  from run_cache_entry [OF this, of key] show ?thesis
    by (auto simp: cache_get_def live_def split: option.splits)
qed

theorem cache_serves_latest_witness:
  "fst (cache_get ''a'' 9 (run_cache [Put ''a'' (1::nat) 5 0, Get ''a'' 6, Put ''a'' 2 5 7, Put ''b'' 3 5 8]))
     = Some 2"
  using cache_serves_latest [of "[Put ''a'' (1::nat) 5 0, Get ''a'' 6, Put ''a'' 2 5 7, Put ''b'' 3 5 8]" 9 "''a''"]
  by (simp add: live_def)

record cache_key_parts =
  ck_incident_id :: string
  ck_incident_content_hash :: string
  ck_model :: string
  ck_provider :: string
  ck_prompt_version :: string
  ck_schema_version :: string
  ck_validation_policy_version :: string

definition cache_key_text :: "cache_key_parts \<Rightarrow> string" where
  "cache_key_text p =
     ''{'' @ py_join '','' (map (\<lambda>(k, v). json_string k @ '':'' @ json_string v)
       [(''incident_content_hash'', ck_incident_content_hash p), (''incident_id'', ck_incident_id p),
        (''model'', ck_model p), (''prompt_version'', ck_prompt_version p),
        (''provider'', ck_provider p), (''schema_version'', ck_schema_version p),
        (''validation_policy_version'', ck_validation_policy_version p)]) @ ''}''"

definition build_cache_key :: "cache_key_parts \<Rightarrow> string" where
  "build_cache_key p = sha256_hex (cache_key_text p)"

text \<open>The hashed text determines all seven parts.\<close>

lemma cache_key_text_inj:
  assumes "cache_key_text p = cache_key_text q"
  shows "p = (q :: cache_key_parts)"
proof -
  note eq = assms [unfolded cache_key_text_def list.map prod.case py_join.simps append_assoc same_append_eq]
  note a = json_string_prefix_free [OF eq]
  note b = json_string_prefix_free [OF a [THEN conjunct2, unfolded same_append_eq]]
  note c = json_string_prefix_free [OF b [THEN conjunct2, unfolded same_append_eq]]
  note d = json_string_prefix_free [OF c [THEN conjunct2, unfolded same_append_eq]]
  note e = json_string_prefix_free [OF d [THEN conjunct2, unfolded same_append_eq]]
  note f = json_string_prefix_free [OF e [THEN conjunct2, unfolded same_append_eq]]
  note g = json_string_prefix_free [OF f [THEN conjunct2, unfolded same_append_eq]]
  show ?thesis using a b c d e f g by (intro cache_key_parts.equality) auto
qed

end
