(* ===== verification/RateLimit.thy ===== *)
theory RateLimit
  imports SocPrelude
begin

text \<open>
  Rate limiting (\<open>security/rate_limiting.py\<close>, \<open>security/abuse_protection.py\<close>): the in-memory
  fixed-window limiter with its periodic clean-up, the decision of the Redis limiter from the two
  numbers its script returns, and the manager that enforces a policy. Clock readings are rational
  seconds.
\<close>

section \<open>Decisions\<close>

record RateLimitDecision =
  rl_allowed :: bool
  rl_limit :: int
  rl_remaining :: int
  rl_retry_after_seconds :: int
  rl_reset_at :: rat

definition validate_consumption :: "int \<Rightarrow> int \<Rightarrow> int \<Rightarrow> bool" where
  "validate_consumption quota window_seconds cost =
     (\<not> (quota < 1 \<or> window_seconds < 1 \<or> cost < 1 \<or> cost > quota))"

section \<open>The in-memory limiter\<close>

record MemoryWindow =
  w_count :: int
  w_reset_timestamp :: rat

record InMemoryRateLimiter =
  il_windows :: "(string \<times> MemoryWindow) list"
  il_next_cleanup_at :: rat

definition new_limiter :: InMemoryRateLimiter where
  "new_limiter = \<lparr>il_windows = [], il_next_cleanup_at = 0\<rparr>"

definition cleaned :: "rat \<Rightarrow> int \<Rightarrow> InMemoryRateLimiter \<Rightarrow> InMemoryRateLimiter" where
  "cleaned now window_seconds l =
     (if now \<ge> il_next_cleanup_at l
      then \<lparr>il_windows = filter (\<lambda>(k, w). now < w_reset_timestamp w) (il_windows l),
            il_next_cleanup_at = now + of_int (min window_seconds 60)\<rparr>
      else l)"

definition current_window :: "rat \<Rightarrow> int \<Rightarrow> MemoryWindow option \<Rightarrow> MemoryWindow" where
  "current_window now window_seconds found =
     (case found of
        Some w \<Rightarrow> if now \<ge> w_reset_timestamp w
          then \<lparr>w_count = 0, w_reset_timestamp = now + of_int window_seconds\<rparr> else w
      | None \<Rightarrow> \<lparr>w_count = 0, w_reset_timestamp = now + of_int window_seconds\<rparr>)"

definition charge :: "int \<Rightarrow> int \<Rightarrow> MemoryWindow \<Rightarrow> MemoryWindow" where
  "charge quota cost w = w\<lparr>w_count := min (w_count w + cost) (quota + cost)\<rparr>"

definition decision_of :: "rat \<Rightarrow> int \<Rightarrow> int \<Rightarrow> MemoryWindow \<Rightarrow> RateLimitDecision" where
  "decision_of now quota window_seconds w =
     \<lparr>rl_allowed = (w_count w \<le> quota), rl_limit = quota, rl_remaining = max (quota - w_count w) 0,
      rl_retry_after_seconds =
        max 1 (min window_seconds \<lfloor>w_reset_timestamp w - now + 999999 / 1000000\<rfloor>),
      rl_reset_at = w_reset_timestamp w\<rparr>"

definition consume ::
  "rat \<Rightarrow> string \<Rightarrow> int \<Rightarrow> int \<Rightarrow> int \<Rightarrow> InMemoryRateLimiter
     \<Rightarrow> string + (RateLimitDecision \<times> InMemoryRateLimiter)" where
  "consume now key quota window_seconds cost l =
     (if \<not> validate_consumption quota window_seconds cost then Inl ''rate_limit_arguments_invalid''
      else (let l' = cleaned now window_seconds l;
          w = charge quota cost (current_window now window_seconds (map_of (il_windows l') key))
        in Inr (decision_of now quota window_seconds w,
             l'\<lparr>il_windows := AList.update key w (il_windows l')\<rparr>)))"

text \<open>\<open>RedisRateLimiter.consume\<close> after the script: \<open>reply\<close> is what the store
  answered (the counter and the time to live), \<open>None\<close> when it could not be reached.\<close>

definition redis_consume ::
  "rat \<Rightarrow> int \<Rightarrow> int \<Rightarrow> int \<Rightarrow> (int \<times> int) option \<Rightarrow> string + RateLimitDecision" where
  "redis_consume now quota window_seconds cost reply =
     (if \<not> validate_consumption quota window_seconds cost then Inl ''rate_limit_arguments_invalid''
      else (case reply of
          None \<Rightarrow> Inl ''rate_limit_unavailable''
        | Some (current, remaining_ttl) \<Rightarrow>
            (let ttl = max 1 (min window_seconds remaining_ttl)
             in Inr \<lparr>rl_allowed = (current \<le> quota), rl_limit = quota, rl_remaining = max (quota - current) 0,
                  rl_retry_after_seconds = ttl, rl_reset_at = now + of_int ttl\<rparr>)))"

section \<open>Enforcing a policy\<close>

datatype RateLimitCategory = GENERAL | AUTHENTICATION_FAILURE | JOB_SUBMISSION | MUTATION | READ
  | DOCUMENTATION

record RateLimitPolicy =
  rp_limit :: int
  rp_window_seconds :: int

datatype enforcement = NotEnforced | Granted RateLimitDecision | Exceeded RateLimitCategory RateLimitDecision
  | EnforcementError string

text \<open>\<open>_enforce\<close>; the limiter is whatever backend was selected, with its own state.\<close>

definition enforce ::
  "bool \<Rightarrow> (RateLimitCategory \<Rightarrow> RateLimitPolicy) \<Rightarrow>
     (int \<Rightarrow> int \<Rightarrow> 's \<Rightarrow> string + (RateLimitDecision \<times> 's)) \<Rightarrow> RateLimitCategory \<Rightarrow> 's \<Rightarrow> enforcement \<times> 's" where
  "enforce enabled policies consume_key category st =
     (if \<not> enabled then (NotEnforced, st)
      else (case consume_key (rp_limit (policies category)) (rp_window_seconds (policies category)) st of
          Inl e \<Rightarrow> (EnforcementError e, st)
        | Inr (decision, st') \<Rightarrow>
            if rl_allowed decision then (Granted decision, st') else (Exceeded category decision, st')))"

section \<open>One key at a time\<close>

text \<open>The state the limiter keeps for a key, seen without the clean-up: a window that has ended
  is no window.\<close>

definition live_window :: "rat \<Rightarrow> MemoryWindow option \<Rightarrow> MemoryWindow option" where
  "live_window now found =
     (case found of None \<Rightarrow> None | Some w \<Rightarrow> if now < w_reset_timestamp w then Some w else None)"

lemma current_window_live: "current_window now ws (live_window now found) = current_window now ws found"
  by (auto simp: current_window_def live_window_def split: option.splits)

lemma live_window_later:
  "now \<le> now' \<Longrightarrow> live_window now' (live_window now found) = live_window now' found"
  by (auto simp: live_window_def split: option.splits)

lemma map_of_filter_values:
  assumes "distinct (map fst xs)"
  shows "map_of (filter (\<lambda>(k, w). p w) xs) key =
     (case map_of xs key of None \<Rightarrow> None | Some w \<Rightarrow> if p w then Some w else None)"
  using assms
proof (induction xs)
  case Nil
  then show ?case by simp
next
  case (Cons a xs)
  have absent: "map_of (filter (\<lambda>(k, w). p w) xs) (fst a) = None"
    using Cons.prems by (force simp: map_of_eq_None_iff)
  from Cons absent show ?case by (cases a) (auto split: option.splits)
qed

record limiter_call =
  lc_time :: rat
  lc_key :: string
  lc_limit :: int
  lc_window :: int
  lc_cost :: int

definition valid_call :: "limiter_call \<Rightarrow> bool" where
  "valid_call c = validate_consumption (lc_limit c) (lc_window c) (lc_cost c)"

definition consume_call :: "limiter_call \<Rightarrow> InMemoryRateLimiter \<Rightarrow> string + (RateLimitDecision \<times> InMemoryRateLimiter)" where
  "consume_call c = consume (lc_time c) (lc_key c) (lc_limit c) (lc_window c) (lc_cost c)"

text \<open>The decisions of a sequence of calls; a refused argument changes nothing.\<close>

fun outcomes :: "InMemoryRateLimiter \<Rightarrow> limiter_call list \<Rightarrow> (limiter_call \<times> RateLimitDecision) list" where
  "outcomes l [] = []"
| "outcomes l (c # cs) =
     (case consume_call c l of Inl e \<Rightarrow> outcomes l cs | Inr (d, l') \<Rightarrow> (c, d) # outcomes l' cs)"

text \<open>The reference: one key, one window, no dictionary and no clean-up.\<close>

definition charged :: "limiter_call \<Rightarrow> MemoryWindow option \<Rightarrow> MemoryWindow" where
  "charged c found = charge (lc_limit c) (lc_cost c) (current_window (lc_time c) (lc_window c) found)"

definition call_decision :: "limiter_call \<Rightarrow> MemoryWindow \<Rightarrow> RateLimitDecision" where
  "call_decision c w = decision_of (lc_time c) (lc_limit c) (lc_window c) w"

fun key_outcomes :: "MemoryWindow option \<Rightarrow> limiter_call list \<Rightarrow> (limiter_call \<times> RateLimitDecision) list" where
  "key_outcomes found [] = []"
| "key_outcomes found (c # cs) =
     (if valid_call c
      then (c, call_decision c (charged c found)) # key_outcomes (Some (charged c found)) cs
      else key_outcomes found cs)"

lemma consume_call_invalid: "\<not> valid_call c \<Longrightarrow> consume_call c l = Inl ''rate_limit_arguments_invalid''"
  by (simp add: consume_call_def consume_def valid_call_def)

lemma consume_call_valid:
  assumes "valid_call c" and "distinct (map fst (il_windows l))"
  shows "\<exists>l'. consume_call c l =
      Inr (call_decision c (charged c (map_of (il_windows l) (lc_key c))), l')
    \<and> distinct (map fst (il_windows l'))
    \<and> (\<forall>now \<ge> lc_time c. \<forall>k. live_window now (map_of (il_windows l') k) =
         (if k = lc_key c then live_window now (Some (charged c (map_of (il_windows l) (lc_key c))))
          else live_window now (map_of (il_windows l) k)))"
proof -
  define l1 where "l1 = cleaned (lc_time c) (lc_window c) l"
  have d1: "distinct (map fst (il_windows l1))"
    using assms(2) by (auto simp: l1_def cleaned_def distinct_map_filter)
  have live1: "live_window now (map_of (il_windows l1) k) = live_window now (map_of (il_windows l) k)"
    if "now \<ge> lc_time c" for now k
    using that map_of_filter_values [OF assms(2), of "\<lambda>w. lc_time c < w_reset_timestamp w" k]
    by (auto simp: l1_def cleaned_def live_window_def split: option.splits)
  have "charged c (map_of (il_windows l1) (lc_key c)) = charged c (map_of (il_windows l) (lc_key c))"
    unfolding charged_def using live1 [of "lc_time c" "lc_key c"] by (metis current_window_live order_refl)
  moreover have "consume_call c l = Inr (call_decision c (charged c (map_of (il_windows l1) (lc_key c))),
      l1\<lparr>il_windows := AList.update (lc_key c) (charged c (map_of (il_windows l1) (lc_key c))) (il_windows l1)\<rparr>)"
    using assms(1)
    by (simp add: consume_call_def consume_def valid_call_def Let_def l1_def charged_def call_decision_def)
  ultimately show ?thesis using d1 live1 by (auto simp: distinct_update update_conv')
qed

lemma charged_live: "charged c (live_window (lc_time c) found) = charged c found"
  by (simp add: charged_def current_window_live)

lemma outcomes_key:
  assumes "sorted (map lc_time calls)" and "distinct (map fst (il_windows l))"
    and "\<forall>c \<in> set calls. T \<le> lc_time c"
    and "\<forall>now \<ge> T. live_window now (map_of (il_windows l) k) = live_window now found"
  shows "filter (\<lambda>(c, d). lc_key c = k) (outcomes l calls)
    = key_outcomes found (filter (\<lambda>c. lc_key c = k) calls)"
  using assms
proof (induction calls arbitrary: l found T)
  case Nil
  then show ?case by simp
next
  case (Cons c cs)
  have sorted: "sorted (map lc_time cs)" and later: "\<forall>c' \<in> set cs. lc_time c \<le> lc_time c'"
    and c: "T \<le> lc_time c" using Cons.prems by auto
  show ?case
  proof (cases "valid_call c")
    case False
    have "filter (\<lambda>(c, d). lc_key c = k) (outcomes l cs)
        = key_outcomes found (filter (\<lambda>c. lc_key c = k) cs)"
      using Cons.IH [OF sorted Cons.prems(2) _ Cons.prems(4)] Cons.prems(3) by simp
    with False show ?thesis by (simp add: consume_call_invalid)
  next
    case True
    obtain l' where l': "consume_call c l = Inr (call_decision c (charged c (map_of (il_windows l) (lc_key c))), l')"
      "distinct (map fst (il_windows l'))"
      "\<forall>now \<ge> lc_time c. \<forall>k. live_window now (map_of (il_windows l') k) =
         (if k = lc_key c then live_window now (Some (charged c (map_of (il_windows l) (lc_key c))))
          else live_window now (map_of (il_windows l) k))"
      using consume_call_valid [OF True Cons.prems(2)] by blast
    show ?thesis
    proof (cases "lc_key c = k")
      case False
      have "\<forall>now \<ge> lc_time c. live_window now (map_of (il_windows l') k) = live_window now found"
        using l'(3) False Cons.prems(4) c by auto
      from Cons.IH [OF sorted l'(2) later this] l'(1) False show ?thesis by simp
    next
      case own: True
      have same: "charged c (map_of (il_windows l) k) = charged c found"
        using Cons.prems(4) c charged_live by metis
      have "\<forall>now \<ge> lc_time c. live_window now (map_of (il_windows l') k) = live_window now (Some (charged c found))"
        using l'(3) own same by auto
      from Cons.IH [OF sorted l'(2) later this] l'(1) own True same show ?thesis by simp
    qed
  qed
qed

text \<open>C32: keys never influence each other and the clean-up is invisible: for calls in time order,
  the decisions about one key are those of a single window for that key, fed with that key's calls
  only.\<close>

theorem rate_limit_isolated:
  assumes "sorted (map lc_time calls)"
  shows "filter (\<lambda>(c, d). lc_key c = k) (outcomes new_limiter calls)
    = key_outcomes None (filter (\<lambda>c. lc_key c = k) calls)"
proof (cases calls)
  case Nil
  then show ?thesis by simp
next
  case (Cons c cs)
  then show ?thesis
    using assms outcomes_key [of calls new_limiter "lc_time c" k None] by (simp add: new_limiter_def)
qed

section \<open>How much a key is granted\<close>

definition granted :: "(limiter_call \<times> RateLimitDecision) list \<Rightarrow> int" where
  "granted outs = sum_list (map (\<lambda>(c, d). lc_cost c) (filter (\<lambda>(c, d). rl_allowed d) outs))"

definition in_window :: "rat \<Rightarrow> (limiter_call \<times> RateLimitDecision) list \<Rightarrow> (limiter_call \<times> RateLimitDecision) list" where
  "in_window r outs = filter (\<lambda>(c, d). rl_reset_at d = r) outs"

definition uniform :: "int \<Rightarrow> int \<Rightarrow> limiter_call list \<Rightarrow> bool" where
  "uniform quota ws calls = (\<forall>c \<in> set calls. lc_limit c = quota \<and> lc_window c = ws)"

lemma granted_simps [simp]:
  "granted [] = 0"
  "granted ((c, d) # outs) = (if rl_allowed d then lc_cost c else 0) + granted outs"
  by (simp_all add: granted_def)

lemma in_window_simps [simp]:
  "in_window r [] = []"
  "in_window r ((c, d) # outs) = (if rl_reset_at d = r then (c, d) # in_window r outs else in_window r outs)"
  by (simp_all add: in_window_def)

lemma call_decision_simps [simp]:
  "rl_reset_at (call_decision c w) = w_reset_timestamp w"
  "rl_allowed (call_decision c w) \<longleftrightarrow> w_count w \<le> lc_limit c"
  by (simp_all add: call_decision_def decision_of_def)

lemma key_outcomes_resets:
  assumes "(c, d) \<in> set (key_outcomes (Some w) calls)" and "\<forall>c \<in> set calls. valid_call c \<longrightarrow> 1 \<le> lc_window c"
  shows "w_reset_timestamp w \<le> rl_reset_at d"
  using assms
proof (induction calls arbitrary: w)
  case (Cons c' cs)
  have step: "w_reset_timestamp w \<le> w_reset_timestamp (charged c' (Some w))" if "valid_call c'"
    using Cons.prems(2) that by (auto simp: charged_def charge_def current_window_def)
  show ?case
  proof (cases "valid_call c'")
    case False
    with Cons show ?thesis by simp
  next
    case True
    with Cons.prems(1) consider "d = call_decision c' (charged c' (Some w))"
      | "(c, d) \<in> set (key_outcomes (Some (charged c' (Some w))) cs)" by auto
    then show ?thesis
    proof cases
      case 1
      with step [OF True] show ?thesis by simp
    next
      case 2
      with Cons.IH Cons.prems(2) have "w_reset_timestamp (charged c' (Some w)) \<le> rl_reset_at d" by simp
      with step [OF True] show ?thesis by simp
    qed
  qed
qed simp

lemma granted_empty: "(\<forall>(c, d) \<in> set outs. rl_reset_at d \<noteq> r) \<Longrightarrow> granted (in_window r outs) = 0"
  by (induction outs) auto

text \<open>What is left of a window bounds what is granted in it from now on.\<close>

definition window_room :: "int \<Rightarrow> rat \<Rightarrow> MemoryWindow option \<Rightarrow> int" where
  "window_room quota r found = (case found of None \<Rightarrow> quota
     | Some w \<Rightarrow> if w_reset_timestamp w = r then max 0 (quota - w_count w) else quota)"

lemma granted_in_window:
  assumes "uniform quota ws calls" and "1 \<le> ws" and "0 \<le> quota"
    and "\<forall>w. found = Some w \<longrightarrow> 0 \<le> w_count w"
  shows "granted (in_window r (key_outcomes found calls)) \<le> window_room quota r found"
  using assms
proof (induction calls arbitrary: found)
  case Nil
  then show ?case by (simp add: window_room_def split: option.split)
next
  case (Cons c cs)
  have c: "lc_limit c = quota" "lc_window c = ws" and cs: "uniform quota ws cs"
    using Cons.prems(1) by (auto simp: uniform_def)
  show ?case
  proof (cases "valid_call c")
    case False
    with Cons.IH [OF cs Cons.prems(2-4)] show ?thesis by simp
  next
    case True
    then have cost: "1 \<le> lc_cost c" by (simp add: valid_call_def validate_consumption_def)
    let ?w = "charged c found"
    have count: "0 \<le> w_count ?w"
      using Cons.prems(3,4) cost c by (auto simp: charged_def charge_def current_window_def split: option.split)
    have ih: "granted (in_window r (key_outcomes (Some ?w) cs)) \<le> window_room quota r (Some ?w)"
      using Cons.IH [OF cs Cons.prems(2,3)] count by simp
    show ?thesis
    proof (cases "w_reset_timestamp ?w = r")
      case True
      have "(if w_count ?w \<le> quota then lc_cost c else 0) + max 0 (quota - w_count ?w)
          \<le> window_room quota r found"
        using Cons.prems(2-4) True c cost
        by (auto simp: window_room_def charged_def charge_def current_window_def split: option.splits if_splits)
      with ih True \<open>valid_call c\<close> c show ?thesis by (simp add: window_room_def)
    next
      case False
      show ?thesis
      proof (cases "w_reset_timestamp ?w > r")
        case True
        have "\<forall>(c, d) \<in> set (key_outcomes (Some ?w) cs). rl_reset_at d \<noteq> r"
          using key_outcomes_resets [of _ _ ?w cs] True cs Cons.prems(2) by (fastforce simp: uniform_def)
        then have "granted (in_window r (key_outcomes found (c # cs))) = 0"
          using False \<open>valid_call c\<close> by (simp add: granted_empty)
        with Cons.prems(3) show ?thesis by (simp add: window_room_def split: option.split)
      next
        case earlier: False
        have "window_room quota r (Some ?w) \<le> window_room quota r found"
          using False earlier Cons.prems(2) c
          by (auto simp: window_room_def charged_def charge_def current_window_def split: option.splits if_splits)
        with ih False \<open>valid_call c\<close> show ?thesis by simp
      qed
    qed
  qed
qed

lemma granted_one_window:
  "uniform quota ws calls \<Longrightarrow> 1 \<le> ws \<Longrightarrow> 0 \<le> quota \<Longrightarrow>
     granted (in_window r (key_outcomes None calls)) \<le> quota"
  using granted_in_window [of quota ws calls None r] by (simp add: window_room_def)

lemma next_reset:
  assumes "lc_window c = ws" and "1 \<le> ws"
  shows "w_reset_timestamp (charged c (Some w)) = w_reset_timestamp w
    \<or> w_reset_timestamp w + of_int ws \<le> w_reset_timestamp (charged c (Some w))"
  using assms by (auto simp: charged_def charge_def current_window_def)

lemma resets_after:
  assumes "uniform quota ws calls" and "1 \<le> ws" and "(c, d) \<in> set (key_outcomes (Some w) calls)"
  shows "rl_reset_at d = w_reset_timestamp w \<or> w_reset_timestamp w + of_int ws \<le> rl_reset_at d"
  using assms
proof (induction calls arbitrary: w)
  case (Cons c' cs)
  have c': "lc_window c' = ws" and cs: "uniform quota ws cs" using Cons.prems(1) by (auto simp: uniform_def)
  note step = next_reset [OF c' Cons.prems(2), of w]
  have pos: "(0::rat) \<le> of_int ws" using Cons.prems(2) by simp
  show ?case
  proof (cases "valid_call c'")
    case False
    with Cons cs show ?thesis by simp
  next
    case True
    with Cons.prems(3) consider "d = call_decision c' (charged c' (Some w))"
      | "(c, d) \<in> set (key_outcomes (Some (charged c' (Some w))) cs)" by auto
    then show ?thesis
    proof cases
      case 1
      with step show ?thesis by simp
    next
      case 2
      from Cons.IH [OF cs Cons.prems(2) 2] step pos show ?thesis by linarith
    qed
  qed
qed simp

lemma resets_spaced:
  assumes "uniform quota ws calls" and "1 \<le> ws"
    and "(c, d) \<in> set (key_outcomes found calls)" and "(c', d') \<in> set (key_outcomes found calls)"
    and "rl_reset_at d < rl_reset_at d'"
  shows "rl_reset_at d + of_int ws \<le> rl_reset_at d'"
  using assms
proof (induction calls arbitrary: found)
  case (Cons c0 cs)
  have cs: "uniform quota ws cs" using Cons.prems(1) by (simp add: uniform_def)
  show ?case
  proof (cases "valid_call c0")
    case False
    with Cons cs show ?thesis by simp
  next
    case True
    let ?w = "charged c0 found"
    have later: "rl_reset_at x = w_reset_timestamp ?w \<or> w_reset_timestamp ?w + of_int ws \<le> rl_reset_at x"
      if "(y, x) \<in> set (key_outcomes (Some ?w) cs)" for y x
      using resets_after [OF cs Cons.prems(2) that] .
    have pos: "(0::rat) \<le> of_int ws" using Cons.prems(2) by simp
    consider "rl_reset_at d = w_reset_timestamp ?w" "rl_reset_at d' = w_reset_timestamp ?w"
      | "rl_reset_at d = w_reset_timestamp ?w" "(c', d') \<in> set (key_outcomes (Some ?w) cs)"
      | "(c, d) \<in> set (key_outcomes (Some ?w) cs)" "rl_reset_at d' = w_reset_timestamp ?w"
      | "(c, d) \<in> set (key_outcomes (Some ?w) cs)" "(c', d') \<in> set (key_outcomes (Some ?w) cs)"
      using Cons.prems(3,4) True by auto
    then show ?thesis
    proof cases
      case 2
      with later [OF 2(2)] Cons.prems(5) show ?thesis by linarith
    next
      case 3
      with later [OF 3(1)] Cons.prems(5) pos show ?thesis by linarith
    next
      case 4
      from Cons.IH [OF cs Cons.prems(2) 4 Cons.prems(5)] show ?thesis .
    qed (use Cons.prems(5) in simp)
  qed
qed simp

lemma reset_near_call:
  assumes "uniform quota ws calls" and "1 \<le> ws" and "sorted (map lc_time calls)"
    and "\<forall>c \<in> set calls. \<forall>w. found = Some w \<longrightarrow> w_reset_timestamp w \<le> lc_time c + of_int ws"
    and "(c, d) \<in> set (key_outcomes found calls)"
  shows "lc_time c < rl_reset_at d \<and> rl_reset_at d \<le> lc_time c + of_int ws"
  using assms
proof (induction calls arbitrary: found)
  case (Cons c0 cs)
  have c0: "lc_window c0 = ws" and cs: "uniform quota ws cs" and sorted: "sorted (map lc_time cs)"
    and after: "\<forall>c \<in> set cs. lc_time c0 \<le> lc_time c"
    using Cons.prems(1,3) by (auto simp: uniform_def)
  show ?case
  proof (cases "valid_call c0")
    case False
    then have "(c, d) \<in> set (key_outcomes found cs)" using Cons.prems(5) by simp
    with Cons.IH [OF cs Cons.prems(2) sorted] Cons.prems(4) show ?thesis by (meson list.set_intros(2))
  next
    case True
    let ?w = "charged c0 found"
    have w: "lc_time c0 < w_reset_timestamp ?w \<and> w_reset_timestamp ?w \<le> lc_time c0 + of_int ws"
      using c0 Cons.prems(2,4) by (auto simp: charged_def charge_def current_window_def split: option.splits)
    with Cons.prems(5) True consider "c = c0" "d = call_decision c0 ?w"
      | "(c, d) \<in> set (key_outcomes (Some ?w) cs)" by auto
    then show ?thesis
    proof cases
      case 1
      with w show ?thesis by simp
    next
      case 2
      have "w_reset_timestamp ?w \<le> lc_time c' + of_int ws" if "c' \<in> set cs" for c'
        using w after that by force
      with Cons.IH [OF cs Cons.prems(2) sorted _ 2] show ?thesis by simp
    qed
  qed
qed simp

definition between :: "rat \<Rightarrow> rat \<Rightarrow> (limiter_call \<times> RateLimitDecision) list \<Rightarrow> (limiter_call \<times> RateLimitDecision) list" where
  "between a b outs = filter (\<lambda>(c, d). a \<le> lc_time c \<and> lc_time c < b) outs"

lemma granted_two_windows:
  assumes "\<forall>(c, d) \<in> set outs. a \<le> lc_time c \<and> lc_time c < b \<longrightarrow> rl_reset_at d = r \<or> rl_reset_at d = r'"
    and "\<forall>(c, d) \<in> set outs. 0 \<le> lc_cost c"
  shows "granted (between a b outs) \<le> granted (in_window r outs) + granted (in_window r' outs)"
  using assms
proof (induction outs)
  case Nil
  then show ?case by (simp add: between_def)
next
  case (Cons x outs)
  obtain c d where x: "x = (c, d)" by (cases x)
  have ih: "granted (between a b outs) \<le> granted (in_window r outs) + granted (in_window r' outs)"
    using Cons by auto
  have "0 \<le> lc_cost c" using Cons.prems(2) x by auto
  with ih Cons.prems(1) x show ?case by (auto simp: between_def)
qed

lemma key_outcomes_valid: "(c, d) \<in> set (key_outcomes found calls) \<Longrightarrow> valid_call c"
  by (induction calls arbitrary: found) (auto split: if_splits)

lemma spaced_pair:
  fixes R :: "rat set"
  assumes "finite R" and "R \<noteq> {}" and "\<And>r. r \<in> R \<Longrightarrow> a < r \<and> r < a + 2 * w"
    and "\<And>r r'. r \<in> R \<Longrightarrow> r' \<in> R \<Longrightarrow> r < r' \<Longrightarrow> r + w \<le> r'" and "r \<in> R"
  shows "r = Min R \<or> r = Max R"
proof (rule ccontr)
  assume "\<not> (r = Min R \<or> r = Max R)"
  moreover have "Min R \<le> r" "r \<le> Max R" using assms(1,5) by simp_all
  ultimately have "Min R < r" "r < Max R" by simp_all
  then have "Min R + w \<le> r" "r + w \<le> Max R"
    using assms(4) [OF Min_in [OF assms(1,2)] assms(5)] assms(4) [OF assms(5) Max_in [OF assms(1,2)]] by simp_all
  moreover have "a < Min R" "Max R < a + 2 * w"
    using assms(3) [OF Min_in [OF assms(1,2)]] assms(3) [OF Max_in [OF assms(1,2)]] by simp_all
  ultimately show False by linarith
qed

lemma granted_any_interval:
  assumes "uniform quota ws calls" and "1 \<le> ws" and "0 \<le> quota" and "sorted (map lc_time calls)"
  shows "granted (between a (a + of_int ws) (key_outcomes None calls)) \<le> 2 * quota"
proof -
  let ?outs = "key_outcomes None calls"
  let ?hit = "{x \<in> set ?outs. a \<le> lc_time (fst x) \<and> lc_time (fst x) < a + of_int ws}"
  let ?R = "(\<lambda>x. rl_reset_at (snd x)) ` ?hit"
  have near: "lc_time c < rl_reset_at d \<and> rl_reset_at d \<le> lc_time c + of_int ws" if "(c, d) \<in> set ?outs" for c d
    using reset_near_call [OF assms(1,2,4) _ that] by simp
  have cost: "\<forall>(c, d) \<in> set ?outs. 0 \<le> lc_cost c"
    using key_outcomes_valid by (fastforce simp: valid_call_def validate_consumption_def)
  show ?thesis
  proof (cases "?hit = {}")
    case True
    then have "between a (a + of_int ws) ?outs = []" by (auto simp: between_def filter_empty_conv)
    with assms(3) show ?thesis by simp
  next
    case False
    then have R: "finite ?R" "?R \<noteq> {}" by auto
    have range: "a < r \<and> r < a + 2 * of_int ws" if "r \<in> ?R" for r
      using that near by force
    have spaced: "r + of_int ws \<le> r'" if "r \<in> ?R" "r' \<in> ?R" "r < r'" for r r'
      using that resets_spaced [OF assms(1,2)] by fastforce
    have two: "r = Min ?R \<or> r = Max ?R" if "r \<in> ?R" for r
      using spaced_pair [OF R] range spaced that by blast
    have "\<forall>(c, d) \<in> set ?outs. a \<le> lc_time c \<and> lc_time c < a + of_int ws \<longrightarrow>
        rl_reset_at d = Min ?R \<or> rl_reset_at d = Max ?R"
      using two by force
    from granted_two_windows [OF this cost]
    show ?thesis
      using granted_one_window [OF assms(1-3), of "Min ?R"] granted_one_window [OF assms(1-3), of "Max ?R"]
      by linarith
  qed
qed

lemma between_filter: "between a b (filter p outs) = filter p (between a b outs)"
  by (auto simp: between_def intro: filter_cong)

text \<open>The quota holds. When every call about a key asks for the same quota and window, the
  allowed calls between two resets of its window cost at most the quota, and those in any
  stretch of time as long as the window, wherever it starts, at most twice the quota.\<close>

theorem rate_limit_bounded:
  assumes "sorted (map lc_time calls)" and "1 \<le> ws" and "0 \<le> quota"
    and "\<forall>c \<in> set calls. lc_key c = k \<longrightarrow> lc_limit c = quota \<and> lc_window c = ws"
  shows "granted (in_window r (filter (\<lambda>(c, d). lc_key c = k) (outcomes new_limiter calls))) \<le> quota
    \<and> granted (between a (a + of_int ws) (filter (\<lambda>(c, d). lc_key c = k) (outcomes new_limiter calls)))
        \<le> 2 * quota"
proof -
  let ?own = "filter (\<lambda>c. lc_key c = k) calls"
  have eq: "filter (\<lambda>(c, d). lc_key c = k) (outcomes new_limiter calls) = key_outcomes None ?own"
  proof (cases calls)
    case Nil
    then show ?thesis by simp
  next
    case (Cons c cs)
    then show ?thesis
      using assms(1) outcomes_key [of calls new_limiter "lc_time c" k None] by (simp add: new_limiter_def)
  qed
  have "uniform quota ws ?own" using assms(4) by (auto simp: uniform_def)
  moreover have "sorted (map lc_time ?own)" using assms(1) by (rule sorted_filter)
  ultimately show ?thesis
    unfolding eq using granted_one_window granted_any_interval assms(2,3) by blast
qed

theorem rate_limit_isolated_witness:
  "filter (\<lambda>(c, d). lc_key c = ''a'') (outcomes new_limiter
      [\<lparr>lc_time = 0, lc_key = ''b'', lc_limit = 1, lc_window = 60, lc_cost = 1\<rparr>,
       \<lparr>lc_time = 1, lc_key = ''a'', lc_limit = 1, lc_window = 60, lc_cost = 1\<rparr>])
    = key_outcomes None [\<lparr>lc_time = 1, lc_key = ''a'', lc_limit = 1, lc_window = 60, lc_cost = 1\<rparr>]"
  using rate_limit_isolated [of "[\<lparr>lc_time = 0, lc_key = ''b'', lc_limit = 1, lc_window = 60, lc_cost = 1\<rparr>,
       \<lparr>lc_time = 1, lc_key = ''a'', lc_limit = 1, lc_window = 60, lc_cost = 1\<rparr>]" "''a''"] by simp

definition two_calls :: "limiter_call list" where
  "two_calls = [\<lparr>lc_time = 1, lc_key = ''a'', lc_limit = 1, lc_window = 60, lc_cost = 1\<rparr>,
     \<lparr>lc_time = 2, lc_key = ''a'', lc_limit = 1, lc_window = 60, lc_cost = 1\<rparr>]"

theorem rate_limit_bounded_witness:
  "granted (in_window 61 (filter (\<lambda>(c, d). lc_key c = ''a'') (outcomes new_limiter two_calls))) \<le> 1
   \<and> granted (between 0 60 (filter (\<lambda>(c, d). lc_key c = ''a'') (outcomes new_limiter two_calls))) \<le> 2"
proof -
  have "sorted (map lc_time two_calls)" by (simp add: two_calls_def)
  moreover have "\<forall>c \<in> set two_calls. lc_key c = ''a'' \<longrightarrow> lc_limit c = 1 \<and> lc_window c = 60"
    by (simp add: two_calls_def)
  ultimately show ?thesis
    using rate_limit_bounded [of two_calls 60 1 "''a''" 61 0] by simp
qed

section \<open>The backends' contract\<close>

text \<open>What the manager needs of a backend: a decision that is consistent, whatever state the
  backend keeps.\<close>

locale limiter_backend =
  fixes consume_key :: "int \<Rightarrow> int \<Rightarrow> 's \<Rightarrow> string + (RateLimitDecision \<times> 's)"
  assumes decision_limit: "consume_key quota ws st = Inr (d, st') \<Longrightarrow> rl_limit d = quota"
    and decision_remaining: "consume_key quota ws st = Inr (d, st') \<Longrightarrow> 0 \<le> rl_remaining d"
    and decision_denied: "consume_key quota ws st = Inr (d, st') \<Longrightarrow> \<not> rl_allowed d \<Longrightarrow> rl_remaining d = 0"
    and decision_retry: "consume_key quota ws st = Inr (d, st') \<Longrightarrow>
      1 \<le> rl_retry_after_seconds d \<and> rl_retry_after_seconds d \<le> ws"
    and refused_arguments: "quota < 1 \<or> ws < 1 \<Longrightarrow> \<exists>e. consume_key quota ws st = Inl e"
begin

lemma enforce_exceeded:
  assumes "enforce enabled policies consume_key category st = (Exceeded category' d, st')"
  shows "enabled" "category' = category" "\<not> rl_allowed d" "rl_remaining d = 0"
    "1 \<le> rl_retry_after_seconds d \<and> rl_retry_after_seconds d \<le> rp_window_seconds (policies category)"
    "rl_limit d = rp_limit (policies category)"
proof -
  from assms have d: "enabled" "category' = category" "\<not> rl_allowed d"
    "consume_key (rp_limit (policies category)) (rp_window_seconds (policies category)) st = Inr (d, st')"
    by (auto simp: enforce_def split: if_splits sum.splits)
  then show "enabled" "category' = category" "\<not> rl_allowed d" by simp_all
  from d(3,4) show "rl_remaining d = 0" by (rule decision_denied [rotated])
  from d(4) show "1 \<le> rl_retry_after_seconds d \<and> rl_retry_after_seconds d \<le> rp_window_seconds (policies category)"
    by (rule decision_retry)
  from d(4) show "rl_limit d = rp_limit (policies category)" by (rule decision_limit)
qed

lemma enforce_granted:
  assumes "enforce enabled policies consume_key category st = (Granted d, st')"
  shows "enabled" "rl_allowed d" "0 \<le> rl_remaining d"
proof -
  from assms have d: "enabled" "rl_allowed d"
    "consume_key (rp_limit (policies category)) (rp_window_seconds (policies category)) st = Inr (d, st')"
    by (auto simp: enforce_def split: if_splits sum.splits)
  then show "enabled" "rl_allowed d" by simp_all
  from d(3) show "0 \<le> rl_remaining d" by (rule decision_remaining)
qed

end

interpretation memory: limiter_backend "\<lambda>quota ws. consume now key quota ws 1"
  by unfold_locales
    (auto simp: consume_def validate_consumption_def Let_def decision_of_def split: if_splits)

interpretation redis: limiter_backend
  "\<lambda>quota ws st. map_sum id (\<lambda>d. (d, st :: unit)) (redis_consume now quota ws 1 reply)"
  by unfold_locales
    (auto simp: redis_consume_def validate_consumption_def Let_def split: if_splits option.splits)

text \<open>What an exceeded client is told is consistent with either backend: nothing remains, the
  quota is the policy's and the retry time lies between one second and the policy's window;
  a disabled manager never refuses.\<close>

theorem rate_limit_refusal_consistent:
  assumes "enforce enabled policies (\<lambda>quota ws. consume now key quota ws 1) category l = (Exceeded c d, l')
    \<or> enforce enabled policies (\<lambda>quota ws st. map_sum id (\<lambda>d. (d, st :: unit))
         (redis_consume now quota ws 1 reply)) category () = (Exceeded c d, ())"
  shows "enabled \<and> c = category \<and> \<not> rl_allowed d \<and> rl_remaining d = 0
    \<and> rl_limit d = rp_limit (policies category)
    \<and> 1 \<le> rl_retry_after_seconds d \<and> rl_retry_after_seconds d \<le> rp_window_seconds (policies category)"
  using assms
proof
  assume "enforce enabled policies (\<lambda>quota ws. consume now key quota ws 1) category l = (Exceeded c d, l')"
  from memory.enforce_exceeded [OF this] show ?thesis by simp
next
  assume "enforce enabled policies (\<lambda>quota ws st. map_sum id (\<lambda>d. (d, st :: unit))
      (redis_consume now quota ws 1 reply)) category () = (Exceeded c d, ())"
  from redis.enforce_exceeded [OF this] show ?thesis by simp
qed

theorem rate_limit_refusal_consistent_witness:
  "enforce True (\<lambda>c. \<lparr>rp_limit = 5, rp_window_seconds = 60\<rparr>)
      (\<lambda>quota ws st. map_sum id (\<lambda>d. (d, st :: unit)) (redis_consume 0 quota ws 1 (Some (6, 30)))) READ ()
    = (Exceeded READ \<lparr>rl_allowed = False, rl_limit = 5, rl_remaining = 0, rl_retry_after_seconds = 30,
         rl_reset_at = 30\<rparr>, ())
   \<and> rl_remaining \<lparr>rl_allowed = False, rl_limit = 5, rl_remaining = 0, rl_retry_after_seconds = 30,
         rl_reset_at = 30\<rparr> = 0"
proof -
  have e: "enforce True (\<lambda>c. \<lparr>rp_limit = 5, rp_window_seconds = 60\<rparr>)
      (\<lambda>quota ws st. map_sum id (\<lambda>d. (d, st :: unit)) (redis_consume 0 quota ws 1 (Some (6, 30)))) READ ()
    = (Exceeded READ \<lparr>rl_allowed = False, rl_limit = 5, rl_remaining = 0, rl_retry_after_seconds = 30,
         rl_reset_at = 30\<rparr>, ())"
    by (simp add: enforce_def redis_consume_def validate_consumption_def)
  from rate_limit_refusal_consistent [OF disjI2 [OF e]] e show ?thesis by simp
qed

end
