(* ===== verification/Jobs.thy ===== *)
theory Jobs
  imports StateMachines Sha256
begin

text \<open>
  Background analysis jobs: the worker (\<open>workers/analysis_worker.py\<close>), cancellation
  (\<open>application/cancellation.py\<close>), submission (\<open>application/background_service.py\<close>), the
  completion arbiter of \<open>application/analysis_service.py\<close> and the idempotency key. A row is a
  record, a table a list of rows, a conditional \<open>UPDATE\<close> a function on the table that says
  whether it changed a row. Each function that commits is one atomic step; a worker's run is the
  sequence of its steps, so that other workers, cancellation and recovery can come in between. The
  clock of the application and the one of the database are read as one.
\<close>

section \<open>Rows\<close>

datatype JobStatus = Queued | Processing | CancelRequested | Cancelled | Completed | Failed

record IngestionJob =
  j_id :: string
  j_idempotency_key :: "string option"
  j_status :: JobStatus
  j_error_code :: "string option"
  j_queued_at :: "datetime option"
  j_started_at :: "datetime option"
  j_completed_at :: "datetime option"
  j_attempt_count :: nat
  j_worker_id :: "string option"
  j_next_retry_at :: "datetime option"
  j_lease_expires_at :: "datetime option"
  j_last_attempt_at :: "datetime option"
  j_cancel_requested_at :: "datetime option"
  j_cancelled_at :: "datetime option"
  j_cancel_reason_code :: "string option"
  j_cancel_requested_by :: "string option"
  j_reused_count :: nat
  j_last_requested_at :: "datetime option"

record JobSettings =
  job_processing_lease_seconds :: int
  job_max_attempts :: nat
  job_retry_base_seconds :: nat
  job_retry_max_seconds :: nat

definition compute_idempotency_key :: "string \<Rightarrow> string \<Rightarrow> string \<Rightarrow> string \<Rightarrow> string" where
  "compute_idempotency_key file_sha256 pipeline_version analysis_mode correlation_mode =
     (let s = file_sha256 @ '':'' @ pipeline_version @ '':'' @ analysis_mode
      in sha256_hex (if correlation_mode \<noteq> ''configured'' then s @ '':'' @ correlation_mode else s))"

section \<open>Claiming a job\<close>

definition retry_due :: "datetime \<Rightarrow> IngestionJob \<Rightarrow> bool" where
  "retry_due now j = (case j_next_retry_at j of None \<Rightarrow> True | Some t \<Rightarrow> t \<le> now)"

definition claimable :: "datetime \<Rightarrow> IngestionJob \<Rightarrow> bool" where
  "claimable now j = (j_status j = Queued \<and> retry_due now j)"

definition claim :: "JobSettings \<Rightarrow> string \<Rightarrow> datetime \<Rightarrow> IngestionJob \<Rightarrow> IngestionJob option" where
  "claim st worker now j =
     (if claimable now j
      then Some (j\<lparr>j_status := Processing, j_worker_id := Some worker, j_started_at := Some now,
        j_last_attempt_at := Some now,
        j_lease_expires_at := Some (plus_seconds now (job_processing_lease_seconds st)),
        j_attempt_count := j_attempt_count j + 1\<rparr>)
      else None)"

section \<open>Ending a run\<close>

text \<open>\<open>_complete_job\<close>: the conditional update that decides between completion and
  cancellation. \<open>None\<close> is \<open>JobCancellationRequested\<close>, which rolls the results back.\<close>

definition complete_job :: "datetime \<Rightarrow> IngestionJob \<Rightarrow> IngestionJob option" where
  "complete_job now j =
     (if j_status j = Processing
      then Some (j\<lparr>j_status := Completed, j_completed_at := Some now, j_lease_expires_at := None,
        j_next_retry_at := None\<rparr>)
      else None)"

text \<open>What the worker writes after the analysis returned.\<close>

definition mark_completed :: "IngestionJob \<Rightarrow> IngestionJob" where
  "mark_completed j = j\<lparr>j_status := Completed, j_lease_expires_at := None, j_next_retry_at := None\<rparr>"

datatype JobError = ProviderTimeoutError | ProviderUnavailableError | ProviderRateLimitError
  | ProviderAuthenticationError | ProviderConfigurationError | ProviderInvalidResponseError
  | RetryableJobError string | PermanentJobError string | OtherException

primrec is_retryable :: "JobError \<Rightarrow> bool" where
  "is_retryable ProviderTimeoutError = True"
| "is_retryable ProviderUnavailableError = True"
| "is_retryable ProviderRateLimitError = True"
| "is_retryable ProviderAuthenticationError = False"
| "is_retryable ProviderConfigurationError = False"
| "is_retryable ProviderInvalidResponseError = False"
| "is_retryable (RetryableJobError type_name) = True"
| "is_retryable (PermanentJobError message) = False"
| "is_retryable OtherException = False"

primrec error_code :: "JobError \<Rightarrow> string" where
  "error_code ProviderTimeoutError = ''provider_timeout''"
| "error_code ProviderUnavailableError = ''provider_unavailable''"
| "error_code ProviderRateLimitError = ''provider_rate_limited''"
| "error_code ProviderAuthenticationError = ''provider_authentication''"
| "error_code ProviderConfigurationError = ''provider_configuration''"
| "error_code ProviderInvalidResponseError = ''provider_invalid_response''"
| "error_code (RetryableJobError type_name) = type_name"
| "error_code (PermanentJobError message) = message"
| "error_code OtherException = ''worker_execution_failed''"

text \<open>\<open>min(base * 2 ** (attempts - 1), max)\<close> in microseconds: with no attempt yet the factor
  is one half.\<close>

definition backoff_micros :: "JobSettings \<Rightarrow> nat \<Rightarrow> int" where
  "backoff_micros st attempts =
     (if attempts = 0 then min (500000 * int (job_retry_base_seconds st)) (1000000 * int (job_retry_max_seconds st))
      else 1000000 * min (int (job_retry_base_seconds st) * 2 ^ (attempts - 1)) (int (job_retry_max_seconds st)))"

definition retry_time :: "JobSettings \<Rightarrow> datetime \<Rightarrow> IngestionJob \<Rightarrow> datetime" where
  "retry_time st now j = Instant (micros now + backoff_micros st (j_attempt_count j))"

definition fail_job :: "JobSettings \<Rightarrow> datetime \<Rightarrow> JobError \<Rightarrow> IngestionJob \<Rightarrow> IngestionJob" where
  "fail_job st now e j =
     (if is_retryable e \<and> j_attempt_count j < job_max_attempts st
      then j\<lparr>j_status := Queued, j_error_code := Some (error_code e), j_worker_id := None,
        j_lease_expires_at := None, j_next_retry_at := Some (retry_time st now j)\<rparr>
      else j\<lparr>j_status := Failed, j_worker_id := None, j_lease_expires_at := None,
        j_error_code := Some (if is_retryable e then ''max_attempts_reached'' else error_code e)\<rparr>)"

text \<open>\<open>_process_events\<close>: an error while persisting marks the job failed before it is raised
  to the worker.\<close>

definition mark_persistence_failed :: "bool \<Rightarrow> IngestionJob \<Rightarrow> IngestionJob" where
  "mark_persistence_failed integrity_error j =
     j\<lparr>j_status := Failed, j_error_code := Some (if integrity_error then ''PERSISTENCE_INTEGRITY_ERROR''
       else ''INTERNAL_ANALYSIS_ERROR'')\<rparr>"

section \<open>Cancellation\<close>

definition USER_REQUESTED :: string where
  "USER_REQUESTED = ''user_requested''"

definition cancel_queued :: "datetime \<Rightarrow> string \<Rightarrow> IngestionJob \<Rightarrow> IngestionJob option" where
  "cancel_queued now actor j =
     (if j_status j = Queued
      then Some (j\<lparr>j_status := Cancelled, j_cancel_requested_at := Some now, j_cancelled_at := Some now,
        j_cancel_reason_code := Some USER_REQUESTED, j_cancel_requested_by := Some actor,
        j_worker_id := None, j_next_retry_at := None, j_lease_expires_at := None\<rparr>)
      else None)"

definition cancel_processing :: "datetime \<Rightarrow> string \<Rightarrow> IngestionJob \<Rightarrow> IngestionJob option" where
  "cancel_processing now actor j =
     (if j_status j = Processing
      then Some (j\<lparr>j_status := CancelRequested, j_cancel_requested_at := Some now,
        j_cancel_reason_code := Some USER_REQUESTED, j_cancel_requested_by := Some actor\<rparr>)
      else None)"

record CancellationResult =
  cr_status :: JobStatus
  cr_cancel_requested_at :: "datetime option"
  cr_cancelled_at :: "datetime option"

definition result_of :: "IngestionJob \<Rightarrow> CancellationResult" where
  "result_of j = \<lparr>cr_status = j_status j, cr_cancel_requested_at = j_cancel_requested_at j,
     cr_cancelled_at = j_cancelled_at j\<rparr>"

definition cancel :: "datetime \<Rightarrow> string \<Rightarrow> IngestionJob \<Rightarrow> JobStatus + (IngestionJob \<times> CancellationResult)" where
  "cancel now actor j =
     (case cancel_queued now actor j of
        Some j' \<Rightarrow> Inr (j', \<lparr>cr_status = Cancelled, cr_cancel_requested_at = Some now,
          cr_cancelled_at = Some now\<rparr>)
      | None \<Rightarrow>
          (case cancel_processing now actor j of
             Some j' \<Rightarrow> Inr (j', \<lparr>cr_status = CancelRequested, cr_cancel_requested_at = Some now,
               cr_cancelled_at = None\<rparr>)
           | None \<Rightarrow> if j_status j \<in> {Completed, Failed} then Inl (j_status j)
               else if j_status j \<notin> {CancelRequested, Cancelled} then Inl (j_status j)
               else Inr (j, result_of j)))"

definition finalize :: "datetime \<Rightarrow> IngestionJob \<Rightarrow> IngestionJob" where
  "finalize now j =
     (if j_status j = CancelRequested
      then j\<lparr>j_status := Cancelled, j_cancelled_at := Some now, j_worker_id := None,
        j_next_retry_at := None, j_lease_expires_at := None\<rparr>
      else j)"

text \<open>\<open>raise_if_cancelled\<close>.\<close>

definition cancellation_pending :: "IngestionJob \<Rightarrow> bool" where
  "cancellation_pending j = (j_status j = CancelRequested \<or> j_status j = Cancelled)"

section \<open>Recovery of stale jobs\<close>

definition stale :: "datetime \<Rightarrow> IngestionJob \<Rightarrow> bool" where
  "stale now j = (j_status j \<in> {Processing, CancelRequested} \<and>
     (case j_lease_expires_at j of None \<Rightarrow> False | Some t \<Rightarrow> t \<le> now))"

definition recover :: "JobSettings \<Rightarrow> datetime \<Rightarrow> IngestionJob \<Rightarrow> IngestionJob" where
  "recover st now j =
     (if \<not> stale now j then j
      else if j_status j = CancelRequested then finalize now j
      else if j_attempt_count j < job_max_attempts st
      then j\<lparr>j_status := Queued, j_worker_id := None, j_lease_expires_at := None,
        j_next_retry_at := Some (retry_time st now j)\<rparr>
      else j\<lparr>j_status := Failed, j_error_code := Some ''processing_lease_expired'',
        j_worker_id := None, j_lease_expires_at := None\<rparr>)"

definition recover_stale_jobs :: "JobSettings \<Rightarrow> datetime \<Rightarrow> IngestionJob list \<Rightarrow> IngestionJob list \<times> nat" where
  "recover_stale_jobs st now jobs = (map (recover st now) jobs, length (filter (stale now) jobs))"

section \<open>Submission\<close>

definition new_job :: "datetime \<Rightarrow> string \<Rightarrow> string \<Rightarrow> IngestionJob" where
  "new_job now job_id key = \<lparr>j_id = job_id, j_idempotency_key = Some key, j_status = Queued,
     j_error_code = None, j_queued_at = Some now, j_started_at = None, j_completed_at = None,
     j_attempt_count = 0, j_worker_id = None, j_next_retry_at = None, j_lease_expires_at = None,
     j_last_attempt_at = None, j_cancel_requested_at = None, j_cancelled_at = None,
     j_cancel_reason_code = None, j_cancel_requested_by = None, j_reused_count = 0,
     j_last_requested_at = None\<rparr>"

definition resubmit :: "datetime \<Rightarrow> IngestionJob \<Rightarrow> IngestionJob" where
  "resubmit now j = j\<lparr>j_status := Queued, j_error_code := None, j_queued_at := Some now,
     j_reused_count := j_reused_count j + 1, j_last_requested_at := Some now\<rparr>"

definition touch_completed :: "datetime \<Rightarrow> IngestionJob \<Rightarrow> IngestionJob" where
  "touch_completed now j =
     (if j_status j = Completed
      then j\<lparr>j_reused_count := j_reused_count j + 1, j_last_requested_at := Some now\<rparr> else j)"

definition replace_job :: "IngestionJob list \<Rightarrow> IngestionJob \<Rightarrow> IngestionJob list" where
  "replace_job jobs j' = map (\<lambda>j. if j_id j = j_id j' then j' else j) jobs"

text \<open>The table after a submission, and what the caller gets: the job, whether it is an existing
  one, its status and whether it is dispatched to the queue. A cancelled or cancelling job with the
  key makes the insert violate the unique constraint, and is returned as it is.\<close>

definition submit ::
  "datetime \<Rightarrow> string \<Rightarrow> string \<Rightarrow> IngestionJob list \<Rightarrow> IngestionJob list \<times> (string \<times> bool \<times> JobStatus \<times> bool)" where
  "submit now fresh_id key jobs =
     (case find (\<lambda>j. j_idempotency_key j = Some key) jobs of
        Some j \<Rightarrow>
          if j_status j \<in> {Queued, Processing, Completed}
          then (replace_job jobs (touch_completed now j), (j_id j, True, j_status j, False))
          else if j_status j = Failed
          then (replace_job jobs (resubmit now j), (j_id j, True, Queued, True))
          else (jobs, (j_id j, True, j_status j, False))
      | None \<Rightarrow> (jobs @ [new_job now fresh_id key], (fresh_id, False, Queued, True)))"

definition publish_failed :: "IngestionJob \<Rightarrow> IngestionJob" where
  "publish_failed j = j\<lparr>j_status := Failed, j_error_code := Some ''queue_publish_failed''\<rparr>"

section \<open>Choosing the next job\<close>

definition next_job :: "datetime \<Rightarrow> IngestionJob list \<Rightarrow> IngestionJob option" where
  "next_job now jobs =
     (case sort_key (\<lambda>j. (case j_queued_at j of None \<Rightarrow> (0::int, 0) | Some t \<Rightarrow> (1, micros t)))
        (filter (claimable now) jobs) of [] \<Rightarrow> None | j # _ \<Rightarrow> Some j)"

text \<open>The placeholder of a synchronous request (\<open>analyze_file\<close> without a job): it is processed
  at once, with no worker and no lease.\<close>

definition sync_placeholder :: "string \<Rightarrow> string \<Rightarrow> IngestionJob" where
  "sync_placeholder job_id key = (new_job (Instant 0) job_id key)\<lparr>j_status := Processing, j_queued_at := None\<rparr>"

section \<open>The database and the workers\<close>

record JobAudit =
  ja_event_type :: string
  ja_job_id :: string
  ja_actor_type :: string
  ja_actor_id :: string
  ja_timestamp :: datetime
  ja_request_id :: "string option"

definition add_audit :: "JobAudit \<Rightarrow> JobAudit list \<Rightarrow> JobAudit list" where
  "add_audit a as =
     (if \<exists>b \<in> set as. ja_event_type b = ja_event_type a \<and> ja_job_id b = ja_job_id a then as else as @ [a])"

record job_db =
  db_jobs :: "IngestionJob list"
  db_staged :: "string set"
  db_audits :: "JobAudit list"

definition find_job :: "string \<Rightarrow> job_db \<Rightarrow> IngestionJob option" where
  "find_job job_id db = find (\<lambda>j. j_id j = job_id) (db_jobs db)"

definition put_job :: "IngestionJob \<Rightarrow> job_db \<Rightarrow> job_db" where
  "put_job j db = db\<lparr>db_jobs := replace_job (db_jobs db) j\<rparr>"

definition unstage :: "string \<Rightarrow> job_db \<Rightarrow> job_db" where
  "unstage job_id db = db\<lparr>db_staged := db_staged db - {job_id}\<rparr>"

definition audit :: "string \<Rightarrow> string \<Rightarrow> string \<Rightarrow> string \<Rightarrow> datetime \<Rightarrow> string option \<Rightarrow> job_db \<Rightarrow> job_db" where
  "audit event_type job_id actor_type actor_id now request_id db =
     db\<lparr>db_audits := add_audit \<lparr>ja_event_type = event_type, ja_job_id = job_id,
       ja_actor_type = actor_type, ja_actor_id = actor_id, ja_timestamp = now,
       ja_request_id = request_id\<rparr> (db_audits db)\<rparr>"

text \<open>\<open>JobCancellationService.cancel\<close> on the database; \<open>None\<close> is \<open>JobNotFoundError\<close>, a
  status on the left \<open>JobNotCancellableError\<close>.\<close>

definition cancel_job ::
  "datetime \<Rightarrow> string \<Rightarrow> string \<Rightarrow> string option \<Rightarrow> string \<Rightarrow> job_db
     \<Rightarrow> (JobStatus + (job_db \<times> CancellationResult)) option" where
  "cancel_job now actor_type actor_id request_id job_id db =
     (case find_job job_id db of
        None \<Rightarrow> None
      | Some j \<Rightarrow> Some (case cancel now actor_id j of
            Inl status \<Rightarrow> Inl status
          | Inr (j', result) \<Rightarrow> Inr (
              (if j_status j = Queued
               then unstage job_id (audit ''job_cancelled'' job_id ''system'' ''cancellation_service'' now request_id
                 (audit ''job_cancellation_requested'' job_id actor_type actor_id now request_id (put_job j' db)))
               else if j_status j = Processing
               then audit ''job_cancellation_requested'' job_id actor_type actor_id now request_id (put_job j' db)
               else db), result)))"

definition finalize_job :: "datetime \<Rightarrow> string \<Rightarrow> job_db \<Rightarrow> job_db" where
  "finalize_job now job_id db =
     (case find_job job_id db of
        None \<Rightarrow> db
      | Some j \<Rightarrow> if j_status j = CancelRequested
          then unstage job_id (audit ''job_cancelled'' job_id ''system'' ''analysis_worker'' now None
            (put_job (finalize now j) db))
          else db)"

definition fail_in_db :: "JobSettings \<Rightarrow> datetime \<Rightarrow> JobError \<Rightarrow> IngestionJob \<Rightarrow> job_db \<Rightarrow> job_db" where
  "fail_in_db st now e j db =
     (let j' = fail_job st now e j; db' = put_job j' db
      in if j_status j' = Failed then unstage (j_id j) db' else db')"

definition recover_in_db :: "JobSettings \<Rightarrow> datetime \<Rightarrow> IngestionJob \<Rightarrow> job_db \<Rightarrow> job_db" where
  "recover_in_db st now j db =
     (if \<not> stale now j then db
      else if j_status j = CancelRequested then finalize_job now (j_id j) db
      else (let j' = recover st now j; db' = put_job j' db
        in if j_status j' = Failed then unstage (j_id j) db' else db'))"

definition submit_file :: "datetime \<Rightarrow> string \<Rightarrow> string \<Rightarrow> job_db \<Rightarrow> job_db \<times> (string \<times> bool \<times> JobStatus \<times> bool)" where
  "submit_file now fresh_id key db =
     (case submit now fresh_id key (db_jobs db) of
        (jobs', (job_id, reused, status, dispatched)) \<Rightarrow>
          (db\<lparr>db_jobs := jobs', db_staged := (if dispatched then insert job_id (db_staged db) else db_staged db)\<rparr>,
           (job_id, reused, status, dispatched)))"

section \<open>One run without interference\<close>

datatype run_result = RunCompleted | RunFailed | RunRetry | RunCancelled | RunIgnored

text \<open>What the analysis does: it persists its results, or raises.\<close>

datatype analysis_outcome = AnalysisPersisted | AnalysisRaised JobError

definition process_job ::
  "JobSettings \<Rightarrow> string \<Rightarrow> datetime \<Rightarrow> string \<Rightarrow> analysis_outcome \<Rightarrow> job_db \<Rightarrow> job_db \<times> run_result" where
  "process_job st worker now job_id outcome db =
     (case find_job job_id db of
        None \<Rightarrow> (db, RunIgnored)
      | Some j \<Rightarrow>
          if j_status j = CancelRequested then (finalize_job now job_id db, RunCancelled)
          else (case claim st worker now j of
              None \<Rightarrow> (db, RunIgnored)
            | Some claimed \<Rightarrow>
                (let db' = put_job claimed db;
                     raised = (\<lambda>e. (fail_in_db st now e claimed db',
                       if j_status (fail_job st now e claimed) = Queued then RunRetry else RunFailed))
                 in if job_id \<notin> db_staged db then raised (PermanentJobError ''staging_file_missing'')
                    else (case outcome of
                        AnalysisRaised e \<Rightarrow> raised e
                      | AnalysisPersisted \<Rightarrow>
                          (case complete_job now claimed of
                             None \<Rightarrow> (finalize_job now job_id db', RunCancelled)
                           | Some done \<Rightarrow> (unstage job_id (put_job (mark_completed done) db'), RunCompleted))))))"

definition run_once ::
  "JobSettings \<Rightarrow> string \<Rightarrow> datetime \<Rightarrow> (string \<Rightarrow> analysis_outcome) \<Rightarrow> job_db \<Rightarrow> job_db \<times> bool" where
  "run_once st worker now outcome db =
     (case next_job now (db_jobs db) of
        None \<Rightarrow> (db, False)
      | Some j \<Rightarrow> (case process_job st worker now (j_id j) (outcome (j_id j)) db of
            (db', result) \<Rightarrow> (db', result \<in> {RunCompleted, RunFailed, RunRetry})))"

section \<open>Interleaved runs\<close>

text \<open>The workers that claimed a job and are analysing it, those whose results are stored, and the
  submissions that are being published.\<close>

record job_world =
  jw_db :: job_db
  jw_running :: "(string \<times> string) set"
  jw_stored :: "(string \<times> string) set"
  jw_publishing :: "string set"

inductive job_step :: "JobSettings \<Rightarrow> job_world \<Rightarrow> job_world \<Rightarrow> bool" for st where
  Claimed: "find_job i (jw_db w) = Some j \<Longrightarrow> claim st k now j = Some j' \<Longrightarrow>
    job_step st w (w\<lparr>jw_db := put_job j' (jw_db w), jw_running := insert (k, i) (jw_running w)\<rparr>)"
| Stored: "(k, i) \<in> jw_running w \<Longrightarrow> find_job i (jw_db w) = Some j \<Longrightarrow> complete_job now j = Some j' \<Longrightarrow>
    job_step st w (w\<lparr>jw_db := put_job j' (jw_db w), jw_running := jw_running w - {(k, i)},
      jw_stored := insert (k, i) (jw_stored w)\<rparr>)"
| Marked: "(k, i) \<in> jw_stored w \<Longrightarrow> find_job i (jw_db w) = Some j \<Longrightarrow>
    job_step st w (w\<lparr>jw_db := unstage i (put_job (mark_completed j) (jw_db w)),
      jw_stored := jw_stored w - {(k, i)}\<rparr>)"
| Aborted: "(k, i) \<in> jw_running w \<Longrightarrow> find_job i (jw_db w) = Some j \<Longrightarrow>
    cancellation_pending j \<or> complete_job now j = None \<Longrightarrow>
    job_step st w (w\<lparr>jw_db := finalize_job now i (jw_db w), jw_running := jw_running w - {(k, i)}\<rparr>)"
| FinalizedOnDelivery: "job_step st w (w\<lparr>jw_db := finalize_job now i (jw_db w)\<rparr>)"
| PersistenceFailed: "(k, i) \<in> jw_running w \<Longrightarrow> find_job i (jw_db w) = Some j \<Longrightarrow>
    job_step st w (w\<lparr>jw_db := put_job (mark_persistence_failed integrity j) (jw_db w)\<rparr>)"
| Raised: "(k, i) \<in> jw_running w \<Longrightarrow> find_job i (jw_db w) = Some j \<Longrightarrow>
    job_step st w (w\<lparr>jw_db := fail_in_db st now e j (jw_db w), jw_running := jw_running w - {(k, i)}\<rparr>)"
| Crashed: "job_step st w (w\<lparr>jw_running := jw_running w - {(k, i)}, jw_stored := jw_stored w - {(k, i)}\<rparr>)"
| CancelCalled: "cancel_job now actor_type actor_id request_id i (jw_db w) = Some (Inr (db', result)) \<Longrightarrow>
    job_step st w (w\<lparr>jw_db := db'\<rparr>)"
| Recovered: "find_job i (jw_db w) = Some j \<Longrightarrow>
    job_step st w (w\<lparr>jw_db := recover_in_db st now j (jw_db w)\<rparr>)"
| Submitted: "fresh_id \<notin> j_id ` set (db_jobs (jw_db w)) \<Longrightarrow>
    submit_file now fresh_id key (jw_db w) = (db', (i, reused, status, dispatched)) \<Longrightarrow>
    job_step st w (w\<lparr>jw_db := db',
      jw_publishing := (if dispatched then insert i (jw_publishing w) else jw_publishing w)\<rparr>)"
| Published: "job_step st w (w\<lparr>jw_publishing := jw_publishing w - {i}\<rparr>)"
| PublishFailed: "i \<in> jw_publishing w \<Longrightarrow> find_job i (jw_db w) = Some j \<Longrightarrow>
    job_step st w (w\<lparr>jw_db := unstage i (put_job (publish_failed j) (jw_db w)),
      jw_publishing := jw_publishing w - {i}\<rparr>)"

inductive_cases job_stepE: "job_step st w w'"

definition empty_world :: "job_world \<Rightarrow> bool" where
  "empty_world w = (db_jobs (jw_db w) = [] \<and> db_staged (jw_db w) = {} \<and> db_audits (jw_db w) = [] \<and>
     jw_running w = {} \<and> jw_stored w = {} \<and> jw_publishing w = {})"

abbreviation reachable_world :: "JobSettings \<Rightarrow> job_world \<Rightarrow> bool" where
  "reachable_world st \<equiv> reach empty_world (job_step st)"

section \<open>Row invariant\<close>

definition job_ok :: "JobSettings \<Rightarrow> IngestionJob \<Rightarrow> bool" where
  "job_ok st j =
     (j_attempt_count j \<le> job_max_attempts st + j_reused_count j \<and>
      (j_status j = Queued \<longrightarrow> j_attempt_count j < job_max_attempts st + j_reused_count j) \<and>
      (j_status j = Processing \<or> j_status j = CancelRequested \<longrightarrow>
         j_lease_expires_at j \<noteq> None \<and> 0 < j_attempt_count j) \<and>
      (j_status j = CancelRequested \<longrightarrow> j_cancel_requested_at j \<noteq> None) \<and>
      (j_status j = Cancelled \<longrightarrow> j_cancelled_at j \<noteq> None))"

definition same_job :: "IngestionJob \<Rightarrow> IngestionJob \<Rightarrow> bool" where
  "same_job j j' = (j_id j' = j_id j \<and> j_idempotency_key j' = j_idempotency_key j)"

named_theorems row_update_defs \<open>the single-row updates\<close>

lemmas [row_update_defs] = complete_job_def mark_completed_def fail_job_def mark_persistence_failed_def
  finalize_def resubmit_def touch_completed_def publish_failed_def claim_def claimable_def

text \<open>Every update of a row keeps its identity and its invariant.\<close>

definition keeps :: "JobSettings \<Rightarrow> IngestionJob \<Rightarrow> IngestionJob \<Rightarrow> bool" where
  "keeps st j j' = (job_ok st j \<longrightarrow> same_job j j' \<and> job_ok st j')"

named_theorems keeping \<open>the updates that keep a row's invariant\<close>

lemma claim_keeps [keeping]: "claim st k now j = Some j' \<Longrightarrow> keeps st j j'"
  by (auto simp: keeps_def row_update_defs job_ok_def same_job_def split: if_splits)

lemma complete_keeps [keeping]: "complete_job now j = Some j' \<Longrightarrow> keeps st j j'"
  by (auto simp: keeps_def row_update_defs job_ok_def same_job_def split: if_splits)

lemma cancel_keeps [keeping]: "cancel now actor j = Inr (j', r) \<Longrightarrow> keeps st j j'"
  by (auto simp: keeps_def cancel_def cancel_queued_def cancel_processing_def job_ok_def same_job_def
      split: if_splits)

lemma updates_keep [keeping]:
  "keeps st j (mark_completed j)" "keeps st j (fail_job st now e j)"
  "keeps st j (mark_persistence_failed b j)" "keeps st j (finalize now j)"
  "keeps st j (resubmit now j)" "keeps st j (touch_completed now j)" "keeps st j (publish_failed j)"
  by (auto simp: keeps_def row_update_defs job_ok_def same_job_def)

lemma recover_keeps [keeping]: "keeps st j (recover st now j)"
  by (auto simp: keeps_def recover_def finalize_def job_ok_def same_job_def)

section \<open>Table invariant\<close>

definition jobs_ok :: "JobSettings \<Rightarrow> IngestionJob list \<Rightarrow> bool" where
  "jobs_ok st jobs = (distinct (map j_id jobs) \<and> distinct (map j_idempotency_key jobs) \<and>
     (\<forall>j \<in> set jobs. job_ok st j))"

lemma find_Some_mem: "find p xs = Some x \<Longrightarrow> x \<in> set xs \<and> p x"
  by (induction xs) (auto split: if_splits)

lemma find_None_mem: "find p xs = None \<Longrightarrow> \<forall>x \<in> set xs. \<not> p x"
  by (induction xs) (auto split: if_splits)

lemma replace_job_fields:
  assumes "\<forall>x \<in> set jobs. j_id x = j_id j' \<longrightarrow> same_job x j'"
  shows "map j_id (replace_job jobs j') = map j_id jobs
    \<and> map j_idempotency_key (replace_job jobs j') = map j_idempotency_key jobs"
  using assms by (induction jobs) (auto simp: replace_job_def same_job_def)

lemma replace_ok:
  assumes "jobs_ok st jobs" and "j \<in> set jobs" and "keeps st j j'"
  shows "jobs_ok st (replace_job jobs j')"
proof -
  have kept: "same_job j j'" "job_ok st j'" using assms by (auto simp: keeps_def jobs_ok_def)
  have "x = j" if "x \<in> set jobs" "j_id x = j_id j" for x
    using assms(1,2) that by (auto simp: jobs_ok_def distinct_map inj_on_def)
  then have "\<forall>x \<in> set jobs. j_id x = j_id j' \<longrightarrow> same_job x j'"
    using kept by (auto simp: same_job_def)
  note fields = replace_job_fields [OF this]
  have "job_ok st x" if "x \<in> set (replace_job jobs j')" for x
    using that assms(1) kept by (auto simp: jobs_ok_def replace_job_def split: if_splits)
  then show ?thesis using fields assms(1) by (simp add: jobs_ok_def)
qed

definition db_ok :: "JobSettings \<Rightarrow> job_db \<Rightarrow> bool" where
  "db_ok st db = jobs_ok st (db_jobs db)"

lemma db_ok_frame [simp]:
  "db_ok st (unstage i db) = db_ok st db"
  "db_ok st (audit ev i kind ai now req db) = db_ok st db"
  by (simp_all add: db_ok_def unstage_def audit_def)

lemma find_job_ok: "db_ok st db \<Longrightarrow> find_job i db = Some j \<Longrightarrow> j \<in> set (db_jobs db) \<and> j_id j = i \<and> job_ok st j"
  by (auto simp: find_job_def db_ok_def jobs_ok_def dest: find_Some_mem)

lemma put_ok:
  assumes "db_ok st db" and "find_job i db = Some j" and "keeps st j j'"
  shows "db_ok st (put_job j' db)"
  using replace_ok find_job_ok [OF assms(1,2)] assms(1,3) by (auto simp: db_ok_def put_job_def)

lemma finalize_job_ok: "db_ok st db \<Longrightarrow> db_ok st (finalize_job now i db)"
  by (auto simp: finalize_job_def split: option.split intro: put_ok keeping)

lemma cancel_job_ok:
  assumes "db_ok st db" and "cancel_job now kind ai req i db = Some (Inr (db', r))"
  shows "db_ok st db'"
proof -
  obtain j j' where j: "find_job i db = Some j" "cancel now ai j = Inr (j', r)"
    "db' = db \<or> (\<exists>d. db' = d \<and> db_ok st d = db_ok st (put_job j' db))"
    using assms(2)
    by (auto simp: cancel_job_def split: option.splits sum.splits if_splits)
  have "db_ok st (put_job j' db)"
    by (rule put_ok [OF assms(1) j(1)]) (rule cancel_keeps [OF j(2)])
  with j(3) assms(1) show ?thesis by auto
qed

lemma fail_in_db_ok: "db_ok st db \<Longrightarrow> find_job i db = Some j \<Longrightarrow> db_ok st (fail_in_db st now e j db)"
  by (auto simp: fail_in_db_def Let_def intro: put_ok keeping)

lemma recover_in_db_ok: "db_ok st db \<Longrightarrow> find_job i db = Some j \<Longrightarrow> db_ok st (recover_in_db st now j db)"
  by (auto simp: recover_in_db_def Let_def intro: put_ok keeping finalize_job_ok)

lemma submit_ok:
  assumes "jobs_ok st jobs" and "0 < job_max_attempts st" and "fresh_id \<notin> j_id ` set jobs"
  shows "jobs_ok st (fst (submit now fresh_id key jobs))"
proof (cases "find (\<lambda>j. j_idempotency_key j = Some key) jobs")
  case None
  from find_None_mem [OF None] assms show ?thesis
    by (auto simp: submit_def None jobs_ok_def new_job_def job_ok_def)
next
  case (Some j)
  have "j \<in> set jobs" "job_ok st j"
    using find_Some_mem [OF Some] assms(1) by (auto simp: jobs_ok_def)
  then show ?thesis
    using Some assms(1) by (auto simp: submit_def intro: replace_ok keeping)
qed

lemma submit_file_ok:
  assumes "db_ok st db" and "0 < job_max_attempts st" and "fresh_id \<notin> j_id ` set (db_jobs db)"
    and "submit_file now fresh_id key db = (db', r)"
  shows "db_ok st db'"
  using submit_ok [of st "db_jobs db" fresh_id now key] assms
  by (auto simp: submit_file_def db_ok_def split: prod.splits)

lemma world_step_ok:
  assumes "db_ok st (jw_db w)" and "0 < job_max_attempts st" and "job_step st w w'"
  shows "db_ok st (jw_db w')"
  using assms(3)
proof cases
  case (Claimed i j k now j')
  then show ?thesis by (auto intro!: put_ok [OF assms(1)] intro: claim_keeps)
next
  case (Stored k i j now j')
  then show ?thesis by (auto intro!: put_ok [OF assms(1)] intro: complete_keeps)
next
  case (Marked k i j)
  then show ?thesis by (auto intro!: put_ok [OF assms(1)] updates_keep)
next
  case (PersistenceFailed k i j b)
  then show ?thesis by (auto intro!: put_ok [OF assms(1)] updates_keep)
next
  case (PublishFailed i j)
  then show ?thesis by (auto intro!: put_ok [OF assms(1)] updates_keep)
next
  case (Submitted fresh_id now key db' i reused status dispatched)
  then show ?thesis using submit_file_ok [OF assms(1,2)] by simp
next
  case (CancelCalled now actor_type actor_id request_id i db' result)
  then show ?thesis using cancel_job_ok [OF assms(1)] by simp
qed (use assms(1) in \<open>simp_all add: finalize_job_ok fail_in_db_ok recover_in_db_ok\<close>)

definition usable_jobs :: "JobSettings \<Rightarrow> bool" where
  "usable_jobs st = (0 < job_max_attempts st)"

interpretation job_machine: invariant_machine empty_world "job_step st"
  "\<lambda>w. usable_jobs st \<longrightarrow> db_ok st (jw_db w)" for st
proof unfold_locales
  fix w w'
  show "usable_jobs st \<longrightarrow> db_ok st (jw_db w)" if "empty_world w"
    using that by (simp add: empty_world_def db_ok_def jobs_ok_def)
  show "usable_jobs st \<longrightarrow> db_ok st (jw_db w')" if "usable_jobs st \<longrightarrow> db_ok st (jw_db w)" "job_step st w w'"
    using that world_step_ok by (auto simp: usable_jobs_def)
qed

text \<open>Whatever workers, users and recovery do, in any interleaving and with crashes anywhere,
  a file content has at most one job, a job is claimed at most \<open>max_attempts\<close> times plus once
  for each resubmission, and a job that is being processed or cancelled holds a lease, so recovery
  can find it.\<close>

theorem job_attempts_bounded:
  assumes "usable_jobs st" and "reachable_world st w"
  shows "distinct (map j_id (db_jobs (jw_db w)))
    \<and> distinct (map j_idempotency_key (db_jobs (jw_db w)))
    \<and> (\<forall>j \<in> set (db_jobs (jw_db w)).
         j_attempt_count j \<le> job_max_attempts st + j_reused_count j
         \<and> (j_status j \<in> {Processing, CancelRequested} \<longrightarrow> j_lease_expires_at j \<noteq> None))"
proof -
  have "db_ok st (jw_db w)" using job_machine.reach_inv [OF assms(2)] assms(1) by blast
  then show ?thesis by (auto simp: db_ok_def jobs_ok_def job_ok_def)
qed

section \<open>Arbitration\<close>

lemma backoff_mono: "m \<le> n \<Longrightarrow> backoff_micros st m \<le> backoff_micros st n"
proof -
  assume le: "m \<le> n"
  let ?b = "int (job_retry_base_seconds st)" and ?c = "int (job_retry_max_seconds st)"
  show ?thesis
  proof (cases "m = 0")
    case False
    then have "?b * 2 ^ (m - 1) \<le> ?b * 2 ^ (n - 1)" using le by (intro mult_left_mono power_increasing) auto
    with False le show ?thesis by (auto simp: backoff_micros_def min_def)
  next
    case True
    have "?b \<le> ?b * 2 ^ (n - 1)" by (simp add: mult_le_cancel_left1)
    with True show ?thesis by (auto simp: backoff_micros_def min_def)
  qed
qed


section \<open>Crashes do not strand a job\<close>

definition terminal :: "IngestionJob \<Rightarrow> bool" where
  "terminal j = (j_status j \<in> {Completed, Failed, Cancelled})"

text \<open>The steps that happen even when every worker crashes right after its claim.\<close>

inductive crash_step :: "JobSettings \<Rightarrow> IngestionJob \<Rightarrow> IngestionJob \<Rightarrow> bool" for st where
  ClaimedAndCrashed: "claim st k now j = Some j' \<Longrightarrow> crash_step st j j'"
| LeaseExpired: "stale now j \<Longrightarrow> crash_step st j (recover st now j)"

lemma claim_possible:
  assumes "j_status j = Queued"
  shows "\<exists>j'. crash_step st j j' \<and> j_status j' = Processing \<and> j_lease_expires_at j' \<noteq> None
    \<and> j_attempt_count j' = j_attempt_count j + 1"
proof -
  obtain now where "retry_due now j" by (cases "j_next_retry_at j") (auto simp: retry_due_def)
  then have "\<exists>j'. claim st [] now j = Some j' \<and> j_status j' = Processing \<and> j_lease_expires_at j' \<noteq> None
      \<and> j_attempt_count j' = j_attempt_count j + 1"
    using assms by (simp add: claim_def claimable_def)
  then show ?thesis by (blast intro: ClaimedAndCrashed)
qed

lemma recover_possible:
  assumes "j_status j \<in> {Processing, CancelRequested}" and "j_lease_expires_at j \<noteq> None"
  shows "\<exists>j'. crash_step st j j' \<and> (terminal j' \<or> j_status j' = Queued \<and>
      j_attempt_count j' = j_attempt_count j \<and> j_attempt_count j < job_max_attempts st)"
proof -
  obtain t where "j_lease_expires_at j = Some t" using assms(2) by blast
  then have stale: "stale t j" using assms(1) by (simp add: stale_def)
  then have "crash_step st j (recover st t j)" by (rule LeaseExpired)
  moreover have "terminal (recover st t j) \<or> j_status (recover st t j) = Queued \<and>
      j_attempt_count (recover st t j) = j_attempt_count j \<and> j_attempt_count j < job_max_attempts st"
    using stale assms(1) by (auto simp: recover_def finalize_def terminal_def)
  ultimately show ?thesis by blast
qed

lemma queued_terminates:
  "j_status j = Queued \<Longrightarrow> \<exists>j'. (crash_step st)\<^sup>*\<^sup>* j j' \<and> terminal j'"
proof (induction "job_max_attempts st - j_attempt_count j" arbitrary: j rule: less_induct)
  case less
  obtain c where c: "crash_step st j c" "j_status c = Processing" "j_lease_expires_at c \<noteq> None"
    "j_attempt_count c = j_attempt_count j + 1" using claim_possible [OF less.prems] by blast
  then obtain r where r: "crash_step st c r" "terminal r \<or> j_status r = Queued \<and>
      j_attempt_count r = j_attempt_count c \<and> j_attempt_count c < job_max_attempts st"
    using recover_possible [of c st] by blast
  have jr: "(crash_step st)\<^sup>*\<^sup>* j r" using c(1) r(1) by (meson converse_rtranclp_into_rtranclp rtranclp.rtrancl_refl)
  show ?case
  proof (cases "terminal r")
    case True
    with jr show ?thesis by blast
  next
    case False
    with r(2) c(4) have "j_status r = Queued"
      and "job_max_attempts st - j_attempt_count r < job_max_attempts st - j_attempt_count j" by auto
    with less.hyps obtain j' where "(crash_step st)\<^sup>*\<^sup>* r j'" "terminal j'" by blast
    with jr show ?thesis by (meson rtranclp_trans)
  qed
qed


section \<open>A concrete run\<close>

definition sample_job_settings :: JobSettings where
  "sample_job_settings = \<lparr>job_processing_lease_seconds = 60, job_max_attempts = 3,
     job_retry_base_seconds = 5, job_retry_max_seconds = 300\<rparr>"

definition no_jobs :: job_world where
  "no_jobs = \<lparr>jw_db = \<lparr>db_jobs = [], db_staged = {}, db_audits = []\<rparr>, jw_running = {},
     jw_stored = {}, jw_publishing = {}\<rparr>"

definition submitted_job :: IngestionJob where
  "submitted_job = new_job (Instant 0) ''J1'' ''key''"

definition submitted_world :: job_world where
  "submitted_world = no_jobs\<lparr>jw_db := \<lparr>db_jobs = [submitted_job], db_staged = {''J1''}, db_audits = []\<rparr>,
     jw_publishing := {''J1''}\<rparr>"

definition claimed_job :: IngestionJob where
  "claimed_job = submitted_job\<lparr>j_status := Processing, j_worker_id := Some ''A'',
     j_started_at := Some (Instant 1), j_last_attempt_at := Some (Instant 1),
     j_lease_expires_at := Some (plus_seconds (Instant 1) 60), j_attempt_count := 1\<rparr>"

definition claimed_world :: job_world where
  "claimed_world = submitted_world\<lparr>jw_db := \<lparr>db_jobs = [claimed_job], db_staged = {''J1''}, db_audits = []\<rparr>,
     jw_running := {(''A'', ''J1'')}\<rparr>"

lemma sample_usable: "usable_jobs sample_job_settings"
  by (simp add: usable_jobs_def sample_job_settings_def)

lemma reach_submitted: "reachable_world sample_job_settings submitted_world"
proof (rule reach_step)
  show "reachable_world sample_job_settings no_jobs"
    by (rule reach_initial) (simp add: empty_world_def no_jobs_def)
  have "submit_file (Instant 0) ''J1'' ''key'' (jw_db no_jobs) =
      (\<lparr>db_jobs = [submitted_job], db_staged = {''J1''}, db_audits = []\<rparr>, (''J1'', False, Queued, True))"
    by (simp add: submit_file_def submit_def no_jobs_def submitted_job_def)
  from Submitted [OF _ this, where st = sample_job_settings]
  show "job_step sample_job_settings no_jobs submitted_world"
    by (simp add: no_jobs_def submitted_world_def)
qed

lemma reach_claimed: "reachable_world sample_job_settings claimed_world"
proof (rule reach_step [OF reach_submitted])
  have "find_job ''J1'' (jw_db submitted_world) = Some submitted_job"
    by (simp add: find_job_def submitted_world_def submitted_job_def new_job_def)
  moreover have "claim sample_job_settings ''A'' (Instant 1) submitted_job = Some claimed_job"
    by (simp add: claim_def claimable_def retry_due_def submitted_job_def new_job_def claimed_job_def
        sample_job_settings_def)
  ultimately have "job_step sample_job_settings submitted_world
      (submitted_world\<lparr>jw_db := put_job claimed_job (jw_db submitted_world),
        jw_running := insert (''A'', ''J1'') (jw_running submitted_world)\<rparr>)" by (rule Claimed)
  then show "job_step sample_job_settings submitted_world claimed_world"
    by (simp add: submitted_world_def claimed_world_def no_jobs_def put_job_def replace_job_def
        claimed_job_def submitted_job_def new_job_def)
qed

theorem job_attempts_bounded_witness:
  "j_attempt_count claimed_job \<le> 3 + j_reused_count claimed_job
   \<and> j_status claimed_job = Processing \<and> j_lease_expires_at claimed_job \<noteq> None"
proof -
  have "claimed_job \<in> set (db_jobs (jw_db claimed_world))" by (simp add: claimed_world_def)
  moreover have "j_status claimed_job = Processing" by (simp add: claimed_job_def)
  moreover have "job_max_attempts sample_job_settings = 3" by (simp add: sample_job_settings_def)
  ultimately show ?thesis
    using job_attempts_bounded [OF sample_usable reach_claimed] by (metis insertI1)
qed



section \<open>A cancellation that is lost\<close>

definition cancelling_job :: IngestionJob where
  "cancelling_job = claimed_job\<lparr>j_status := CancelRequested, j_cancel_requested_at := Some (Instant 2),
     j_cancel_reason_code := Some USER_REQUESTED, j_cancel_requested_by := Some ''analyst''\<rparr>"

definition cancelling_world :: job_world where
  "cancelling_world = claimed_world\<lparr>jw_db := \<lparr>db_jobs = [cancelling_job], db_staged = {''J1''},
     db_audits = [\<lparr>ja_event_type = ''job_cancellation_requested'', ja_job_id = ''J1'',
       ja_actor_type = ''user'', ja_actor_id = ''analyst'', ja_timestamp = Instant 2,
       ja_request_id = None\<rparr>]\<rparr>\<rparr>"

lemma claimed_status: "j_status claimed_job = Processing" "j_id claimed_job = ''J1''"
  by (simp_all add: claimed_job_def submitted_job_def new_job_def)

lemma reach_cancelling: "reachable_world sample_job_settings cancelling_world"
proof (rule reach_step [OF reach_claimed])
  have found: "find_job ''J1'' (jw_db claimed_world) = Some claimed_job"
    by (simp add: find_job_def claimed_world_def claimed_status)
  have cancelled: "cancel (Instant 2) ''analyst'' claimed_job = Inr (cancelling_job,
      \<lparr>cr_status = CancelRequested, cr_cancel_requested_at = Some (Instant 2), cr_cancelled_at = None\<rparr>)"
    by (simp add: cancel_def cancel_queued_def cancel_processing_def claimed_status cancelling_job_def)
  have "cancel_job (Instant 2) ''user'' ''analyst'' None ''J1'' (jw_db claimed_world)
      = Some (Inr (jw_db cancelling_world,
          \<lparr>cr_status = CancelRequested, cr_cancel_requested_at = Some (Instant 2), cr_cancelled_at = None\<rparr>))"
    by (simp add: cancel_job_def found cancelled claimed_status)
      (simp add: claimed_world_def cancelling_world_def audit_def add_audit_def put_job_def replace_job_def
        cancelling_job_def claimed_status)
  from CancelCalled [OF this, where st = sample_job_settings]
  show "job_step sample_job_settings claimed_world cancelling_world"
    by (simp add: cancelling_world_def claimed_world_def)
qed

text \<open>C29: an accepted cancellation can be lost. The failure path of the worker writes the status
  without looking at it: when a job is asked to cancel while a worker analyses it and the analysis
  then raises an error that is retried, the job is queued again and will be processed, although its
  cancellation was accepted and audited.\<close>

theorem cancellation_can_be_lost:
  "\<exists>st w w' j j'. usable_jobs st \<and> reachable_world st w \<and> job_step st w w'
    \<and> db_jobs (jw_db w) = [j] \<and> j_status j = CancelRequested
    \<and> db_jobs (jw_db w') = [j'] \<and> j_status j' = Queued \<and> j_cancel_requested_at j' \<noteq> None
    \<and> (\<exists>k t. claim st k t j' \<noteq> None)"
proof -
  let ?st = sample_job_settings
  have found: "find_job ''J1'' (jw_db cancelling_world) = Some cancelling_job"
    by (simp add: find_job_def cancelling_world_def cancelling_job_def claimed_status)
  have running: "(''A'', ''J1'') \<in> jw_running cancelling_world"
    by (simp add: cancelling_world_def claimed_world_def)
  define j' where "j' = fail_job ?st (Instant 3) ProviderTimeoutError cancelling_job"
  define w' where "w' = cancelling_world\<lparr>jw_db := fail_in_db ?st (Instant 3) ProviderTimeoutError
      cancelling_job (jw_db cancelling_world), jw_running := jw_running cancelling_world - {(''A'', ''J1'')}\<rparr>"
  have step: "job_step ?st cancelling_world w'" unfolding w'_def by (rule Raised [OF running found])
  have j': "j_status j' = Queued" "j_cancel_requested_at j' \<noteq> None" "j_id j' = ''J1''"
    by (simp_all add: j'_def fail_job_def cancelling_job_def claimed_job_def submitted_job_def new_job_def
        sample_job_settings_def)
  have rows: "db_jobs (jw_db w') = [j']"
    using j' by (simp add: w'_def fail_in_db_def Let_def flip: j'_def)
      (simp add: cancelling_world_def put_job_def replace_job_def cancelling_job_def claimed_status)
  obtain c where "crash_step ?st j' c" using claim_possible [OF j'(1)] by blast
  then have "\<exists>k t. claim ?st k t j' \<noteq> None"
    using j'(1) by (cases rule: crash_step.cases) (auto simp: stale_def)
  moreover have "db_jobs (jw_db cancelling_world) = [cancelling_job]" "j_status cancelling_job = CancelRequested"
    by (simp_all add: cancelling_world_def cancelling_job_def)
  ultimately show ?thesis using sample_usable reach_cancelling step rows j' by blast
qed

text \<open>A synchronous placeholder holds no lease, so recovery never touches it.\<close>

lemma placeholder_never_recovered: "recover st now (sync_placeholder i key) = sync_placeholder i key"
  by (simp add: recover_def stale_def sync_placeholder_def new_job_def)

text \<open>Once a job with some content is cancelled, submitting that content again returns the
  cancelled job and queues nothing.\<close>

lemma cancelled_content_not_resubmitted:
  assumes "find (\<lambda>j. j_idempotency_key j = Some key) jobs = Some j" and "j_status j = Cancelled"
  shows "submit now fresh_id key jobs = (jobs, (j_id j, True, Cancelled, False))"
  using assms by (simp add: submit_def)

end
