(* ===== verification/WindowRules.thy ===== *)
theory WindowRules
  imports Detectors Addresses
begin

text \<open>
  The rules of \<open>agent/detection/detectors\<close> that group events and scan a sliding window:
  internal lateral scan and multi-service sweep (\<open>service_sweep.py\<close>), subnet sweep
  (\<open>subnet_sweep.py\<close>), remote service probe (\<open>remote_service_probe.py\<close>), repeated
  blocked scanner and distributed scan (\<open>coordinated_scan.py\<close>) and the low-and-slow scans
  (\<open>low_and_slow_scan.py\<close>). Each rule is its metadata, which events it uses and how it groups
  them, its window condition and the signal it emits; each is an interpretation of the rule
  interface.
\<close>

section \<open>Shared fields\<close>

definition dst_port_in :: "int list \<Rightarrow> canonical_event \<Rightarrow> bool" where
  "dst_port_in ports e = (case e_dst_port e of None \<Rightarrow> False | Some p \<Rightarrow> p \<in> set ports)"

definition port_value :: "canonical_event \<Rightarrow> int" where
  "port_value e = (case e_dst_port e of None \<Rightarrow> 0 | Some p \<Rightarrow> p)"

definition destination_targets :: "canonical_event list \<Rightarrow> string list" where
  "destination_targets events = bounded_sorted_values (somes (\<lambda>e. truthy_value (e_dst_ip e)) events) 20"

definition distinct_ports :: "canonical_event list \<Rightarrow> int list" where
  "distinct_ports events = remdups (somes e_dst_port events)"

text \<open>The metrics every condition records of the two ratios.\<close>

definition ratio_metrics :: "canonical_event list \<Rightarrow> pydict" where
  "ratio_metrics events = [(''block_ratio'', PFloat (fst (event_ratios events))),
     (''syn_ratio'', PFloat (snd (event_ratios events)))]"

definition endpoints_parsed :: "canonical_event \<Rightarrow> bool" where
  "endpoints_parsed e =
     (parse_ip_address (e_src_ip e) \<noteq> None \<and> parse_ip_address (e_dst_ip e) \<noteq> None)"

section \<open>Internal lateral scan\<close>

definition lateral_metadata :: DetectionRuleMetadata where
  "lateral_metadata =
     \<lparr>md_rule_id = ''internal_lateral_scan'', md_version = ''1.0.0'',
      md_name = ''Internal Lateral Scan'', md_family = ''lateral_movement_candidate'',
      md_priority = 60, md_supported_event_types = [],
      md_required_fields = [''src_ip'', ''dst_ip'', ''dst_port''],
      md_signal_type = ''internal_lateral_scan'', md_signal_variants = [],
      md_default_severity = ''high'', md_mitre_techniques = [''T1046''],
      md_window_setting = Some ''INTERNAL_LATERAL_SCAN_WINDOW_SECONDS'',
      md_minimum_events_setting = Some ''INTERNAL_LATERAL_SCAN_MIN_EVENTS''\<rparr>"

definition lateral_usable :: "DetectionSettings \<Rightarrow> canonical_event \<Rightarrow> bool" where
  "lateral_usable st e =
     (is_private_unicast (e_src_ip e) \<and> is_private_unicast (e_dst_ip e) \<and>
      dst_port_in (INTERNAL_LATERAL_SCAN_PORTS st) e \<and> normalized_protocol e = ''TCP'' \<and>
      parse_ip_address (e_src_ip e) \<noteq> parse_ip_address (e_dst_ip e) \<and> truthy (e_src_ip e))"

definition service_or_port :: "canonical_event \<Rightarrow> string" where
  "service_or_port e = (case classify_service (e_dst_port e) of Some s \<Rightarrow> s
     | None \<Rightarrow> ''port_'' @ (case e_dst_port e of None \<Rightarrow> ''None'' | Some p \<Rightarrow> str_of_int p))"

definition lateral_check ::
  "DetectionSettings \<Rightarrow> string \<Rightarrow> canonical_event list \<Rightarrow> bool \<times> pydict" where
  "lateral_check st src_ip window =
     (let targets = distinct_target_ips window; (block_ratio, syn_ratio) = event_ratios window;
          services = remdups (map service_or_port window)
      in if length window < INTERNAL_LATERAL_SCAN_MIN_EVENTS st then (False, [])
         else if length targets < INTERNAL_LATERAL_SCAN_MIN_DISTINCT_TARGETS st then (False, [])
         else if block_ratio < INTERNAL_LATERAL_SCAN_MIN_BLOCK_RATIO st then (False, [])
         else if syn_ratio < INTERNAL_LATERAL_SCAN_MIN_SYN_RATIO st then (False, [])
         else (True, [(''event_count'', PInt (int (length window))),
            (''distinct_targets'', PInt (int (length targets))),
            (''distinct_services'', PInt (int (length services)))] @ ratio_metrics window @
            [(''allowed_events'', PInt (int (count_if is_allowed window)))]))"

definition lateral_emit ::
  "DetectionContext \<Rightarrow> string \<Rightarrow> canonical_event list \<Rightarrow> pydict \<Rightarrow> string + DetectionSignal" where
  "lateral_emit ctx src_ip match_events metrics =
     own_signal lateral_metadata ctx match_events metrics src_ip ''private_admin_services''
       ''Private source scanning internal administrative services''
       (calculate_signal_confidence (length match_events)
          (INTERNAL_LATERAL_SCAN_MIN_EVENTS (ctx_settings ctx)) (75/100) (95/100))
       (destination_targets match_events) [''network'', ''scan'', ''internal'', ''lateral_candidate'']"

definition lateral_evaluate ::
  "canonical_event list \<Rightarrow> DetectionContext \<Rightarrow> string + DetectionSignal list" where
  "lateral_evaluate events ctx =
     (let st = ctx_settings ctx in
      scan_groups (\<lambda>e. text_of (e_src_ip e)) (lateral_usable st)
        (INTERNAL_LATERAL_SCAN_WINDOW_SECONDS st) (INTERNAL_LATERAL_SCAN_MIN_EVENTS st)
        (lateral_check st) (lateral_emit ctx) events)"

definition InternalLateralScanRule :: BaseDetectionRule where
  "InternalLateralScanRule = \<lparr>rule_class = ''InternalLateralScanRule'', metadata = lateral_metadata, evaluate = lateral_evaluate\<rparr>"

section \<open>Multi-service sweep\<close>

definition multi_service_metadata :: DetectionRuleMetadata where
  "multi_service_metadata =
     \<lparr>md_rule_id = ''multi_service_sweep'', md_version = ''1.0.0'',
      md_name = ''Multi-Service Sweep'', md_family = ''service_probing'',
      md_priority = 80, md_supported_event_types = [],
      md_required_fields = [''src_ip'', ''dst_ip'', ''dst_port'', ''protocol''],
      md_signal_type = ''multi_service_sweep'', md_signal_variants = [],
      md_default_severity = ''high'', md_mitre_techniques = [''T1046''],
      md_window_setting = Some ''MULTI_SERVICE_SWEEP_WINDOW_SECONDS'',
      md_minimum_events_setting = Some ''MULTI_SERVICE_SWEEP_MIN_EVENTS''\<rparr>"

definition multi_service_usable :: "canonical_event \<Rightarrow> bool" where
  "multi_service_usable e =
     (truthy (e_src_ip e) \<and> truthy (e_dst_ip e) \<and> endpoints_parsed e \<and>
      normalized_protocol e = ''TCP'' \<and> classify_service (e_dst_port e) \<noteq> None)"

definition multi_service_check ::
  "DetectionSettings \<Rightarrow> string \<Rightarrow> canonical_event list \<Rightarrow> bool \<times> pydict" where
  "multi_service_check st src_ip window =
     (let services = sort_uniq (somes (\<lambda>e. classify_service (e_dst_port e)) window);
          targets = distinct_target_ips window; (block_ratio, syn_ratio) = event_ratios window
      in if length window < MULTI_SERVICE_SWEEP_MIN_EVENTS st then (False, [])
         else if length services < MULTI_SERVICE_SWEEP_MIN_DISTINCT_SERVICES st then (False, [])
         else if length targets < MULTI_SERVICE_SWEEP_MIN_DISTINCT_TARGETS st then (False, [])
         else if block_ratio < MULTI_SERVICE_SWEEP_MIN_BLOCK_RATIO st then (False, [])
         else if syn_ratio < MULTI_SERVICE_SWEEP_MIN_SYN_RATIO st then (False, [])
         else (True, [(''event_count'', PInt (int (length window))),
            (''distinct_targets'', PInt (int (length targets))),
            (''distinct_services'', PInt (int (length services))),
            (''services'', PStr (py_join '','' (take 10 services)))] @ ratio_metrics window))"

definition multi_service_emit ::
  "DetectionContext \<Rightarrow> string \<Rightarrow> canonical_event list \<Rightarrow> pydict \<Rightarrow> string + DetectionSignal" where
  "multi_service_emit ctx src_ip match_events metrics =
     own_signal multi_service_metadata ctx match_events metrics src_ip ''multi_service''
       ''Correlated probing across multiple sensitive services''
       (calculate_signal_confidence (length match_events)
          (MULTI_SERVICE_SWEEP_MIN_EVENTS (ctx_settings ctx)) (75/100) (95/100))
       (destination_targets match_events) [''network'', ''scan'', ''service_probe'', ''multi_service'']"

definition multi_service_evaluate ::
  "canonical_event list \<Rightarrow> DetectionContext \<Rightarrow> string + DetectionSignal list" where
  "multi_service_evaluate events ctx =
     (let st = ctx_settings ctx in
      scan_groups (\<lambda>e. text_of (e_src_ip e)) multi_service_usable
        (MULTI_SERVICE_SWEEP_WINDOW_SECONDS st) (MULTI_SERVICE_SWEEP_MIN_EVENTS st)
        (multi_service_check st) (multi_service_emit ctx) events)"

definition MultiServiceSweepRule :: BaseDetectionRule where
  "MultiServiceSweepRule = \<lparr>rule_class = ''MultiServiceSweepRule'', metadata = multi_service_metadata, evaluate = multi_service_evaluate\<rparr>"

section \<open>Subnet sweep\<close>

definition subnet_metadata :: DetectionRuleMetadata where
  "subnet_metadata =
     \<lparr>md_rule_id = ''subnet_sweep'', md_version = ''1.0.0'',
      md_name = ''Subnet Sweep'', md_family = ''network_scanning'',
      md_priority = 90, md_supported_event_types = [],
      md_required_fields = [''src_ip'', ''dst_ip'', ''dst_port''],
      md_signal_type = ''subnet_sweep'', md_signal_variants = [],
      md_default_severity = ''medium'', md_mitre_techniques = [''T1046''],
      md_window_setting = Some ''SUBNET_SWEEP_WINDOW_SECONDS'',
      md_minimum_events_setting = Some ''SUBNET_SWEEP_MIN_EVENTS''\<rparr>"

definition event_subnet :: "DetectionSettings \<Rightarrow> canonical_event \<Rightarrow> string option" where
  "event_subnet st e =
     destination_subnet (e_dst_ip e) (SUBNET_SWEEP_IPV4_PREFIX st) (SUBNET_SWEEP_IPV6_PREFIX st)"

definition subnet_usable :: "DetectionSettings \<Rightarrow> canonical_event \<Rightarrow> bool" where
  "subnet_usable st e =
     (e_src_ip e \<noteq> None \<and> e_dst_port e \<noteq> None \<and> parse_ip_address (e_src_ip e) \<noteq> None \<and>
      event_subnet st e \<noteq> None)"

definition subnet_key :: "DetectionSettings \<Rightarrow> canonical_event \<Rightarrow> string \<times> string \<times> int \<times> string" where
  "subnet_key st e = (text_of (e_src_ip e), text_of (event_subnet st e), port_value e, normalized_protocol e)"

definition subnet_check ::
  "DetectionSettings \<Rightarrow> string \<times> string \<times> int \<times> string \<Rightarrow> canonical_event list \<Rightarrow> bool \<times> pydict" where
  "subnet_check st = (\<lambda>(src_ip, network, dst_port, protocol) window.
     (let targets = distinct_target_ips window; (block_ratio, syn_ratio) = event_ratios window
      in if length window < SUBNET_SWEEP_MIN_EVENTS st then (False, [])
         else if length targets < SUBNET_SWEEP_MIN_DISTINCT_TARGETS st then (False, [])
         else if block_ratio < SUBNET_SWEEP_MIN_BLOCK_RATIO st then (False, [])
         else if protocol = ''TCP'' \<and> syn_ratio < SUBNET_SWEEP_MIN_SYN_RATIO st then (False, [])
         else (True, [(''destination_subnet'', PStr network),
            (''event_count'', PInt (int (length window))),
            (''distinct_targets'', PInt (int (length targets))),
            (''destination_port'', PInt dst_port)] @ ratio_metrics window)))"

definition subnet_emit ::
  "DetectionContext \<Rightarrow> string \<times> string \<times> int \<times> string \<Rightarrow> canonical_event list \<Rightarrow> pydict
     \<Rightarrow> string + DetectionSignal" where
  "subnet_emit ctx = (\<lambda>(src_ip, network, dst_port, protocol) match_events metrics.
     own_signal subnet_metadata ctx match_events metrics src_ip
       (''subnet_'' @ network @ ''_'' @ str_of_int dst_port @ ''_'' @ protocol)
       (''Subnet sweep detected in '' @ network)
       (calculate_signal_confidence (length match_events)
          (SUBNET_SWEEP_MIN_EVENTS (ctx_settings ctx)) (65/100) (9/10))
       (destination_targets match_events) [''network'', ''scan'', ''subnet_sweep''])"

definition subnet_evaluate ::
  "canonical_event list \<Rightarrow> DetectionContext \<Rightarrow> string + DetectionSignal list" where
  "subnet_evaluate events ctx =
     (let st = ctx_settings ctx in
      scan_groups (subnet_key st) (subnet_usable st) (SUBNET_SWEEP_WINDOW_SECONDS st)
        (SUBNET_SWEEP_MIN_EVENTS st) (subnet_check st) (subnet_emit ctx) events)"

definition SubnetSweepRule :: BaseDetectionRule where
  "SubnetSweepRule = \<lparr>rule_class = ''SubnetSweepRule'', metadata = subnet_metadata, evaluate = subnet_evaluate\<rparr>"

section \<open>Remote service probe\<close>

definition remote_metadata :: DetectionRuleMetadata where
  "remote_metadata =
     \<lparr>md_rule_id = ''remote_service_probe'', md_version = ''1.0.0'',
      md_name = ''Remote Service Probe (RDP/SSH)'', md_family = ''service_probing'',
      md_priority = 50, md_supported_event_types = [],
      md_required_fields = [''src_ip'', ''dst_port'', ''protocol''],
      md_signal_type = ''remote_service_probe'', md_signal_variants = 
        [\<lparr>v_rule_id = ''rdp_probe'', v_rule_name = ''RDP Probe'', v_signal_type = ''rdp_probe''\<rparr>,
         \<lparr>v_rule_id = ''ssh_probe'', v_rule_name = ''SSH Probe'', v_signal_type = ''ssh_probe''\<rparr>],
      md_default_severity = ''high'', md_mitre_techniques = [''T1046''],
      md_window_setting = Some ''REMOTE_SERVICE_WINDOW_SECONDS'',
      md_minimum_events_setting = Some ''REMOTE_SERVICE_MIN_EVENTS''\<rparr>"

definition remote_usable :: "DetectionSettings \<Rightarrow> canonical_event \<Rightarrow> bool" where
  "remote_usable st e =
     (truthy (e_src_ip e) \<and> dst_port_in (RDP_PORTS st @ SSH_PORTS st) e \<and>
      (case truthy_value (e_protocol e) of None \<Rightarrow> False | Some p \<Rightarrow> py_upper p = ''TCP''))"

definition remote_key :: "DetectionSettings \<Rightarrow> canonical_event \<Rightarrow> string \<times> string" where
  "remote_key st e = (text_of (e_src_ip e), if dst_port_in (RDP_PORTS st) e then ''rdp'' else ''ssh'')"

definition remote_check ::
  "DetectionSettings \<Rightarrow> string \<times> string \<Rightarrow> canonical_event list \<Rightarrow> bool \<times> pydict" where
  "remote_check st = (\<lambda>(src_ip, svc_type) window.
     (let targets = distinct_target_ips window
      in if length window < REMOTE_SERVICE_MIN_EVENTS st then (False, [])
         else if length targets < REMOTE_SERVICE_MIN_DISTINCT_TARGETS st then (False, [])
         else if ratio raw_block window < REMOTE_SERVICE_MIN_BLOCK_RATIO st then (False, [])
         else if ratio is_tcp_syn window < REMOTE_SERVICE_MIN_SYN_RATIO st then (False, [])
         else (True, [(''distinct_targets'', PInt (int (length targets))),
            (''block_ratio'', PFloat (ratio raw_block window)),
            (''syn_ratio'', PFloat (ratio is_tcp_syn window)),
            (''event_count'', PInt (int (length window))), (''service'', PStr svc_type)])))"

definition remote_variant :: "string \<Rightarrow> DetectionSignalVariant" where
  "remote_variant svc_type =
     \<lparr>v_rule_id = svc_type @ ''_probe'', v_rule_name = py_upper svc_type @ '' Probe'',
      v_signal_type = svc_type @ ''_probe''\<rparr>"

definition remote_emit ::
  "DetectionContext \<Rightarrow> string \<times> string \<Rightarrow> canonical_event list \<Rightarrow> pydict \<Rightarrow> string + DetectionSignal" where
  "remote_emit ctx = (\<lambda>(src_ip, svc_type) match_events match_context.
     window_signal remote_metadata (remote_variant svc_type) (md_rule_id remote_metadata) (ctx_now ctx)
       match_events match_context src_ip (''service_'' @ svc_type)
       (''Suspicious '' @ py_upper svc_type @ '' probing detected'')
       (calculate_signal_confidence (metric_count match_context ''event_count'')
          (REMOTE_SERVICE_MIN_EVENTS (ctx_settings ctx)) (7/10) (95/100))
       (distinct_target_ips match_events) [''network'', ''probe'', svc_type])"

definition remote_evaluate ::
  "canonical_event list \<Rightarrow> DetectionContext \<Rightarrow> string + DetectionSignal list" where
  "remote_evaluate events ctx =
     (let st = ctx_settings ctx in
      scan_groups (remote_key st) (remote_usable st) (REMOTE_SERVICE_WINDOW_SECONDS st)
        (REMOTE_SERVICE_MIN_EVENTS st) (remote_check st) (remote_emit ctx) events)"

definition RemoteServiceProbeRule :: BaseDetectionRule where
  "RemoteServiceProbeRule = \<lparr>rule_class = ''RemoteServiceProbeRule'', metadata = remote_metadata, evaluate = remote_evaluate\<rparr>"

section \<open>Repeated blocked scanner\<close>

definition blocked_scanner_metadata :: DetectionRuleMetadata where
  "blocked_scanner_metadata =
     \<lparr>md_rule_id = ''repeated_blocked_scanner'', md_version = ''1.1.0'',
      md_name = ''Repeated Blocked Scanner'', md_family = ''network_scanning'',
      md_priority = 110, md_supported_event_types = [],
      md_required_fields = [''src_ip'', ''action''],
      md_signal_type = ''repeated_blocked_scanner'', md_signal_variants = [],
      md_default_severity = ''low'', md_mitre_techniques = [''T1046''],
      md_window_setting = Some ''REPEATED_BLOCKED_SCANNER_WINDOW_SECONDS'',
      md_minimum_events_setting = Some ''REPEATED_BLOCKED_SCANNER_MIN_EVENTS''\<rparr>"

definition blocked_scanner_usable :: "DetectionSettings \<Rightarrow> canonical_event \<Rightarrow> bool" where
  "blocked_scanner_usable st e =
     (truthy (e_src_ip e) \<and> parse_ip_address (e_src_ip e) \<noteq> None \<and>
      (e_dst_ip e = None \<or> parse_ip_address (e_dst_ip e) \<noteq> None) \<and>
      \<not> is_spi_anomaly_event e (SPI_ANOMALY_FALLBACK_RAW_MATCH st) \<and>
      \<not> (normalized_protocol e = ''TCP'' \<and> \<not> is_tcp_initial_connection_probe e))"

definition source_protocol_key :: "canonical_event \<Rightarrow> string \<times> string" where
  "source_protocol_key e = (text_of (e_src_ip e), normalized_protocol e)"

definition parsed_targets :: "canonical_event list \<Rightarrow> string list" where
  "parsed_targets events = remdups (somes (\<lambda>e. if parse_ip_address (e_dst_ip e) \<noteq> None
     then truthy_value (e_dst_ip e) else None) events)"

definition blocked_scanner_check ::
  "DetectionSettings \<Rightarrow> string \<times> string \<Rightarrow> canonical_event list \<Rightarrow> bool \<times> pydict" where
  "blocked_scanner_check st = (\<lambda>(src_ip, protocol) window.
     (let blocked_events = count_if is_blocked window; block_ratio = ratio is_blocked window;
          targets = parsed_targets window; ports = distinct_ports window
      in if length window < REPEATED_BLOCKED_SCANNER_MIN_EVENTS st then (False, [])
         else if block_ratio < REPEATED_BLOCKED_SCANNER_MIN_BLOCK_RATIO st then (False, [])
         else if \<not> (REPEATED_BLOCKED_SCANNER_MIN_DISTINCT_TARGETS st \<le> length targets \<or>
                   REPEATED_BLOCKED_SCANNER_MIN_DISTINCT_PORTS st \<le> length ports) then (False, [])
         else (True, [(''event_count'', PInt (int (length window))),
            (''blocked_events'', PInt (int blocked_events)), (''block_ratio'', PFloat block_ratio),
            (''distinct_targets'', PInt (int (length targets))),
            (''distinct_ports'', PInt (int (length ports)))])))"

definition blocked_scanner_emit ::
  "DetectionContext \<Rightarrow> string \<times> string \<Rightarrow> canonical_event list \<Rightarrow> pydict \<Rightarrow> string + DetectionSignal" where
  "blocked_scanner_emit ctx = (\<lambda>(src_ip, protocol) match_events metrics.
     own_signal blocked_scanner_metadata ctx match_events metrics src_ip
       (''blocked_scanner_'' @ protocol) ''Repeated blocked scanner-like activity''
       (calculate_signal_confidence (length match_events)
          (REPEATED_BLOCKED_SCANNER_MIN_EVENTS (ctx_settings ctx)) (55/100) (8/10))
       (destination_targets match_events) [''network'', ''scan'', ''blocked''])"

definition blocked_scanner_evaluate ::
  "canonical_event list \<Rightarrow> DetectionContext \<Rightarrow> string + DetectionSignal list" where
  "blocked_scanner_evaluate events ctx =
     (let st = ctx_settings ctx in
      scan_groups source_protocol_key (blocked_scanner_usable st)
        (REPEATED_BLOCKED_SCANNER_WINDOW_SECONDS st) (REPEATED_BLOCKED_SCANNER_MIN_EVENTS st)
        (blocked_scanner_check st) (blocked_scanner_emit ctx) events)"

definition RepeatedBlockedScannerRule :: BaseDetectionRule where
  "RepeatedBlockedScannerRule = \<lparr>rule_class = ''RepeatedBlockedScannerRule'', metadata = blocked_scanner_metadata, evaluate = blocked_scanner_evaluate\<rparr>"

section \<open>Distributed scan\<close>

definition distributed_metadata :: DetectionRuleMetadata where
  "distributed_metadata =
     \<lparr>md_rule_id = ''distributed_scan'', md_version = ''1.0.0'',
      md_name = ''Distributed Scan'', md_family = ''network_scanning'',
      md_priority = 70, md_supported_event_types = [],
      md_required_fields = [''src_ip'', ''dst_ip'', ''dst_port''],
      md_signal_type = ''distributed_scan'', md_signal_variants = [],
      md_default_severity = ''medium'', md_mitre_techniques = [''T1046''],
      md_window_setting = Some ''DISTRIBUTED_SCAN_WINDOW_SECONDS'',
      md_minimum_events_setting = Some ''DISTRIBUTED_SCAN_MIN_EVENTS''\<rparr>"

definition addressed :: "canonical_event \<Rightarrow> bool" where
  "addressed e = (e_src_ip e \<noteq> None \<and> e_dst_ip e \<noteq> None \<and> e_dst_port e \<noteq> None \<and> endpoints_parsed e)"

definition distributed_key :: "canonical_event \<Rightarrow> string \<times> int \<times> string" where
  "distributed_key e = (text_of (e_dst_ip e), port_value e, normalized_protocol e)"

definition distinct_sources :: "canonical_event list \<Rightarrow> string list" where
  "distinct_sources events = remdups (somes (\<lambda>e. truthy_value (e_src_ip e)) events)"

definition required_block_ratio :: "DetectionSettings \<Rightarrow> int \<Rightarrow> rat" where
  "required_block_ratio st dst_port =
     (if dst_port \<in> {80, 443} then max (DISTRIBUTED_SCAN_MIN_BLOCK_RATIO st) (9/10)
      else DISTRIBUTED_SCAN_MIN_BLOCK_RATIO st)"

definition required_syn_ratio :: "DetectionSettings \<Rightarrow> int \<Rightarrow> rat" where
  "required_syn_ratio st dst_port =
     (if dst_port \<in> {80, 443} then max (DISTRIBUTED_SCAN_MIN_SYN_RATIO st) (8/10)
      else DISTRIBUTED_SCAN_MIN_SYN_RATIO st)"

definition distributed_check ::
  "DetectionSettings \<Rightarrow> string \<times> int \<times> string \<Rightarrow> canonical_event list \<Rightarrow> bool \<times> pydict" where
  "distributed_check st = (\<lambda>(dst_ip, dst_port, protocol) window.
     (let sources = distinct_sources window; (block_ratio, syn_ratio) = event_ratios window
      in if length window < DISTRIBUTED_SCAN_MIN_EVENTS st then (False, [])
         else if length sources < DISTRIBUTED_SCAN_MIN_DISTINCT_SOURCES st then (False, [])
         else if block_ratio < required_block_ratio st dst_port then (False, [])
         else if protocol = ''TCP'' \<and> syn_ratio < required_syn_ratio st dst_port then (False, [])
         else (True, [(''event_count'', PInt (int (length window))),
            (''distinct_sources'', PInt (int (length sources))),
            (''destination_port'', PInt dst_port)] @ ratio_metrics window)))"

definition distributed_emit ::
  "DetectionContext \<Rightarrow> string \<times> int \<times> string \<Rightarrow> canonical_event list \<Rightarrow> pydict
     \<Rightarrow> string + DetectionSignal" where
  "distributed_emit ctx = (\<lambda>(dst_ip, dst_port, protocol) match_events metrics.
     own_signal distributed_metadata ctx match_events metrics dst_ip
       (''service_'' @ str_of_int dst_port @ ''_'' @ protocol)
       (''Distributed scan targeting '' @ dst_ip @ '':'' @ str_of_int dst_port)
       (calculate_signal_confidence (length match_events)
          (DISTRIBUTED_SCAN_MIN_EVENTS (ctx_settings ctx)) (7/10) (9/10))
       (bounded_sorted_values (somes (\<lambda>e. truthy_value (e_src_ip e)) match_events) 20)
       [''network'', ''scan'', ''distributed''])"

definition distributed_evaluate ::
  "canonical_event list \<Rightarrow> DetectionContext \<Rightarrow> string + DetectionSignal list" where
  "distributed_evaluate events ctx =
     (let st = ctx_settings ctx in
      scan_groups distributed_key addressed (DISTRIBUTED_SCAN_WINDOW_SECONDS st)
        (DISTRIBUTED_SCAN_MIN_EVENTS st) (distributed_check st) (distributed_emit ctx) events)"

definition DistributedScanRule :: BaseDetectionRule where
  "DistributedScanRule = \<lparr>rule_class = ''DistributedScanRule'', metadata = distributed_metadata, evaluate = distributed_evaluate\<rparr>"

section \<open>Low-and-slow scans\<close>

definition observed_span_seconds :: "canonical_event list \<Rightarrow> rat" where
  "observed_span_seconds events = of_int (observed_span events) / 1000000"

definition slow_horizontal_metadata :: DetectionRuleMetadata where
  "slow_horizontal_metadata =
     \<lparr>md_rule_id = ''low_and_slow_horizontal_scan'', md_version = ''1.0.0'',
      md_name = ''Low-and-Slow Horizontal Scan'', md_family = ''network_scanning'',
      md_priority = 130, md_supported_event_types = [],
      md_required_fields = [''src_ip'', ''dst_ip'', ''dst_port''],
      md_signal_type = ''low_and_slow_horizontal_scan'', md_signal_variants = [],
      md_default_severity = ''medium'', md_mitre_techniques = [''T1046''],
      md_window_setting = Some ''LOW_SLOW_HORIZONTAL_WINDOW_SECONDS'',
      md_minimum_events_setting = Some ''LOW_SLOW_HORIZONTAL_MIN_EVENTS''\<rparr>"

definition slow_horizontal_key :: "canonical_event \<Rightarrow> string \<times> int \<times> string" where
  "slow_horizontal_key e = (text_of (e_src_ip e), port_value e, normalized_protocol e)"

definition slow_horizontal_check ::
  "DetectionSettings \<Rightarrow> string \<times> int \<times> string \<Rightarrow> canonical_event list \<Rightarrow> bool \<times> pydict" where
  "slow_horizontal_check st = (\<lambda>(src_ip, dst_port, protocol) window.
     (let targets = distinct_target_ips window; span = observed_span_seconds window;
          (block_ratio, syn_ratio) = event_ratios window
      in if length window < LOW_SLOW_HORIZONTAL_MIN_EVENTS st then (False, [])
         else if length targets < LOW_SLOW_HORIZONTAL_MIN_DISTINCT_TARGETS st then (False, [])
         else if span < of_int (LOW_SLOW_HORIZONTAL_MIN_SPAN_SECONDS st) then (False, [])
         else if block_ratio < LOW_SLOW_HORIZONTAL_MIN_BLOCK_RATIO st then (False, [])
         else if protocol = ''TCP'' \<and> syn_ratio < LOW_SLOW_HORIZONTAL_MIN_SYN_RATIO st then (False, [])
         else (True, [(''event_count'', PInt (int (length window))),
            (''distinct_targets'', PInt (int (length targets))),
            (''destination_port'', PInt dst_port)] @ ratio_metrics window @
            [(''observed_span_seconds'', PFloat span)])))"

definition slow_horizontal_emit ::
  "DetectionContext \<Rightarrow> string \<times> int \<times> string \<Rightarrow> canonical_event list \<Rightarrow> pydict
     \<Rightarrow> string + DetectionSignal" where
  "slow_horizontal_emit ctx = (\<lambda>(src_ip, dst_port, protocol) match_events metrics.
     own_signal slow_horizontal_metadata ctx match_events metrics src_ip
       (''port_'' @ str_of_int dst_port @ ''_'' @ protocol)
       (''Low-and-slow horizontal scan on port '' @ str_of_int dst_port)
       (calculate_signal_confidence (length match_events)
          (LOW_SLOW_HORIZONTAL_MIN_EVENTS (ctx_settings ctx)) (65/100) (9/10))
       (destination_targets match_events) [''network'', ''scan'', ''low_and_slow'', ''horizontal''])"

definition slow_horizontal_evaluate ::
  "canonical_event list \<Rightarrow> DetectionContext \<Rightarrow> string + DetectionSignal list" where
  "slow_horizontal_evaluate events ctx =
     (let st = ctx_settings ctx in
      scan_groups slow_horizontal_key addressed (LOW_SLOW_HORIZONTAL_WINDOW_SECONDS st)
        (LOW_SLOW_HORIZONTAL_MIN_EVENTS st) (slow_horizontal_check st) (slow_horizontal_emit ctx) events)"

definition LowAndSlowHorizontalScanRule :: BaseDetectionRule where
  "LowAndSlowHorizontalScanRule = \<lparr>rule_class = ''LowAndSlowHorizontalScanRule'', metadata = slow_horizontal_metadata, evaluate = slow_horizontal_evaluate\<rparr>"

definition slow_vertical_metadata :: DetectionRuleMetadata where
  "slow_vertical_metadata =
     \<lparr>md_rule_id = ''low_and_slow_vertical_scan'', md_version = ''1.0.0'',
      md_name = ''Low-and-Slow Vertical Scan'', md_family = ''network_scanning'',
      md_priority = 130, md_supported_event_types = [],
      md_required_fields = [''src_ip'', ''dst_ip'', ''dst_port''],
      md_signal_type = ''low_and_slow_vertical_scan'', md_signal_variants = [],
      md_default_severity = ''medium'', md_mitre_techniques = [''T1046''],
      md_window_setting = Some ''LOW_SLOW_VERTICAL_WINDOW_SECONDS'',
      md_minimum_events_setting = Some ''LOW_SLOW_VERTICAL_MIN_EVENTS''\<rparr>"

definition slow_vertical_key :: "canonical_event \<Rightarrow> string \<times> string \<times> string" where
  "slow_vertical_key e = (text_of (e_src_ip e), text_of (e_dst_ip e), normalized_protocol e)"

definition slow_vertical_check ::
  "DetectionSettings \<Rightarrow> string \<times> string \<times> string \<Rightarrow> canonical_event list \<Rightarrow> bool \<times> pydict" where
  "slow_vertical_check st = (\<lambda>(src_ip, dst_ip, protocol) window.
     (let ports = distinct_ports window; span = observed_span_seconds window;
          (block_ratio, syn_ratio) = event_ratios window
      in if length window < LOW_SLOW_VERTICAL_MIN_EVENTS st then (False, [])
         else if length ports < LOW_SLOW_VERTICAL_MIN_DISTINCT_PORTS st then (False, [])
         else if span < of_int (LOW_SLOW_VERTICAL_MIN_SPAN_SECONDS st) then (False, [])
         else if block_ratio < LOW_SLOW_VERTICAL_MIN_BLOCK_RATIO st then (False, [])
         else if protocol = ''TCP'' \<and> syn_ratio < LOW_SLOW_VERTICAL_MIN_SYN_RATIO st then (False, [])
         else (True, [(''event_count'', PInt (int (length window))),
            (''distinct_ports'', PInt (int (length ports)))] @ ratio_metrics window @
            [(''observed_span_seconds'', PFloat span)])))"

definition slow_vertical_emit ::
  "DetectionContext \<Rightarrow> string \<times> string \<times> string \<Rightarrow> canonical_event list \<Rightarrow> pydict
     \<Rightarrow> string + DetectionSignal" where
  "slow_vertical_emit ctx = (\<lambda>(src_ip, dst_ip, protocol) match_events metrics.
     own_signal slow_vertical_metadata ctx match_events metrics src_ip
       (''target_'' @ dst_ip @ ''_'' @ protocol)
       (''Low-and-slow vertical scan targeting '' @ dst_ip)
       (calculate_signal_confidence (length match_events)
          (LOW_SLOW_VERTICAL_MIN_EVENTS (ctx_settings ctx)) (65/100) (9/10))
       [dst_ip] [''network'', ''scan'', ''low_and_slow'', ''vertical''])"

definition slow_vertical_evaluate ::
  "canonical_event list \<Rightarrow> DetectionContext \<Rightarrow> string + DetectionSignal list" where
  "slow_vertical_evaluate events ctx =
     (let st = ctx_settings ctx in
      scan_groups slow_vertical_key addressed (LOW_SLOW_VERTICAL_WINDOW_SECONDS st)
        (LOW_SLOW_VERTICAL_MIN_EVENTS st) (slow_vertical_check st) (slow_vertical_emit ctx) events)"

definition LowAndSlowVerticalScanRule :: BaseDetectionRule where
  "LowAndSlowVerticalScanRule = \<lparr>rule_class = ''LowAndSlowVerticalScanRule'', metadata = slow_vertical_metadata, evaluate = slow_vertical_evaluate\<rparr>"

section \<open>The rules meet the interface\<close>

lemma window_metadata_sound:
  "sound_metadata lateral_metadata" "sound_metadata multi_service_metadata"
  "sound_metadata subnet_metadata" "sound_metadata remote_metadata"
  "sound_metadata blocked_scanner_metadata" "sound_metadata distributed_metadata"
  "sound_metadata slow_horizontal_metadata" "sound_metadata slow_vertical_metadata"
  by (simp_all add: sound_metadata_def lateral_metadata_def multi_service_metadata_def
      subnet_metadata_def remote_metadata_def blocked_scanner_metadata_def distributed_metadata_def
      slow_horizontal_metadata_def slow_vertical_metadata_def)

lemma window_metadata_variants:
  "md_signal_variants lateral_metadata = []" "md_signal_variants multi_service_metadata = []"
  "md_signal_variants subnet_metadata = []" "md_signal_variants blocked_scanner_metadata = []"
  "md_signal_variants distributed_metadata = []" "md_signal_variants slow_horizontal_metadata = []"
  "md_signal_variants slow_vertical_metadata = []"
  by (simp_all add: lateral_metadata_def multi_service_metadata_def
      subnet_metadata_def blocked_scanner_metadata_def distributed_metadata_def
      slow_horizontal_metadata_def slow_vertical_metadata_def)

lemma remote_variant_declared:
  assumes "svc = ''rdp'' \<or> svc = ''ssh''"
  shows "declared_variant remote_metadata (remote_variant svc)"
proof -
  have "remote_variant ''rdp'' \<in> set (md_signal_variants remote_metadata)"
    and "remote_variant ''ssh'' \<in> set (md_signal_variants remote_metadata)" by code_simp+
  with assms show ?thesis by (auto simp: declared_variant_def)
qed

lemma lateral_sound:
  assumes "rule_input es" and "usable_settings (ctx_settings ctx)"
    and fields: "\<forall>e \<in> set es. event_has_required_fields e (md_required_fields lateral_metadata)"
  shows "\<exists>ss. lateral_evaluate es ctx = Inr ss \<and>
    (\<forall>s \<in> set ss. honours_contract lateral_metadata (e_event_id ` set es) s)"
  unfolding lateral_evaluate_def Let_def
proof (rule scan_groups_sound [OF assms(1)])
  show "0 \<le> INTERNAL_LATERAL_SCAN_WINDOW_SECONDS (ctx_settings ctx)"
    by (rule usable_window [OF assms(2)]) (simp add: positive_seconds_def)
next
  fix k win mc
  assume win: "rule_input win" "win \<noteq> []" "set win \<subseteq> set es"
    and "\<forall>e \<in> set win. lateral_usable (ctx_settings ctx) e \<and> text_of (e_src_ip e) = k"
  then have key: "\<forall>e \<in> set win. text_of (e_src_ip e) = k"
    by (auto)
  have "py_strip (k) \<noteq> []"
    by (rule primary_visible(1) [OF fields win(3,2) _ key]) (simp add: lateral_metadata_def)
  then show "\<exists>s. lateral_emit ctx k win mc = Inr s \<and>
      honours_contract lateral_metadata (e_event_id ` set es) s"
    unfolding lateral_emit_def
    by (intro own_signal_sound win window_metadata_sound window_metadata_variants signal_confidence_unit) simp_all
qed

lemma multi_service_sound:
  assumes "rule_input es" and "usable_settings (ctx_settings ctx)"
    and fields: "\<forall>e \<in> set es. event_has_required_fields e (md_required_fields multi_service_metadata)"
  shows "\<exists>ss. multi_service_evaluate es ctx = Inr ss \<and>
    (\<forall>s \<in> set ss. honours_contract multi_service_metadata (e_event_id ` set es) s)"
  unfolding multi_service_evaluate_def Let_def
proof (rule scan_groups_sound [OF assms(1)])
  show "0 \<le> MULTI_SERVICE_SWEEP_WINDOW_SECONDS (ctx_settings ctx)"
    by (rule usable_window [OF assms(2)]) (simp add: positive_seconds_def)
next
  fix k win mc
  assume win: "rule_input win" "win \<noteq> []" "set win \<subseteq> set es"
    and "\<forall>e \<in> set win. multi_service_usable e \<and> text_of (e_src_ip e) = k"
  then have key: "\<forall>e \<in> set win. text_of (e_src_ip e) = k"
    by (auto)
  have "py_strip (k) \<noteq> []"
    by (rule primary_visible(1) [OF fields win(3,2) _ key]) (simp add: multi_service_metadata_def)
  then show "\<exists>s. multi_service_emit ctx k win mc = Inr s \<and>
      honours_contract multi_service_metadata (e_event_id ` set es) s"
    unfolding multi_service_emit_def
    by (intro own_signal_sound win window_metadata_sound window_metadata_variants signal_confidence_unit) simp_all
qed

lemma subnet_sound:
  assumes "rule_input es" and "usable_settings (ctx_settings ctx)"
    and fields: "\<forall>e \<in> set es. event_has_required_fields e (md_required_fields subnet_metadata)"
  shows "\<exists>ss. subnet_evaluate es ctx = Inr ss \<and>
    (\<forall>s \<in> set ss. honours_contract subnet_metadata (e_event_id ` set es) s)"
  unfolding subnet_evaluate_def Let_def
proof (rule scan_groups_sound [OF assms(1)])
  show "0 \<le> SUBNET_SWEEP_WINDOW_SECONDS (ctx_settings ctx)"
    by (rule usable_window [OF assms(2)]) (simp add: positive_seconds_def)
next
  fix k win mc
  assume win: "rule_input win" "win \<noteq> []" "set win \<subseteq> set es"
    and "\<forall>e \<in> set win. subnet_usable (ctx_settings ctx) e \<and> subnet_key (ctx_settings ctx) e = k"
  then have key: "\<forall>e \<in> set win. text_of (e_src_ip e) = fst k"
    by (auto simp: subnet_key_def)
  have "py_strip (fst k) \<noteq> []"
    by (rule primary_visible(1) [OF fields win(3,2) _ key]) (simp add: subnet_metadata_def)
  then show "\<exists>s. subnet_emit ctx k win mc = Inr s \<and>
      honours_contract subnet_metadata (e_event_id ` set es) s"
    unfolding subnet_emit_def case_prod_beta
    by (intro own_signal_sound win window_metadata_sound window_metadata_variants signal_confidence_unit) simp_all
qed

lemma remote_sound:
  assumes "rule_input es" and "usable_settings (ctx_settings ctx)"
    and fields: "\<forall>e \<in> set es. event_has_required_fields e (md_required_fields remote_metadata)"
  shows "\<exists>ss. remote_evaluate es ctx = Inr ss \<and>
    (\<forall>s \<in> set ss. honours_contract remote_metadata (e_event_id ` set es) s)"
  unfolding remote_evaluate_def Let_def
proof (rule scan_groups_sound [OF assms(1)])
  show "0 \<le> REMOTE_SERVICE_WINDOW_SECONDS (ctx_settings ctx)"
    by (rule usable_window [OF assms(2)]) (simp)
next
  fix k win mc
  assume win: "rule_input win" "win \<noteq> []" "set win \<subseteq> set es"
    and "\<forall>e \<in> set win. remote_usable (ctx_settings ctx) e \<and> remote_key (ctx_settings ctx) e = k"
  then have key: "\<forall>e \<in> set win. text_of (e_src_ip e) = fst k"
    and hd: "k = remote_key (ctx_settings ctx) (hd win)"
    using hd_in_set [OF win(2)] by (auto simp: remote_key_def)
  have svc: "snd k = ''rdp'' \<or> snd k = ''ssh''" by (simp add: hd remote_key_def)
  have "py_strip (fst k) \<noteq> []"
    by (rule primary_visible(1) [OF fields win(3,2) _ key]) (simp add: remote_metadata_def)
  then show "\<exists>s. remote_emit ctx k win mc = Inr s \<and>
      honours_contract remote_metadata (e_event_id ` set es) s"
    unfolding remote_emit_def case_prod_beta
    using svc
    by (intro window_signal_sound win window_metadata_sound signal_confidence_unit remote_variant_declared) auto
qed

lemma blocked_scanner_sound:
  assumes "rule_input es" and "usable_settings (ctx_settings ctx)"
    and fields: "\<forall>e \<in> set es. event_has_required_fields e (md_required_fields blocked_scanner_metadata)"
  shows "\<exists>ss. blocked_scanner_evaluate es ctx = Inr ss \<and>
    (\<forall>s \<in> set ss. honours_contract blocked_scanner_metadata (e_event_id ` set es) s)"
  unfolding blocked_scanner_evaluate_def Let_def
proof (rule scan_groups_sound [OF assms(1)])
  show "0 \<le> REPEATED_BLOCKED_SCANNER_WINDOW_SECONDS (ctx_settings ctx)"
    by (rule usable_window [OF assms(2)]) (simp add: positive_seconds_def)
next
  fix k win mc
  assume win: "rule_input win" "win \<noteq> []" "set win \<subseteq> set es"
    and "\<forall>e \<in> set win. blocked_scanner_usable (ctx_settings ctx) e \<and> source_protocol_key e = k"
  then have key: "\<forall>e \<in> set win. text_of (e_src_ip e) = fst k"
    by (auto simp: source_protocol_key_def)
  have "py_strip (fst k) \<noteq> []"
    by (rule primary_visible(1) [OF fields win(3,2) _ key]) (simp add: blocked_scanner_metadata_def)
  then show "\<exists>s. blocked_scanner_emit ctx k win mc = Inr s \<and>
      honours_contract blocked_scanner_metadata (e_event_id ` set es) s"
    unfolding blocked_scanner_emit_def case_prod_beta
    by (intro own_signal_sound win window_metadata_sound window_metadata_variants signal_confidence_unit) simp_all
qed

lemma distributed_sound:
  assumes "rule_input es" and "usable_settings (ctx_settings ctx)"
    and fields: "\<forall>e \<in> set es. event_has_required_fields e (md_required_fields distributed_metadata)"
  shows "\<exists>ss. distributed_evaluate es ctx = Inr ss \<and>
    (\<forall>s \<in> set ss. honours_contract distributed_metadata (e_event_id ` set es) s)"
  unfolding distributed_evaluate_def Let_def
proof (rule scan_groups_sound [OF assms(1)])
  show "0 \<le> DISTRIBUTED_SCAN_WINDOW_SECONDS (ctx_settings ctx)"
    by (rule usable_window [OF assms(2)]) (simp add: positive_seconds_def)
next
  fix k win mc
  assume win: "rule_input win" "win \<noteq> []" "set win \<subseteq> set es"
    and "\<forall>e \<in> set win. addressed e \<and> distributed_key e = k"
  then have key: "\<forall>e \<in> set win. text_of (e_dst_ip e) = fst k"
    by (auto simp: distributed_key_def)
  have "py_strip (fst k) \<noteq> []"
    by (rule primary_visible(2) [OF fields win(3,2) _ key]) (simp add: distributed_metadata_def)
  then show "\<exists>s. distributed_emit ctx k win mc = Inr s \<and>
      honours_contract distributed_metadata (e_event_id ` set es) s"
    unfolding distributed_emit_def case_prod_beta
    by (intro own_signal_sound win window_metadata_sound window_metadata_variants signal_confidence_unit) simp_all
qed

lemma slow_horizontal_sound:
  assumes "rule_input es" and "usable_settings (ctx_settings ctx)"
    and fields: "\<forall>e \<in> set es. event_has_required_fields e (md_required_fields slow_horizontal_metadata)"
  shows "\<exists>ss. slow_horizontal_evaluate es ctx = Inr ss \<and>
    (\<forall>s \<in> set ss. honours_contract slow_horizontal_metadata (e_event_id ` set es) s)"
  unfolding slow_horizontal_evaluate_def Let_def
proof (rule scan_groups_sound [OF assms(1)])
  show "0 \<le> LOW_SLOW_HORIZONTAL_WINDOW_SECONDS (ctx_settings ctx)"
    by (rule usable_window [OF assms(2)]) (simp add: positive_seconds_def)
next
  fix k win mc
  assume win: "rule_input win" "win \<noteq> []" "set win \<subseteq> set es"
    and "\<forall>e \<in> set win. addressed e \<and> slow_horizontal_key e = k"
  then have key: "\<forall>e \<in> set win. text_of (e_src_ip e) = fst k"
    by (auto simp: slow_horizontal_key_def)
  have "py_strip (fst k) \<noteq> []"
    by (rule primary_visible(1) [OF fields win(3,2) _ key]) (simp add: slow_horizontal_metadata_def)
  then show "\<exists>s. slow_horizontal_emit ctx k win mc = Inr s \<and>
      honours_contract slow_horizontal_metadata (e_event_id ` set es) s"
    unfolding slow_horizontal_emit_def case_prod_beta
    by (intro own_signal_sound win window_metadata_sound window_metadata_variants signal_confidence_unit) simp_all
qed

lemma slow_vertical_sound:
  assumes "rule_input es" and "usable_settings (ctx_settings ctx)"
    and fields: "\<forall>e \<in> set es. event_has_required_fields e (md_required_fields slow_vertical_metadata)"
  shows "\<exists>ss. slow_vertical_evaluate es ctx = Inr ss \<and>
    (\<forall>s \<in> set ss. honours_contract slow_vertical_metadata (e_event_id ` set es) s)"
  unfolding slow_vertical_evaluate_def Let_def
proof (rule scan_groups_sound [OF assms(1)])
  show "0 \<le> LOW_SLOW_VERTICAL_WINDOW_SECONDS (ctx_settings ctx)"
    by (rule usable_window [OF assms(2)]) (simp add: positive_seconds_def)
next
  fix k win mc
  assume win: "rule_input win" "win \<noteq> []" "set win \<subseteq> set es"
    and "\<forall>e \<in> set win. addressed e \<and> slow_vertical_key e = k"
  then have key: "\<forall>e \<in> set win. text_of (e_src_ip e) = fst k"
    by (auto simp: slow_vertical_key_def)
  have "py_strip (fst k) \<noteq> []"
    by (rule primary_visible(1) [OF fields win(3,2) _ key]) (simp add: slow_vertical_metadata_def)
  then show "\<exists>s. slow_vertical_emit ctx k win mc = Inr s \<and>
      honours_contract slow_vertical_metadata (e_event_id ` set es) s"
    unfolding slow_vertical_emit_def case_prod_beta
    by (intro own_signal_sound win window_metadata_sound window_metadata_variants signal_confidence_unit) simp_all
qed

section \<open>The rules as interpretations\<close>

interpretation lateral: sound_rule InternalLateralScanRule usable_settings
  by (rule sound_rule_evaluateI) (simp add: InternalLateralScanRule_def lateral_sound)

interpretation multi_service: sound_rule MultiServiceSweepRule usable_settings
  by (rule sound_rule_evaluateI) (simp add: MultiServiceSweepRule_def multi_service_sound)

interpretation subnet: sound_rule SubnetSweepRule usable_settings
  by (rule sound_rule_evaluateI) (simp add: SubnetSweepRule_def subnet_sound)

interpretation remote: sound_rule RemoteServiceProbeRule usable_settings
  by (rule sound_rule_evaluateI) (simp add: RemoteServiceProbeRule_def remote_sound)

interpretation blocked_scanner: sound_rule RepeatedBlockedScannerRule usable_settings
  by (rule sound_rule_evaluateI) (simp add: RepeatedBlockedScannerRule_def blocked_scanner_sound)

interpretation distributed: sound_rule DistributedScanRule usable_settings
  by (rule sound_rule_evaluateI) (simp add: DistributedScanRule_def distributed_sound)

interpretation slow_horizontal: sound_rule LowAndSlowHorizontalScanRule usable_settings
  by (rule sound_rule_evaluateI) (simp add: LowAndSlowHorizontalScanRule_def slow_horizontal_sound)

interpretation slow_vertical: sound_rule LowAndSlowVerticalScanRule usable_settings
  by (rule sound_rule_evaluateI) (simp add: LowAndSlowVerticalScanRule_def slow_vertical_sound)

definition window_rules :: "BaseDetectionRule list" where
  "window_rules = [InternalLateralScanRule, MultiServiceSweepRule, SubnetSweepRule, RemoteServiceProbeRule, RepeatedBlockedScannerRule, DistributedScanRule, LowAndSlowHorizontalScanRule, LowAndSlowVerticalScanRule]"

lemma window_rules_clean:
  assumes "rule_input events" and "usable_settings (ctx_settings ctx)" and "rule \<in> set window_rules"
  shows "snd (run_rule events ctx rule) = []"
  using assms lateral.run_rule_clean(1) multi_service.run_rule_clean(1) subnet.run_rule_clean(1) remote.run_rule_clean(1) blocked_scanner.run_rule_clean(1) distributed.run_rule_clean(1) slow_horizontal.run_rule_clean(1) slow_vertical.run_rule_clean(1)
  by (auto simp: window_rules_def)

end
