(* ===== verification/ServiceProbes.thy ===== *)
theory ServiceProbes
  imports Detectors Addresses
begin

text \<open>
  The profiled service probe rules (\<open>agent/detection/detectors/extended_service_probe.py\<close>):
  the service profiles, the evaluation loop the eight rules share and the rules themselves, each an
  interpretation of the rule interface.
\<close>

section \<open>Profiles\<close>

record ServiceProbeProfile =
  sp_key :: string
  sp_ports :: "int list"
  sp_emitted_rule_id :: string
  sp_emitted_rule_name :: string
  sp_emitted_signal_type :: string

text \<open>\<open>__post_init__\<close>: what a profile must satisfy not to raise.\<close>

definition valid_profile :: "ServiceProbeProfile \<Rightarrow> bool" where
  "valid_profile p =
     (sp_key p \<noteq> [] \<and> sp_ports p \<noteq> [] \<and> sp_ports p = sort_uniq (sp_ports p) \<and>
      (\<forall>port \<in> set (sp_ports p). 1 \<le> port \<and> port \<le> 65535) \<and>
      sp_emitted_rule_id p \<noteq> [] \<and> sp_emitted_rule_name p \<noteq> [] \<and> sp_emitted_signal_type p \<noteq> [])"

definition profile_variant :: "ServiceProbeProfile \<Rightarrow> DetectionSignalVariant" where
  "profile_variant p = \<lparr>v_rule_id = sp_emitted_rule_id p, v_rule_name = sp_emitted_rule_name p,
     v_signal_type = sp_emitted_signal_type p\<rparr>"

definition signal_variants :: "ServiceProbeProfile list \<Rightarrow> DetectionSignalVariant list" where
  "signal_variants profiles = map profile_variant profiles"

definition SMB_PROFILE :: ServiceProbeProfile where
  "SMB_PROFILE = \<lparr>sp_key = ''smb'', sp_ports = [139, 445],
     sp_emitted_rule_id = ''smb_probe'', sp_emitted_rule_name = ''SMB Probe'',
     sp_emitted_signal_type = ''smb_probe''\<rparr>"

definition VNC_PROFILE :: ServiceProbeProfile where
  "VNC_PROFILE = \<lparr>sp_key = ''vnc'', sp_ports = [5900, 5901, 5902, 5903, 5904, 5905],
     sp_emitted_rule_id = ''vnc_probe'', sp_emitted_rule_name = ''VNC Probe'',
     sp_emitted_signal_type = ''vnc_probe''\<rparr>"

definition WINRM_PROFILE :: ServiceProbeProfile where
  "WINRM_PROFILE = \<lparr>sp_key = ''winrm'', sp_ports = [5985, 5986],
     sp_emitted_rule_id = ''winrm_probe'', sp_emitted_rule_name = ''WinRM Probe'',
     sp_emitted_signal_type = ''winrm_probe''\<rparr>"

definition MSSQL_PROFILE :: ServiceProbeProfile where
  "MSSQL_PROFILE = \<lparr>sp_key = ''mssql'', sp_ports = [1433],
     sp_emitted_rule_id = ''mssql_probe'', sp_emitted_rule_name = ''MSSQL Probe'',
     sp_emitted_signal_type = ''mssql_probe''\<rparr>"

definition ORACLE_PROFILE :: ServiceProbeProfile where
  "ORACLE_PROFILE = \<lparr>sp_key = ''oracle'', sp_ports = [1521],
     sp_emitted_rule_id = ''oracle_probe'', sp_emitted_rule_name = ''Oracle Probe'',
     sp_emitted_signal_type = ''oracle_probe''\<rparr>"

definition MYSQL_PROFILE :: ServiceProbeProfile where
  "MYSQL_PROFILE = \<lparr>sp_key = ''mysql'', sp_ports = [3306],
     sp_emitted_rule_id = ''mysql_probe'', sp_emitted_rule_name = ''MySQL Probe'',
     sp_emitted_signal_type = ''mysql_probe''\<rparr>"

definition POSTGRESQL_PROFILE :: ServiceProbeProfile where
  "POSTGRESQL_PROFILE = \<lparr>sp_key = ''postgresql'', sp_ports = [5432],
     sp_emitted_rule_id = ''postgresql_probe'', sp_emitted_rule_name = ''PostgreSQL Probe'',
     sp_emitted_signal_type = ''postgresql_probe''\<rparr>"

definition REDIS_PROFILE :: ServiceProbeProfile where
  "REDIS_PROFILE = \<lparr>sp_key = ''redis'', sp_ports = [6379],
     sp_emitted_rule_id = ''redis_probe'', sp_emitted_rule_name = ''Redis Probe'',
     sp_emitted_signal_type = ''redis_probe''\<rparr>"

definition ELASTICSEARCH_PROFILE :: ServiceProbeProfile where
  "ELASTICSEARCH_PROFILE = \<lparr>sp_key = ''elasticsearch'', sp_ports = [9200],
     sp_emitted_rule_id = ''elasticsearch_probe'', sp_emitted_rule_name = ''Elasticsearch Probe'',
     sp_emitted_signal_type = ''elasticsearch_probe''\<rparr>"

definition MONGODB_PROFILE :: ServiceProbeProfile where
  "MONGODB_PROFILE = \<lparr>sp_key = ''mongodb'', sp_ports = [27017],
     sp_emitted_rule_id = ''mongodb_probe'', sp_emitted_rule_name = ''MongoDB Probe'',
     sp_emitted_signal_type = ''mongodb_probe''\<rparr>"

definition KUBERNETES_API_PROFILE :: ServiceProbeProfile where
  "KUBERNETES_API_PROFILE = \<lparr>sp_key = ''kubernetes_api'', sp_ports = [6443],
     sp_emitted_rule_id = ''kubernetes_api_probe'', sp_emitted_rule_name = ''Kubernetes API Probe'',
     sp_emitted_signal_type = ''kubernetes_api_probe''\<rparr>"

definition KUBELET_PROFILE :: ServiceProbeProfile where
  "KUBELET_PROFILE = \<lparr>sp_key = ''kubelet'', sp_ports = [10250],
     sp_emitted_rule_id = ''kubelet_probe'', sp_emitted_rule_name = ''Kubelet Probe'',
     sp_emitted_signal_type = ''kubelet_probe''\<rparr>"

definition DOCKER_DAEMON_PROFILE :: ServiceProbeProfile where
  "DOCKER_DAEMON_PROFILE = \<lparr>sp_key = ''docker_daemon'', sp_ports = [2375, 2376],
     sp_emitted_rule_id = ''docker_daemon_probe'', sp_emitted_rule_name = ''Docker Daemon Probe'',
     sp_emitted_signal_type = ''docker_daemon_probe''\<rparr>"

definition WEB_ADMIN_PANEL_PROFILE :: ServiceProbeProfile where
  "WEB_ADMIN_PANEL_PROFILE = \<lparr>sp_key = ''web_admin_panel'', sp_ports = [8000, 8080, 8443, 8888, 9000, 9443, 10000],
     sp_emitted_rule_id = ''web_admin_panel_probe'', sp_emitted_rule_name = ''Web Admin Panel Probe'',
     sp_emitted_signal_type = ''web_admin_panel_probe''\<rparr>"

definition TELNET_PROFILE :: ServiceProbeProfile where
  "TELNET_PROFILE = \<lparr>sp_key = ''telnet'', sp_ports = [23],
     sp_emitted_rule_id = ''telnet_probe'', sp_emitted_rule_name = ''Telnet Probe'',
     sp_emitted_signal_type = ''telnet_probe''\<rparr>"

definition FTP_PROFILE :: ServiceProbeProfile where
  "FTP_PROFILE = \<lparr>sp_key = ''ftp'', sp_ports = [20, 21],
     sp_emitted_rule_id = ''ftp_probe'', sp_emitted_rule_name = ''FTP Probe'',
     sp_emitted_signal_type = ''ftp_probe''\<rparr>"

section \<open>The shared evaluation\<close>

text \<open>Class attributes of a profiled rule.\<close>

record profiled_rule =
  pr_metadata :: DetectionRuleMetadata
  pr_profiles :: "ServiceProbeProfile list"
  pr_use_web_admin_thresholds :: bool

definition minimum_events :: "profiled_rule \<Rightarrow> DetectionSettings \<Rightarrow> nat" where
  "minimum_events r st = (if pr_use_web_admin_thresholds r then WEB_ADMIN_PROBE_MIN_EVENTS st
     else EXTENDED_SERVICE_PROBE_MIN_EVENTS st)"

definition minimum_targets :: "profiled_rule \<Rightarrow> DetectionSettings \<Rightarrow> nat" where
  "minimum_targets r st = (if pr_use_web_admin_thresholds r then WEB_ADMIN_PROBE_MIN_DISTINCT_TARGETS st
     else EXTENDED_SERVICE_PROBE_MIN_DISTINCT_TARGETS st)"

definition minimum_block_ratio :: "profiled_rule \<Rightarrow> DetectionSettings \<Rightarrow> rat" where
  "minimum_block_ratio r st = (if pr_use_web_admin_thresholds r then WEB_ADMIN_PROBE_MIN_BLOCK_RATIO st
     else EXTENDED_SERVICE_PROBE_MIN_BLOCK_RATIO st)"

definition minimum_syn_ratio :: "profiled_rule \<Rightarrow> DetectionSettings \<Rightarrow> rat" where
  "minimum_syn_ratio r st = (if pr_use_web_admin_thresholds r then WEB_ADMIN_PROBE_MIN_SYN_RATIO st
     else EXTENDED_SERVICE_PROBE_MIN_SYN_RATIO st)"

text \<open>\<open>profiles_by_port\<close> and \<open>profiles_by_key\<close>: the last profile wins.\<close>

definition profile_for_port :: "ServiceProbeProfile list \<Rightarrow> int \<Rightarrow> ServiceProbeProfile option" where
  "profile_for_port profiles port = find (\<lambda>p. port \<in> set (sp_ports p)) (rev profiles)"

definition profile_for_key :: "ServiceProbeProfile list \<Rightarrow> string \<Rightarrow> ServiceProbeProfile option" where
  "profile_for_key profiles k = find (\<lambda>p. sp_key p = k) (rev profiles)"

definition event_profile :: "ServiceProbeProfile list \<Rightarrow> canonical_event \<Rightarrow> ServiceProbeProfile option" where
  "event_profile profiles e = Option.bind (e_dst_port e) (profile_for_port profiles)"

definition probe_usable :: "profiled_rule \<Rightarrow> canonical_event \<Rightarrow> bool" where
  "probe_usable r e =
     (parse_ip_address (e_src_ip e) \<noteq> None \<and> parse_ip_address (e_dst_ip e) \<noteq> None \<and>
      normalized_protocol e = ''TCP'' \<and> event_profile (pr_profiles r) e \<noteq> None)"

definition probe_key :: "profiled_rule \<Rightarrow> canonical_event \<Rightarrow> string \<times> string" where
  "probe_key r e = (address_text (e_src_ip e),
     case event_profile (pr_profiles r) e of None \<Rightarrow> [] | Some p \<Rightarrow> sp_key p)"

definition probe_check ::
  "profiled_rule \<Rightarrow> DetectionSettings \<Rightarrow> string \<times> string \<Rightarrow> canonical_event list \<Rightarrow> bool \<times> pydict" where
  "probe_check r st = (\<lambda>(src_ip, profile_key) window.
     (let targets = remdups (target_addresses window); (block_ratio, syn_ratio) = event_ratios window;
          destination_ports = sort_uniq (somes e_dst_port window)
      in if length window < minimum_events r st then (False, [])
         else if length targets < minimum_targets r st then (False, [])
         else if block_ratio < minimum_block_ratio r st \<or> syn_ratio < minimum_syn_ratio r st
         then (False, [])
         else (True, [(''service'', PStr profile_key), (''event_count'', PInt (int (length window))),
            (''distinct_targets'', PInt (int (length targets))),
            (''destination_ports'', PStr (py_join '','' (map str_of_int destination_ports))),
            (''block_ratio'', PFloat block_ratio), (''syn_ratio'', PFloat syn_ratio),
            (''allowed_events'', PInt (int (count_if is_allowed window)))])))"

definition probe_confidence :: "profiled_rule \<Rightarrow> DetectionSettings \<Rightarrow> nat \<Rightarrow> rat" where
  "probe_confidence r st n = calculate_signal_confidence n (minimum_events r st)
     (if pr_use_web_admin_thresholds r then 65/100 else 7/10)
     (if pr_use_web_admin_thresholds r then 9/10 else 95/100)"

definition probe_emit ::
  "profiled_rule \<Rightarrow> DetectionContext \<Rightarrow> string \<times> string \<Rightarrow> canonical_event list \<Rightarrow> pydict
     \<Rightarrow> string + DetectionSignal" where
  "probe_emit r ctx = (\<lambda>(src_ip, profile_key) match_events metrics.
     (case profile_for_key (pr_profiles r) profile_key of
        None \<Rightarrow> Inl ''KeyError''
      | Some profile \<Rightarrow>
          window_signal (pr_metadata r) (profile_variant profile) (sp_emitted_rule_id profile)
            (ctx_analysis_started_at ctx) match_events metrics src_ip (''service_'' @ sp_key profile)
            (''Repeated TCP probing of '' @ sp_key profile @ '' services'')
            (probe_confidence r (ctx_settings ctx) (length match_events))
            (bounded_sorted_values (target_addresses match_events) 20)
            [''network'', ''probe'', sp_key profile]))"

definition probe_evaluate ::
  "profiled_rule \<Rightarrow> canonical_event list \<Rightarrow> DetectionContext \<Rightarrow> string + DetectionSignal list" where
  "probe_evaluate r events ctx =
     (let st = ctx_settings ctx in
      bind_err (scan_arranged (ordered_events (ctx_analysis_started_at ctx)) (probe_key r) (probe_usable r)
          (EXTENDED_SERVICE_PROBE_WINDOW_SECONDS st) (minimum_events r st) (probe_check r st)
          (probe_emit r ctx) events)
        (\<lambda>signals. Inr (sort_signals signals)))"

definition profiled :: "string \<Rightarrow> profiled_rule \<Rightarrow> BaseDetectionRule" where
  "profiled name r = \<lparr>rule_class = name, metadata = pr_metadata r, evaluate = probe_evaluate r\<rparr>"

section \<open>The rules\<close>

definition smb_probe_metadata :: DetectionRuleMetadata where
  "smb_probe_metadata =
     \<lparr>md_rule_id = ''smb_probe'', md_version = ''1.0.0'',
      md_name = ''SMB Probe'', md_family = ''service_probing'',
      md_priority = 52, md_supported_event_types = [],
      md_required_fields = [''src_ip'', ''dst_ip'', ''dst_port'', ''protocol''],
      md_signal_type = ''smb_probe'', md_signal_variants = [],
      md_default_severity = ''high'', md_mitre_techniques = [''T1046''],
      md_window_setting = Some ''EXTENDED_SERVICE_PROBE_WINDOW_SECONDS'',
      md_minimum_events_setting = Some ''EXTENDED_SERVICE_PROBE_MIN_EVENTS''\<rparr>"

definition smb_probe :: profiled_rule where
  "smb_probe = \<lparr>pr_metadata = smb_probe_metadata, pr_profiles = [SMB_PROFILE],
     pr_use_web_admin_thresholds = False\<rparr>"

definition SmbProbeRule :: BaseDetectionRule where
  "SmbProbeRule = profiled ''SmbProbeRule'' smb_probe"

definition vnc_probe_metadata :: DetectionRuleMetadata where
  "vnc_probe_metadata =
     \<lparr>md_rule_id = ''vnc_probe'', md_version = ''1.0.0'',
      md_name = ''VNC Probe'', md_family = ''service_probing'',
      md_priority = 53, md_supported_event_types = [],
      md_required_fields = [''src_ip'', ''dst_ip'', ''dst_port'', ''protocol''],
      md_signal_type = ''vnc_probe'', md_signal_variants = [],
      md_default_severity = ''high'', md_mitre_techniques = [''T1046''],
      md_window_setting = Some ''EXTENDED_SERVICE_PROBE_WINDOW_SECONDS'',
      md_minimum_events_setting = Some ''EXTENDED_SERVICE_PROBE_MIN_EVENTS''\<rparr>"

definition vnc_probe :: profiled_rule where
  "vnc_probe = \<lparr>pr_metadata = vnc_probe_metadata, pr_profiles = [VNC_PROFILE],
     pr_use_web_admin_thresholds = False\<rparr>"

definition VncProbeRule :: BaseDetectionRule where
  "VncProbeRule = profiled ''VncProbeRule'' vnc_probe"

definition winrm_probe_metadata :: DetectionRuleMetadata where
  "winrm_probe_metadata =
     \<lparr>md_rule_id = ''winrm_probe'', md_version = ''1.0.0'',
      md_name = ''WinRM Probe'', md_family = ''service_probing'',
      md_priority = 54, md_supported_event_types = [],
      md_required_fields = [''src_ip'', ''dst_ip'', ''dst_port'', ''protocol''],
      md_signal_type = ''winrm_probe'', md_signal_variants = [],
      md_default_severity = ''high'', md_mitre_techniques = [''T1046''],
      md_window_setting = Some ''EXTENDED_SERVICE_PROBE_WINDOW_SECONDS'',
      md_minimum_events_setting = Some ''EXTENDED_SERVICE_PROBE_MIN_EVENTS''\<rparr>"

definition winrm_probe :: profiled_rule where
  "winrm_probe = \<lparr>pr_metadata = winrm_probe_metadata, pr_profiles = [WINRM_PROFILE],
     pr_use_web_admin_thresholds = False\<rparr>"

definition WinRmProbeRule :: BaseDetectionRule where
  "WinRmProbeRule = profiled ''WinRmProbeRule'' winrm_probe"

definition database_service_probe_metadata :: DetectionRuleMetadata where
  "database_service_probe_metadata =
     \<lparr>md_rule_id = ''database_service_probe'', md_version = ''1.0.0'',
      md_name = ''Database Service Probe'', md_family = ''service_probing'',
      md_priority = 55, md_supported_event_types = [],
      md_required_fields = [''src_ip'', ''dst_ip'', ''dst_port'', ''protocol''],
      md_signal_type = ''database_service_probe'', md_signal_variants = signal_variants [MSSQL_PROFILE, ORACLE_PROFILE, MYSQL_PROFILE, POSTGRESQL_PROFILE, REDIS_PROFILE, ELASTICSEARCH_PROFILE, MONGODB_PROFILE],
      md_default_severity = ''high'', md_mitre_techniques = [''T1046''],
      md_window_setting = Some ''EXTENDED_SERVICE_PROBE_WINDOW_SECONDS'',
      md_minimum_events_setting = Some ''EXTENDED_SERVICE_PROBE_MIN_EVENTS''\<rparr>"

definition database_service_probe :: profiled_rule where
  "database_service_probe = \<lparr>pr_metadata = database_service_probe_metadata, pr_profiles = [MSSQL_PROFILE, ORACLE_PROFILE, MYSQL_PROFILE, POSTGRESQL_PROFILE, REDIS_PROFILE, ELASTICSEARCH_PROFILE, MONGODB_PROFILE],
     pr_use_web_admin_thresholds = False\<rparr>"

definition DatabaseServiceProbeRule :: BaseDetectionRule where
  "DatabaseServiceProbeRule = profiled ''DatabaseServiceProbeRule'' database_service_probe"

definition kubernetes_service_probe_metadata :: DetectionRuleMetadata where
  "kubernetes_service_probe_metadata =
     \<lparr>md_rule_id = ''kubernetes_service_probe'', md_version = ''1.0.0'',
      md_name = ''Kubernetes Service Probe'', md_family = ''service_probing'',
      md_priority = 56, md_supported_event_types = [],
      md_required_fields = [''src_ip'', ''dst_ip'', ''dst_port'', ''protocol''],
      md_signal_type = ''kubernetes_service_probe'', md_signal_variants = signal_variants [KUBERNETES_API_PROFILE, KUBELET_PROFILE],
      md_default_severity = ''high'', md_mitre_techniques = [''T1046''],
      md_window_setting = Some ''EXTENDED_SERVICE_PROBE_WINDOW_SECONDS'',
      md_minimum_events_setting = Some ''EXTENDED_SERVICE_PROBE_MIN_EVENTS''\<rparr>"

definition kubernetes_service_probe :: profiled_rule where
  "kubernetes_service_probe = \<lparr>pr_metadata = kubernetes_service_probe_metadata, pr_profiles = [KUBERNETES_API_PROFILE, KUBELET_PROFILE],
     pr_use_web_admin_thresholds = False\<rparr>"

definition KubernetesServiceProbeRule :: BaseDetectionRule where
  "KubernetesServiceProbeRule = profiled ''KubernetesServiceProbeRule'' kubernetes_service_probe"

definition docker_daemon_probe_metadata :: DetectionRuleMetadata where
  "docker_daemon_probe_metadata =
     \<lparr>md_rule_id = ''docker_daemon_probe'', md_version = ''1.0.0'',
      md_name = ''Docker Daemon Probe'', md_family = ''service_probing'',
      md_priority = 57, md_supported_event_types = [],
      md_required_fields = [''src_ip'', ''dst_ip'', ''dst_port'', ''protocol''],
      md_signal_type = ''docker_daemon_probe'', md_signal_variants = [],
      md_default_severity = ''high'', md_mitre_techniques = [''T1046''],
      md_window_setting = Some ''EXTENDED_SERVICE_PROBE_WINDOW_SECONDS'',
      md_minimum_events_setting = Some ''EXTENDED_SERVICE_PROBE_MIN_EVENTS''\<rparr>"

definition docker_daemon_probe :: profiled_rule where
  "docker_daemon_probe = \<lparr>pr_metadata = docker_daemon_probe_metadata, pr_profiles = [DOCKER_DAEMON_PROFILE],
     pr_use_web_admin_thresholds = False\<rparr>"

definition DockerDaemonProbeRule :: BaseDetectionRule where
  "DockerDaemonProbeRule = profiled ''DockerDaemonProbeRule'' docker_daemon_probe"

definition web_admin_panel_probe_metadata :: DetectionRuleMetadata where
  "web_admin_panel_probe_metadata =
     \<lparr>md_rule_id = ''web_admin_panel_probe'', md_version = ''1.0.0'',
      md_name = ''Web Admin Panel Probe'', md_family = ''service_probing'',
      md_priority = 58, md_supported_event_types = [],
      md_required_fields = [''src_ip'', ''dst_ip'', ''dst_port'', ''protocol''],
      md_signal_type = ''web_admin_panel_probe'', md_signal_variants = [],
      md_default_severity = ''medium'', md_mitre_techniques = [''T1046''],
      md_window_setting = Some ''EXTENDED_SERVICE_PROBE_WINDOW_SECONDS'',
      md_minimum_events_setting = Some ''WEB_ADMIN_PROBE_MIN_EVENTS''\<rparr>"

definition web_admin_panel_probe :: profiled_rule where
  "web_admin_panel_probe = \<lparr>pr_metadata = web_admin_panel_probe_metadata, pr_profiles = [WEB_ADMIN_PANEL_PROFILE],
     pr_use_web_admin_thresholds = True\<rparr>"

definition WebAdminPanelProbeRule :: BaseDetectionRule where
  "WebAdminPanelProbeRule = profiled ''WebAdminPanelProbeRule'' web_admin_panel_probe"

definition legacy_cleartext_service_probe_metadata :: DetectionRuleMetadata where
  "legacy_cleartext_service_probe_metadata =
     \<lparr>md_rule_id = ''legacy_cleartext_service_probe'', md_version = ''1.0.0'',
      md_name = ''Legacy Cleartext Service Probe'', md_family = ''service_probing'',
      md_priority = 59, md_supported_event_types = [],
      md_required_fields = [''src_ip'', ''dst_ip'', ''dst_port'', ''protocol''],
      md_signal_type = ''legacy_cleartext_service_probe'', md_signal_variants = signal_variants [TELNET_PROFILE, FTP_PROFILE],
      md_default_severity = ''medium'', md_mitre_techniques = [''T1046''],
      md_window_setting = Some ''EXTENDED_SERVICE_PROBE_WINDOW_SECONDS'',
      md_minimum_events_setting = Some ''EXTENDED_SERVICE_PROBE_MIN_EVENTS''\<rparr>"

definition legacy_cleartext_service_probe :: profiled_rule where
  "legacy_cleartext_service_probe = \<lparr>pr_metadata = legacy_cleartext_service_probe_metadata, pr_profiles = [TELNET_PROFILE, FTP_PROFILE],
     pr_use_web_admin_thresholds = False\<rparr>"

definition LegacyCleartextServiceProbeRule :: BaseDetectionRule where
  "LegacyCleartextServiceProbeRule = profiled ''LegacyCleartextServiceProbeRule'' legacy_cleartext_service_probe"

section \<open>The rules meet the interface\<close>

text \<open>The profiles are well formed, and no two rules or profiles compete for a port.\<close>

definition service_profiles :: "ServiceProbeProfile list" where
  "service_profiles = [SMB_PROFILE, VNC_PROFILE, WINRM_PROFILE, MSSQL_PROFILE, ORACLE_PROFILE, MYSQL_PROFILE, POSTGRESQL_PROFILE, REDIS_PROFILE, ELASTICSEARCH_PROFILE, MONGODB_PROFILE, KUBERNETES_API_PROFILE, KUBELET_PROFILE, DOCKER_DAEMON_PROFILE, WEB_ADMIN_PANEL_PROFILE, TELNET_PROFILE, FTP_PROFILE]"

lemma service_profiles_valid: "\<forall>p \<in> set service_profiles. valid_profile p"
  by code_simp

lemma service_profiles_disjoint: "distinct (concat (map sp_ports service_profiles))"
  by code_simp

text \<open>What a profiled rule has to declare: an identity for each of its profiles.\<close>

definition sound_profiles :: "profiled_rule \<Rightarrow> bool" where
  "sound_profiles r = (sound_metadata (pr_metadata r) \<and>
     (\<forall>p \<in> set (pr_profiles r). declared_variant (pr_metadata r) (profile_variant p) \<and>
        sp_key p \<notin> {''network'', ''probe''}))"

lemma profile_for_portD: "profile_for_port ps port = Some p \<Longrightarrow> p \<in> set ps \<and> port \<in> set (sp_ports p)"
  by (auto simp: profile_for_port_def find_Some_iff nth_mem)
     (metis length_rev nth_mem set_rev)

lemma find_key:
  assumes "p \<in> set ps"
  obtains q where "profile_for_key ps (sp_key p) = Some q" and "q \<in> set ps"
proof -
  have "profile_for_key ps (sp_key p) \<noteq> None"
    using assms by (auto simp: profile_for_key_def find_None_iff)
  then obtain q where q: "profile_for_key ps (sp_key p) = Some q" by blast
  then have "q \<in> set ps"
    by (auto simp: profile_for_key_def find_Some_iff) (metis length_rev nth_mem set_rev)
  with q show ?thesis by (rule that)
qed

lemma probe_confidence_unit: "0 \<le> probe_confidence r st n \<and> probe_confidence r st n \<le> 1"
  unfolding probe_confidence_def by (intro signal_confidence_unit) auto

lemma probe_sound:
  assumes "rule_input es" and "usable_settings (ctx_settings ctx)" and "sound_profiles r"
  shows "\<exists>ss. probe_evaluate r es ctx = Inr ss \<and>
    (\<forall>s \<in> set ss. honours_contract (pr_metadata r) (e_event_id ` set es) s)"
  unfolding probe_evaluate_def Let_def
proof (rule sort_signals_sound, rule scan_arranged_sound [OF keeps_group_ordered assms(1)])
  show "0 \<le> EXTENDED_SERVICE_PROBE_WINDOW_SECONDS (ctx_settings ctx)"
    by (rule usable_window [OF assms(2)]) (simp add: positive_seconds_def)
next
  fix k win mc
  assume win: "rule_input win" "win \<noteq> []" "set win \<subseteq> set es"
    and use: "\<forall>e \<in> set win. probe_usable r e \<and> probe_key r e = k"
  let ?e = "hd win"
  have usable: "probe_usable r ?e" and key: "k = probe_key r ?e"
    using use hd_in_set [OF win(2)] by auto
  obtain p where p: "event_profile (pr_profiles r) ?e = Some p" using usable by (auto simp: probe_usable_def)
  then have "p \<in> set (pr_profiles r)"
    by (auto simp: event_profile_def bind_eq_Some_conv dest: profile_for_portD)
  then obtain q where q: "profile_for_key (pr_profiles r) (sp_key p) = Some q" "q \<in> set (pr_profiles r)"
    by (rule find_key)
  have k: "k = (address_text (e_src_ip ?e), sp_key p)" by (simp add: key probe_key_def p)
  have visible: "py_strip (address_text (e_src_ip ?e)) \<noteq> []"
    using usable by (intro address_text_visible) (simp add: probe_usable_def)
  show "\<exists>s. probe_emit r ctx k win mc = Inr s \<and>
      honours_contract (pr_metadata r) (e_event_id ` set es) s"
    unfolding probe_emit_def k prod.case q(1) option.case
    by (rule window_signal_sound [OF win])
       (use assms(3) q(2) visible in \<open>auto simp: sound_profiles_def probe_confidence_unit\<close>)
qed

lemma probe_rules_sound_profiles:
  "sound_profiles smb_probe"
  "sound_profiles vnc_probe"
  "sound_profiles winrm_probe"
  "sound_profiles database_service_probe"
  "sound_profiles kubernetes_service_probe"
  "sound_profiles docker_daemon_probe"
  "sound_profiles web_admin_panel_probe"
  "sound_profiles legacy_cleartext_service_probe"
  by code_simp+

lemma profiled_sound_rule: "sound_profiles r \<Longrightarrow> sound_rule (profiled name r) usable_settings"
  by (rule sound_rule_evaluateI) (simp add: profiled_def probe_sound)

interpretation smb_probe: sound_rule SmbProbeRule usable_settings
  unfolding SmbProbeRule_def by (rule profiled_sound_rule) (rule probe_rules_sound_profiles)

interpretation vnc_probe: sound_rule VncProbeRule usable_settings
  unfolding VncProbeRule_def by (rule profiled_sound_rule) (rule probe_rules_sound_profiles)

interpretation winrm_probe: sound_rule WinRmProbeRule usable_settings
  unfolding WinRmProbeRule_def by (rule profiled_sound_rule) (rule probe_rules_sound_profiles)

interpretation database_service_probe: sound_rule DatabaseServiceProbeRule usable_settings
  unfolding DatabaseServiceProbeRule_def by (rule profiled_sound_rule) (rule probe_rules_sound_profiles)

interpretation kubernetes_service_probe: sound_rule KubernetesServiceProbeRule usable_settings
  unfolding KubernetesServiceProbeRule_def by (rule profiled_sound_rule) (rule probe_rules_sound_profiles)

interpretation docker_daemon_probe: sound_rule DockerDaemonProbeRule usable_settings
  unfolding DockerDaemonProbeRule_def by (rule profiled_sound_rule) (rule probe_rules_sound_profiles)

interpretation web_admin_panel_probe: sound_rule WebAdminPanelProbeRule usable_settings
  unfolding WebAdminPanelProbeRule_def by (rule profiled_sound_rule) (rule probe_rules_sound_profiles)

interpretation legacy_cleartext_service_probe: sound_rule LegacyCleartextServiceProbeRule usable_settings
  unfolding LegacyCleartextServiceProbeRule_def by (rule profiled_sound_rule) (rule probe_rules_sound_profiles)

definition probe_rules :: "BaseDetectionRule list" where
  "probe_rules = [SmbProbeRule, VncProbeRule, WinRmProbeRule, DatabaseServiceProbeRule, KubernetesServiceProbeRule, DockerDaemonProbeRule, WebAdminPanelProbeRule, LegacyCleartextServiceProbeRule]"

lemma probe_rules_clean:
  assumes "rule_input events" and "usable_settings (ctx_settings ctx)" and "rule \<in> set probe_rules"
  shows "snd (run_rule events ctx rule) = []"
  using assms smb_probe.run_rule_clean(1) vnc_probe.run_rule_clean(1) winrm_probe.run_rule_clean(1) database_service_probe.run_rule_clean(1) kubernetes_service_probe.run_rule_clean(1) docker_daemon_probe.run_rule_clean(1) web_admin_panel_probe.run_rule_clean(1) legacy_cleartext_service_probe.run_rule_clean(1)
  by (auto simp: probe_rules_def)

end
