(* ===== verification/TcpFlagRules.thy ===== *)
theory TcpFlagRules
  imports Detectors Addresses
begin

text \<open>
  The TCP flag pattern rules (\<open>agent/detection/detectors/tcp_spi_anomaly.py\<close>): the
  evaluation that \<open>_TcpFlagPatternRule\<close> gives its subclasses, the seven subclasses as
  values of a record of their class attributes, and that each is a sound rule. The sequence rule
  of the same module is in theory \<open>SequenceRules\<close>.
\<close>

section \<open>The shared evaluation\<close>

record tcp_flag_rule =
  tf_metadata :: DetectionRuleMetadata
  tf_window_seconds :: "DetectionSettings \<Rightarrow> int"
  tf_minimum_events :: "DetectionSettings \<Rightarrow> nat"
  tf_minimum_targets :: "DetectionSettings \<Rightarrow> nat"
  tf_minimum_ports :: "DetectionSettings \<Rightarrow> nat"
  tf_minimum_block_ratio :: "DetectionSettings \<Rightarrow> rat"
  tf_pattern :: string
  tf_matches_flags :: "canonical_event \<Rightarrow> bool"
  tf_additional_metrics :: "canonical_event list \<Rightarrow> DetectionSettings \<Rightarrow> pydict"

definition flag_usable :: "tcp_flag_rule \<Rightarrow> canonical_event \<Rightarrow> bool" where
  "flag_usable r e =
     (parse_ip_address (e_src_ip e) \<noteq> None \<and> parse_ip_address (e_dst_ip e) \<noteq> None \<and>
      normalized_protocol e = ''TCP'' \<and> tf_matches_flags r e)"

definition flag_check ::
  "tcp_flag_rule \<Rightarrow> DetectionSettings \<Rightarrow> string \<Rightarrow> canonical_event list \<Rightarrow> bool \<times> pydict" where
  "flag_check r st source_ip window =
     (let targets = remdups (target_addresses window);
          ports = remdups (somes e_dst_port window);
          block_ratio = ratio is_blocked window
      in if length window < tf_minimum_events r st then (False, [])
         else if \<not> (tf_minimum_targets r st \<le> length targets \<or> tf_minimum_ports r st \<le> length ports)
         then (False, [])
         else if block_ratio < tf_minimum_block_ratio r st then (False, [])
         else (True, [(''event_count'', PInt (int (length window))),
            (''distinct_targets'', PInt (int (length targets))),
            (''distinct_ports'', PInt (int (length ports))),
            (''block_ratio'', PFloat block_ratio),
            (''tcp_flag_pattern'', PStr (tf_pattern r))] @ tf_additional_metrics r window st))"

definition flag_confidence :: "tcp_flag_rule \<Rightarrow> DetectionSettings \<Rightarrow> nat \<Rightarrow> rat" where
  "flag_confidence r st n =
     (let high = (md_default_severity (tf_metadata r) = ''high'')
      in calculate_signal_confidence n (tf_minimum_events r st)
           (if high then 75/100 else 65/100) (if high then 95/100 else 9/10))"

definition flag_emit ::
  "tcp_flag_rule \<Rightarrow> DetectionContext \<Rightarrow> string \<Rightarrow> canonical_event list \<Rightarrow> pydict
     \<Rightarrow> string + DetectionSignal" where
  "flag_emit r ctx source_ip match_events metrics =
     own_signal (tf_metadata r) ctx match_events metrics source_ip (tf_pattern r)
       (''Repeated TCP flag pattern '' @ tf_pattern r)
       (flag_confidence r (ctx_settings ctx) (length match_events))
       (bounded_sorted_values (target_addresses match_events) 20)
       [''network'', ''tcp'', ''anomaly'']"

definition flag_evaluate ::
  "tcp_flag_rule \<Rightarrow> canonical_event list \<Rightarrow> DetectionContext \<Rightarrow> string + DetectionSignal list" where
  "flag_evaluate r events ctx =
     (let st = ctx_settings ctx in
      bind_err (scan_arranged (ordered_events (ctx_analysis_started_at ctx))
          (\<lambda>e. address_text (e_src_ip e)) (flag_usable r)
          (tf_window_seconds r st) (tf_minimum_events r st) (flag_check r st)
          (flag_emit r ctx) events)
        (\<lambda>signals. Inr (sort_signals signals)))"

definition flag_pattern :: "string \<Rightarrow> tcp_flag_rule \<Rightarrow> BaseDetectionRule" where
  "flag_pattern name r = \<lparr>rule_class = name, metadata = tf_metadata r, evaluate = flag_evaluate r\<rparr>"

section \<open>The rules\<close>

definition spi_events :: "canonical_event list \<Rightarrow> DetectionSettings \<Rightarrow> nat" where
  "spi_events events st =
     count_if (\<lambda>e. is_spi_anomaly_event e (SPI_ANOMALY_FALLBACK_RAW_MATCH st)) events"

definition syn_fin_metrics :: "canonical_event list \<Rightarrow> DetectionSettings \<Rightarrow> pydict" where
  "syn_fin_metrics events st = [(''spi_event_count'', PInt (int (spi_events events st)))]"

definition syn_rst_metrics :: "canonical_event list \<Rightarrow> DetectionSettings \<Rightarrow> pydict" where
  "syn_rst_metrics events st = [(''spi_event_count'', PInt (int (spi_events events st))),
     (''spi_ratio'', PFloat (of_nat (spi_events events st) / of_nat (length events)))]"

definition reset_only :: "canonical_event \<Rightarrow> bool" where
  "reset_only e = (event_tcp_flag_tokens e = {''RST''})"

definition ack_reset :: "canonical_event \<Rightarrow> bool" where
  "ack_reset e = (\<not> reset_only e \<and> ''ACK'' \<in> event_tcp_flag_tokens e)"

definition other_reset :: "canonical_event \<Rightarrow> bool" where
  "other_reset e = (\<not> reset_only e \<and> ''ACK'' \<notin> event_tcp_flag_tokens e)"

definition reset_metrics :: "canonical_event list \<Rightarrow> DetectionSettings \<Rightarrow> pydict" where
  "reset_metrics events st = [(''reset_only_events'', PInt (int (count_if reset_only events))),
     (''ack_reset_events'', PInt (int (count_if ack_reset events))),
     (''other_reset_events'', PInt (int (count_if other_reset events)))]"

definition tcp_null_metadata :: DetectionRuleMetadata where
  "tcp_null_metadata =
     \<lparr>md_rule_id = ''tcp_null_scan'', md_version = ''1.0.0'',
      md_name = ''TCP NULL Scan'', md_family = ''network_scanning'',
      md_priority = 83, md_supported_event_types = [],
      md_required_fields = [''src_ip'', ''dst_ip'', ''protocol''],
      md_signal_type = ''tcp_null_scan'', md_signal_variants = [],
      md_default_severity = ''medium'', md_mitre_techniques = [''T1046''],
      md_window_setting = Some ''TCP_FLAG_SCAN_WINDOW_SECONDS'',
      md_minimum_events_setting = Some ''TCP_FLAG_SCAN_MIN_EVENTS''\<rparr>"

definition tcp_null :: tcp_flag_rule where
  "tcp_null = \<lparr>tf_metadata = tcp_null_metadata,
     tf_window_seconds = TCP_FLAG_SCAN_WINDOW_SECONDS,
     tf_minimum_events = TCP_FLAG_SCAN_MIN_EVENTS,
     tf_minimum_targets = TCP_FLAG_SCAN_MIN_DISTINCT_TARGETS,
     tf_minimum_ports = TCP_FLAG_SCAN_MIN_DISTINCT_PORTS,
     tf_minimum_block_ratio = TCP_FLAG_SCAN_MIN_BLOCK_RATIO,
     tf_pattern = ''NONE'',
     tf_matches_flags = is_explicit_tcp_null,
     tf_additional_metrics = (\<lambda>events st. [])\<rparr>"

definition TcpNullScanRule :: BaseDetectionRule where
  "TcpNullScanRule = flag_pattern ''TcpNullScanRule'' tcp_null"

definition tcp_xmas_metadata :: DetectionRuleMetadata where
  "tcp_xmas_metadata =
     \<lparr>md_rule_id = ''tcp_xmas_scan'', md_version = ''1.0.0'',
      md_name = ''TCP XMAS Scan'', md_family = ''network_scanning'',
      md_priority = 84, md_supported_event_types = [],
      md_required_fields = [''src_ip'', ''dst_ip'', ''protocol''],
      md_signal_type = ''tcp_xmas_scan'', md_signal_variants = [],
      md_default_severity = ''medium'', md_mitre_techniques = [''T1046''],
      md_window_setting = Some ''TCP_FLAG_SCAN_WINDOW_SECONDS'',
      md_minimum_events_setting = Some ''TCP_FLAG_SCAN_MIN_EVENTS''\<rparr>"

definition tcp_xmas :: tcp_flag_rule where
  "tcp_xmas = \<lparr>tf_metadata = tcp_xmas_metadata,
     tf_window_seconds = TCP_FLAG_SCAN_WINDOW_SECONDS,
     tf_minimum_events = TCP_FLAG_SCAN_MIN_EVENTS,
     tf_minimum_targets = TCP_FLAG_SCAN_MIN_DISTINCT_TARGETS,
     tf_minimum_ports = TCP_FLAG_SCAN_MIN_DISTINCT_PORTS,
     tf_minimum_block_ratio = TCP_FLAG_SCAN_MIN_BLOCK_RATIO,
     tf_pattern = ''FIN,PSH,URG'',
     tf_matches_flags = (\<lambda>e. has_exact_tcp_flags e {''FIN'', ''PSH'', ''URG''}),
     tf_additional_metrics = (\<lambda>events st. [])\<rparr>"

definition TcpXmasScanRule :: BaseDetectionRule where
  "TcpXmasScanRule = flag_pattern ''TcpXmasScanRule'' tcp_xmas"

definition tcp_fin_metadata :: DetectionRuleMetadata where
  "tcp_fin_metadata =
     \<lparr>md_rule_id = ''tcp_fin_scan'', md_version = ''1.0.0'',
      md_name = ''TCP FIN Scan'', md_family = ''network_scanning'',
      md_priority = 85, md_supported_event_types = [],
      md_required_fields = [''src_ip'', ''dst_ip'', ''protocol''],
      md_signal_type = ''tcp_fin_scan'', md_signal_variants = [],
      md_default_severity = ''medium'', md_mitre_techniques = [''T1046''],
      md_window_setting = Some ''TCP_FLAG_SCAN_WINDOW_SECONDS'',
      md_minimum_events_setting = Some ''TCP_FLAG_SCAN_MIN_EVENTS''\<rparr>"

definition tcp_fin :: tcp_flag_rule where
  "tcp_fin = \<lparr>tf_metadata = tcp_fin_metadata,
     tf_window_seconds = TCP_FLAG_SCAN_WINDOW_SECONDS,
     tf_minimum_events = TCP_FLAG_SCAN_MIN_EVENTS,
     tf_minimum_targets = TCP_FLAG_SCAN_MIN_DISTINCT_TARGETS,
     tf_minimum_ports = TCP_FLAG_SCAN_MIN_DISTINCT_PORTS,
     tf_minimum_block_ratio = TCP_FLAG_SCAN_MIN_BLOCK_RATIO,
     tf_pattern = ''FIN'',
     tf_matches_flags = (\<lambda>e. has_exact_tcp_flags e {''FIN''}),
     tf_additional_metrics = (\<lambda>events st. [])\<rparr>"

definition TcpFinScanRule :: BaseDetectionRule where
  "TcpFinScanRule = flag_pattern ''TcpFinScanRule'' tcp_fin"

definition tcp_ack_metadata :: DetectionRuleMetadata where
  "tcp_ack_metadata =
     \<lparr>md_rule_id = ''tcp_ack_scan'', md_version = ''1.0.0'',
      md_name = ''TCP ACK Scan'', md_family = ''network_scanning'',
      md_priority = 86, md_supported_event_types = [],
      md_required_fields = [''src_ip'', ''dst_ip'', ''protocol''],
      md_signal_type = ''tcp_ack_scan'', md_signal_variants = [],
      md_default_severity = ''medium'', md_mitre_techniques = [''T1046''],
      md_window_setting = Some ''TCP_FLAG_SCAN_WINDOW_SECONDS'',
      md_minimum_events_setting = Some ''TCP_ACK_SCAN_MIN_EVENTS''\<rparr>"

definition tcp_ack :: tcp_flag_rule where
  "tcp_ack = \<lparr>tf_metadata = tcp_ack_metadata,
     tf_window_seconds = TCP_FLAG_SCAN_WINDOW_SECONDS,
     tf_minimum_events = TCP_ACK_SCAN_MIN_EVENTS,
     tf_minimum_targets = TCP_FLAG_SCAN_MIN_DISTINCT_TARGETS,
     tf_minimum_ports = TCP_FLAG_SCAN_MIN_DISTINCT_PORTS,
     tf_minimum_block_ratio = TCP_ACK_SCAN_MIN_BLOCK_RATIO,
     tf_pattern = ''ACK'',
     tf_matches_flags = (\<lambda>e. has_exact_tcp_flags e {''ACK''}),
     tf_additional_metrics = (\<lambda>events st. [])\<rparr>"

definition TcpAckScanRule :: BaseDetectionRule where
  "TcpAckScanRule = flag_pattern ''TcpAckScanRule'' tcp_ack"

definition tcp_syn_fin_metadata :: DetectionRuleMetadata where
  "tcp_syn_fin_metadata =
     \<lparr>md_rule_id = ''tcp_syn_fin_anomaly'', md_version = ''1.0.0'',
      md_name = ''TCP SYN+FIN Anomaly'', md_family = ''network_anomaly'',
      md_priority = 81, md_supported_event_types = [],
      md_required_fields = [''src_ip'', ''dst_ip'', ''protocol''],
      md_signal_type = ''tcp_syn_fin_anomaly'', md_signal_variants = [],
      md_default_severity = ''high'', md_mitre_techniques = [''T1046''],
      md_window_setting = Some ''TCP_FLAG_SCAN_WINDOW_SECONDS'',
      md_minimum_events_setting = Some ''TCP_INVALID_COMBINATION_MIN_EVENTS''\<rparr>"

definition tcp_syn_fin :: tcp_flag_rule where
  "tcp_syn_fin = \<lparr>tf_metadata = tcp_syn_fin_metadata,
     tf_window_seconds = TCP_FLAG_SCAN_WINDOW_SECONDS,
     tf_minimum_events = TCP_INVALID_COMBINATION_MIN_EVENTS,
     tf_minimum_targets = TCP_FLAG_SCAN_MIN_DISTINCT_TARGETS,
     tf_minimum_ports = TCP_FLAG_SCAN_MIN_DISTINCT_PORTS,
     tf_minimum_block_ratio = TCP_INVALID_COMBINATION_MIN_BLOCK_RATIO,
     tf_pattern = ''FIN,SYN'',
     tf_matches_flags = (\<lambda>e. has_tcp_flags e {''SYN'', ''FIN''}),
     tf_additional_metrics = syn_fin_metrics\<rparr>"

definition TcpSynFinAnomalyRule :: BaseDetectionRule where
  "TcpSynFinAnomalyRule = flag_pattern ''TcpSynFinAnomalyRule'' tcp_syn_fin"

definition tcp_syn_rst_metadata :: DetectionRuleMetadata where
  "tcp_syn_rst_metadata =
     \<lparr>md_rule_id = ''tcp_syn_rst_anomaly'', md_version = ''1.0.0'',
      md_name = ''TCP SYN+RST Anomaly'', md_family = ''network_anomaly'',
      md_priority = 82, md_supported_event_types = [],
      md_required_fields = [''src_ip'', ''dst_ip'', ''protocol''],
      md_signal_type = ''tcp_syn_rst_anomaly'', md_signal_variants = [],
      md_default_severity = ''medium'', md_mitre_techniques = [''T1046''],
      md_window_setting = Some ''TCP_FLAG_SCAN_WINDOW_SECONDS'',
      md_minimum_events_setting = Some ''TCP_INVALID_COMBINATION_MIN_EVENTS''\<rparr>"

definition tcp_syn_rst :: tcp_flag_rule where
  "tcp_syn_rst = \<lparr>tf_metadata = tcp_syn_rst_metadata,
     tf_window_seconds = TCP_FLAG_SCAN_WINDOW_SECONDS,
     tf_minimum_events = TCP_INVALID_COMBINATION_MIN_EVENTS,
     tf_minimum_targets = TCP_FLAG_SCAN_MIN_DISTINCT_TARGETS,
     tf_minimum_ports = TCP_FLAG_SCAN_MIN_DISTINCT_PORTS,
     tf_minimum_block_ratio = TCP_INVALID_COMBINATION_MIN_BLOCK_RATIO,
     tf_pattern = ''SYN,RST'',
     tf_matches_flags = (\<lambda>e. has_tcp_flags e {''SYN'', ''RST''}),
     tf_additional_metrics = syn_rst_metrics\<rparr>"

definition TcpSynRstAnomalyRule :: BaseDetectionRule where
  "TcpSynRstAnomalyRule = flag_pattern ''TcpSynRstAnomalyRule'' tcp_syn_rst"

definition tcp_reset_metadata :: DetectionRuleMetadata where
  "tcp_reset_metadata =
     \<lparr>md_rule_id = ''repeated_tcp_reset_anomaly'', md_version = ''1.0.0'',
      md_name = ''Repeated TCP Reset Anomaly'', md_family = ''network_anomaly'',
      md_priority = 87, md_supported_event_types = [],
      md_required_fields = [''src_ip'', ''dst_ip'', ''protocol''],
      md_signal_type = ''repeated_tcp_reset_anomaly'', md_signal_variants = [],
      md_default_severity = ''medium'', md_mitre_techniques = [''T1046''],
      md_window_setting = Some ''TCP_RESET_ANOMALY_WINDOW_SECONDS'',
      md_minimum_events_setting = Some ''TCP_RESET_ANOMALY_MIN_EVENTS''\<rparr>"

definition tcp_reset :: tcp_flag_rule where
  "tcp_reset = \<lparr>tf_metadata = tcp_reset_metadata,
     tf_window_seconds = TCP_RESET_ANOMALY_WINDOW_SECONDS,
     tf_minimum_events = TCP_RESET_ANOMALY_MIN_EVENTS,
     tf_minimum_targets = TCP_RESET_ANOMALY_MIN_DISTINCT_TARGETS,
     tf_minimum_ports = TCP_RESET_ANOMALY_MIN_DISTINCT_PORTS,
     tf_minimum_block_ratio = TCP_RESET_ANOMALY_MIN_BLOCK_RATIO,
     tf_pattern = ''RST_WITHOUT_SYN'',
     tf_matches_flags = (\<lambda>e. ''RST'' \<in> event_tcp_flag_tokens e \<and> ''SYN'' \<notin> event_tcp_flag_tokens e),
     tf_additional_metrics = reset_metrics\<rparr>"

definition RepeatedTcpResetAnomalyRule :: BaseDetectionRule where
  "RepeatedTcpResetAnomalyRule = flag_pattern ''RepeatedTcpResetAnomalyRule'' tcp_reset"

section \<open>The rules are sound\<close>

text \<open>What a subclass has to declare for the shared evaluation to honour the contract.\<close>

definition sound_flag_rule :: "tcp_flag_rule \<Rightarrow> bool" where
  "sound_flag_rule r = (sound_metadata (tf_metadata r) \<and> md_signal_variants (tf_metadata r) = [])"

definition flag_windows_positive :: "tcp_flag_rule \<Rightarrow> bool" where
  "flag_windows_positive r = (\<forall>st. usable_settings st \<longrightarrow> 0 \<le> tf_window_seconds r st)"

lemma flag_confidence_unit: "0 \<le> flag_confidence r st n \<and> flag_confidence r st n \<le> 1"
  unfolding flag_confidence_def Let_def by (intro signal_confidence_unit) auto

lemma flag_sound:
  assumes "rule_input es" and "usable_settings (ctx_settings ctx)" and "sound_flag_rule r"
    and "flag_windows_positive r"
  shows "\<exists>ss. flag_evaluate r es ctx = Inr ss \<and>
    (\<forall>s \<in> set ss. honours_contract (tf_metadata r) (e_event_id ` set es) s)"
  unfolding flag_evaluate_def Let_def
proof (rule sort_signals_sound, rule scan_arranged_sound [OF keeps_group_ordered assms(1)])
  show "0 \<le> tf_window_seconds r (ctx_settings ctx)"
    using assms(2,4) by (simp add: flag_windows_positive_def)
next
  fix k win mc
  assume win: "rule_input win" "win \<noteq> []" "set win \<subseteq> set es"
    and use: "\<forall>e \<in> set win. flag_usable r e \<and> address_text (e_src_ip e) = k"
  have "flag_usable r (hd win)" and key: "k = address_text (e_src_ip (hd win))"
    using use hd_in_set [OF win(2)] by auto
  then have visible: "py_strip k \<noteq> []" by (simp add: flag_usable_def address_text_visible)
  show "\<exists>s. flag_emit r ctx k win mc = Inr s \<and>
      honours_contract (tf_metadata r) (e_event_id ` set es) s"
    unfolding flag_emit_def
    by (rule own_signal_sound [OF win _ _ flag_confidence_unit visible])
       (use assms(3) in \<open>simp_all add: sound_flag_rule_def\<close>)
qed

lemma flag_pattern_sound_rule:
  "sound_flag_rule r \<Longrightarrow> flag_windows_positive r \<Longrightarrow> sound_rule (flag_pattern name r) usable_settings"
  by (rule sound_rule_evaluateI) (simp add: flag_pattern_def flag_sound)

lemmas tcp_flag_rule_defs =
  tcp_null_def tcp_xmas_def tcp_fin_def tcp_ack_def tcp_syn_fin_def tcp_syn_rst_def tcp_reset_def

lemma tcp_flag_rules_sound:
  "sound_flag_rule tcp_null"
  "sound_flag_rule tcp_xmas"
  "sound_flag_rule tcp_fin"
  "sound_flag_rule tcp_ack"
  "sound_flag_rule tcp_syn_fin"
  "sound_flag_rule tcp_syn_rst"
  "sound_flag_rule tcp_reset"
  by code_simp+

lemma tcp_flag_windows_positive:
  "flag_windows_positive tcp_null"
  "flag_windows_positive tcp_xmas"
  "flag_windows_positive tcp_fin"
  "flag_windows_positive tcp_ack"
  "flag_windows_positive tcp_syn_fin"
  "flag_windows_positive tcp_syn_rst"
  "flag_windows_positive tcp_reset"
  by (auto simp: flag_windows_positive_def tcp_flag_rule_defs positive_seconds_def intro!: usable_window)

interpretation tcp_null: sound_rule TcpNullScanRule usable_settings
  unfolding TcpNullScanRule_def by (rule flag_pattern_sound_rule) (rule tcp_flag_rules_sound tcp_flag_windows_positive)+

interpretation tcp_xmas: sound_rule TcpXmasScanRule usable_settings
  unfolding TcpXmasScanRule_def by (rule flag_pattern_sound_rule) (rule tcp_flag_rules_sound tcp_flag_windows_positive)+

interpretation tcp_fin: sound_rule TcpFinScanRule usable_settings
  unfolding TcpFinScanRule_def by (rule flag_pattern_sound_rule) (rule tcp_flag_rules_sound tcp_flag_windows_positive)+

interpretation tcp_ack: sound_rule TcpAckScanRule usable_settings
  unfolding TcpAckScanRule_def by (rule flag_pattern_sound_rule) (rule tcp_flag_rules_sound tcp_flag_windows_positive)+

interpretation tcp_syn_fin: sound_rule TcpSynFinAnomalyRule usable_settings
  unfolding TcpSynFinAnomalyRule_def by (rule flag_pattern_sound_rule) (rule tcp_flag_rules_sound tcp_flag_windows_positive)+

interpretation tcp_syn_rst: sound_rule TcpSynRstAnomalyRule usable_settings
  unfolding TcpSynRstAnomalyRule_def by (rule flag_pattern_sound_rule) (rule tcp_flag_rules_sound tcp_flag_windows_positive)+

interpretation tcp_reset: sound_rule RepeatedTcpResetAnomalyRule usable_settings
  unfolding RepeatedTcpResetAnomalyRule_def by (rule flag_pattern_sound_rule) (rule tcp_flag_rules_sound tcp_flag_windows_positive)+

definition tcp_flag_rules :: "BaseDetectionRule list" where
  "tcp_flag_rules = [TcpNullScanRule, TcpXmasScanRule, TcpFinScanRule, TcpAckScanRule, TcpSynFinAnomalyRule, TcpSynRstAnomalyRule, RepeatedTcpResetAnomalyRule]"

lemma tcp_flag_rules_clean:
  assumes "rule_input events" and "usable_settings (ctx_settings ctx)" and "rule \<in> set tcp_flag_rules"
  shows "snd (run_rule events ctx rule) = []"
  using assms tcp_null.run_rule_clean(1) tcp_xmas.run_rule_clean(1) tcp_fin.run_rule_clean(1) tcp_ack.run_rule_clean(1) tcp_syn_fin.run_rule_clean(1) tcp_syn_rst.run_rule_clean(1) tcp_reset.run_rule_clean(1)
  by (auto simp: tcp_flag_rules_def)

text \<open>The three counters of the reset rule split the events of the window.\<close>

lemma reset_counts_partition:
  "count_if reset_only events + count_if ack_reset events + count_if other_reset events = length events"
  by (induction events) (auto simp: count_if_def ack_reset_def other_reset_def)

end
