(* ===== verification/SequenceRules.thy ===== *)
theory SequenceRules
  imports WindowRules TcpFlagRules
begin

text \<open>
  Rules that report an allowed connection after related hostile traffic of the same source:
  \<open>ScanFollowedByAllowedConnectionRule\<close> (\<open>agent/detection/detectors/scan_sequence.py\<close>)
  and \<open>SpiFollowedByAllowedConnectionRule\<close> (\<open>tcp_spi_anomaly.py\<close>). The loop over
  allowed events is shared; it reports exactly the allowed events that the rule's condition accepts
  together with the earlier events within the window.
\<close>

section \<open>The shared loop\<close>

text \<open>\<open>for i, allowed in enumerate(ordered)\<close> with \<open>ordered[:i]\<close>.\<close>

definition sequence_points :: "'a list \<Rightarrow> ('a list \<times> 'a) list" where
  "sequence_points xs = map (\<lambda>i. (take i xs, xs ! i)) [0..<length xs]"

text \<open>\<open>0 <= (allowed.timestamp - event.timestamp).total_seconds() <= window\<close>.\<close>

definition precedes_within :: "int \<Rightarrow> canonical_event \<Rightarrow> canonical_event \<Rightarrow> bool" where
  "precedes_within window_seconds allowed event =
     (case (event_time allowed, event_time event) of
        (Some t, Some t0) \<Rightarrow> 0 \<le> elapsed t t0 \<and> elapsed t t0 \<le> seconds window_seconds
      | _ \<Rightarrow> False)"

definition timed_allowed :: "canonical_event \<Rightarrow> bool" where
  "timed_allowed e = (is_allowed e \<and> e_timestamp e \<noteq> None)"

definition scan_sequences ::
  "datetime \<Rightarrow> (canonical_event \<Rightarrow> string) \<Rightarrow> (canonical_event \<Rightarrow> bool)
   \<Rightarrow> (canonical_event \<Rightarrow> canonical_event \<Rightarrow> bool)
   \<Rightarrow> (canonical_event list \<Rightarrow> canonical_event \<Rightarrow> bool)
   \<Rightarrow> (string \<Rightarrow> canonical_event list \<Rightarrow> canonical_event \<Rightarrow> string + DetectionSignal)
   \<Rightarrow> canonical_event list \<Rightarrow> string + DetectionSignal list" where
  "scan_sequences fallback key usable earlier accepts emit events =
     concat_err (\<lambda>(k, grouped).
         concat_err (\<lambda>(before, allowed).
             let prior = filter (earlier allowed) before
             in if timed_allowed allowed \<and> accepts prior allowed
                then map_err (emit k prior) [allowed] else Inr [])
           (sequence_points (ordered_events fallback grouped)))
       (group_by key (filter usable events))"

text \<open>\<open>any(...)\<close>: an earlier event to the same destination and the same port or service.\<close>

definition related_event :: "canonical_event \<Rightarrow> canonical_event \<Rightarrow> bool" where
  "related_event allowed event =
     (e_dst_ip event = e_dst_ip allowed \<and>
      (e_dst_port event = e_dst_port allowed \<or>
       (classify_service (e_dst_port allowed) \<noteq> None \<and>
        classify_service (e_dst_port event) = classify_service (e_dst_port allowed))))"

definition prior_targets :: "canonical_event list \<Rightarrow> string list" where
  "prior_targets events = remdups (somes e_dst_ip events)"

definition destination_or_unknown :: "canonical_event \<Rightarrow> string" where
  "destination_or_unknown e = (case truthy_value (e_dst_ip e) of None \<Rightarrow> ''unknown'' | Some ip \<Rightarrow> ip)"

definition time_to_allowed :: "datetime \<Rightarrow> canonical_event list \<Rightarrow> canonical_event \<Rightarrow> rat" where
  "time_to_allowed fallback prior allowed =
     max 0 (of_int (elapsed (time_or fallback allowed) (time_or fallback (hd prior))) / 1000000)"

definition allowed_key :: "canonical_event \<Rightarrow> string" where
  "allowed_key e = ''allowed_'' @ (case e_dst_ip e of None \<Rightarrow> ''None'' | Some ip \<Rightarrow> ip) @ ''_'' @
     (case e_dst_port e of None \<Rightarrow> ''None'' | Some p \<Rightarrow> str_of_int p)"

text \<open>The tail of the loop: two items of evidence for the earlier events and one for the allowed
  event. \<open>evidence_metrics\<close> are the metrics the evidence quotes.\<close>

definition sequence_signal ::
  "DetectionRuleMetadata \<Rightarrow> datetime \<Rightarrow> canonical_event list \<Rightarrow> canonical_event \<Rightarrow> pydict \<Rightarrow> pydict
   \<Rightarrow> string \<Rightarrow> string \<Rightarrow> string \<Rightarrow> string \<Rightarrow> rat \<Rightarrow> string list \<Rightarrow> string list \<Rightarrow> string + DetectionSignal" where
  "sequence_signal md fallback prior allowed evidence_metrics metrics primary correlation_key
     prior_reason allowed_reason confidence targets tags =
     (if prior = [] then Inl ''IndexError''
      else bind_err (select_representative_evidence prior 2 prior_reason (md_rule_id md) evidence_metrics)
        (\<lambda>evidence. bind_err (create_evidence_from_event allowed allowed_reason (md_rule_id md) evidence_metrics)
          (\<lambda>last_item. assemble_signal md (own_identity md (md_signal_type md)) (md_rule_id md)
             (map e_event_id prior @ [e_event_id allowed]) (time_or fallback (hd prior))
             (time_or fallback allowed) metrics primary correlation_key confidence
             (md_default_severity md) targets (md_mitre_techniques md) tags (evidence @ [last_item]))))"

section \<open>Scan followed by an allowed connection\<close>

definition scan_allowed_metadata :: DetectionRuleMetadata where
  "scan_allowed_metadata =
     \<lparr>md_rule_id = ''scan_followed_by_allowed_connection'', md_version = ''1.0.0'',
      md_name = ''Scan Followed by Allowed Connection'', md_family = ''network_intrusion_candidate'',
      md_priority = 40, md_supported_event_types = [],
      md_required_fields = [''src_ip'', ''dst_ip'', ''dst_port'', ''action''],
      md_signal_type = ''scan_followed_by_allowed_connection'', md_signal_variants = [],
      md_default_severity = ''high'', md_mitre_techniques = [''T1046''],
      md_window_setting = Some ''SCAN_THEN_ALLOWED_WINDOW_SECONDS'',
      md_minimum_events_setting = Some ''SCAN_THEN_ALLOWED_MIN_BLOCKED_EVENTS''\<rparr>"

definition scan_allowed_usable :: "canonical_event \<Rightarrow> bool" where
  "scan_allowed_usable e = (truthy (e_src_ip e) \<and> truthy (e_dst_ip e) \<and> endpoints_parsed e)"

definition scan_allowed_earlier :: "DetectionSettings \<Rightarrow> canonical_event \<Rightarrow> canonical_event \<Rightarrow> bool" where
  "scan_allowed_earlier st allowed e =
     (is_blocked e \<and> precedes_within (SCAN_THEN_ALLOWED_WINDOW_SECONDS st) allowed e)"

definition scan_allowed_accepts :: "DetectionSettings \<Rightarrow> canonical_event list \<Rightarrow> canonical_event \<Rightarrow> bool" where
  "scan_allowed_accepts st blocked_events allowed =
     (SCAN_THEN_ALLOWED_MIN_BLOCKED_EVENTS st \<le> length blocked_events \<and>
      (SCAN_THEN_ALLOWED_MIN_DISTINCT_TARGETS st \<le> length (prior_targets blocked_events) \<or>
       SCAN_THEN_ALLOWED_MIN_DISTINCT_PORTS st \<le> length (distinct_ports blocked_events)) \<and>
      (\<exists>e \<in> set blocked_events. related_event allowed e))"

definition scan_allowed_emit ::
  "DetectionContext \<Rightarrow> string \<Rightarrow> canonical_event list \<Rightarrow> canonical_event \<Rightarrow> string + DetectionSignal" where
  "scan_allowed_emit ctx src_ip blocked_events allowed =
     (let started = ctx_analysis_started_at ctx;
          metrics = [(''blocked_event_count'', PInt (int (length blocked_events))),
            (''distinct_targets'', PInt (int (length (prior_targets blocked_events)))),
            (''distinct_ports'', PInt (int (length (distinct_ports blocked_events)))),
            (''allowed_event_id'', PStr (e_event_id allowed)),
            (''allowed_destination'', PStr (destination_or_unknown allowed)),
            (''allowed_destination_port'', PInt (port_value allowed)),
            (''time_to_allowed_seconds'', PFloat (time_to_allowed started blocked_events allowed))]
      in sequence_signal scan_allowed_metadata started blocked_events allowed metrics metrics src_ip
           (allowed_key allowed)
           ''Representative blocked scan activity before an allowed connection''
           ''Allowed connection after related blocked scan activity''
           (calculate_signal_confidence (length blocked_events)
              (SCAN_THEN_ALLOWED_MIN_BLOCKED_EVENTS (ctx_settings ctx)) (8/10) (95/100))
           (bounded_sorted_values (somes e_dst_ip blocked_events @ [destination_or_unknown allowed]) 20)
           [''network'', ''scan'', ''sequence'', ''allowed_after_block''])"

definition scan_allowed_evaluate ::
  "canonical_event list \<Rightarrow> DetectionContext \<Rightarrow> string + DetectionSignal list" where
  "scan_allowed_evaluate events ctx =
     (let st = ctx_settings ctx in
      scan_sequences (ctx_analysis_started_at ctx) (\<lambda>e. text_of (e_src_ip e)) scan_allowed_usable
        (scan_allowed_earlier st) (scan_allowed_accepts st) (scan_allowed_emit ctx) events)"

definition ScanFollowedByAllowedConnectionRule :: BaseDetectionRule where
  "ScanFollowedByAllowedConnectionRule = \<lparr>rule_class = ''ScanFollowedByAllowedConnectionRule'',
     metadata = scan_allowed_metadata, evaluate = scan_allowed_evaluate\<rparr>"

section \<open>SPI blocks followed by an allowed connection\<close>

definition spi_allowed_metadata :: DetectionRuleMetadata where
  "spi_allowed_metadata =
     \<lparr>md_rule_id = ''spi_followed_by_allowed_connection'', md_version = ''1.0.0'',
      md_name = ''SPI Followed by Allowed Connection'', md_family = ''network_intrusion_candidate'',
      md_priority = 42, md_supported_event_types = [],
      md_required_fields = [''src_ip'', ''dst_ip'', ''dst_port'', ''protocol'', ''action''],
      md_signal_type = ''spi_followed_by_allowed_connection'', md_signal_variants = [],
      md_default_severity = ''high'', md_mitre_techniques = [''T1046''],
      md_window_setting = Some ''SPI_THEN_ALLOWED_WINDOW_SECONDS'',
      md_minimum_events_setting = Some ''SPI_THEN_ALLOWED_MIN_SPI_EVENTS''\<rparr>"

definition spi_allowed_usable :: "canonical_event \<Rightarrow> bool" where
  "spi_allowed_usable e =
     (endpoints_parsed e \<and> e_dst_port e \<noteq> None \<and> normalized_protocol e = ''TCP'')"

definition spi_allowed_earlier :: "DetectionSettings \<Rightarrow> canonical_event \<Rightarrow> canonical_event \<Rightarrow> bool" where
  "spi_allowed_earlier st allowed e =
     (is_spi_block_event e (SPI_ANOMALY_FALLBACK_RAW_MATCH st) \<and>
      precedes_within (SPI_THEN_ALLOWED_WINDOW_SECONDS st) allowed e)"

definition spi_allowed_accepts :: "DetectionSettings \<Rightarrow> canonical_event list \<Rightarrow> canonical_event \<Rightarrow> bool" where
  "spi_allowed_accepts st spi_blocks allowed =
     (SPI_THEN_ALLOWED_MIN_SPI_EVENTS st \<le> length spi_blocks \<and>
      (\<exists>e \<in> set spi_blocks. related_event allowed e))"

definition spi_allowed_emit ::
  "DetectionContext \<Rightarrow> string \<Rightarrow> canonical_event list \<Rightarrow> canonical_event \<Rightarrow> string + DetectionSignal" where
  "spi_allowed_emit ctx source_ip spi_blocks allowed =
     (let started = ctx_analysis_started_at ctx;
          metrics = [(''spi_event_count'', PInt (int (length spi_blocks))),
            (''distinct_spi_targets'', PInt (int (length (prior_targets spi_blocks)))),
            (''allowed_event_id'', PStr (e_event_id allowed)),
            (''allowed_destination'', PStr (destination_or_unknown allowed)),
            (''allowed_destination_port'', PInt (port_value allowed)),
            (''time_to_allowed_seconds'', PFloat (time_to_allowed started spi_blocks allowed))]
      in sequence_signal spi_allowed_metadata started spi_blocks allowed metrics metrics source_ip
           (allowed_key allowed)
           ''Representative explicit SPI blocks before an allowed connection''
           ''Allowed connection after related explicit SPI blocks''
           (calculate_signal_confidence (length spi_blocks)
              (SPI_THEN_ALLOWED_MIN_SPI_EVENTS (ctx_settings ctx)) (8/10) (95/100))
           (bounded_sorted_values (somes e_dst_ip spi_blocks @ [destination_or_unknown allowed]) 20)
           [''network'', ''spi'', ''sequence'', ''allowed_after_spi''])"

definition spi_allowed_evaluate ::
  "canonical_event list \<Rightarrow> DetectionContext \<Rightarrow> string + DetectionSignal list" where
  "spi_allowed_evaluate events ctx =
     (let st = ctx_settings ctx in
      bind_err (scan_sequences (ctx_analysis_started_at ctx) (\<lambda>e. address_text (e_src_ip e))
          spi_allowed_usable (spi_allowed_earlier st) (spi_allowed_accepts st) (spi_allowed_emit ctx) events)
        (\<lambda>signals. Inr (sort_signals signals)))"

definition SpiFollowedByAllowedConnectionRule :: BaseDetectionRule where
  "SpiFollowedByAllowedConnectionRule = \<lparr>rule_class = ''SpiFollowedByAllowedConnectionRule'',
     metadata = spi_allowed_metadata, evaluate = spi_allowed_evaluate\<rparr>"

section \<open>Facts about the loop\<close>

lemma sequence_points_iff:
  "(before, a) \<in> set (sequence_points xs) \<longleftrightarrow> (\<exists>after. xs = before @ a # after)"
proof
  assume "(before, a) \<in> set (sequence_points xs)"
  then obtain i where "i < length xs" "before = take i xs" "a = xs ! i"
    by (auto simp: sequence_points_def)
  then have "xs = before @ a # drop (Suc i) xs" by (simp add: id_take_nth_drop [symmetric])
  then show "\<exists>after. xs = before @ a # after" by blast
next
  assume "\<exists>after. xs = before @ a # after"
  then obtain after where xs: "xs = before @ a # after" by blast
  then show "(before, a) \<in> set (sequence_points xs)"
    by (auto simp: sequence_points_def image_iff intro!: bexI [of _ "length before"])
qed

lemma subseq_point: "subseq (filter p before @ [a]) (before @ a # after)"
  by (intro list_emb_append_mono subseq_filter_left) simp

text \<open>What the loop hands to the emission: an ordered run of the group, ending in the allowed
  event.\<close>

lemma sequence_run:
  assumes "rule_input es" and "(k, grouped) \<in> set (group_by key (filter usable es))"
    and "(before, a) \<in> set (sequence_points (ordered_events fallback grouped))"
  shows "rule_input (filter p before @ [a])" and "set before \<union> {a} \<subseteq> {e \<in> set es. usable e \<and> key e = k}"
proof -
  have g: "grouped = filter (\<lambda>x. key x = k) (filter usable es)"
    by (rule group_by_member(1) [OF assms(2)])
  have ri: "rule_input (ordered_events fallback grouped)"
    unfolding g by (intro rule_input_ordered rule_input_filter assms(1))
  obtain after where split: "ordered_events fallback grouped = before @ a # after"
    using assms(3) by (auto simp: sequence_points_iff)
  have sub: "subseq (filter p before @ [a]) (ordered_events fallback grouped)"
    unfolding split by (rule subseq_point)
  have "time_ordered (before @ a # after)" using ri split by (simp add: rule_input_def)
  then have "time_ordered (filter p before @ [a])"
    by (auto simp: time_ordered_def sorted_append intro: sorted_filter)
  then show "rule_input (filter p before @ [a])" by (rule rule_input_subseq [OF sub _ ri])
  have "set (before @ a # after) = set grouped" by (simp flip: split)
  then show "set before \<union> {a} \<subseteq> {e \<in> set es. usable e \<and> key e = k}" by (auto simp: g)
qed

lemma scan_sequences_sound:
  assumes "rule_input es"
    and emit: "\<And>k prior a. rule_input (prior @ [a]) \<Longrightarrow> set (prior @ [a]) \<subseteq> set es \<Longrightarrow>
      \<forall>e \<in> set (prior @ [a]). usable e \<and> key e = k \<Longrightarrow> accepts prior a \<Longrightarrow>
      \<exists>s. emit k prior a = Inr s \<and> P s"
  shows "\<exists>ss. scan_sequences fallback key usable earlier accepts emit es = Inr ss \<and> (\<forall>s \<in> set ss. P s)"
proof -
  have point: "\<exists>zs. (let prior = filter (earlier a) before in if timed_allowed a \<and> accepts prior a
        then map_err (emit k prior) [a] else Inr []) = Inr zs \<and> (\<forall>s \<in> set zs. P s)"
    if g: "(k, grouped) \<in> set (group_by key (filter usable es))"
      and q: "(before, a) \<in> set (sequence_points (ordered_events fallback grouped))" for k grouped before a
  proof (cases "timed_allowed a \<and> accepts (filter (earlier a) before) a")
    case True
    have "\<exists>s. emit k (filter (earlier a) before) a = Inr s \<and> P s"
      using sequence_run(1) [OF assms(1) g q, where p = "earlier a"] sequence_run(2) [OF assms(1) g q] True
      by (intro emit) auto
    with True show ?thesis by (auto simp: Let_def)
  qed (auto simp: Let_def)
  show ?thesis
    unfolding scan_sequences_def
    by (rule concat_err_sound, clarify, rule concat_err_sound, clarify) (rule point)
qed

text \<open>The loop reports exactly the accepted allowed events of each group.\<close>

lemma scan_sequences_exact:
  assumes scan: "scan_sequences fallback key usable earlier accepts emit es = Inr ss"
  shows "s \<in> set ss \<longleftrightarrow> (\<exists>k before a after.
     ordered_events fallback (filter (\<lambda>e. usable e \<and> key e = k) es) = before @ a # after \<and>
     timed_allowed a \<and> accepts (filter (earlier a) before) a \<and>
     emit k (filter (earlier a) before) a = Inr s)" (is "_ \<longleftrightarrow> ?rhs")
proof -
  let ?point = "\<lambda>k (before, a). let prior = filter (earlier a) before
      in if timed_allowed a \<and> accepts prior a then map_err (emit k prior) [a] else Inr []"
  let ?group = "\<lambda>(k, grouped). concat_err (?point k) (sequence_points (ordered_events fallback grouped))"
  let ?grp = "\<lambda>k. filter (\<lambda>e. usable e \<and> key e = k) es"
  have ss: "concat_err ?group (group_by key (filter usable es)) = Inr ss"
    using scan by (simp add: scan_sequences_def)
  have grp: "grouped = ?grp k" if "(k, grouped) \<in> set (group_by key (filter usable es))" for k grouped
    using group_by_member(1) [OF that] by (auto intro: filter_cong)
  have point: "?point k (before, a) = Inr zs \<Longrightarrow> s \<in> set zs \<longleftrightarrow> timed_allowed a \<and>
      accepts (filter (earlier a) before) a \<and> emit k (filter (earlier a) before) a = Inr s" for k before a zs
    by (auto simp: Let_def bind_err_Inr split: if_splits)
  show ?thesis
  proof
    assume "s \<in> set ss"
    then obtain k grouped zs where g: "(k, grouped) \<in> set (group_by key (filter usable es))"
      and zs: "concat_err (?point k) (sequence_points (ordered_events fallback grouped)) = Inr zs" "s \<in> set zs"
      using concat_err_set [OF ss] by fastforce
    then obtain before a ps where "(before, a) \<in> set (sequence_points (ordered_events fallback grouped))"
      and "?point k (before, a) = Inr ps" and "s \<in> set ps"
      using concat_err_set [OF zs(1)] by fastforce
    then have "\<exists>after. ordered_events fallback (?grp k) = before @ a # after"
      and "timed_allowed a \<and> accepts (filter (earlier a) before) a \<and>
        emit k (filter (earlier a) before) a = Inr s"
      using point [of k before a ps] by (simp_all only: grp [OF g] sequence_points_iff)
    then show ?rhs by blast
  next
    assume ?rhs
    then obtain k before a after where split: "ordered_events fallback (?grp k) = before @ a # after"
      and acc: "timed_allowed a" "accepts (filter (earlier a) before) a"
        "emit k (filter (earlier a) before) a = Inr s" by blast
    have "a \<in> set (ordered_events fallback (?grp k))" by (simp add: split)
    then have g: "(k, ?grp k) \<in> set (group_by key (filter usable es))"
      using group_by_filter_member [of a es usable key] by auto
    then obtain zs where zs: "concat_err (?point k) (sequence_points (ordered_events fallback (?grp k))) = Inr zs"
      using concat_err_each [OF ss g] by auto
    have "(before, a) \<in> set (sequence_points (ordered_events fallback (?grp k)))"
      using split sequence_points_iff by metis
    moreover have "?point k (before, a) = Inr [s]" using acc by (simp add: Let_def)
    ultimately have "s \<in> set zs" using concat_err_set [OF zs] by fastforce
    then show "s \<in> set ss" using concat_err_set [OF ss] g zs by fastforce
  qed
qed

section \<open>The rules are sound\<close>

lemma sequence_signal_sound:
  assumes run: "rule_input (prior @ [a])" and ne: "prior \<noteq> []" and sub: "set (prior @ [a]) \<subseteq> set sel"
    and md: "sound_metadata md" "md_signal_variants md = []"
    and conf: "0 \<le> conf \<and> conf \<le> 1" and visible: "py_strip prim \<noteq> []" and tags: "distinct tags"
  shows "\<exists>s. sequence_signal md fb prior a emc mc prim key r1 r2 conf targets tags = Inr s \<and>
    honours_contract md (e_event_id ` set sel) s"
proof -
  have ids: "\<forall>e \<in> set (prior @ [a]). e_event_id e \<noteq> []" and dist: "distinct (map e_event_id (prior @ [a]))"
    and ord: "time_ordered (prior @ [a])"
    using run by (auto simp: rule_input_def)
  obtain evs where ev: "select_representative_evidence prior 2 r1 (md_rule_id md) emc = Inr evs"
    using select_representative_evidence_ok [of prior 2 r1 "md_rule_id md" emc] ids by auto
  obtain item where item: "create_evidence_from_event a r2 (md_rule_id md) emc = Inr item"
    using create_evidence_ok [of a r2 "md_rule_id md" emc] ids by auto
  have quoted: "map ev_event_id (evs @ [item]) = take 2 (map e_event_id prior) @ [e_event_id a]"
    using select_representative_evidence_ids [OF ev] create_evidence_id [OF item] by simp
  have evd: "distinct (map ev_event_id (evs @ [item]))"
    unfolding quoted using dist by (auto dest: in_set_takeD)
  have "ev_event_id ` set (evs @ [item]) = set (map ev_event_id (evs @ [item]))" by simp
  also have "\<dots> \<subseteq> set (map e_event_id prior @ [e_event_id a])"
    unfolding quoted by (auto dest: in_set_takeD)
  finally have evs: "ev_event_id ` set (evs @ [item]) \<subseteq> set (map e_event_id prior @ [e_event_id a])" .
  have times: "time_or fb (hd prior) \<le> time_or fb a"
    using time_or_ordered [OF ord] ne by simp
  have declared: "declared_variant md (own_identity md (md_signal_type md))"
    using md(2) by (rule own_identity_declared)
  have sev: "md_default_severity md \<in> set SEVERITIES" and techs: "distinct (md_mitre_techniques md)"
    using md(1) by (auto simp: sound_metadata_def)
  have inside: "set (map e_event_id prior @ [e_event_id a]) \<subseteq> e_event_id ` set sel" using sub by auto
  obtain s where s: "assemble_signal md (own_identity md (md_signal_type md)) (md_rule_id md)
      (map e_event_id prior @ [e_event_id a]) (time_or fb (hd prior)) (time_or fb a) mc prim key conf
      (md_default_severity md) targets (md_mitre_techniques md) tags (evs @ [item]) = Inr s"
    using assemble_signal_ok [OF declared_variant_id [OF declared md(1)] times _ _ sev] conf by blast
  have "honours_contract md (e_event_id ` set sel) s"
    by (rule assemble_signal_honours [OF s _ inside visible evs evd techs tags declared]) simp
  with s have "\<exists>s. assemble_signal md (own_identity md (md_signal_type md)) (md_rule_id md)
      (map e_event_id prior @ [e_event_id a]) (time_or fb (hd prior)) (time_or fb a) mc prim key conf
      (md_default_severity md) targets (md_mitre_techniques md) tags (evs @ [item]) = Inr s \<and>
      honours_contract md (e_event_id ` set sel) s" by blast
  then show ?thesis using ev item ne by (auto simp: sequence_signal_def)
qed

text \<open>Both rules accept an allowed event only after related earlier ones, and take the primary
  entity from an address of theirs.\<close>

lemma accepted_nonempty:
  "scan_allowed_accepts st prior a \<Longrightarrow> prior \<noteq> []"
  "spi_allowed_accepts st prior a \<Longrightarrow> prior \<noteq> []"
  by (auto simp: scan_allowed_accepts_def spi_allowed_accepts_def)

lemma high_confidence_unit:
  "0 \<le> calculate_signal_confidence n k (8/10) (95/100) \<and> calculate_signal_confidence n k (8/10) (95/100) \<le> 1"
  by (rule signal_confidence_unit) auto

lemma sound_sequence_metadata:
  "sound_metadata scan_allowed_metadata" "md_signal_variants scan_allowed_metadata = []"
  "sound_metadata spi_allowed_metadata" "md_signal_variants spi_allowed_metadata = []"
  by code_simp+

lemma scan_allowed_sound:
  assumes "rule_input es" and "\<forall>e \<in> set es. event_has_required_fields e (md_required_fields scan_allowed_metadata)"
  shows "\<exists>ss. scan_allowed_evaluate es ctx = Inr ss \<and>
    (\<forall>s \<in> set ss. honours_contract scan_allowed_metadata (e_event_id ` set es) s)"
  unfolding scan_allowed_evaluate_def Let_def
proof (rule scan_sequences_sound [OF assms(1)])
  fix k prior a
  assume run: "rule_input (prior @ [a])" "set (prior @ [a]) \<subseteq> set es"
    and use: "\<forall>e \<in> set (prior @ [a]). scan_allowed_usable e \<and> text_of (e_src_ip e) = k"
    and acc: "scan_allowed_accepts (ctx_settings ctx) prior a"
  have visible: "py_strip k \<noteq> []"
    by (rule primary_visible(1) [OF assms(2) run(2)]) (use use in \<open>auto simp: scan_allowed_metadata_def\<close>)
  show "\<exists>s. scan_allowed_emit ctx k prior a = Inr s \<and>
      honours_contract scan_allowed_metadata (e_event_id ` set es) s"
    unfolding scan_allowed_emit_def Let_def
    by (rule sequence_signal_sound [OF run(1) accepted_nonempty(1) [OF acc] run(2)
          sound_sequence_metadata(1,2) high_confidence_unit visible]) simp
qed

lemma spi_allowed_sound:
  assumes "rule_input es"
  shows "\<exists>ss. spi_allowed_evaluate es ctx = Inr ss \<and>
    (\<forall>s \<in> set ss. honours_contract spi_allowed_metadata (e_event_id ` set es) s)"
  unfolding spi_allowed_evaluate_def Let_def
proof (rule sort_signals_sound, rule scan_sequences_sound [OF assms])
  fix k prior a
  assume run: "rule_input (prior @ [a])" "set (prior @ [a]) \<subseteq> set es"
    and use: "\<forall>e \<in> set (prior @ [a]). spi_allowed_usable e \<and> address_text (e_src_ip e) = k"
    and acc: "spi_allowed_accepts (ctx_settings ctx) prior a"
  have visible: "py_strip k \<noteq> []"
    using use address_text_visible [of "e_src_ip a"] by (auto simp: spi_allowed_usable_def endpoints_parsed_def)
  show "\<exists>s. spi_allowed_emit ctx k prior a = Inr s \<and>
      honours_contract spi_allowed_metadata (e_event_id ` set es) s"
    unfolding spi_allowed_emit_def Let_def
    by (rule sequence_signal_sound [OF run(1) accepted_nonempty(2) [OF acc] run(2)
          sound_sequence_metadata(3,4) high_confidence_unit visible]) simp
qed

interpretation scan_allowed: sound_rule ScanFollowedByAllowedConnectionRule usable_settings
  by (rule sound_rule_evaluateI) (simp add: ScanFollowedByAllowedConnectionRule_def scan_allowed_sound)

interpretation spi_allowed: sound_rule SpiFollowedByAllowedConnectionRule usable_settings
  by (rule sound_rule_evaluateI) (simp add: SpiFollowedByAllowedConnectionRule_def spi_allowed_sound)

section \<open>What the scan sequence rule reports\<close>


text \<open>The order the rule sorts a group by, and the blocked events that count for an allowed one: of
  the same source, before it in that order and not older than the window.\<close>

definition occurrence :: "datetime \<Rightarrow> canonical_event \<Rightarrow> datetime \<times> string" where
  "occurrence fallback e = (time_or fallback e, e_event_id e)"

definition blocked_before :: "DetectionContext \<Rightarrow> canonical_event list \<Rightarrow> canonical_event \<Rightarrow> canonical_event list" where
  "blocked_before ctx es a =
     filter (\<lambda>e. scan_allowed_usable e \<and> e_src_ip e = e_src_ip a \<and>
         occurrence (ctx_analysis_started_at ctx) e < occurrence (ctx_analysis_started_at ctx) a \<and>
         scan_allowed_earlier (ctx_settings ctx) a e)
       (ordered_events (ctx_analysis_started_at ctx) es)"

lemma sorted_wrt_occurrence:
  assumes "distinct (map e_event_id es)"
  shows "sorted_wrt (\<lambda>x y. occurrence fb x < occurrence fb y) (ordered_events fb es)"
proof -
  have "distinct (map (occurrence fb) (ordered_events fb es))"
    using assms by (auto simp: ordered_events_def distinct_map inj_on_def occurrence_def)
  moreover have "sorted (map (occurrence fb) (ordered_events fb es))"
    by (simp add: ordered_events_def occurrence_def [abs_def])
  ultimately show ?thesis
    by (simp add: strict_sorted_iff flip: sorted_wrt_map)
qed

lemma filter_before: "sorted_wrt (\<lambda>x y. k x < (k y :: 'b::linorder)) (b @ a # c) \<Longrightarrow> filter (\<lambda>x. k x < k a) (b @ a # c) = b"
  by (auto simp: sorted_wrt_append filter_id_conv filter_empty_conv)

lemma ordered_filter: "ordered_events fb (filter p es) = filter p (ordered_events fb es)"
  by (simp add: ordered_events_def filter_sort)

lemma scan_sequences_emits:
  assumes "scan_sequences fallback key usable earlier accepts emit es = Inr ss"
    and "ordered_events fallback (filter (\<lambda>e. usable e \<and> key e = k) es) = before @ a # after"
    and "timed_allowed a" and "accepts (filter (earlier a) before) a"
  shows "\<exists>s. emit k (filter (earlier a) before) a = Inr s"
proof -
  have "a \<in> set (ordered_events fallback (filter (\<lambda>e. usable e \<and> key e = k) es))" by (simp add: assms(2))
  then have g: "(k, filter (\<lambda>e. usable e \<and> key e = k) es) \<in> set (group_by key (filter usable es))"
    using group_by_filter_member [of a es usable key] by auto
  have pt: "(before, a) \<in> set (sequence_points (ordered_events fallback (filter (\<lambda>e. usable e \<and> key e = k) es)))"
    using assms(2) sequence_points_iff by metis
  obtain zs where zs: "concat_err (\<lambda>(before, a). let prior = filter (earlier a) before
      in if timed_allowed a \<and> accepts prior a then map_err (emit k prior) [a] else Inr [])
      (sequence_points (ordered_events fallback (filter (\<lambda>e. usable e \<and> key e = k) es))) = Inr zs"
    using concat_err_each [OF assms(1) [unfolded scan_sequences_def] g] by auto
  show ?thesis
    using concat_err_each [OF zs pt] assms(3,4) by (auto simp: Let_def bind_err_Inr)
qed

lemma sequence_signal_fields:
  assumes "sequence_signal md fb prior a emc mc prim key r1 r2 conf targets tags = Inr s"
  shows "s_primary_entity s = prim" and "s_metrics s = mc"
    and "s_event_ids s = sort_uniq (map e_event_id prior @ [e_event_id a])"
  using assms by (auto simp: sequence_signal_def bind_err_Inr dest: assemble_signal_fields split: if_splits)

lemma scan_allowed_emit_fields:
  assumes "scan_allowed_emit ctx src prior a = Inr s"
  shows "s_primary_entity s = src" and "map_of (s_metrics s) ''allowed_event_id'' = Some (PStr (e_event_id a))"
    and "set (s_event_ids s) = insert (e_event_id a) (e_event_id ` set prior)"
  using sequence_signal_fields [OF assms [unfolded scan_allowed_emit_def Let_def]] by simp_all

lemma same_source: "scan_allowed_usable e \<Longrightarrow> scan_allowed_usable a \<Longrightarrow>
    text_of (e_src_ip e) = text_of (e_src_ip a) \<longleftrightarrow> e_src_ip e = e_src_ip a"
  by (auto simp: scan_allowed_usable_def text_of_def truthy_def split: option.splits)

text \<open>C20: the rule reports an allowed connection exactly when blocked events of the same source
  before it, within the window, reach the thresholds and one of them went to the same destination and
  port or service; the signal then covers those blocked events and the allowed one.\<close>

theorem scan_followed_by_allowed_exact:
  assumes "rule_input es" and "scan_allowed_evaluate es ctx = Inr ss"
    and "a \<in> set es" and "scan_allowed_usable a"
  shows "(\<exists>s \<in> set ss. map_of (s_metrics s) ''allowed_event_id'' = Some (PStr (e_event_id a))
      \<and> s_primary_entity s = text_of (e_src_ip a)
      \<and> set (s_event_ids s) = insert (e_event_id a) (e_event_id ` set (blocked_before ctx es a)))
    \<longleftrightarrow> is_allowed a \<and> scan_allowed_accepts (ctx_settings ctx) (blocked_before ctx es a) a" (is "?l \<longleftrightarrow> ?r")
proof -
  let ?fb = "ctx_analysis_started_at ctx"
  let ?grp = "\<lambda>k. filter (\<lambda>e. scan_allowed_usable e \<and> text_of (e_src_ip e) = k) es"
  have ids: "distinct (map e_event_id es)" and time: "e_timestamp a \<noteq> None"
    using assms(1,3) by (auto simp: rule_input_def time_ordered_def)
  note exact = scan_sequences_exact [OF assms(2) [unfolded scan_allowed_evaluate_def Let_def]]
  have prior: "filter (scan_allowed_earlier (ctx_settings ctx) a) before = blocked_before ctx es a"
    if split: "ordered_events ?fb (?grp (text_of (e_src_ip a))) = before @ a # after" for before after
  proof -
    have "sorted_wrt (\<lambda>x y. occurrence ?fb x < occurrence ?fb y) (before @ a # after)"
      unfolding split [symmetric] using ids by (intro sorted_wrt_occurrence) (simp add: distinct_map_filter)
    then have "before = filter (\<lambda>e. occurrence ?fb e < occurrence ?fb a) (before @ a # after)"
      by (rule filter_before [symmetric])
    also have "\<dots> = filter (\<lambda>e. occurrence ?fb e < occurrence ?fb a \<and> scan_allowed_usable e \<and>
        text_of (e_src_ip e) = text_of (e_src_ip a)) (ordered_events ?fb es)"
      by (simp add: ordered_filter conj_commute conj_left_commute flip: split)
    finally show ?thesis
      by (auto simp: blocked_before_def same_source assms(4) intro!: filter_cong)
  qed
  show ?thesis
  proof
    assume ?l
    then obtain s where s: "s \<in> set ss" "map_of (s_metrics s) ''allowed_event_id'' = Some (PStr (e_event_id a))"
      "s_primary_entity s = text_of (e_src_ip a)" by blast
    obtain k before b after where split: "ordered_events ?fb (?grp k) = before @ b # after"
      and acc: "timed_allowed b" "scan_allowed_accepts (ctx_settings ctx) (filter (scan_allowed_earlier (ctx_settings ctx) b) before) b"
      and emit: "scan_allowed_emit ctx k (filter (scan_allowed_earlier (ctx_settings ctx) b) before) b = Inr s"
      using s(1) unfolding exact by blast
    have "b \<in> set (ordered_events ?fb (?grp k))" by (simp add: split)
    then have "b \<in> set es" by simp
    moreover have "e_event_id b = e_event_id a" using scan_allowed_emit_fields(2) [OF emit] s(2) by simp
    ultimately have b: "b = a" using ids assms(3) by (auto simp: distinct_map dest: inj_onD)
    have k: "k = text_of (e_src_ip a)" using scan_allowed_emit_fields(1) [OF emit] s(3) by simp
    show ?r using acc prior [OF split [unfolded b k]] by (simp add: b timed_allowed_def)
  next
    assume r: ?r
    have "a \<in> set (ordered_events ?fb (?grp (text_of (e_src_ip a))))" using assms(3,4) by simp
    then obtain before after where split: "ordered_events ?fb (?grp (text_of (e_src_ip a))) = before @ a # after"
      using split_list by metis
    obtain s where s: "scan_allowed_emit ctx (text_of (e_src_ip a)) (blocked_before ctx es a) a = Inr s"
      using scan_sequences_emits [OF assms(2) [unfolded scan_allowed_evaluate_def Let_def] split] prior [OF split] r time
      by (auto simp: timed_allowed_def)
    have "s \<in> set ss" unfolding exact
      by (rule exI [of _ "text_of (e_src_ip a)"], rule exI [of _ before], rule exI [of _ a], rule exI [of _ after])
         (use split prior [OF split] r s time in \<open>simp add: timed_allowed_def\<close>)
    then show ?l using scan_allowed_emit_fields [OF s] by blast
  qed
qed
definition blocked_probe :: "string \<Rightarrow> int \<Rightarrow> string \<Rightarrow> int \<Rightarrow> canonical_event" where
  "blocked_probe eid t dst port = (CanonicalLogEvent eid ''pf'' ''parsed'')\<lparr>e_timestamp := Some (Aware (Instant t)),
     e_src_ip := Some ''203.0.113.9'', e_dst_ip := Some dst, e_dst_port := Some port,
     e_action := Some ''block''\<rparr>"

definition allowed_probe :: canonical_event where
  "allowed_probe = (blocked_probe ''E3'' 3000000 ''10.0.0.1'' 22)\<lparr>e_action := Some ''pass''\<rparr>"

definition probe_then_allowed :: "canonical_event list" where
  "probe_then_allowed = [blocked_probe ''E1'' 1000000 ''10.0.0.1'' 22,
     blocked_probe ''E2'' 2000000 ''10.0.0.2'' 22, allowed_probe]"

definition sequence_context :: DetectionContext where
  "sequence_context = \<lparr>ctx_settings = default_settings\<lparr>SCAN_THEN_ALLOWED_MIN_BLOCKED_EVENTS := 2\<rparr>,
     ctx_analysis_started_at = Instant 0, ctx_source_name = [], ctx_now = Instant 0\<rparr>"

lemma probe_then_allowed_input: "rule_input probe_then_allowed"
  by (simp add: rule_input_def time_ordered_def probe_then_allowed_def blocked_probe_def allowed_probe_def
      less_eq_datetime_def CanonicalLogEvent_def)

lemma probe_then_allowed_accepted:
  "blocked_before sequence_context probe_then_allowed allowed_probe =
     [blocked_probe ''E1'' 1000000 ''10.0.0.1'' 22, blocked_probe ''E2'' 2000000 ''10.0.0.2'' 22]"
  "scan_allowed_usable allowed_probe" "is_allowed allowed_probe"
  "scan_allowed_accepts (ctx_settings sequence_context)
     [blocked_probe ''E1'' 1000000 ''10.0.0.1'' 22, blocked_probe ''E2'' 2000000 ''10.0.0.2'' 22] allowed_probe"
  by code_simp+

theorem scan_followed_by_allowed_exact_witness:
  "\<exists>ss. scan_allowed_evaluate probe_then_allowed sequence_context = Inr ss
    \<and> (\<exists>s \<in> set ss. map_of (s_metrics s) ''allowed_event_id'' = Some (PStr ''E3'')
      \<and> set (s_event_ids s) = {''E1'', ''E2'', ''E3''})"
proof -
  have req: "\<forall>e \<in> set probe_then_allowed. event_has_required_fields e (md_required_fields scan_allowed_metadata)"
    by code_simp
  obtain ss where ss: "scan_allowed_evaluate probe_then_allowed sequence_context = Inr ss"
    using scan_allowed_sound [OF probe_then_allowed_input req] by blast
  have "allowed_probe \<in> set probe_then_allowed" by (simp add: probe_then_allowed_def)
  from scan_followed_by_allowed_exact [OF probe_then_allowed_input ss this probe_then_allowed_accepted(2)]
  have "\<exists>s \<in> set ss. map_of (s_metrics s) ''allowed_event_id'' = Some (PStr (e_event_id allowed_probe))
      \<and> set (s_event_ids s) = insert (e_event_id allowed_probe) (e_event_id ` set (blocked_before sequence_context probe_then_allowed allowed_probe))"
    using probe_then_allowed_accepted(1,3,4) by auto
  then have "\<exists>s \<in> set ss. map_of (s_metrics s) ''allowed_event_id'' = Some (PStr ''E3'')
      \<and> set (s_event_ids s) = {''E1'', ''E2'', ''E3''}"
    unfolding probe_then_allowed_accepted(1) by (auto simp: allowed_probe_def blocked_probe_def CanonicalLogEvent_def)
  with ss show ?thesis by blast
qed

end
