(* ===== verification/ExposureRules.thy ===== *)
theory ExposureRules
  imports SequenceRules
begin

text \<open>
  The inbound exposure rules (\<open>agent/detection/detectors/inbound_exposure.py\<close>): allowed
  inbound traffic to sensitive or management services, through translations or between zones, and
  repeated blocks followed by an allowed connection to the same service. The rules group items: an
  event with its effective destination and service.
\<close>

section \<open>Items\<close>

record ExposureEvent =
  x_event :: canonical_event
  x_source_ip :: string
  x_destination_ip :: string
  x_destination_port :: int
  x_service :: string

definition exposure_event ::
  "canonical_event \<Rightarrow> (int option \<Rightarrow> string option) \<Rightarrow> ExposureEvent option" where
  "exposure_event event service_classifier =
     (let destination_value = effective_destination_ip event;
          port = effective_destination_port event
      in case (parse_ip_address (e_src_ip event), parse_ip_address destination_value, port,
               service_classifier port) of
           (Some source_address, Some destination_address, Some destination_port, Some service) \<Rightarrow>
             if is_usable_ip (e_src_ip event) \<and> is_usable_ip destination_value \<and>
                normalized_protocol event = ''TCP''
             then Some \<lparr>x_event = event, x_source_ip = ip_text source_address,
               x_destination_ip = ip_text destination_address,
               x_destination_port = destination_port, x_service = service\<rparr>
             else None
         | _ \<Rightarrow> None)"

definition service_or_exact_port :: "int option \<Rightarrow> string option" where
  "service_or_exact_port port =
     (case classify_service port of Some service \<Rightarrow> Some service
      | None \<Rightarrow> (case port of
          Some p \<Rightarrow> if 1 \<le> p \<and> p \<le> 65535 then Some (''tcp_'' @ str_of_int p) else None
        | None \<Rightarrow> None))"

definition ordered_items :: "datetime \<Rightarrow> ExposureEvent list \<Rightarrow> ExposureEvent list" where
  "ordered_items fallback items =
     sort_key (\<lambda>item. (time_or fallback (x_event item), e_event_id (x_event item))) items"

definition item_ports :: "ExposureEvent list \<Rightarrow> string" where
  "item_ports items =
     py_join '','' (map str_of_int (sort_uniq (map x_destination_port items)))"

text \<open>\<open>[item for item in ordered if item.event.event_id in ids]\<close>.\<close>

definition window_items :: "ExposureEvent list \<Rightarrow> canonical_event list \<Rightarrow> ExposureEvent list" where
  "window_items ordered window =
     filter (\<lambda>item. e_event_id (x_event item) \<in> e_event_id ` set window) ordered"

section \<open>Signals\<close>

definition exposure_confidence :: "DetectionRuleMetadata \<Rightarrow> nat \<Rightarrow> nat \<Rightarrow> rat" where
  "exposure_confidence md n minimum_events =
     (let high = (md_default_severity md = ''high'')
      in calculate_signal_confidence n minimum_events
           (if high then 8/10 else 65/100) (if high then 95/100 else 9/10))"

definition with_sources :: "ExposureEvent list \<Rightarrow> pydict \<Rightarrow> pydict" where
  "with_sources items metrics = AList.update ''source_ips''
     (PStr (py_join '','' (bounded_sorted_values (map x_source_ip items) 20))) metrics"

text \<open>\<open>_build_signal\<close> without evidence of its own.\<close>

definition exposure_signal ::
  "DetectionRuleMetadata \<Rightarrow> ExposureEvent list \<Rightarrow> DetectionContext \<Rightarrow> string \<Rightarrow> string \<Rightarrow> string list
   \<Rightarrow> pydict \<Rightarrow> nat \<Rightarrow> string \<Rightarrow> string list \<Rightarrow> string + DetectionSignal" where
  "exposure_signal md items ctx primary correlation_key targets metrics minimum_events reason tags =
     own_signal md ctx (map x_event items) (with_sources items metrics) primary correlation_key reason
       (exposure_confidence md (length items) minimum_events) (bounded_sorted_values targets 20) tags"

text \<open>The loop of the window rules over items; the condition and the emission see the group as it
  was collected, in order, and the window.\<close>

definition scan_items ::
  "datetime \<Rightarrow> (ExposureEvent \<Rightarrow> 'k) \<Rightarrow> (canonical_event \<Rightarrow> ExposureEvent option) \<Rightarrow> int
   \<Rightarrow> ('k \<Rightarrow> ExposureEvent list \<Rightarrow> ExposureEvent list \<Rightarrow> canonical_event list \<Rightarrow> bool \<times> pydict)
   \<Rightarrow> ('k \<Rightarrow> ExposureEvent list \<Rightarrow> ExposureEvent list \<Rightarrow> pydict \<Rightarrow> string + DetectionSignal)
   \<Rightarrow> canonical_event list \<Rightarrow> string + DetectionSignal list" where
  "scan_items fallback key item window_seconds check_window emit events =
     concat_err (\<lambda>(k, grouped).
         let ordered = ordered_items fallback grouped
         in map_err (\<lambda>(win, metrics). emit k grouped (window_items ordered win) metrics)
              (sliding_window_scan (map x_event ordered) window_seconds (check_window k grouped ordered)))
       (group_by key (somes item events))"

definition exposure_evaluate ::
  "(ExposureEvent \<Rightarrow> 'k) \<Rightarrow> (canonical_event \<Rightarrow> ExposureEvent option) \<Rightarrow> (DetectionSettings \<Rightarrow> int)
   \<Rightarrow> (DetectionSettings \<Rightarrow> 'k \<Rightarrow> ExposureEvent list \<Rightarrow> ExposureEvent list \<Rightarrow> canonical_event list \<Rightarrow> bool \<times> pydict)
   \<Rightarrow> (DetectionContext \<Rightarrow> 'k \<Rightarrow> ExposureEvent list \<Rightarrow> ExposureEvent list \<Rightarrow> pydict \<Rightarrow> string + DetectionSignal)
   \<Rightarrow> canonical_event list \<Rightarrow> DetectionContext \<Rightarrow> string + DetectionSignal list" where
  "exposure_evaluate key item window_seconds check_window emit events ctx =
     bind_err (scan_items (ctx_analysis_started_at ctx) key item (window_seconds (ctx_settings ctx))
         (check_window (ctx_settings ctx)) (emit ctx) events)
       (\<lambda>signals. Inr (sort_signals signals))"

definition source_destination_service :: "ExposureEvent \<Rightarrow> string \<times> string \<times> string" where
  "source_destination_service item = (x_source_ip item, x_destination_ip item, x_service item)"

definition destination_service :: "ExposureEvent \<Rightarrow> string \<times> string" where
  "destination_service item = (x_destination_ip item, x_service item)"

text \<open>\<open>if item is not None and ...: groups[...].append(item)\<close>.\<close>

definition item_when ::
  "(canonical_event \<Rightarrow> ExposureEvent \<Rightarrow> bool) \<Rightarrow> (int option \<Rightarrow> string option) \<Rightarrow> canonical_event
     \<Rightarrow> ExposureEvent option" where
  "item_when condition service_classifier e =
     (case exposure_event e service_classifier of
        Some item \<Rightarrow> if condition e item then Some item else None
      | None \<Rightarrow> None)"

definition first_service :: "ExposureEvent list \<Rightarrow> string" where
  "first_service grouped = (case grouped of [] \<Rightarrow> [] | item # rest \<Rightarrow> x_service item)"

definition distinct_item_sources :: "ExposureEvent list \<Rightarrow> nat" where
  "distinct_item_sources items = length (remdups (map x_source_ip items))"

definition distinct_event_sources :: "canonical_event list \<Rightarrow> nat" where
  "distinct_event_sources events = length (remdups (somes (\<lambda>e. truthy_value (e_src_ip e)) events))"

definition wan_events :: "canonical_event list \<Rightarrow> nat" where
  "wan_events events = count_if (\<lambda>e. is_explicit_wan_zone (e_inbound_zone e)) events"

section \<open>Inbound sensitive service allowed\<close>

definition inbound_sensitive_metadata :: DetectionRuleMetadata where
  "inbound_sensitive_metadata =
     \<lparr>md_rule_id = ''inbound_sensitive_service_allowed'', md_version = ''1.0.0'',
      md_name = ''Inbound Sensitive Service Allowed'', md_family = ''firewall_exposure'',
      md_priority = 48, md_supported_event_types = [],
      md_required_fields = [''src_ip'', ''protocol'', ''action''],
      md_signal_type = ''inbound_sensitive_service_allowed'', md_signal_variants = [],
      md_default_severity = ''medium'', md_mitre_techniques = [],
      md_window_setting = Some ''INBOUND_EXPOSURE_WINDOW_SECONDS'',
      md_minimum_events_setting = Some ''INBOUND_SENSITIVE_MIN_ALLOWED_EVENTS''\<rparr>"

definition inbound_sensitive_item :: "canonical_event \<Rightarrow> ExposureEvent option" where
  "inbound_sensitive_item =
     item_when (\<lambda>e item. is_allowed e \<and> has_external_inbound_evidence e) sensitive_service_for_port"

definition inbound_sensitive_check ::
  "DetectionSettings \<Rightarrow> string \<times> string \<times> string \<Rightarrow> ExposureEvent list \<Rightarrow> ExposureEvent list
     \<Rightarrow> canonical_event list \<Rightarrow> bool \<times> pydict" where
  "inbound_sensitive_check st = (\<lambda>(source_ip, destination_ip, service) grouped ordered window.
     (let destinations = remdups (somes effective_destination_ip window)
      in if length window < INBOUND_SENSITIVE_MIN_ALLOWED_EVENTS st then (False, [])
         else if length destinations < INBOUND_SENSITIVE_MIN_DISTINCT_DESTINATIONS st then (False, [])
         else (True, [(''event_count'', PInt (int (length window))),
            (''service'', PStr service),
            (''destination_ports'', PStr (item_ports (window_items ordered window))),
            (''effective_destination'', PStr destination_ip),
            (''explicit_wan_events'', PInt (int (wan_events window))),
            (''destination_translation_events'', PInt (int (count_if has_destination_translation window))),
            (''allowed_events'', PInt (int (count_if is_allowed window)))])))"

definition inbound_sensitive_emit ::
  "DetectionContext \<Rightarrow> string \<times> string \<times> string \<Rightarrow> ExposureEvent list \<Rightarrow> ExposureEvent list
     \<Rightarrow> pydict \<Rightarrow> string + DetectionSignal" where
  "inbound_sensitive_emit ctx = (\<lambda>(source_ip, destination_ip, service) grouped match_items metrics.
     exposure_signal inbound_sensitive_metadata match_items ctx source_ip
       (destination_ip @ ''_'' @ service) [destination_ip] metrics
       (INBOUND_SENSITIVE_MIN_ALLOWED_EVENTS (ctx_settings ctx))
       ''Repeated allowed inbound access to a sensitive service''
       [''network'', ''firewall'', ''exposure'', service])"

definition inbound_sensitive_evaluate ::
  "canonical_event list \<Rightarrow> DetectionContext \<Rightarrow> string + DetectionSignal list" where
  "inbound_sensitive_evaluate = exposure_evaluate source_destination_service inbound_sensitive_item
     INBOUND_EXPOSURE_WINDOW_SECONDS inbound_sensitive_check inbound_sensitive_emit"

definition InboundSensitiveServiceAllowedRule :: BaseDetectionRule where
  "InboundSensitiveServiceAllowedRule = \<lparr>rule_class = ''InboundSensitiveServiceAllowedRule'',
     metadata = inbound_sensitive_metadata, evaluate = inbound_sensitive_evaluate\<rparr>"

section \<open>Critical management service exposed\<close>

definition critical_management_metadata :: DetectionRuleMetadata where
  "critical_management_metadata =
     \<lparr>md_rule_id = ''critical_management_service_exposed'', md_version = ''1.0.0'',
      md_name = ''Critical Management Service Exposed'', md_family = ''firewall_exposure'',
      md_priority = 41, md_supported_event_types = [],
      md_required_fields = [''src_ip'', ''protocol'', ''action''],
      md_signal_type = ''critical_management_service_exposed'', md_signal_variants = [],
      md_default_severity = ''high'', md_mitre_techniques = [],
      md_window_setting = Some ''INBOUND_EXPOSURE_WINDOW_SECONDS'',
      md_minimum_events_setting = Some ''CRITICAL_MANAGEMENT_EXPOSURE_MIN_EVENTS''\<rparr>"

definition critical_management_item :: "canonical_event \<Rightarrow> ExposureEvent option" where
  "critical_management_item =
     item_when (\<lambda>e item. is_allowed e \<and> is_critical_management_port (Some (x_destination_port item)) \<and>
       (is_explicit_wan_zone (e_inbound_zone e) \<or> has_private_destination_translation e) \<and>
       \<not> internal_traffic e) sensitive_service_for_port"

definition source_destination_port :: "ExposureEvent \<Rightarrow> string \<times> string \<times> int" where
  "source_destination_port item = (x_source_ip item, x_destination_ip item, x_destination_port item)"

text \<open>A window is never empty: the scan offers it with the event it has just added.\<close>

definition critical_management_check ::
  "DetectionSettings \<Rightarrow> string \<times> string \<times> int \<Rightarrow> ExposureEvent list \<Rightarrow> ExposureEvent list
     \<Rightarrow> canonical_event list \<Rightarrow> bool \<times> pydict" where
  "critical_management_check st = (\<lambda>(source_ip, destination_ip, destination_port) grouped ordered window.
     (if length window < CRITICAL_MANAGEMENT_EXPOSURE_MIN_EVENTS st then (False, [])
      else case window of [] \<Rightarrow> (False, [])
        | first_event # rest \<Rightarrow> (True, [(''service'', PStr (first_service grouped)),
            (''destination_port'', PInt destination_port),
            (''effective_destination'', PStr destination_ip),
            (''inbound_zone'', PStr (bounded_zone (e_inbound_zone first_event))),
            (''destination_translation'', PBool (\<exists>e \<in> set window. has_destination_translation e)),
            (''source_ip'', PStr source_ip)])))"

definition critical_management_emit ::
  "DetectionContext \<Rightarrow> string \<times> string \<times> int \<Rightarrow> ExposureEvent list \<Rightarrow> ExposureEvent list
     \<Rightarrow> pydict \<Rightarrow> string + DetectionSignal" where
  "critical_management_emit ctx = (\<lambda>(source_ip, destination_ip, destination_port) grouped match_items metrics.
     exposure_signal critical_management_metadata match_items ctx source_ip
       (destination_ip @ ''_'' @ str_of_int destination_port) [destination_ip] metrics
       (CRITICAL_MANAGEMENT_EXPOSURE_MIN_EVENTS (ctx_settings ctx))
       ''Allowed inbound access to a critical management service''
       [''network'', ''firewall'', ''critical_exposure'', first_service grouped])"

definition critical_management_evaluate ::
  "canonical_event list \<Rightarrow> DetectionContext \<Rightarrow> string + DetectionSignal list" where
  "critical_management_evaluate = exposure_evaluate source_destination_port critical_management_item
     INBOUND_EXPOSURE_WINDOW_SECONDS critical_management_check critical_management_emit"

definition CriticalManagementServiceExposedRule :: BaseDetectionRule where
  "CriticalManagementServiceExposedRule = \<lparr>rule_class = ''CriticalManagementServiceExposedRule'',
     metadata = critical_management_metadata, evaluate = critical_management_evaluate\<rparr>"

section \<open>Destination translation to a sensitive service\<close>

definition dnat_metadata :: DetectionRuleMetadata where
  "dnat_metadata =
     \<lparr>md_rule_id = ''dnat_sensitive_service_exposure'', md_version = ''1.0.0'',
      md_name = ''DNAT Sensitive Service Exposure'', md_family = ''firewall_exposure'',
      md_priority = 44, md_supported_event_types = [],
      md_required_fields = [''src_ip'', ''protocol'', ''action''],
      md_signal_type = ''dnat_sensitive_service_exposure'', md_signal_variants = [],
      md_default_severity = ''high'', md_mitre_techniques = [],
      md_window_setting = Some ''INBOUND_EXPOSURE_WINDOW_SECONDS'',
      md_minimum_events_setting = None\<rparr>"

definition dnat_item :: "canonical_event \<Rightarrow> ExposureEvent option" where
  "dnat_item =
     item_when (\<lambda>e item. is_allowed e \<and> has_private_destination_translation e \<and>
       (is_public_source e \<or> is_explicit_wan_zone (e_inbound_zone e)) \<and>
       \<not> internal_traffic e) sensitive_service_for_port"

definition destination_port_key :: "ExposureEvent \<Rightarrow> string \<times> int" where
  "destination_port_key item = (x_destination_ip item, x_destination_port item)"

definition dnat_check ::
  "DetectionSettings \<Rightarrow> string \<times> int \<Rightarrow> ExposureEvent list \<Rightarrow> ExposureEvent list
     \<Rightarrow> canonical_event list \<Rightarrow> bool \<times> pydict" where
  "dnat_check st = (\<lambda>(destination_ip, destination_port) grouped ordered window.
     (case window of [] \<Rightarrow> (False, [])
        | first_event # rest \<Rightarrow> (True, [
            (''original_destination'', PStr (case parse_ip_address (e_dst_ip first_event) of
               Some a \<Rightarrow> ip_text a | None \<Rightarrow> ''unknown'')),
            (''original_destination_port'', PInt (port_value first_event)),
            (''translated_destination'', PStr destination_ip),
            (''translated_destination_port'', PInt destination_port),
            (''service'', PStr (first_service grouped)),
            (''event_count'', PInt (int (length window))),
            (''distinct_sources'', PInt (int (distinct_event_sources window)))])))"

definition dnat_emit ::
  "DetectionContext \<Rightarrow> string \<times> int \<Rightarrow> ExposureEvent list \<Rightarrow> ExposureEvent list
     \<Rightarrow> pydict \<Rightarrow> string + DetectionSignal" where
  "dnat_emit ctx = (\<lambda>(destination_ip, destination_port) grouped match_items metrics.
     exposure_signal dnat_metadata match_items ctx destination_ip
       (''dnat_'' @ str_of_int destination_port) (map x_source_ip match_items) metrics 1
       ''Allowed destination translation to a sensitive service''
       [''network'', ''firewall'', ''dnat'', first_service grouped])"

definition dnat_evaluate ::
  "canonical_event list \<Rightarrow> DetectionContext \<Rightarrow> string + DetectionSignal list" where
  "dnat_evaluate = exposure_evaluate destination_port_key dnat_item
     INBOUND_EXPOSURE_WINDOW_SECONDS dnat_check dnat_emit"

definition DnatSensitiveServiceExposureRule :: BaseDetectionRule where
  "DnatSensitiveServiceExposureRule = \<lparr>rule_class = ''DnatSensitiveServiceExposureRule'',
     metadata = dnat_metadata, evaluate = dnat_evaluate\<rparr>"

section \<open>Between zones\<close>

definition wan_lan_metadata :: DetectionRuleMetadata where
  "wan_lan_metadata =
     \<lparr>md_rule_id = ''wan_to_lan_sensitive_service_allowed'', md_version = ''1.0.0'',
      md_name = ''WAN-to-LAN Sensitive Service Allowed'', md_family = ''firewall_policy'',
      md_priority = 45, md_supported_event_types = [],
      md_required_fields = [''src_ip'', ''protocol'', ''action'', ''inbound_zone''],
      md_signal_type = ''wan_to_lan_sensitive_service_allowed'', md_signal_variants = [],
      md_default_severity = ''high'', md_mitre_techniques = [],
      md_window_setting = Some ''INBOUND_EXPOSURE_WINDOW_SECONDS'',
      md_minimum_events_setting = Some ''WAN_TO_LAN_MIN_ALLOWED_EVENTS''\<rparr>"

definition wan_dmz_metadata :: DetectionRuleMetadata where
  "wan_dmz_metadata =
     \<lparr>md_rule_id = ''wan_to_dmz_administrative_service_allowed'', md_version = ''1.0.0'',
      md_name = ''WAN-to-DMZ Administrative Service Allowed'', md_family = ''firewall_policy'',
      md_priority = 47, md_supported_event_types = [],
      md_required_fields = [''src_ip'', ''protocol'', ''action'', ''inbound_zone'', ''outbound_zone''],
      md_signal_type = ''wan_to_dmz_administrative_service_allowed'', md_signal_variants = [],
      md_default_severity = ''medium'', md_mitre_techniques = [],
      md_window_setting = Some ''INBOUND_EXPOSURE_WINDOW_SECONDS'',
      md_minimum_events_setting = Some ''WAN_TO_DMZ_ADMIN_MIN_ALLOWED_EVENTS''\<rparr>"

definition wan_lan_item :: "canonical_event \<Rightarrow> ExposureEvent option" where
  "wan_lan_item =
     item_when (\<lambda>e item. is_allowed e \<and> is_explicit_wan_zone (e_inbound_zone e) \<and>
       (is_explicit_lan_zone (e_outbound_zone e) \<or>
        (\<not> truthy (e_outbound_zone e) \<and> derive_flow_direction e = ''inbound'')) \<and>
       \<not> internal_traffic e) sensitive_service_for_port"

definition wan_dmz_item :: "canonical_event \<Rightarrow> ExposureEvent option" where
  "wan_dmz_item =
     item_when (\<lambda>e item. is_allowed e \<and> is_explicit_wan_zone (e_inbound_zone e) \<and>
       is_explicit_dmz_zone (e_outbound_zone e) \<and>
       \<not> internal_traffic e) administrative_service_for_port"

text \<open>The two conditions record the same facts, in another order.\<close>

definition wan_lan_check ::
  "DetectionSettings \<Rightarrow> string \<times> string \<Rightarrow> ExposureEvent list \<Rightarrow> ExposureEvent list
     \<Rightarrow> canonical_event list \<Rightarrow> bool \<times> pydict" where
  "wan_lan_check st = (\<lambda>(destination_ip, service) grouped ordered window.
     (if length window < WAN_TO_LAN_MIN_ALLOWED_EVENTS st then (False, [])
      else case window of [] \<Rightarrow> (False, [])
        | first_event # rest \<Rightarrow> (let items = window_items ordered window in
           (True, [(''event_count'', PInt (int (length window))),
            (''inbound_zone'', PStr (bounded_zone (e_inbound_zone first_event))),
            (''outbound_zone'', PStr (bounded_zone (e_outbound_zone first_event))),
            (''service'', PStr service),
            (''effective_destination'', PStr destination_ip),
            (''destination_ports'', PStr (item_ports items)),
            (''distinct_sources'', PInt (int (distinct_item_sources items)))]))))"

definition wan_lan_emit ::
  "DetectionContext \<Rightarrow> string \<times> string \<Rightarrow> ExposureEvent list \<Rightarrow> ExposureEvent list
     \<Rightarrow> pydict \<Rightarrow> string + DetectionSignal" where
  "wan_lan_emit ctx = (\<lambda>(destination_ip, service) grouped match_items metrics.
     exposure_signal wan_lan_metadata match_items ctx destination_ip (''wan_lan_'' @ service)
       (map x_source_ip match_items) metrics (WAN_TO_LAN_MIN_ALLOWED_EVENTS (ctx_settings ctx))
       ''Allowed WAN-to-LAN access to a sensitive service''
       [''network'', ''firewall'', ''wan_to_lan'', service])"

definition wan_lan_evaluate ::
  "canonical_event list \<Rightarrow> DetectionContext \<Rightarrow> string + DetectionSignal list" where
  "wan_lan_evaluate = exposure_evaluate destination_service wan_lan_item
     INBOUND_EXPOSURE_WINDOW_SECONDS wan_lan_check wan_lan_emit"

definition wan_dmz_check ::
  "DetectionSettings \<Rightarrow> string \<times> string \<Rightarrow> ExposureEvent list \<Rightarrow> ExposureEvent list
     \<Rightarrow> canonical_event list \<Rightarrow> bool \<times> pydict" where
  "wan_dmz_check st = (\<lambda>(destination_ip, service) grouped ordered window.
     (if length window < WAN_TO_DMZ_ADMIN_MIN_ALLOWED_EVENTS st then (False, [])
      else case window of [] \<Rightarrow> (False, [])
        | first_event # rest \<Rightarrow> (let items = window_items ordered window in
           (True, [(''event_count'', PInt (int (length window))),
            (''inbound_zone'', PStr (bounded_zone (e_inbound_zone first_event))),
            (''outbound_zone'', PStr (bounded_zone (e_outbound_zone first_event))),
            (''service'', PStr service),
            (''destination_ports'', PStr (item_ports items)),
            (''effective_destination'', PStr destination_ip),
            (''distinct_sources'', PInt (int (distinct_item_sources items)))]))))"

definition wan_dmz_emit ::
  "DetectionContext \<Rightarrow> string \<times> string \<Rightarrow> ExposureEvent list \<Rightarrow> ExposureEvent list
     \<Rightarrow> pydict \<Rightarrow> string + DetectionSignal" where
  "wan_dmz_emit ctx = (\<lambda>(destination_ip, service) grouped match_items metrics.
     exposure_signal wan_dmz_metadata match_items ctx destination_ip (''wan_dmz_'' @ service)
       (map x_source_ip match_items) metrics (WAN_TO_DMZ_ADMIN_MIN_ALLOWED_EVENTS (ctx_settings ctx))
       ''Allowed WAN-to-DMZ access to an administrative service''
       [''network'', ''firewall'', ''wan_to_dmz'', service])"

definition wan_dmz_evaluate ::
  "canonical_event list \<Rightarrow> DetectionContext \<Rightarrow> string + DetectionSignal list" where
  "wan_dmz_evaluate = exposure_evaluate destination_service wan_dmz_item
     INBOUND_EXPOSURE_WINDOW_SECONDS wan_dmz_check wan_dmz_emit"

definition WanToLanSensitiveServiceAllowedRule :: BaseDetectionRule where
  "WanToLanSensitiveServiceAllowedRule = \<lparr>rule_class = ''WanToLanSensitiveServiceAllowedRule'',
     metadata = wan_lan_metadata, evaluate = wan_lan_evaluate\<rparr>"

definition WanToDmzAdministrativeServiceAllowedRule :: BaseDetectionRule where
  "WanToDmzAdministrativeServiceAllowedRule = \<lparr>rule_class = ''WanToDmzAdministrativeServiceAllowedRule'',
     metadata = wan_dmz_metadata, evaluate = wan_dmz_evaluate\<rparr>"

section \<open>Several public sources\<close>

definition multi_source_metadata :: DetectionRuleMetadata where
  "multi_source_metadata =
     \<lparr>md_rule_id = ''multi_source_allowed_sensitive_service'', md_version = ''1.0.0'',
      md_name = ''Multi-Source Allowed Sensitive Service Access'', md_family = ''firewall_exposure'',
      md_priority = 46, md_supported_event_types = [],
      md_required_fields = [''src_ip'', ''protocol'', ''action''],
      md_signal_type = ''multi_source_allowed_sensitive_service'', md_signal_variants = [],
      md_default_severity = ''high'', md_mitre_techniques = [],
      md_window_setting = Some ''MULTI_SOURCE_SENSITIVE_WINDOW_SECONDS'',
      md_minimum_events_setting = Some ''MULTI_SOURCE_SENSITIVE_MIN_EVENTS''\<rparr>"

definition multi_source_item :: "canonical_event \<Rightarrow> ExposureEvent option" where
  "multi_source_item =
     item_when (\<lambda>e item. is_allowed e \<and> is_public_source e \<and> is_private_effective_destination e)
       sensitive_service_for_port"

definition multi_source_check ::
  "DetectionSettings \<Rightarrow> string \<times> string \<Rightarrow> ExposureEvent list \<Rightarrow> ExposureEvent list
     \<Rightarrow> canonical_event list \<Rightarrow> bool \<times> pydict" where
  "multi_source_check st = (\<lambda>(destination_ip, service) grouped ordered window.
     (if length window < MULTI_SOURCE_SENSITIVE_MIN_EVENTS st then (False, [])
      else if distinct_event_sources window < MULTI_SOURCE_SENSITIVE_MIN_DISTINCT_SOURCES st then (False, [])
      else (True, [(''event_count'', PInt (int (length window))),
            (''distinct_sources'', PInt (int (distinct_event_sources window))),
            (''service'', PStr service),
            (''destination_ports'', PStr (item_ports (window_items ordered window))),
            (''effective_destination'', PStr destination_ip),
            (''explicit_wan_events'', PInt (int (wan_events window))),
            (''destination_translation_events'', PInt (int (count_if has_destination_translation window)))])))"

definition multi_source_emit ::
  "DetectionContext \<Rightarrow> string \<times> string \<Rightarrow> ExposureEvent list \<Rightarrow> ExposureEvent list
     \<Rightarrow> pydict \<Rightarrow> string + DetectionSignal" where
  "multi_source_emit ctx = (\<lambda>(destination_ip, service) grouped match_items metrics.
     exposure_signal multi_source_metadata match_items ctx destination_ip (''multi_source_'' @ service)
       (map x_source_ip match_items) metrics (MULTI_SOURCE_SENSITIVE_MIN_EVENTS (ctx_settings ctx))
       ''Allowed sensitive-service access from multiple public sources''
       [''network'', ''firewall'', ''multi_source'', service])"

definition multi_source_evaluate ::
  "canonical_event list \<Rightarrow> DetectionContext \<Rightarrow> string + DetectionSignal list" where
  "multi_source_evaluate = exposure_evaluate destination_service multi_source_item
     MULTI_SOURCE_SENSITIVE_WINDOW_SECONDS multi_source_check multi_source_emit"

definition MultiSourceAllowedSensitiveServiceRule :: BaseDetectionRule where
  "MultiSourceAllowedSensitiveServiceRule = \<lparr>rule_class = ''MultiSourceAllowedSensitiveServiceRule'',
     metadata = multi_source_metadata, evaluate = multi_source_evaluate\<rparr>"

section \<open>Blocks followed by an allowed connection to the same service\<close>

definition blocked_allowed_metadata :: DetectionRuleMetadata where
  "blocked_allowed_metadata =
     \<lparr>md_rule_id = ''blocked_then_allowed_same_service'', md_version = ''1.0.0'',
      md_name = ''Repeated Blocks Followed by Allowed Same Service'', md_family = ''network_intrusion_candidate'',
      md_priority = 43, md_supported_event_types = [],
      md_required_fields = [''src_ip'', ''protocol'', ''action''],
      md_signal_type = ''blocked_then_allowed_same_service'', md_signal_variants = [],
      md_default_severity = ''high'', md_mitre_techniques = [''T1046''],
      md_window_setting = Some ''BLOCKED_THEN_ALLOWED_WINDOW_SECONDS'',
      md_minimum_events_setting = Some ''BLOCKED_THEN_ALLOWED_MIN_BLOCKED_EVENTS''\<rparr>"

definition blocked_allowed_item :: "canonical_event \<Rightarrow> ExposureEvent option" where
  "blocked_allowed_item =
     item_when (\<lambda>e item. is_allowed e \<or> is_blocked e) service_or_exact_port"

definition blocked_allowed_earlier :: "DetectionSettings \<Rightarrow> ExposureEvent \<Rightarrow> ExposureEvent \<Rightarrow> bool" where
  "blocked_allowed_earlier st allowed_item item =
     (is_blocked (x_event item) \<and>
      \<not> is_spi_anomaly_event (x_event item) (SPI_ANOMALY_FALLBACK_RAW_MATCH st) \<and>
      (x_destination_port item = x_destination_port allowed_item \<or> x_service item = x_service allowed_item) \<and>
      precedes_within (BLOCKED_THEN_ALLOWED_WINDOW_SECONDS st) (x_event allowed_item) (x_event item))"

definition blocked_allowed_emit ::
  "DetectionContext \<Rightarrow> string \<times> string \<times> string \<Rightarrow> ExposureEvent list \<Rightarrow> ExposureEvent
     \<Rightarrow> string + DetectionSignal" where
  "blocked_allowed_emit ctx = (\<lambda>(source_ip, destination_ip, service) blocked_items allowed_item.
     (let started = ctx_analysis_started_at ctx; blocked_events = map x_event blocked_items;
          allowed = x_event allowed_item;
          minimum = BLOCKED_THEN_ALLOWED_MIN_BLOCKED_EVENTS (ctx_settings ctx);
          match_items = blocked_items @ [allowed_item];
          metrics = [(''blocked_event_count'', PInt (int (length blocked_items))),
            (''allowed_event_id'', PStr (e_event_id allowed)),
            (''effective_destination'', PStr destination_ip),
            (''destination_port'', PInt (x_destination_port allowed_item)),
            (''service'', PStr service),
            (''time_to_allowed_seconds'', PFloat (time_to_allowed started blocked_events allowed))]
      in sequence_signal blocked_allowed_metadata started blocked_events allowed metrics
           (with_sources match_items metrics) source_ip
           (destination_ip @ ''_'' @ service @ ''_'' @ str_of_int (x_destination_port allowed_item))
           ''Representative blocked attempts before an allowed service connection''
           ''Allowed connection after repeated blocks to the same service''
           (exposure_confidence blocked_allowed_metadata (length match_items) minimum)
           (bounded_sorted_values [destination_ip] 20)
           [''network'', ''firewall'', ''sequence'', service]))"

definition blocked_allowed_evaluate ::
  "canonical_event list \<Rightarrow> DetectionContext \<Rightarrow> string + DetectionSignal list" where
  "blocked_allowed_evaluate events ctx =
     (let st = ctx_settings ctx in
      bind_err (concat_err (\<lambda>(k, grouped).
          concat_err (\<lambda>(before, allowed_item).
              let blocked_items = filter (blocked_allowed_earlier st allowed_item) before
              in if timed_allowed (x_event allowed_item) \<and>
                    BLOCKED_THEN_ALLOWED_MIN_BLOCKED_EVENTS st \<le> length blocked_items
                 then map_err (blocked_allowed_emit ctx k blocked_items) [allowed_item] else Inr [])
            (sequence_points (ordered_items (ctx_analysis_started_at ctx) grouped)))
          (group_by source_destination_service (somes blocked_allowed_item events)))
        (\<lambda>signals. Inr (sort_signals signals)))"

definition BlockedThenAllowedSameServiceRule :: BaseDetectionRule where
  "BlockedThenAllowedSameServiceRule = \<lparr>rule_class = ''BlockedThenAllowedSameServiceRule'',
     metadata = blocked_allowed_metadata, evaluate = blocked_allowed_evaluate\<rparr>"

section \<open>Facts about items\<close>

lemma exposure_event_Some:
  assumes "exposure_event e cls = Some item"
  shows "x_event item = e" and "py_strip (x_source_ip item) \<noteq> []" and "py_strip (x_destination_ip item) \<noteq> []"
    and "cls (effective_destination_port e) = Some (x_service item)"
  using assms by (auto simp: exposure_event_def Let_def ip_text_visible split: option.splits if_splits)

text \<open>The names of services, which no rule uses as a tag of its own.\<close>

definition known_service :: "string \<Rightarrow> bool" where
  "known_service s = (s \<in> set (map snd PORT_TO_SERVICE) \<or> s = ''web_admin'' \<or> take 4 s = ''tcp_'')"

definition exposure_tags :: "string list" where
  "exposure_tags = [''network'', ''firewall'', ''exposure'', ''critical_exposure'', ''dnat'', ''wan_to_lan'',
     ''wan_to_dmz'', ''multi_source'', ''sequence'']"

lemma classified_known: "classify_service p = Some s \<Longrightarrow> known_service s"
  by (auto simp: classify_service_def known_service_def dest!: map_of_SomeD split: option.splits)
     (metis image_eqI snd_conv)

lemma known_services:
  "sensitive_service_for_port p = Some s \<Longrightarrow> known_service s"
  "administrative_service_for_port p = Some s \<Longrightarrow> known_service s"
  "service_or_exact_port p = Some s \<Longrightarrow> known_service s"
proof -
  show sens: "known_service s" if "sensitive_service_for_port p = Some s"
    using that by (auto simp: sensitive_service_for_port_def classified_known split: option.splits if_splits)
  show "known_service s" if "administrative_service_for_port p = Some s"
    using that sens
    by (auto simp: administrative_service_for_port_def known_service_def split: option.splits if_splits)
  show "known_service s" if "service_or_exact_port p = Some s"
    using that classified_known
    by (auto simp: service_or_exact_port_def known_service_def split: option.splits if_splits)
qed

lemma known_service_no_tag: "known_service s \<Longrightarrow> s \<notin> set exposure_tags"
proof -
  have "\<forall>tag \<in> set exposure_tags. \<not> known_service tag" by code_simp
  then show "known_service s \<Longrightarrow> s \<notin> set exposure_tags" by blast
qed

text \<open>An item carries the event it was made from, addresses that can be shown and a known
  service.\<close>

definition sound_item :: "(canonical_event \<Rightarrow> ExposureEvent option) \<Rightarrow> bool" where
  "sound_item item = (\<forall>e it. item e = Some it \<longrightarrow> x_event it = e \<and> py_strip (x_source_ip it) \<noteq> [] \<and>
     py_strip (x_destination_ip it) \<noteq> [] \<and> known_service (x_service it))"

lemma sound_item_when:
  assumes "\<And>p s. cls p = Some s \<Longrightarrow> known_service s"
  shows "sound_item (item_when cond cls)"
  using assms exposure_event_Some
  by (auto simp: sound_item_def item_when_def split: option.splits if_splits)

lemma sound_items:
  "sound_item inbound_sensitive_item" "sound_item critical_management_item" "sound_item dnat_item"
  "sound_item wan_lan_item" "sound_item wan_dmz_item" "sound_item multi_source_item"
  "sound_item blocked_allowed_item"
  unfolding inbound_sensitive_item_def critical_management_item_def dnat_item_def wan_lan_item_def
    wan_dmz_item_def multi_source_item_def blocked_allowed_item_def
  by (rule sound_item_when, erule known_services)+

section \<open>Groups and windows of items\<close>

lemma map_insort_key: "map g (insort_key (\<lambda>x. f (g x)) x xs) = insort_key f (g x) (map g xs)"
  by (induction xs) auto

lemma map_sort_key: "map g (sort_key (\<lambda>x. f (g x)) xs) = sort_key f (map g xs)"
  by (induction xs) (auto simp: map_insort_key)

lemma events_of_ordered_items: "map x_event (ordered_items fb items) = ordered_events fb (map x_event items)"
  unfolding ordered_items_def ordered_events_def by (rule map_sort_key)

lemma set_ordered_items [simp]: "set (ordered_items fb items) = set items"
  by (simp add: ordered_items_def)

lemma events_of_group:
  assumes "sound_item item"
  shows "map x_event (filter q (somes item es)) = filter (\<lambda>e. case item e of None \<Rightarrow> False | Some it \<Rightarrow> q it) es"
  using assms
  by (induction es) (auto simp: somes_def List.map_filter_simps sound_item_def split: option.splits)

text \<open>What is known of the items of a group.\<close>

definition group_items ::
  "canonical_event list \<Rightarrow> (canonical_event \<Rightarrow> ExposureEvent option) \<Rightarrow> (ExposureEvent \<Rightarrow> 'k) \<Rightarrow> 'k
     \<Rightarrow> ExposureEvent list \<Rightarrow> bool" where
  "group_items es item key k items = (\<forall>it \<in> set items.
     item (x_event it) = Some it \<and> key it = k \<and> x_event it \<in> set es)"

lemma group_items_facts:
  assumes "sound_item item" and "group_items es item key k items" and "it \<in> set items"
  shows "py_strip (x_source_ip it) \<noteq> []" and "py_strip (x_destination_ip it) \<noteq> []"
    and "x_service it \<notin> set exposure_tags" and "key it = k"
  using assms known_service_no_tag unfolding sound_item_def group_items_def by blast+

lemma group_items_subset: "group_items es item key k items \<Longrightarrow> set its \<subseteq> set items \<Longrightarrow> group_items es item key k its"
  by (auto simp: group_items_def)

lemma item_group:
  assumes "rule_input es" and "sound_item item" and "(k, grouped) \<in> set (group_by key (somes item es))"
  shows "rule_input (map x_event (ordered_items fb grouped))" and "grouped \<noteq> []"
    and "group_items es item key k grouped"
proof -
  have g: "grouped = filter (\<lambda>it. key it = k) (somes item es)"
    by (rule group_by_member(1) [OF assms(3)])
  show "rule_input (map x_event (ordered_items fb grouped))"
    unfolding events_of_ordered_items g events_of_group [OF assms(2)]
    by (intro rule_input_ordered rule_input_filter assms(1))
  show "grouped \<noteq> []" by (rule group_by_member(2) [OF assms(3)])
  show "group_items es item key k grouped"
    using assms(2) by (auto simp: group_items_def g set_somes sound_item_def)
qed

lemma filter_subseq_ids:
  "subseq ws xs \<Longrightarrow> distinct (map f xs) \<Longrightarrow> filter (\<lambda>x. f x \<in> f ` set ws) xs = ws"
proof (induction rule: list_emb.induct)
  case (list_emb_Cons xs ys y)
  then have "f y \<notin> f ` set xs" using subseq_set by fastforce
  with list_emb_Cons show ?case by simp
next
  case (list_emb_Cons2 x y xs ys)
  then have "x = y" and "f y \<notin> f ` set ys" by auto
  moreover from this have "filter (\<lambda>z. f z \<in> f ` set (x # xs)) ys = filter (\<lambda>z. f z \<in> f ` set xs) ys"
    by (auto intro!: filter_cong) (metis imageI)
  ultimately show ?case using list_emb_Cons2 by simp
qed simp

lemma events_of_window_items:
  assumes "subseq win (map x_event ordered)" and "rule_input (map x_event ordered)"
  shows "map x_event (window_items ordered win) = win"
proof -
  have "map x_event (window_items ordered win) =
      filter (\<lambda>e. e_event_id e \<in> e_event_id ` set win) (map x_event ordered)"
    by (simp add: window_items_def filter_map comp_def)
  also have "\<dots> = win"
    by (rule filter_subseq_ids [OF assms(1)]) (use assms(2) in \<open>simp add: rule_input_def\<close>)
  finally show ?thesis .
qed

lemma scan_items_sound:
  assumes "rule_input es" and "sound_item item" and "0 \<le> w"
    and emit: "\<And>k grouped items mc. rule_input (map x_event items) \<Longrightarrow> items \<noteq> [] \<Longrightarrow>
      set (map x_event items) \<subseteq> set es \<Longrightarrow> group_items es item key k items \<Longrightarrow>
      group_items es item key k grouped \<Longrightarrow> grouped \<noteq> [] \<Longrightarrow>
      \<exists>s. emit k grouped items mc = Inr s \<and> P s"
  shows "\<exists>ss. scan_items fb key item w cond emit es = Inr ss \<and> (\<forall>s \<in> set ss. P s)"
proof -
  have win: "\<exists>s. emit k grouped (window_items (ordered_items fb grouped) win) mc = Inr s \<and> P s"
    if g: "(k, grouped) \<in> set (group_by key (somes item es))"
      and m: "(win, mc) \<in> set (sliding_window_scan (map x_event (ordered_items fb grouped)) w
        (cond k grouped (ordered_items fb grouped)))" for k grouped win mc
  proof -
    note grp = item_group [OF assms(1,2) g]
    have ri: "rule_input (map x_event (ordered_items fb grouped))" by (rule grp(1))
    have ord: "time_ordered (map x_event (ordered_items fb grouped))" using ri by (simp add: rule_input_def)
    note sub = sliding_window_window [OF ord m assms(3)]
    have evs: "map x_event (window_items (ordered_items fb grouped) win) = win"
      by (rule events_of_window_items [OF sub(2) ri])
    have its: "group_items es item key k (window_items (ordered_items fb grouped) win)"
      by (rule group_items_subset [OF grp(3)]) (auto simp: window_items_def)
    show ?thesis
    proof (rule emit)
      show "rule_input (map x_event (window_items (ordered_items fb grouped) win))"
        unfolding evs by (rule rule_input_subseq [OF sub(2,3) ri])
      show "window_items (ordered_items fb grouped) win \<noteq> []" using evs sub(1) by auto
      show "set (map x_event (window_items (ordered_items fb grouped) win)) \<subseteq> set es"
        using its by (auto simp: group_items_def)
    qed (rule its grp(2,3))+
  qed
  show ?thesis
    unfolding scan_items_def Let_def
    by (rule concat_err_sound, clarify, rule map_err_sound, clarify) (rule win)
qed

section \<open>The rules are sound\<close>

lemma exposure_confidence_unit: "0 \<le> exposure_confidence md n k \<and> exposure_confidence md n k \<le> 1"
  unfolding exposure_confidence_def Let_def by (intro signal_confidence_unit) auto

definition exposure_metadata :: "DetectionRuleMetadata \<Rightarrow> bool" where
  "exposure_metadata md = (sound_metadata md \<and> md_signal_variants md = [])"

lemma exposure_metadatas:
  "exposure_metadata inbound_sensitive_metadata" "exposure_metadata critical_management_metadata"
  "exposure_metadata dnat_metadata" "exposure_metadata wan_lan_metadata"
  "exposure_metadata wan_dmz_metadata" "exposure_metadata multi_source_metadata"
  "exposure_metadata blocked_allowed_metadata"
  by code_simp+

lemma exposure_signal_sound:
  assumes "rule_input (map x_event items)" and "items \<noteq> []" and "set (map x_event items) \<subseteq> set sel"
    and "exposure_metadata md" and "py_strip prim \<noteq> []" and "distinct tags"
  shows "\<exists>s. exposure_signal md items ctx prim key targets mc n reason tags = Inr s \<and>
    honours_contract md (e_event_id ` set sel) s"
  unfolding exposure_signal_def
  by (rule own_signal_sound [OF assms(1) _ assms(3) _ _ exposure_confidence_unit assms(5,6)])
     (use assms(2,4) in \<open>auto simp: exposure_metadata_def\<close>)

lemma exposure_tag_distinct:
  assumes "s \<notin> set exposure_tags" and "tag \<in> set exposure_tags" and "tag \<notin> {''network'', ''firewall''}"
  shows "distinct [''network'', ''firewall'', tag, s]"
  using assms by (auto simp: exposure_tags_def)

lemma exposure_sound:
  assumes "rule_input es" and "sound_item item" and "0 \<le> w (ctx_settings ctx)"
    and emit: "\<And>k grouped items mc. rule_input (map x_event items) \<Longrightarrow> items \<noteq> [] \<Longrightarrow>
      set (map x_event items) \<subseteq> set es \<Longrightarrow> group_items es item key k items \<Longrightarrow>
      group_items es item key k grouped \<Longrightarrow> grouped \<noteq> [] \<Longrightarrow>
      \<exists>s. emit ctx k grouped items mc = Inr s \<and> P s"
  shows "\<exists>ss. exposure_evaluate key item w cond emit es ctx = Inr ss \<and> (\<forall>s \<in> set ss. P s)"
  unfolding exposure_evaluate_def
  by (rule sort_signals_sound, rule scan_items_sound [OF assms(1-3)]) (rule emit)

lemma exposure_windows:
  assumes "usable_settings st"
  shows "0 \<le> INBOUND_EXPOSURE_WINDOW_SECONDS st" and "0 \<le> MULTI_SOURCE_SENSITIVE_WINDOW_SECONDS st"
  using assms by (auto intro!: usable_window simp: positive_seconds_def)

text \<open>The primary entity and the last tag of every emission come from an item of the group.\<close>

lemma first_item:
  assumes "items \<noteq> []" and "sound_item item" and "group_items es item key k items"
  shows "key (hd items) = k" and "py_strip (x_source_ip (hd items)) \<noteq> []"
    and "py_strip (x_destination_ip (hd items)) \<noteq> []" and "x_service (hd items) \<notin> set exposure_tags"
    and "first_service items = x_service (hd items)"
  using group_items_facts [OF assms(2,3) hd_in_set [OF assms(1)]] assms(1)
  by (auto simp: first_service_def split: list.splits)

lemma inbound_sensitive_sound:
  assumes "rule_input es" and "usable_settings (ctx_settings ctx)"
  shows "\<exists>ss. inbound_sensitive_evaluate es ctx = Inr ss \<and>
    (\<forall>s \<in> set ss. honours_contract inbound_sensitive_metadata (e_event_id ` set es) s)"
  unfolding inbound_sensitive_evaluate_def
proof (rule exposure_sound [where w = INBOUND_EXPOSURE_WINDOW_SECONDS, OF assms(1) sound_items(1) exposure_windows(1) [OF assms(2)]])
  fix k grouped items mc
  assume its: "rule_input (map x_event items)" "items \<noteq> []" "set (map x_event items) \<subseteq> set es"
    and g: "group_items es inbound_sensitive_item source_destination_service k items"
      "group_items es inbound_sensitive_item source_destination_service k grouped" "grouped \<noteq> []"
  note facts = first_item [OF its(2) sound_items(1) g(1)] first_item [OF g(3) sound_items(1) g(2)]
  show "\<exists>s. inbound_sensitive_emit ctx k grouped items mc = Inr s \<and>
      honours_contract inbound_sensitive_metadata (e_event_id ` set es) s"
    unfolding inbound_sensitive_emit_def facts(1) [symmetric] source_destination_service_def prod.case facts(10)
    by (rule exposure_signal_sound [OF its exposure_metadatas(1) facts(2)
          exposure_tag_distinct [OF facts(4)]]) (auto simp: exposure_tags_def)
qed

lemma critical_management_sound:
  assumes "rule_input es" and "usable_settings (ctx_settings ctx)"
  shows "\<exists>ss. critical_management_evaluate es ctx = Inr ss \<and>
    (\<forall>s \<in> set ss. honours_contract critical_management_metadata (e_event_id ` set es) s)"
  unfolding critical_management_evaluate_def
proof (rule exposure_sound [where w = INBOUND_EXPOSURE_WINDOW_SECONDS, OF assms(1) sound_items(2) exposure_windows(1) [OF assms(2)]])
  fix k grouped items mc
  assume its: "rule_input (map x_event items)" "items \<noteq> []" "set (map x_event items) \<subseteq> set es"
    and g: "group_items es critical_management_item source_destination_port k items"
      "group_items es critical_management_item source_destination_port k grouped" "grouped \<noteq> []"
  note facts = first_item [OF its(2) sound_items(2) g(1)] first_item [OF g(3) sound_items(2) g(2)]
  show "\<exists>s. critical_management_emit ctx k grouped items mc = Inr s \<and>
      honours_contract critical_management_metadata (e_event_id ` set es) s"
    unfolding critical_management_emit_def facts(1) [symmetric] source_destination_port_def prod.case facts(10)
    by (rule exposure_signal_sound [OF its exposure_metadatas(2) facts(2)
          exposure_tag_distinct [OF facts(9)]]) (auto simp: exposure_tags_def)
qed

lemma dnat_sound:
  assumes "rule_input es" and "usable_settings (ctx_settings ctx)"
  shows "\<exists>ss. dnat_evaluate es ctx = Inr ss \<and>
    (\<forall>s \<in> set ss. honours_contract dnat_metadata (e_event_id ` set es) s)"
  unfolding dnat_evaluate_def
proof (rule exposure_sound [where w = INBOUND_EXPOSURE_WINDOW_SECONDS, OF assms(1) sound_items(3) exposure_windows(1) [OF assms(2)]])
  fix k grouped items mc
  assume its: "rule_input (map x_event items)" "items \<noteq> []" "set (map x_event items) \<subseteq> set es"
    and g: "group_items es dnat_item destination_port_key k items"
      "group_items es dnat_item destination_port_key k grouped" "grouped \<noteq> []"
  note facts = first_item [OF its(2) sound_items(3) g(1)] first_item [OF g(3) sound_items(3) g(2)]
  show "\<exists>s. dnat_emit ctx k grouped items mc = Inr s \<and>
      honours_contract dnat_metadata (e_event_id ` set es) s"
    unfolding dnat_emit_def facts(1) [symmetric] destination_port_key_def prod.case facts(10)
    by (rule exposure_signal_sound [OF its exposure_metadatas(3) facts(3)
          exposure_tag_distinct [OF facts(9)]]) (auto simp: exposure_tags_def)
qed

lemma wan_lan_sound:
  assumes "rule_input es" and "usable_settings (ctx_settings ctx)"
  shows "\<exists>ss. wan_lan_evaluate es ctx = Inr ss \<and>
    (\<forall>s \<in> set ss. honours_contract wan_lan_metadata (e_event_id ` set es) s)"
  unfolding wan_lan_evaluate_def
proof (rule exposure_sound [where w = INBOUND_EXPOSURE_WINDOW_SECONDS, OF assms(1) sound_items(4) exposure_windows(1) [OF assms(2)]])
  fix k grouped items mc
  assume its: "rule_input (map x_event items)" "items \<noteq> []" "set (map x_event items) \<subseteq> set es"
    and g: "group_items es wan_lan_item destination_service k items"
      "group_items es wan_lan_item destination_service k grouped" "grouped \<noteq> []"
  note facts = first_item [OF its(2) sound_items(4) g(1)] first_item [OF g(3) sound_items(4) g(2)]
  show "\<exists>s. wan_lan_emit ctx k grouped items mc = Inr s \<and>
      honours_contract wan_lan_metadata (e_event_id ` set es) s"
    unfolding wan_lan_emit_def facts(1) [symmetric] destination_service_def prod.case facts(10)
    by (rule exposure_signal_sound [OF its exposure_metadatas(4) facts(3)
          exposure_tag_distinct [OF facts(4)]]) (auto simp: exposure_tags_def)
qed

lemma wan_dmz_sound:
  assumes "rule_input es" and "usable_settings (ctx_settings ctx)"
  shows "\<exists>ss. wan_dmz_evaluate es ctx = Inr ss \<and>
    (\<forall>s \<in> set ss. honours_contract wan_dmz_metadata (e_event_id ` set es) s)"
  unfolding wan_dmz_evaluate_def
proof (rule exposure_sound [where w = INBOUND_EXPOSURE_WINDOW_SECONDS, OF assms(1) sound_items(5) exposure_windows(1) [OF assms(2)]])
  fix k grouped items mc
  assume its: "rule_input (map x_event items)" "items \<noteq> []" "set (map x_event items) \<subseteq> set es"
    and g: "group_items es wan_dmz_item destination_service k items"
      "group_items es wan_dmz_item destination_service k grouped" "grouped \<noteq> []"
  note facts = first_item [OF its(2) sound_items(5) g(1)] first_item [OF g(3) sound_items(5) g(2)]
  show "\<exists>s. wan_dmz_emit ctx k grouped items mc = Inr s \<and>
      honours_contract wan_dmz_metadata (e_event_id ` set es) s"
    unfolding wan_dmz_emit_def facts(1) [symmetric] destination_service_def prod.case facts(10)
    by (rule exposure_signal_sound [OF its exposure_metadatas(5) facts(3)
          exposure_tag_distinct [OF facts(4)]]) (auto simp: exposure_tags_def)
qed

lemma multi_source_sound:
  assumes "rule_input es" and "usable_settings (ctx_settings ctx)"
  shows "\<exists>ss. multi_source_evaluate es ctx = Inr ss \<and>
    (\<forall>s \<in> set ss. honours_contract multi_source_metadata (e_event_id ` set es) s)"
  unfolding multi_source_evaluate_def
proof (rule exposure_sound [where w = MULTI_SOURCE_SENSITIVE_WINDOW_SECONDS, OF assms(1) sound_items(6) exposure_windows(2) [OF assms(2)]])
  fix k grouped items mc
  assume its: "rule_input (map x_event items)" "items \<noteq> []" "set (map x_event items) \<subseteq> set es"
    and g: "group_items es multi_source_item destination_service k items"
      "group_items es multi_source_item destination_service k grouped" "grouped \<noteq> []"
  note facts = first_item [OF its(2) sound_items(6) g(1)] first_item [OF g(3) sound_items(6) g(2)]
  show "\<exists>s. multi_source_emit ctx k grouped items mc = Inr s \<and>
      honours_contract multi_source_metadata (e_event_id ` set es) s"
    unfolding multi_source_emit_def facts(1) [symmetric] destination_service_def prod.case facts(10)
    by (rule exposure_signal_sound [OF its exposure_metadatas(6) facts(3)
          exposure_tag_distinct [OF facts(4)]]) (auto simp: exposure_tags_def)
qed

interpretation inbound_sensitive: sound_rule InboundSensitiveServiceAllowedRule usable_settings
  by (rule sound_rule_evaluateI) (simp add: InboundSensitiveServiceAllowedRule_def inbound_sensitive_sound)

interpretation critical_management: sound_rule CriticalManagementServiceExposedRule usable_settings
  by (rule sound_rule_evaluateI) (simp add: CriticalManagementServiceExposedRule_def critical_management_sound)

interpretation dnat: sound_rule DnatSensitiveServiceExposureRule usable_settings
  by (rule sound_rule_evaluateI) (simp add: DnatSensitiveServiceExposureRule_def dnat_sound)

interpretation wan_lan: sound_rule WanToLanSensitiveServiceAllowedRule usable_settings
  by (rule sound_rule_evaluateI) (simp add: WanToLanSensitiveServiceAllowedRule_def wan_lan_sound)

interpretation wan_dmz: sound_rule WanToDmzAdministrativeServiceAllowedRule usable_settings
  by (rule sound_rule_evaluateI) (simp add: WanToDmzAdministrativeServiceAllowedRule_def wan_dmz_sound)

interpretation multi_source: sound_rule MultiSourceAllowedSensitiveServiceRule usable_settings
  by (rule sound_rule_evaluateI) (simp add: MultiSourceAllowedSensitiveServiceRule_def multi_source_sound)

text \<open>The sequence rule: the run handed to the emission is ordered and ends in the allowed event.\<close>

lemma time_ordered_subseq: "subseq xs ys \<Longrightarrow> time_ordered ys \<Longrightarrow> time_ordered xs"
proof (induction rule: list_emb.induct)
  case (list_emb_Cons2 x y xs ys)
  then have "set xs \<subseteq> set ys" by (simp add: subseq_set)
  with list_emb_Cons2 show ?case by (auto simp: time_ordered_def)
qed (auto simp: time_ordered_def)

lemma item_run:
  assumes "rule_input (map x_event ordered)" and "(before, a) \<in> set (sequence_points ordered)"
  shows "rule_input (map x_event (filter p before) @ [x_event a])"
    and "set before \<union> {a} \<subseteq> set ordered"
proof -
  obtain after where split: "ordered = before @ a # after"
    using assms(2) by (auto simp: sequence_points_iff)
  have "subseq (map x_event (filter p before @ [a])) (map x_event ordered)"
    unfolding split by (rule subseq_map [OF subseq_point])
  then have sub: "subseq (map x_event (filter p before) @ [x_event a]) (map x_event ordered)" by simp
  have "time_ordered (map x_event ordered)" using assms(1) by (simp add: rule_input_def)
  from rule_input_subseq [OF sub time_ordered_subseq [OF sub this] assms(1)]
  show "rule_input (map x_event (filter p before) @ [x_event a])" .
  show "set before \<union> {a} \<subseteq> set ordered" by (auto simp: split)
qed

lemma blocked_minimum: "usable_settings st \<Longrightarrow> 0 < BLOCKED_THEN_ALLOWED_MIN_BLOCKED_EVENTS st"
  using usable_valid_fields [of st] by (simp add: valid_fields_def positive_counts_def)

lemma blocked_allowed_point:
  assumes "rule_input es" and "(k, grouped) \<in> set (group_by source_destination_service (somes blocked_allowed_item es))"
    and "(before, a) \<in> set (sequence_points (ordered_items fb grouped))" and "filter p before \<noteq> []"
  shows "\<exists>s. blocked_allowed_emit ctx k (filter p before) a = Inr s \<and>
    honours_contract blocked_allowed_metadata (e_event_id ` set es) s"
proof -
  note grp = item_group [OF assms(1) sound_items(7) assms(2)]
  note run = item_run [OF grp(1) assms(3)]
  have "a \<in> set grouped" using run(2) by simp
  note a = group_items_facts [OF sound_items(7) grp(3) this]
  have sub: "set (map x_event (filter p before) @ [x_event a]) \<subseteq> set es"
    using run(2) grp(3) by (auto simp: group_items_def)
  have md: "sound_metadata blocked_allowed_metadata" "md_signal_variants blocked_allowed_metadata = []"
    using exposure_metadatas(7) by (auto simp: exposure_metadata_def)
  have ne: "map x_event (filter p before) \<noteq> []" using assms(4) by simp
  show ?thesis
    unfolding blocked_allowed_emit_def a(4) [symmetric] source_destination_service_def prod.case Let_def
    by (rule sequence_signal_sound [OF run(1) ne sub md exposure_confidence_unit a(1)
          exposure_tag_distinct [OF a(3)]]) (auto simp: exposure_tags_def)
qed

lemma blocked_allowed_sound:
  assumes "rule_input es" and "usable_settings (ctx_settings ctx)"
  shows "\<exists>ss. blocked_allowed_evaluate es ctx = Inr ss \<and>
    (\<forall>s \<in> set ss. honours_contract blocked_allowed_metadata (e_event_id ` set es) s)"
proof -
  let ?st = "ctx_settings ctx"
  have point: "\<exists>zs. (let blocked_items = filter (blocked_allowed_earlier ?st a) before
      in if timed_allowed (x_event a) \<and> BLOCKED_THEN_ALLOWED_MIN_BLOCKED_EVENTS ?st \<le> length blocked_items
         then map_err (blocked_allowed_emit ctx k blocked_items) [a] else Inr []) = Inr zs \<and>
      (\<forall>s \<in> set zs. honours_contract blocked_allowed_metadata (e_event_id ` set es) s)"
    if "(k, grouped) \<in> set (group_by source_destination_service (somes blocked_allowed_item es))"
      and "(before, a) \<in> set (sequence_points (ordered_items (ctx_analysis_started_at ctx) grouped))"
    for k grouped before a
  proof (cases "timed_allowed (x_event a) \<and>
      BLOCKED_THEN_ALLOWED_MIN_BLOCKED_EVENTS ?st \<le> length (filter (blocked_allowed_earlier ?st a) before)")
    case True
    then have "filter (blocked_allowed_earlier ?st a) before \<noteq> []" using blocked_minimum [OF assms(2)] by auto
    from blocked_allowed_point [OF assms(1) that this, where ctx = ctx] True show ?thesis by (auto simp: Let_def)
  qed (auto simp: Let_def)
  show ?thesis
    unfolding blocked_allowed_evaluate_def Let_def [of ?st]
    by (rule sort_signals_sound, rule concat_err_sound, clarify, rule concat_err_sound, clarify) (rule point)
qed

interpretation blocked_allowed: sound_rule BlockedThenAllowedSameServiceRule usable_settings
  by (rule sound_rule_evaluateI) (simp add: BlockedThenAllowedSameServiceRule_def blocked_allowed_sound)

end
