(* ===== verification/DefaultRules.thy ===== *)
theory DefaultRules
  imports Engine BurstRules WindowRules ServiceProbes ExposureRules "HOL-Library.Sublist"
begin

text \<open>
  The default registry (\<open>agent/detection/detectors/__init__.py\<close>): the 36 rules in the order
  \<open>register_default_rules\<close> registers them. Every rule interprets \<open>sound_rule\<close> in the theory
  that models it; here the interpretations meet, so that the engine's theorems apply to the engine
  as it is shipped.
\<close>

definition default_rules :: "BaseDetectionRule list" where
  "default_rules =
     [HorizontalScanRule,
      VerticalScanRule,
      RemoteServiceProbeRule,
      SPIAnomalyRule,
      NetworkFloodRule,
      LowAndSlowHorizontalScanRule,
      LowAndSlowVerticalScanRule,
      RepeatedBlockedScannerRule,
      InternalLateralScanRule,
      SubnetSweepRule,
      DistributedScanRule,
      MultiServiceSweepRule,
      ScanFollowedByAllowedConnectionRule,
      SmbProbeRule,
      VncProbeRule,
      WinRmProbeRule,
      DatabaseServiceProbeRule,
      KubernetesServiceProbeRule,
      DockerDaemonProbeRule,
      WebAdminPanelProbeRule,
      LegacyCleartextServiceProbeRule,
      TcpNullScanRule,
      TcpXmasScanRule,
      TcpFinScanRule,
      TcpAckScanRule,
      TcpSynFinAnomalyRule,
      TcpSynRstAnomalyRule,
      RepeatedTcpResetAnomalyRule,
      SpiFollowedByAllowedConnectionRule,
      InboundSensitiveServiceAllowedRule,
      CriticalManagementServiceExposedRule,
      DnatSensitiveServiceExposureRule,
      WanToLanSensitiveServiceAllowedRule,
      WanToDmzAdministrativeServiceAllowedRule,
      BlockedThenAllowedSameServiceRule,
      MultiSourceAllowedSensitiveServiceRule]"

fun register_each :: "string list \<Rightarrow> BaseDetectionRule list \<Rightarrow> registry \<Rightarrow> register_error + registry" where
  "register_each names [] reg = Inr reg"
| "register_each names (rule # rules) reg =
     (case register names rule reg of Inl e \<Rightarrow> Inl e | Inr reg' \<Rightarrow> register_each names rules reg')"

definition register_default_rules :: "registry \<Rightarrow> register_error + registry" where
  "register_default_rules reg = register_each settings_fields default_rules reg"

text \<open>What \<open>default_registry\<close> holds after the module has been imported.\<close>

definition default_registry :: registry where
  "default_registry = map (\<lambda>rule. (md_rule_id (metadata rule), rule)) default_rules"

definition default_metadata :: "DetectionRuleMetadata list" where
  "default_metadata =
     [horizontal_metadata, vertical_metadata, remote_metadata,
      spi_metadata, flood_metadata, slow_horizontal_metadata,
      slow_vertical_metadata, blocked_scanner_metadata, lateral_metadata,
      subnet_metadata, distributed_metadata, multi_service_metadata,
      scan_allowed_metadata, smb_probe_metadata, vnc_probe_metadata,
      winrm_probe_metadata, database_service_probe_metadata, kubernetes_service_probe_metadata,
      docker_daemon_probe_metadata, web_admin_panel_probe_metadata, legacy_cleartext_service_probe_metadata,
      tcp_null_metadata, tcp_xmas_metadata, tcp_fin_metadata,
      tcp_ack_metadata, tcp_syn_fin_metadata, tcp_syn_rst_metadata,
      tcp_reset_metadata, spi_allowed_metadata, inbound_sensitive_metadata,
      critical_management_metadata, dnat_metadata, wan_lan_metadata,
      wan_dmz_metadata, blocked_allowed_metadata, multi_source_metadata]"

lemmas default_rule_defs =
  HorizontalScanRule_def VerticalScanRule_def RemoteServiceProbeRule_def
  SPIAnomalyRule_def NetworkFloodRule_def LowAndSlowHorizontalScanRule_def
  LowAndSlowVerticalScanRule_def RepeatedBlockedScannerRule_def InternalLateralScanRule_def
  SubnetSweepRule_def DistributedScanRule_def MultiServiceSweepRule_def
  ScanFollowedByAllowedConnectionRule_def SmbProbeRule_def VncProbeRule_def
  WinRmProbeRule_def DatabaseServiceProbeRule_def KubernetesServiceProbeRule_def
  DockerDaemonProbeRule_def WebAdminPanelProbeRule_def LegacyCleartextServiceProbeRule_def
  TcpNullScanRule_def TcpXmasScanRule_def TcpFinScanRule_def
  TcpAckScanRule_def TcpSynFinAnomalyRule_def TcpSynRstAnomalyRule_def
  RepeatedTcpResetAnomalyRule_def SpiFollowedByAllowedConnectionRule_def InboundSensitiveServiceAllowedRule_def
  CriticalManagementServiceExposedRule_def DnatSensitiveServiceExposureRule_def WanToLanSensitiveServiceAllowedRule_def
  WanToDmzAdministrativeServiceAllowedRule_def BlockedThenAllowedSameServiceRule_def MultiSourceAllowedSensitiveServiceRule_def

lemma metadata_default_rules: "map metadata default_rules = default_metadata"
  by (simp add: default_rules_def default_metadata_def default_rule_defs profiled_def flag_pattern_def
      tcp_flag_rule_defs smb_probe_def vnc_probe_def winrm_probe_def database_service_probe_def kubernetes_service_probe_def docker_daemon_probe_def web_admin_panel_probe_def legacy_cleartext_service_probe_def)

text \<open>The settings the rules refer to, in the order the settings declare them.\<close>

definition referenced_settings :: "string list" where
  "referenced_settings =
     [''HORIZONTAL_SCAN_WINDOW_SECONDS'', ''HORIZONTAL_SCAN_MIN_EVENTS'',
      ''VERTICAL_SCAN_WINDOW_SECONDS'', ''VERTICAL_SCAN_MIN_EVENTS'',
      ''REMOTE_SERVICE_WINDOW_SECONDS'', ''REMOTE_SERVICE_MIN_EVENTS'',
      ''EXTENDED_SERVICE_PROBE_WINDOW_SECONDS'', ''EXTENDED_SERVICE_PROBE_MIN_EVENTS'',
      ''WEB_ADMIN_PROBE_MIN_EVENTS'', ''TCP_FLAG_SCAN_WINDOW_SECONDS'',
      ''TCP_FLAG_SCAN_MIN_EVENTS'', ''TCP_ACK_SCAN_MIN_EVENTS'',
      ''TCP_INVALID_COMBINATION_MIN_EVENTS'', ''TCP_RESET_ANOMALY_WINDOW_SECONDS'',
      ''TCP_RESET_ANOMALY_MIN_EVENTS'', ''SPI_THEN_ALLOWED_WINDOW_SECONDS'',
      ''SPI_THEN_ALLOWED_MIN_SPI_EVENTS'', ''INBOUND_EXPOSURE_WINDOW_SECONDS'',
      ''INBOUND_SENSITIVE_MIN_ALLOWED_EVENTS'', ''CRITICAL_MANAGEMENT_EXPOSURE_MIN_EVENTS'',
      ''WAN_TO_LAN_MIN_ALLOWED_EVENTS'', ''WAN_TO_DMZ_ADMIN_MIN_ALLOWED_EVENTS'',
      ''BLOCKED_THEN_ALLOWED_WINDOW_SECONDS'', ''BLOCKED_THEN_ALLOWED_MIN_BLOCKED_EVENTS'',
      ''MULTI_SOURCE_SENSITIVE_WINDOW_SECONDS'', ''MULTI_SOURCE_SENSITIVE_MIN_EVENTS'',
      ''SPI_ANOMALY_WINDOW_SECONDS'', ''SPI_ANOMALY_MIN_EVENTS'',
      ''NETWORK_FLOOD_WINDOW_SECONDS'', ''NETWORK_FLOOD_MIN_EVENTS'',
      ''LOW_SLOW_HORIZONTAL_WINDOW_SECONDS'', ''LOW_SLOW_HORIZONTAL_MIN_EVENTS'',
      ''LOW_SLOW_VERTICAL_WINDOW_SECONDS'', ''LOW_SLOW_VERTICAL_MIN_EVENTS'',
      ''REPEATED_BLOCKED_SCANNER_WINDOW_SECONDS'', ''REPEATED_BLOCKED_SCANNER_MIN_EVENTS'',
      ''INTERNAL_LATERAL_SCAN_WINDOW_SECONDS'', ''INTERNAL_LATERAL_SCAN_MIN_EVENTS'',
      ''SUBNET_SWEEP_WINDOW_SECONDS'', ''SUBNET_SWEEP_MIN_EVENTS'',
      ''DISTRIBUTED_SCAN_WINDOW_SECONDS'', ''DISTRIBUTED_SCAN_MIN_EVENTS'',
      ''MULTI_SERVICE_SWEEP_WINDOW_SECONDS'', ''MULTI_SERVICE_SWEEP_MIN_EVENTS'',
      ''SCAN_THEN_ALLOWED_WINDOW_SECONDS'', ''SCAN_THEN_ALLOWED_MIN_BLOCKED_EVENTS'']"

lemma referenced_settings_exist: "set referenced_settings \<subseteq> set settings_fields"
proof -
  have "subseq referenced_settings settings_fields" by code_simp
  then show ?thesis by (rule subseq_set)
qed

lemma metadata_ok_mono: "metadata_ok names m \<Longrightarrow> set names \<subseteq> set names' \<Longrightarrow> metadata_ok names' m"
  by (auto simp: metadata_ok_def split: option.splits)

lemma referenced_metadata_ok_1:
  "list_all (metadata_ok referenced_settings) [horizontal_metadata, vertical_metadata, remote_metadata,
     spi_metadata, flood_metadata, slow_horizontal_metadata]"
  by code_simp

lemma referenced_metadata_ok_2:
  "list_all (metadata_ok referenced_settings) [slow_vertical_metadata, blocked_scanner_metadata, lateral_metadata,
     subnet_metadata, distributed_metadata, multi_service_metadata]"
  by code_simp

lemma referenced_metadata_ok_3:
  "list_all (metadata_ok referenced_settings) [scan_allowed_metadata, smb_probe_metadata, vnc_probe_metadata,
     winrm_probe_metadata, database_service_probe_metadata, kubernetes_service_probe_metadata]"
  by code_simp

lemma referenced_metadata_ok_4:
  "list_all (metadata_ok referenced_settings) [docker_daemon_probe_metadata, web_admin_panel_probe_metadata, legacy_cleartext_service_probe_metadata,
     tcp_null_metadata, tcp_xmas_metadata, tcp_fin_metadata]"
  by code_simp

lemma referenced_metadata_ok_5:
  "list_all (metadata_ok referenced_settings) [tcp_ack_metadata, tcp_syn_fin_metadata, tcp_syn_rst_metadata,
     tcp_reset_metadata, spi_allowed_metadata, inbound_sensitive_metadata]"
  by code_simp

lemma referenced_metadata_ok_6:
  "list_all (metadata_ok referenced_settings) [critical_management_metadata, dnat_metadata, wan_lan_metadata,
     wan_dmz_metadata, blocked_allowed_metadata, multi_source_metadata]"
  by code_simp

lemmas referenced_metadata_ok = referenced_metadata_ok_1 referenced_metadata_ok_2 referenced_metadata_ok_3
  referenced_metadata_ok_4 referenced_metadata_ok_5 referenced_metadata_ok_6

lemma default_metadata_valid: "\<forall>m \<in> set default_metadata. metadata_ok settings_fields m"
  using referenced_metadata_ok metadata_ok_mono [OF _ referenced_settings_exist]
  by (simp add: default_metadata_def)

lemma default_rule_ids: "distinct (map md_rule_id default_metadata)"
  by code_simp

section \<open>The registry\<close>

lemma register_each_fresh:
  assumes "\<forall>m \<in> set (map metadata rules). metadata_ok names m"
    and "distinct (map fst reg @ map (\<lambda>rule. md_rule_id (metadata rule)) rules)"
  shows "register_each names rules reg = Inr (reg @ map (\<lambda>rule. (md_rule_id (metadata rule), rule)) rules)"
  using assms
proof (induction rules arbitrary: reg)
  case (Cons rule rules)
  then have "map_of reg (md_rule_id (metadata rule)) = None" by (auto simp: map_of_eq_None_iff)
  then have "register names rule reg = Inr (reg @ [(md_rule_id (metadata rule), rule)])"
    using Cons.prems(1) by (simp add: register_def validate_metadata_def)
  with Cons show ?case by simp
qed simp

lemma register_each_again:
  assumes "\<forall>m \<in> set (map metadata rules). metadata_ok names m"
    and "\<forall>rule \<in> set rules. map_of reg (md_rule_id (metadata rule)) = Some rule"
  shows "register_each names rules reg = Inr reg"
  using assms by (induction rules) (auto simp: register_def validate_metadata_def)

lemma default_ids: "distinct (map (\<lambda>rule. md_rule_id (metadata rule)) default_rules)"
  using default_rule_ids by (simp flip: metadata_default_rules add: comp_def)

lemma default_registry_lookup:
  "rule \<in> set default_rules \<Longrightarrow> map_of default_registry (md_rule_id (metadata rule)) = Some rule"
  using default_ids by (auto simp: default_registry_def comp_def intro!: map_of_is_SomeI)

lemma default_registry_wf: "wf_registry default_registry"
  using default_ids by (auto simp: wf_registry_def default_registry_def comp_def)

text \<open>The default rules register without a conflict: the registry holds exactly the 36 rules,
  each under its own identifier, and registering them again changes nothing.\<close>

theorem default_registry_exact:
  "register_default_rules [] = Inr default_registry
    \<and> register_default_rules default_registry = Inr default_registry
    \<and> wf_registry default_registry \<and> snd ` set default_registry = set default_rules
    \<and> length default_registry = 36"
proof -
  have ok: "\<forall>m \<in> set (map metadata default_rules). metadata_ok settings_fields m"
    unfolding metadata_default_rules by (rule default_metadata_valid)
  have "register_default_rules [] = Inr default_registry"
    using register_each_fresh [OF ok, of "[]"] default_ids
    by (simp add: register_default_rules_def default_registry_def)
  moreover have "register_default_rules default_registry = Inr default_registry"
    unfolding register_default_rules_def
    by (rule register_each_again [OF ok]) (simp add: default_registry_lookup)
  moreover have "length default_registry = 36"
    by (simp add: default_registry_def default_rules_def)
  ultimately show ?thesis using default_registry_wf by (force simp: default_registry_def)
qed

section \<open>Every rule is sound\<close>

lemma default_rules_sound:
  "rule \<in> set default_rules \<Longrightarrow> sound_rule rule usable_settings"
  unfolding default_rules_def
  using horizontal.sound_rule_axioms vertical.sound_rule_axioms remote.sound_rule_axioms
    spi.sound_rule_axioms flood.sound_rule_axioms slow_horizontal.sound_rule_axioms
    slow_vertical.sound_rule_axioms blocked_scanner.sound_rule_axioms lateral.sound_rule_axioms
    subnet.sound_rule_axioms distributed.sound_rule_axioms multi_service.sound_rule_axioms
    scan_allowed.sound_rule_axioms smb_probe.sound_rule_axioms vnc_probe.sound_rule_axioms
    winrm_probe.sound_rule_axioms database_service_probe.sound_rule_axioms kubernetes_service_probe.sound_rule_axioms
    docker_daemon_probe.sound_rule_axioms web_admin_panel_probe.sound_rule_axioms legacy_cleartext_service_probe.sound_rule_axioms
    tcp_null.sound_rule_axioms tcp_xmas.sound_rule_axioms tcp_fin.sound_rule_axioms
    tcp_ack.sound_rule_axioms tcp_syn_fin.sound_rule_axioms tcp_syn_rst.sound_rule_axioms
    tcp_reset.sound_rule_axioms spi_allowed.sound_rule_axioms inbound_sensitive.sound_rule_axioms
    critical_management.sound_rule_axioms dnat.sound_rule_axioms wan_lan.sound_rule_axioms
    wan_dmz.sound_rule_axioms blocked_allowed.sound_rule_axioms multi_source.sound_rule_axioms
  by auto

text \<open>Whatever a rule is given, the signals it returns have passed the signal model's validators.\<close>

definition valid_results :: "string + DetectionSignal list \<Rightarrow> bool" where
  "valid_results x = (\<forall>ss. x = Inr ss \<longrightarrow> (\<forall>s \<in> set ss. wf_signal s))"

named_theorems valid

lemma valid_assembled [valid]:
  "assemble_signal md v id_rule ids t0 t1 mc prim key conf sev targets techs tags evs = Inr s \<Longrightarrow> wf_signal s"
  by (auto simp: assemble_signal_def intro: validate_signal_wf)

lemma valid_built [valid]:
  "build_signal md es t0 t1 mc prim key reason conf ty sev targets techs tags = Inr s \<Longrightarrow> wf_signal s"
  by (auto simp: build_signal_def bind_err_Inr dest: valid_assembled)

lemma valid_emitted [valid]:
  "emit_signal md ctx es mc prim key reason conf ty sev targets techs tags = Inr s \<Longrightarrow> wf_signal s"
  "window_signal md v id_rule fb es mc prim key reason conf targets tags = Inr s \<Longrightarrow> wf_signal s"
  "own_signal md ctx es mc prim key reason conf targets tags = Inr s \<Longrightarrow> wf_signal s"
  "exposure_signal md items ctx prim key targets mc n reason tags = Inr s \<Longrightarrow> wf_signal s"
  "sequence_signal md fb prior a emc mc prim key r1 r2 conf targets tags = Inr s \<Longrightarrow> wf_signal s"
  by (auto simp: emit_signal_def window_signal_def own_signal_def exposure_signal_def sequence_signal_def
      bind_err_Inr split: if_splits dest: valid_assembled valid_built)

lemma valid_results_simps [simp]:
  "valid_results (Inl e)" "valid_results (Inr [])"
  by (simp_all add: valid_results_def)

lemma valid_map_err: "(\<And>x s. f x = Inr s \<Longrightarrow> wf_signal s) \<Longrightarrow> valid_results (map_err f xs)"
  by (auto simp: valid_results_def dest: map_err_member)

lemma valid_concat_err: "(\<And>x. valid_results (f x)) \<Longrightarrow> valid_results (concat_err f xs)"
  by (fastforce simp: valid_results_def dest: concat_err_member)

lemma valid_sorted: "valid_results x \<Longrightarrow> valid_results (bind_err x (\<lambda>signals. Inr (sort_signals signals)))"
  by (auto simp: valid_results_def bind_err_Inr sort_signals_def)

lemma valid_scans:
  "(\<And>k win mc s. emit k win mc = Inr s \<Longrightarrow> wf_signal s) \<Longrightarrow>
     valid_results (scan_arranged arrange key usable w n cond emit es)"
  "(\<And>k win mc s. emit k win mc = Inr s \<Longrightarrow> wf_signal s) \<Longrightarrow>
     valid_results (scan_groups key usable w n cond emit es)"
  "(\<And>k prior a s. emit2 k prior a = Inr s \<Longrightarrow> wf_signal s) \<Longrightarrow>
     valid_results (scan_sequences fb key2 usable earlier accepts emit2 es)"
  "(\<And>k grouped items mc s. emit3 ctx k grouped items mc = Inr s \<Longrightarrow> wf_signal s) \<Longrightarrow>
     valid_results (exposure_evaluate key3 item w3 cond3 emit3 es ctx)"
  unfolding scan_groups_def scan_arranged_def scan_sequences_def exposure_evaluate_def scan_items_def
  by (auto intro!: valid_sorted valid_concat_err valid_map_err simp: Let_def simp del: map_err.simps)

lemma valid_window_rules:
  "valid_results (horizontal_evaluate es ctx)"
  "valid_results (spi_evaluate es ctx)"
  "valid_results (flood_evaluate es ctx)"
  "valid_results (lateral_evaluate es ctx)"
  "valid_results (multi_service_evaluate es ctx)"
  "valid_results (subnet_evaluate es ctx)"
  "valid_results (remote_evaluate es ctx)"
  "valid_results (blocked_scanner_evaluate es ctx)"
  "valid_results (distributed_evaluate es ctx)"
  "valid_results (slow_horizontal_evaluate es ctx)"
  "valid_results (slow_vertical_evaluate es ctx)"
  unfolding horizontal_evaluate_def spi_evaluate_def flood_evaluate_def lateral_evaluate_def
    multi_service_evaluate_def subnet_evaluate_def remote_evaluate_def blocked_scanner_evaluate_def
    distributed_evaluate_def slow_horizontal_evaluate_def slow_vertical_evaluate_def Let_def
  by (rule valid_scans; auto simp: horizontal_emit_def spi_emit_def flood_emit_def lateral_emit_def
      multi_service_emit_def subnet_emit_def remote_emit_def blocked_scanner_emit_def
      distributed_emit_def slow_horizontal_emit_def slow_vertical_emit_def
      split: prod.splits dest: valid)+

lemma valid_vertical: "valid_results (vertical_evaluate es ctx)"
proof -
  have scan: "valid_results (scan_groups vertical_key endpoints_usable (VERTICAL_SCAN_WINDOW_SECONDS st)
      (VERTICAL_SCAN_MIN_EVENTS st) (vertical_check st) (vertical_emit ctx) es)" for st
    by (rule valid_scans) (auto simp: vertical_emit_def split: prod.splits dest: valid)
  have "valid_results (evaluate_fixed_source_port es ctx)"
    by (auto simp: evaluate_fixed_source_port_def Let_def fixed_port_signal_def
        intro!: valid_map_err dest: valid)
  with scan show ?thesis by (fastforce simp: vertical_evaluate_def Let_def valid_results_def bind_err_Inr)
qed

lemma valid_families:
  "valid_results (probe_evaluate pr es ctx)" "valid_results (flag_evaluate fr es ctx)"
  "valid_results (scan_allowed_evaluate es ctx)" "valid_results (spi_allowed_evaluate es ctx)"
  unfolding probe_evaluate_def flag_evaluate_def scan_allowed_evaluate_def spi_allowed_evaluate_def Let_def
  by (intro valid_sorted valid_scans;
      auto simp: probe_emit_def flag_emit_def scan_allowed_emit_def spi_allowed_emit_def Let_def
        split: prod.splits option.splits dest: valid)+

lemma valid_exposure_rules:
  "valid_results (inbound_sensitive_evaluate es ctx)"
  "valid_results (critical_management_evaluate es ctx)"
  "valid_results (dnat_evaluate es ctx)"
  "valid_results (wan_lan_evaluate es ctx)"
  "valid_results (wan_dmz_evaluate es ctx)"
  "valid_results (multi_source_evaluate es ctx)"
  "valid_results (blocked_allowed_evaluate es ctx)"
proof -
  show "valid_results (blocked_allowed_evaluate es ctx)"
    unfolding blocked_allowed_evaluate_def Let_def
    by (auto intro!: valid_sorted valid_concat_err valid_map_err
        simp: blocked_allowed_emit_def Let_def simp del: map_err.simps split: prod.splits dest: valid)
qed (unfold inbound_sensitive_evaluate_def critical_management_evaluate_def dnat_evaluate_def wan_lan_evaluate_def wan_dmz_evaluate_def multi_source_evaluate_def,
    (rule valid_scans; auto simp: inbound_sensitive_emit_def critical_management_emit_def dnat_emit_def wan_lan_emit_def wan_dmz_emit_def multi_source_emit_def
      split: prod.splits dest: valid)+)

lemma default_rules_valid: "rule \<in> set default_rules \<Longrightarrow> valid_results (evaluate rule es ctx)"
  unfolding default_rules_def
  by (auto simp: default_rule_defs profiled_def flag_pattern_def valid_window_rules valid_vertical
      valid_families valid_exposure_rules)

lemma default_registry_returns_valid: "returns_valid default_registry"
  using default_rules_valid
  by (auto simp: returns_valid_def default_registry_def valid_results_def)

section \<open>The engine as shipped\<close>

lemma get_default_rules: "set (get_all_rules default_registry) = set default_rules"
  by (simp add: get_all_rules_def default_registry_def comp_def)


text \<open>What the analysis warns about before any rule runs: the events it does not accept.\<close>

definition intake_warnings :: "canonical_event list \<Rightarrow> string list" where
  "intake_warnings candidate_events =
     (let (kept, skipped, warnings) = dedup_loop {} candidate_events
      in warnings @ somes ineligible_reason kept)"

lemma rule_input_eligible:
  assumes "distinct (map e_event_id (eligible_of es))"
  shows "rule_input (eligible_of es)"
proof -
  have "time_ordered (eligible_of es)"
    unfolding eligible_of_def
    by (rule sorted_by_time) (auto simp: ineligible_reason_def event_order_def split: option.splits)
  then show ?thesis using assms eligible_facts(2) by (auto simp: rule_input_def)
qed

lemma analyze_warnings:
  assumes "analyze en now es ctx = Inr r"
  shows "r_warnings r = intake_warnings es @ (if eligible_of es = [] then []
    else snd (run_rules (eligible_of es) (rule_context en now (eligible_of es)) (get_all_rules (en_registry en))))"
  using assms
  by (auto simp: analyze_def intake_warnings_def Let_def bind_err_Inr split: prod.splits if_splits)


section \<open>The hypotheses hold\<close>


definition default_engine :: DetectionEngine where
  "default_engine = \<lparr>en_registry = default_registry, en_settings = two_hit_settings, en_policy = new_policy\<rparr>"

definition undated :: canonical_event where
  "undated = CanonicalLogEvent ''E9'' ''pf'' ''parsed''"

lemma sample_intake: "eligible_of (probes @ [undated]) = probes"
  "intake_warnings (probes @ [undated]) = [''Event E9 skipped: missing timestamp'']"
  by code_simp+

text \<open>Two probes of one port on two hosts are a horizontal scan.\<close>

lemma probe_window:
  "horizontal_evidence two_hit_settings (window_at (HORIZONTAL_SCAN_WINDOW_SECONDS two_hit_settings)
     (filter (\<lambda>e. horizontal_usable e \<and> horizontal_key e = horizontal_key (hd probes)) probes))"
  "filter (\<lambda>e. horizontal_usable e \<and> horizontal_key e = horizontal_key (hd probes)) probes \<noteq> []"
  "select_rule_events probes horizontal_metadata = probes"
  by code_simp+

lemma horizontal_scan_reported:
  assumes "rule_input es" and "usable_settings (ctx_settings ctx)" and "horizontal_evaluate es ctx = Inr ss"
    and "seen = filter (\<lambda>e. horizontal_usable e \<and> horizontal_key e = k) es" and "seen \<noteq> []"
    and "horizontal_evidence (ctx_settings ctx) (window_at (HORIZONTAL_SCAN_WINDOW_SECONDS (ctx_settings ctx)) seen)"
  shows "ss \<noteq> []"
proof -
  have "(sort_uniq (map e_event_id (window_at (HORIZONTAL_SCAN_WINDOW_SECONDS (ctx_settings ctx)) seen)), fst k)
      \<in> (\<lambda>s. (s_event_ids s, s_primary_entity s)) ` set ss"
    unfolding horizontal_scan_exact [OF assms(1-3)]
    by (rule CollectI, rule exI [of _ k], rule exI [of _ seen],
        rule exI [of _ "window_at (HORIZONTAL_SCAN_WINDOW_SECONDS (ctx_settings ctx)) seen"])
      (use assms(4-6) in simp)
  then show ?thesis by auto
qed

lemma probes_nonempty: "probes \<noteq> []"
  by (simp add: probes_def)

lemma probes_reported: "engine_signals default_engine now probes \<noteq> []"
proof -
  let ?ctx = "rule_context default_engine now probes"
  have settings: "ctx_settings ?ctx = two_hit_settings" by (simp add: rule_context_def default_engine_def)
  have usable: "usable_settings (ctx_settings ?ctx)" using probes_settings by (simp add: settings probe_context_def)
  have rule: "HorizontalScanRule \<in> set default_rules" by (simp add: default_rules_def)
  have horizontal: "metadata HorizontalScanRule = horizontal_metadata" "evaluate HorizontalScanRule = horizontal_evaluate"
    by (simp_all add: HorizontalScanRule_def)
  have "select_rule_events probes (metadata HorizontalScanRule) \<noteq> []"
    unfolding horizontal probe_window(3) by (rule probes_nonempty)
  from sound_rule.run_rule_clean(2) [OF default_rules_sound [OF rule] probes_input usable this]
  have "horizontal_evaluate probes ?ctx = Inr (fst (run_rule probes ?ctx HorizontalScanRule))"
    by (simp only: horizontal probe_window(3))
  then have "fst (run_rule probes ?ctx HorizontalScanRule) \<noteq> []"
    by (rule horizontal_scan_reported [OF probes_input usable _ refl probe_window(2)]) (simp only: settings probe_window(1))
  moreover have "HorizontalScanRule \<in> set (get_all_rules (en_registry default_engine))"
    using rule by (simp add: default_engine_def get_default_rules)
  ultimately show ?thesis by (auto simp: engine_signals_def run_rules_def)
qed


end
