(* ===== verification/Regex.thy ===== *)
theory Regex
  imports SocPrelude
begin

text \<open>
  The part of Python's \<open>re\<close> the program uses: the expressions its patterns are written with, the
  language each denotes, and the backtracking matcher, which yields what is left of a string after
  each way of matching a prefix. Whether a match exists does not depend on the order of the ways,
  so greedy and lazy repetition are one.
\<close>

datatype regex = Empty | Sym "char \<Rightarrow> bool" | Seq regex regex | Alt regex regex | Star regex

inductive matches :: "regex \<Rightarrow> string \<Rightarrow> bool" where
  matches_Empty: "matches Empty []"
| matches_Sym: "p c \<Longrightarrow> matches (Sym p) [c]"
| matches_Seq: "matches r s \<Longrightarrow> matches q t \<Longrightarrow> matches (Seq r q) (s @ t)"
| matches_Alt1: "matches r s \<Longrightarrow> matches (Alt r q) s"
| matches_Alt2: "matches q s \<Longrightarrow> matches (Alt r q) s"
| matches_Star_Nil: "matches (Star r) []"
| matches_Star_Cons: "matches r s \<Longrightarrow> matches (Star r) t \<Longrightarrow> matches (Star r) (s @ t)"

inductive_simps matches_simps [simp]:
  "matches Empty s" "matches (Sym p) s" "matches (Seq r q) s" "matches (Alt r q) s"

section \<open>The matcher\<close>

primrec star_ends :: "(string \<Rightarrow> string list) \<Rightarrow> nat \<Rightarrow> string \<Rightarrow> string list" where
  "star_ends f 0 s = [s]"
| "star_ends f (Suc n) s = s # concat (map (star_ends f n) (filter (\<lambda>t. length t < length s) (f s)))"

primrec ends :: "regex \<Rightarrow> string \<Rightarrow> string list" where
  "ends Empty s = [s]"
| "ends (Sym p) s = (case s of [] \<Rightarrow> [] | c # cs \<Rightarrow> if p c then [cs] else [])"
| "ends (Seq r q) s = concat (map (ends q) (ends r s))"
| "ends (Alt r q) s = ends r s @ ends q s"
| "ends (Star r) s = star_ends (ends r) (length s) s"

lemma star_ends_sound:
  assumes "\<And>s t. t \<in> set (f s) \<Longrightarrow> \<exists>u. s = u @ t \<and> matches r u" and "t \<in> set (star_ends f n s)"
  shows "\<exists>u. s = u @ t \<and> matches (Star r) u"
  using assms(2)
proof (induction n arbitrary: s)
  case (Suc n)
  then consider "t = s" | x where "x \<in> set (f s)" "t \<in> set (star_ends f n x)" by auto
  then show ?case
  proof cases
    case 2
    then show ?thesis using assms(1)[of x s] Suc.IH[of x] by (fastforce intro: matches_Star_Cons)
  qed (auto intro: matches_Star_Nil)
qed (auto intro: matches_Star_Nil)

lemma star_ends_complete:
  assumes "\<And>u t. matches r u \<Longrightarrow> t \<in> set (f (u @ t))" and "matches (Star r) u" and "length u \<le> n"
  shows "t \<in> set (star_ends f n (u @ t))"
  using assms(2,3)
proof (induction "Star r" u arbitrary: n rule: matches.induct)
  case matches_Star_Nil
  then show ?case by (cases n) auto
next
  case (matches_Star_Cons s v)
  show ?case
  proof (cases "s = []")
    case False
    then have "0 < length s" by simp
    with matches_Star_Cons.prems obtain m where m: "n = Suc m" by (cases n) auto
    have "length s + length v \<le> Suc m" using matches_Star_Cons.prems m by simp
    with \<open>0 < length s\<close> have "length v \<le> m" by linarith
    then have "t \<in> set (star_ends f m (v @ t))" by (rule matches_Star_Cons)
    moreover have "v @ t \<in> set (f (s @ v @ t))" using assms(1) matches_Star_Cons(1) by simp
    ultimately show ?thesis using m \<open>0 < length s\<close> by auto
  qed (use matches_Star_Cons in auto)
qed

lemma ends_iff: "t \<in> set (ends r s) \<longleftrightarrow> (\<exists>u. s = u @ t \<and> matches r u)"
proof (induction r arbitrary: s t)
  case (Sym p)
  then show ?case by (auto split: list.splits)
next
  case (Seq r q)
  have "t \<in> set (ends (Seq r q) s) \<longleftrightarrow> (\<exists>x u v. s = u @ x \<and> matches r u \<and> x = v @ t \<and> matches q v)"
    by (auto simp: Seq) blast
  also have "\<dots> \<longleftrightarrow> (\<exists>u. s = u @ t \<and> matches (Seq r q) u)" by (simp; metis append.assoc)
  finally show ?case .
next
  case (Star r)
  show ?case
  proof
    assume "t \<in> set (ends (Star r) s)"
    then show "\<exists>u. s = u @ t \<and> matches (Star r) u"
      using star_ends_sound[of "ends r" r] Star by simp
  qed (use Star star_ends_complete[of r "ends r"] in auto)
qed auto

text \<open>\<open>fullmatch\<close>, and \<open>search\<close> at every position.\<close>

definition fullmatch :: "regex \<Rightarrow> string \<Rightarrow> bool" where
  "fullmatch r s = ([] \<in> set (ends r s))"

fun search :: "regex \<Rightarrow> string \<Rightarrow> bool" where
  "search r [] = (ends r [] \<noteq> [])"
| "search r (c # cs) = (ends r (c # cs) \<noteq> [] \<or> search r cs)"

theorem fullmatch_iff: "fullmatch r s \<longleftrightarrow> matches r s"
  by (simp add: fullmatch_def ends_iff)

lemma ends_Nil_iff: "ends r s \<noteq> [] \<longleftrightarrow> (\<exists>u t. s = u @ t \<and> matches r u)"
proof -
  have "ends r s \<noteq> [] \<longleftrightarrow> (\<exists>t. t \<in> set (ends r s))" by (cases "ends r s") auto
  then show ?thesis unfolding ends_iff by blast
qed

theorem search_iff: "search r s \<longleftrightarrow> (\<exists>a u b. s = a @ u @ b \<and> matches r u)"
proof (induction s)
  case (Cons c cs)
  show ?case
  proof
    assume "search r (c # cs)"
    then consider "ends r (c # cs) \<noteq> []" | "search r cs" by auto
    then show "\<exists>a u b. c # cs = a @ u @ b \<and> matches r u"
    proof cases
      case 1
      then obtain u t where "c # cs = [] @ u @ t" "matches r u" unfolding ends_Nil_iff by auto
      then show ?thesis by blast
    next
      case 2
      then obtain a u b where "cs = a @ u @ b" "matches r u" using Cons.IH by blast
      then have "c # cs = (c # a) @ u @ b \<and> matches r u" by simp
      then show ?thesis by blast
    qed
  next
    assume "\<exists>a u b. c # cs = a @ u @ b \<and> matches r u"
    then obtain a u b where *: "c # cs = a @ u @ b" "matches r u" by blast
    show "search r (c # cs)"
    proof (cases a)
      case Nil
      with * have "ends r (c # cs) \<noteq> []" unfolding ends_Nil_iff by auto
      then show ?thesis by simp
    next
      case (Cons d ds)
      with *(1) have "cs = ds @ u @ b" by simp
      with *(2) \<open>search r cs \<longleftrightarrow> _\<close> have "search r cs" by blast
      then show ?thesis by simp
    qed
  qed
qed (simp add: ends_Nil_iff)

lemma search_factor: "search r s \<Longrightarrow> search r (a @ s @ b)"
proof -
  assume "search r s"
  then obtain x u y where "s = x @ u @ y" "matches r u" unfolding search_iff by blast
  then have "a @ s @ b = (a @ x) @ u @ (y @ b) \<and> matches r u" by simp
  then show ?thesis unfolding search_iff by blast
qed

lemma search_take: "search r (take n s) \<Longrightarrow> search r s"
  using search_factor[of r "take n s" "[]" "drop n s"] by simp

section \<open>Writing patterns\<close>

text \<open>\<open>literal\<close> is a literal string, \<open>any_of\<close> an alternation, the others the repetitions
  \<open>r?\<close>, \<open>r+\<close>, \<open>r{n}\<close>, \<open>r{n,}\<close> and \<open>r{0,n}\<close>.\<close>

fun literal :: "string \<Rightarrow> regex" where
  "literal [] = Empty"
| "literal [c] = Sym ((=) c)"
| "literal (c # cs) = Seq (Sym ((=) c)) (literal cs)"

definition chars :: "string \<Rightarrow> regex" where
  "chars cs = Sym (\<lambda>c. c \<in> set cs)"

definition maybe :: "regex \<Rightarrow> regex" where
  "maybe r = Alt r Empty"

definition plus :: "regex \<Rightarrow> regex" where
  "plus r = Seq r (Star r)"

primrec times :: "nat \<Rightarrow> regex \<Rightarrow> regex" where
  "times 0 r = Empty"
| "times (Suc n) r = Seq r (times n r)"

definition at_least :: "nat \<Rightarrow> regex \<Rightarrow> regex" where
  "at_least n r = Seq (times n r) (Star r)"

primrec up_to :: "nat \<Rightarrow> regex \<Rightarrow> regex" where
  "up_to 0 r = Empty"
| "up_to (Suc n) r = maybe (Seq r (up_to n r))"

fun any_of :: "regex list \<Rightarrow> regex" where
  "any_of [] = Sym (\<lambda>_. False)"
| "any_of [r] = r"
| "any_of (r # rs) = Alt r (any_of rs)"

fun in_order :: "regex list \<Rightarrow> regex" where
  "in_order [] = Empty"
| "in_order [r] = r"
| "in_order (r # rs) = Seq r (in_order rs)"

lemma matches_literal [simp]: "matches (literal w) s \<longleftrightarrow> s = w"
  by (induction w arbitrary: s rule: literal.induct) auto

lemma matches_Sym_then: "matches (Seq (Sym p) r) s \<longleftrightarrow> (\<exists>c t. s = c # t \<and> p c \<and> matches r t)"
proof
  show "matches (Seq (Sym p) r) s \<Longrightarrow> \<exists>c t. s = c # t \<and> p c \<and> matches r t" by auto
next
  assume "\<exists>c t. s = c # t \<and> p c \<and> matches r t"
  then obtain c t where "s = [c] @ t" "matches (Sym p) [c]" "matches r t" by auto
  then show "matches (Seq (Sym p) r) s" unfolding matches_simps(3) by blast
qed

lemma matches_times:
  "matches (times n (Sym p)) s \<longleftrightarrow> length s = n \<and> (\<forall>c \<in> set s. p c)"
  by (induction n arbitrary: s) (auto simp: length_Suc_conv matches_Sym_then simp del: matches_simps(3))

lemma matches_Star_Sym: "matches (Star (Sym p)) s \<longleftrightarrow> (\<forall>c \<in> set s. p c)"
proof
  show "matches (Star (Sym p)) s \<Longrightarrow> \<forall>c \<in> set s. p c"
    by (induction "Star (Sym p)" s rule: matches.induct) auto
  show "\<forall>c \<in> set s. p c \<Longrightarrow> matches (Star (Sym p)) s"
  proof (induction s)
    case (Cons c cs)
    then show ?case using matches_Star_Cons[of "Sym p" "[c]" cs] by simp
  qed (rule matches_Star_Nil)
qed

end
