(* ===== verification/SearchDocuments.thy ===== *)
theory SearchDocuments
  imports Regex Json Sha256 IpAddress
begin

text \<open>
  The safe search projections of \<open>opensearch/documents.py\<close>, with the sanitizers of
  \<open>archive/schemas.py\<close> they are built with: the three document models, their builders from the
  database rows, and the canonical payload and its digests, on which the outbox decides whether two
  projections are the same. How Pydantic writes a timestamp and Python a float is a parameter
  (\<open>Writer\<close>). Text fields of a document never carry a secret or a control character.
\<close>

section \<open>Sanitizing text\<close>

text \<open>\<open>_SENSITIVE_TEXT\<close> is compiled with \<open>(?i)\<close>: the pattern in lower case is searched in the
  lower-cased text.\<close>

definition SENSITIVE_TEXT :: regex where
  "SENSITIVE_TEXT = (
    let spaces = Star (Sym is_space);
        token = plus (Sym (\<lambda>c. is_lower c \<or> is_digit c \<or> c \<in> set ''_-''))
    in any_of [
      in_order [literal ''authorization'', spaces, literal '':''],
      in_order [literal ''bearer'', plus (Sym is_space),
        plus (Sym (\<lambda>c. is_lower c \<or> is_digit c \<or> c \<in> set ''._~+/=-''))],
      in_order [literal ''api'', maybe (chars ''_ -''), literal ''key'', spaces, chars '':=''],
      in_order [literal ''password'', spaces, chars '':=''],
      in_order [literal ''opensearch'', maybe (Seq (maybe (chars ''_ -'')) (literal ''url'')), spaces, chars '':=''],
      Seq (literal ''soc_'') (at_least 20 (Sym (\<lambda>c. is_lower c \<or> is_digit c \<or> c \<in> set ''_-''))),
      in_order [Sym is_lower, literal '':'', Sym (\<lambda>c. c = CHR 0x5C \<or> c = CHR ''/'')],
      in_order [literal ''/'', any_of (map literal [''home'', ''root'', ''srv'', ''tmp'', ''var'']), literal ''/''],
      in_order [any_of [Seq (literal ''postgres'') (maybe (literal ''ql'')), literal ''mysql'', literal ''mariadb'',
        literal ''redis''], literal ''://''],
      literal ''sqlite:///'',
      in_order [literal ''eyj'', token, literal ''.'', token, literal ''.'', token],
      in_order [literal ''provider'', plus (Sym is_space), literal ''prompt''],
      in_order [literal ''prompt'', plus (Sym is_space), literal ''secret''],
      in_order [literal ''super'', maybe (chars ''-_ ''), literal ''secret''],
      in_order [literal ''raw'', plus (Sym is_space), literal ''exception'', plus (Sym is_space),
        literal ''secret'']])"

definition sensitive :: "string \<Rightarrow> bool" where
  "sensitive s = search SENSITIVE_TEXT (py_lower s)"

definition control_char :: "char \<Rightarrow> bool" where
  "control_char c = (let n = (of_char c :: nat) in
     n \<le> 8 \<or> n = 11 \<or> n = 12 \<or> (14 \<le> n \<and> n \<le> 31) \<or> n = 127)"

definition blank_controls :: "string \<Rightarrow> string" where
  "blank_controls s = map (\<lambda>c. if control_char c then CHR '' '' else c) s"

definition safe_text :: "nat \<Rightarrow> string option \<Rightarrow> string option" where
  "safe_text max_length value = (case value of None \<Rightarrow> None | Some text \<Rightarrow>
     (let normalized = py_strip (blank_controls text)
      in if normalized = [] then None
         else if sensitive normalized then Some ''[redacted]''
         else Some (take max_length normalized)))"

text \<open>\<open>safe_string_list\<close> with its defaults: at most 100 items are read, each cut at 256.\<close>

definition append_safe :: "string \<Rightarrow> string list \<Rightarrow> string list" where
  "append_safe item result = (case safe_text 256 (Some item) of
       None \<Rightarrow> result
     | Some s \<Rightarrow> if s \<in> set result then result else result @ [s])"

definition safe_string_list :: "string list \<Rightarrow> string list" where
  "safe_string_list value = fold append_safe (take 100 value) []"

definition safe_sorted_strings :: "string list \<Rightarrow> string list" where
  "safe_sorted_strings value = safe_string_list (sort_uniq value)"

definition normalized_ip :: "string option \<Rightarrow> string option" where
  "normalized_ip value = (case safe_text 64 value of None \<Rightarrow> None
     | Some s \<Rightarrow> map_option ip_text (parse_ip s))"

text \<open>\<open>_required_text\<close>.\<close>

definition required_text :: "nat \<Rightarrow> string option \<Rightarrow> string + string" where
  "required_text max_length value = (case safe_text max_length value of
     None \<Rightarrow> Inl ''opensearch_document_identifier_invalid'' | Some s \<Rightarrow> Inr s)"

section \<open>Documents\<close>

record SafeSearchDocument =
  sd_schema_version :: string
  sd_entity_id :: string
  sd_document_version :: int
  sd_indexed_at :: datetime
  sd_source_updated_at :: datetime

record CanonicalEventSearchDocument = SafeSearchDocument +
  ed_event_id :: string
  ed_timestamp :: datetime
  ed_observed_at :: "datetime option"
  ed_source_name :: "string option"
  ed_parser_name :: "string option"
  ed_parser_version :: "string option"
  ed_src_ip :: "string option"
  ed_dst_ip :: "string option"
  ed_src_port :: "int option"
  ed_dst_port :: "int option"
  ed_protocol :: "string option"
  ed_action :: "string option"
  ed_user :: "string option"
  ed_safe_message_excerpt :: "string option"
  ed_job_ids :: "string list"
  ed_incident_ids :: "string list"
  ed_context_incident_ids :: "string list"

record DetectionSignalSearchDocument = SafeSearchDocument +
  gd_signal_id :: string
  gd_rule_id :: "string option"
  gd_rule_name :: "string option"
  gd_rule_version :: "string option"
  gd_signal_type :: "string option"
  gd_signal_family :: "string option"
  gd_severity :: "string option"
  gd_confidence :: "rat option"
  gd_first_seen :: "datetime option"
  gd_last_seen :: "datetime option"
  gd_created_at :: datetime
  gd_suppressed :: bool
  gd_suppression_reason :: "string option"
  gd_mitre_techniques :: "string list"
  gd_target_entities :: "string list"
  gd_job_ids :: "string list"
  gd_incident_ids :: "string list"

record IncidentSearchDocument = SafeSearchDocument +
  cd_incident_id :: string
  cd_title :: "string option"
  cd_incident_type :: "string option"
  cd_incident_family :: "string option"
  cd_status :: "string option"
  cd_severity :: "string option"
  cd_confidence :: "rat option"
  cd_version :: int
  cd_first_seen :: "datetime option"
  cd_last_seen :: "datetime option"
  cd_created_at :: "datetime option"
  cd_updated_at :: datetime
  cd_primary_entity :: "string option"
  cd_target_entities :: "string list"
  cd_mitre_techniques :: "string list"
  cd_job_ids :: "string list"
  cd_has_report :: bool
  cd_has_validated_evidence :: bool

datatype SearchDocument = EventDocument CanonicalEventSearchDocument
  | SignalDocument DetectionSignalSearchDocument
  | IncidentDocument IncidentSearchDocument

text \<open>The constraints every document model states on the fields of its base class.\<close>

definition schema_version_pattern :: regex where
  "schema_version_pattern = in_order [literal ''v'', Sym (\<lambda>c. is_digit c \<and> c \<noteq> CHR ''0''), up_to 5 (Sym is_digit)]"

definition base_ok :: "'a SafeSearchDocument_scheme \<Rightarrow> bool" where
  "base_ok d = (fullmatch schema_version_pattern (sd_schema_version d) \<and>
     1 \<le> length (sd_entity_id d) \<and> length (sd_entity_id d) \<le> 256 \<and> 1 \<le> sd_document_version d)"

definition port_ok :: "int option \<Rightarrow> bool" where
  "port_ok p = (case p of None \<Rightarrow> True | Some n \<Rightarrow> 0 \<le> n \<and> n \<le> 65535)"

definition confidence_ok :: "rat option \<Rightarrow> bool" where
  "confidence_ok c = (case c of None \<Rightarrow> True | Some x \<Rightarrow> 0 \<le> x \<and> x \<le> 1)"

definition validated :: "bool \<Rightarrow> 'a \<Rightarrow> string + 'a" where
  "validated ok d = (if ok then Inr d else Inl ''ValidationError'')"

section \<open>Rows and builders\<close>

text \<open>The columns of the rows the builders read.\<close>

record CanonicalEventRow =
  er_event_id :: "string option"
  er_timestamp :: "datetime option"
  er_observed_at :: "datetime option"
  er_source_name :: "string option"
  er_parser_name :: "string option"
  er_parser_version :: "string option"
  er_src_ip :: "string option"
  er_dst_ip :: "string option"
  er_src_port :: "int option"
  er_dst_port :: "int option"
  er_protocol :: "string option"
  er_action :: "string option"
  er_user :: "string option"
  er_safe_message_excerpt :: "string option"

record DetectionSignalRow =
  gr_signal_id :: "string option"
  gr_rule_id :: "string option"
  gr_rule_name :: "string option"
  gr_rule_version :: "string option"
  gr_signal_family :: "string option"
  gr_signal_type :: "string option"
  gr_severity :: "string option"
  gr_confidence :: "rat option"
  gr_first_seen :: "datetime option"
  gr_last_seen :: "datetime option"
  gr_created_at :: "datetime option"
  gr_suppressed :: bool
  gr_suppression_reason :: "string option"
  gr_mitre_techniques :: "string list"
  gr_target_entities :: "string list"

record IncidentRow =
  ir_incident_id :: "string option"
  ir_title :: "string option"
  ir_incident_type :: "string option"
  ir_incident_family :: "string option"
  ir_status :: "string option"
  ir_severity :: "string option"
  ir_confidence :: "rat option"
  ir_version :: "int option"
  ir_first_seen :: "datetime option"
  ir_last_seen :: "datetime option"
  ir_created_at :: "datetime option"
  ir_updated_at :: "datetime option"
  ir_primary_entity :: "string option"
  ir_target_entities :: "string list"
  ir_mitre_techniques :: "string list"

primrec first_time :: "datetime option list \<Rightarrow> datetime option" where
  "first_time [] = None"
| "first_time (t # ts) = (case t of Some x \<Rightarrow> Some x | None \<Rightarrow> first_time ts)"

definition timestamp_or_error :: "datetime option list \<Rightarrow> string + datetime" where
  "timestamp_or_error ts = (case first_time ts of
     None \<Rightarrow> Inl ''opensearch_document_timestamp_missing'' | Some t \<Rightarrow> Inr t)"

text \<open>\<open>indexed_at or timestamp\<close>.\<close>

definition snapshot_time :: "datetime option \<Rightarrow> datetime \<Rightarrow> datetime" where
  "snapshot_time indexed_at t = (case indexed_at of Some i \<Rightarrow> i | None \<Rightarrow> t)"

definition canonical_event_document ::
    "CanonicalEventRow \<Rightarrow> string \<Rightarrow> datetime option \<Rightarrow> int \<Rightarrow> string list \<Rightarrow> string list \<Rightarrow> string list
     \<Rightarrow> string + CanonicalEventSearchDocument" where
  "canonical_event_document row schema_version indexed_at document_version job_ids incident_ids context_incident_ids =
     bind_err (timestamp_or_error [er_timestamp row, er_observed_at row, indexed_at]) (\<lambda>timestamp.
     bind_err (required_text 256 (er_event_id row)) (\<lambda>event_id.
       let d = \<lparr> sd_schema_version = schema_version, sd_entity_id = event_id,
         sd_document_version = document_version, sd_indexed_at = snapshot_time indexed_at timestamp,
         sd_source_updated_at = timestamp,
         ed_event_id = event_id, ed_timestamp = timestamp, ed_observed_at = er_observed_at row,
         ed_source_name = safe_text 256 (er_source_name row),
         ed_parser_name = safe_text 128 (er_parser_name row),
         ed_parser_version = safe_text 64 (er_parser_version row),
         ed_src_ip = normalized_ip (normalized_ip (er_src_ip row)),
         ed_dst_ip = normalized_ip (normalized_ip (er_dst_ip row)),
         ed_src_port = er_src_port row, ed_dst_port = er_dst_port row,
         ed_protocol = safe_text 32 (er_protocol row), ed_action = safe_text 64 (er_action row),
         ed_user = safe_text 256 (er_user row),
         ed_safe_message_excerpt = safe_text 1024 (er_safe_message_excerpt row),
         ed_job_ids = safe_sorted_strings job_ids, ed_incident_ids = safe_sorted_strings incident_ids,
         ed_context_incident_ids = safe_sorted_strings context_incident_ids \<rparr>
       in validated (base_ok d \<and> port_ok (ed_src_port d) \<and> port_ok (ed_dst_port d)) d))"

definition detection_signal_document ::
    "DetectionSignalRow \<Rightarrow> string \<Rightarrow> datetime option \<Rightarrow> int \<Rightarrow> string list \<Rightarrow> string list
     \<Rightarrow> string + DetectionSignalSearchDocument" where
  "detection_signal_document row schema_version indexed_at document_version job_ids incident_ids =
     bind_err (timestamp_or_error [gr_created_at row, gr_first_seen row, gr_last_seen row, indexed_at]) (\<lambda>created_at.
     bind_err (required_text 256 (gr_signal_id row)) (\<lambda>signal_id.
       let d = \<lparr> sd_schema_version = schema_version, sd_entity_id = signal_id,
         sd_document_version = document_version, sd_indexed_at = snapshot_time indexed_at created_at,
         sd_source_updated_at = created_at,
         gd_signal_id = signal_id, gd_rule_id = safe_text 128 (gr_rule_id row),
         gd_rule_name = safe_text 256 (gr_rule_name row), gd_rule_version = safe_text 64 (gr_rule_version row),
         gd_signal_type = safe_text 128 (gr_signal_type row),
         gd_signal_family = safe_text 128 (gr_signal_family row), gd_severity = safe_text 32 (gr_severity row),
         gd_confidence = gr_confidence row, gd_first_seen = gr_first_seen row,
         gd_last_seen = gr_last_seen row, gd_created_at = created_at, gd_suppressed = gr_suppressed row,
         gd_suppression_reason = safe_text 256 (gr_suppression_reason row),
         gd_mitre_techniques = safe_sorted_strings (gr_mitre_techniques row),
         gd_target_entities = safe_sorted_strings (gr_target_entities row),
         gd_job_ids = safe_sorted_strings job_ids, gd_incident_ids = safe_sorted_strings incident_ids \<rparr>
       in validated (base_ok d \<and> confidence_ok (gd_confidence d)) d))"

text \<open>\<open>max(1, int(row.version or 1))\<close>.\<close>

definition version_of :: "int option \<Rightarrow> int" where
  "version_of v = max 1 (case v of None \<Rightarrow> 1 | Some n \<Rightarrow> if n = 0 then 1 else n)"

definition incident_document ::
    "IncidentRow \<Rightarrow> string \<Rightarrow> datetime option \<Rightarrow> string list \<Rightarrow> bool \<Rightarrow> bool
     \<Rightarrow> string + IncidentSearchDocument" where
  "incident_document row schema_version indexed_at job_ids has_report has_validated_evidence =
     bind_err (timestamp_or_error [ir_updated_at row, ir_created_at row, indexed_at]) (\<lambda>updated_at.
     bind_err (required_text 256 (ir_incident_id row)) (\<lambda>incident_id.
       let version = version_of (ir_version row);
           d = \<lparr> sd_schema_version = schema_version, sd_entity_id = incident_id,
         sd_document_version = version, sd_indexed_at = snapshot_time indexed_at updated_at,
         sd_source_updated_at = updated_at,
         cd_incident_id = incident_id, cd_title = safe_text 512 (ir_title row),
         cd_incident_type = safe_text 128 (ir_incident_type row),
         cd_incident_family = safe_text 128 (ir_incident_family row),
         cd_status = safe_text 32 (ir_status row), cd_severity = safe_text 32 (ir_severity row),
         cd_confidence = ir_confidence row, cd_version = version,
         cd_first_seen = ir_first_seen row, cd_last_seen = ir_last_seen row,
         cd_created_at = ir_created_at row, cd_updated_at = updated_at,
         cd_primary_entity = safe_text 256 (ir_primary_entity row),
         cd_target_entities = safe_sorted_strings (ir_target_entities row),
         cd_mitre_techniques = safe_sorted_strings (ir_mitre_techniques row),
         cd_job_ids = safe_sorted_strings job_ids,
         cd_has_report = has_report, cd_has_validated_evidence = has_validated_evidence \<rparr>
       in validated (base_ok d \<and> confidence_ok (cd_confidence d) \<and> 1 \<le> cd_version d) d))"

section \<open>Canonical payloads\<close>

datatype json = JNull | JBool bool | JInt int | JNumber rat | JText string
  | JArray "json list" | JObject "(string \<times> json) list"

text \<open>\<open>json.dumps(..., ensure_ascii=False, separators=(",", ":"), sort_keys=True)\<close>: of the ASCII
  characters, the ones below space, the quote and the backslash are escaped.\<close>

definition json_plain_char :: "char \<Rightarrow> string" where
  "json_plain_char c = (if of_char c = (127 :: nat) then [c] else json_char c)"

definition json_plain :: "string \<Rightarrow> string" where
  "json_plain s = [CHR 0x22] @ concat (map json_plain_char s) @ [CHR 0x22]"

record Writer =
  write_time :: "datetime \<Rightarrow> string"
  write_number :: "rat \<Rightarrow> string"

primrec dumps :: "Writer \<Rightarrow> json \<Rightarrow> string" where
  "dumps w JNull = ''null''"
| "dumps w (JBool b) = (if b then ''true'' else ''false'')"
| "dumps w (JInt i) = str_of_int i"
| "dumps w (JNumber x) = write_number w x"
| "dumps w (JText s) = json_plain s"
| "dumps w (JArray xs) = ''['' @ py_join '','' (map (dumps w) xs) @ '']''"
| "dumps w (JObject kvs) = ''{'' @ py_join '',''
     (map (\<lambda>(k, v). json_plain k @ '':'' @ v) (sort_key fst (map (map_prod id (dumps w)) kvs))) @ ''}''"

definition json_opt :: "('a \<Rightarrow> json) \<Rightarrow> 'a option \<Rightarrow> json" where
  "json_opt f v = (case v of None \<Rightarrow> JNull | Some x \<Rightarrow> f x)"

definition json_texts :: "string list \<Rightarrow> json" where
  "json_texts xs = JArray (map JText xs)"

definition json_time :: "Writer \<Rightarrow> datetime \<Rightarrow> json" where
  "json_time w t = JText (write_time w t)"

text \<open>\<open>model_dump(mode="json")\<close>: the fields in the order of the classes.\<close>

definition base_payload :: "Writer \<Rightarrow> string \<Rightarrow> 'a SafeSearchDocument_scheme \<Rightarrow> (string \<times> json) list" where
  "base_payload w entity_type d = [
     (''schema_version'', JText (sd_schema_version d)), (''entity_type'', JText entity_type),
     (''entity_id'', JText (sd_entity_id d)), (''document_version'', JInt (sd_document_version d)),
     (''indexed_at'', json_time w (sd_indexed_at d)),
     (''source_updated_at'', json_time w (sd_source_updated_at d))]"

definition event_payload :: "Writer \<Rightarrow> CanonicalEventSearchDocument \<Rightarrow> (string \<times> json) list" where
  "event_payload w d = base_payload w ''canonical_event'' d @ [
     (''event_id'', JText (ed_event_id d)), (''timestamp'', json_time w (ed_timestamp d)),
     (''observed_at'', json_opt (json_time w) (ed_observed_at d)),
     (''source_name'', json_opt JText (ed_source_name d)),
     (''parser_name'', json_opt JText (ed_parser_name d)),
     (''parser_version'', json_opt JText (ed_parser_version d)),
     (''src_ip'', json_opt JText (ed_src_ip d)), (''dst_ip'', json_opt JText (ed_dst_ip d)),
     (''src_port'', json_opt JInt (ed_src_port d)), (''dst_port'', json_opt JInt (ed_dst_port d)),
     (''protocol'', json_opt JText (ed_protocol d)), (''action'', json_opt JText (ed_action d)),
     (''user'', json_opt JText (ed_user d)),
     (''safe_message_excerpt'', json_opt JText (ed_safe_message_excerpt d)),
     (''job_ids'', json_texts (ed_job_ids d)), (''incident_ids'', json_texts (ed_incident_ids d)),
     (''context_incident_ids'', json_texts (ed_context_incident_ids d))]"

definition signal_payload :: "Writer \<Rightarrow> DetectionSignalSearchDocument \<Rightarrow> (string \<times> json) list" where
  "signal_payload w d = base_payload w ''detection_signal'' d @ [
     (''signal_id'', JText (gd_signal_id d)), (''rule_id'', json_opt JText (gd_rule_id d)),
     (''rule_name'', json_opt JText (gd_rule_name d)),
     (''rule_version'', json_opt JText (gd_rule_version d)),
     (''signal_type'', json_opt JText (gd_signal_type d)),
     (''signal_family'', json_opt JText (gd_signal_family d)),
     (''severity'', json_opt JText (gd_severity d)),
     (''confidence'', json_opt JNumber (gd_confidence d)),
     (''first_seen'', json_opt (json_time w) (gd_first_seen d)),
     (''last_seen'', json_opt (json_time w) (gd_last_seen d)),
     (''created_at'', json_time w (gd_created_at d)), (''suppressed'', JBool (gd_suppressed d)),
     (''suppression_reason'', json_opt JText (gd_suppression_reason d)),
     (''mitre_techniques'', json_texts (gd_mitre_techniques d)),
     (''target_entities'', json_texts (gd_target_entities d)),
     (''job_ids'', json_texts (gd_job_ids d)), (''incident_ids'', json_texts (gd_incident_ids d))]"

definition incident_payload :: "Writer \<Rightarrow> IncidentSearchDocument \<Rightarrow> (string \<times> json) list" where
  "incident_payload w d = base_payload w ''incident'' d @ [
     (''incident_id'', JText (cd_incident_id d)), (''title'', json_opt JText (cd_title d)),
     (''incident_type'', json_opt JText (cd_incident_type d)),
     (''incident_family'', json_opt JText (cd_incident_family d)),
     (''status'', json_opt JText (cd_status d)), (''severity'', json_opt JText (cd_severity d)),
     (''confidence'', json_opt JNumber (cd_confidence d)), (''version'', JInt (cd_version d)),
     (''first_seen'', json_opt (json_time w) (cd_first_seen d)),
     (''last_seen'', json_opt (json_time w) (cd_last_seen d)),
     (''created_at'', json_opt (json_time w) (cd_created_at d)),
     (''updated_at'', json_time w (cd_updated_at d)),
     (''primary_entity'', json_opt JText (cd_primary_entity d)),
     (''target_entities'', json_texts (cd_target_entities d)),
     (''mitre_techniques'', json_texts (cd_mitre_techniques d)),
     (''job_ids'', json_texts (cd_job_ids d)), (''has_report'', JBool (cd_has_report d)),
     (''has_validated_evidence'', JBool (cd_has_validated_evidence d))]"

primrec search_document_payload :: "Writer \<Rightarrow> SearchDocument \<Rightarrow> (string \<times> json) list" where
  "search_document_payload w (EventDocument d) = event_payload w d"
| "search_document_payload w (SignalDocument d) = signal_payload w d"
| "search_document_payload w (IncidentDocument d) = incident_payload w d"

definition canonical_payload_bytes :: "Writer \<Rightarrow> (string \<times> json) list \<Rightarrow> string" where
  "canonical_payload_bytes w payload = dumps w (JObject payload)"

definition calculate_payload_sha256 :: "Writer \<Rightarrow> (string \<times> json) list \<Rightarrow> string" where
  "calculate_payload_sha256 w payload = sha256_hex (canonical_payload_bytes w payload)"

text \<open>\<open>payload.pop(key, None)\<close> of the two keys that do not take part in versioning.\<close>

definition projection_fingerprint_source :: "Writer \<Rightarrow> SearchDocument \<Rightarrow> (string \<times> json) list" where
  "projection_fingerprint_source w d =
     filter (\<lambda>(k, _). k \<noteq> ''document_version'' \<and> k \<noteq> ''indexed_at'') (search_document_payload w d)"

definition calculate_projection_sha256 :: "Writer \<Rightarrow> SearchDocument \<Rightarrow> string" where
  "calculate_projection_sha256 w d = calculate_payload_sha256 w (projection_fingerprint_source w d)"

text \<open>The base fields every document has, and \<open>model_copy(update={"document_version": v})\<close>.\<close>

primrec entity_type :: "SearchDocument \<Rightarrow> string" where
  "entity_type (EventDocument d) = ''canonical_event''"
| "entity_type (SignalDocument d) = ''detection_signal''"
| "entity_type (IncidentDocument d) = ''incident''"

primrec entity_id :: "SearchDocument \<Rightarrow> string" where
  "entity_id (EventDocument d) = sd_entity_id d"
| "entity_id (SignalDocument d) = sd_entity_id d"
| "entity_id (IncidentDocument d) = sd_entity_id d"

primrec schema_version :: "SearchDocument \<Rightarrow> string" where
  "schema_version (EventDocument d) = sd_schema_version d"
| "schema_version (SignalDocument d) = sd_schema_version d"
| "schema_version (IncidentDocument d) = sd_schema_version d"

primrec document_version :: "SearchDocument \<Rightarrow> int" where
  "document_version (EventDocument d) = sd_document_version d"
| "document_version (SignalDocument d) = sd_document_version d"
| "document_version (IncidentDocument d) = sd_document_version d"

primrec indexed_at :: "SearchDocument \<Rightarrow> datetime" where
  "indexed_at (EventDocument d) = sd_indexed_at d"
| "indexed_at (SignalDocument d) = sd_indexed_at d"
| "indexed_at (IncidentDocument d) = sd_indexed_at d"

primrec source_updated_at :: "SearchDocument \<Rightarrow> datetime" where
  "source_updated_at (EventDocument d) = sd_source_updated_at d"
| "source_updated_at (SignalDocument d) = sd_source_updated_at d"
| "source_updated_at (IncidentDocument d) = sd_source_updated_at d"

primrec with_version :: "int \<Rightarrow> SearchDocument \<Rightarrow> SearchDocument" where
  "with_version v (EventDocument d) = EventDocument (d\<lparr>sd_document_version := v\<rparr>)"
| "with_version v (SignalDocument d) = SignalDocument (d\<lparr>sd_document_version := v\<rparr>)"
| "with_version v (IncidentDocument d) = IncidentDocument (d\<lparr>sd_document_version := v\<rparr>)"

section \<open>Facts\<close>

definition text_safe :: "string \<Rightarrow> bool" where
  "text_safe s = (s \<noteq> [] \<and> \<not> sensitive s \<and> (\<forall>c \<in> set s. \<not> control_char c))"

lemma redacted_safe: "text_safe ''[redacted]''"
proof -
  have "\<not> sensitive ''[redacted]''" by code_simp
  moreover have "list_all (\<lambda>c. \<not> control_char c) ''[redacted]''" by code_simp
  ultimately show ?thesis unfolding text_safe_def list_all_iff by simp
qed

lemma set_py_strip: "set (py_strip s) \<subseteq> set s"
  unfolding py_strip_def by (auto dest!: set_dropWhileD)

lemma blank_controls_clean: "c \<in> set (blank_controls s) \<Longrightarrow> \<not> control_char c"
  by (auto simp: blank_controls_def control_char_def)

lemma sensitive_take: "sensitive (take n s) \<Longrightarrow> sensitive s"
  unfolding sensitive_def py_lower_def take_map[symmetric] by (rule search_take)

lemma safe_text_safe: "safe_text n v = Some s \<Longrightarrow> 0 < n \<Longrightarrow> text_safe s \<and> length s \<le> max n 10"
proof -
  assume *: "safe_text n v = Some s" "0 < n"
  then obtain x where v: "v = Some x" by (cases v) (auto simp: safe_text_def)
  define norm where "norm = py_strip (blank_controls x)"
  have clean: "c \<in> set norm \<Longrightarrow> \<not> control_char c" for c
    using set_py_strip[of "blank_controls x"] blank_controls_clean[of c x] by (auto simp: norm_def)
  from * v consider "s = ''[redacted]''" | "\<not> sensitive norm" "s = take n norm" "norm \<noteq> []"
    by (auto simp: safe_text_def Let_def norm_def split: if_splits)
  then show ?thesis
  proof cases
    case 2
    then have "s \<noteq> []" using \<open>0 < n\<close> by simp
    moreover have "\<not> sensitive s" using 2 sensitive_take by blast
    moreover have "\<forall>c \<in> set s. \<not> control_char c" using 2 clean by (meson in_set_takeD)
    ultimately show ?thesis using 2 by (simp add: text_safe_def)
  qed (simp add: redacted_safe)
qed

lemma append_safe_safe: "\<forall>s \<in> set acc. text_safe s \<Longrightarrow> s \<in> set (append_safe x acc) \<Longrightarrow> text_safe s"
  using safe_text_safe[of 256 "Some x"] by (auto simp: append_safe_def split: option.splits if_splits)

lemma append_safe_size: "distinct acc \<Longrightarrow> distinct (append_safe x acc) \<and> length (append_safe x acc) \<le> Suc (length acc)"
  by (auto simp: append_safe_def split: option.splits)

lemma safe_string_list_safe: "s \<in> set (safe_string_list xs) \<Longrightarrow> text_safe s"
proof -
  have "\<forall>s \<in> set acc. text_safe s \<Longrightarrow> \<forall>s \<in> set (fold append_safe ys acc). text_safe s" for ys acc
  proof (induction ys arbitrary: acc)
    case (Cons y ys)
    have "\<forall>s \<in> set (append_safe y acc). text_safe s" using append_safe_safe[OF Cons.prems] by blast
    then show ?case using Cons.IH by simp
  qed simp
  from this[of "[]"] show "s \<in> set (safe_string_list xs) \<Longrightarrow> text_safe s"
    unfolding safe_string_list_def by simp
qed

lemma safe_string_list_bounded: "length (safe_string_list xs) \<le> 100 \<and> distinct (safe_string_list xs)"
proof -
  have "distinct acc \<Longrightarrow> length (fold append_safe ys acc) \<le> length acc + length ys
      \<and> distinct (fold append_safe ys acc)" for ys acc
  proof (induction ys arbitrary: acc)
    case (Cons y ys)
    have "distinct (append_safe y acc)" "length (append_safe y acc) \<le> Suc (length acc)"
      using append_safe_size[OF Cons.prems] by auto
    with Cons.IH[of "append_safe y acc"] show ?case by auto
  qed simp
  from this[of "[]" "take 100 xs"] show ?thesis unfolding safe_string_list_def by auto
qed

lemma required_text_safe: "required_text 256 v = Inr s \<Longrightarrow> text_safe s \<and> length s \<le> 256"
  using safe_text_safe[of 256 v s] by (auto simp: required_text_def split: option.splits)

text \<open>What a builder may return.\<close>

definition from_builder :: "SearchDocument \<Rightarrow> bool" where
  "from_builder doc = (
     (\<exists>row v i n js is cs d. canonical_event_document row v i n js is cs = Inr d \<and> doc = EventDocument d) \<or>
     (\<exists>row v i n js is d. detection_signal_document row v i n js is = Inr d \<and> doc = SignalDocument d) \<or>
     (\<exists>row v i js r e d. incident_document row v i js r e = Inr d \<and> doc = IncidentDocument d))"

lemma validated_Inr [simp]: "validated ok d = Inr e \<longleftrightarrow> ok \<and> e = d"
  by (auto simp: validated_def)

text \<open>The texts of a JSON value, names of fields left out.\<close>

primrec json_leaves :: "json \<Rightarrow> string set" where
  "json_leaves JNull = {}"
| "json_leaves (JBool b) = {}"
| "json_leaves (JInt i) = {}"
| "json_leaves (JNumber x) = {}"
| "json_leaves (JText s) = {s}"
| "json_leaves (JArray xs) = \<Union> (set (map json_leaves xs))"
| "json_leaves (JObject kvs) = \<Union> (set (map snd (map (map_prod id json_leaves) kvs)))"

lemma leaves_safe:
  "0 < n \<Longrightarrow> s \<in> json_leaves (json_opt JText (safe_text n v)) \<Longrightarrow> text_safe s"
  "s \<in> json_leaves (json_texts (safe_sorted_strings xs)) \<Longrightarrow> text_safe s"
  "json_leaves (json_opt JInt p) = {}" "json_leaves (json_opt JNumber c) = {}"
  using safe_text_safe[of n v]
  by (auto simp: json_texts_def safe_sorted_strings_def safe_string_list_safe json_opt_def split: option.splits)

text \<open>The fields written by code outside the sanitizers: the schema version of the settings, the
  name of the kind, timestamps and addresses (normal forms of parsed addresses).\<close>

definition outside_fields :: "string list" where
  "outside_fields = [''schema_version'', ''entity_type'', ''indexed_at'', ''source_updated_at'',
     ''timestamp'', ''observed_at'', ''first_seen'', ''last_seen'', ''created_at'', ''updated_at'',
     ''src_ip'', ''dst_ip'']"

lemmas payload_defs = base_payload_def event_payload_def signal_payload_def incident_payload_def

definition field_safe :: "string \<times> json \<Rightarrow> bool" where
  "field_safe f = (fst f \<in> set outside_fields \<or> (\<forall>s \<in> json_leaves (snd f). text_safe s))"

lemma field_safe_simps [simp]:
  "0 < n \<Longrightarrow> field_safe (k, json_opt JText (safe_text n v))"
  "field_safe (k, json_texts (safe_sorted_strings xs))"
  "field_safe (k, json_opt JInt p)" "field_safe (k, json_opt JNumber c)" "field_safe (k, JInt z)"
  "field_safe (k, JBool b)" "text_safe s \<Longrightarrow> field_safe (k, JText s)"
  using leaves_safe(1)[of n _ v] by (auto simp: field_safe_def leaves_safe(3,4) dest: leaves_safe(2))

lemma field_safe_outside:
  "field_safe (''schema_version'', x)" "field_safe (''entity_type'', x)" "field_safe (''indexed_at'', x)"
  "field_safe (''source_updated_at'', x)" "field_safe (''timestamp'', x)" "field_safe (''observed_at'', x)"
  "field_safe (''first_seen'', x)" "field_safe (''last_seen'', x)" "field_safe (''created_at'', x)"
  "field_safe (''updated_at'', x)" "field_safe (''src_ip'', x)" "field_safe (''dst_ip'', x)"
  by (simp_all add: field_safe_def outside_fields_def)

lemma event_document_safe:
  "canonical_event_document row v i n js is cs = Inr d \<Longrightarrow> list_all field_safe (event_payload w d)"
  using required_text_safe[of "er_event_id row"]
  by (auto simp: canonical_event_document_def bind_err_Inr Let_def payload_defs field_safe_outside)

lemma signal_document_safe:
  "detection_signal_document row v i n js is = Inr d \<Longrightarrow> list_all field_safe (signal_payload w d)"
  using required_text_safe[of "gr_signal_id row"]
  by (auto simp: detection_signal_document_def bind_err_Inr Let_def payload_defs field_safe_outside)

lemma incident_document_safe:
  "incident_document row v i js r e = Inr d \<Longrightarrow> list_all field_safe (incident_payload w d)"
  using required_text_safe[of "ir_incident_id row"]
  by (auto simp: incident_document_def bind_err_Inr Let_def payload_defs field_safe_outside)

lemma built_safe: "from_builder doc \<Longrightarrow> list_all field_safe (search_document_payload w doc)"
  unfolding from_builder_def
  by (elim disjE exE conjE)
    (simp_all add: event_document_safe signal_document_safe incident_document_safe)


definition sample_event_row :: CanonicalEventRow where
  "sample_event_row = \<lparr>er_event_id = Some ''E1'', er_timestamp = Some (Instant 0), er_observed_at = None,
     er_source_name = Some '' fw01 '', er_parser_name = None, er_parser_version = None,
     er_src_ip = Some ''10.0.0.1'', er_dst_ip = Some ''n/a'', er_src_port = Some 4444, er_dst_port = None,
     er_protocol = None, er_action = None, er_user = None,
     er_safe_message_excerpt = Some ''API-Key : 123''\<rparr>"

definition sample_event_document :: CanonicalEventSearchDocument where
  "sample_event_document = (case canonical_event_document sample_event_row ''v1'' None 1 [''J2'', ''J1''] [] [] of
     Inr d \<Rightarrow> d)"

lemma sample_event_built:
  "canonical_event_document sample_event_row ''v1'' None 1 [''J2'', ''J1''] [] [] = Inr sample_event_document"
proof -
  have "\<not> isl (canonical_event_document sample_event_row ''v1'' None 1 [''J2'', ''J1''] [] [])" by code_simp
  then show ?thesis
    by (cases "canonical_event_document sample_event_row ''v1'' None 1 [''J2'', ''J1''] [] []")
      (simp_all add: sample_event_document_def)
qed

lemma sample_event_from_builder: "from_builder (EventDocument sample_event_document)"
  unfolding from_builder_def by (intro disjI1 exI conjI, rule sample_event_built, rule refl)

lemma event_document_excerpt:
  "canonical_event_document row v i n js is cs = Inr d
    \<Longrightarrow> ed_safe_message_excerpt d = safe_text 1024 (er_safe_message_excerpt row)"
  by (auto simp: canonical_event_document_def bind_err_Inr Let_def)


section \<open>Versions and fingerprints\<close>

lemma with_version_simps [simp]:
  "document_version (with_version v d) = v" "entity_type (with_version v d) = entity_type d"
  "entity_id (with_version v d) = entity_id d" "schema_version (with_version v d) = schema_version d"
  "indexed_at (with_version v d) = indexed_at d" "with_version u (with_version v d) = with_version u d"
  "source_updated_at (with_version v d) = source_updated_at d"
  by (cases d; simp)+

lemma payload_head:
  "search_document_payload w d =
     (''schema_version'', JText (schema_version d)) # (''entity_type'', JText (entity_type d)) #
     (''entity_id'', JText (entity_id d)) # (''document_version'', JInt (document_version d)) #
     (''indexed_at'', json_time w (indexed_at d)) # (''source_updated_at'', json_time w (source_updated_at d)) #
     drop 6 (search_document_payload w d)"
  by (cases d) (simp_all add: payload_defs)

lemma source_shape:
  "projection_fingerprint_source w d =
     (''schema_version'', JText (schema_version d)) # (''entity_type'', JText (entity_type d)) #
     (''entity_id'', JText (entity_id d)) # (''source_updated_at'', json_time w (source_updated_at d)) #
     drop 6 (search_document_payload w d)"
  by (cases d) (simp_all add: payload_defs projection_fingerprint_source_def)

lemma drop_with_version: "drop 6 (search_document_payload w (with_version v d)) = drop 6 (search_document_payload w d)"
  by (cases d) (simp_all add: payload_defs)

lemma source_with_version [simp]:
  "projection_fingerprint_source w (with_version v d) = projection_fingerprint_source w d"
  by (simp add: source_shape drop_with_version)

lemma fingerprint_with_version [simp]:
  "calculate_projection_sha256 w (with_version v d) = calculate_projection_sha256 w d"
  by (simp add: calculate_projection_sha256_def)

text \<open>The fingerprint source, the version and the index time make up the whole payload.\<close>

lemma payload_of_source:
  assumes "projection_fingerprint_source w d = projection_fingerprint_source w e"
    and "document_version d = document_version e"
    and "json_time w (indexed_at d) = json_time w (indexed_at e)"
  shows "search_document_payload w d = search_document_payload w e"
proof -
  have "schema_version d = schema_version e" "entity_type d = entity_type e" "entity_id d = entity_id e"
    "json_time w (source_updated_at d) = json_time w (source_updated_at e)"
    "drop 6 (search_document_payload w d) = drop 6 (search_document_payload w e)"
    using assms(1) unfolding source_shape by simp_all
  with assms(2,3) show ?thesis using payload_head[of w d] payload_head[of w e] by metis
qed

lemma event_snapshot:
  "canonical_event_document row v None n js is cs = Inr d \<Longrightarrow> sd_indexed_at d = sd_source_updated_at d"
  by (auto simp: canonical_event_document_def bind_err_Inr Let_def snapshot_time_def)

lemma signal_snapshot:
  "detection_signal_document row v None n js is = Inr d \<Longrightarrow> sd_indexed_at d = sd_source_updated_at d"
  by (auto simp: detection_signal_document_def bind_err_Inr Let_def snapshot_time_def)

end
