(* ===== verification/Outbox.thy ===== *)
theory Outbox
  imports SearchDocuments StateMachines
begin

text \<open>
  The transactional outbox of the search index, \<open>persistence/outbox_repository.py\<close>. The table is
  a list of rows. A chunk is enqueued by a pre-check, an insert that ignores conflicts and a read
  that verifies the winner; what other transactions commit between the first two is a parameter.
  A batch is claimed by one conditional \<open>UPDATE\<close>. The unit of work rolls back on an error, so an
  error leaves the table as it was. What is enqueued is there, once, and enqueueing again changes
  nothing.
\<close>

section \<open>Rows and settings\<close>

datatype OutboxStatus = OPending | OProcessing | ORetry | OCompleted | OFailed

record OutboxRow =
  o_id :: string
  o_entity_type :: string
  o_entity_id :: string
  o_schema_version :: string
  o_document_version :: int
  o_key :: string
  o_payload :: "(string \<times> json) list"
  o_payload_sha256 :: string
  o_payload_size :: nat
  o_status :: OutboxStatus
  o_available_at :: datetime
  o_attempt_count :: nat
  o_lease_owner :: "string option"
  o_lease_expires_at :: "datetime option"
  o_created_at :: datetime
  o_updated_at :: datetime

datatype Dialect = PostgreSQL | SQLite | OtherDialect string

record OutboxRepository =
  r_dialect :: Dialect
  r_max_payload_bytes :: nat
  r_enqueue_chunk_size :: nat
  r_max_claim_batch_size :: int
  r_max_lease_seconds :: int

definition MAX_ENQUEUE_CHUNK_SIZE :: nat where
  "MAX_ENQUEUE_CHUNK_SIZE = 1000"

definition MAX_CLAIMANT_ID_LENGTH :: nat where
  "MAX_CLAIMANT_ID_LENGTH = 64"

definition outbox_repository :: "Dialect \<Rightarrow> nat \<Rightarrow> nat \<Rightarrow> int \<Rightarrow> int \<Rightarrow> string + OutboxRepository" where
  "outbox_repository dialect max_payload_bytes enqueue_chunk_size max_claim_batch_size max_lease_seconds =
     (if max_payload_bytes < 1 then Inl ''opensearch_outbox_max_payload_bytes_invalid''
      else if \<not> (1 \<le> enqueue_chunk_size \<and> enqueue_chunk_size \<le> MAX_ENQUEUE_CHUNK_SIZE)
        then Inl ''opensearch_outbox_enqueue_chunk_size_invalid''
      else if max_claim_batch_size < 1 then Inl ''opensearch_outbox_max_claim_batch_size_invalid''
      else if max_lease_seconds < 1 then Inl ''opensearch_outbox_max_lease_seconds_invalid''
      else Inr \<lparr>r_dialect = dialect, r_max_payload_bytes = max_payload_bytes,
        r_enqueue_chunk_size = enqueue_chunk_size, r_max_claim_batch_size = max_claim_batch_size,
        r_max_lease_seconds = max_lease_seconds\<rparr>)"

section \<open>Enqueueing\<close>

definition logical_key :: "SearchDocument \<Rightarrow> string" where
  "logical_key d = py_join '':'' [entity_type d, entity_id d, ''upsert'', schema_version d,
     str_of_int (document_version d)]"

definition deduplication_key :: "SearchDocument \<Rightarrow> string" where
  "deduplication_key d = sha256_hex (logical_key d)"

record PreparedEntry =
  p_document :: SearchDocument
  p_key :: string
  p_payload :: "(string \<times> json) list"
  p_sha256 :: string
  p_size :: nat

definition prepare_entry :: "Writer \<Rightarrow> OutboxRepository \<Rightarrow> SearchDocument \<Rightarrow> string + PreparedEntry" where
  "prepare_entry w r d = (let payload = search_document_payload w d;
       size = length (utf8 (canonical_payload_bytes w payload))
     in if size > r_max_payload_bytes r then Inl ''opensearch_outbox_payload_too_large''
        else Inr \<lparr>p_document = d, p_key = deduplication_key d, p_payload = payload,
          p_sha256 = calculate_payload_sha256 w payload, p_size = size\<rparr>)"

text \<open>The loop that prepares a chunk, a document of a key already prepared being dropped.\<close>

fun prepare_batch :: "Writer \<Rightarrow> OutboxRepository \<Rightarrow> SearchDocument list \<Rightarrow> PreparedEntry list
    \<Rightarrow> string + PreparedEntry list" where
  "prepare_batch w r [] prepared = Inr prepared"
| "prepare_batch w r (d # ds) prepared = bind_err (prepare_entry w r d) (\<lambda>entry.
     case find (\<lambda>e. p_key e = p_key entry) prepared of
       Some duplicate \<Rightarrow>
         if p_sha256 duplicate \<noteq> p_sha256 entry then Inl ''opensearch_outbox_deduplication_conflict''
         else prepare_batch w r ds prepared
     | None \<Rightarrow> prepare_batch w r ds (prepared @ [entry]))"

definition select_by_keys :: "string list \<Rightarrow> OutboxRow list \<Rightarrow> OutboxRow list" where
  "select_by_keys keys rows = filter (\<lambda>row. o_key row \<in> set keys) rows"

text \<open>\<open>_validate_existing\<close> for every row read, against the prepared entry of its key.\<close>

definition matches_prepared :: "PreparedEntry list \<Rightarrow> OutboxRow \<Rightarrow> bool" where
  "matches_prepared prepared row = (\<forall>e \<in> set prepared. p_key e = o_key row \<longrightarrow> o_payload_sha256 row = p_sha256 e)"

definition validate_existing :: "PreparedEntry list \<Rightarrow> OutboxRow list \<Rightarrow> string + unit" where
  "validate_existing prepared rows =
     (if list_all (matches_prepared prepared) rows then Inr ()
      else Inl ''opensearch_outbox_deduplication_conflict'')"

definition new_row :: "(string \<Rightarrow> string) \<Rightarrow> datetime \<Rightarrow> PreparedEntry \<Rightarrow> OutboxRow" where
  "new_row new_id now e = \<lparr>o_id = new_id (p_key e), o_entity_type = entity_type (p_document e),
     o_entity_id = entity_id (p_document e), o_schema_version = schema_version (p_document e),
     o_document_version = document_version (p_document e), o_key = p_key e, o_payload = p_payload e,
     o_payload_sha256 = p_sha256 e, o_payload_size = p_size e, o_status = OPending,
     o_available_at = now, o_attempt_count = 0, o_lease_owner = None, o_lease_expires_at = None,
     o_created_at = now, o_updated_at = now\<rparr>"

text \<open>\<open>INSERT ... ON CONFLICT (deduplication_key) DO NOTHING RETURNING\<close>: the table and the number
  of rows inserted.\<close>

fun insert_do_nothing :: "OutboxRow list \<Rightarrow> OutboxRow list \<Rightarrow> OutboxRow list \<times> nat" where
  "insert_do_nothing [] rows = (rows, 0)"
| "insert_do_nothing (v # vs) rows =
     (if o_key v \<in> o_key ` set rows then insert_do_nothing vs rows
      else (case insert_do_nothing vs (rows @ [v]) of (rows', n) \<Rightarrow> (rows', Suc n)))"

definition insert_entries :: "OutboxRepository \<Rightarrow> OutboxRow list \<Rightarrow> OutboxRow list
    \<Rightarrow> string + OutboxRow list \<times> nat" where
  "insert_entries r values rows =
     (if values = [] then Inr (rows, 0)
      else case r_dialect r of OtherDialect name \<Rightarrow> Inl ''opensearch_outbox_dialect_unsupported''
        | _ \<Rightarrow> Inr (insert_do_nothing values rows))"

text \<open>What a chunk meets: the ids it draws, the time, and what others commit between its
  pre-check and its insert.\<close>

record Environment =
  env_id :: "string \<Rightarrow> string"
  env_now :: datetime
  env_others :: "OutboxRow list \<Rightarrow> OutboxRow list"

definition enqueue_chunk :: "Writer \<Rightarrow> OutboxRepository \<Rightarrow> Environment \<Rightarrow> SearchDocument list
    \<Rightarrow> OutboxRow list \<Rightarrow> string + OutboxRow list \<times> nat" where
  "enqueue_chunk w r env documents rows =
     bind_err (prepare_batch w r documents []) (\<lambda>prepared.
       let keys = map p_key prepared; existing = select_by_keys keys rows in
       bind_err (validate_existing prepared existing) (\<lambda>_.
       let new_entries = filter (\<lambda>e. p_key e \<notin> o_key ` set existing) prepared in
       bind_err (insert_entries r (map (new_row (env_id env) (env_now env)) new_entries) (env_others env rows))
         (\<lambda>(rows', inserted).
       let persisted = select_by_keys keys rows' in
       if length persisted \<noteq> length prepared then Inl ''opensearch_outbox_enqueue_failed''
       else bind_err (validate_existing prepared persisted) (\<lambda>_. Inr (rows', inserted)))))"

record OutboxEnqueueSummary =
  s_requested_count :: nat
  s_inserted_count :: nat
  s_reused_count :: int
  s_chunk_count :: nat
  s_max_chunk_size :: nat

definition empty_summary :: OutboxEnqueueSummary where
  "empty_summary = \<lparr>s_requested_count = 0, s_inserted_count = 0, s_reused_count = 0, s_chunk_count = 0,
     s_max_chunk_size = 0\<rparr>"

function chunks_of :: "nat \<Rightarrow> 'a list \<Rightarrow> 'a list list" where
  "chunks_of n xs = (if xs = [] \<or> n = 0 then [] else take n xs # chunks_of n (drop n xs))"
  by pat_completeness auto
termination by (relation "measure (\<lambda>(n, xs). length xs)") auto

declare chunks_of.simps [simp del]

text \<open>The loop over the chunks; the environment of a chunk is the one of its number.\<close>

fun enqueue_chunks :: "Writer \<Rightarrow> OutboxRepository \<Rightarrow> (nat \<Rightarrow> Environment) \<Rightarrow> SearchDocument list list
    \<Rightarrow> OutboxEnqueueSummary \<Rightarrow> OutboxRow list \<Rightarrow> string + OutboxEnqueueSummary \<times> OutboxRow list" where
  "enqueue_chunks w r env [] s rows = Inr (s, rows)"
| "enqueue_chunks w r env (c # cs) s rows =
     bind_err (enqueue_chunk w r (env (s_chunk_count s)) c rows) (\<lambda>(rows', inserted).
       enqueue_chunks w r env cs
         (s\<lparr>s_chunk_count := s_chunk_count s + 1, s_requested_count := s_requested_count s + length c,
            s_max_chunk_size := max (s_max_chunk_size s) (length c),
            s_inserted_count := s_inserted_count s + inserted\<rparr>) rows')"

definition enqueue_many_upserts :: "Writer \<Rightarrow> OutboxRepository \<Rightarrow> (nat \<Rightarrow> Environment) \<Rightarrow> nat option
    \<Rightarrow> SearchDocument list \<Rightarrow> OutboxRow list \<Rightarrow> string + OutboxEnqueueSummary \<times> OutboxRow list" where
  "enqueue_many_upserts w r env chunk_size documents rows =
     (let selected = (case chunk_size of Some n \<Rightarrow> if n = 0 then r_enqueue_chunk_size r else n
                      | None \<Rightarrow> r_enqueue_chunk_size r)
      in if \<not> (1 \<le> selected \<and> selected \<le> MAX_ENQUEUE_CHUNK_SIZE)
         then Inl ''opensearch_outbox_enqueue_chunk_size_invalid''
         else bind_err (enqueue_chunks w r env (chunks_of selected documents) empty_summary rows)
           (\<lambda>(s, rows'). Inr (s\<lparr>s_reused_count := int (s_requested_count s) - int (s_inserted_count s)\<rparr>, rows')))"

definition find_by_deduplication_key :: "string \<Rightarrow> OutboxRow list \<Rightarrow> OutboxRow option" where
  "find_by_deduplication_key key rows = find (\<lambda>row. o_key row = key) rows"

definition enqueue_upsert :: "Writer \<Rightarrow> OutboxRepository \<Rightarrow> Environment \<Rightarrow> SearchDocument
    \<Rightarrow> OutboxRow list \<Rightarrow> string + OutboxRow option \<times> OutboxRow list" where
  "enqueue_upsert w r env d rows = bind_err (enqueue_chunk w r env [d] rows) (\<lambda>(rows', _).
     Inr (find_by_deduplication_key (deduplication_key d) rows', rows'))"

definition count_by_status :: "OutboxStatus \<Rightarrow> OutboxRow list \<Rightarrow> nat" where
  "count_by_status status rows = length (filter (\<lambda>row. o_status row = status) rows)"

section \<open>Claiming\<close>

definition lease_expired :: "datetime \<Rightarrow> OutboxRow \<Rightarrow> bool" where
  "lease_expired now row = (case o_lease_expires_at row of None \<Rightarrow> False | Some t \<Rightarrow> t \<le> now)"

definition row_claimable :: "datetime \<Rightarrow> OutboxRow \<Rightarrow> bool" where
  "row_claimable now row =
     ((o_status row \<in> {OPending, ORetry} \<and> o_available_at row \<le> now
        \<and> (o_lease_owner row = None \<or> lease_expired now row))
      \<or> (o_status row = OProcessing \<and> lease_expired now row))"

definition claim_key :: "OutboxRow \<Rightarrow> datetime \<times> string" where
  "claim_key row = (o_created_at row, o_id row)"

definition claim_order :: "OutboxRow list \<Rightarrow> OutboxRow list" where
  "claim_order rows = sort_key claim_key rows"

text \<open>\<open>FOR UPDATE SKIP LOCKED\<close> of PostgreSQL leaves out the rows other claimants hold locked.\<close>

definition claim_candidates :: "OutboxRepository \<Rightarrow> (string \<Rightarrow> bool) \<Rightarrow> datetime \<Rightarrow> nat \<Rightarrow> OutboxRow list \<Rightarrow> string list" where
  "claim_candidates r locked now n rows = map o_id (take n (claim_order
     (filter (\<lambda>row. row_claimable now row \<and> (r_dialect r = PostgreSQL \<longrightarrow> \<not> locked (o_id row))) rows)))"

definition lease_row :: "string \<Rightarrow> datetime \<Rightarrow> datetime \<Rightarrow> OutboxRow \<Rightarrow> OutboxRow" where
  "lease_row owner now expires_at row = row\<lparr>o_status := OProcessing, o_lease_owner := Some owner,
     o_lease_expires_at := Some expires_at, o_attempt_count := o_attempt_count row + 1, o_updated_at := now\<rparr>"

definition claim_batch :: "OutboxRepository \<Rightarrow> (string \<Rightarrow> bool) \<Rightarrow> datetime \<Rightarrow> string \<Rightarrow> int \<Rightarrow> int
    \<Rightarrow> OutboxRow list \<Rightarrow> string + OutboxRow list \<times> OutboxRow list" where
  "claim_batch r locked now claimant_id n lease_seconds rows =
     (let owner = py_strip claimant_id in
      if owner = [] then Inl ''opensearch_outbox_claimant_id_invalid''
      else if length owner > MAX_CLAIMANT_ID_LENGTH then Inl ''opensearch_outbox_claimant_id_too_long''
      else if \<not> (1 \<le> n \<and> n \<le> r_max_claim_batch_size r) then Inl ''opensearch_outbox_claim_limit_invalid''
      else if \<not> (1 \<le> lease_seconds \<and> lease_seconds \<le> r_max_lease_seconds r)
        then Inl ''opensearch_outbox_lease_seconds_invalid''
      else let claimed_ids = claim_candidates r locked now (nat n) rows;
             rows' = map (\<lambda>row. if o_id row \<in> set claimed_ids
                       then lease_row owner now (plus_seconds now lease_seconds) row else row) rows
           in Inr (if claimed_ids = [] then []
               else claim_order (filter (\<lambda>row. o_id row \<in> set claimed_ids \<and> o_lease_owner row = Some owner
                      \<and> o_status row = OProcessing) rows'), rows'))"

section \<open>Facts about enqueueing\<close>

definition entry_of :: "Writer \<Rightarrow> SearchDocument \<Rightarrow> PreparedEntry" where
  "entry_of w d = (let payload = search_document_payload w d in
     \<lparr>p_document = d, p_key = deduplication_key d, p_payload = payload,
      p_sha256 = calculate_payload_sha256 w payload, p_size = length (utf8 (canonical_payload_bytes w payload))\<rparr>)"

abbreviation payload_sha :: "Writer \<Rightarrow> SearchDocument \<Rightarrow> string" where
  "payload_sha w d \<equiv> calculate_payload_sha256 w (search_document_payload w d)"

lemma entry_of_simps [simp]:
  "p_document (entry_of w d) = d" "p_key (entry_of w d) = deduplication_key d"
  "p_sha256 (entry_of w d) = payload_sha w d" "p_payload (entry_of w d) = search_document_payload w d"
  by (simp_all add: entry_of_def Let_def)

lemma prepare_entry_Inr:
  "prepare_entry w r d = Inr e \<longleftrightarrow> e = entry_of w d \<and> p_size (entry_of w d) \<le> r_max_payload_bytes r"
  by (auto simp: prepare_entry_def entry_of_def Let_def)

definition small :: "Writer \<Rightarrow> OutboxRepository \<Rightarrow> SearchDocument \<Rightarrow> bool" where
  "small w r d = (p_size (entry_of w d) \<le> r_max_payload_bytes r)"

lemma prepare_small: "small w r d \<Longrightarrow> prepare_entry w r d = Inr (entry_of w d)"
  by (simp add: small_def prepare_entry_Inr)

definition consistent :: "Writer \<Rightarrow> SearchDocument set \<Rightarrow> bool" where
  "consistent w D = (\<forall>d \<in> D. \<forall>e \<in> D. deduplication_key d = deduplication_key e \<longrightarrow> payload_sha w d = payload_sha w e)"

lemma consistent_subset: "consistent w D \<Longrightarrow> E \<subseteq> D \<Longrightarrow> consistent w E"
  unfolding consistent_def by blast

lemma consistentD:
  "consistent w D \<Longrightarrow> d \<in> D \<Longrightarrow> e \<in> D \<Longrightarrow> deduplication_key d = deduplication_key e \<Longrightarrow> payload_sha w d = payload_sha w e"
  unfolding consistent_def by blast

lemma consistent_insert:
  "consistent w D \<Longrightarrow> (\<And>e. e \<in> D \<Longrightarrow> deduplication_key e = deduplication_key d \<Longrightarrow> payload_sha w e = payload_sha w d)
    \<Longrightarrow> consistent w (insert d D)"
  unfolding consistent_def by (metis insert_iff)

lemma find_Some_in: "find p xs = Some x \<Longrightarrow> x \<in> set xs \<and> p x"
  by (induction xs) (auto split: if_splits)

text \<open>What a prepared batch is: one entry for each key of the documents, all of them small and
  consistent.\<close>

definition prepared_of :: "Writer \<Rightarrow> SearchDocument list \<Rightarrow> PreparedEntry list \<Rightarrow> bool" where
  "prepared_of w ds prepared = (distinct (map p_key prepared) \<and> p_key ` set prepared = deduplication_key ` set ds
     \<and> set prepared \<subseteq> entry_of w ` set ds)"

lemma prepare_batch_sound:
  assumes "prepare_batch w r ds (map (entry_of w) acc) = Inr prepared"
    and "distinct (map deduplication_key acc)" and "consistent w (set acc)"
  shows "prepared_of w (acc @ ds) prepared \<and> consistent w (set (acc @ ds)) \<and> (\<forall>d \<in> set ds. small w r d)"
  using assms
proof (induction ds arbitrary: acc)
  case Nil
  then show ?case by (auto simp: prepared_of_def comp_def image_image)
next
  case (Cons d ds)
  then have d: "small w r d"
    and step: "(case find (\<lambda>e. p_key e = deduplication_key d) (map (entry_of w) acc) of
       Some duplicate \<Rightarrow> if p_sha256 duplicate \<noteq> p_sha256 (entry_of w d) then Inl ''opensearch_outbox_deduplication_conflict''
         else prepare_batch w r ds (map (entry_of w) acc)
     | None \<Rightarrow> prepare_batch w r ds (map (entry_of w) acc @ [entry_of w d])) = Inr prepared"
    by (auto simp: bind_err_Inr prepare_entry_Inr small_def)
  show ?case
  proof (cases "find (\<lambda>e. p_key e = deduplication_key d) (map (entry_of w) acc)")
    case None
    then have new: "deduplication_key d \<notin> deduplication_key ` set acc" by (auto simp: find_None_iff)
    have "consistent w (insert d (set acc))" using Cons.prems(3) new
      by (intro consistent_insert) (auto, metis image_eqI)
    then have "consistent w (set (acc @ [d]))" by simp
    moreover have "distinct (map deduplication_key (acc @ [d]))" using Cons.prems(2) new by auto
    ultimately show ?thesis using Cons.IH[of "acc @ [d]"] step None d by auto
  next
    case (Some e)
    then obtain a where a: "a \<in> set acc" "deduplication_key a = deduplication_key d" "e = entry_of w a"
      using find_Some_in[OF Some] by auto
    then have same: "payload_sha w a = payload_sha w d" and "prepare_batch w r ds (map (entry_of w) acc) = Inr prepared"
      using step Some by (auto split: if_splits)
    then have IH: "prepared_of w (acc @ ds) prepared" "consistent w (set (acc @ ds))" "\<forall>d \<in> set ds. small w r d"
      using Cons.IH[of acc] Cons.prems by auto
    have "consistent w (insert d (set (acc @ ds)))"
    proof (rule consistent_insert[OF IH(2)])
      fix x assume "x \<in> set (acc @ ds)" "deduplication_key x = deduplication_key d"
      then have "payload_sha w x = payload_sha w a" using consistentD[OF IH(2), of x a] a by simp
      then show "payload_sha w x = payload_sha w d" using same by simp
    qed
    then have "consistent w (set (acc @ d # ds))" by simp
    moreover have "prepared_of w (acc @ d # ds) prepared"
      using IH(1) a by (auto simp: prepared_of_def) (metis Un_iff image_eqI)
    ultimately show ?thesis using IH d by auto
  qed
qed

lemma prepare_batch_complete:
  assumes "\<forall>d \<in> set ds. small w r d" and "consistent w (set acc \<union> set ds)"
  shows "\<exists>prepared. prepare_batch w r ds (map (entry_of w) acc) = Inr prepared"
  using assms
proof (induction ds arbitrary: acc)
  case (Cons d ds)
  have d: "prepare_entry w r d = Inr (entry_of w d)" using Cons.prems by (simp add: prepare_small)
  show ?case
  proof (cases "find (\<lambda>e. p_key e = deduplication_key d) (map (entry_of w) acc)")
    case None
    then show ?thesis using Cons.IH[of "acc @ [d]"] Cons.prems d by (simp add: Un_assoc)
  next
    case (Some e)
    then obtain a where a: "a \<in> set acc" "deduplication_key a = deduplication_key d" "e = entry_of w a"
      using find_Some_in[OF Some] by auto
    then have "p_sha256 e = payload_sha w d" using consistentD[OF Cons.prems(2), of a d] by simp
    moreover have "consistent w (set acc \<union> set ds)" using Cons.prems(2) by (rule consistent_subset) auto
    ultimately show ?thesis using Cons.IH[of acc] Cons.prems d Some by simp
  qed
qed simp

lemmas prepare_batch_start =
  prepare_batch_sound[of w r ds "[]" for w r ds, simplified] prepare_batch_complete[of ds w r "[]" for ds w r, simplified]

lemma insert_do_nothing_shape:
  "insert_do_nothing vs rows = (rows', n) \<Longrightarrow> \<exists>news. rows' = rows @ news \<and> n = length news \<and> set news \<subseteq> set vs
     \<and> o_key ` set rows' = o_key ` set rows \<union> o_key ` set vs
     \<and> (distinct (map o_key rows) \<longrightarrow> distinct (map o_key rows'))
     \<and> o_key ` set news \<inter> o_key ` set rows = {}"
proof (induction vs arbitrary: rows n)
  case (Cons v vs)
  show ?case
  proof (cases "o_key v \<in> o_key ` set rows")
    case True
    with Cons show ?thesis by (fastforce simp: insert_absorb)
  next
    case False
    then obtain m where m: "insert_do_nothing vs (rows @ [v]) = (rows', m)" "n = Suc m"
      using Cons.prems by (auto split: prod.splits)
    from Cons.IH[OF m(1)] obtain news where news: "rows' = (rows @ [v]) @ news" "m = length news" "set news \<subseteq> set vs"
      and keys: "o_key ` set rows' = o_key ` set (rows @ [v]) \<union> o_key ` set vs"
      and dist: "distinct (map o_key (rows @ [v])) \<longrightarrow> distinct (map o_key rows')"
      and apart: "o_key ` set news \<inter> o_key ` set (rows @ [v]) = {}"
      by blast
    have "distinct (map o_key rows) \<longrightarrow> distinct (map o_key rows')" using dist False by simp
    moreover have "o_key ` set rows' = o_key ` set rows \<union> o_key ` set (v # vs)" using keys by auto
    moreover have "o_key ` set (v # news) \<inter> o_key ` set rows = {}" using apart False by auto
    moreover have "rows' = rows @ v # news" "n = length (v # news)" "set (v # news) \<subseteq> set (v # vs)"
      using news m(2) by auto
    ultimately show ?thesis by blast
  qed
qed simp

lemma insert_do_nothing_none: "o_key ` set vs \<subseteq> o_key ` set rows \<Longrightarrow> insert_do_nothing vs rows = (rows, 0)"
  by (induction vs) auto

section \<open>A chunk\<close>

definition indexed :: "Writer \<Rightarrow> OutboxRow list \<Rightarrow> SearchDocument \<Rightarrow> bool" where
  "indexed w rows d = (\<exists>row \<in> set rows. o_key row = deduplication_key d \<and> o_payload_sha256 row = payload_sha w d)"

text \<open>A row that still is what was inserted for a document.\<close>

definition describes :: "Writer \<Rightarrow> SearchDocument \<Rightarrow> OutboxRow \<Rightarrow> bool" where
  "describes w d row = (o_entity_type row = entity_type d \<and> o_entity_id row = entity_id d
     \<and> o_schema_version row = schema_version d \<and> o_document_version row = document_version d
     \<and> o_key row = deduplication_key d \<and> o_payload row = search_document_payload w d
     \<and> o_payload_sha256 row = payload_sha w d \<and> o_payload_size row = p_size (entry_of w d))"

definition waiting_row :: "datetime \<Rightarrow> OutboxRow \<Rightarrow> bool" where
  "waiting_row now row = (o_status row = OPending \<and> o_attempt_count row = 0 \<and> o_lease_owner row = None
     \<and> o_lease_expires_at row = None \<and> o_available_at row = now \<and> o_created_at row = now)"

lemma new_row_describes: "describes w d (new_row new_id now (entry_of w d))" "waiting_row now (new_row new_id now (entry_of w d))"
  by (simp_all add: describes_def new_row_def waiting_row_def)

lemma describes_key: "describes w d row \<Longrightarrow> o_key row = deduplication_key d"
  by (simp add: describes_def)

lemma insert_entries_Inr:
  "insert_entries r vs rows = Inr (rows', n) \<Longrightarrow> insert_do_nothing vs rows = (rows', n)"
  by (auto simp: insert_entries_def split: if_splits Dialect.splits)

text \<open>When as many rows are read as there are entries, each entry has its row: rows of one key are
  excluded by the unique constraint.\<close>

lemma found_rows:
  assumes "prepared_of w ds prepared" and "consistent w (set ds)" and "distinct (map o_key rows)"
    and "length (select_by_keys (map p_key prepared) rows) = length prepared"
    and "list_all (matches_prepared prepared) (select_by_keys (map p_key prepared) rows)"
  shows "\<forall>d \<in> set ds. indexed w rows d"
proof
  fix d assume d: "d \<in> set ds"
  let ?sel = "select_by_keys (map p_key prepared) rows"
  have "distinct (map o_key ?sel)" unfolding select_by_keys_def using assms(3) by (rule distinct_map_filter)
  then have "card (o_key ` set ?sel) = length prepared"
    using assms(4) distinct_card[of "map o_key ?sel"] by simp
  moreover have "card (p_key ` set prepared) = length prepared"
    using assms(1) distinct_card[of "map p_key prepared"] by (simp add: prepared_of_def)
  moreover have sub: "o_key ` set ?sel \<subseteq> p_key ` set prepared" by (auto simp: select_by_keys_def)
  ultimately have "o_key ` set ?sel = p_key ` set prepared" by (intro card_subset_eq) auto
  then have "deduplication_key d \<in> o_key ` set ?sel" using assms(1) d by (auto simp: prepared_of_def)
  then obtain row where row: "row \<in> set ?sel" "o_key row = deduplication_key d" by auto
  obtain e where e: "e \<in> set prepared" "p_key e = deduplication_key d"
    using assms(1) d by (auto simp: prepared_of_def) (metis image_iff)
  then have "o_payload_sha256 row = p_sha256 e"
    using assms(5) row e by (auto simp: list_all_iff matches_prepared_def)
  moreover obtain d' where d': "d' \<in> set ds" "e = entry_of w d'" using assms(1) e by (auto simp: prepared_of_def)
  moreover have "payload_sha w d' = payload_sha w d" using consistentD[OF assms(2), of d' d] d d' e by simp
  moreover have "row \<in> set rows" using row by (simp add: select_by_keys_def)
  ultimately show "indexed w rows d" unfolding indexed_def using row by auto
qed

lemma enqueue_chunk_Inr:
  assumes "enqueue_chunk w r env ds rows = Inr (rows', n)" and "distinct (map o_key (env_others env rows))"
  obtains news where "rows' = env_others env rows @ news" and "n = length news"
    and "\<forall>row \<in> set news. (\<exists>d \<in> set ds. describes w d row \<and> small w r d) \<and> waiting_row (env_now env) row"
    and "\<forall>d \<in> set ds. indexed w rows' d \<and> small w r d" and "consistent w (set ds)"
    and "distinct (map o_key rows')"
    and "o_key ` set news \<inter> o_key ` set (env_others env rows) = {}"
proof -
  from assms(1) obtain prepared where prep: "prepare_batch w r ds [] = Inr prepared"
    and ins: "insert_entries r (map (new_row (env_id env) (env_now env))
        (filter (\<lambda>e. p_key e \<notin> o_key ` set (select_by_keys (map p_key prepared) rows)) prepared))
        (env_others env rows) = Inr (rows', n)"
    and len: "length (select_by_keys (map p_key prepared) rows') = length prepared"
    and ok: "list_all (matches_prepared prepared) (select_by_keys (map p_key prepared) rows')"
    by (auto simp: enqueue_chunk_def bind_err_Inr Let_def validate_existing_def split: if_splits)
  from prepare_batch_start(1)[OF prep] have P: "prepared_of w ds prepared" "consistent w (set ds)"
    "\<forall>d \<in> set ds. small w r d" by (auto simp: consistent_def[of _ "{}"])
  let ?vs = "map (new_row (env_id env) (env_now env))
        (filter (\<lambda>e. p_key e \<notin> o_key ` set (select_by_keys (map p_key prepared) rows)) prepared)"
  from insert_do_nothing_shape[OF insert_entries_Inr[OF ins]] obtain news where news:
    "rows' = env_others env rows @ news" "n = length news" "set news \<subseteq> set ?vs"
    "distinct (map o_key rows')" "o_key ` set news \<inter> o_key ` set (env_others env rows) = {}" using assms(2) by blast
  have "\<forall>row \<in> set news. (\<exists>d \<in> set ds. describes w d row \<and> small w r d) \<and> waiting_row (env_now env) row"
  proof
    fix row assume "row \<in> set news"
    then obtain e where "e \<in> set prepared" "row = new_row (env_id env) (env_now env) e" using news(3) by auto
    moreover from this obtain d where "d \<in> set ds" "e = entry_of w d" using P(1) by (auto simp: prepared_of_def)
    ultimately show "(\<exists>d \<in> set ds. describes w d row \<and> small w r d) \<and> waiting_row (env_now env) row"
      using P(3) new_row_describes by blast
  qed
  moreover have "\<forall>d \<in> set ds. indexed w rows' d"
    using found_rows[OF P(1,2) news(4) len ok] .
  ultimately show ?thesis using that news P by blast
qed

lemma keys_selected: "o_key ` set (select_by_keys keys rows) = set keys \<inter> o_key ` set rows"
  by (auto simp: select_by_keys_def)

definition alone :: "Environment \<Rightarrow> bool" where
  "alone env = (\<forall>rows. env_others env rows = rows)"

lemma indexed_mono: "indexed w rows d \<Longrightarrow> set rows \<subseteq> set rows' \<Longrightarrow> indexed w rows' d"
  unfolding indexed_def by blast

lemma indexed_consistent:
  assumes "distinct (map o_key rows)" and "\<forall>d \<in> D. indexed w rows d"
  shows "consistent w D"
  unfolding consistent_def
proof (intro ballI impI)
  fix d e assume "d \<in> D" "e \<in> D" and key: "deduplication_key d = deduplication_key e"
  then obtain x y where x: "x \<in> set rows" "o_key x = deduplication_key d" "o_payload_sha256 x = payload_sha w d"
    and y: "y \<in> set rows" "o_key y = deduplication_key e" "o_payload_sha256 y = payload_sha w e"
    using assms(2) unfolding indexed_def by blast
  have "x = y" using assms(1) x(1,2) y(1,2) key by (metis distinct_map inj_onD)
  then show "payload_sha w d = payload_sha w e" using x y by simp
qed

lemma matches_indexed:
  assumes "distinct (map o_key rows)" and "\<forall>d \<in> set ds. indexed w rows d" and "prepared_of w ds prepared"
  shows "list_all (matches_prepared prepared) (select_by_keys keys rows)"
  unfolding list_all_iff matches_prepared_def
proof (intro ballI impI)
  fix row e assume row: "row \<in> set (select_by_keys keys rows)" and e: "e \<in> set prepared" "p_key e = o_key row"
  then obtain d where d: "d \<in> set ds" "e = entry_of w d" using assms(3) by (auto simp: prepared_of_def)
  then obtain x where x: "x \<in> set rows" "o_key x = deduplication_key d" "o_payload_sha256 x = payload_sha w d"
    using assms(2) unfolding indexed_def by blast
  have "x = row" using assms(1) x row e d by (simp add: select_by_keys_def) (metis distinct_map inj_onD)
  then show "o_payload_sha256 row = p_sha256 e" using x d by simp
qed

lemma length_select:
  assumes "distinct (map o_key rows)" and "distinct (map p_key prepared)" and "p_key ` set prepared \<subseteq> o_key ` set rows"
  shows "length (select_by_keys (map p_key prepared) rows) = length prepared"
proof -
  let ?sel = "select_by_keys (map p_key prepared) rows"
  have "o_key ` set ?sel = p_key ` set prepared" using assms(3) by (simp only: keys_selected set_map Int_absorb2)
  moreover have "distinct (map o_key ?sel)" unfolding select_by_keys_def using assms(1) by (rule distinct_map_filter)
  ultimately show ?thesis
    using distinct_card[of "map o_key ?sel"] distinct_card[of "map p_key prepared"] assms(2) by simp
qed

lemma enqueue_chunk_again:
  assumes "alone env" and "distinct (map o_key rows)" and "\<forall>d \<in> set ds. indexed w rows d \<and> small w r d"
  shows "enqueue_chunk w r env ds rows = Inr (rows, 0)"
proof -
  have ind: "\<forall>d \<in> set ds. indexed w rows d" using assms(3) by blast
  then have con: "consistent w (set ds)" using indexed_consistent[OF assms(2)] by blast
  then obtain prepared where prep: "prepare_batch w r ds [] = Inr prepared"
    using prepare_batch_start(2) assms(3) by blast
  from prepare_batch_start(1)[OF prep] have P: "prepared_of w ds prepared" by (auto simp: consistent_def[of _ "{}"])
  let ?sel = "select_by_keys (map p_key prepared) rows"
  have keys: "p_key ` set prepared \<subseteq> o_key ` set rows"
  proof
    fix k assume "k \<in> p_key ` set prepared"
    then obtain d where "d \<in> set ds" "k = deduplication_key d" using P unfolding prepared_of_def by auto
    then show "k \<in> o_key ` set rows" using ind unfolding indexed_def by (metis image_eqI)
  qed
  then have "p_key ` set prepared \<subseteq> o_key ` set ?sel" by (simp only: keys_selected set_map Int_absorb2 subset_refl)
  then have none: "filter (\<lambda>e. p_key e \<notin> o_key ` set ?sel) prepared = []" by (auto simp: filter_empty_conv)
  have ok: "validate_existing prepared ?sel = Inr ()"
    using matches_indexed[OF assms(2) ind P] by (simp add: validate_existing_def)
  have len: "length ?sel = length prepared" using length_select[OF assms(2) _ keys] P by (simp add: prepared_of_def)
  show ?thesis unfolding enqueue_chunk_def prep bind_err_simps Let_def ok none
    using assms(1) by (simp add: insert_entries_def alone_def len ok)
qed

section \<open>Many chunks\<close>

lemma concat_chunks [simp]: "0 < n \<Longrightarrow> concat (chunks_of n xs) = xs"
proof (induction n xs rule: chunks_of.induct)
  case (1 n xs)
  then show ?case by (subst chunks_of.simps) simp
qed

lemma chunks_bounded: "c \<in> set (chunks_of n xs) \<Longrightarrow> 1 \<le> length c \<and> length c \<le> n"
proof (induction n xs rule: chunks_of.induct)
  case (1 n xs)
  have "c \<in> set (if xs = [] \<or> n = 0 then [] else take n xs # chunks_of n (drop n xs))"
    using "1.prems" by (subst (asm) chunks_of.simps)
  then consider "xs \<noteq> []" "n \<noteq> 0" "c = take n xs" | "xs \<noteq> []" "n \<noteq> 0" "c \<in> set (chunks_of n (drop n xs))"
    by (auto split: if_splits)
  then show ?case
  proof cases
    case 1
    then show ?thesis by (cases xs; cases n) auto
  next
    case 2
    then show ?thesis using "1.IH" by simp
  qed
qed

text \<open>Other transactions may do anything to the table that keeps the unique constraint and removes no
  projection.\<close>

definition polite :: "Environment \<Rightarrow> bool" where
  "polite env = (\<forall>rows. (distinct (map o_key rows) \<longrightarrow> distinct (map o_key (env_others env rows)))
     \<and> (\<forall>w d. indexed w rows d \<longrightarrow> indexed w (env_others env rows) d))"

lemma alone_polite: "alone env \<Longrightarrow> polite env"
  by (simp add: alone_def polite_def)

lemma enqueue_chunk_grows:
  assumes "enqueue_chunk w r env c rows = Inr (rows', n)" and "distinct (map o_key rows)" and "polite env"
  shows "distinct (map o_key rows')" and "indexed w rows d \<Longrightarrow> indexed w rows' d"
    and "\<forall>d \<in> set c. indexed w rows' d \<and> small w r d"
proof -
  have "distinct (map o_key (env_others env rows))" using assms unfolding polite_def by blast
  then obtain news where N: "rows' = env_others env rows @ news" "distinct (map o_key rows')"
    "\<forall>d \<in> set c. indexed w rows' d \<and> small w r d" using enqueue_chunk_Inr[OF assms(1)] by metis
  then show "distinct (map o_key rows')" "\<forall>d \<in> set c. indexed w rows' d \<and> small w r d" by auto
  show "indexed w rows' d" if "indexed w rows d"
    using that assms(3) N(1) unfolding polite_def by (metis indexed_mono set_append sup_ge1)
qed

lemma enqueue_chunks_Inr:
  assumes "enqueue_chunks w r env cs s rows = Inr (s', rows')" and "distinct (map o_key rows)"
    and "\<And>k. polite (env k)"
  shows "distinct (map o_key rows') \<and> (\<forall>d. indexed w rows d \<longrightarrow> indexed w rows' d)
    \<and> (\<forall>d \<in> set (concat cs). indexed w rows' d \<and> small w r d)
    \<and> s_requested_count s' = s_requested_count s + length (concat cs)
    \<and> s_chunk_count s' = s_chunk_count s + length cs
    \<and> s_max_chunk_size s' = Max (insert (s_max_chunk_size s) (length ` set cs))"
  using assms(1,2)
proof (induction cs arbitrary: s rows)
  case (Cons c cs)
  then obtain mid n where mid: "enqueue_chunk w r (env (s_chunk_count s)) c rows = Inr (mid, n)"
    and rest: "enqueue_chunks w r env cs
        (s\<lparr>s_chunk_count := s_chunk_count s + 1, s_requested_count := s_requested_count s + length c,
           s_max_chunk_size := max (s_max_chunk_size s) (length c),
           s_inserted_count := s_inserted_count s + n\<rparr>) mid = Inr (s', rows')"
    by (auto simp: bind_err_Inr)
  note G = enqueue_chunk_grows[OF mid Cons.prems(2) assms(3)]
  have "Max (insert (max a b) X) = Max (insert a (insert b X))" if "finite X" for a b :: nat and X
    using that by (cases "X = {}") (simp_all add: max.assoc)
  with Cons.IH[OF rest G(1)] G(2,3) show ?case by (simp add: ball_Un)
qed simp

lemma enqueue_chunks_alone:
  assumes "enqueue_chunks w r env cs s rows = Inr (s', rows')" and "distinct (map o_key rows)"
    and "\<And>k. alone (env k)"
  shows "\<exists>news. rows' = rows @ news \<and> s_inserted_count s' = s_inserted_count s + length news
    \<and> (\<forall>row \<in> set news. (\<exists>d \<in> set (concat cs). describes w d row \<and> small w r d) \<and> (\<exists>k. waiting_row (env_now (env k)) row))"
  using assms(1,2)
proof (induction cs arbitrary: s rows)
  case (Cons c cs)
  then obtain mid n where mid: "enqueue_chunk w r (env (s_chunk_count s)) c rows = Inr (mid, n)"
    and rest: "enqueue_chunks w r env cs
        (s\<lparr>s_chunk_count := s_chunk_count s + 1, s_requested_count := s_requested_count s + length c,
           s_max_chunk_size := max (s_max_chunk_size s) (length c),
           s_inserted_count := s_inserted_count s + n\<rparr>) mid = Inr (s', rows')"
    by (auto simp: bind_err_Inr)
  have "distinct (map o_key (env_others (env (s_chunk_count s)) rows))"
    using Cons.prems(2) assms(3) by (simp add: alone_def)
  then obtain news where news: "mid = rows @ news" "n = length news" "distinct (map o_key mid)"
    "\<forall>row \<in> set news. (\<exists>d \<in> set c. describes w d row \<and> small w r d) \<and> waiting_row (env_now (env (s_chunk_count s))) row"
    using enqueue_chunk_Inr[OF mid] assms(3) unfolding alone_def by metis
  from Cons.IH[OF rest news(3)] obtain more where more: "rows' = mid @ more"
    "s_inserted_count s' = s_inserted_count s + n + length more"
    "\<forall>row \<in> set more. (\<exists>d \<in> set (concat cs). describes w d row \<and> small w r d) \<and> (\<exists>k. waiting_row (env_now (env k)) row)" by auto
  have "\<forall>row \<in> set (news @ more). (\<exists>d \<in> set (concat (c # cs)). describes w d row \<and> small w r d) \<and> (\<exists>k. waiting_row (env_now (env k)) row)"
    using news(4) more(3) unfolding concat.simps set_append by blast
  moreover have "rows' = rows @ (news @ more)" "s_inserted_count s' = s_inserted_count s + length (news @ more)"
    using more news by simp_all
  ultimately show ?case by blast
qed simp

lemma enqueue_chunks_again:
  assumes "\<And>k. alone (env k)" and "distinct (map o_key rows)"
    and "\<forall>d \<in> set (concat cs). indexed w rows d \<and> small w r d"
  shows "\<exists>s'. enqueue_chunks w r env cs s rows = Inr (s', rows) \<and> s_inserted_count s' = s_inserted_count s
     \<and> s_requested_count s' = s_requested_count s + length (concat cs)"
  using assms(3)
proof (induction cs arbitrary: s)
  case (Cons c cs)
  have "enqueue_chunk w r (env (s_chunk_count s)) c rows = Inr (rows, 0)"
    using Cons.prems by (intro enqueue_chunk_again assms(1,2)) auto
  moreover have "\<forall>d \<in> set (concat cs). indexed w rows d \<and> small w r d" using Cons.prems by auto
  ultimately show ?case using Cons.IH[of "s\<lparr>s_chunk_count := s_chunk_count s + 1,
    s_requested_count := s_requested_count s + length c,
    s_max_chunk_size := max (s_max_chunk_size s) (length c)\<rparr>"] by (auto simp: add.assoc)
qed simp

definition selected_size :: "OutboxRepository \<Rightarrow> nat option \<Rightarrow> nat" where
  "selected_size r chunk_size = (case chunk_size of Some n \<Rightarrow> if n = 0 then r_enqueue_chunk_size r else n
     | None \<Rightarrow> r_enqueue_chunk_size r)"

lemma enqueue_many_Inr:
  "enqueue_many_upserts w r env chunk ds rows = Inr (s, rows') \<longleftrightarrow>
     (1 \<le> selected_size r chunk \<and> selected_size r chunk \<le> MAX_ENQUEUE_CHUNK_SIZE \<and>
     (\<exists>s'. enqueue_chunks w r env (chunks_of (selected_size r chunk) ds) empty_summary rows = Inr (s', rows')
       \<and> s = s'\<lparr>s_reused_count := int (s_requested_count s') - int (s_inserted_count s')\<rparr>))"
  by (auto simp: enqueue_many_upserts_def selected_size_def[symmetric] bind_err_Inr Let_def)

lemma enqueue_many_alone:
  assumes "enqueue_many_upserts w r env chunk ds rows = Inr (s, rows')" and "distinct (map o_key rows)"
    and "\<And>k. alone (env k)"
  shows "\<exists>news. rows' = rows @ news \<and> s_inserted_count s = length news
    \<and> (\<forall>row \<in> set news. (\<exists>d \<in> set ds. describes w d row \<and> small w r d)
         \<and> (\<exists>k. waiting_row (env_now (env k)) row))"
proof -
  from assms(1) obtain s' where n: "1 \<le> selected_size r chunk"
    and run: "enqueue_chunks w r env (chunks_of (selected_size r chunk) ds) empty_summary rows = Inr (s', rows')"
    and s: "s = s'\<lparr>s_reused_count := int (s_requested_count s') - int (s_inserted_count s')\<rparr>"
    by (auto simp: enqueue_many_Inr)
  with enqueue_chunks_alone[OF run assms(2,3)] show ?thesis
    by (simp add: empty_summary_def)
qed

text \<open>Whatever other transactions add in between, when a bulk enqueue reports success every
  document it was given has a row in the outbox under its key with its own payload digest, no two
  rows share a key, and the summary counts every document, with no chunk over the chosen size.\<close>

theorem enqueue_complete:
  assumes "enqueue_many_upserts w r env chunk ds rows = Inr (s, rows')" and "distinct (map o_key rows)"
    and "\<And>k. polite (env k)"
  shows "distinct (map o_key rows')
    \<and> list_all (\<lambda>d. \<exists>row \<in> set rows'. o_key row = deduplication_key d \<and> o_payload_sha256 row = payload_sha w d) ds
    \<and> s_requested_count s = length ds
    \<and> s_reused_count s + int (s_inserted_count s) = int (length ds)
    \<and> s_max_chunk_size s \<le> MAX_ENQUEUE_CHUNK_SIZE"
proof -
  let ?n = "selected_size r chunk"
  from assms(1) obtain s' where n: "1 \<le> ?n" "?n \<le> MAX_ENQUEUE_CHUNK_SIZE"
    and run: "enqueue_chunks w r env (chunks_of ?n ds) empty_summary rows = Inr (s', rows')"
    and s: "s = s'\<lparr>s_reused_count := int (s_requested_count s') - int (s_inserted_count s')\<rparr>"
    by (auto simp: enqueue_many_Inr)
  note E = enqueue_chunks_Inr[OF run assms(2,3)]
  have "s_max_chunk_size s' \<le> ?n"
    using E chunks_bounded[of _ ?n ds] by (auto simp: empty_summary_def)
  then have max: "s_max_chunk_size s' \<le> MAX_ENQUEUE_CHUNK_SIZE" using n by simp
  have "s_requested_count s' = length ds" "\<forall>d \<in> set ds. indexed w rows' d"
    using E n by (simp_all add: empty_summary_def)
  then show ?thesis using E max s unfolding list_all_iff indexed_def by simp
qed

text \<open>Enqueueing is idempotent: once a batch has been accepted, enqueueing the same documents
  again, in chunks of any size, inserts nothing, reuses every one and leaves the table as it is.\<close>

theorem enqueue_idempotent:
  assumes "enqueue_many_upserts w r env chunk ds rows = Inr (s, rows')" and "distinct (map o_key rows)"
    and "\<And>k. alone (env k)" and "\<And>k. alone (env' k)"
    and "1 \<le> selected_size r chunk'" and "selected_size r chunk' \<le> MAX_ENQUEUE_CHUNK_SIZE"
  shows "\<exists>again. enqueue_many_upserts w r env' chunk' ds rows' = Inr (again, rows')
    \<and> s_inserted_count again = 0 \<and> s_reused_count again = int (length ds)"
proof -
  let ?n = "selected_size r chunk" and ?m = "selected_size r chunk'"
  from assms(1) obtain s' where n: "1 \<le> ?n"
    and run: "enqueue_chunks w r env (chunks_of ?n ds) empty_summary rows = Inr (s', rows')"
    by (auto simp: enqueue_many_Inr)
  have "distinct (map o_key rows')" "\<forall>d \<in> set ds. indexed w rows' d \<and> small w r d"
    using enqueue_chunks_Inr[OF run assms(2)] alone_polite assms(3) n by auto
  then have "\<exists>s''. enqueue_chunks w r env' (chunks_of ?m ds) empty_summary rows' = Inr (s'', rows')
      \<and> s_inserted_count s'' = 0 \<and> s_requested_count s'' = length ds"
    using enqueue_chunks_again[of env' rows' "chunks_of ?m ds" w r empty_summary] assms(4,5)
    by (simp add: empty_summary_def)
  then show ?thesis using assms(5,6) by (auto simp: enqueue_many_Inr)
qed

section \<open>Enqueueing that succeeds\<close>

definition compatible :: "Writer \<Rightarrow> OutboxRow list \<Rightarrow> SearchDocument set \<Rightarrow> bool" where
  "compatible w rows D = (\<forall>row \<in> set rows. \<forall>d \<in> D. o_key row = deduplication_key d
     \<longrightarrow> o_payload_sha256 row = payload_sha w d)"

lemma compatible_matches:
  "compatible w rows (set ds) \<Longrightarrow> prepared_of w ds prepared
    \<Longrightarrow> list_all (matches_prepared prepared) (select_by_keys keys rows)"
  unfolding list_all_iff matches_prepared_def prepared_of_def compatible_def select_by_keys_def
  by (auto dest!: subsetD)

text \<open>What a bulk enqueue relies on while it runs: \<open>Q\<close> holds of the table at each statement. It excludes
  a conflicting row, other transactions keep it and remove no key, and the rows of the batch keep it.\<close>

definition enqueue_invariant :: "Writer \<Rightarrow> SearchDocument set \<Rightarrow> (nat \<Rightarrow> Environment) \<Rightarrow> (OutboxRow list \<Rightarrow> bool) \<Rightarrow> bool" where
  "enqueue_invariant w V env Q =
     ((\<forall>rows. Q rows \<longrightarrow> distinct (map o_key rows) \<and> compatible w rows V)
      \<and> (\<forall>k rows. Q rows \<longrightarrow> Q (env_others (env k) rows) \<and> o_key ` set rows \<subseteq> o_key ` set (env_others (env k) rows))
      \<and> (\<forall>rows news. Q rows \<longrightarrow> distinct (map o_key (rows @ news)) \<longrightarrow> (\<forall>row \<in> set news. \<exists>d \<in> V. describes w d row)
           \<longrightarrow> Q (rows @ news)))"

lemma enqueue_chunk_succeeds:
  assumes inv: "enqueue_invariant w V env Q" and "Q rows" and "set ds \<subseteq> V" and "\<forall>d \<in> set ds. small w r d"
    and "consistent w V" and "r_dialect r = PostgreSQL \<or> r_dialect r = SQLite"
  shows "\<exists>rows' n. enqueue_chunk w r (env k) ds rows = Inr (rows', n) \<and> Q rows'
    \<and> o_key ` set rows \<union> deduplication_key ` set ds \<subseteq> o_key ` set rows'"
proof -
  let ?others = "env_others (env k) rows"
  have mid: "Q ?others" "o_key ` set rows \<subseteq> o_key ` set ?others" "distinct (map o_key ?others)"
    using inv \<open>Q rows\<close> unfolding enqueue_invariant_def by blast+
  have con: "consistent w (set ds)" by (rule consistent_subset[OF assms(5,3)])
  have fits: "compatible w xs (set ds)" if "Q xs" for xs
    using inv that assms(3) unfolding enqueue_invariant_def compatible_def by blast
  obtain prepared where prep: "prepare_batch w r ds [] = Inr prepared"
    using prepare_batch_start(2) assms(4) con by blast
  from prepare_batch_start(1)[OF prep] have P: "prepared_of w ds prepared" by (auto simp: consistent_def[of _ "{}"])
  let ?keys = "map p_key prepared"
  let ?sel = "select_by_keys ?keys rows"
  let ?new = "filter (\<lambda>e. p_key e \<notin> o_key ` set ?sel) prepared"
  let ?vs = "map (new_row (env_id (env k)) (env_now (env k))) ?new"
  obtain rows' n where ins: "insert_do_nothing ?vs ?others = (rows', n)" by fastforce
  from insert_do_nothing_shape[OF ins] obtain news where news: "rows' = ?others @ news" "set news \<subseteq> set ?vs"
    "o_key ` set rows' = o_key ` set ?others \<union> o_key ` set ?vs" "distinct (map o_key rows')"
    using mid(3) by blast
  have "\<forall>row \<in> set news. \<exists>d \<in> V. describes w d row"
  proof
    fix row assume "row \<in> set news"
    then obtain e where "e \<in> set prepared" "row = new_row (env_id (env k)) (env_now (env k)) e" using news(2) by auto
    moreover from this obtain d where "d \<in> set ds" "e = entry_of w d" using P by (auto simp: prepared_of_def)
    ultimately show "\<exists>d \<in> V. describes w d row" using new_row_describes assms(3) by blast
  qed
  then have Q': "Q rows'" using inv mid(1) news(1,4) unfolding enqueue_invariant_def by blast
  have ok': "validate_existing prepared (select_by_keys ?keys rows') = Inr ()"
    using compatible_matches[OF fits[OF Q'] P] by (simp add: validate_existing_def)
  have ok: "validate_existing prepared ?sel = Inr ()"
    using compatible_matches[OF fits[OF \<open>Q rows\<close>] P] by (simp add: validate_existing_def)
  have vs: "o_key ` set ?vs = p_key ` set ?new" unfolding set_map image_image by (simp add: new_row_def)
  have "p_key ` set ?new = p_key ` set prepared - o_key ` set rows" by (auto simp: keys_selected)
  then have found: "p_key ` set prepared \<subseteq> o_key ` set rows'" using mid(2) unfolding news(3) vs by blast
  moreover have "distinct ?keys" using P by (simp add: prepared_of_def)
  ultimately have len: "length (select_by_keys ?keys rows') = length prepared"
    using length_select[OF news(4)] by blast
  have "p_key ` set prepared = deduplication_key ` set ds" using P by (simp add: prepared_of_def)
  then have all: "o_key ` set rows \<union> deduplication_key ` set ds \<subseteq> o_key ` set rows'"
    using found mid(2) unfolding news(3) by blast
  have "insert_entries r ?vs ?others = Inr (rows', n)"
    using ins assms(6) by (cases "?vs = []") (auto simp: insert_entries_def)
  then have "enqueue_chunk w r (env k) ds rows = Inr (rows', n)" unfolding enqueue_chunk_def prep bind_err_simps Let_def ok
    by (simp add: len ok')
  then show ?thesis using Q' all by blast
qed

lemma enqueue_chunks_succeed:
  assumes "enqueue_invariant w V env Q" and "Q rows" and "set (concat cs) \<subseteq> V" and "\<forall>d \<in> set (concat cs). small w r d"
    and "consistent w V" and "r_dialect r = PostgreSQL \<or> r_dialect r = SQLite"
  shows "\<exists>s' rows'. enqueue_chunks w r env cs s rows = Inr (s', rows') \<and> Q rows'
    \<and> o_key ` set rows \<union> deduplication_key ` set (concat cs) \<subseteq> o_key ` set rows'"
  using assms(2-4)
proof (induction cs arbitrary: s rows)
  case (Cons c cs)
  then obtain mid n where mid: "enqueue_chunk w r (env (s_chunk_count s)) c rows = Inr (mid, n)" "Q mid"
    "o_key ` set rows \<union> deduplication_key ` set c \<subseteq> o_key ` set mid"
    using enqueue_chunk_succeeds[OF assms(1) Cons.prems(1) _ _ assms(5,6), of c "s_chunk_count s"] by auto
  let ?s = "s\<lparr>s_chunk_count := s_chunk_count s + 1, s_requested_count := s_requested_count s + length c,
           s_max_chunk_size := max (s_max_chunk_size s) (length c), s_inserted_count := s_inserted_count s + n\<rparr>"
  have "set (concat cs) \<subseteq> V" "\<forall>d \<in> set (concat cs). small w r d" using Cons.prems by auto
  from Cons.IH[OF mid(2) this, of ?s] obtain s' rows' where "enqueue_chunks w r env cs ?s mid = Inr (s', rows')" "Q rows'"
    "o_key ` set mid \<union> deduplication_key ` set (concat cs) \<subseteq> o_key ` set rows'" by blast
  moreover from this(3) mid(3) have "o_key ` set rows \<union> deduplication_key ` set (concat (c # cs)) \<subseteq> o_key ` set rows'"
    unfolding concat.simps set_append image_Un by blast
  ultimately show ?case using mid(1) by (simp add: bind_err_def)
qed simp

lemma enqueue_many_succeeds:
  assumes "enqueue_invariant w V env Q" and "Q rows" and "set ds \<subseteq> V" and "\<forall>d \<in> set ds. small w r d"
    and "consistent w V" and "r_dialect r = PostgreSQL \<or> r_dialect r = SQLite"
    and "1 \<le> selected_size r chunk" and "selected_size r chunk \<le> MAX_ENQUEUE_CHUNK_SIZE"
  shows "\<exists>s rows'. enqueue_many_upserts w r env chunk ds rows = Inr (s, rows') \<and> Q rows' \<and> (\<forall>d \<in> set ds. indexed w rows' d)"
proof -
  have chunks: "concat (chunks_of (selected_size r chunk) ds) = ds" using assms(7) by simp
  obtain s' rows' where run: "enqueue_chunks w r env (chunks_of (selected_size r chunk) ds) empty_summary rows = Inr (s', rows')"
    "Q rows'" "deduplication_key ` set ds \<subseteq> o_key ` set rows'"
    using enqueue_chunks_succeed[OF assms(1,2) _ _ assms(5,6), of "chunks_of (selected_size r chunk) ds" empty_summary] assms(3,4)
    unfolding chunks by auto
  have fits: "compatible w rows' V" using assms(1) run(2) unfolding enqueue_invariant_def by blast
  have "\<forall>d \<in> set ds. indexed w rows' d"
  proof
    fix d assume d: "d \<in> set ds"
    then obtain row where "row \<in> set rows'" "o_key row = deduplication_key d" using run(3) by auto
    then show "indexed w rows' d" using fits d assms(3) unfolding compatible_def indexed_def by blast
  qed
  then show ?thesis using run(1,2) assms(7,8) by (auto simp: enqueue_many_Inr)
qed

section \<open>A concrete run\<close>

definition sample_writer :: Writer where
  "sample_writer = \<lparr>write_time = isoformat, write_number = (\<lambda>_. ''0.5'')\<rparr>"

abbreviation sample_document :: SearchDocument where
  "sample_document \<equiv> EventDocument sample_event_document"

text \<open>A repository whose limit the sample payload just meets.\<close>

definition sample_repository :: OutboxRepository where
  "sample_repository = \<lparr>r_dialect = PostgreSQL, r_max_payload_bytes = p_size (entry_of sample_writer sample_document),
     r_enqueue_chunk_size = 250, r_max_claim_batch_size = 1000, r_max_lease_seconds = 86400\<rparr>"

definition sample_environment :: "nat \<Rightarrow> Environment" where
  "sample_environment k = \<lparr>env_id = (\<lambda>key. ''R1''), env_now = Instant 0, env_others = (\<lambda>rows. rows)\<rparr>"

definition sample_row :: OutboxRow where
  "sample_row = new_row (\<lambda>key. ''R1'') (Instant 0) (entry_of sample_writer sample_document)"

lemma sample_alone: "alone (sample_environment k)"
  by (simp add: alone_def sample_environment_def)

lemma sample_small: "small sample_writer sample_repository sample_document"
  by (simp add: small_def sample_repository_def)

lemma sample_enqueue:
  "\<exists>s. enqueue_many_upserts sample_writer sample_repository sample_environment None [sample_document] []
     = Inr (s, [sample_row]) \<and> s_inserted_count s = 1"
proof -
  have chunk: "chunks_of 250 [sample_document] = [[sample_document]]" by (simp add: chunks_of.simps)
  have row: "new_row (env_id (sample_environment k)) (env_now (sample_environment k)) (entry_of sample_writer sample_document)
      = sample_row" for k
    by (simp add: sample_environment_def sample_row_def)
  have key: "o_key sample_row = deduplication_key sample_document"
    "o_payload_sha256 sample_row = payload_sha sample_writer sample_document"
    by (simp_all add: sample_row_def new_row_def)
  have "enqueue_chunk sample_writer sample_repository (sample_environment 0) [sample_document] [] = Inr ([sample_row], 1)"
    unfolding enqueue_chunk_def prepare_batch.simps prepare_small[OF sample_small]
    by (simp add: select_by_keys_def validate_existing_def insert_entries_def sample_repository_def row key
        matches_prepared_def) (simp add: sample_environment_def)
  moreover have "r_enqueue_chunk_size sample_repository = 250" by (simp add: sample_repository_def)
  ultimately show ?thesis unfolding enqueue_many_upserts_def
    by (simp add: chunk empty_summary_def MAX_ENQUEUE_CHUNK_SIZE_def)
qed

theorem enqueue_idempotent_witness:
  "\<exists>again. enqueue_many_upserts sample_writer sample_repository sample_environment (Some 7) [sample_document] [sample_row]
      = Inr (again, [sample_row]) \<and> s_inserted_count again = 0 \<and> s_reused_count again = int (length [sample_document])"
proof -
  obtain s where run: "enqueue_many_upserts sample_writer sample_repository sample_environment None [sample_document] []
      = Inr (s, [sample_row])" using sample_enqueue by blast
  show ?thesis
    by (rule enqueue_idempotent[OF run])
      (simp_all add: sample_alone selected_size_def MAX_ENQUEUE_CHUNK_SIZE_def)
qed

end
