(* ===== verification/OutboxClaims.thy ===== *)
theory OutboxClaims
  imports Outbox
begin

text \<open>
  Claiming rows of the outbox: what \<open>claim_batch\<close> of \<open>persistence/outbox_repository.py\<close> returns and
  writes, and the outbox as a state machine of producers and claimants at a clock, with its
  invariant, the exclusiveness of leases and the recovery of rows whose claimant died.
\<close>

section \<open>Facts about claiming\<close>

interpretation claiming: separating_key claim_key "\<lambda>A. inj_on o_id A"
  by unfold_locales (auto simp: claim_key_def inj_on_def)

definition unlocked :: "OutboxRepository \<Rightarrow> (string \<Rightarrow> bool) \<Rightarrow> OutboxRow \<Rightarrow> bool" where
  "unlocked r locked row = (r_dialect r = PostgreSQL \<longrightarrow> \<not> locked (o_id row))"

text \<open>The rows a claim chooses: the oldest claimable ones.\<close>

definition chosen_rows :: "OutboxRepository \<Rightarrow> (string \<Rightarrow> bool) \<Rightarrow> datetime \<Rightarrow> nat \<Rightarrow> OutboxRow list \<Rightarrow> OutboxRow list" where
  "chosen_rows r locked now n rows =
     take n (claim_order (filter (\<lambda>row. row_claimable now row \<and> unlocked r locked row) rows))"

lemma claim_candidates_ids: "claim_candidates r locked now n rows = map o_id (chosen_rows r locked now n rows)"
  by (simp add: claim_candidates_def chosen_rows_def unlocked_def)

lemma chosen_rows_set: "set (chosen_rows r locked now n rows) \<subseteq> {row \<in> set rows. row_claimable now row \<and> unlocked r locked row}"
  by (auto simp: chosen_rows_def claim_order_def dest: in_set_takeD)

lemma chosen_in_rows:
  "distinct (map o_id rows) \<Longrightarrow> row \<in> set rows \<Longrightarrow>
    o_id row \<in> set (claim_candidates r locked now n rows) \<longleftrightarrow> row \<in> set (chosen_rows r locked now n rows)"
  using chosen_rows_set[of r locked now n rows]
  by (auto simp: claim_candidates_ids distinct_map inj_on_def)

lemma claim_order_take:
  assumes "distinct (map o_id rows)" and sub: "set xs \<subseteq> set rows" and dist: "distinct xs"
  shows "claim_order (filter (\<lambda>row. row \<in> set (take n (claim_order xs))) rows) = take n (claim_order xs)"
proof -
  let ?c = "take n (claim_order xs)"
  have d: "distinct ?c" using dist by (simp add: claim_order_def)
  have sub: "set ?c \<subseteq> set rows" using sub by (auto simp: claim_order_def dest!: in_set_takeD)
  have "mset (filter (\<lambda>row. row \<in> set ?c) rows) = mset ?c"
    using d sub assms by (intro set_eq_iff_mset_eq_distinct[THEN iffD1]) (auto simp: distinct_map)
  moreover have "inj_on o_id (set (filter (\<lambda>row. row \<in> set ?c) rows))"
    using assms by (auto simp: distinct_map inj_on_def)
  ultimately have "claim_order (filter (\<lambda>row. row \<in> set ?c) rows) = sort_key claim_key ?c"
    unfolding claim_order_def by (rule claiming.sort_key_mset_eq)
  also have "\<dots> = ?c" by (rule sort_key_id_if_sorted) (simp add: claim_order_def sorted_wrt_take take_map[symmetric])
  finally show ?thesis .
qed

lemma claim_order_map:
  "(\<And>row. row \<in> set xs \<Longrightarrow> claim_key (f row) = claim_key row) \<Longrightarrow> claim_order (map f xs) = map f (claim_order xs)"
  unfolding claim_order_def
proof (induction xs)
  case (Cons x xs)
  have "insort_key claim_key (f x) (map f ys) = map f (insort_key claim_key x ys)"
    if "\<forall>y \<in> set ys. claim_key (f y) = claim_key y" for ys
    using that Cons.prems by (induction ys) auto
  with Cons show ?case by simp
qed simp

lemma lease_row_simps [simp]:
  "o_id (lease_row owner now until row) = o_id row" "o_key (lease_row owner now until row) = o_key row"
  "o_lease_owner (lease_row owner now until row) = Some owner" "o_status (lease_row owner now until row) = OProcessing"
  "o_lease_expires_at (lease_row owner now until row) = Some until"
  "claim_key (lease_row owner now until row) = claim_key row"
  "o_attempt_count (lease_row owner now until row) = Suc (o_attempt_count row)"
  by (simp_all add: lease_row_def claim_key_def)

lemma filter_leased:
  "(\<And>row. row \<in> set xs \<Longrightarrow> o_id row \<in> ids \<longleftrightarrow> row \<in> C)
    \<Longrightarrow> filter (\<lambda>row. o_id row \<in> ids \<and> o_lease_owner row = Some owner \<and> o_status row = OProcessing)
          (map (\<lambda>row. if row \<in> C then lease_row owner now until row else row) xs)
      = map (lease_row owner now until) (filter (\<lambda>row. row \<in> C) xs)"
  by (induction xs) auto

lemma filter_unleased:
  "(\<And>row. row \<in> set xs \<Longrightarrow> o_id row \<in> ids \<longleftrightarrow> row \<in> C)
    \<Longrightarrow> filter (\<lambda>row. o_id row \<notin> ids) (map (\<lambda>row. if row \<in> C then lease_row owner now until row else row) xs)
      = filter (\<lambda>row. o_id row \<notin> ids) xs"
  by (induction xs) auto

lemma claim_batch_Inr:
  assumes "claim_batch r locked now claimant n lease rows = Inr (batch, rows')" and "distinct (map o_id rows)"
  defines "chosen \<equiv> chosen_rows r locked now (nat n) rows"
    and "leased \<equiv> lease_row (py_strip claimant) now (plus_seconds now lease)"
  shows "batch = map leased chosen"
    and "rows' = map (\<lambda>row. if row \<in> set chosen then leased row else row) rows"
    and "1 \<le> n" and "n \<le> r_max_claim_batch_size r" and "1 \<le> lease" and "lease \<le> r_max_lease_seconds r"
proof -
  let ?ids = "claim_candidates r locked now (nat n) rows"
  from assms(1) have batch: "batch = (if ?ids = [] then [] else claim_order (filter (\<lambda>row. o_id row \<in> set ?ids
        \<and> o_lease_owner row = Some (py_strip claimant) \<and> o_status row = OProcessing) rows'))"
    and rows': "rows' = map (\<lambda>row. if o_id row \<in> set ?ids then leased row else row) rows"
    and ok: "1 \<le> n" "n \<le> r_max_claim_batch_size r" "1 \<le> lease" "lease \<le> r_max_lease_seconds r"
    by (auto simp: claim_batch_def Let_def leased_def split: if_splits)
  have mem: "row \<in> set rows \<Longrightarrow> o_id row \<in> set ?ids \<longleftrightarrow> row \<in> set chosen" for row
    unfolding chosen_def by (rule chosen_in_rows[OF assms(2)])
  show table: "rows' = map (\<lambda>row. if row \<in> set chosen then leased row else row) rows"
    unfolding rows' using mem by (intro map_cong) auto
  have "filter (\<lambda>row. o_id row \<in> set ?ids \<and> o_lease_owner row = Some (py_strip claimant) \<and> o_status row = OProcessing) rows'
      = map leased (filter (\<lambda>row. row \<in> set chosen) rows)"
    unfolding table leased_def using mem by (intro filter_leased) auto
  then have "claim_order (filter (\<lambda>row. o_id row \<in> set ?ids \<and> o_lease_owner row = Some (py_strip claimant)
      \<and> o_status row = OProcessing) rows') = map leased (claim_order (filter (\<lambda>row. row \<in> set chosen) rows))"
    by (simp add: claim_order_map leased_def)
  also have "claim_order (filter (\<lambda>row. row \<in> set chosen) rows) = chosen"
    unfolding chosen_def chosen_rows_def
    using assms(2) by (intro claim_order_take) (auto simp: distinct_map)
  finally show "batch = map leased chosen"
    unfolding batch by (cases "chosen = []") (simp_all add: claim_candidates_ids chosen_def)
  show "1 \<le> n" "n \<le> r_max_claim_batch_size r" "1 \<le> lease" "lease \<le> r_max_lease_seconds r" by (rule ok)+
qed

text \<open>A claim takes the oldest claimable rows, at most as many as asked for and in order of
  creation: each one taken was claimable and is returned leased to the claimant with one more
  attempt; a claimable row is left out only when the batch is full of rows that come before it; every
  row not taken is left as it was.\<close>

theorem claim_batch_exact:
  assumes "claim_batch r locked now claimant n lease rows = Inr (batch, rows')" and "distinct (map o_id rows)"
  shows "int (length batch) \<le> n \<and> sorted (map claim_key batch)
    \<and> (\<forall>row \<in> set batch. \<exists>old \<in> set rows. row_claimable now old
         \<and> row = lease_row (py_strip claimant) now (plus_seconds now lease) old)
    \<and> (\<forall>row \<in> set rows. row_claimable now row \<and> unlocked r locked row \<longrightarrow> o_id row \<notin> o_id ` set batch \<longrightarrow>
         int (length batch) = n \<and> (\<forall>taken \<in> set batch. claim_key taken \<le> claim_key row))
    \<and> filter (\<lambda>row. o_id row \<notin> o_id ` set batch) rows' = filter (\<lambda>row. o_id row \<notin> o_id ` set batch) rows"
proof -
  let ?able = "filter (\<lambda>row. row_claimable now row \<and> unlocked r locked row) rows"
  let ?chosen = "chosen_rows r locked now (nat n) rows"
  note C = claim_batch_Inr[OF assms]
  have ids: "o_id ` set batch = o_id ` set ?chosen" unfolding C(1) by (auto simp: image_image)
  have keys: "map claim_key batch = map claim_key ?chosen" unfolding C(1) by simp
  have mem: "row \<in> set rows \<Longrightarrow> o_id row \<in> o_id ` set ?chosen \<longleftrightarrow> row \<in> set ?chosen" for row
    using chosen_in_rows[OF assms(2), of row r locked now "nat n"] by (simp add: claim_candidates_ids)
  have bound: "int (length batch) \<le> n" using C(1,3) by (simp add: chosen_rows_def)
  have order: "sorted (map claim_key batch)"
    unfolding keys by (simp add: chosen_rows_def claim_order_def sorted_wrt_take take_map[symmetric])
  have taken: "\<forall>row \<in> set batch. \<exists>old \<in> set rows. row_claimable now old
         \<and> row = lease_row (py_strip claimant) now (plus_seconds now lease) old"
    unfolding C(1) using chosen_rows_set[of r locked now "nat n" rows] by auto
  have full: "int (length batch) = n \<and> (\<forall>taken \<in> set batch. claim_key taken \<le> claim_key row)"
    if "row \<in> set rows" "row_claimable now row" "unlocked r locked row" "o_id row \<notin> o_id ` set batch" for row
  proof -
    have "row \<notin> set ?chosen" using that ids mem by simp
    moreover have "row \<in> set (claim_order ?able)" using that by (simp add: claim_order_def)
    ultimately have rest: "row \<in> set (drop (nat n) (claim_order ?able))"
      unfolding chosen_rows_def by (metis Un_iff append_take_drop_id set_append)
    then have "nat n < length (claim_order ?able)" by (cases "nat n < length (claim_order ?able)") auto
    then have "length ?chosen = nat n" by (simp add: chosen_rows_def)
    moreover have "sorted (map claim_key (take (nat n) (claim_order ?able) @ drop (nat n) (claim_order ?able)))"
      by (simp add: claim_order_def)
    then have "\<forall>x \<in> set ?chosen. claim_key x \<le> claim_key row"
      using rest unfolding chosen_rows_def map_append sorted_append by auto
    ultimately show ?thesis using C(3) unfolding C(1) by simp
  qed
  have others: "filter (\<lambda>row. o_id row \<notin> o_id ` set batch) rows' = filter (\<lambda>row. o_id row \<notin> o_id ` set batch) rows"
    unfolding C(2) ids using mem by (intro filter_unleased) auto
  show ?thesis using bound order taken full others by blast
qed

section \<open>The outbox as a state machine\<close>

text \<open>The steps of producers and claimants, at a clock that does not run backwards. Ids are a primary
  key: an insert that would repeat one is refused.\<close>

type_synonym outbox_state = "datetime \<times> OutboxRow list"

inductive outbox_step :: "Writer \<Rightarrow> OutboxRepository \<Rightarrow> outbox_state \<Rightarrow> outbox_state \<Rightarrow> bool" for w r where
  step_enqueue: "enqueue_many_upserts w r env chunk ds rows = Inr (s, rows') \<Longrightarrow> distinct (map o_id rows') \<Longrightarrow>
    (\<And>k. alone (env k) \<and> env_now (env k) = t) \<Longrightarrow> outbox_step w r (t, rows) (t, rows')"
| step_claim: "claim_batch r locked t claimant n lease rows = Inr (batch, rows') \<Longrightarrow>
    outbox_step w r (t, rows) (t, rows')"
| step_clock: "t \<le> t' \<Longrightarrow> outbox_step w r (t, rows) (t', rows)"

definition outbox_initial :: "outbox_state \<Rightarrow> bool" where
  "outbox_initial s = (snd s = [])"

definition row_inv :: "Writer \<Rightarrow> OutboxRepository \<Rightarrow> datetime \<Rightarrow> OutboxRow \<Rightarrow> bool" where
  "row_inv w r t row = ((\<exists>d. describes w d row \<and> small w r d)
     \<and> (case o_status row of
          OPending \<Rightarrow> o_available_at row \<le> t \<and> o_lease_owner row = None \<and> o_attempt_count row = 0
        | OProcessing \<Rightarrow> o_lease_owner row \<noteq> None \<and> 0 < o_attempt_count row
            \<and> (\<exists>until. o_lease_expires_at row = Some until \<and> until \<le> plus_seconds t (r_max_lease_seconds r))
        | _ \<Rightarrow> False))"

definition outbox_inv :: "Writer \<Rightarrow> OutboxRepository \<Rightarrow> outbox_state \<Rightarrow> bool" where
  "outbox_inv w r s = (distinct (map o_id (snd s)) \<and> distinct (map o_key (snd s))
     \<and> (\<forall>row \<in> set (snd s). row_inv w r (fst s) row))"

lemma new_row_available: "o_available_at (new_row i now e) = now"
  by (simp add: new_row_def)

lemma row_inv_later: "row_inv w r t row \<Longrightarrow> t \<le> t' \<Longrightarrow> row_inv w r t' row"
  unfolding row_inv_def
  by (cases "o_status row") (auto simp: instant_simps)

lemma plus_seconds_mono: "a \<le> b \<Longrightarrow> plus_seconds t a \<le> plus_seconds t b"
  by (simp add: instant_simps seconds_def)

lemma row_inv_leased:
  "row_inv w r t row \<Longrightarrow> lease \<le> r_max_lease_seconds r \<Longrightarrow> row_inv w r t (lease_row owner t (plus_seconds t lease) row)"
  unfolding row_inv_def by (auto simp: lease_row_def describes_def intro: plus_seconds_mono)

lemma outbox_step_inv:
  assumes "outbox_inv w r s" and "outbox_step w r s s'"
  shows "outbox_inv w r s'"
  using assms(2,1)
proof (cases rule: outbox_step.cases)
  case (step_enqueue env chunk ds rows sum rows' t)
  then have dist: "distinct (map o_key rows)" and env: "\<And>k. alone (env k)" "\<And>k. env_now (env k) = t"
    using assms(1) by (auto simp: outbox_inv_def)
  note run = step_enqueue(3)
  from enqueue_many_alone[OF run dist env(1)] obtain news where news: "rows' = rows @ news"
    "\<forall>row \<in> set news. (\<exists>d. describes w d row \<and> small w r d) \<and> waiting_row t row" unfolding env(2) by blast
  have "\<forall>row \<in> set rows'. row_inv w r t row"
    using news assms(1) step_enqueue by (auto simp: outbox_inv_def row_inv_def waiting_row_def)
  moreover have "distinct (map o_key rows')" using enqueue_complete[OF run dist] env by (simp add: alone_polite)
  ultimately show ?thesis using step_enqueue by (simp add: outbox_inv_def)
next
  case (step_claim locked t claimant n lease rows batch rows')
  then have ids: "distinct (map o_id rows)" using assms(1) by (simp add: outbox_inv_def)
  note C = claim_batch_Inr[OF step_claim(3) ids]
  have "map o_id rows' = map o_id rows" "map o_key rows' = map o_key rows" unfolding C(2) by simp_all
  moreover have "\<forall>row \<in> set rows'. row_inv w r t row"
    unfolding C(2) using step_claim(1,2) assms(1) C(6) by (auto simp: outbox_inv_def intro: row_inv_leased)
  ultimately show ?thesis using step_claim assms(1) by (simp add: outbox_inv_def)
next
  case (step_clock t t' rows)
  then show ?thesis using assms(1) by (auto simp: outbox_inv_def intro: row_inv_later)
qed

interpretation outbox: invariant_machine outbox_initial "outbox_step w r" "outbox_inv w r" for w r
proof
  show "outbox_inv w r s" if "outbox_initial s" for s
    using that by (simp add: outbox_initial_def outbox_inv_def)
  show "outbox_inv w r t" if "outbox_inv w r s" and "outbox_step w r s t" for s t
    using that by (rule outbox_step_inv)
qed

text \<open>A row under a live lease is not touched before the lease ends.\<close>

definition leased_until :: "datetime \<Rightarrow> OutboxRow \<Rightarrow> bool" where
  "leased_until until row = (o_status row = OProcessing \<and> o_lease_expires_at row = Some until)"

lemma live_lease_not_claimable: "leased_until until row \<Longrightarrow> now < until \<Longrightarrow> \<not> row_claimable now row"
  by (simp add: leased_until_def row_claimable_def lease_expired_def)

lemma live_lease_not_chosen:
  "leased_until until row \<Longrightarrow> now < until \<Longrightarrow> row \<notin> set (chosen_rows r locked now n rows)"
  using chosen_rows_set live_lease_not_claimable by fastforce

lemma step_keeps_lease:
  assumes "outbox_step w r s s'" and "outbox_inv w r s" and "row \<in> set (snd s)" and "leased_until until row"
    and "fst s < until"
  shows "row \<in> set (snd s')"
  using assms(1)
proof (cases rule: outbox_step.cases)
  case (step_enqueue env chunk ds rows sum rows' t)
  then have "distinct (map o_key rows)" using assms(2) by (simp add: outbox_inv_def)
  then show ?thesis using enqueue_many_alone[OF step_enqueue(3)] step_enqueue assms(3) by fastforce
next
  case (step_claim locked t claimant n lease rows batch rows')
  then have "distinct (map o_id rows)" using assms(2) by (simp add: outbox_inv_def)
  from claim_batch_Inr(2)[OF step_claim(3) this] show ?thesis
    using live_lease_not_chosen[OF assms(4)] assms(3,5) step_claim by force
qed (use assms in simp)

lemma step_clock_mono: "outbox_step w r s s' \<Longrightarrow> fst s \<le> fst s'"
  by (cases rule: outbox_step.cases) auto

lemma steps_clock_mono: "(outbox_step w r)\<^sup>*\<^sup>* s s' \<Longrightarrow> fst s \<le> fst s'"
  by (induction rule: rtranclp_induct) (auto dest: step_clock_mono)

lemma steps_keep_lease:
  assumes "(outbox_step w r)\<^sup>*\<^sup>* s s'" and "outbox_inv w r s" and "row \<in> set (snd s)" and "leased_until until row"
    and "fst s' < until"
  shows "row \<in> set (snd s')"
  using assms
proof (induction rule: rtranclp_induct)
  case (step s' s'')
  then have "fst s' \<le> fst s''" by (blast dest: step_clock_mono)
  then have "fst s' < until" using step.prems(4) by simp
  with step show ?case using outbox.steps_inv[OF step.hyps(1)] step_keeps_lease by blast
qed simp

text \<open>C34: a leased row has one holder: as long as the lease of a claim runs, no later claim, by any
  claimant and after any steps of others, returns a row of its batch.\<close>

theorem lease_exclusive:
  assumes "reach outbox_initial (outbox_step w r) (t, rows)"
    and "claim_batch r locked t claimant n lease rows = Inr (batch, rows1)"
    and "(outbox_step w r)\<^sup>*\<^sup>* (t, rows1) (t2, rows2)" and "t2 < plus_seconds t lease"
    and "claim_batch r locked2 t2 claimant2 n2 lease2 rows2 = Inr (batch2, rows3)"
  shows "o_id ` set batch \<inter> o_id ` set batch2 = {}"
proof -
  have inv: "outbox_inv w r (t, rows)" using assms(1) by (rule outbox.reach_inv)
  then have ids: "distinct (map o_id rows)" by (simp add: outbox_inv_def)
  have inv1: "outbox_inv w r (t, rows1)" using inv step_claim[OF assms(2)] by (rule outbox_step_inv)
  have inv2: "outbox_inv w r (t2, rows2)" using assms(3) inv1 by (rule outbox.steps_inv)
  then have ids2: "distinct (map o_id rows2)" by (simp add: outbox_inv_def)
  note C = claim_batch_Inr[OF assms(2) ids] and C2 = claim_batch_Inr[OF assms(5) ids2]
  have False if "row \<in> set batch" "other \<in> set batch2" "o_id row = o_id other" for row other
  proof -
    have lease: "leased_until (plus_seconds t lease) row" using that(1) C(1) by (auto simp: leased_until_def)
    have "row \<in> set rows1" using that(1) C(1) chosen_rows_set unfolding C(2) by force
    then have row2: "row \<in> set rows2" using steps_keep_lease[OF assms(3) inv1 _ lease] assms(4) by simp
    have "other \<in> set batch2" by (rule that(2))
    then obtain old where old: "old \<in> set (chosen_rows r locked2 t2 (nat n2) rows2)" "o_id old = o_id other"
      unfolding C2(1) by auto
    then have "old \<in> set rows2" using chosen_rows_set by blast
    then have "old = row" using ids2 row2 old(2) that(3) by (metis distinct_map inj_onD)
    then show False using live_lease_not_chosen[OF lease assms(4)] old(1) by simp
  qed
  then show ?thesis by blast
qed

text \<open>C35: no row is stranded by a claimant that dies: once the longest lease has passed without
  further claims, a claim large enough for the table returns every row of it.\<close>

theorem outbox_never_stranded:
  assumes "reach outbox_initial (outbox_step w r) (t, rows)" and "plus_seconds t (r_max_lease_seconds r) \<le> t'"
    and "py_strip claimant \<noteq> []" and "length (py_strip claimant) \<le> 64"
    and "int (length rows) \<le> n" and "1 \<le> n" and "n \<le> r_max_claim_batch_size r"
    and "1 \<le> lease" and "lease \<le> r_max_lease_seconds r"
  shows "\<exists>batch rows'. claim_batch r (\<lambda>_. False) t' claimant n lease rows = Inr (batch, rows')
    \<and> o_id ` set batch = o_id ` set rows"
proof -
  have inv: "outbox_inv w r (t, rows)" using assms(1) by (rule outbox.reach_inv)
  then have ids: "distinct (map o_id rows)" by (simp add: outbox_inv_def)
  have "t \<le> t'" using assms(2,8,9) by (auto simp: instant_simps seconds_def)
  have "row_claimable t' row" if "row \<in> set rows" for row
  proof -
    have "row_inv w r t row" using inv that by (simp add: outbox_inv_def)
    then show ?thesis using assms(2) \<open>t \<le> t'\<close> unfolding row_inv_def row_claimable_def lease_expired_def
      by (auto split: OutboxStatus.splits)
  qed
  then have "filter (\<lambda>row. row_claimable t' row \<and> unlocked r (\<lambda>_. False) row) rows = rows"
    by (simp add: filter_id_conv unlocked_def)
  then have all: "set (chosen_rows r (\<lambda>_. False) t' (nat n) rows) = set rows"
    using assms(5) by (simp add: chosen_rows_def claim_order_def)
  have "\<exists>batch rows'. claim_batch r (\<lambda>_. False) t' claimant n lease rows = Inr (batch, rows')"
    using assms(3-9) by (simp add: claim_batch_def Let_def MAX_CLAIMANT_ID_LENGTH_def)
  then obtain batch rows' where run: "claim_batch r (\<lambda>_. False) t' claimant n lease rows = Inr (batch, rows')"
    by blast
  have "o_id ` set batch = o_id ` set rows"
    using claim_batch_Inr(1)[OF run ids] all by (auto simp: image_image)
  with run show ?thesis by blast
qed

section \<open>A concrete run\<close>

definition sample_lease :: OutboxRow where
  "sample_lease = lease_row ''w1'' (Instant 0) (Instant 300000000) sample_row"

lemma claimant_texts: "py_strip '' w1 '' = ''w1''" "py_strip ''w2'' = ''w2''" "length ''w1'' = 2" "length ''w2'' = 2"
  by code_simp+

lemma sample_claim:
  "claim_batch sample_repository (\<lambda>_. False) (Instant 0) '' w1 '' 1 300 [sample_row] = Inr ([sample_lease], [sample_lease])"
proof -
  have "row_claimable (Instant 0) sample_row"
    by (simp add: row_claimable_def sample_row_def new_row_def)
  then have "claim_candidates sample_repository (\<lambda>_. False) (Instant 0) 1 [sample_row] = [o_id sample_row]"
    by (simp add: claim_candidates_def claim_order_def)
  moreover have "r_max_claim_batch_size sample_repository = 1000" "r_max_lease_seconds sample_repository = 86400"
    by (simp_all add: sample_repository_def)
  ultimately show ?thesis
    by (simp add: claim_batch_def claimant_texts MAX_CLAIMANT_ID_LENGTH_def Let_def sample_lease_def
        instant_simps seconds_def claim_order_def)
qed

lemma sample_claim_refused:
  "claim_batch sample_repository (\<lambda>_. False) (Instant 1) ''w2'' 10 60 [sample_lease] = Inr ([], [sample_lease])"
proof -
  have "\<not> row_claimable (Instant 1) sample_lease"
    by (simp add: row_claimable_def sample_lease_def lease_expired_def instant_simps)
  then have "claim_candidates sample_repository (\<lambda>_. False) (Instant 1) 10 [sample_lease] = []"
    by (simp add: claim_candidates_def claim_order_def)
  moreover have "r_max_claim_batch_size sample_repository = 1000" "r_max_lease_seconds sample_repository = 86400"
    by (simp_all add: sample_repository_def)
  ultimately show ?thesis by (simp add: claim_batch_def claimant_texts MAX_CLAIMANT_ID_LENGTH_def Let_def)
qed

lemma sample_reach:
  "reach outbox_initial (outbox_step sample_writer sample_repository) (Instant 0, [sample_row])"
  "reach outbox_initial (outbox_step sample_writer sample_repository) (Instant 0, [sample_lease])"
proof -
  have start: "reach outbox_initial (outbox_step sample_writer sample_repository) (Instant 0, [])"
    by (rule reach_initial) (simp add: outbox_initial_def)
  obtain s where run: "enqueue_many_upserts sample_writer sample_repository sample_environment None [sample_document] []
      = Inr (s, [sample_row])" using sample_enqueue by blast
  show row: "reach outbox_initial (outbox_step sample_writer sample_repository) (Instant 0, [sample_row])"
    using start by (rule reach_step) (rule step_enqueue[OF run], simp_all add: sample_alone, simp add: sample_environment_def)
  show "reach outbox_initial (outbox_step sample_writer sample_repository) (Instant 0, [sample_lease])"
    using row by (rule reach_step) (rule step_claim[OF sample_claim])
qed

theorem claim_batch_exact_witness:
  "int (length [sample_lease]) \<le> 1 \<and> sorted (map claim_key [sample_lease])"
  using claim_batch_exact[OF sample_claim] by simp

theorem lease_exclusive_witness:
  "claim_batch sample_repository (\<lambda>_. False) (Instant 1) ''w2'' 10 60 [sample_lease] = Inr ([], [sample_lease])
    \<and> o_id ` set [sample_lease] \<inter> o_id ` set ([] :: OutboxRow list) = {}"
proof
  have steps: "(outbox_step sample_writer sample_repository)\<^sup>*\<^sup>* (Instant 0, [sample_lease]) (Instant 1, [sample_lease])"
    by (rule r_into_rtranclp) (rule step_clock, simp add: instant_simps)
  have "Instant 1 < plus_seconds (Instant 0) 300" by (simp add: instant_simps seconds_def)
  then show "o_id ` set [sample_lease] \<inter> o_id ` set ([] :: OutboxRow list) = {}"
    using lease_exclusive[OF sample_reach(1) sample_claim steps _ sample_claim_refused] by blast
qed (rule sample_claim_refused)

theorem outbox_never_stranded_witness:
  "\<exists>batch rows'. claim_batch sample_repository (\<lambda>_. False) (Instant 86400000000) ''w2'' 10 60 [sample_lease] = Inr (batch, rows')
    \<and> o_id ` set batch = o_id ` set [sample_lease]"
  by (rule outbox_never_stranded[OF sample_reach(2)])
    (simp_all add: claimant_texts sample_repository_def instant_simps seconds_def)

end
