(* ===== verification/Projections.thy ===== *)
theory Projections
  imports OutboxClaims
begin

text \<open>
  The versions of the safe projections, \<open>persistence/projection_repository.py\<close>, and the service
  that versions and enqueues them in the source transaction, \<open>application/search_outbox.py\<close>. A
  projection gets a new version exactly when its content changed, and because of that the outbox
  never refuses a projection as a conflict.
\<close>

section \<open>Projection versions\<close>

record ProjectionRow =
  pr_entity_type :: string
  pr_entity_id :: string
  pr_schema_version :: string
  pr_projection_version :: int
  pr_projection_sha256 :: string
  pr_created_at :: datetime
  pr_updated_at :: datetime
  pr_version :: int

definition projection_key :: "SearchDocument \<Rightarrow> string \<times> string \<times> string" where
  "projection_key d = (entity_type d, entity_id d, schema_version d)"

definition row_key :: "ProjectionRow \<Rightarrow> string \<times> string \<times> string" where
  "row_key p = (pr_entity_type p, pr_entity_id p, pr_schema_version p)"

text \<open>The loop that prepares a batch: the keys with their fingerprints, in order.\<close>

type_synonym fingerprints = "((string \<times> string \<times> string) \<times> string) list"

fun prepare_projections :: "Writer \<Rightarrow> SearchDocument list \<Rightarrow> fingerprints \<Rightarrow> string + fingerprints" where
  "prepare_projections w [] prepared = Inr prepared"
| "prepare_projections w (d # ds) prepared =
     (let fingerprint = calculate_projection_sha256 w d in
      case map_of prepared (projection_key d) of
        Some other \<Rightarrow> if other \<noteq> fingerprint then Inl ''opensearch_projection_batch_conflict''
          else prepare_projections w ds prepared
      | None \<Rightarrow> prepare_projections w ds (prepared @ [(projection_key d, fingerprint)]))"

definition initial_projection :: "datetime \<Rightarrow> (string \<times> string \<times> string) \<times> string \<Rightarrow> ProjectionRow" where
  "initial_projection now v = (case v of ((kind, entity, schema), fingerprint) \<Rightarrow>
     \<lparr>pr_entity_type = kind, pr_entity_id = entity, pr_schema_version = schema, pr_projection_version = 1,
      pr_projection_sha256 = fingerprint, pr_created_at = now, pr_updated_at = now, pr_version = 1\<rparr>)"

definition bump_projection :: "datetime \<Rightarrow> string \<Rightarrow> ProjectionRow \<Rightarrow> ProjectionRow" where
  "bump_projection now fingerprint p =
     (if pr_projection_sha256 p = fingerprint then p
      else p\<lparr>pr_projection_version := pr_projection_version p + 1, pr_projection_sha256 := fingerprint,
             pr_updated_at := now, pr_version := pr_version p + 1\<rparr>)"

text \<open>\<open>INSERT ... ON CONFLICT DO UPDATE\<close> of one row of values, and of all of them with the
  versions it returns. The driver may refuse the statement.\<close>

definition upsert_row :: "datetime \<Rightarrow> (string \<times> string \<times> string) \<times> string \<Rightarrow> ProjectionRow list \<Rightarrow> ProjectionRow list" where
  "upsert_row now v rows =
     (if fst v \<in> row_key ` set rows
      then map (\<lambda>p. if row_key p = fst v then bump_projection now (snd v) p else p) rows
      else rows @ [initial_projection now v])"

definition projection_version_of :: "ProjectionRow list \<Rightarrow> string \<times> string \<times> string \<Rightarrow> int option" where
  "projection_version_of rows key = map_option pr_projection_version (find (\<lambda>p. row_key p = key) rows)"

definition upsert_projections :: "Dialect \<Rightarrow> bool \<Rightarrow> datetime \<Rightarrow> fingerprints \<Rightarrow> ProjectionRow list
    \<Rightarrow> string + ((string \<times> string \<times> string) \<times> int) list \<times> ProjectionRow list" where
  "upsert_projections dialect refused now values rows =
     (case dialect of OtherDialect name \<Rightarrow> Inl ''opensearch_projection_state_dialect_unsupported''
      | _ \<Rightarrow> if refused then Inl ''opensearch_projection_state_retry''
        else let rows' = fold (upsert_row now) values rows
             in Inr (somes (\<lambda>v. map_option (Pair (fst v)) (projection_version_of rows' (fst v))) values, rows'))"

definition resolve_documents :: "Writer \<Rightarrow> Dialect \<Rightarrow> bool \<Rightarrow> datetime \<Rightarrow> SearchDocument list \<Rightarrow> ProjectionRow list
    \<Rightarrow> string + SearchDocument list \<times> ProjectionRow list" where
  "resolve_documents w dialect refused now documents rows =
     (if documents = [] then Inr ([], rows)
      else bind_err (prepare_projections w documents []) (\<lambda>prepared.
        bind_err (upsert_projections dialect refused now prepared rows) (\<lambda>(versions, rows').
          if set (map fst versions) \<noteq> set (map fst prepared) then Inl ''opensearch_projection_state_write_failed''
          else Inr (map (\<lambda>d. with_version (the (map_of versions (projection_key d))) d) documents, rows'))))"

section \<open>The service\<close>

text \<open>\<open>_merge_summaries\<close>.\<close>

definition merge_summaries :: "OutboxEnqueueSummary \<Rightarrow> OutboxEnqueueSummary \<Rightarrow> OutboxEnqueueSummary" where
  "merge_summaries left right = \<lparr>
     s_requested_count = s_requested_count left + s_requested_count right,
     s_inserted_count = s_inserted_count left + s_inserted_count right,
     s_reused_count = s_reused_count left + s_reused_count right,
     s_chunk_count = s_chunk_count left + s_chunk_count right,
     s_max_chunk_size = max (s_max_chunk_size left) (s_max_chunk_size right)\<rparr>"

text \<open>The tables the service reads and writes; the association tables are pairs of ids.\<close>

record SearchTables =
  t_outbox :: "OutboxRow list"
  t_projections :: "ProjectionRow list"
  t_job_events :: "(string \<times> string) list"
  t_job_signals :: "(string \<times> string) list"
  t_job_incidents :: "(string \<times> string) list"
  t_incident_events :: "(string \<times> string \<times> bool) list"
  t_incident_signals :: "(string \<times> string) list"
  t_reports :: "string list"
  t_validated_evidence :: "string list"

record SearchService =
  v_writer :: Writer
  v_repository :: OutboxRepository
  v_enabled :: bool
  v_schema_version :: string
  v_chunk_size :: nat
  v_environment :: "nat \<Rightarrow> Environment"
  v_refused :: bool

definition ids_of :: "string \<Rightarrow> (string \<times> string) list \<Rightarrow> string list" where
  "ids_of key links = sort_uniq (map snd (filter (\<lambda>l. fst l = key) links))"

definition event_documents :: "SearchService \<Rightarrow> SearchTables \<Rightarrow> CanonicalEventRow list \<Rightarrow> string + SearchDocument list" where
  "event_documents v t rows = map_err (\<lambda>row.
     let key = (case er_event_id row of None \<Rightarrow> ''None'' | Some i \<Rightarrow> i);
         incidents = (\<lambda>context. ids_of key (map (\<lambda>(e, i, _). (e, i)) (filter (\<lambda>(_, _, c). c = context) (t_incident_events t))))
     in bind_err (canonical_event_document row (v_schema_version v) None 1
          (ids_of key (t_job_events t)) (incidents False) (incidents True)) (\<lambda>d. Inr (EventDocument d))) rows"

definition signal_documents :: "SearchService \<Rightarrow> SearchTables \<Rightarrow> DetectionSignalRow list \<Rightarrow> string + SearchDocument list" where
  "signal_documents v t rows = map_err (\<lambda>row.
     let key = (case gr_signal_id row of None \<Rightarrow> ''None'' | Some i \<Rightarrow> i)
     in bind_err (detection_signal_document row (v_schema_version v) None 1
          (ids_of key (t_job_signals t)) (ids_of key (t_incident_signals t))) (\<lambda>d. Inr (SignalDocument d))) rows"

definition incident_documents :: "SearchService \<Rightarrow> SearchTables \<Rightarrow> IncidentRow list \<Rightarrow> string + SearchDocument list" where
  "incident_documents v t rows = map_err (\<lambda>row.
     let key = (case ir_incident_id row of None \<Rightarrow> ''None'' | Some i \<Rightarrow> i)
     in bind_err (incident_document row (v_schema_version v) None (ids_of key (t_job_incidents t))
          (key \<in> set (t_reports t)) (key \<in> set (t_validated_evidence t))) (\<lambda>d. Inr (IncidentDocument d))) rows"

definition enqueue_documents :: "SearchService \<Rightarrow> SearchDocument list \<Rightarrow> SearchTables
    \<Rightarrow> string + OutboxEnqueueSummary \<times> SearchTables" where
  "enqueue_documents v documents t =
     bind_err (enqueue_many_upserts (v_writer v) (v_repository v) (v_environment v) (Some (v_chunk_size v))
       documents (t_outbox t)) (\<lambda>(s, rows). Inr (s, t\<lparr>t_outbox := rows\<rparr>))"

definition enqueue_projection_documents :: "SearchService \<Rightarrow> SearchDocument list \<Rightarrow> SearchTables
    \<Rightarrow> string + OutboxEnqueueSummary \<times> SearchTables" where
  "enqueue_projection_documents v documents t =
     bind_err (resolve_documents (v_writer v) (r_dialect (v_repository v)) (v_refused v)
       (env_now (v_environment v 0)) documents (t_projections t)) (\<lambda>(versioned, projections).
         enqueue_documents v versioned (t\<lparr>t_projections := projections\<rparr>))"

text \<open>The loop the three kinds share: build the documents of a chunk of rows, enqueue them, add up
  the summaries.\<close>

fun enqueue_rows :: "('r list \<Rightarrow> string + SearchDocument list)
    \<Rightarrow> (SearchDocument list \<Rightarrow> SearchTables \<Rightarrow> string + OutboxEnqueueSummary \<times> SearchTables)
    \<Rightarrow> 'r list list \<Rightarrow> OutboxEnqueueSummary \<Rightarrow> SearchTables \<Rightarrow> string + OutboxEnqueueSummary \<times> SearchTables" where
  "enqueue_rows build enqueue [] s t = Inr (s, t)"
| "enqueue_rows build enqueue (c # cs) s t = bind_err (build c) (\<lambda>documents.
     bind_err (enqueue documents t) (\<lambda>(s', t'). enqueue_rows build enqueue cs (merge_summaries s s') t'))"

definition enqueue_events :: "SearchService \<Rightarrow> CanonicalEventRow list \<Rightarrow> SearchTables
    \<Rightarrow> string + OutboxEnqueueSummary \<times> SearchTables" where
  "enqueue_events v rows t = enqueue_rows (event_documents v t) (enqueue_projection_documents v)
     (chunks_of (v_chunk_size v) rows) empty_summary t"

definition enqueue_signals :: "SearchService \<Rightarrow> DetectionSignalRow list \<Rightarrow> SearchTables
    \<Rightarrow> string + OutboxEnqueueSummary \<times> SearchTables" where
  "enqueue_signals v rows t = enqueue_rows (signal_documents v t) (enqueue_projection_documents v)
     (chunks_of (v_chunk_size v) rows) empty_summary t"

definition enqueue_incident_rows :: "SearchService \<Rightarrow> IncidentRow list \<Rightarrow> SearchTables
    \<Rightarrow> string + OutboxEnqueueSummary \<times> SearchTables" where
  "enqueue_incident_rows v rows t = enqueue_rows (incident_documents v t) (enqueue_documents v)
     (chunks_of (v_chunk_size v) rows) empty_summary t"

definition enqueue_analysis :: "SearchService \<Rightarrow> CanonicalEventRow list \<Rightarrow> DetectionSignalRow list
    \<Rightarrow> IncidentRow list \<Rightarrow> SearchTables \<Rightarrow> string + OutboxEnqueueSummary \<times> SearchTables" where
  "enqueue_analysis v events signals incidents t =
     (if \<not> v_enabled v then Inr (empty_summary, t)
      else bind_err (enqueue_events v events t) (\<lambda>(s1, t1).
        bind_err (enqueue_signals v signals t1) (\<lambda>(s2, t2).
        bind_err (enqueue_incident_rows v incidents t2) (\<lambda>(s3, t3).
          Inr (merge_summaries (merge_summaries s1 s2) s3, t3)))))"

definition enqueue_incidents :: "SearchService \<Rightarrow> IncidentRow list \<Rightarrow> SearchTables
    \<Rightarrow> string + OutboxEnqueueSummary \<times> SearchTables" where
  "enqueue_incidents v rows t =
     (if \<not> v_enabled v then Inr (empty_summary, t) else enqueue_incident_rows v rows t)"

section \<open>Facts about versions\<close>

abbreviation lookup :: "ProjectionRow list \<Rightarrow> string \<times> string \<times> string \<Rightarrow> ProjectionRow option" where
  "lookup rows key \<equiv> find (\<lambda>p. row_key p = key) rows"

lemma lookup_Some: "lookup rows k = Some p \<Longrightarrow> p \<in> set rows \<and> row_key p = k"
  by (rule find_Some_in)

lemma lookup_None: "lookup rows k = None \<longleftrightarrow> k \<notin> row_key ` set rows"
  by (auto simp: find_None_iff)

text \<open>What one row of values makes of the row of its key.\<close>

definition upserted :: "datetime \<Rightarrow> (string \<times> string \<times> string) \<times> string \<Rightarrow> ProjectionRow option \<Rightarrow> ProjectionRow" where
  "upserted now v old = (case old of None \<Rightarrow> initial_projection now v | Some p \<Rightarrow> bump_projection now (snd v) p)"

lemma row_key_simps [simp]: "row_key (initial_projection now v) = fst v" "row_key (bump_projection now f p) = row_key p"
  by (auto simp: row_key_def initial_projection_def bump_projection_def split: prod.splits)

lemma lookup_map:
  "lookup (map (\<lambda>p. if row_key p = k then bump_projection now f p else p) rows) k'
    = map_option (\<lambda>p. if row_key p = k then bump_projection now f p else p) (lookup rows k')"
  by (induction rows) auto

lemma lookup_upsert:
  "lookup (upsert_row now v rows) k = (if k = fst v then Some (upserted now v (lookup rows k)) else lookup rows k)"
proof (cases "lookup rows (fst v)")
  case None
  then have "fst v \<notin> row_key ` set rows" by (simp add: lookup_None)
  then have "upsert_row now v rows = rows @ [initial_projection now v]" by (simp add: upsert_row_def)
  then show ?thesis using None by (simp add: find_append upserted_def split: option.splits)
next
  case (Some p)
  then have "fst v \<in> row_key ` set rows" using lookup_None[where rows = rows and k = "fst v"] by auto
  moreover have "row_key p' = k" if "lookup rows k = Some p'" for p' using lookup_Some[OF that] by simp
  ultimately show ?thesis
    using Some lookup_Some[OF Some] by (cases "lookup rows k") (auto simp: upsert_row_def lookup_map upserted_def)
qed

lemma lookup_upserts:
  "distinct (map fst vals) \<Longrightarrow> lookup (fold (upsert_row now) vals rows) k =
    (case map_of vals k of None \<Rightarrow> lookup rows k | Some f \<Rightarrow> Some (upserted now (k, f) (lookup rows k)))"
proof (induction vals arbitrary: rows)
  case (Cons v vs)
  have "map_of vs (fst v) = None" using Cons.prems by (auto simp: map_of_eq_None_iff)
  then show ?case using Cons by (cases v) (auto simp: lookup_upsert split: option.splits)
qed simp

lemma prepare_projections_Inr:
  assumes "prepare_projections w ds acc = Inr prepared" and "distinct (map fst acc)"
  shows "distinct (map fst prepared) \<and> (\<forall>k f. map_of acc k = Some f \<longrightarrow> map_of prepared k = Some f)
    \<and> (\<forall>d \<in> set ds. map_of prepared (projection_key d) = Some (calculate_projection_sha256 w d))
    \<and> fst ` set prepared = fst ` set acc \<union> projection_key ` set ds"
  using assms
proof (induction ds arbitrary: acc)
  case (Cons d ds)
  show ?case
  proof (cases "map_of acc (projection_key d)")
    case None
    let ?acc = "acc @ [(projection_key d, calculate_projection_sha256 w d)]"
    have step: "prepare_projections w ds ?acc = Inr prepared" using Cons.prems(1) None by (simp add: Let_def)
    have "distinct (map fst ?acc)" using Cons.prems(2) None by (auto simp: map_of_eq_None_iff)
    note IH = Cons.IH[OF step this]
    have "map_of ?acc (projection_key d) = Some (calculate_projection_sha256 w d)"
      using None by (simp add: map_add_def)
    moreover have "\<forall>k f. map_of acc k = Some f \<longrightarrow> map_of ?acc k = Some f"
      using None by (auto simp: map_add_def)
    ultimately have "map_of prepared (projection_key d) = Some (calculate_projection_sha256 w d)"
      and "\<forall>k f. map_of acc k = Some f \<longrightarrow> map_of prepared k = Some f"
      using IH by blast+
    with IH show ?thesis by (simp del: map_of_append map_of_eq_Some_iff)
  next
    case (Some f)
    then have step: "prepare_projections w ds acc = Inr prepared" and f: "f = calculate_projection_sha256 w d"
      using Cons.prems(1) by (auto simp: Let_def split: if_splits)
    have "projection_key d \<in> fst ` set acc" using Some by (force dest: map_of_SomeD)
    then have "insert (projection_key d) (fst ` set acc \<union> projection_key ` set ds) = fst ` set acc \<union> projection_key ` set ds"
      by blast
    moreover have "map_of prepared (projection_key d) = Some (calculate_projection_sha256 w d)"
      using Cons.IH[OF step Cons.prems(2)] f Some by blast
    ultimately show ?thesis using Cons.IH[OF step Cons.prems(2)] by (simp del: map_of_eq_Some_iff)
  qed
qed simp

definition resolved_version :: "Writer \<Rightarrow> ProjectionRow list \<Rightarrow> SearchDocument \<Rightarrow> int" where
  "resolved_version w rows d = (case lookup rows (projection_key d) of None \<Rightarrow> 1
     | Some p \<Rightarrow> if pr_projection_sha256 p = calculate_projection_sha256 w d then pr_projection_version p
                 else pr_projection_version p + 1)"

lemma upserted_version:
  "pr_projection_version (upserted now (projection_key d, calculate_projection_sha256 w d) (lookup rows (projection_key d)))
     = resolved_version w rows d"
  "pr_projection_sha256 (upserted now (k, f) old) = f"
  by (auto simp: upserted_def resolved_version_def bump_projection_def initial_projection_def split: option.splits prod.splits)

lemma resolve_facts:
  assumes "resolve_documents w dialect refused now ds rows = Inr (versioned, rows')"
  shows "versioned = map (\<lambda>d. with_version (resolved_version w rows d) d) ds
    \<and> (\<forall>d \<in> set ds. lookup rows' (projection_key d)
      = Some (upserted now (projection_key d, calculate_projection_sha256 w d) (lookup rows (projection_key d))))
    \<and> (\<forall>k. k \<notin> projection_key ` set ds \<longrightarrow> lookup rows' k = lookup rows k)
    \<and> (ds \<noteq> [] \<longrightarrow> dialect = PostgreSQL \<or> dialect = SQLite)"
proof (cases "ds = []")
  case True
  then show ?thesis using assms by (simp add: resolve_documents_def)
next
  case False
  with assms obtain prepared versions where prep: "prepare_projections w ds [] = Inr prepared"
    and ups: "upsert_projections dialect refused now prepared rows = Inr (versions, rows')"
    and out: "versioned = map (\<lambda>d. with_version (the (map_of versions (projection_key d))) d) ds"
    by (auto simp: resolve_documents_def bind_err_Inr split: if_splits)
  from prepare_projections_Inr[OF prep] have P: "distinct (map fst prepared)"
    "\<And>d. d \<in> set ds \<Longrightarrow> map_of prepared (projection_key d) = Some (calculate_projection_sha256 w d)"
    "fst ` set prepared = projection_key ` set ds" by auto
  from ups have rows': "rows' = fold (upsert_row now) prepared rows"
    and versions: "versions = somes (\<lambda>v. map_option (Pair (fst v)) (projection_version_of rows' (fst v))) prepared"
    and dialect: "dialect = PostgreSQL \<or> dialect = SQLite"
    by (cases dialect; auto simp: upsert_projections_def Let_def split: if_splits)+
  have look: "lookup rows' k = (case map_of prepared k of None \<Rightarrow> lookup rows k
      | Some f \<Rightarrow> Some (upserted now (k, f) (lookup rows k)))" for k
    unfolding rows' by (rule lookup_upserts[OF P(1)])
  have kept: "map_of (somes (\<lambda>v. map_option (Pair (fst v)) (projection_version_of rows' (fst v))) vs) k
      = (if k \<in> fst ` set vs then projection_version_of rows' k else None)" for k and vs :: fingerprints
    by (induction vs) (auto simp: somes_def split: option.splits)
  have "the (map_of versions (projection_key d)) = resolved_version w rows d" if "d \<in> set ds" for d
    unfolding versions kept using that P(2)[OF that] P(3)
    by (simp add: projection_version_of_def look upserted_version)
  then have "versioned = map (\<lambda>d. with_version (resolved_version w rows d) d) ds" unfolding out by simp
  moreover have "lookup rows' k = lookup rows k" if "k \<notin> projection_key ` set ds" for k
  proof -
    have "map_of prepared k = None" using that P(3) by (simp add: map_of_eq_None_iff)
    then show ?thesis using look by simp
  qed
  ultimately show ?thesis using look P(2) dialect by simp
qed

text \<open>A batch of projections gets its versions from content alone: a projection never seen is
  version 1, one whose safe content is what it was keeps its version, any other gets the next one;
  the row of its key then holds that version and its fingerprint, and no other key is touched.\<close>

theorem projection_version_exact:
  assumes "resolve_documents w dialect refused now ds rows = Inr (versioned, rows')"
  shows "versioned = map (\<lambda>d. with_version (resolved_version w rows d) d) ds
    \<and> list_all (\<lambda>d. map_option (\<lambda>p. (pr_projection_version p, pr_projection_sha256 p)) (lookup rows' (projection_key d))
        = Some (resolved_version w rows d, calculate_projection_sha256 w d)) ds
    \<and> (\<forall>key. key \<notin> projection_key ` set ds \<longrightarrow> lookup rows' key = lookup rows key)"
  using resolve_facts[OF assms] by (simp add: list_all_iff upserted_version)

section \<open>Keys read back\<close>

definition no_colon :: "string \<Rightarrow> bool" where
  "no_colon s = (CHR '':'' \<notin> set s)"

lemma split_first_colon:
  "no_colon a \<Longrightarrow> no_colon b \<Longrightarrow> a @ CHR '':'' # x = b @ CHR '':'' # y \<Longrightarrow> a = b \<and> x = y"
  by (induction a arbitrary: b) (auto simp: no_colon_def Cons_eq_append_conv append_eq_Cons_conv)

lemma split_last_colon:
  assumes "no_colon a" and "no_colon b" and "x @ CHR '':'' # a = y @ CHR '':'' # b"
  shows "a = b \<and> x = y"
proof -
  have "rev (x @ CHR '':'' # a) = rev (y @ CHR '':'' # b)" using assms(3) by simp
  then have "rev a @ CHR '':'' # rev x = rev b @ CHR '':'' # rev y" by simp
  moreover have "no_colon (rev a)" "no_colon (rev b)" using assms(1,2) by (simp_all add: no_colon_def)
  ultimately have "rev a = rev b \<and> rev x = rev y" by (intro split_first_colon)
  then show ?thesis by simp
qed

lemma no_colon_int: "no_colon (str_of_int i)"
proof -
  have "CHR '':'' \<notin> set (str_of_nat n)" for n
  proof
    assume "CHR '':'' \<in> set (str_of_nat n)"
    then have "(of_char (CHR '':'') :: nat) \<le> 57" using digits_of_nat[of n] by blast
    then show False by simp
  qed
  then show ?thesis by (simp add: no_colon_def str_of_int_def)
qed

lemma no_colon_type: "no_colon (entity_type d)"
  by (cases d) (simp_all add: no_colon_def)

lemma logical_key_text:
  "logical_key d = entity_type d @ CHR '':'' # (entity_id d @ '':upsert'') @ CHR '':'' #
     schema_version d @ CHR '':'' # str_of_int (document_version d)"
  by (simp add: logical_key_def)

text \<open>Whatever an entity id is, the text of a key determines the four parts it was made of.\<close>

lemma logical_key_inj:
  assumes "logical_key d = logical_key e" and "no_colon (schema_version d)" and "no_colon (schema_version e)"
  shows "entity_type d = entity_type e \<and> entity_id d = entity_id e \<and> schema_version d = schema_version e
    \<and> document_version d = document_version e"
proof -
  from split_first_colon[OF no_colon_type no_colon_type assms(1)[unfolded logical_key_text]]
  have kind: "entity_type d = entity_type e"
    and "((entity_id d @ '':upsert'') @ CHR '':'' # schema_version d) @ CHR '':'' # str_of_int (document_version d)
       = ((entity_id e @ '':upsert'') @ CHR '':'' # schema_version e) @ CHR '':'' # str_of_int (document_version e)"
    by simp_all
  then have version: "str_of_int (document_version d) = str_of_int (document_version e)"
    and "(entity_id d @ '':upsert'') @ CHR '':'' # schema_version d = (entity_id e @ '':upsert'') @ CHR '':'' # schema_version e"
    using split_last_colon[OF no_colon_int no_colon_int] by blast+
  then have "schema_version d = schema_version e" "entity_id d @ '':upsert'' = entity_id e @ '':upsert''"
    using split_last_colon[OF assms(2,3)] by blast+
  then show ?thesis using kind str_of_int_inj[OF version] by simp
qed

section \<open>Projections and outbox together\<close>

text \<open>What the builders give the service for events and signals.\<close>

definition projectable :: "SearchDocument \<Rightarrow> bool" where
  "projectable d = (entity_type d \<noteq> ''incident'' \<and> no_colon (schema_version d) \<and> indexed_at d = source_updated_at d)"

text \<open>The digests of the documents in \<open>D\<close> separate them.\<close>

definition collision_free :: "Writer \<Rightarrow> SearchDocument set \<Rightarrow> bool" where
  "collision_free w D = (\<forall>d \<in> D. \<forall>e \<in> D.
     (deduplication_key d = deduplication_key e \<longrightarrow> logical_key d = logical_key e) \<and>
     (calculate_projection_sha256 w d = calculate_projection_sha256 w e
        \<longrightarrow> projection_fingerprint_source w d = projection_fingerprint_source w e))"

text \<open>Every row of the outbox was made for a document of \<open>D\<close>; one of an event or signal has a
  version the projection table has reached, and the current version has the current fingerprint.\<close>

definition current :: "Writer \<Rightarrow> ProjectionRow list \<Rightarrow> SearchDocument \<Rightarrow> bool" where
  "current w projections d = (\<exists>p. lookup projections (projection_key d) = Some p
     \<and> document_version d \<le> pr_projection_version p
     \<and> (document_version d = pr_projection_version p \<longrightarrow> calculate_projection_sha256 w d = pr_projection_sha256 p))"

definition in_step :: "Writer \<Rightarrow> SearchDocument set \<Rightarrow> ProjectionRow list \<Rightarrow> OutboxRow list \<Rightarrow> bool" where
  "in_step w D projections rows = (distinct (map o_key rows) \<and> (\<forall>row \<in> set rows. \<exists>d \<in> D. describes w d row
     \<and> no_colon (schema_version d) \<and> (entity_type d \<noteq> ''incident'' \<longrightarrow> projectable d \<and> current w projections d)))"

lemma projection_key_with_version [simp]: "projection_key (with_version v d) = projection_key d"
  by (simp add: projection_key_def)

lemma projectable_with_version [simp]: "projectable (with_version v d) = projectable d"
  by (simp add: projectable_def)

lemma payload_sha_of_source:
  assumes "projection_fingerprint_source w d = projection_fingerprint_source w e"
    and "document_version d = document_version e" and "projectable d" and "projectable e"
  shows "payload_sha w d = payload_sha w e"
proof -
  have "json_time w (source_updated_at d) = json_time w (source_updated_at e)"
    using assms(1) unfolding source_shape by simp
  then have "json_time w (indexed_at d) = json_time w (indexed_at e)" using assms(3,4) by (simp add: projectable_def)
  from payload_of_source[OF assms(1,2) this] show ?thesis by simp
qed

lemma resolved_document:
  assumes "resolve_documents w dialect refused now ds projections = Inr (versioned, projections')"
    and "v \<in> set versioned"
  obtains d q where "d \<in> set ds" and "v = with_version (resolved_version w projections d) d"
    and "lookup projections' (projection_key d) = Some q"
    and "pr_projection_version q = document_version v" and "pr_projection_sha256 q = calculate_projection_sha256 w v"
proof -
  note F = resolve_facts[OF assms(1)]
  then obtain d where d: "d \<in> set ds" "v = with_version (resolved_version w projections d) d" using assms(2) by auto
  then show ?thesis using that[OF d] F by (simp add: upserted_version)
qed

lemma versioned_consistent:
  assumes "resolve_documents w dialect refused now ds projections = Inr (versioned, projections')"
    and "\<forall>d \<in> set ds. projectable d" and "collision_free w (set versioned)"
  shows "consistent w (set versioned)"
  unfolding consistent_def
proof (intro ballI impI)
  fix v u assume vu: "v \<in> set versioned" "u \<in> set versioned" and key: "deduplication_key v = deduplication_key u"
  from resolved_document[OF assms(1) vu(1)] obtain d q where d: "d \<in> set ds"
    "v = with_version (resolved_version w projections d) d" "lookup projections' (projection_key d) = Some q"
    "pr_projection_sha256 q = calculate_projection_sha256 w v" by metis
  from resolved_document[OF assms(1) vu(2)] obtain e p where e: "e \<in> set ds"
    "u = with_version (resolved_version w projections e) e" "lookup projections' (projection_key e) = Some p"
    "pr_projection_sha256 p = calculate_projection_sha256 w u" by metis
  have proj: "projectable v" "projectable u" using d e assms(2) by simp_all
  then have "no_colon (schema_version v)" "no_colon (schema_version u)" by (simp_all add: projectable_def)
  moreover have "logical_key v = logical_key u" using assms(3) vu key unfolding collision_free_def by blast
  ultimately have same: "entity_type v = entity_type u \<and> entity_id v = entity_id u \<and> schema_version v = schema_version u
    \<and> document_version v = document_version u" by (intro logical_key_inj)
  then have "projection_key d = projection_key e" using d(2) e(2) by (simp add: projection_key_def)
  then have "calculate_projection_sha256 w v = calculate_projection_sha256 w u" using d(3,4) e(3,4) by simp
  then have "projection_fingerprint_source w v = projection_fingerprint_source w u"
    using assms(3) vu unfolding collision_free_def by blast
  then show "payload_sha w v = payload_sha w u" using same proj by (intro payload_sha_of_source) auto
qed

text \<open>A document for which an earlier row was made agrees with a versioned one of the same key.\<close>

lemma versioned_agrees:
  assumes "resolve_documents w dialect refused now ds projections = Inr (versioned, projections')"
    and "\<forall>d \<in> set ds. projectable d" and "collision_free w D" and "e \<in> D" and "v \<in> D" and v: "v \<in> set versioned"
    and "no_colon (schema_version e)" and cur: "entity_type e \<noteq> ''incident'' \<longrightarrow> projectable e \<and> current w projections e"
    and key: "deduplication_key e = deduplication_key v"
  shows "payload_sha w e = payload_sha w v"
proof -
  from resolved_document[OF assms(1) v] obtain d where d: "d \<in> set ds"
    "v = with_version (resolved_version w projections d) d" by metis
  then have pv: "projectable v" using assms(2) by simp
  have "logical_key e = logical_key v" using assms(3-5) key unfolding collision_free_def by blast
  then have same: "entity_type e = entity_type v \<and> entity_id e = entity_id v \<and> schema_version e = schema_version v
    \<and> document_version e = document_version v"
    using assms(7) pv by (intro logical_key_inj) (auto simp: projectable_def)
  then have pe: "projectable e" and "current w projections e" using cur pv by (auto simp: projectable_def)
  then obtain p where p: "lookup projections (projection_key e) = Some p"
    "document_version e \<le> pr_projection_version p"
    "document_version e = pr_projection_version p \<longrightarrow> calculate_projection_sha256 w e = pr_projection_sha256 p"
    unfolding current_def by blast
  have "projection_key d = projection_key e" using same d(2) by (simp add: projection_key_def)
  moreover have "document_version v = resolved_version w projections d" using d(2) by simp
  ultimately have "document_version e = (if pr_projection_sha256 p = calculate_projection_sha256 w d
      then pr_projection_version p else pr_projection_version p + 1)"
    using same p(1) by (simp add: resolved_version_def)
  then have "calculate_projection_sha256 w d = calculate_projection_sha256 w e" using p(2,3) by (auto split: if_splits)
  then have "calculate_projection_sha256 w v = calculate_projection_sha256 w e" using d(2) by simp
  then have "projection_fingerprint_source w v = projection_fingerprint_source w e"
    using assms(3-5) unfolding collision_free_def by blast
  then show ?thesis using same pe pv by (intro payload_sha_of_source) auto
qed

lemma current_later:
  assumes "resolve_documents w dialect refused now ds projections = Inr (versioned, projections')"
    and "current w projections e"
  shows "current w projections' e"
proof (cases "projection_key e \<in> projection_key ` set ds")
  case True
  then obtain d where d: "d \<in> set ds" "projection_key d = projection_key e" by auto
  from assms(2) obtain p where p: "lookup projections (projection_key e) = Some p"
    "document_version e \<le> pr_projection_version p"
    "document_version e = pr_projection_version p \<longrightarrow> calculate_projection_sha256 w e = pr_projection_sha256 p"
    unfolding current_def by blast
  have "lookup projections' (projection_key d)
      = Some (upserted now (projection_key d, calculate_projection_sha256 w d) (lookup projections (projection_key d)))"
    using resolve_facts[OF assms(1)] d(1) by blast
  then have "lookup projections' (projection_key e) = Some (upserted now (projection_key e, calculate_projection_sha256 w d) (Some p))"
    unfolding d(2) p(1) .
  then have look: "lookup projections' (projection_key e) = Some (bump_projection now (calculate_projection_sha256 w d) p)"
    by (simp add: upserted_def)
  have "document_version e \<le> pr_projection_version (bump_projection now (calculate_projection_sha256 w d) p)"
    using p(2) by (simp add: bump_projection_def)
  moreover have "calculate_projection_sha256 w e = pr_projection_sha256 (bump_projection now (calculate_projection_sha256 w d) p)"
    if "document_version e = pr_projection_version (bump_projection now (calculate_projection_sha256 w d) p)"
    using p(2,3) that by (simp add: bump_projection_def split: if_splits)
  ultimately show ?thesis using look unfolding current_def by blast
next
  case False
  then have "lookup projections' (projection_key e) = lookup projections (projection_key e)"
    using resolve_facts[OF assms(1)] by blast
  with assms(2) show ?thesis unfolding current_def by simp
qed

text \<open>Other transactions between the pre-check and the insert of a chunk: they add rows for documents of
  \<open>E\<close> and change of the rows that are there anything but what describes their document.\<close>

definition commits_for :: "Writer \<Rightarrow> SearchDocument set \<Rightarrow> Environment \<Rightarrow> bool" where
  "commits_for w E env = (\<forall>rows. distinct (map o_key rows) \<longrightarrow> distinct (map o_key (env_others env rows))
     \<and> o_key ` set rows \<subseteq> o_key ` set (env_others env rows)
     \<and> (\<forall>row \<in> set (env_others env rows). (\<exists>old \<in> set rows. \<forall>d. describes w d old \<longrightarrow> describes w d row)
          \<or> (\<exists>e \<in> E. describes w e row)))"

text \<open>Projections only move forward.\<close>

definition advanced :: "ProjectionRow list \<Rightarrow> ProjectionRow list \<Rightarrow> bool" where
  "advanced before later = (\<forall>k p. lookup before k = Some p \<longrightarrow> (\<exists>q. lookup later k = Some q
     \<and> (q = p \<or> pr_projection_version p < pr_projection_version q)))"

lemma current_advanced: "advanced before later \<Longrightarrow> current w before e \<Longrightarrow> current w later e"
  unfolding advanced_def current_def by fastforce

lemma commits_invariant:
  assumes v: "resolve_documents w dialect refused now ds projections = Inr (versioned, projections')"
    and ds: "\<forall>d \<in> set ds. projectable d" and free: "collision_free w (D \<union> E \<union> set versioned)"
    and D: "\<forall>e \<in> D. no_colon (schema_version e) \<and> (entity_type e \<noteq> ''incident'' \<longrightarrow> projectable e \<and> current w projections e)"
    and E: "\<forall>e \<in> E. no_colon (schema_version e)
       \<and> (entity_type e \<noteq> ''incident'' \<longrightarrow> projection_key e \<notin> projection_key ` set ds)"
    and others: "\<And>k. commits_for w E (env k)"
  shows "enqueue_invariant w (set versioned) env
    (\<lambda>rows. distinct (map o_key rows) \<and> (\<forall>row \<in> set rows. \<exists>e \<in> D \<union> E \<union> set versioned. describes w e row))"
proof -
  have con: "consistent w (set versioned)"
    using versioned_consistent[OF v ds] free unfolding collision_free_def by blast
  have agree: "payload_sha w e = payload_sha w u"
    if e: "e \<in> D \<union> E \<union> set versioned" "u \<in> set versioned" "deduplication_key e = deduplication_key u" for e u
  proof -
    consider "e \<in> D" | "e \<in> E" | "e \<in> set versioned" using e(1) by blast
    then show ?thesis
    proof cases
      case 1
      with D e show ?thesis by (intro versioned_agrees[OF v ds free]) blast+
    next
      case 2
      have "logical_key e = logical_key u" using free e 2 unfolding collision_free_def by blast
      moreover obtain d where d: "d \<in> set ds" "u = with_version (resolved_version w projections d) d"
        using resolved_document[OF v e(2)] by metis
      then have pu: "projectable u" using ds by simp
      ultimately have same: "entity_type e = entity_type u \<and> entity_id e = entity_id u \<and> schema_version e = schema_version u
          \<and> document_version e = document_version u"
        using E 2 by (intro logical_key_inj) (auto simp: projectable_def)
      then have "projection_key e = projection_key d" using d(2) by (simp add: projection_key_def)
      moreover have "entity_type e \<noteq> ''incident''" using same pu by (auto simp: projectable_def)
      ultimately show ?thesis using E 2 d(1) by blast
    next
      case 3
      then show ?thesis using consistentD[OF con _ e(2)] e(3) by blast
    qed
  qed
  let ?P = "\<lambda>rows. \<forall>row \<in> set rows. \<exists>e \<in> D \<union> E \<union> set versioned. describes w e row"
  have fits: "compatible w rows (set versioned)" if described: "\<forall>row \<in> set rows. \<exists>e \<in> D \<union> E \<union> set versioned. describes w e row" for rows
    unfolding compatible_def
  proof (intro ballI impI)
    fix row u assume row: "row \<in> set rows" "u \<in> set versioned" "o_key row = deduplication_key u"
    obtain e where e: "e \<in> D \<union> E \<union> set versioned" "describes w e row" using bspec[OF described row(1)] by blast
    then show "o_payload_sha256 row = payload_sha w u"
      using agree[OF e(1) row(2)] row(3) describes_key[OF e(2)] by (simp add: describes_def)
  qed
  have keeps: "distinct (map o_key (env_others (env k) rows)) \<and> o_key ` set rows \<subseteq> o_key ` set (env_others (env k) rows)
      \<and> (\<forall>row \<in> set (env_others (env k) rows). \<exists>e \<in> D \<union> E \<union> set versioned. describes w e row)"
    if dist: "distinct (map o_key rows)" and rows: "\<forall>row \<in> set rows. \<exists>e \<in> D \<union> E \<union> set versioned. describes w e row" for k rows
  proof -
    from others[of k] dist have "distinct (map o_key (env_others (env k) rows))" "o_key ` set rows \<subseteq> o_key ` set (env_others (env k) rows)"
      and from_old: "\<forall>row \<in> set (env_others (env k) rows). (\<exists>old \<in> set rows. \<forall>d. describes w d old \<longrightarrow> describes w d row)
          \<or> (\<exists>e \<in> E. describes w e row)" unfolding commits_for_def by blast+
    moreover have "\<exists>e \<in> D \<union> E \<union> set versioned. describes w e row" if "row \<in> set (env_others (env k) rows)" for row
      using bspec[OF from_old that] rows by blast
    ultimately show ?thesis by blast
  qed
  show ?thesis
    unfolding enqueue_invariant_def
  proof (intro conjI allI impI)
    fix rows assume q: "distinct (map o_key rows) \<and> ?P rows"
    show "distinct (map o_key rows)" by (rule conjunct1[OF q])
    show "compatible w rows (set versioned)" by (rule fits[OF conjunct2[OF q]])
  next
    fix k rows assume q: "distinct (map o_key rows) \<and> ?P rows"
    note k = keeps[OF conjunct1[OF q] conjunct2[OF q], of k]
    show "distinct (map o_key (env_others (env k) rows))" by (rule conjunct1[OF k])
    show "o_key ` set rows \<subseteq> o_key ` set (env_others (env k) rows)" by (rule conjunct1[OF conjunct2[OF k]])
    show "?P (env_others (env k) rows)" by (rule conjunct2[OF conjunct2[OF k]])
  next
    fix rows news assume q: "distinct (map o_key rows) \<and> ?P rows" and d: "distinct (map o_key (rows @ news))"
      and new: "\<forall>row \<in> set news. \<exists>d \<in> set versioned. describes w d row"
    show "distinct (map o_key (rows @ news))" by (rule d)
    show "?P (rows @ news)" unfolding set_append ball_Un using conjunct2[OF q] new by blast
  qed
qed

text \<open>C33: the versions given to projections make the outbox accept them: whenever a batch of events
  and signals has been versioned, enqueueing it in the same transaction succeeds, never refused as a
  conflict with an earlier row or within the batch, and afterwards table and outbox are in step
  again, so the next batch is accepted too. Other transactions may commit between the pre-check and the
  insert of every chunk, adding rows and leasing, delivering or rescheduling those that are there, as long as
  they remove none and add none for a projection of this batch, whose rows the upsert has locked until
  the commit. No payload is too large and no two digests collide.\<close>

theorem projections_never_conflict:
  assumes "in_step w D projections rows" and "\<forall>d \<in> set ds. projectable d"
    and "resolve_documents w (r_dialect r) refused now ds projections = Inr (versioned, projections')"
    and "collision_free w (D \<union> E \<union> set versioned)" and "\<forall>v \<in> set versioned. small w r v"
    and "\<And>k. commits_for w E (env k)" and "advanced projections' later"
    and "\<forall>e \<in> E. no_colon (schema_version e) \<and> (entity_type e \<noteq> ''incident'' \<longrightarrow>
           projectable e \<and> current w later e \<and> projection_key e \<notin> projection_key ` set ds)"
    and "1 \<le> selected_size r chunk" and "selected_size r chunk \<le> MAX_ENQUEUE_CHUNK_SIZE"
  shows "\<exists>s rows'. enqueue_many_upserts w r env chunk versioned rows = Inr (s, rows')
    \<and> in_step w (D \<union> E \<union> set versioned) later rows'
    \<and> (\<forall>v \<in> set versioned. indexed w rows' v)"
proof -
  let ?D = "{e \<in> D. no_colon (schema_version e) \<and> (entity_type e \<noteq> ''incident'' \<longrightarrow> projectable e \<and> current w projections e)}"
  let ?Q = "\<lambda>rows. distinct (map o_key rows) \<and> (\<forall>row \<in> set rows. \<exists>e \<in> ?D \<union> E \<union> set versioned. describes w e row)"
  have free: "collision_free w (?D \<union> E \<union> set versioned)" using assms(4) unfolding collision_free_def by blast
  have inv: "enqueue_invariant w (set versioned) env ?Q"
    by (rule commits_invariant[OF assms(3,2) free _ _ assms(6)]) (use assms(8) in auto)
  have start: "?Q rows" using assms(1) unfolding in_step_def by blast
  have con: "consistent w (set versioned)"
    using versioned_consistent[OF assms(3,2)] free unfolding collision_free_def by blast
  have "\<exists>s rows'. enqueue_many_upserts w r env chunk versioned rows = Inr (s, rows') \<and> ?Q rows'
      \<and> (\<forall>v \<in> set versioned. indexed w rows' v)"
  proof (cases "ds = []")
    case True
    then have "versioned = []" using resolve_facts[OF assms(3)] by simp
    then show ?thesis using assms(9,10) start by (simp add: enqueue_many_Inr) (subst chunks_of.simps, simp)
  next
    case False
    then show ?thesis using resolve_facts[OF assms(3)]
      by (intro enqueue_many_succeeds[OF inv start subset_refl assms(5) con _ assms(9,10)]) simp
  qed
  then obtain s rows' where run: "enqueue_many_upserts w r env chunk versioned rows = Inr (s, rows')" and Q: "?Q rows'"
    and rows: "\<forall>v \<in> set versioned. indexed w rows' v" by blast
  have good: "no_colon (schema_version e) \<and> (entity_type e \<noteq> ''incident'' \<longrightarrow> projectable e \<and> current w later e)"
    if "e \<in> ?D \<union> E \<union> set versioned" for e
  proof -
    consider "e \<in> ?D" | "e \<in> E" | "e \<in> set versioned" using \<open>e \<in> ?D \<union> E \<union> set versioned\<close> by blast
    then show ?thesis
    proof cases
      case 1
      then show ?thesis using current_advanced[OF assms(7) current_later[OF assms(3)]] by blast
    next
      case 2
      then show ?thesis using assms(8) by blast
    next
      case 3
      from resolved_document[OF assms(3) 3] obtain d q where d: "d \<in> set ds"
        "e = with_version (resolved_version w projections d) d" "lookup projections' (projection_key d) = Some q"
        "pr_projection_version q = document_version e" "pr_projection_sha256 q = calculate_projection_sha256 w e" .
      have "projectable e" using d assms(2) by simp
      moreover have "current w projections' e" unfolding current_def using d by simp
      ultimately show ?thesis using current_advanced[OF assms(7)] by (auto simp: projectable_def)
    qed
  qed
  have "\<exists>e \<in> D \<union> E \<union> set versioned. describes w e row \<and> no_colon (schema_version e)
      \<and> (entity_type e \<noteq> ''incident'' \<longrightarrow> projectable e \<and> current w later e)" if "row \<in> set rows'" for row
  proof -
    from Q that obtain e where "e \<in> ?D \<union> E \<union> set versioned" "describes w e row" by blast
    with good[of e] show ?thesis by blast
  qed
  then have "in_step w (D \<union> E \<union> set versioned) later rows'" unfolding in_step_def using Q by blast
  with run rows show ?thesis by blast
qed

lemma schema_no_colon: "fullmatch schema_version_pattern s \<Longrightarrow> no_colon s"
proof -
  assume "fullmatch schema_version_pattern s"
  then obtain c t where s: "s = CHR ''v'' # c # t" "is_digit c" and t: "matches (up_to 5 (Sym is_digit)) t"
    unfolding fullmatch_iff schema_version_pattern_def by auto
  have "\<forall>c \<in> set u. is_digit c" if "matches (up_to n (Sym is_digit)) u" for n u
    using that by (induction n arbitrary: u) (auto simp: maybe_def)
  with t have "\<forall>c \<in> set t. is_digit c" by blast
  moreover have "\<not> is_digit (CHR '':'')" by (simp add: is_digit_def)
  ultimately show ?thesis using s by (auto simp: no_colon_def)
qed

lemma event_projectable:
  "canonical_event_document row v None n js is cs = Inr d \<Longrightarrow> projectable (EventDocument d)"
  using event_snapshot[of row v n js "is" cs d] schema_no_colon
  by (auto simp: projectable_def canonical_event_document_def bind_err_Inr Let_def base_ok_def)

lemma signal_projectable:
  "detection_signal_document row v None n js is = Inr d \<Longrightarrow> projectable (SignalDocument d)"
  using signal_snapshot[of row v n js "is" d] schema_no_colon
  by (auto simp: projectable_def detection_signal_document_def bind_err_Inr Let_def base_ok_def)

text \<open>The documents the service makes of events and signals are projectable, whatever it reads.\<close>

lemma service_projectable:
  "event_documents v t erows = Inr ds \<Longrightarrow> d \<in> set ds \<Longrightarrow> projectable d"
  "signal_documents v t grows = Inr ds \<Longrightarrow> d \<in> set ds \<Longrightarrow> projectable d"
  unfolding event_documents_def signal_documents_def
  by (drule (1) map_err_member, force simp: bind_err_Inr Let_def intro: event_projectable signal_projectable)+

lemma event_version:
  "canonical_event_document row v i n js is cs = Inr d \<Longrightarrow> d\<lparr>sd_document_version := n\<rparr> = d"
  by (auto simp: canonical_event_document_def bind_err_Inr Let_def)

text \<open>The sample is enqueued a second time while a worker leases its first row.\<close>

definition leasing_environment :: "nat \<Rightarrow> Environment" where
  "leasing_environment k = (sample_environment k)\<lparr>env_others := map (lease_row ''worker'' (Instant 0) (Instant 60))\<rparr>"

lemma leasing_commits: "commits_for w {} (leasing_environment k)"
proof -
  have same: "o_key (lease_row a t u row) = o_key row" "describes w d (lease_row a t u row) = describes w d row" for a t u row d
    by (simp_all add: lease_row_def describes_def)
  have "map o_key (map (lease_row a t u) rows) = map o_key rows" for a t u rows by (simp add: same)
  then show ?thesis unfolding commits_for_def leasing_environment_def
    by (auto simp: same image_iff simp del: map_map)
qed

theorem projections_never_conflict_witness:
  "\<exists>s rows'. enqueue_many_upserts sample_writer sample_repository leasing_environment None [sample_document] [sample_row] = Inr (s, rows')
    \<and> in_step sample_writer ({sample_document} \<union> {} \<union> set [sample_document])
        [initial_projection (Instant 0) (projection_key sample_document, calculate_projection_sha256 sample_writer sample_document)]
        rows'
    \<and> (\<forall>v \<in> set [sample_document]. indexed sample_writer rows' v)"
proof -
  let ?v = "(projection_key sample_document, calculate_projection_sha256 sample_writer sample_document)"
  let ?p = "initial_projection (Instant 0) ?v"
  have version: "projection_version_of [?p] (projection_key sample_document) = Some 1"
    by (simp add: projection_version_of_def) (simp add: initial_projection_def split: prod.splits)
  note built = event_version[OF sample_event_built]
  have same: "document_version sample_document = 1" using arg_cong[OF built, of sd_document_version] by simp
  have kept: "upsert_row (Instant 0) ?v [?p] = [?p]"
    by (simp add: upsert_row_def) (simp add: bump_projection_def initial_projection_def split: prod.splits)
  have resolved: "resolve_documents sample_writer (r_dialect sample_repository) False (Instant 0) [sample_document] [?p]
      = Inr ([sample_document], [?p])"
    by (simp add: resolve_documents_def upsert_projections_def sample_repository_def kept somes_def version built Let_def)
  have good: "projectable sample_document" by (rule event_projectable[OF sample_event_built])
  have look: "lookup [?p] (projection_key sample_document) = Some ?p" by simp
  have "current sample_writer [?p] sample_document"
    unfolding current_def look using same by (simp add: initial_projection_def split: prod.splits)
  moreover have "describes sample_writer sample_document sample_row" unfolding sample_row_def by (rule new_row_describes)
  ultimately have start: "in_step sample_writer {sample_document} [?p] [sample_row]"
    using good by (simp add: in_step_def) (simp add: projectable_def)
  show ?thesis
    by (rule projections_never_conflict[OF start _ resolved])
      (simp_all add: collision_free_def sample_small leasing_commits selected_size_def good advanced_def
        MAX_ENQUEUE_CHUNK_SIZE_def, simp_all add: sample_repository_def)
qed

end
