(* ===== verification/Authorization.thy ===== *)
theory Authorization
  imports SocPrelude
begin

text \<open>
  Who may do what: \<open>security/authorization.py\<close> (roles, permissions and the union over roles), the
  mapping of external roles of \<open>security/oidc_roles.py\<close>, the principal of
  \<open>application/authentication.py\<close> and the permission check of \<open>api/deps.py\<close>. A role name is a
  string until it is parsed; a name that is no role grants nothing.
\<close>

datatype Role = VIEWER | ANALYST | SERVICE | ADMIN

primrec role_value :: "Role \<Rightarrow> string" where
  "role_value VIEWER = ''viewer''"
| "role_value ANALYST = ''analyst''"
| "role_value SERVICE = ''service''"
| "role_value ADMIN = ''admin''"

text \<open>\<open>Role(name)\<close>, with \<open>None\<close> for its \<open>ValueError\<close>.\<close>

definition role_of :: "string \<Rightarrow> Role option" where
  "role_of name = find (\<lambda>r. role_value r = name) [VIEWER, ANALYST, SERVICE, ADMIN]"

datatype Permission = JOB_SUBMIT | JOB_READ | JOB_CANCEL | INCIDENT_READ | INCIDENT_STATUS_UPDATE
  | INCIDENT_AUDIT_READ | REPORT_READ | WORKER_READ | AUDIT_READ

definition all_permissions :: "Permission list" where
  "all_permissions = [JOB_SUBMIT, JOB_READ, JOB_CANCEL, INCIDENT_READ, INCIDENT_STATUS_UPDATE,
     INCIDENT_AUDIT_READ, REPORT_READ, WORKER_READ, AUDIT_READ]"

definition VIEWER_PERMISSIONS :: "Permission list" where
  "VIEWER_PERMISSIONS = [JOB_READ, INCIDENT_READ, REPORT_READ]"

primrec ROLE_PERMISSIONS :: "Role \<Rightarrow> Permission list" where
  "ROLE_PERMISSIONS VIEWER = VIEWER_PERMISSIONS"
| "ROLE_PERMISSIONS SERVICE = [JOB_SUBMIT, JOB_READ, INCIDENT_READ, REPORT_READ]"
| "ROLE_PERMISSIONS ANALYST = [JOB_SUBMIT, JOB_READ, JOB_CANCEL, INCIDENT_READ, INCIDENT_STATUS_UPDATE,
     INCIDENT_AUDIT_READ, REPORT_READ]"
| "ROLE_PERMISSIONS ADMIN = all_permissions"

fun permissions_for_roles :: "string list \<Rightarrow> Permission set" where
  "permissions_for_roles [] = {}"
| "permissions_for_roles (name # names) =
     (case role_of name of None \<Rightarrow> permissions_for_roles names
      | Some role \<Rightarrow> set (ROLE_PERMISSIONS role) \<union> permissions_for_roles names)"

definition has_permission :: "string list \<Rightarrow> Permission \<Rightarrow> bool" where
  "has_permission roles permission = (permission \<in> permissions_for_roles roles)"

record AuthenticatedPrincipal =
  pp_subject_type :: string
  pp_subject_id :: string
  pp_display_name :: string
  pp_authentication_method :: string
  pp_roles :: "string list"
  pp_credential_id :: "string option"

definition local_development_principal :: AuthenticatedPrincipal where
  "local_development_principal = \<lparr>pp_subject_type = ''local_development'', pp_subject_id = ''local-development'',
     pp_display_name = ''Local development (authentication disabled)'', pp_authentication_method = ''disabled'',
     pp_roles = [role_value ADMIN], pp_credential_id = None\<rparr>"

text \<open>The end of \<open>require_permission\<close>, once the rate limit has let the call through.\<close>

definition authorize :: "Permission \<Rightarrow> AuthenticatedPrincipal \<Rightarrow> string + AuthenticatedPrincipal" where
  "authorize permission who =
     (if has_permission (pp_roles who) permission then Inr who else Inl ''forbidden'')"

section \<open>External roles\<close>

definition MAX_EXTERNAL_ROLES :: nat where
  "MAX_EXTERNAL_ROLES = 100"

definition MAX_EXTERNAL_ROLE_LENGTH :: nat where
  "MAX_EXTERNAL_ROLE_LENGTH = 128"

record OidcRoleMapper =
  rm_roles_claim :: string
  rm_role_mapping :: "(string \<times> string) list"

fun strings_of :: "pyval list \<Rightarrow> string list option" where
  "strings_of [] = Some []"
| "strings_of (PStr s # vs) = map_option (Cons s) (strings_of vs)"
| "strings_of (_ # vs) = None"

definition external_roles :: "pyval \<Rightarrow> string + string list" where
  "external_roles value = (case value of
     PStr s \<Rightarrow> Inr [s]
   | PList vs \<Rightarrow> (case strings_of vs of Some roles \<Rightarrow> Inr roles | None \<Rightarrow> Inl ''jwt_roles_invalid'')
   | _ \<Rightarrow> Inl ''jwt_roles_invalid'')"

definition map_role :: "OidcRoleMapper \<Rightarrow> string \<Rightarrow> string list \<Rightarrow> string list" where
  "map_role m external mapped = (case map_of (rm_role_mapping m) external of
     None \<Rightarrow> mapped
   | Some internal \<Rightarrow> if internal \<in> set mapped then mapped else mapped @ [internal])"

definition map_claims :: "OidcRoleMapper \<Rightarrow> pydict \<Rightarrow> string + string list" where
  "map_claims m claims =
     bind_err (external_roles (case map_of claims (rm_roles_claim m) of None \<Rightarrow> PList [] | Some v \<Rightarrow> v)) (\<lambda>external.
       if length external > MAX_EXTERNAL_ROLES
          \<or> list_ex (\<lambda>role. role = [] \<or> length role > MAX_EXTERNAL_ROLE_LENGTH) external
       then Inl ''jwt_roles_invalid''
       else Inr (fold (map_role m) external []))"

section \<open>Facts\<close>

lemma role_of_value [simp]: "role_of (role_value r) = Some r"
  by (cases r) (simp_all add: role_of_def)

lemma role_of_Some: "role_of name = Some r \<longleftrightarrow> name = role_value r"
proof
  show "role_of name = Some r \<Longrightarrow> name = role_value r"
    by (auto simp: role_of_def split: if_splits)
qed simp

lemma role_value_inj [simp]: "role_value r = role_value s \<longleftrightarrow> r = s"
  by (cases r; cases s) simp_all

lemma permissions_iff:
  "p \<in> permissions_for_roles names \<longleftrightarrow> (\<exists>r. role_value r \<in> set names \<and> p \<in> set (ROLE_PERMISSIONS r))"
  by (induction names) (auto simp: role_of_Some split: option.splits)

lemma ROLE_PERMISSIONS_iff:
  "p \<in> set (ROLE_PERMISSIONS r) \<longleftrightarrow> r = ADMIN \<or> p \<in> {JOB_READ, INCIDENT_READ, REPORT_READ}
     \<or> (r \<noteq> VIEWER \<and> p = JOB_SUBMIT)
     \<or> (r = ANALYST \<and> p \<in> {JOB_CANCEL, INCIDENT_STATUS_UPDATE, INCIDENT_AUDIT_READ})"
  by (cases r; cases p) (simp_all add: VIEWER_PERMISSIONS_def all_permissions_def)

text \<open>C18: a principal may do something exactly when one of its role names is a role that grants it:
  unknown names grant nothing and more names never take a permission away. Every role reads jobs,
  incidents and reports; a viewer nothing else; only an analyst or administrator cancels jobs,
  changes an incident or reads its timeline; only an administrator reads workers and audit events.\<close>

theorem authorization_least_privilege:
  "authorize p who = Inr who \<longleftrightarrow>
     (\<exists>r. role_value r \<in> set (pp_roles who) \<and>
        (r = ADMIN \<or> p \<in> {JOB_READ, INCIDENT_READ, REPORT_READ} \<or> (r \<noteq> VIEWER \<and> p = JOB_SUBMIT)
         \<or> (r = ANALYST \<and> p \<in> {JOB_CANCEL, INCIDENT_STATUS_UPDATE, INCIDENT_AUDIT_READ})))"
  unfolding authorize_def has_permission_def permissions_iff ROLE_PERMISSIONS_iff by auto

lemma map_role_facts:
  "distinct mapped \<Longrightarrow> distinct (map_role m e mapped)"
  "set (map_role m e mapped) = set mapped \<union> {i. map_of (rm_role_mapping m) e = Some i}"
  by (auto simp: map_role_def split: option.splits)

lemma fold_map_role:
  "distinct mapped \<Longrightarrow> distinct (fold (map_role m) es mapped)
     \<and> set (fold (map_role m) es mapped) = set mapped \<union> {i. \<exists>e \<in> set es. map_of (rm_role_mapping m) e = Some i}"
  by (induction es arbitrary: mapped) (auto simp: map_role_facts)

lemma mapped_roles_configured:
  assumes "map_claims m claims = Inr roles"
  shows "distinct roles \<and> (\<forall>role \<in> set roles. \<exists>external. map_of (rm_role_mapping m) external = Some role)"
proof -
  from assms obtain external where "roles = fold (map_role m) external []"
    by (auto simp: map_claims_def bind_err_Inr split: if_splits)
  then show ?thesis using fold_map_role[of "[]" m external] by auto
qed

end
