(* ===== verification/ApiKeys.thy ===== *)
theory ApiKeys
  imports Authorization Sha256 StateMachines
begin

text \<open>
  API credentials, \<open>application/authentication.py\<close>: creation, authentication and revocation. The
  credential table is a list of rows, the audit table the pairs of event and credential. Each
  operation reads the table and later writes it by a conditional \<open>UPDATE\<close>; what other transactions
  commit in between is a parameter. Logging, the order of evaluation that hides timing, and the
  driver errors (each an authentication failure, or a retry of the revocation) are left out.
\<close>

section \<open>Keys\<close>

definition hash_api_key :: "string \<Rightarrow> string" where
  "hash_api_key api_key = sha256_hex api_key"

text \<open>The text before the first separator and, if there is one, the text after it.\<close>

definition partition_at :: "char \<Rightarrow> string \<Rightarrow> string \<times> string option" where
  "partition_at c s = (takeWhile (\<lambda>x. x \<noteq> c) s,
     case dropWhile (\<lambda>x. x \<noteq> c) s of [] \<Rightarrow> None | _ # rest \<Rightarrow> Some rest)"

definition is_alnum :: "char \<Rightarrow> bool" where
  "is_alnum c = (is_upper c \<or> is_lower c \<or> is_digit c)"

definition extract_prefix :: "string \<Rightarrow> string option" where
  "extract_prefix api_key = (case partition_at (CHR ''_'') api_key of
     (soc, Some rest) \<Rightarrow> (case partition_at (CHR ''_'') rest of
         (key_prefix, Some secret) \<Rightarrow>
           if soc \<noteq> ''soc'' then None
           else if \<not> (8 \<le> length key_prefix \<and> length key_prefix \<le> 32 \<and> list_all is_alnum key_prefix) then None
           else if length secret < 32 \<or> list_ex is_space secret then None
           else Some key_prefix
       | _ \<Rightarrow> None)
   | _ \<Rightarrow> None)"

section \<open>Credentials\<close>

record ApiCredential =
  k_credential_id :: string
  k_name :: string
  k_key_prefix :: string
  k_key_hash :: string
  k_status :: string
  k_role :: string
  k_created_at :: datetime
  k_expires_at :: "datetime option"
  k_last_used_at :: "datetime option"
  k_revoked_at :: "datetime option"
  k_created_by_type :: string
  k_created_by_id :: string
  k_description :: "string option"
  k_version :: nat

record CredentialStore =
  cs_rows :: "ApiCredential list"
  cs_audit :: "(string \<times> string) list"

definition get_by_prefix :: "string \<Rightarrow> ApiCredential list \<Rightarrow> ApiCredential list" where
  "get_by_prefix key_prefix rows = filter (\<lambda>c. k_key_prefix c = key_prefix) rows"

definition get_credential :: "string \<Rightarrow> ApiCredential list \<Rightarrow> ApiCredential option" where
  "get_credential cid rows = find (\<lambda>c. k_credential_id c = cid) rows"

text \<open>\<open>_add_audit_event\<close>: at most one event of a kind for a credential.\<close>

definition add_audit_event :: "string \<Rightarrow> string \<Rightarrow> CredentialStore \<Rightarrow> CredentialStore" where
  "add_audit_event event_type cid store =
     (if (event_type, cid) \<in> set (cs_audit store) then store
      else store\<lparr>cs_audit := cs_audit store @ [(event_type, cid)]\<rparr>)"

text \<open>A conditional \<open>UPDATE\<close>: the rows and whether one was changed.\<close>

definition update_where :: "(ApiCredential \<Rightarrow> bool) \<Rightarrow> (ApiCredential \<Rightarrow> ApiCredential) \<Rightarrow> ApiCredential list
    \<Rightarrow> bool \<times> ApiCredential list" where
  "update_where p f rows = (list_ex p rows, map (\<lambda>c. if p c then f c else c) rows)"

section \<open>Creating\<close>

text \<open>The five draws of a prefix.\<close>

definition unused_prefix :: "string list \<Rightarrow> ApiCredential list \<Rightarrow> string option" where
  "unused_prefix draws rows = find (\<lambda>p. get_by_prefix p rows = []) (take 5 draws)"

record NewCredential =
  n_name :: string
  n_description :: "string option"
  n_expires_at :: "datetime option"
  n_role :: string
  n_created_by_type :: string
  n_created_by_id :: string

definition generate_credential :: "string \<Rightarrow> string list \<Rightarrow> string \<Rightarrow> datetime \<Rightarrow> NewCredential \<Rightarrow> CredentialStore
    \<Rightarrow> string + string \<times> ApiCredential \<times> CredentialStore" where
  "generate_credential credential_id draws secret now new store =
     (let name = py_strip (n_name new) in
      if name = [] \<or> length name > 120 then Inl ''credential_name_invalid''
      else if (case n_description new of None \<Rightarrow> False | Some d \<Rightarrow> length d > 500) then Inl ''credential_description_invalid''
      else case role_of (n_role new) of None \<Rightarrow> Inl ''credential_role_invalid''
        | Some role \<Rightarrow> (case unused_prefix draws (cs_rows store) of
            None \<Rightarrow> Inl ''credential_generation_failed''
          | Some key_prefix \<Rightarrow>
              (let api_key = ''soc_'' @ key_prefix @ ''_'' @ secret;
                   credential = \<lparr>k_credential_id = credential_id, k_name = name, k_key_prefix = key_prefix,
                     k_key_hash = hash_api_key api_key, k_status = ''active'', k_role = role_value role,
                     k_created_at = now, k_expires_at = n_expires_at new, k_last_used_at = None,
                     k_revoked_at = None, k_created_by_type = n_created_by_type new,
                     k_created_by_id = n_created_by_id new, k_description = n_description new, k_version = 1\<rparr>
               in Inr (api_key, credential, add_audit_event ''api_credential_created'' credential_id
                    (store\<lparr>cs_rows := cs_rows store @ [credential]\<rparr>)))))"

section \<open>Authenticating\<close>

text \<open>The loop over the candidates: the last one whose hash is the presented one.\<close>

definition matching_credential :: "string \<Rightarrow> ApiCredential list \<Rightarrow> ApiCredential option" where
  "matching_credential presented_hash candidates =
     fold (\<lambda>c found. if k_key_hash c = presented_hash then Some c else found) candidates None"

definition is_expired :: "datetime \<Rightarrow> ApiCredential \<Rightarrow> bool" where
  "is_expired now c = (case k_expires_at c of None \<Rightarrow> False | Some t \<Rightarrow> t \<le> now)"

text \<open>The two updates, by the row that was read.\<close>

definition expire_credential :: "ApiCredential \<Rightarrow> ApiCredential list \<Rightarrow> bool \<times> ApiCredential list" where
  "expire_credential read rows = update_where
     (\<lambda>c. k_credential_id c = k_credential_id read \<and> k_status c = ''active'' \<and> k_version c = k_version read)
     (\<lambda>c. c\<lparr>k_status := ''expired'', k_version := k_version c + 1\<rparr>) rows"

definition use_credential :: "datetime \<Rightarrow> ApiCredential \<Rightarrow> ApiCredential list \<Rightarrow> bool \<times> ApiCredential list" where
  "use_credential now read rows = update_where
     (\<lambda>c. k_credential_id c = k_credential_id read \<and> k_status c = ''active'' \<and> \<not> is_expired now c)
     (\<lambda>c. c\<lparr>k_last_used_at := Some now, k_version := k_version c + 1\<rparr>) rows"

definition principal_of :: "ApiCredential \<Rightarrow> AuthenticatedPrincipal" where
  "principal_of c = \<lparr>pp_subject_type = ''api_client'', pp_subject_id = k_credential_id c, pp_display_name = k_name c,
     pp_authentication_method = ''api_key'', pp_roles = [k_role c], pp_credential_id = Some (k_credential_id c)\<rparr>"

text \<open>\<open>authenticate\<close>: a principal or the logged category of the failure (every failure raises the same
  error), and the rows afterwards, \<open>others\<close> being what is committed after the read.\<close>

definition authenticate_key :: "datetime \<Rightarrow> (ApiCredential list \<Rightarrow> ApiCredential list) \<Rightarrow> string \<Rightarrow> ApiCredential list
    \<Rightarrow> (string + AuthenticatedPrincipal) \<times> ApiCredential list" where
  "authenticate_key now others api_key rows =
     (let candidates = (case extract_prefix api_key of None \<Rightarrow> [] | Some p \<Rightarrow> get_by_prefix p rows)
      in case matching_credential (hash_api_key api_key) candidates of
        None \<Rightarrow> (Inl ''authentication_failed'', others rows)
      | Some matched \<Rightarrow>
          if k_status matched = ''revoked'' then (Inl ''credential_revoked'', others rows)
          else if k_status matched = ''expired'' then (Inl ''credential_expired'', others rows)
          else if k_status matched \<noteq> ''active'' then (Inl ''authentication_failed'', others rows)
          else if role_of (k_role matched) = None then (Inl ''authentication_failed'', others rows)
          else if is_expired now matched
          then (case expire_credential matched (others rows) of (updated, rows') \<Rightarrow>
                 (Inl (if updated then ''credential_expired'' else ''authentication_failed''), rows'))
          else (case use_credential now matched (others rows) of (updated, rows') \<Rightarrow>
                 (if updated then Inr (principal_of matched) else Inl ''authentication_failed'', rows')))"

section \<open>Revoking\<close>

definition revoke_row :: "datetime \<Rightarrow> ApiCredential \<Rightarrow> ApiCredential list \<Rightarrow> bool \<times> ApiCredential list" where
  "revoke_row now read rows = update_where
     (\<lambda>c. k_credential_id c = k_credential_id read \<and> k_status c \<noteq> ''revoked'' \<and> k_version c = k_version read)
     (\<lambda>c. c\<lparr>k_status := ''revoked'', k_revoked_at := Some now, k_version := k_version c + 1\<rparr>) rows"

text \<open>\<open>_revoke_credential_once\<close>: at most three attempts, \<open>others k\<close> being committed between the read and
  the update of attempt \<open>k\<close>. A refused update is rolled back and the row read again.\<close>

fun revoke_attempts :: "nat \<Rightarrow> datetime \<Rightarrow> (nat \<Rightarrow> ApiCredential list \<Rightarrow> ApiCredential list) \<Rightarrow> string \<Rightarrow> CredentialStore
    \<Rightarrow> string + CredentialStore" where
  "revoke_attempts 0 now others cid store = Inl ''credential_version_conflict''"
| "revoke_attempts (Suc n) now others cid store = (case get_credential cid (cs_rows store) of
     None \<Rightarrow> Inl ''credential_not_found''
   | Some c \<Rightarrow>
       if k_status c = ''revoked'' then Inr store
       else (let rows = others n (cs_rows store) in case revoke_row now c rows of (updated, rows') \<Rightarrow>
         if updated then Inr (add_audit_event ''api_credential_revoked'' cid (store\<lparr>cs_rows := rows'\<rparr>))
         else revoke_attempts n now others cid (store\<lparr>cs_rows := rows\<rparr>)))"

definition revoke_credential :: "datetime \<Rightarrow> (nat \<Rightarrow> ApiCredential list \<Rightarrow> ApiCredential list) \<Rightarrow> string \<Rightarrow> CredentialStore
    \<Rightarrow> string + CredentialStore" where
  "revoke_credential now others cid store = revoke_attempts 3 now others cid store"

section \<open>Facts\<close>

lemma matching_credential_Some:
  "matching_credential h cs = Some c \<Longrightarrow> c \<in> set cs \<and> k_key_hash c = h"
proof -
  have "fold (\<lambda>c found. if k_key_hash c = h then Some c else found) cs found = Some c
      \<Longrightarrow> (c \<in> set cs \<and> k_key_hash c = h) \<or> found = Some c" for found
    by (induction cs arbitrary: found) (fastforce split: if_splits)+
  from this[of None] show "matching_credential h cs = Some c \<Longrightarrow> c \<in> set cs \<and> k_key_hash c = h"
    unfolding matching_credential_def by auto
qed

lemma authenticate_success:
  assumes "authenticate_key now others api_key rows = (Inr who, rows')"
  obtains c where "c \<in> set rows" and "extract_prefix api_key = Some (k_key_prefix c)"
    and "k_key_hash c = hash_api_key api_key" and "k_status c = ''active''" and "role_of (k_role c) \<noteq> None"
    and "\<not> is_expired now c" and "who = principal_of c"
    and "use_credential now c (others rows) = (True, rows')"
proof -
  let ?cands = "case extract_prefix api_key of None \<Rightarrow> [] | Some p \<Rightarrow> get_by_prefix p rows"
  from assms obtain c where c: "matching_credential (hash_api_key api_key) ?cands = Some c"
    by (auto simp: authenticate_key_def Let_def split: option.splits)
  have ok: "k_status c = ''active''" "role_of (k_role c) \<noteq> None" "\<not> is_expired now c" "who = principal_of c"
    "use_credential now c (others rows) = (True, rows')"
    using assms unfolding authenticate_key_def Let_def c option.case by (auto split: if_splits prod.splits)
  have "c \<in> set ?cands" "k_key_hash c = hash_api_key api_key" using matching_credential_Some[OF c] by auto
  moreover from this have "c \<in> set rows" "extract_prefix api_key = Some (k_key_prefix c)"
    by (auto simp: get_by_prefix_def split: option.splits)
  ultimately show ?thesis using that ok by blast
qed

text \<open>C16: only a live credential authenticates: a principal is returned only for a key with the stored
  prefix and digest of a credential that was active, unexpired and of a known role when it was read,
  and that is still active and unexpired when its use is recorded, whatever was committed in
  between; the principal is that credential with exactly its one role.\<close>

theorem authentication_sound:
  assumes "authenticate_key now others api_key rows = (Inr who, rows')"
  shows "\<exists>c \<in> set rows. extract_prefix api_key = Some (k_key_prefix c) \<and> k_key_hash c = sha256_hex api_key
    \<and> k_status c = ''active'' \<and> \<not> is_expired now c \<and> (\<exists>role. k_role c = role_value role \<and> pp_roles who = [role_value role])
    \<and> pp_subject_id who = k_credential_id c
    \<and> (\<exists>cur \<in> set (others rows). k_credential_id cur = k_credential_id c \<and> k_status cur = ''active'' \<and> \<not> is_expired now cur)"
  using assms
proof (rule authenticate_success)
  fix c assume c: "c \<in> set rows" "extract_prefix api_key = Some (k_key_prefix c)"
    "k_key_hash c = hash_api_key api_key" "k_status c = ''active''" "role_of (k_role c) \<noteq> None"
    "\<not> is_expired now c" "who = principal_of c" and use: "use_credential now c (others rows) = (True, rows')"
  from c(5) obtain role where "k_role c = role_value role" by (auto simp: role_of_Some)
  moreover from use have "\<exists>cur \<in> set (others rows). k_credential_id cur = k_credential_id c \<and> k_status cur = ''active''
      \<and> \<not> is_expired now cur"
    by (auto simp: use_credential_def update_where_def list_ex_iff)
  ultimately show ?thesis using c by (intro bexI[of _ c]) (auto simp: principal_of_def hash_api_key_def)
qed

lemma update_where_ids:
  "(\<And>c. k_credential_id (f c) = k_credential_id c)
    \<Longrightarrow> map k_credential_id (snd (update_where p f rows)) = map k_credential_id rows"
  by (simp add: update_where_def)

lemma update_where_rows: "c \<in> set (snd (update_where p f rows)) \<longleftrightarrow> (\<exists>old \<in> set rows. c = (if p old then f old else old))"
  by (auto simp: update_where_def)

section \<open>The credential table as a state machine\<close>

text \<open>The committed writes, each by whatever row was read before; ids are a primary key.\<close>

inductive credential_step :: "ApiCredential list \<Rightarrow> ApiCredential list \<Rightarrow> bool" where
  credential_created: "generate_credential cid draws secret now new store = Inr (api_key, c, store') \<Longrightarrow>
    cid \<notin> k_credential_id ` set (cs_rows store) \<Longrightarrow> credential_step (cs_rows store) (cs_rows store')"
| credential_used: "credential_step rows (snd (use_credential now c rows))"
| credential_expired: "credential_step rows (snd (expire_credential c rows))"
| credential_revoked: "credential_step rows (snd (revoke_row now c rows))"

definition credential_inv :: "ApiCredential list \<Rightarrow> bool" where
  "credential_inv rows = (distinct (map k_credential_id rows)
     \<and> (\<forall>c \<in> set rows. k_status c \<in> {''active'', ''revoked'', ''expired''} \<and> role_of (k_role c) \<noteq> None))"

lemma generate_Inr:
  assumes "generate_credential cid draws secret now new store = Inr (api_key, c, store')"
  obtains key_prefix role where "unused_prefix draws (cs_rows store) = Some key_prefix"
    and "role_of (n_role new) = Some role" and "api_key = ''soc_'' @ key_prefix @ ''_'' @ secret"
    and "k_credential_id c = cid" and "k_key_prefix c = key_prefix" and "k_key_hash c = hash_api_key api_key"
    and "k_status c = ''active''" and "k_role c = role_value role" and "k_expires_at c = n_expires_at new"
    and "cs_rows store' = cs_rows store @ [c]"
  using assms
  by (auto simp: generate_credential_def Let_def add_audit_event_def split: if_splits option.splits)

lemma credential_step_inv: "credential_step rows rows' \<Longrightarrow> credential_inv rows \<Longrightarrow> credential_inv rows'"
proof (induction rule: credential_step.induct)
  case (credential_created cid draws secret now new store api_key c store')
  from credential_created(1) obtain role where "k_credential_id c = cid" "k_status c = ''active''"
    "k_role c = role_value role" "cs_rows store' = cs_rows store @ [c]" by (rule generate_Inr) blast
  with credential_created(2,3) show ?case by (auto simp: credential_inv_def)
qed (auto simp: credential_inv_def use_credential_def expire_credential_def revoke_row_def update_where_ids
      update_where_rows split: if_splits)

interpretation credentials: invariant_machine "\<lambda>rows. rows = []" credential_step credential_inv
  by unfold_locales (auto simp: credential_inv_def[of "[]"] intro: credential_step_inv)

text \<open>A revoked row is never written again.\<close>

lemma revoked_step:
  "credential_step rows rows' \<Longrightarrow> c \<in> set rows \<Longrightarrow> k_status c = ''revoked'' \<Longrightarrow> c \<in> set rows'"
proof (induction rule: credential_step.induct)
  case (credential_created cid draws secret now new store api_key c' store')
  from credential_created(1) have "cs_rows store' = cs_rows store @ [c']" by (rule generate_Inr) blast
  with credential_created(3) show ?case by simp
qed (force simp: use_credential_def expire_credential_def revoke_row_def update_where_def)+

lemma revoked_steps:
  "credential_step\<^sup>*\<^sup>* rows rows' \<Longrightarrow> c \<in> set rows \<Longrightarrow> k_status c = ''revoked'' \<Longrightarrow> c \<in> set rows'"
  by (induction rule: rtranclp_induct) (auto dest: revoked_step)

definition committed :: "(ApiCredential list \<Rightarrow> ApiCredential list) \<Rightarrow> bool" where
  "committed others = (\<forall>rows. credential_step\<^sup>*\<^sup>* rows (others rows))"

lemma revoke_attempts_Inr:
  assumes "revoke_attempts n now others cid store = Inr store'" and "\<And>k. committed (others k)"
  shows "credential_step\<^sup>*\<^sup>* (cs_rows store) (cs_rows store')
    \<and> (\<exists>c \<in> set (cs_rows store'). k_credential_id c = cid \<and> k_status c = ''revoked'')"
  using assms(1)
proof (induction n arbitrary: store)
  case (Suc n)
  then obtain c where c: "get_credential cid (cs_rows store) = Some c" by (auto split: option.splits)
  then have id: "k_credential_id c = cid" and mem: "c \<in> set (cs_rows store)"
    unfolding get_credential_def by (auto simp: find_Some_iff in_set_conv_nth)
  show ?case
  proof (cases "k_status c = ''revoked''")
    case True
    then show ?thesis using Suc.prems c id mem by auto
  next
    case False
    let ?rows = "others n (cs_rows store)"
    obtain updated rows' where upd: "revoke_row now c ?rows = (updated, rows')" by fastforce
    have steps: "credential_step\<^sup>*\<^sup>* (cs_rows store) ?rows" using assms(2) by (simp add: committed_def)
    show ?thesis
    proof (cases updated)
      case True
      then have store': "cs_rows store' = rows'"
        using Suc.prems c False upd by (auto simp: Let_def add_audit_event_def split: if_splits)
      have "credential_step ?rows rows'" using credential_revoked[of ?rows now c] upd by simp
      moreover have "\<exists>c \<in> set rows'. k_credential_id c = cid \<and> k_status c = ''revoked''"
      proof -
        from upd True obtain x where x: "x \<in> set ?rows" "k_credential_id x = k_credential_id c"
          "k_status x \<noteq> ''revoked''" "k_version x = k_version c"
          by (auto simp: revoke_row_def update_where_def list_ex_iff)
        have "rows' = snd (revoke_row now c ?rows)" using upd by simp
        then have "x\<lparr>k_status := ''revoked'', k_revoked_at := Some now, k_version := k_version x + 1\<rparr> \<in> set rows'"
          using x by (force simp: revoke_row_def update_where_rows)
        then show ?thesis using x id by (intro bexI) auto
      qed
      ultimately show ?thesis using steps store' by (auto intro: rtranclp.rtrancl_into_rtrancl)
    next
      case False
      then have "revoke_attempts n now others cid (store\<lparr>cs_rows := ?rows\<rparr>) = Inr store'"
        using Suc.prems c \<open>k_status c \<noteq> ''revoked''\<close> upd by (simp add: Let_def)
      from Suc.IH[OF this] steps show ?thesis by (auto intro: rtranclp_trans)
    qed
  qed
qed simp

text \<open>C17: revocation is final and immediate: once it has been committed, no authentication whose use
  is recorded later succeeds for that credential, after any further writes, even when it had read
  the credential while it was still active.\<close>

theorem revocation_final:
  assumes "reach (\<lambda>rows. rows = []) credential_step (cs_rows store)" and "\<And>k. committed (others k)"
    and "revoke_credential now others cid store = Inr store'"
    and "credential_step\<^sup>*\<^sup>* (cs_rows store') later" and "others' rows = later"
    and "authenticate_key now' others' api_key rows = (Inr who, rows')"
  shows "pp_subject_id who \<noteq> cid"
proof
  assume "pp_subject_id who = cid"
  obtain c where c: "who = principal_of c" "use_credential now' c (others' rows) = (True, rows')"
    using assms(6) by (rule authenticate_success) blast
  then obtain cur where cur: "cur \<in> set later" "k_credential_id cur = cid" "k_status cur = ''active''"
    using \<open>pp_subject_id who = cid\<close> assms(5)
    by (auto simp: use_credential_def update_where_def list_ex_iff principal_of_def)
  from revoke_attempts_Inr[OF assms(3)[unfolded revoke_credential_def] assms(2)]
  obtain d where steps: "credential_step\<^sup>*\<^sup>* (cs_rows store) (cs_rows store')"
    and d: "d \<in> set (cs_rows store')" "k_credential_id d = cid" "k_status d = ''revoked''" by blast
  have "d \<in> set later" using revoked_steps[OF assms(4) d(1,3)] .
  moreover have "credential_inv later"
    using assms(4) steps credentials.reach_inv[OF assms(1)] credentials.steps_inv by blast
  ultimately have "d = cur" using cur d(2) unfolding credential_inv_def by (metis distinct_map inj_onD)
  then show False using cur(3) d(3) by simp
qed

section \<open>A generated key\<close>

lemma partition_at_append:
  "c \<notin> set xs \<Longrightarrow> partition_at c (xs @ c # ys) = (xs, Some ys)"
proof -
  assume "c \<notin> set xs"
  then have "takeWhile (\<lambda>x. x \<noteq> c) (xs @ c # ys) = xs" "dropWhile (\<lambda>x. x \<noteq> c) (xs @ c # ys) = c # ys"
    by (induction xs) auto
  then show ?thesis by (simp add: partition_at_def)
qed

lemma underscore_no_alnum: "list_all is_alnum xs \<Longrightarrow> CHR ''_'' \<notin> set xs"
  by (auto simp: list_all_iff is_alnum_def is_upper_def is_lower_def is_digit_def)

lemma extract_generated:
  assumes "8 \<le> length p" "length p \<le> 32" "list_all is_alnum p" "32 \<le> length s" "\<not> list_ex is_space s"
  shows "extract_prefix (''soc_'' @ p @ ''_'' @ s) = Some p"
proof -
  have "partition_at (CHR ''_'') (''soc_'' @ p @ ''_'' @ s) = (''soc'', Some (p @ ''_'' @ s))"
    using partition_at_append[of "CHR ''_''" "''soc''" "p @ ''_'' @ s"] by simp
  moreover have "partition_at (CHR ''_'') (p @ ''_'' @ s) = (p, Some s)"
    using partition_at_append[OF underscore_no_alnum[OF assms(3)], of s] by simp
  ultimately show ?thesis using assms by (simp add: extract_prefix_def)
qed

lemma unused_prefix_Some: "unused_prefix draws rows = Some p \<Longrightarrow> p \<in> set draws \<and> get_by_prefix p rows = []"
  by (auto simp: unused_prefix_def find_Some_iff in_set_conv_nth)

text \<open>What \<open>secrets.token_hex(6)\<close> and \<open>secrets.token_urlsafe(32)\<close> promise of their results.\<close>

definition hex_draw :: "string \<Rightarrow> bool" where
  "hex_draw p = (length p = 12 \<and> list_all (\<lambda>c. c \<in> set ''0123456789abcdef'') p)"

definition urlsafe_secret :: "string \<Rightarrow> bool" where
  "urlsafe_secret s = (length s = 43 \<and> list_all (\<lambda>c. is_alnum c \<or> c = CHR ''-'' \<or> c = CHR ''_'') s)"

lemma hex_digit_alnum: "list_all is_alnum ''0123456789abcdef''"
  by (simp add: is_alnum_def is_upper_def is_lower_def is_digit_def)

lemma hex_draw_alnum: "hex_draw p \<Longrightarrow> length p = 12 \<and> list_all is_alnum p"
  using hex_digit_alnum unfolding hex_draw_def list_all_iff by blast

lemma urlsafe_no_space: "urlsafe_secret s \<Longrightarrow> length s = 43 \<and> \<not> list_ex is_space s"
  by (auto simp: urlsafe_secret_def list_all_iff list_ex_iff is_alnum_def is_upper_def is_lower_def is_digit_def is_space_def)

text \<open>What no later write changes of a credential: its prefix has no other owner, and the fields an
  authentication reads stay as they were, except that a credential once inactive stays inactive.\<close>

definition same_key :: "ApiCredential \<Rightarrow> ApiCredential \<Rightarrow> bool" where
  "same_key x y = (k_credential_id y = k_credential_id x \<and> k_name y = k_name x \<and> k_key_hash y = k_key_hash x
     \<and> k_role y = k_role x \<and> k_expires_at y = k_expires_at x
     \<and> (k_status y = ''active'' \<longrightarrow> k_status x = ''active''))"

lemma same_key_update:
  assumes "get_by_prefix p rows = [x]" and "\<And>c. k_key_prefix (f c) = k_key_prefix c" and "\<And>c. q c \<Longrightarrow> same_key c (f c)"
  shows "\<exists>y. get_by_prefix p (snd (update_where q f rows)) = [y] \<and> same_key x y"
proof -
  have "get_by_prefix p (snd (update_where q f rows)) = map (\<lambda>c. if q c then f c else c) (get_by_prefix p rows)"
    by (simp add: update_where_def get_by_prefix_def filter_map comp_def if_distrib assms(2) cong: if_cong)
  then show ?thesis using assms(1,3) by (simp add: same_key_def)
qed

lemma same_key_step:
  "credential_step rows rows' \<Longrightarrow> get_by_prefix p rows = [x] \<Longrightarrow> \<exists>y. get_by_prefix p rows' = [y] \<and> same_key x y"
proof (induction rule: credential_step.induct)
  case (credential_created cid draws secret now new store api_key c store')
  from credential_created(1) obtain q where q: "unused_prefix draws (cs_rows store) = Some q" "k_key_prefix c = q"
    "cs_rows store' = cs_rows store @ [c]" by (rule generate_Inr) blast
  from unused_prefix_Some[OF q(1)] credential_created(3) have "q \<noteq> p" by auto
  with q credential_created(3) show ?case by (simp add: get_by_prefix_def same_key_def)
qed (unfold use_credential_def expire_credential_def revoke_row_def, (rule same_key_update, assumption; simp add: same_key_def)+)

lemma same_key_steps:
  "credential_step\<^sup>*\<^sup>* rows rows' \<Longrightarrow> get_by_prefix p rows = [x] \<Longrightarrow> \<exists>y. get_by_prefix p rows' = [y] \<and> same_key x y"
proof (induction rule: rtranclp_induct)
  case (step rows' rows'')
  then obtain y where y: "get_by_prefix p rows' = [y]" "same_key x y" by blast
  from same_key_step[OF step(2) y(1)] obtain z where "get_by_prefix p rows'' = [z]" "same_key y z" by blast
  with y(2) show ?case by (auto simp: same_key_def)
qed (simp add: same_key_def)

lemma generated_owner:
  assumes "generate_credential cid draws secret now new store = Inr (api_key, c, store')"
    and "\<forall>p \<in> set draws. hex_draw p" and "urlsafe_secret secret"
  shows "extract_prefix api_key = Some (k_key_prefix c)" and "get_by_prefix (k_key_prefix c) (cs_rows store') = [c]"
    and "k_key_hash c = hash_api_key api_key" and "k_credential_id c = cid" and "role_of (k_role c) \<noteq> None"
    and "k_role c = n_role new" and "k_expires_at c = n_expires_at new"
proof -
  obtain p role where g: "unused_prefix draws (cs_rows store) = Some p" "role_of (n_role new) = Some role"
    "api_key = ''soc_'' @ p @ ''_'' @ secret" "k_credential_id c = cid" "k_key_prefix c = p"
    "k_key_hash c = hash_api_key api_key" "k_status c = ''active''" "k_role c = role_value role"
    "k_expires_at c = n_expires_at new" "cs_rows store' = cs_rows store @ [c]"
    using assms(1) by (rule generate_Inr) blast
  from unused_prefix_Some[OF g(1)] assms(2) have p: "hex_draw p" "get_by_prefix p (cs_rows store) = []" by auto
  show "extract_prefix api_key = Some (k_key_prefix c)"
    unfolding g(3,5) using hex_draw_alnum[OF p(1)] urlsafe_no_space[OF assms(3)] by (intro extract_generated) auto
  show "get_by_prefix (k_key_prefix c) (cs_rows store') = [c]" using p(2) g(5,10) by (simp add: get_by_prefix_def)
  show "k_key_hash c = hash_api_key api_key" "k_credential_id c = cid" "k_expires_at c = n_expires_at new"
    using g by simp_all
  show "role_of (k_role c) \<noteq> None" "k_role c = n_role new" using g(2,8) by (auto simp: role_of_Some)
qed

lemma credential_steps_inv:
  "reach (\<lambda>rows. rows = []) credential_step rows \<Longrightarrow> credential_step\<^sup>*\<^sup>* rows rows' \<Longrightarrow> credential_inv rows'"
  using credentials.reach_inv credentials.steps_inv by blast

lemma single_credential:
  assumes "credential_inv rows" and "get_by_prefix p rows = [x]" and "cur \<in> set rows"
    and "k_credential_id cur = k_credential_id x"
  shows "cur = x"
proof -
  have "x \<in> set rows" using arg_cong[OF assms(2), of set] by (auto simp: get_by_prefix_def)
  then show ?thesis using assms(1,3,4) by (auto simp: credential_inv_def distinct_map dest: inj_onD)
qed

text \<open>C39: a generated key authenticates as its own credential with the requested role until it expires,
  as often as it is presented, and from its expiry on never: whatever writes are committed between
  the creation and the read (earlier uses of the key and other credentials included), and whatever
  is committed between the read and the record of the use, the key that was handed out parses back
  to the drawn prefix, which no other credential has or gets, and an authentication leaves the
  credential active for the next one. The writes must not have revoked it or marked it expired: it
  is still active when the use is recorded. The draws and the secret have the form \<open>secrets\<close> promises,
  and the id is a new one.\<close>

theorem credential_round_trip:
  assumes "reach (\<lambda>rows. rows = []) credential_step (cs_rows store)"
    and "generate_credential cid draws secret now new store = Inr (api_key, c, store')"
    and "cid \<notin> k_credential_id ` set (cs_rows store)"
    and "\<forall>p \<in> set draws. hex_draw p" and "urlsafe_secret secret"
    and "credential_step\<^sup>*\<^sup>* (cs_rows store') rows" and "credential_step\<^sup>*\<^sup>* rows (others rows)"
    and "\<exists>cur \<in> set (others rows). k_credential_id cur = cid \<and> k_status cur = ''active''"
  shows "(if is_expired later c
      then \<exists>category. fst (authenticate_key later others api_key rows) = Inl category
      else fst (authenticate_key later others api_key rows) = Inr (principal_of c)
        \<and> credential_step\<^sup>*\<^sup>* rows (snd (authenticate_key later others api_key rows))
        \<and> (\<exists>cur \<in> set (snd (authenticate_key later others api_key rows)).
             k_credential_id cur = cid \<and> k_status cur = ''active''))
    \<and> pp_subject_id (principal_of c) = cid \<and> pp_roles (principal_of c) = [n_role new]"
proof -
  note owner = generated_owner[OF assms(2,4,5)]
  from same_key_steps[OF assms(6) owner(2)] obtain x where
    x: "get_by_prefix (k_key_prefix c) rows = [x]" "same_key c x" by blast
  from same_key_steps[OF assms(7) x(1)] obtain y where
    y: "get_by_prefix (k_key_prefix c) (others rows) = [y]" "same_key x y" by blast
  have "reach (\<lambda>rows. rows = []) credential_step (cs_rows store')"
    using assms(1) credential_created[OF assms(2,3)] by (rule reach_step)
  then have inv: "credential_inv (others rows)" by (rule credential_steps_inv[OF _ rtranclp_trans[OF assms(6,7)]])
  obtain cur where cur: "cur \<in> set (others rows)" "k_credential_id cur = cid" "k_status cur = ''active''"
    using assms(8) by blast
  have "cur = y" using single_credential[OF inv y(1) cur(1)] cur(2) x(2) y(2) owner(4) by (simp add: same_key_def)
  then have same: "k_status x = ''active''" "principal_of x = principal_of c" "is_expired later x = is_expired later c"
    "is_expired later cur = is_expired later c" "k_credential_id x = cid" "role_of (k_role x) \<noteq> None"
    using cur(3) x(2) y(2) owner(4,5) by (auto simp: same_key_def principal_of_def is_expired_def)
  have m: "matching_credential (hash_api_key api_key)
      (case extract_prefix api_key of None \<Rightarrow> [] | Some p \<Rightarrow> get_by_prefix p rows) = Some x"
    using owner(1,3) x by (simp add: matching_credential_def same_key_def)
  have own: "pp_subject_id (principal_of c) = cid" "pp_roles (principal_of c) = [n_role new]"
    using owner(4,6) by (simp_all add: principal_of_def)
  show ?thesis
  proof (cases "is_expired later c")
    case True
    then show ?thesis using m same own by (auto simp: authenticate_key_def Let_def split: prod.splits)
  next
    case False
    let ?used = "use_credential later x (others rows)"
    have "fst ?used" using False cur same(4,5) by (auto simp: use_credential_def update_where_def list_ex_iff)
    then have a: "authenticate_key later others api_key rows = (Inr (principal_of c), snd ?used)"
      using False m same by (auto simp: authenticate_key_def Let_def split: prod.splits)
    have "credential_step\<^sup>*\<^sup>* rows (snd ?used)" using assms(7) credential_used by (rule rtranclp.rtrancl_into_rtrancl)
    moreover have "cur\<lparr>k_last_used_at := Some later, k_version := k_version cur + 1\<rparr> \<in> set (snd ?used)"
      using False cur same(4,5) by (force simp: use_credential_def update_where_rows)
    then have "\<exists>cur \<in> set (snd ?used). k_credential_id cur = cid \<and> k_status cur = ''active''"
      by (rule bexI[rotated]) (use cur in simp)
    ultimately show ?thesis using False own by (simp add: a)
  qed
qed

section \<open>Witnesses\<close>

definition demo_secret :: string where
  "demo_secret = ''abcdefghijklmnopqrstuvwxyz-ABCDEFGHIJKLMNOP''"

definition demo_new :: NewCredential where
  "demo_new = \<lparr>n_name = ''collector'', n_description = None, n_expires_at = Some (Instant 900), n_role = ''service'',
     n_created_by_type = ''admin_cli'', n_created_by_id = ''local_administrator''\<rparr>"

definition demo_key :: "string \<Rightarrow> string" where
  "demo_key p = ''soc_'' @ p @ ''_'' @ demo_secret"

definition demo_credential :: "string \<Rightarrow> string \<Rightarrow> ApiCredential" where
  "demo_credential cid p = \<lparr>k_credential_id = cid, k_name = ''collector'', k_key_prefix = p,
     k_key_hash = hash_api_key (demo_key p), k_status = ''active'', k_role = ''service'', k_created_at = Instant 100,
     k_expires_at = Some (Instant 900), k_last_used_at = None, k_revoked_at = None, k_created_by_type = ''admin_cli'',
     k_created_by_id = ''local_administrator'', k_description = None, k_version = 1\<rparr>"

definition demo_store :: CredentialStore where
  "demo_store = \<lparr>cs_rows = [demo_credential ''cred_1'' ''0123456789ab'', demo_credential ''cred_2'' ''ba9876543210''],
     cs_audit = [(''api_credential_created'', ''cred_1''), (''api_credential_created'', ''cred_2'')]\<rparr>"

lemma demo_keys:
  "extract_prefix (demo_key ''0123456789ab'') = Some ''0123456789ab''"
  "extract_prefix (demo_key ''ba9876543210'') = Some ''ba9876543210''"
  unfolding demo_key_def by (rule extract_generated; simp add: demo_secret_def is_alnum_def is_lower_def is_upper_def is_digit_def is_space_def)+

lemma demo_generated:
  "generate_credential ''cred_1'' [''0123456789ab''] demo_secret (Instant 100) demo_new \<lparr>cs_rows = [], cs_audit = []\<rparr>
     = Inr (demo_key ''0123456789ab'', demo_credential ''cred_1'' ''0123456789ab'',
         \<lparr>cs_rows = [demo_credential ''cred_1'' ''0123456789ab''], cs_audit = [(''api_credential_created'', ''cred_1'')]\<rparr>)"
  by (simp add: generate_credential_def demo_new_def demo_key_def demo_credential_def unused_prefix_def get_by_prefix_def
    add_audit_event_def role_of_def py_strip_def is_space_def Let_def)

lemma demo_generated_second:
  "generate_credential ''cred_2'' [''ba9876543210''] demo_secret (Instant 100) demo_new
       \<lparr>cs_rows = [demo_credential ''cred_1'' ''0123456789ab''], cs_audit = [(''api_credential_created'', ''cred_1'')]\<rparr>
     = Inr (demo_key ''ba9876543210'', demo_credential ''cred_2'' ''ba9876543210'', demo_store)"
  by (simp add: generate_credential_def demo_new_def demo_key_def demo_credential_def unused_prefix_def get_by_prefix_def
    add_audit_event_def role_of_def py_strip_def is_space_def demo_store_def Let_def)

lemma demo_reached: "reach (\<lambda>rows. rows = []) credential_step (cs_rows demo_store)"
proof -
  have "reach (\<lambda>rows. rows = []) credential_step [demo_credential ''cred_1'' ''0123456789ab'']"
    using credential_created[OF demo_generated] by (auto intro: reach.intros)
  then show ?thesis
    using credential_created[OF demo_generated_second] by (force intro: reach_step simp: demo_credential_def)
qed

lemma matching_single [simp]: "matching_credential h [c] = (if k_key_hash c = h then Some c else None)"
  by (simp add: matching_credential_def)

lemma demo_authenticates:
  "authenticate_key (Instant 500) (\<lambda>r. r) (demo_key ''ba9876543210'') (cs_rows demo_store)
     = (Inr (principal_of (demo_credential ''cred_2'' ''ba9876543210'')),
        snd (use_credential (Instant 500) (demo_credential ''cred_2'' ''ba9876543210'') (cs_rows demo_store)))"
  unfolding authenticate_key_def Let_def demo_keys
  by (simp add: demo_store_def get_by_prefix_def demo_credential_def is_expired_def role_of_def use_credential_def
      update_where_def instant_simps)

theorem authentication_sound_witness:
  "\<exists>c \<in> set (cs_rows demo_store). k_key_hash c = sha256_hex (demo_key ''ba9876543210'') \<and> k_status c = ''active''"
  using authentication_sound[OF demo_authenticates] by blast

lemma demo_revoked:
  obtains store' where "revoke_credential (Instant 300) (\<lambda>_ r. r) ''cred_1'' demo_store = Inr store'"
    and "authenticate_key (Instant 500) (\<lambda>_. cs_rows store') (demo_key ''ba9876543210'') (cs_rows demo_store)
     = (Inr (principal_of (demo_credential ''cred_2'' ''ba9876543210'')),
        snd (use_credential (Instant 500) (demo_credential ''cred_2'' ''ba9876543210'') (cs_rows store')))"
proof -
  obtain store' where s: "revoke_credential (Instant 300) (\<lambda>_ r. r) ''cred_1'' demo_store = Inr store'"
    "cs_rows store' = [(demo_credential ''cred_1'' ''0123456789ab'')\<lparr>k_status := ''revoked'',
        k_revoked_at := Some (Instant 300), k_version := 2\<rparr>, demo_credential ''cred_2'' ''ba9876543210'']"
    by (simp add: revoke_credential_def eval_nat_numeral get_credential_def demo_store_def demo_credential_def
      revoke_row_def update_where_def add_audit_event_def)
  have "authenticate_key (Instant 500) (\<lambda>_. cs_rows store') (demo_key ''ba9876543210'') (cs_rows demo_store)
     = (Inr (principal_of (demo_credential ''cred_2'' ''ba9876543210'')),
        snd (use_credential (Instant 500) (demo_credential ''cred_2'' ''ba9876543210'') (cs_rows store')))"
    unfolding authenticate_key_def Let_def demo_keys s(2)
    by (simp add: demo_store_def get_by_prefix_def demo_credential_def is_expired_def role_of_def use_credential_def
      update_where_def instant_simps)
  with s(1) show thesis by (rule that)
qed

theorem revocation_final_witness:
  "\<exists>store' who rows'. revoke_credential (Instant 300) (\<lambda>_ r. r) ''cred_1'' demo_store = Inr store'
    \<and> authenticate_key (Instant 500) (\<lambda>_. cs_rows store') (demo_key ''ba9876543210'') (cs_rows demo_store) = (Inr who, rows')
    \<and> pp_subject_id who \<noteq> ''cred_1''"
proof -
  obtain store' where s: "revoke_credential (Instant 300) (\<lambda>_ r. r) ''cred_1'' demo_store = Inr store'"
    "authenticate_key (Instant 500) (\<lambda>_. cs_rows store') (demo_key ''ba9876543210'') (cs_rows demo_store)
     = (Inr (principal_of (demo_credential ''cred_2'' ''ba9876543210'')),
        snd (use_credential (Instant 500) (demo_credential ''cred_2'' ''ba9876543210'') (cs_rows store')))"
    by (rule demo_revoked)
  show ?thesis
    using revocation_final[OF demo_reached _ s(1) _ _ s(2), of "cs_rows store'"] s by (auto simp: committed_def)
qed

text \<open>The key is used twice before it expires.\<close>

abbreviation demo_issued :: "ApiCredential list" where
  "demo_issued \<equiv> [demo_credential ''cred_1'' ''0123456789ab'']"

abbreviation demo_used :: "ApiCredential list" where
  "demo_used \<equiv> snd (use_credential (Instant 500) (demo_credential ''cred_1'' ''0123456789ab'') demo_issued)"

theorem credential_round_trip_witness:
  "fst (authenticate_key (Instant 600) (\<lambda>r. r) (demo_key ''0123456789ab'') demo_used)
     = Inr (principal_of (demo_credential ''cred_1'' ''0123456789ab''))
   \<and> k_last_used_at (hd demo_used) = Some (Instant 500)
   \<and> (\<exists>category. fst (authenticate_key (Instant 900) (\<lambda>r. r) (demo_key ''0123456789ab'') demo_used) = Inl category)"
proof -
  have p: "\<forall>p \<in> set [''0123456789ab'']. hex_draw p" by (simp add: hex_draw_def)
  have u: "urlsafe_secret demo_secret"
    by (simp add: urlsafe_secret_def demo_secret_def is_alnum_def is_lower_def is_upper_def is_digit_def)
  have start: "reach (\<lambda>rows. rows = []) credential_step (cs_rows \<lparr>cs_rows = [], cs_audit = []\<rparr>)"
    by (rule reach_initial) simp
  have used: "demo_used = [(demo_credential ''cred_1'' ''0123456789ab'')\<lparr>k_last_used_at := Some (Instant 500), k_version := 2\<rparr>]"
    by (simp add: use_credential_def update_where_def demo_credential_def is_expired_def instant_simps)
  have step: "credential_step\<^sup>*\<^sup>* (cs_rows \<lparr>cs_rows = demo_issued, cs_audit = [(''api_credential_created'', ''cred_1'')]\<rparr>) demo_used"
    using credential_used by auto
  have cur: "\<exists>cur \<in> set demo_used. k_credential_id cur = ''cred_1'' \<and> k_status cur = ''active''"
    unfolding used by (simp add: demo_credential_def)
  have expiry: "\<not> is_expired (Instant 600) (demo_credential ''cred_1'' ''0123456789ab'')"
    "is_expired (Instant 900) (demo_credential ''cred_1'' ''0123456789ab'')"
    by (simp_all add: is_expired_def demo_credential_def instant_simps)
  show ?thesis
    using credential_round_trip[where others = "\<lambda>r. r" and later = "Instant 600", OF start demo_generated _ p u step _ cur]
      credential_round_trip[where others = "\<lambda>r. r" and later = "Instant 900", OF start demo_generated _ p u step _ cur] expiry
    by (simp add: used)
qed

end
