(* ===== verification/TriageFacts.thy ===== *)
theory TriageFacts
  imports Routing Addresses
begin

text \<open>
  The deterministic facts of an incident, \<open>triage/guardrails.py\<close>: which profile applies to an
  incident with its attached signals, the facts of each profile and the summary written from them,
  with the context and signal view of \<open>triage/models.py\<close>. A language model may explain an
  incident; what may be claimed about it comes from here.
\<close>

section \<open>Context and classification\<close>

record TriageIncidentContext =
  tc_incident :: IncidentBundle
  tc_events :: "canonical_event list"
  tc_context_events :: "canonical_event list"

record TriageSignalView =
  sv_signal_id :: string
  sv_rule_id :: string
  sv_rule_name :: string
  sv_signal_type :: string
  sv_signal_family :: string
  sv_severity :: string
  sv_confidence :: rat
  sv_matched_event_ids :: "string list"
  sv_mitre_techniques :: "string list"

definition MAX_FACT_LIST_ITEMS :: nat where
  "MAX_FACT_LIST_ITEMS = 20"

definition SCAN_PROBE_FAMILIES :: "string list" where
  "SCAN_PROBE_FAMILIES = [''network_scanning'', ''service_probing'']"

definition EXPOSURE_POLICY_FAMILIES :: "string list" where
  "EXPOSURE_POLICY_FAMILIES = [''firewall_exposure'', ''firewall_policy'']"

definition SEQUENCE_SIGNAL_TYPES :: "string list" where
  "SEQUENCE_SIGNAL_TYPES = [''scan_followed_by_allowed_connection'', ''blocked_then_allowed_same_service'',
     ''spi_followed_by_allowed_connection'']"

definition NON_TRIVIAL_BYTES_THRESHOLD :: int where
  "NON_TRIVIAL_BYTES_THRESHOLD = 200"

definition NON_TRIVIAL_DURATION_MS_THRESHOLD :: int where
  "NON_TRIVIAL_DURATION_MS_THRESHOLD = 1000"

definition bounded_sorted_ports :: "int list \<Rightarrow> int list" where
  "bounded_sorted_ports ports = take MAX_FACT_LIST_ITEMS (sort_uniq ports)"

record IncidentClassification =
  ic_is_scan_probe :: bool
  ic_is_exposure_policy :: bool
  ic_is_sequence :: bool
  ic_matched_signal_types :: "string list"

definition is_firewall_only :: "IncidentClassification \<Rightarrow> bool" where
  "is_firewall_only c = (ic_is_exposure_policy c \<or> ic_is_sequence c)"

definition classify_incident :: "TriageIncidentContext \<Rightarrow> TriageSignalView list \<Rightarrow> IncidentClassification" where
  "classify_incident context signal_views =
     (let families = i_incident_family (tc_incident context) # map sv_signal_family signal_views;
          types = i_incident_type (tc_incident context) # map sv_signal_type signal_views;
          matched = sort_uniq (filter (\<lambda>t. t \<in> set SEQUENCE_SIGNAL_TYPES) types)
      in \<lparr>ic_is_scan_probe = list_ex (\<lambda>f. f \<in> set SCAN_PROBE_FAMILIES) families,
          ic_is_exposure_policy = list_ex (\<lambda>f. f \<in> set EXPOSURE_POLICY_FAMILIES) families,
          ic_is_sequence = (matched \<noteq> []), ic_matched_signal_types = matched\<rparr>)"

section \<open>Facts\<close>

record ScanProbeFacts =
  sp_incident_type :: string
  sp_primary_entity :: string
  sp_event_count :: int
  sp_distinct_target_count :: int
  sp_destination_ports :: "int list"
  sp_protocols :: "string list"
  sp_blocked_event_count :: nat
  sp_all_attempts_blocked :: bool
  sp_syn_event_count :: nat
  sp_syn_only :: bool
  sp_first_seen :: string
  sp_last_seen :: string

record FirewallExposureFacts =
  fe_incident_type :: string
  fe_incident_primary_entity :: string
  fe_service :: "string option"
  fe_total_event_count :: nat
  fe_allowed_event_count :: nat
  fe_blocked_event_count :: nat
  fe_source_ips :: "string list"
  fe_external_source_ips :: "string list"
  fe_original_destination_ips :: "string list"
  fe_original_destination_ports :: "int list"
  fe_effective_destination_ips :: "string list"
  fe_effective_destination_ports :: "int list"
  fe_translated_destination_ips :: "string list"
  fe_translated_destination_ports :: "int list"
  fe_inbound_zones :: "string list"
  fe_outbound_zones :: "string list"
  fe_nat_event_count :: nat
  fe_total_packets :: int
  fe_total_bytes :: int
  fe_max_duration_ms :: int
  fe_single_packet_allowed_event_count :: nat
  fe_multi_packet_allowed_event_count :: nat
  fe_bidirectional_related_flow_observed :: bool
  fe_policy_allow_observed :: bool
  fe_transport_activity_observed :: bool
  fe_application_success_proven :: bool
  fe_compromise_proven :: bool
  fe_first_seen :: string
  fe_last_seen :: string

record SequenceFacts =
  sq_incident_type :: string
  sq_primary_entity :: string
  sq_sequence_signal_types :: "string list"
  sq_event_count :: nat
  sq_blocked_event_count :: nat
  sq_allowed_event_count :: nat
  sq_application_success_proven :: bool
  sq_compromise_proven :: bool
  sq_first_seen :: string
  sq_last_seen :: string

datatype IncidentFacts = ScanProbe ScanProbeFacts | FirewallExposure FirewallExposureFacts
  | SequenceIncident SequenceFacts | GenericIncident string

text \<open>\<open>_metric_int\<close>: \<open>int(value)\<close>, with the fallback for a boolean and for what \<open>int\<close> refuses.\<close>

definition facts_metric_int :: "pyval option \<Rightarrow> int \<Rightarrow> int" where
  "facts_metric_int v fallback = (case v of
     Some (PInt n) \<Rightarrow> n
   | Some (PFloat q) \<Rightarrow> if q < 0 then - \<lfloor>- q\<rfloor> else \<lfloor>q\<rfloor>
   | Some (PStr s) \<Rightarrow> (case int_of_text s of Inr n \<Rightarrow> n | Inl _ \<Rightarrow> fallback)
   | _ \<Rightarrow> fallback)"

definition sum_numeric :: "(canonical_event \<Rightarrow> int option) \<Rightarrow> canonical_event list \<Rightarrow> int" where
  "sum_numeric attr events = sum_list (somes attr events)"

definition max_numeric :: "(canonical_event \<Rightarrow> int option) \<Rightarrow> canonical_event list \<Rightarrow> int" where
  "max_numeric attr events = (case somes attr events of [] \<Rightarrow> 0 | vs \<Rightarrow> Max (set vs))"

text \<open>\<open>value and value.strip()\<close>.\<close>

definition visible :: "string option \<Rightarrow> bool" where
  "visible v = (case v of None \<Rightarrow> False | Some s \<Rightarrow> py_strip s \<noteq> [])"

definition guard_destination_translation :: "canonical_event \<Rightarrow> bool" where
  "guard_destination_translation event = (visible (e_translated_dst_ip event) \<or> e_translated_dst_port event \<noteq> None)"

definition is_nat_event :: "canonical_event \<Rightarrow> bool" where
  "is_nat_event event = (guard_destination_translation event \<or> visible (e_translated_src_ip event)
     \<or> e_translated_src_port event \<noteq> None \<or> visible (e_nat_type event))"

text \<open>\<open>str(value or "").upper()\<close>.\<close>

definition upper_text :: "string option \<Rightarrow> string" where
  "upper_text v = (case v of None \<Rightarrow> [] | Some s \<Rightarrow> py_upper s)"

definition derive_scan_probe_facts :: "TriageIncidentContext \<Rightarrow> ScanProbeFacts" where
  "derive_scan_probe_facts context =
     (let incident = tc_incident context; events = tc_events context; metrics = i_metrics incident;
          blocked_count = count_if is_blocked events;
          tcp_events = filter (\<lambda>e. upper_text (e_protocol e) = ''TCP'') events;
          syn_count = count_if (\<lambda>e. upper_text (e_tcp_flags e) = ''SYN'') tcp_events
      in \<lparr>sp_incident_type = i_incident_type incident,
          sp_primary_entity = i_primary_entity incident,
          sp_event_count = facts_metric_int (map_of metrics ''total_events'')
            (int (if i_event_ids incident \<noteq> [] then length (i_event_ids incident) else length events)),
          sp_distinct_target_count = facts_metric_int (map_of metrics ''distinct_targets'')
            (int (length (i_target_entities incident))),
          sp_destination_ports = bounded_sorted_ports (somes e_dst_port events),
          sp_protocols = take MAX_FACT_LIST_ITEMS
            (sort_uniq (map py_upper (somes (\<lambda>e. truthy_value (e_protocol e)) events))),
          sp_blocked_event_count = blocked_count,
          sp_all_attempts_blocked = (events \<noteq> [] \<and> blocked_count = length events),
          sp_syn_event_count = syn_count,
          sp_syn_only = (tcp_events \<noteq> [] \<and> syn_count = length tcp_events),
          sp_first_seen = isoformat (i_first_seen incident),
          sp_last_seen = isoformat (i_last_seen incident)\<rparr>)"

definition bidirectional_related_flow_observed :: "canonical_event list \<Rightarrow> canonical_event list \<Rightarrow> bool" where
  "bidirectional_related_flow_observed events context_events =
     list_ex (\<lambda>e. list_ex (events_are_bidirectionally_related e) context_events) events"

definition guard_effective_ip :: "canonical_event \<Rightarrow> string option" where
  "guard_effective_ip event = py_or (e_translated_dst_ip event) (e_dst_ip event)"

definition guard_effective_port :: "canonical_event \<Rightarrow> int option" where
  "guard_effective_port event = (case e_translated_dst_port event of Some p \<Rightarrow> Some p | None \<Rightarrow> e_dst_port event)"

definition truthy_values :: "(canonical_event \<Rightarrow> string option) \<Rightarrow> canonical_event list \<Rightarrow> string list" where
  "truthy_values attr events = somes (\<lambda>e. truthy_value (attr e)) events"

definition first_target_service :: "int list \<Rightarrow> string option" where
  "first_target_service ports = (case somes (\<lambda>p. classify_service (Some p)) ports of [] \<Rightarrow> None | s # _ \<Rightarrow> Some s)"

definition derive_exposure_facts :: "TriageIncidentContext \<Rightarrow> string \<Rightarrow> FirewallExposureFacts" where
  "derive_exposure_facts context incident_type =
     (let incident = tc_incident context; events = tc_events context;
          allowed_events = filter is_allowed events;
          source_ips = truthy_values e_src_ip events;
          original_destination_ports = somes e_dst_port events;
          effective_destination_ports = somes guard_effective_port events;
          bounded = (\<lambda>vs. bounded_sorted_values vs MAX_FACT_LIST_ITEMS);
          multi_packet_allowed = count_if (\<lambda>e. case e_packets e of None \<Rightarrow> False | Some n \<Rightarrow> n > 1) allowed_events;
          total_bytes = sum_numeric e_bytes events;
          max_duration_ms = max_numeric e_duration_ms events;
          bidirectional_flow = bidirectional_related_flow_observed events (tc_context_events context)
      in \<lparr>fe_incident_type = incident_type,
          fe_incident_primary_entity = i_primary_entity incident,
          fe_service = first_target_service (sort_uniq effective_destination_ports @ sort_uniq original_destination_ports),
          fe_total_event_count = length events,
          fe_allowed_event_count = length allowed_events,
          fe_blocked_event_count = count_if is_blocked events,
          fe_source_ips = bounded source_ips,
          fe_external_source_ips = bounded (filter (\<lambda>ip. \<not> is_private_unicast (Some ip)) source_ips),
          fe_original_destination_ips = bounded (truthy_values e_dst_ip events),
          fe_original_destination_ports = bounded_sorted_ports original_destination_ports,
          fe_effective_destination_ips = bounded (somes guard_effective_ip events),
          fe_effective_destination_ports = bounded_sorted_ports effective_destination_ports,
          fe_translated_destination_ips = bounded (truthy_values e_translated_dst_ip events),
          fe_translated_destination_ports = bounded_sorted_ports (somes e_translated_dst_port events),
          fe_inbound_zones = bounded (truthy_values e_inbound_zone events),
          fe_outbound_zones = bounded (truthy_values e_outbound_zone events),
          fe_nat_event_count = count_if is_nat_event events,
          fe_total_packets = sum_numeric e_packets events,
          fe_total_bytes = total_bytes,
          fe_max_duration_ms = max_duration_ms,
          fe_single_packet_allowed_event_count = count_if (\<lambda>e. e_packets e = Some 1) allowed_events,
          fe_multi_packet_allowed_event_count = multi_packet_allowed,
          fe_bidirectional_related_flow_observed = bidirectional_flow,
          fe_policy_allow_observed = (allowed_events \<noteq> []),
          fe_transport_activity_observed = (multi_packet_allowed > 0
            \<or> total_bytes > NON_TRIVIAL_BYTES_THRESHOLD
            \<or> max_duration_ms > NON_TRIVIAL_DURATION_MS_THRESHOLD \<or> bidirectional_flow),
          fe_application_success_proven = False,
          fe_compromise_proven = False,
          fe_first_seen = isoformat (i_first_seen incident),
          fe_last_seen = isoformat (i_last_seen incident)\<rparr>)"

definition derive_sequence_facts :: "TriageIncidentContext \<Rightarrow> IncidentClassification \<Rightarrow> SequenceFacts" where
  "derive_sequence_facts context classification =
     \<lparr>sq_incident_type = i_incident_type (tc_incident context),
      sq_primary_entity = i_primary_entity (tc_incident context),
      sq_sequence_signal_types = ic_matched_signal_types classification,
      sq_event_count = length (tc_events context),
      sq_blocked_event_count = count_if is_blocked (tc_events context),
      sq_allowed_event_count = count_if is_allowed (tc_events context),
      sq_application_success_proven = False,
      sq_compromise_proven = False,
      sq_first_seen = isoformat (i_first_seen (tc_incident context)),
      sq_last_seen = isoformat (i_last_seen (tc_incident context))\<rparr>"

definition derive_incident_facts :: "TriageIncidentContext \<Rightarrow> TriageSignalView list \<Rightarrow> IncidentFacts" where
  "derive_incident_facts context signal_views =
     (let classification = classify_incident context signal_views
      in if ic_is_sequence classification then SequenceIncident (derive_sequence_facts context classification)
         else if ic_is_exposure_policy classification
         then FirewallExposure (derive_exposure_facts context (i_incident_type (tc_incident context)))
         else if ic_is_scan_probe classification then ScanProbe (derive_scan_probe_facts context)
         else GenericIncident (i_incident_type (tc_incident context)))"

section \<open>The deterministic summary\<close>

text \<open>\<open>", ".join(parts) or fallback\<close>.\<close>

definition join_or :: "string list \<Rightarrow> string \<Rightarrow> string" where
  "join_or parts fallback = (let s = py_join '', '' parts in if s = [] then fallback else s)"

definition build_scan_probe_summary :: "ScanProbeFacts \<Rightarrow> string" where
  "build_scan_probe_summary facts =
     (let ports = join_or (map str_of_int (sp_destination_ports facts)) ''unknown'';
          protocols = join_or (sp_protocols facts) ''unknown'';
          blocked_text = (if sp_all_attempts_blocked facts then ''All incident-scope attempts were blocked''
            else str_of_nat (sp_blocked_event_count facts) @ '' incident-scope events were blocked'');
          syn_text = (if sp_syn_only facts then '' and TCP traffic was SYN-only'' else []);
          outcome = (if sp_all_attempts_blocked facts
            then ''; these events do not establish a successful connection or compromise.'' else ''.'')
      in ''Observed '' @ sp_incident_type facts @ '' activity from '' @ sp_primary_entity facts @ '' across '' @
         str_of_int (sp_event_count facts) @ '' events targeting '' @ str_of_int (sp_distinct_target_count facts) @
         '' distinct destinations on '' @ protocols @ '' port(s) '' @ ports @ ''. '' @ blocked_text @ syn_text @ outcome)"

definition build_exposure_summary :: "FirewallExposureFacts \<Rightarrow> string" where
  "build_exposure_summary facts =
     (let service_text = (case fe_service facts of None \<Rightarrow> '' service''
            | Some s \<Rightarrow> if s = [] then '' service'' else '' to a '' @ s @ '' service'');
          source_text = join_or (fe_source_ips facts)
            (if fe_incident_primary_entity facts = [] then ''an unknown source'' else fe_incident_primary_entity facts)
      in if \<not> fe_policy_allow_observed facts
         then ''The firewall recorded '' @ str_of_nat (fe_total_event_count facts) @ '' event(s)'' @ service_text @
           '' from '' @ source_text @ '', with '' @ str_of_nat (fe_blocked_event_count facts) @
           '' blocked and no allowed connection observed. This does not establish policy exposure, '' @
           ''an application session, or compromise.''
         else (let original_destination_text = join_or (fe_original_destination_ips facts) ''unknown'';
                   original_ports_text = join_or (map str_of_int (fe_original_destination_ports facts)) ''unknown'';
                   base = ''The firewall permitted inbound traffic'' @ service_text @ '' from '' @ source_text @
                     '' to '' @ original_destination_text @ '' ('' @ original_ports_text @ '' port(s))'';
                   translated = (if fe_effective_destination_ips facts \<noteq> []
                       \<and> set (fe_effective_destination_ips facts) \<noteq> set (fe_original_destination_ips facts)
                     then '', translated to effective destination '' @ py_join '', '' (fe_effective_destination_ips facts) @
                       '' ('' @ join_or (map str_of_int (fe_effective_destination_ports facts)) ''unknown'' @ '' port(s))''
                     else []);
                   established = base @ translated @ ''. The available record establishes policy exposure''
               in if fe_transport_activity_observed facts
                  then established @ '', and the available telemetry contains multi-packet or '' @
                    ''bidirectional network activity. This confirms network traffic was '' @
                    ''observed, but it does not prove successful authentication, '' @ ''exploitation, or compromise.''
                  else established @ '' but does not prove an application session, successful '' @
                    ''authentication, or compromise.''))"

definition build_sequence_summary :: "SequenceFacts \<Rightarrow> string" where
  "build_sequence_summary facts =
     ''Repeated blocked attempts ('' @ str_of_nat (sq_blocked_event_count facts) @ '' event(s)) were '' @
     ''followed by an allowed firewall event ('' @ str_of_nat (sq_allowed_event_count facts) @ '' event(s)) '' @
     ''to the same service from '' @ sq_primary_entity facts @ ''. The allowed event warrants '' @
     ''investigation, but the available firewall telemetry does not prove '' @
     ''application-level success or compromise.''"

primrec build_deterministic_summary :: "IncidentFacts \<Rightarrow> string" where
  "build_deterministic_summary (ScanProbe facts) = build_scan_probe_summary facts"
| "build_deterministic_summary (FirewallExposure facts) = build_exposure_summary facts"
| "build_deterministic_summary (SequenceIncident facts) = build_sequence_summary facts"
| "build_deterministic_summary (GenericIncident incident_type) =
     ''Deterministic incident of type '' @ incident_type @ ''.''"

section \<open>Facts about the facts\<close>

lemma classify_simps:
  "ic_is_sequence (classify_incident c vs) \<longleftrightarrow>
     (\<exists>t \<in> insert (i_incident_type (tc_incident c)) (sv_signal_type ` set vs). t \<in> set SEQUENCE_SIGNAL_TYPES)"
  "ic_is_exposure_policy (classify_incident c vs) \<longleftrightarrow>
     (\<exists>f \<in> insert (i_incident_family (tc_incident c)) (sv_signal_family ` set vs). f \<in> set EXPOSURE_POLICY_FAMILIES)"
  "ic_is_scan_probe (classify_incident c vs) \<longleftrightarrow>
     (\<exists>f \<in> insert (i_incident_family (tc_incident c)) (sv_signal_family ` set vs). f \<in> set SCAN_PROBE_FAMILIES)"
  by (auto simp: classify_incident_def Let_def list_ex_iff filter_empty_conv)

text \<open>A firewall-only incident has exposure or sequence facts, and those never claim a success.\<close>

lemma firewall_only_facts:
  "is_firewall_only (classify_incident c vs) \<longleftrightarrow>
     (\<exists>f. derive_incident_facts c vs = FirewallExposure f) \<or> (\<exists>f. derive_incident_facts c vs = SequenceIncident f)"
  by (simp add: is_firewall_only_def derive_incident_facts_def Let_def)

lemma exposure_facts_unproven:
  "derive_incident_facts c vs = FirewallExposure f \<Longrightarrow> \<not> fe_application_success_proven f \<and> \<not> fe_compromise_proven f"
  by (auto simp: derive_incident_facts_def derive_exposure_facts_def Let_def split: if_splits)

lemma sequence_facts_unproven:
  "derive_incident_facts c vs = SequenceIncident f \<Longrightarrow> \<not> sq_application_success_proven f \<and> \<not> sq_compromise_proven f"
  by (auto simp: derive_incident_facts_def derive_sequence_facts_def Let_def split: if_splits)

lemma count_if_all: "count_if p xs = length xs \<longleftrightarrow> (\<forall>x \<in> set xs. p x)"
  by (metis count_if_def filter_id_conv length_filter_less less_irrefl)

lemma scan_facts_blocked:
  "derive_incident_facts c vs = ScanProbe f \<Longrightarrow>
     sp_all_attempts_blocked f \<longleftrightarrow> tc_events c \<noteq> [] \<and> (\<forall>e \<in> set (tc_events c). is_blocked e)"
  by (auto simp: derive_incident_facts_def derive_scan_probe_facts_def Let_def count_if_all split: if_splits)

text \<open>C38: the summary that replaces the model's text never overstates: for an exposure, a policy or a
  blocked-then-allowed incident, and for a scan whose every attempt was blocked, it ends with the
  sentence that denies that a connection, authentication or compromise was shown, the one for what was observed,
  whatever the events are.\<close>

theorem summary_never_overstates:
  assumes "is_firewall_only (classify_incident c vs)
    \<or> (\<exists>f. derive_incident_facts c vs = ScanProbe f \<and> sp_all_attempts_blocked f)"
  shows "suffix (case derive_incident_facts c vs of
      ScanProbe f \<Rightarrow> ''; these events do not establish a successful connection or compromise.''
    | FirewallExposure f \<Rightarrow>
        if \<not> fe_policy_allow_observed f
        then '' blocked and no allowed connection observed. This does not establish policy exposure, an application session, or compromise.''
        else if fe_transport_activity_observed f
        then ''This confirms network traffic was observed, but it does not prove successful authentication, exploitation, or compromise.''
        else '' but does not prove an application session, successful authentication, or compromise.''
    | SequenceIncident f \<Rightarrow> ''The allowed event warrants investigation, but the available firewall telemetry does not prove application-level success or compromise.''
    | GenericIncident t \<Rightarrow> ''.'')
    (build_deterministic_summary (derive_incident_facts c vs))"
proof -
  have exposure: "suffix '' blocked and no allowed connection observed. This does not establish policy exposure, an application session, or compromise.''
      (build_exposure_summary f)" if "\<not> fe_policy_allow_observed f" for f
    using that by (simp add: build_exposure_summary_def Let_def) (rule conjI impI suffix_order.refl | rule suffix_ConsI | rule suffix_appendI)+
  have transport: "suffix ''This confirms network traffic was observed, but it does not prove successful authentication, exploitation, or compromise.''
      (build_exposure_summary f)" if "fe_policy_allow_observed f" "fe_transport_activity_observed f" for f
    using that by (simp add: build_exposure_summary_def Let_def) (rule conjI impI suffix_order.refl | rule suffix_ConsI | rule suffix_appendI)+
  have quiet: "suffix '' but does not prove an application session, successful authentication, or compromise.''
      (build_exposure_summary f)" if "fe_policy_allow_observed f" "\<not> fe_transport_activity_observed f" for f
    using that by (simp add: build_exposure_summary_def Let_def) (rule conjI impI suffix_order.refl | rule suffix_ConsI | rule suffix_appendI)+
  have sequence: "suffix ''The allowed event warrants investigation, but the available firewall telemetry does not prove application-level success or compromise.''
      (build_sequence_summary f)" for f
    by (simp add: build_sequence_summary_def) (rule conjI impI suffix_order.refl | rule suffix_ConsI | rule suffix_appendI)+
  have scan: "suffix ''; these events do not establish a successful connection or compromise.'' (build_scan_probe_summary f)"
    if "sp_all_attempts_blocked f" for f
    using that by (simp add: build_scan_probe_summary_def Let_def) (rule conjI impI suffix_order.refl | rule suffix_ConsI | rule suffix_appendI)+
  show ?thesis using assms firewall_only_facts[of c vs] exposure transport quiet sequence scan by fastforce
qed

section \<open>Order independence\<close>

lemma somes_filter: "somes f xs = map (the \<circ> f) (filter (\<lambda>x. f x \<noteq> None) xs)"
  by (simp add: somes_def List.map_filter_def)

lemma somes_same: "mset xs = mset ys \<Longrightarrow> mset (somes f xs) = mset (somes f ys)"
  by (simp add: somes_filter)

lemma sort_uniq_same: "mset xs = mset ys \<Longrightarrow> sort_uniq xs = sort_uniq ys"
  by (rule sort_uniq_cong) (rule mset_eq_setD)

lemma count_if_same: "mset xs = mset ys \<Longrightarrow> count_if p xs = count_if p ys"
  using mset_eq_length[of "filter p xs" "filter p ys"] by (simp add: count_if_def)

lemma sorted_somes_same: "mset xs = mset ys \<Longrightarrow> sort_uniq (somes f xs) = sort_uniq (somes f ys)"
  by (rule sort_uniq_same[OF somes_same])

lemma bounded_ports_same:
  "mset xs = mset ys \<Longrightarrow> bounded_sorted_ports (somes f xs) = bounded_sorted_ports (somes f ys)"
  unfolding bounded_sorted_ports_def by (drule sorted_somes_same[where f = f]) simp

lemma bounded_values_same:
  "mset xs = mset ys \<Longrightarrow> bounded_sorted_values (somes f xs) n = bounded_sorted_values (somes f ys) n"
  unfolding bounded_sorted_values_def by (drule sorted_somes_same[where f = f]) simp

lemma bounded_filter_same:
  "mset xs = mset ys \<Longrightarrow> bounded_sorted_values (filter p (somes f xs)) n = bounded_sorted_values (filter p (somes f ys)) n"
  using sort_uniq_same[of "filter p (somes f xs)" "filter p (somes f ys)"] somes_same[of xs ys f]
  by (simp add: bounded_sorted_values_def)

lemma sum_numeric_same: "mset xs = mset ys \<Longrightarrow> sum_numeric f xs = sum_numeric f ys"
  using somes_same[of xs ys f] by (simp add: sum_numeric_def flip: sum_mset_sum_list)

lemma max_numeric_same: "mset xs = mset ys \<Longrightarrow> max_numeric f xs = max_numeric f ys"
  using mset_eq_setD[OF somes_same, of xs ys f]
  by (cases "somes f xs"; cases "somes f ys") (auto simp: max_numeric_def)

lemma empty_same: "mset xs = mset ys \<Longrightarrow> xs = [] \<longleftrightarrow> ys = []"
  by auto

lemma scan_facts_same:
  assumes "mset es = mset (tc_events c)"
  shows "derive_scan_probe_facts (c\<lparr>tc_events := es, tc_context_events := xs\<rparr>) = derive_scan_probe_facts c"
proof -
  let ?tcp = "filter (\<lambda>e. upper_text (e_protocol e) = ''TCP'')"
  have tcp: "mset (?tcp es) = mset (?tcp (tc_events c))" using assms by simp
  have protocols: "sort_uniq (map py_upper (truthy_values e_protocol es)) = sort_uniq (map py_upper (truthy_values e_protocol (tc_events c)))"
    unfolding truthy_values_def by (rule sort_uniq_same) (simp add: somes_same[OF assms])
  show ?thesis
    unfolding derive_scan_probe_facts_def Let_def
    using assms mset_eq_length[OF assms] mset_eq_length[OF tcp] protocols count_if_same[OF tcp] empty_same[OF tcp]
    by (simp add: count_if_same[OF assms] bounded_ports_same[OF assms] empty_same[OF assms] truthy_values_def)
qed

lemma bidirectional_same:
  "mset es = mset es' \<Longrightarrow> mset xs = mset xs'
    \<Longrightarrow> bidirectional_related_flow_observed es xs = bidirectional_related_flow_observed es' xs'"
  unfolding bidirectional_related_flow_observed_def list_ex_iff by (metis mset_eq_setD)

lemma exposure_facts_same:
  assumes "mset es = mset (tc_events c)" and "mset xs = mset (tc_context_events c)"
  shows "derive_exposure_facts (c\<lparr>tc_events := es, tc_context_events := xs\<rparr>) t = derive_exposure_facts c t"
proof -
  have allowed: "mset (filter is_allowed es) = mset (filter is_allowed (tc_events c))" using assms(1) by simp
  show ?thesis
    unfolding derive_exposure_facts_def Let_def truthy_values_def
    using mset_eq_length[OF assms(1)] mset_eq_length[OF allowed] empty_same[OF allowed] bidirectional_same[OF assms]
    by (simp add: count_if_same[OF assms(1)] count_if_same[OF allowed] bounded_ports_same[OF assms(1)]
        bounded_values_same[OF assms(1)] bounded_filter_same[OF assms(1)] sum_numeric_same[OF assms(1)]
        max_numeric_same[OF assms(1)] sorted_somes_same[OF assms(1)])
qed

text \<open>The facts of an incident do not depend on the order in which its events, its context events
  or its signals are read: the same rows give the same profile, numbers, bounded lists and summary.\<close>

theorem incident_facts_order_independent:
  assumes "mset es = mset (tc_events c)" and "mset xs = mset (tc_context_events c)" and "set vs' = set vs"
  shows "derive_incident_facts (c\<lparr>tc_events := es, tc_context_events := xs\<rparr>) vs' = derive_incident_facts c vs"
proof -
  let ?matched = "\<lambda>vs. sort_uniq (filter (\<lambda>t. t \<in> set SEQUENCE_SIGNAL_TYPES)
      (i_incident_type (tc_incident c) # map sv_signal_type vs))"
  have "?matched vs' = ?matched vs" by (rule sort_uniq_cong) (use assms(3) in auto)
  then have "classify_incident (c\<lparr>tc_events := es, tc_context_events := xs\<rparr>) vs' = classify_incident c vs"
    unfolding classify_incident_def Let_def list_ex_iff using assms(3) by simp
  then show ?thesis
    using exposure_facts_same[OF assms(1,2)] scan_facts_same[OF assms(1), of xs] mset_eq_length[OF assms(1)]
      count_if_same[OF assms(1)]
    by (simp add: derive_incident_facts_def Let_def derive_sequence_facts_def)
qed

section \<open>Witnesses\<close>

definition scan_context :: TriageIncidentContext where
  "scan_context = \<lparr>tc_incident = scanner_incident, tc_events = [blocked_probe, blocked_probe\<lparr>e_event_id := ''ev-2''\<rparr>],
     tc_context_events = []\<rparr>"

definition exposure_context :: TriageIncidentContext where
  "exposure_context = \<lparr>tc_incident = scanner_incident\<lparr>i_incident_family := ''firewall_exposure''\<rparr>,
     tc_events = [blocked_probe\<lparr>e_action := Some ''pass'', e_safe_message_excerpt := ''Pass in on wan'',
       e_parser_metadata := Some [(''interface'', PStr ''wan'')]\<rparr>], tc_context_events = []\<rparr>"

theorem incident_facts_order_independent_witness:
  "derive_incident_facts (scan_context\<lparr>tc_events := rev (tc_events scan_context), tc_context_events := []\<rparr>) []
     = derive_incident_facts scan_context []"
  by (rule incident_facts_order_independent) (simp_all add: scan_context_def)

lemma exposure_context_facts:
  "case derive_incident_facts exposure_context [] of
     FirewallExposure f \<Rightarrow> fe_policy_allow_observed f \<and> \<not> fe_transport_activity_observed f | _ \<Rightarrow> False"
  by code_simp

theorem summary_never_overstates_witness:
  "suffix '' but does not prove an application session, successful authentication, or compromise.''
     (build_deterministic_summary (derive_incident_facts exposure_context []))"
proof -
  have "is_firewall_only (classify_incident exposure_context [])"
    by (simp add: exposure_context_def is_firewall_only_def classify_simps EXPOSURE_POLICY_FAMILIES_def scanner_incident_def)
  from summary_never_overstates[OF disjI1[OF this]] exposure_context_facts show ?thesis
    by (auto split: IncidentFacts.splits if_splits)
qed

end
