(* ===== verification/TriageDisposition.thy ===== *)
theory TriageDisposition
  imports TriageFacts
begin

text \<open>
  The deterministic disposition of an exposure incident, \<open>triage/disposition.py\<close>, and the mapping to
  an ATT&CK context of \<open>triage/attack_context.py\<close>: how strong the observed transport evidence is, and
  the verdict, severity and evidence identifiers that follow. No language model takes part.
\<close>

section \<open>Evidence strength\<close>

datatype EvidenceStrength = SYN_ONLY | SINGLE_PACKET_NON_SYN | MULTI_PACKET_UNIDIRECTIONAL
  | PAYLOAD_BEARING_UNIDIRECTIONAL | BIDIRECTIONAL_TRANSPORT | APPLICATION_EVIDENCE

primrec strength_rank :: "EvidenceStrength \<Rightarrow> nat" where
  "strength_rank SYN_ONLY = 0"
| "strength_rank SINGLE_PACKET_NON_SYN = 1"
| "strength_rank MULTI_PACKET_UNIDIRECTIONAL = 2"
| "strength_rank PAYLOAD_BEARING_UNIDIRECTIONAL = 3"
| "strength_rank BIDIRECTIONAL_TRANSPORT = 4"
| "strength_rank APPLICATION_EVIDENCE = 5"

definition WEAK_STRENGTHS :: "EvidenceStrength list" where
  "WEAK_STRENGTHS = [SYN_ONLY, SINGLE_PACKET_NON_SYN]"

definition TRANSPORT_PROVEN_STRENGTHS :: "EvidenceStrength list" where
  "TRANSPORT_PROVEN_STRENGTHS = [BIDIRECTIONAL_TRANSPORT, APPLICATION_EVIDENCE]"

definition EXPOSURE_INCIDENT_FAMILIES :: "string list" where
  "EXPOSURE_INCIDENT_FAMILIES = [''firewall_exposure'', ''firewall_policy'']"

definition MAX_REPRESENTATIVE_EVIDENCE_IDS :: nat where
  "MAX_REPRESENTATIVE_EVIDENCE_IDS = 5"

definition PAYLOAD_FLAGS :: "string set" where
  "PAYLOAD_FLAGS = {''PSH'', ''URG''}"

definition RESPONSE_FLAGS :: "string set" where
  "RESPONSE_FLAGS = {''ACK'', ''RST'', ''FIN''}"

definition APPLICATION_CATEGORIES :: "string list" where
  "APPLICATION_CATEGORIES = [''application'', ''authentication'', ''web'', ''database'', ''dns'', ''email'']"

definition APPLICATION_PROTOCOLS :: "string list" where
  "APPLICATION_PROTOCOLS = [''HTTP'', ''HTTPS'', ''DNS'', ''SMTP'', ''SSH'', ''RDP'', ''LDAP'', ''SMB'', ''FTP'']"

definition packets_of :: "canonical_event \<Rightarrow> int" where
  "packets_of event = (case e_packets event of Some n \<Rightarrow> if n > 0 then n else 0 | None \<Rightarrow> 0)"

text \<open>\<open>_unique_events\<close>: the first event of each identifier, by identifier.\<close>

definition unique_by_id :: "canonical_event list \<Rightarrow> canonical_event list" where
  "unique_by_id events =
     somes (\<lambda>i. find (\<lambda>e. e_event_id e = i) events) (sort_uniq (map e_event_id events))"

text \<open>The truth value of a Python value.\<close>

definition py_bool :: "pyval \<Rightarrow> bool" where
  "py_bool v = (case v of PNone \<Rightarrow> False | PBool b \<Rightarrow> b | PInt n \<Rightarrow> n \<noteq> 0 | PFloat q \<Rightarrow> q \<noteq> 0
     | PStr s \<Rightarrow> s \<noteq> [] | PList xs \<Rightarrow> xs \<noteq> [] | PDict d \<Rightarrow> d \<noteq> [])"

definition metadata_truthy :: "canonical_event \<Rightarrow> string \<Rightarrow> bool" where
  "metadata_truthy event k = (case metadata_get event k of None \<Rightarrow> False | Some v \<Rightarrow> py_bool v)"

definition optional_text :: "string option \<Rightarrow> string" where
  "optional_text v = (case v of None \<Rightarrow> [] | Some s \<Rightarrow> s)"

definition application_event :: "canonical_event \<Rightarrow> bool" where
  "application_event event =
     (py_lower (py_strip (optional_text (e_event_category event))) \<in> set APPLICATION_CATEGORIES
      \<or> py_upper (py_strip (optional_text (e_protocol event))) \<in> set APPLICATION_PROTOCOLS
      \<or> metadata_truthy event ''application_protocol'' \<or> metadata_truthy event ''application_evidence'')"

definition has_application_evidence :: "canonical_event list \<Rightarrow> bool" where
  "has_application_evidence events = list_ex application_event events"

definition has_payload_evidence :: "canonical_event list \<Rightarrow> bool" where
  "has_payload_evidence events = list_ex (\<lambda>e. event_tcp_flag_tokens e \<inter> PAYLOAD_FLAGS \<noteq> {}) events"

definition answered_handshake :: "canonical_event \<Rightarrow> bool" where
  "answered_handshake event = (''SYN'' \<in> event_tcp_flag_tokens event \<and> event_tcp_flag_tokens event \<inter> RESPONSE_FLAGS \<noteq> {})"

fun some_related_pair :: "canonical_event list \<Rightarrow> bool" where
  "some_related_pair [] = False"
| "some_related_pair (e # es) = (list_ex (events_are_bidirectionally_related e) es \<or> some_related_pair es)"

definition has_bidirectional_evidence :: "canonical_event list \<Rightarrow> bool" where
  "has_bidirectional_evidence events = (list_ex answered_handshake events \<or> some_related_pair events)"

definition classify_evidence_strength :: "canonical_event list \<Rightarrow> EvidenceStrength" where
  "classify_evidence_strength events =
     (let unique = unique_by_id events in
      if unique = [] then SYN_ONLY
      else if has_application_evidence unique then APPLICATION_EVIDENCE
      else if has_bidirectional_evidence unique then BIDIRECTIONAL_TRANSPORT
      else if has_payload_evidence unique then PAYLOAD_BEARING_UNIDIRECTIONAL
      else (let total_packets = sum_list (map packets_of unique);
                effective_packets = (if total_packets \<noteq> 0 then total_packets else int (length unique))
            in if effective_packets > 1 then MULTI_PACKET_UNIDIRECTIONAL
               else if event_tcp_flag_tokens (hd unique) = {''SYN''} then SYN_ONLY
               else SINGLE_PACKET_NON_SYN))"

section \<open>Disposition\<close>

record ExposureDisposition =
  x_incident_id :: string
  x_verdict :: string
  x_severity :: string
  x_detection_confidence :: rat
  x_evidence_strength :: EvidenceStrength
  x_allowed_event_count :: nat
  x_blocked_event_count :: nat
  x_unique_event_count :: nat
  x_packet_count :: int
  x_byte_count :: int
  x_max_duration_ms :: int
  x_transport_direction :: string
  x_nat_observed :: bool
  x_nat_type :: "string option"
  x_service :: "string option"
  x_service_sensitivity :: string
  x_effective_destination_ip :: "string option"
  x_effective_destination_port :: "int option"
  x_representative_evidence_ids :: "string list"
  x_review_reason :: "string option"

definition service_sensitivity :: "int option \<Rightarrow> string" where
  "service_sensitivity port =
     (if is_critical_management_port port then ''critical_management''
      else if sensitive_service_for_port port \<noteq> None then ''sensitive_remote_service'' else ''other'')"

definition transport_direction :: "canonical_event list \<Rightarrow> EvidenceStrength \<Rightarrow> string" where
  "transport_direction events strength =
     (if strength \<in> set TRANSPORT_PROVEN_STRENGTHS then ''bidirectional_observed''
      else if strength = PAYLOAD_BEARING_UNIDIRECTIONAL then ''inbound_only_payload_bearing''
      else if list_ex (\<lambda>e. packets_of e > 1) events then ''outbound_only_multi_packet''
      else ''outbound_only_single_packet'')"

definition severity_for :: "string \<Rightarrow> EvidenceStrength \<Rightarrow> bool \<Rightarrow> string" where
  "severity_for sensitivity strength dnat_exposure =
     (let severity =
        (if sensitivity = ''critical_management''
         then if strength \<in> set TRANSPORT_PROVEN_STRENGTHS then ''critical'' else ''high''
         else if sensitivity = ''sensitive_remote_service''
         then if strength \<in> set WEAK_STRENGTHS then ''medium'' else ''high''
         else if strength \<in> set WEAK_STRENGTHS then ''medium'' else ''high'')
      in if dnat_exposure \<and> severity \<in> {''informational'', ''low'', ''medium''} then ''high'' else severity)"

definition int_or_zero :: "int option \<Rightarrow> int" where
  "int_or_zero v = (case v of None \<Rightarrow> 0 | Some n \<Rightarrow> n)"

text \<open>The field constraints of the model.\<close>

definition disposition_ok :: "ExposureDisposition \<Rightarrow> bool" where
  "disposition_ok d = (0 \<le> x_detection_confidence d \<and> x_detection_confidence d \<le> 1 \<and> 0 \<le> x_packet_count d
     \<and> 0 \<le> x_byte_count d \<and> 0 \<le> x_max_duration_ms d)"

definition validate_disposition :: "ExposureDisposition \<Rightarrow> string + ExposureDisposition" where
  "validate_disposition d = (if disposition_ok d then Inr d else Inl ''ValidationError'')"

definition representative_ids :: "IncidentBundle \<Rightarrow> canonical_event list \<Rightarrow> string list" where
  "representative_ids incident measured =
     (let evidence_ids = take MAX_REPRESENTATIVE_EVIDENCE_IDS
            (sort_uniq (filter (\<lambda>i. i \<noteq> []) (map ev_event_id (i_evidence incident))))
      in if evidence_ids \<noteq> [] then evidence_ids
         else take MAX_REPRESENTATIVE_EVIDENCE_IDS (sort (map e_event_id measured)))"

text \<open>What the two paths with events have in common: the counts are taken over \<open>events\<close>, and the
  remaining facts over the measured events.\<close>

definition disposition_of :: "IncidentBundle \<Rightarrow> canonical_event list \<Rightarrow> canonical_event list \<Rightarrow> string \<Rightarrow> nat
    \<Rightarrow> ExposureDisposition" where
  "disposition_of incident unique measured severity allowed_count =
     (let strength = classify_evidence_strength measured;
          port = effective_destination_port (hd measured)
      in \<lparr>x_incident_id = i_incident_id incident,
          x_verdict = ''suspicious_activity'',
          x_severity = severity,
          x_detection_confidence = i_confidence incident,
          x_evidence_strength = strength,
          x_allowed_event_count = allowed_count,
          x_blocked_event_count = count_if is_blocked unique,
          x_unique_event_count = length unique,
          x_packet_count = sum_list (map packets_of measured),
          x_byte_count = sum_list (map (\<lambda>e. int_or_zero (e_bytes e)) measured),
          x_max_duration_ms = Max (set (map (\<lambda>e. int_or_zero (e_duration_ms e)) measured)),
          x_transport_direction = transport_direction measured strength,
          x_nat_observed = list_ex has_destination_translation measured,
          x_nat_type = e_nat_type (hd measured),
          x_service = sensitive_service_for_port port,
          x_service_sensitivity = service_sensitivity port,
          x_effective_destination_ip = effective_destination_ip (hd measured),
          x_effective_destination_port = port,
          x_representative_evidence_ids = representative_ids incident measured,
          x_review_reason = None\<rparr>)"

definition publishes_internal :: "canonical_event \<Rightarrow> bool" where
  "publishes_internal event = (has_private_destination_translation event \<or> has_public_to_private_destination_translation event)"

definition derive_exposure_disposition :: "IncidentBundle \<Rightarrow> canonical_event list \<Rightarrow> string + ExposureDisposition" where
  "derive_exposure_disposition incident incident_events =
     (let unique = unique_by_id incident_events;
          allowed_events = filter is_allowed unique;
          measured = (if allowed_events \<noteq> [] then allowed_events else unique)
      in validate_disposition
        (if unique = [] then
           \<lparr>x_incident_id = i_incident_id incident, x_verdict = ''needs_review'', x_severity = i_severity incident,
            x_detection_confidence = i_confidence incident, x_evidence_strength = SYN_ONLY,
            x_allowed_event_count = 0, x_blocked_event_count = 0, x_unique_event_count = 0, x_packet_count = 0,
            x_byte_count = 0, x_max_duration_ms = 0, x_transport_direction = ''unknown'', x_nat_observed = False,
            x_nat_type = None, x_service = None, x_service_sensitivity = ''other'',
            x_effective_destination_ip = None, x_effective_destination_port = None,
            x_representative_evidence_ids = representative_ids incident [],
            x_review_reason = Some ''canonical_events_unavailable''\<rparr>
         else if allowed_events = [] then disposition_of incident unique unique (i_severity incident) 0
         else disposition_of incident unique measured
           (severity_for (service_sensitivity (effective_destination_port (hd measured)))
             (classify_evidence_strength measured) (list_ex publishes_internal measured))
           (length allowed_events)))"

definition is_exposure_incident :: "IncidentBundle \<Rightarrow> bool" where
  "is_exposure_incident incident = (i_incident_family incident \<in> set EXPOSURE_INCIDENT_FAMILIES)"

section \<open>ATT&CK context\<close>

datatype AttackContext = AttackContext (ac_technique: "string option") (ac_tactic: "string option") (ac_kind: string)

definition REMOTE_ACCESS_SERVICES :: "string list" where
  "REMOTE_ACCESS_SERVICES = [''ssh'', ''rdp'', ''telnet'', ''vpn'']"

definition ENUMERATION_FAMILIES :: "string list" where
  "ENUMERATION_FAMILIES = [''network_scanning'', ''service_probing'', ''lateral_movement_candidate'']"

definition unsupported_context :: AttackContext where
  "unsupported_context = AttackContext None None ''unsupported''"

definition derive_attack_context :: "string \<Rightarrow> string option \<Rightarrow> EvidenceStrength option \<Rightarrow> nat \<Rightarrow> nat \<Rightarrow> AttackContext" where
  "derive_attack_context incident_family service strength distinct_port_count distinct_destination_count =
     (if incident_family \<in> set ENUMERATION_FAMILIES \<or> distinct_port_count \<ge> 3 \<or> distinct_destination_count \<ge> 3
      then AttackContext (Some ''T1046'') (Some ''TA0007'') ''behavioral''
      else if service \<in> Some ` set REMOTE_ACCESS_SERVICES
      then AttackContext (Some ''T1133'') (Some ''TA0001'') ''context''
      else unsupported_context)"

section \<open>Unique events\<close>

lemma find_by_id: "find (\<lambda>e. e_event_id e = i) es = Some e \<Longrightarrow> e \<in> set es \<and> e_event_id e = i"
  by (auto simp: find_Some_iff in_set_conv_nth)

lemma unique_by_id_subset: "set (unique_by_id es) \<subseteq> set es"
  by (auto simp: unique_by_id_def set_somes dest: find_by_id)

lemma unique_by_id_ids: "e_event_id ` set (unique_by_id es) = e_event_id ` set es"
proof
  show "e_event_id ` set es \<subseteq> e_event_id ` set (unique_by_id es)"
  proof
    fix i assume i: "i \<in> e_event_id ` set es"
    then obtain e where e: "find (\<lambda>e. e_event_id e = i) es = Some e"
      by (cases "find (\<lambda>e. e_event_id e = i) es") (auto simp: find_None_iff)
    then show "i \<in> e_event_id ` set (unique_by_id es)"
      using i find_by_id[OF e] by (auto simp: unique_by_id_def set_somes image_iff intro!: bexI[of _ i] exI[of _ e])
  qed
qed (use unique_by_id_subset in auto)

lemma unique_by_id_Nil_iff [simp]: "unique_by_id es = [] \<longleftrightarrow> es = []"
  using unique_by_id_ids[of es] by (metis image_is_empty set_empty)

lemma unique_by_id_same:
  assumes "set es' = set es" and "inj_on e_event_id (set es)"
  shows "unique_by_id es' = unique_by_id es"
proof -
  have "find (\<lambda>e. e_event_id e = i) es' = find (\<lambda>e. e_event_id e = i) es" for i
  proof (cases "find (\<lambda>e. e_event_id e = i) es")
    case None
    moreover from None have "find (\<lambda>e. e_event_id e = i) es' = None" using assms(1) by (simp add: find_None_iff)
    ultimately show ?thesis by simp
  next
    case (Some e)
    then obtain e' where e': "find (\<lambda>e. e_event_id e = i) es' = Some e'"
      using assms(1) find_by_id[OF Some] by (cases "find (\<lambda>e. e_event_id e = i) es'") (auto simp: find_None_iff)
    then have "e' = e" using find_by_id[OF Some] find_by_id[OF e'] assms by (auto dest: inj_onD)
    then show ?thesis using Some e' by simp
  qed
  moreover have "sort_uniq (map e_event_id es') = sort_uniq (map e_event_id es)"
    by (rule sort_uniq_cong) (simp add: assms(1))
  ultimately show ?thesis by (simp add: unique_by_id_def)
qed

section \<open>What the disposition rests on\<close>

lemma some_related_pair_iff:
  "some_related_pair es \<longleftrightarrow> (\<exists>i j. i < j \<and> j < length es \<and> events_are_bidirectionally_related (es ! i) (es ! j))"
proof (induction es)
  case (Cons e es)
  have "(\<exists>i j. i < j \<and> j < length (e # es) \<and> events_are_bidirectionally_related ((e # es) ! i) ((e # es) ! j))
      \<longleftrightarrow> (\<exists>j < length es. events_are_bidirectionally_related e (es ! j))
        \<or> (\<exists>i j. i < j \<and> j < length es \<and> events_are_bidirectionally_related (es ! i) (es ! j))"
    (is "?lhs \<longleftrightarrow> ?rhs")
  proof
    assume ?lhs
    then obtain i j where "i < j" "j < Suc (length es)" "events_are_bidirectionally_related ((e # es) ! i) ((e # es) ! j)"
      by auto
    then show ?rhs by (cases i; cases j) auto
  next
    assume ?rhs
    then show ?lhs
    proof
      assume "\<exists>j < length es. events_are_bidirectionally_related e (es ! j)"
      then obtain j where "j < length es" "events_are_bidirectionally_related e (es ! j)" by blast
      then show ?lhs by (intro exI[of _ 0] exI[of _ "Suc j"]) simp
    next
      assume "\<exists>i j. i < j \<and> j < length es \<and> events_are_bidirectionally_related (es ! i) (es ! j)"
      then obtain i j where "i < j" "j < length es" "events_are_bidirectionally_related (es ! i) (es ! j)" by blast
      then show ?lhs by (intro exI[of _ "Suc i"] exI[of _ "Suc j"]) simp
    qed
  qed
  then show ?case using Cons.IH by (simp add: list_ex_length)
qed simp

lemma map_somes:
  "(\<And>x. x \<in> set xs \<Longrightarrow> \<exists>e. f x = Some e \<and> g e = x) \<Longrightarrow> map g (somes f xs) = xs"
proof (induction xs)
  case (Cons x xs)
  obtain e where "f x = Some e" "g e = x" using Cons.prems[of x] by auto
  then show ?case using Cons by (simp add: somes_def)
qed (simp add: somes_def)

lemma unique_ids_sorted: "map e_event_id (unique_by_id es) = sort_uniq (map e_event_id es)"
  unfolding unique_by_id_def
proof (rule map_somes)
  fix i assume "i \<in> set (sort_uniq (map e_event_id es))"
  then obtain e where e: "find (\<lambda>e. e_event_id e = i) es = Some e"
    by (cases "find (\<lambda>e. e_event_id e = i) es") (auto simp: find_None_iff)
  then show "\<exists>e. find (\<lambda>e. e_event_id e = i) es = Some e \<and> e_event_id e = i" using find_by_id by blast
qed

lemma unique_by_id_sorted:
  assumes "sorted_wrt (<) (map e_event_id us)"
  shows "unique_by_id us = us"
proof -
  have ids: "sorted (map e_event_id us)" "distinct (map e_event_id us)"
    using assms by (simp_all add: strict_sorted_iff)
  have "somes (\<lambda>i. find (\<lambda>e. e_event_id e = i) us) (map e_event_id vs) = vs" if "set vs \<subseteq> set us" for vs
    using that
  proof (induction vs)
    case (Cons v vs)
    obtain e where e: "find (\<lambda>e. e_event_id e = e_event_id v) us = Some e"
      using Cons.prems by (cases "find (\<lambda>e. e_event_id e = e_event_id v) us") (auto simp: find_None_iff)
    then have "e = v" using find_by_id[OF e] ids(2) Cons.prems by (auto simp: distinct_map dest: inj_onD)
    then show ?case using Cons e by (simp add: somes_def)
  qed (simp add: somes_def)
  then show ?thesis using ids by (simp add: unique_by_id_def sort_uniq_id)
qed

lemma related_pair_by_id:
  "sorted_wrt (<) (map e_event_id us) \<Longrightarrow> some_related_pair us \<longleftrightarrow>
     (\<exists>e \<in> set us. \<exists>e' \<in> set us. e_event_id e < e_event_id e' \<and> events_are_bidirectionally_related e e')"
proof (induction us)
  case (Cons u us)
  have later: "\<forall>e \<in> set us. e_event_id u < e_event_id e" using Cons.prems by simp
  then have "(\<exists>e \<in> set (u # us). \<exists>e' \<in> set (u # us). e_event_id e < e_event_id e' \<and> events_are_bidirectionally_related e e')
     \<longleftrightarrow> (\<exists>e' \<in> set us. events_are_bidirectionally_related u e')
        \<or> (\<exists>e \<in> set us. \<exists>e' \<in> set us. e_event_id e < e_event_id e' \<and> events_are_bidirectionally_related e e')"
    by (fastforce dest: order.asym)
  then show ?case using Cons by (simp add: list_ex_iff)
qed simp

text \<open>The transport counts as proven by an application fact, a handshake flag, or two distinct events
  that context matching relates, never by duration or packet counts.\<close>

definition transport_proof :: "canonical_event list \<Rightarrow> bool" where
  "transport_proof us = ((\<exists>e \<in> set us. application_event e \<or> answered_handshake e)
     \<or> (\<exists>e \<in> set us. \<exists>e' \<in> set us. e_event_id e < e_event_id e' \<and> events_are_bidirectionally_related e e'))"

lemma proven_transport:
  assumes "sorted_wrt (<) (map e_event_id us)" and "us \<noteq> []"
  shows "classify_evidence_strength us \<in> set TRANSPORT_PROVEN_STRENGTHS \<longleftrightarrow> transport_proof us"
proof -
  have "classify_evidence_strength us \<in> set TRANSPORT_PROVEN_STRENGTHS
      \<longleftrightarrow> has_application_evidence us \<or> has_bidirectional_evidence us"
    using assms(2) by (auto simp: classify_evidence_strength_def unique_by_id_sorted[OF assms(1)] Let_def TRANSPORT_PROVEN_STRENGTHS_def)
  then show ?thesis
    unfolding has_application_evidence_def has_bidirectional_evidence_def list_ex_iff related_pair_by_id[OF assms(1)]
      transport_proof_def by blast
qed

lemma severity_for_cases:
  "severity_for s strength dnat \<in> {''medium'', ''high'', ''critical''}"
  "severity_for s strength dnat = ''critical'' \<longleftrightarrow> s = ''critical_management'' \<and> strength \<in> set TRANSPORT_PROVEN_STRENGTHS"
  "dnat \<Longrightarrow> severity_for s strength dnat \<in> {''high'', ''critical''}"
  by (auto simp: severity_for_def Let_def)

lemma critical_management_iff: "service_sensitivity p = ''critical_management'' \<longleftrightarrow> is_critical_management_port p"
  by (simp add: service_sensitivity_def)

text \<open>The allowed events the disposition measures.\<close>

definition allowed_unique :: "canonical_event list \<Rightarrow> canonical_event list" where
  "allowed_unique es = filter is_allowed (unique_by_id es)"

lemma allowed_unique_sorted: "sorted_wrt (<) (map e_event_id (allowed_unique es))"
proof -
  have "sorted_wrt (<) (map e_event_id (unique_by_id es))"
    unfolding unique_ids_sorted by (simp add: strict_sorted_iff)
  then show ?thesis unfolding allowed_unique_def sorted_wrt_map by (rule sorted_wrt_filter)
qed

lemma length_representative_ids: "length (representative_ids i es) \<le> MAX_REPRESENTATIVE_EVIDENCE_IDS"
  by (simp add: representative_ids_def Let_def)

lemma representative_ids_ne:
  "es \<noteq> [] \<Longrightarrow> representative_ids i es \<noteq> []"
  by (auto simp: representative_ids_def Let_def MAX_REPRESENTATIVE_EVIDENCE_IDS_def)
     (metis length_map length_sort list.size(3) length_0_conv)

lemma disposition_cases:
  assumes "derive_exposure_disposition i es = Inr d"
  obtains (none) "es = []" "x_verdict d = ''needs_review''" "x_severity d = i_severity i"
      "x_representative_evidence_ids d = representative_ids i []"
    | (blocked) "es \<noteq> []" "allowed_unique es = []" "d = disposition_of i (unique_by_id es) (unique_by_id es) (i_severity i) 0"
    | (allowed) "allowed_unique es \<noteq> []" "d = disposition_of i (unique_by_id es) (allowed_unique es)
         (severity_for (service_sensitivity (effective_destination_port (hd (allowed_unique es))))
           (classify_evidence_strength (allowed_unique es)) (list_ex publishes_internal (allowed_unique es)))
         (length (allowed_unique es))"
proof -
  consider "es = []" | "es \<noteq> []" "allowed_unique es = []" | "allowed_unique es \<noteq> []" by blast
  then show ?thesis
  proof cases
    case 1
    then show ?thesis using assms none
      by (auto simp: derive_exposure_disposition_def Let_def validate_disposition_def split: if_splits)
  next
    case 2
    then show ?thesis using assms blocked
      by (auto simp: derive_exposure_disposition_def Let_def validate_disposition_def allowed_unique_def split: if_splits)
  next
    case 3
    then have "es \<noteq> []" by (auto simp: allowed_unique_def unique_by_id_def somes_def)
    with 3 have "d = disposition_of i (unique_by_id es) (allowed_unique es)
         (severity_for (service_sensitivity (effective_destination_port (hd (allowed_unique es))))
           (classify_evidence_strength (allowed_unique es)) (list_ex publishes_internal (allowed_unique es)))
         (length (allowed_unique es))"
      using assms unfolding derive_exposure_disposition_def Let_def validate_disposition_def
      by (auto simp flip: allowed_unique_def split: if_splits)
    with 3 show ?thesis by (rule allowed)
  qed
qed


text \<open>C40: the disposition of a canonical incident is a function of the set of its events: any order, and
  any repetition of an event, disposes it identically.\<close>

theorem exposure_disposition_canonical:
  assumes "set es' = set es" and "inj_on e_event_id (set es)"
  shows "derive_exposure_disposition i es' = derive_exposure_disposition i es"
  using unique_by_id_same[OF assms] by (simp add: derive_exposure_disposition_def)

section \<open>Witnesses\<close>

definition answered_management :: canonical_event where
  "answered_management = (CanonicalLogEvent ''E1'' ''mock'' ''parsed'')
     \<lparr>e_action := Some ''pass'', e_src_ip := Some ''203.0.113.7'', e_dst_ip := Some ''198.51.100.4'',
      e_dst_port := Some 2375, e_protocol := Some ''TCP'', e_tcp_flags := Some ''SYN,ACK''\<rparr>"

definition one_way_management :: canonical_event where
  "one_way_management = answered_management\<lparr>e_event_id := ''E2'', e_tcp_flags := Some ''PSH'', e_packets := Some 40,
     e_duration_ms := Some 90000, e_bytes := Some 5000\<rparr>"

lemma answered_disposed:
  "map_sum id (\<lambda>d. (x_severity d, x_evidence_strength d, x_representative_evidence_ids d))
     (derive_exposure_disposition scanner_incident [one_way_management, answered_management])
   = Inr (''critical'', BIDIRECTIONAL_TRANSPORT, [''E1'', ''E2''])"
  by code_simp

lemma one_way_disposed:
  "map_sum id (\<lambda>d. (x_severity d, x_evidence_strength d)) (derive_exposure_disposition scanner_incident [one_way_management])
   = Inr (''high'', PAYLOAD_BEARING_UNIDIRECTIONAL)"
  by code_simp

text \<open>Context matching also relates two events of one direction: a second record of the same one-way
  payload makes the incident critical, with bidirectional evidence.\<close>

lemma one_way_pair_critical:
  "event_tcp_flag_tokens one_way_management = {''PSH''}"
  "map_sum id (\<lambda>d. (x_severity d, x_evidence_strength d))
     (derive_exposure_disposition scanner_incident [one_way_management, one_way_management\<lparr>e_event_id := ''E3''\<rparr>])
   = Inr (''critical'', BIDIRECTIONAL_TRANSPORT)"
  by code_simp+


theorem exposure_disposition_canonical_witness:
  "derive_exposure_disposition scanner_incident [answered_management, one_way_management, answered_management]
     = derive_exposure_disposition scanner_incident [one_way_management, answered_management]"
  by (rule exposure_disposition_canonical)
     (auto simp: answered_management_def one_way_management_def CanonicalLogEvent_def)

end
