(* ===== verification/TriageView.thy ===== *)
theory TriageView
  imports TriageFacts
begin

text \<open>
  The bounded view of an incident that a language model is shown, \<open>triage/input_builder.py\<close>: which
  signals, events and evidence are selected, in which order, and the input record of
  \<open>triage/models.py\<close> they make. A signal dictionary of the state is a record whose absent keys are
  \<open>None\<close>; the three limits are arguments (settings).
\<close>

definition MAX_SIGNAL_VIEWS :: nat where
  "MAX_SIGNAL_VIEWS = 50"

definition MAX_MATCHED_EVENT_IDS_PER_SIGNAL :: nat where
  "MAX_MATCHED_EVENT_IDS_PER_SIGNAL = 50"

definition MAX_MITRE_PER_SIGNAL :: nat where
  "MAX_MITRE_PER_SIGNAL = 20"

definition MAX_SHORT_FIELD_CHARS :: nat where
  "MAX_SHORT_FIELD_CHARS = 200"

definition MAX_TARGET_ENTITIES :: nat where
  "MAX_TARGET_ENTITIES = 50"

definition generate_evidence_id :: "string \<Rightarrow> string \<Rightarrow> string \<Rightarrow> string \<Rightarrow> string \<Rightarrow> string" where
  "generate_evidence_id incident_id event_id source quote reason =
     take 12 (sha256_hex (py_join ''|'' [incident_id, event_id, source, quote, reason]))"

definition truncate_str :: "string \<Rightarrow> nat \<Rightarrow> string" where
  "truncate_str s max_len = (if length s > max_len then take max_len s @ ''... [TRUNCATED]'' else s)"

definition bounded_optional_str :: "string option \<Rightarrow> string option" where
  "bounded_optional_str v = map_option (\<lambda>s. truncate_str s MAX_SHORT_FIELD_CHARS) v"

section \<open>Events\<close>

record SafeEventView =
  se_event_id :: string
  se_timestamp :: string
  se_src_ip :: "string option"
  se_dst_ip :: "string option"
  se_src_port :: "int option"
  se_dst_port :: "int option"
  se_protocol :: "string option"
  se_action :: "string option"
  se_action_reason :: "string option"
  se_event_type :: "string option"
  se_event_category :: "string option"
  se_event_outcome :: "string option"
  se_tcp_flags :: "string option"
  se_parser_name :: string
  se_source_name :: string
  se_sanitized_message_excerpt :: "string option"
  se_bytes :: "int option"
  se_packets :: "int option"
  se_duration_ms :: "int option"
  se_inbound_interface :: "string option"
  se_outbound_interface :: "string option"
  se_inbound_zone :: "string option"
  se_outbound_zone :: "string option"
  se_nat_type :: "string option"
  se_translated_src_ip :: "string option"
  se_translated_dst_ip :: "string option"
  se_translated_src_port :: "int option"
  se_translated_dst_port :: "int option"
  se_flow_direction :: string

definition timestamp_text :: "timestamp \<Rightarrow> string" where
  "timestamp_text t = (case t of Aware i \<Rightarrow> isoformat i
     | Naive i \<Rightarrow> (let s = isoformat i in take (length s - 6) s))"

definition build_safe_event :: "canonical_event \<Rightarrow> nat \<Rightarrow> SafeEventView" where
  "build_safe_event event max_preview_chars =
     \<lparr>se_event_id = e_event_id event,
      se_timestamp = (case e_timestamp event of None \<Rightarrow> [] | Some t \<Rightarrow> timestamp_text t),
      se_src_ip = e_src_ip event, se_dst_ip = e_dst_ip event,
      se_src_port = e_src_port event, se_dst_port = e_dst_port event,
      se_protocol = e_protocol event, se_action = e_action event, se_action_reason = e_action_reason event,
      se_event_type = e_event_type event, se_event_category = e_event_category event,
      se_event_outcome = e_event_outcome event, se_tcp_flags = e_tcp_flags event,
      se_parser_name = (if e_parser_name event = [] then ''unknown'' else e_parser_name event),
      se_source_name = (case truthy_value (e_source_name event) of None \<Rightarrow> ''unknown'' | Some s \<Rightarrow> s),
      se_sanitized_message_excerpt = (if e_safe_message_excerpt event = [] then None
        else Some (truncate_str (e_safe_message_excerpt event) max_preview_chars)),
      se_bytes = e_bytes event, se_packets = e_packets event, se_duration_ms = e_duration_ms event,
      se_inbound_interface = bounded_optional_str (e_inbound_interface event),
      se_outbound_interface = bounded_optional_str (e_outbound_interface event),
      se_inbound_zone = bounded_optional_str (e_inbound_zone event),
      se_outbound_zone = bounded_optional_str (e_outbound_zone event),
      se_nat_type = bounded_optional_str (e_nat_type event),
      se_translated_src_ip = e_translated_src_ip event, se_translated_dst_ip = e_translated_dst_ip event,
      se_translated_src_port = e_translated_src_port event, se_translated_dst_port = e_translated_dst_port event,
      se_flow_direction = derive_flow_direction event\<rparr>"

text \<open>\<open>sorted(events, key=lambda e: (e.timestamp or "", e.event_id))\<close>: comparing an instant with the
  empty text, or an aware with a naive one, is a \<open>TypeError\<close>.\<close>

definition same_clock :: "canonical_event \<Rightarrow> canonical_event \<Rightarrow> bool" where
  "same_clock a b = (map_option is_aware (e_timestamp a) = map_option is_aware (e_timestamp b))"

definition view_order :: "canonical_event \<Rightarrow> int \<times> string" where
  "view_order event = (case e_timestamp event of None \<Rightarrow> 0 | Some t \<Rightarrow> micros (instant t), e_event_id event)"

definition sort_view :: "canonical_event list \<Rightarrow> string + canonical_event list" where
  "sort_view events = (if list_all (same_clock (hd events)) events then Inr (sort_key view_order events) else Inl ''TypeError'')"

section \<open>Bounded selection\<close>

text \<open>The loop \<open>if len(chosen) >= limit: break\<close> over a pool, adding to what is already chosen.\<close>

fun fill_chosen :: "nat \<Rightarrow> 'k list \<Rightarrow> 'k list \<Rightarrow> 'k list" where
  "fill_chosen limit [] chosen = chosen"
| "fill_chosen limit (k # ks) chosen =
     (if length chosen \<ge> limit then chosen else fill_chosen limit ks (List.insert k chosen))"

text \<open>The two reserved places, the fill, and the pool filtered by what was chosen.\<close>

definition reserve :: "('a \<Rightarrow> 'k) \<Rightarrow> nat \<Rightarrow> 'a list \<Rightarrow> 'a list \<Rightarrow> 'k list" where
  "reserve key limit current historical =
     (let first = (case current of [] \<Rightarrow> [] | c # _ \<Rightarrow> [key c])
      in case historical of [] \<Rightarrow> first
         | h # _ \<Rightarrow> if length first < limit then List.insert (key h) first else first)"

definition select_bounded :: "('a \<Rightarrow> 'k) \<Rightarrow> nat \<Rightarrow> 'a list \<Rightarrow> 'a list \<Rightarrow> 'a list \<Rightarrow> 'a list" where
  "select_bounded key limit current historical pool =
     (let chosen = fill_chosen limit (map key pool) (reserve key limit current historical)
      in take limit (filter (\<lambda>x. key x \<in> set chosen) pool))"

definition select_events :: "canonical_event list \<Rightarrow> canonical_event list \<Rightarrow> string list \<Rightarrow> nat \<Rightarrow> canonical_event list" where
  "select_events sorted_events sorted_context preferred_event_ids max_context_events =
     (let pool = sorted_events @ sorted_context
      in select_bounded e_event_id max_context_events
           (filter (\<lambda>e. e_event_id e \<in> set preferred_event_ids) sorted_events)
           (filter (\<lambda>e. e_event_id e \<notin> set preferred_event_ids) pool) pool)"

record EvidenceCandidate =
  ec_evidence_id :: string
  ec_event_id :: string
  ec_quote :: string
  ec_reason :: string
  ec_source :: string
  ec_canonical_fields :: pydict
  ec_vendor_original_fields :: pydict
  ec_correlation_context :: pydict

definition select_evidence :: "EvidenceCandidate list \<Rightarrow> string list \<Rightarrow> nat \<Rightarrow> EvidenceCandidate list" where
  "select_evidence candidates preferred_event_ids max_candidate_evidence =
     select_bounded ec_evidence_id max_candidate_evidence
       (filter (\<lambda>c. ec_event_id c \<in> set preferred_event_ids) candidates)
       (filter (\<lambda>c. ec_event_id c \<notin> set preferred_event_ids) candidates) candidates"

section \<open>Signals\<close>

record DetectedSignal =
  ds_signal_id :: "string option"
  ds_rule_id :: "string option"
  ds_rule_name :: "string option"
  ds_signal_type :: "string option"
  ds_signal_family :: "string option"
  ds_severity :: "string option"
  ds_confidence_score :: "rat option"
  ds_matched_event_ids :: "string list option"
  ds_mitre_techniques :: "string list option"

definition or_default :: "string \<Rightarrow> string option \<Rightarrow> string" where
  "or_default fallback v = (case v of None \<Rightarrow> fallback | Some s \<Rightarrow> s)"

definition list_or_empty :: "'a list option \<Rightarrow> 'a list" where
  "list_or_empty v = (case v of None \<Rightarrow> [] | Some xs \<Rightarrow> xs)"

definition short_text :: "string option \<Rightarrow> string" where
  "short_text v = truncate_str (or_default ''unknown'' v) MAX_SHORT_FIELD_CHARS"

definition build_single_signal_view :: "string \<Rightarrow> DetectedSignal \<Rightarrow> string list \<Rightarrow> TriageSignalView" where
  "build_single_signal_view signal_id sig incident_event_ids =
     \<lparr>sv_signal_id = signal_id,
      sv_rule_id = short_text (ds_rule_id sig),
      sv_rule_name = short_text (ds_rule_name sig),
      sv_signal_type = short_text (ds_signal_type sig),
      sv_signal_family = short_text (ds_signal_family sig),
      sv_severity = or_default ''none'' (ds_severity sig),
      sv_confidence = (case ds_confidence_score sig of None \<Rightarrow> 0 | Some q \<Rightarrow> q),
      sv_matched_event_ids = take MAX_MATCHED_EVENT_IDS_PER_SIGNAL
        (sort_uniq (filter (\<lambda>i. i \<in> set incident_event_ids) (list_or_empty (ds_matched_event_ids sig)))),
      sv_mitre_techniques = take MAX_MITRE_PER_SIGNAL (sort_uniq (list_or_empty (ds_mitre_techniques sig)))\<rparr>"

text \<open>\<open>by_id\<close>: the first signal of each non-empty identifier.\<close>

fun signals_by_id :: "DetectedSignal list \<Rightarrow> (string \<times> DetectedSignal) list \<Rightarrow> (string \<times> DetectedSignal) list" where
  "signals_by_id [] d = d"
| "signals_by_id (s # ss) d = (case ds_signal_id s of
     None \<Rightarrow> signals_by_id ss d
   | Some i \<Rightarrow> if i \<noteq> [] \<and> i \<notin> set (map fst d) then signals_by_id ss (d @ [(i, s)]) else signals_by_id ss d)"

definition add_known :: "(string \<times> DetectedSignal) list \<Rightarrow> string option \<Rightarrow> string list \<Rightarrow> string list" where
  "add_known by_id sid order = (case sid of
     None \<Rightarrow> order
   | Some i \<Rightarrow> if i \<noteq> [] \<and> i \<in> set (map fst by_id) \<and> i \<notin> set order then order @ [i] else order)"

text \<open>The identifier that stands for the signals with a property: the lowest one.\<close>

definition lowest :: "(string \<times> DetectedSignal \<Rightarrow> bool) \<Rightarrow> (string \<times> DetectedSignal) list \<Rightarrow> string option" where
  "lowest p by_id = (case sort (map fst (filter p by_id)) of [] \<Rightarrow> None | i # _ \<Rightarrow> Some i)"

definition SAFETY_CRITICAL_FAMILIES :: "string list" where
  "SAFETY_CRITICAL_FAMILIES = SCAN_PROBE_FAMILIES @ EXPOSURE_POLICY_FAMILIES"

fun fill_order :: "(string \<times> DetectedSignal) list \<Rightarrow> string list \<Rightarrow> string list \<Rightarrow> string list" where
  "fill_order by_id [] order = order"
| "fill_order by_id (i # ids) order =
     (if length order \<ge> MAX_SIGNAL_VIEWS then order else fill_order by_id ids (add_known by_id (Some i) order))"

definition representatives :: "(string \<times> DetectedSignal) list \<Rightarrow> string list \<Rightarrow> string option \<Rightarrow> string option list" where
  "representatives by_id preferred_signal_ids primary_signal_id =
     [primary_signal_id, lowest (\<lambda>(i, s). i \<in> set preferred_signal_ids) by_id]
     @ map (\<lambda>family. lowest (\<lambda>(i, s). ds_signal_family s = Some family) by_id) (sort SAFETY_CRITICAL_FAMILIES)
     @ map (\<lambda>stype. lowest (\<lambda>(i, s). ds_signal_type s = Some stype) by_id) (sort SEQUENCE_SIGNAL_TYPES)"

definition select_signal_ids :: "(string \<times> DetectedSignal) list \<Rightarrow> string list \<Rightarrow> string option \<Rightarrow> string list" where
  "select_signal_ids by_id preferred_signal_ids primary_signal_id =
     take MAX_SIGNAL_VIEWS (fill_order by_id (sort (map fst by_id))
       (fold (add_known by_id) (representatives by_id preferred_signal_ids primary_signal_id) []))"

definition select_signal_views :: "DetectedSignal list \<Rightarrow> string list \<Rightarrow> string list \<Rightarrow> string option \<Rightarrow> TriageSignalView list" where
  "select_signal_views detected_signals incident_event_ids preferred_signal_ids primary_signal_id =
     (let by_id = signals_by_id detected_signals []
      in sort_key sv_signal_id
           (somes (\<lambda>i. map_option (\<lambda>s. build_single_signal_view i s incident_event_ids) (map_of by_id i))
             (select_signal_ids by_id preferred_signal_ids primary_signal_id)))"

section \<open>The input\<close>

text \<open>\<open>facts.model_dump()\<close>.\<close>

abbreviation "strs xs \<equiv> PList (map PStr xs)"
abbreviation "ints xs \<equiv> PList (map PInt xs)"

primrec facts_dump :: "IncidentFacts \<Rightarrow> pydict" where
  "facts_dump (ScanProbe f) =
     [(''kind'', PStr ''scan_probe''), (''incident_type'', PStr (sp_incident_type f)),
      (''primary_entity'', PStr (sp_primary_entity f)), (''event_count'', PInt (sp_event_count f)),
      (''distinct_target_count'', PInt (sp_distinct_target_count f)),
      (''destination_ports'', ints (sp_destination_ports f)), (''protocols'', strs (sp_protocols f)),
      (''blocked_event_count'', PInt (int (sp_blocked_event_count f))),
      (''all_attempts_blocked'', PBool (sp_all_attempts_blocked f)),
      (''syn_event_count'', PInt (int (sp_syn_event_count f))), (''syn_only'', PBool (sp_syn_only f)),
      (''first_seen'', PStr (sp_first_seen f)), (''last_seen'', PStr (sp_last_seen f))]"
| "facts_dump (FirewallExposure f) =
     [(''kind'', PStr ''firewall_exposure''), (''incident_type'', PStr (fe_incident_type f)),
      (''incident_primary_entity'', PStr (fe_incident_primary_entity f)),
      (''service'', case fe_service f of None \<Rightarrow> PNone | Some s \<Rightarrow> PStr s),
      (''total_event_count'', PInt (int (fe_total_event_count f))),
      (''allowed_event_count'', PInt (int (fe_allowed_event_count f))),
      (''blocked_event_count'', PInt (int (fe_blocked_event_count f))),
      (''source_ips'', strs (fe_source_ips f)), (''external_source_ips'', strs (fe_external_source_ips f)),
      (''original_destination_ips'', strs (fe_original_destination_ips f)),
      (''original_destination_ports'', ints (fe_original_destination_ports f)),
      (''effective_destination_ips'', strs (fe_effective_destination_ips f)),
      (''effective_destination_ports'', ints (fe_effective_destination_ports f)),
      (''translated_destination_ips'', strs (fe_translated_destination_ips f)),
      (''translated_destination_ports'', ints (fe_translated_destination_ports f)),
      (''inbound_zones'', strs (fe_inbound_zones f)), (''outbound_zones'', strs (fe_outbound_zones f)),
      (''nat_event_count'', PInt (int (fe_nat_event_count f))), (''total_packets'', PInt (fe_total_packets f)),
      (''total_bytes'', PInt (fe_total_bytes f)), (''max_duration_ms'', PInt (fe_max_duration_ms f)),
      (''single_packet_allowed_event_count'', PInt (int (fe_single_packet_allowed_event_count f))),
      (''multi_packet_allowed_event_count'', PInt (int (fe_multi_packet_allowed_event_count f))),
      (''bidirectional_related_flow_observed'', PBool (fe_bidirectional_related_flow_observed f)),
      (''policy_allow_observed'', PBool (fe_policy_allow_observed f)),
      (''transport_activity_observed'', PBool (fe_transport_activity_observed f)),
      (''application_success_proven'', PBool (fe_application_success_proven f)),
      (''compromise_proven'', PBool (fe_compromise_proven f)),
      (''first_seen'', PStr (fe_first_seen f)), (''last_seen'', PStr (fe_last_seen f))]"
| "facts_dump (SequenceIncident f) =
     [(''kind'', PStr ''sequence''), (''incident_type'', PStr (sq_incident_type f)),
      (''primary_entity'', PStr (sq_primary_entity f)),
      (''sequence_signal_types'', strs (sq_sequence_signal_types f)),
      (''event_count'', PInt (int (sq_event_count f))),
      (''blocked_event_count'', PInt (int (sq_blocked_event_count f))),
      (''allowed_event_count'', PInt (int (sq_allowed_event_count f))),
      (''application_success_proven'', PBool (sq_application_success_proven f)),
      (''compromise_proven'', PBool (sq_compromise_proven f)),
      (''first_seen'', PStr (sq_first_seen f)), (''last_seen'', PStr (sq_last_seen f))]"
| "facts_dump (GenericIncident t) = [(''kind'', PStr ''generic''), (''incident_type'', PStr t)]"

definition dict_update :: "pydict \<Rightarrow> pydict \<Rightarrow> pydict" where
  "dict_update d updates = fold (\<lambda>(k, v). AList.update k v) updates d"

record TriageInput =
  ti_incident_id :: string
  ti_incident_type :: string
  ti_incident_family :: string
  ti_title :: string
  ti_deterministic_severity :: string
  ti_deterministic_confidence :: rat
  ti_first_seen :: string
  ti_last_seen :: string
  ti_primary_entity :: string
  ti_target_entities :: "string list"
  ti_deterministic_metrics :: pydict
  ti_signal_summaries :: "string list"
  ti_signal_views :: "TriageSignalView list"
  ti_candidate_evidence :: "EvidenceCandidate list"
  ti_limited_context_events :: "SafeEventView list"
  ti_allowed_mitre_candidates :: "string list"
  ti_parser_warnings :: "string list"
  ti_data_quality_warnings :: "string list"

record TriageLimits =
  tl_max_event_preview_chars :: nat
  tl_max_context_events :: nat
  tl_max_candidate_evidence :: nat

text \<open>A candidate item of the state; no caller gives it the vendor fields.\<close>

definition evidence_candidate :: "string \<Rightarrow> DetectionEvidence \<Rightarrow> EvidenceCandidate" where
  "evidence_candidate incident_id ev =
     \<lparr>ec_evidence_id = generate_evidence_id incident_id (ev_event_id ev) (ev_source ev) (ev_quote ev) (ev_reason ev),
      ec_event_id = ev_event_id ev, ec_quote = ev_quote ev, ec_reason = ev_reason ev, ec_source = ev_source ev,
      ec_canonical_fields = ev_original_fields ev, ec_vendor_original_fields = [],
      ec_correlation_context = ev_correlation_context ev\<rparr>"

text \<open>\<open>float_text\<close> is how the language writes a float.\<close>

definition signal_summary :: "(rat \<Rightarrow> string) \<Rightarrow> TriageSignalView \<Rightarrow> string" where
  "signal_summary float_text sv = ''['' @ sv_rule_name sv @ ''] '' @ sv_signal_type sv @ '' ('' @ sv_signal_family sv @
     '') - Severity: '' @ sv_severity sv @ '' Confidence: '' @ float_text (sv_confidence sv)"

definition build_triage_input :: "(rat \<Rightarrow> string) \<Rightarrow> TriageLimits \<Rightarrow> TriageIncidentContext \<Rightarrow> DetectedSignal list
    \<Rightarrow> DetectionEvidence list \<Rightarrow> string list \<Rightarrow> string list \<Rightarrow> string option \<Rightarrow> string + TriageInput" where
  "build_triage_input float_text limits context detected_signals candidate_evidence preferred_signal_ids
       preferred_event_ids primary_signal_id =
     bind_err (sort_view (tc_events context)) (\<lambda>sorted_events.
     bind_err (sort_view (tc_context_events context)) (\<lambda>sorted_context.
       let incident = tc_incident context;
           selected_events = select_events sorted_events sorted_context preferred_event_ids (tl_max_context_events limits);
           signal_views = select_signal_views detected_signals (i_event_ids incident) preferred_signal_ids primary_signal_id;
           candidates = sort_key ec_evidence_id (map (evidence_candidate (i_incident_id incident)) candidate_evidence);
           metrics = dict_update (i_metrics incident) (facts_dump (derive_incident_facts context signal_views))
       in Inr \<lparr>ti_incident_id = i_incident_id incident,
           ti_incident_type = i_incident_type incident,
           ti_incident_family = i_incident_family incident,
           ti_title = i_title incident,
           ti_deterministic_severity = i_severity incident,
           ti_deterministic_confidence = i_confidence incident,
           ti_first_seen = isoformat (i_first_seen incident),
           ti_last_seen = isoformat (i_last_seen incident),
           ti_primary_entity = i_primary_entity incident,
           ti_target_entities = take MAX_TARGET_ENTITIES (sort_uniq (i_target_entities incident)),
           ti_deterministic_metrics =
             AList.update ''target_entity_count'' (PInt (int (length (i_target_entities incident)))) metrics,
           ti_signal_summaries = sort_uniq (map (signal_summary float_text) signal_views),
           ti_signal_views = signal_views,
           ti_candidate_evidence = select_evidence candidates preferred_event_ids (tl_max_candidate_evidence limits),
           ti_limited_context_events = map (\<lambda>e. build_safe_event e (tl_max_event_preview_chars limits)) selected_events,
           ti_allowed_mitre_candidates = sort_uniq (somes (\<lambda>s. case list_or_empty (ds_mitre_techniques s) of
               [] \<Rightarrow> None | t # _ \<Rightarrow> Some t) detected_signals),
           ti_parser_warnings = sort_uniq (concat (map e_parse_warnings (tc_events context @ tc_context_events context))),
           ti_data_quality_warnings = []\<rparr>))"

section \<open>Facts about the selection\<close>

lemma fill_chosen_mono: "set chosen \<subseteq> set (fill_chosen limit ks chosen)"
proof (induction limit ks chosen rule: fill_chosen.induct)
  case (2 limit k ks chosen)
  then show ?case by (cases "length chosen \<ge> limit") auto
qed simp

lemma fill_chosen_length: "length (fill_chosen limit ks chosen) \<le> max limit (length chosen)"
proof (induction limit ks chosen rule: fill_chosen.induct)
  case (2 limit k ks chosen)
  show ?case
  proof (cases "length chosen \<ge> limit")
    case False
    have "length (List.insert k chosen) \<le> Suc (length chosen)" by (simp add: List.insert_def)
    then have "max limit (length (List.insert k chosen)) = limit" using False by (intro max.absorb1) simp
    moreover have "length (fill_chosen limit (k # ks) chosen) \<le> max limit (length (List.insert k chosen))"
      using "2.IH"[OF False] False by (simp only: fill_chosen.simps if_False)
    ultimately show ?thesis by (metis max.cobounded1 order_trans)
  qed simp
qed simp

lemma filter_keys_length:
  "distinct (map key pool) \<Longrightarrow> length (filter (\<lambda>x. key x \<in> set chosen) pool) \<le> length chosen"
proof -
  assume d: "distinct (map key pool)"
  have "length (filter (\<lambda>x. key x \<in> set chosen) pool) = card (key ` set (filter (\<lambda>x. key x \<in> set chosen) pool))"
    using d by (metis distinct_card distinct_map_filter length_map set_map)
  also have "\<dots> \<le> card (set chosen)" by (rule card_mono) auto
  also have "\<dots> \<le> length chosen" by (rule card_length)
  finally show ?thesis .
qed

lemma reserve_facts:
  "2 \<le> limit \<Longrightarrow> length (reserve key limit current historical) \<le> limit"
  "current \<noteq> [] \<Longrightarrow> key (hd current) \<in> set (reserve key limit current historical)"
  "2 \<le> limit \<Longrightarrow> historical \<noteq> [] \<Longrightarrow> key (hd historical) \<in> set (reserve key limit current historical)"
  by (auto simp: reserve_def Let_def List.insert_def split: list.splits)

lemma select_bounded_facts:
  assumes "distinct (map key pool)" and "2 \<le> limit" and "set current \<subseteq> set pool" and "set historical \<subseteq> set pool"
  shows "length (select_bounded key limit current historical pool) \<le> limit"
    and "subseq (select_bounded key limit current historical pool) pool"
    and "current \<noteq> [] \<Longrightarrow> hd current \<in> set (select_bounded key limit current historical pool)"
    and "historical \<noteq> [] \<Longrightarrow> hd historical \<in> set (select_bounded key limit current historical pool)"
proof -
  let ?chosen = "fill_chosen limit (map key pool) (reserve key limit current historical)"
  have "length ?chosen \<le> limit" using fill_chosen_length reserve_facts(1)[OF assms(2)] by (metis max.absorb1)
  then have "length (filter (\<lambda>x. key x \<in> set ?chosen) pool) \<le> limit"
    using filter_keys_length[OF assms(1), of ?chosen] by linarith
  then have eq: "select_bounded key limit current historical pool = filter (\<lambda>x. key x \<in> set ?chosen) pool"
    by (simp add: select_bounded_def)
  show "length (select_bounded key limit current historical pool) \<le> limit" by (simp add: select_bounded_def)
  show "subseq (select_bounded key limit current historical pool) pool" unfolding eq by (rule subseq_filter_left)
  have reserved: "set (reserve key limit current historical) \<subseteq> set ?chosen" by (rule fill_chosen_mono)
  show "hd current \<in> set (select_bounded key limit current historical pool)" if "current \<noteq> []"
  proof -
    have "hd current \<in> set pool" using that assms(3) by auto
    moreover have "key (hd current) \<in> set ?chosen" using reserve_facts(2)[OF that] reserved by blast
    ultimately show ?thesis unfolding eq by simp
  qed
  show "hd historical \<in> set (select_bounded key limit current historical pool)" if "historical \<noteq> []"
  proof -
    have "hd historical \<in> set pool" using that assms(4) by auto
    moreover have "key (hd historical) \<in> set ?chosen" using reserve_facts(3)[OF assms(2) that] reserved by blast
    ultimately show ?thesis unfolding eq by simp
  qed
qed

lemma signals_by_id_facts:
  assumes "distinct (map fst d)" and "\<forall>(i, s) \<in> set d. i \<noteq> []"
  shows "distinct (map fst (signals_by_id ss d)) \<and> (\<forall>(i, s) \<in> set (signals_by_id ss d). i \<noteq> [])"
  using assms by (induction ss d rule: signals_by_id.induct) (auto split: option.splits)

lemma add_known_facts:
  "set order \<subseteq> set (add_known by_id sid order)"
  "length (add_known by_id sid order) \<le> Suc (length order)"
  "set order \<subseteq> set (map fst by_id) \<Longrightarrow> set (add_known by_id sid order) \<subseteq> set (map fst by_id)"
  "distinct order \<Longrightarrow> distinct (add_known by_id sid order)"
  by (auto simp: add_known_def split: option.splits)

lemma add_known_member: "i \<noteq> [] \<Longrightarrow> i \<in> set (map fst by_id) \<Longrightarrow> i \<in> set (add_known by_id (Some i) order)"
  by (auto simp: add_known_def)

lemma fold_add_known:
  "set order \<subseteq> set (fold (add_known by_id) sids order)"
  "length (fold (add_known by_id) sids order) \<le> length sids + length order"
  "set order \<subseteq> set (map fst by_id) \<Longrightarrow> set (fold (add_known by_id) sids order) \<subseteq> set (map fst by_id)"
  "distinct order \<Longrightarrow> distinct (fold (add_known by_id) sids order)"
proof (induction sids arbitrary: order)
  case (Cons sid sids)
  {
    case 1
    show ?case using Cons.IH(1)[of "add_known by_id sid order"] add_known_facts(1)[of order by_id sid] by auto
  next
    case 2
    show ?case using Cons.IH(2)[of "add_known by_id sid order"] add_known_facts(2)[of by_id sid order] by simp
  next
    case 3
    then show ?case using Cons.IH(3)[OF add_known_facts(3)] by (simp del: set_map)
  next
    case 4
    then show ?case using Cons.IH(4)[OF add_known_facts(4)] by simp
  }
qed simp_all

lemma fold_add_known_member:
  assumes "Some i \<in> set sids" and "i \<noteq> []" and "i \<in> set (map fst by_id)"
  shows "i \<in> set (fold (add_known by_id) sids order)"
  using assms(1)
proof (induction sids arbitrary: order)
  case (Cons sid sids)
  show ?case
  proof (cases "sid = Some i")
    case True
    then show ?thesis
      using add_known_member[OF assms(2,3), of order] fold_add_known(1)[of "add_known by_id sid order" by_id sids] by auto
  next
    case False
    then show ?thesis using Cons by simp
  qed
qed simp

lemma fill_order_facts:
  assumes "length order \<le> MAX_SIGNAL_VIEWS"
  shows "set order \<subseteq> set (fill_order by_id ids order) \<and> length (fill_order by_id ids order) \<le> MAX_SIGNAL_VIEWS
    \<and> (set order \<subseteq> set (map fst by_id) \<longrightarrow> set (fill_order by_id ids order) \<subseteq> set (map fst by_id))
    \<and> (distinct order \<longrightarrow> distinct (fill_order by_id ids order))"
  using assms
proof (induction by_id ids order rule: fill_order.induct)
  case (2 by_id i ids order)
  show ?case
  proof (cases "length order \<ge> MAX_SIGNAL_VIEWS")
    case True
    then show ?thesis using 2(2) by simp
  next
    case False
    have "length (add_known by_id (Some i) order) \<le> MAX_SIGNAL_VIEWS"
      using False add_known_facts(2)[of by_id "Some i" order] by linarith
    from "2.IH"[OF False this] show ?thesis
      using False add_known_facts(1)[of order by_id "Some i"] add_known_facts(3,4)[where by_id = by_id and sid = "Some i" and order = order]
      by (simp del: set_map) blast
  qed
qed simp

lemma length_representatives: "length (representatives by_id preferred primary) = 9"
  by (simp add: representatives_def SAFETY_CRITICAL_FAMILIES_def SCAN_PROBE_FAMILIES_def EXPOSURE_POLICY_FAMILIES_def
    SEQUENCE_SIGNAL_TYPES_def)

lemma selected_ids:
  fixes by_id preferred primary
  defines "ids \<equiv> select_signal_ids by_id preferred primary"
  shows "length ids \<le> MAX_SIGNAL_VIEWS" and "set ids \<subseteq> set (map fst by_id)" and "distinct ids"
    and "Some i \<in> set (representatives by_id preferred primary) \<Longrightarrow> i \<noteq> [] \<Longrightarrow> i \<in> set (map fst by_id) \<Longrightarrow> i \<in> set ids"
proof -
  let ?start = "fold (add_known by_id) (representatives by_id preferred primary) []"
  have start: "length ?start \<le> MAX_SIGNAL_VIEWS" "set ?start \<subseteq> set (map fst by_id)" "distinct ?start"
    using fold_add_known(2)[of by_id "representatives by_id preferred primary" "[]"]
      fold_add_known(3,4)[where order = "[]" and by_id = by_id and sids = "representatives by_id preferred primary"]
    by (simp_all add: length_representatives MAX_SIGNAL_VIEWS_def)
  note fill = fill_order_facts[OF start(1), of by_id "sort (map fst by_id)"]
  have eq: "ids = fill_order by_id (sort (map fst by_id)) ?start"
    using fill by (simp add: ids_def select_signal_ids_def)
  show "length ids \<le> MAX_SIGNAL_VIEWS" "set ids \<subseteq> set (map fst by_id)" "distinct ids"
    unfolding eq using fill start by blast+
  show "i \<in> set ids" if "Some i \<in> set (representatives by_id preferred primary)" "i \<noteq> []" "i \<in> set (map fst by_id)"
    unfolding eq using fold_add_known_member[OF that, of "[]"] fill by blast
qed

lemma lowest_some:
  assumes "(i, s) \<in> set by_id" and "p (i, s)"
  obtains j t where "lowest p by_id = Some j" and "(j, t) \<in> set by_id" and "p (j, t)"
proof -
  have "i \<in> set (map fst (filter p by_id))" using assms by force
  then have "sort (map fst (filter p by_id)) \<noteq> []" by (metis empty_iff list.set(1) set_sort)
  then obtain j js where j: "sort (map fst (filter p by_id)) = j # js" by (cases "sort (map fst (filter p by_id))") auto
  then have "j \<in> set (map fst (filter p by_id))" by (metis list.set_intros(1) set_sort)
  then obtain t where "(j, t) \<in> set by_id" "p (j, t)" by auto
  moreover have "lowest p by_id = Some j" using j by (simp add: lowest_def)
  ultimately show ?thesis by (rule that[rotated])
qed

text \<open>All signals of an incident, without a bound.\<close>

definition all_signal_views :: "DetectedSignal list \<Rightarrow> string list \<Rightarrow> TriageSignalView list" where
  "all_signal_views detected_signals incident_event_ids =
     map (\<lambda>(i, s). build_single_signal_view i s incident_event_ids) (signals_by_id detected_signals [])"

lemma set_selected_views:
  "set (select_signal_views ds ev preferred primary) =
     {build_single_signal_view i s ev |i s. (i, s) \<in> set (signals_by_id ds [])
        \<and> i \<in> set (select_signal_ids (signals_by_id ds []) preferred primary)}"
proof -
  have "distinct (map fst (signals_by_id ds []))" using signals_by_id_facts[of "[]" ds] by simp
  then show ?thesis
    by (auto simp: select_signal_views_def Let_def set_somes dest: map_of_SomeD intro: exI map_of_is_SomeI)
qed

lemma short_text_critical:
  assumes "short_text v = x" and "length x \<le> 100" and "x \<noteq> ''unknown''"
  shows "v = Some x"
  using assms
  by (auto simp: short_text_def or_default_def truncate_str_def MAX_SHORT_FIELD_CHARS_def split: option.splits if_splits)

lemma critical_texts:
  "x \<in> set SAFETY_CRITICAL_FAMILIES \<union> set SEQUENCE_SIGNAL_TYPES \<Longrightarrow> length x \<le> 100 \<and> x \<noteq> ''unknown'' \<and> truncate_str x MAX_SHORT_FIELD_CHARS = x"
  by (auto simp: SAFETY_CRITICAL_FAMILIES_def SCAN_PROBE_FAMILIES_def EXPOSURE_POLICY_FAMILIES_def SEQUENCE_SIGNAL_TYPES_def
    truncate_str_def MAX_SHORT_FIELD_CHARS_def)

text \<open>A text with a representative is seen in the selected views exactly when it is in all views.\<close>

lemma representative_kept:
  assumes critical: "f \<in> set SAFETY_CRITICAL_FAMILIES \<union> set SEQUENCE_SIGNAL_TYPES"
    and view: "\<And>i s. g (build_single_signal_view i s ev) = short_text (proj s)"
    and rep: "lowest (\<lambda>(i, s). proj s = Some f) (signals_by_id ds [])
      \<in> set (representatives (signals_by_id ds []) preferred primary)"
  shows "f \<in> g ` set (select_signal_views ds ev preferred primary) \<longleftrightarrow> f \<in> g ` set (all_signal_views ds ev)"
proof
  let ?by_id = "signals_by_id ds []"
  assume "f \<in> g ` set (all_signal_views ds ev)"
  then obtain i s where s: "(i, s) \<in> set ?by_id" "short_text (proj s) = f"
    by (auto simp: all_signal_views_def view)
  have "proj s = Some f" using short_text_critical[OF s(2)] critical_texts[OF critical] by blast
  then obtain j t where low: "lowest (\<lambda>(i, s). proj s = Some f) ?by_id = Some j"
    and t: "(j, t) \<in> set ?by_id" "proj t = Some f"
    using lowest_some[OF s(1), of "\<lambda>(i, s). proj s = Some f"] by auto
  have "j \<noteq> []" using t(1) signals_by_id_facts[of "[]" ds] by auto
  moreover have "j \<in> set (map fst ?by_id)" using t(1) by force
  ultimately have "j \<in> set (select_signal_ids ?by_id preferred primary)"
    using rep unfolding low by (intro selected_ids(4))
  then have "build_single_signal_view j t ev \<in> set (select_signal_views ds ev preferred primary)"
    using t(1) unfolding set_selected_views by blast
  moreover have "g (build_single_signal_view j t ev) = f"
    using t(2) critical_texts[OF critical] by (simp add: view short_text_def or_default_def)
  ultimately show "f \<in> g ` set (select_signal_views ds ev preferred primary)" by (metis imageI)
qed (auto simp: set_selected_views all_signal_views_def)

lemma critical_family_kept:
  assumes "f \<in> set SAFETY_CRITICAL_FAMILIES"
  shows "f \<in> sv_signal_family ` set (select_signal_views ds ev preferred primary)
     \<longleftrightarrow> f \<in> sv_signal_family ` set (all_signal_views ds ev)"
  by (rule representative_kept[where proj = ds_signal_family])
     (use assms in \<open>auto simp: build_single_signal_view_def representatives_def\<close>)

lemma sequence_type_kept:
  assumes "f \<in> set SEQUENCE_SIGNAL_TYPES"
  shows "f \<in> sv_signal_type ` set (select_signal_views ds ev preferred primary)
     \<longleftrightarrow> f \<in> sv_signal_type ` set (all_signal_views ds ev)"
  by (rule representative_kept[where proj = ds_signal_type])
     (use assms in \<open>auto simp: build_single_signal_view_def representatives_def\<close>)

lemma bounded_classification:
  "classify_incident c (select_signal_views ds ev preferred primary) = classify_incident c (all_signal_views ds ev)"
proof -
  let ?some = "select_signal_views ds ev preferred primary" and ?all = "all_signal_views ds ev"
  have family: "list_ex (\<lambda>f. f \<in> set F) (x # map sv_signal_family ?some) = list_ex (\<lambda>f. f \<in> set F) (x # map sv_signal_family ?all)"
    if F: "set F \<subseteq> set SAFETY_CRITICAL_FAMILIES" for F x
  proof -
    have "(\<exists>f \<in> set F. f \<in> sv_signal_family ` set ?some) = (\<exists>f \<in> set F. f \<in> sv_signal_family ` set ?all)"
      by (rule bex_cong[OF refl], rule critical_family_kept, use F in blast)
    moreover have "list_ex (\<lambda>f. f \<in> set F) (x # map sv_signal_family vs)
        \<longleftrightarrow> x \<in> set F \<or> (\<exists>f \<in> set F. f \<in> sv_signal_family ` set vs)" for vs :: "TriageSignalView list"
      unfolding list_ex_iff by (induction vs) auto
    ultimately show ?thesis by (simp only:)
  qed
  have "set SCAN_PROBE_FAMILIES \<subseteq> set SAFETY_CRITICAL_FAMILIES" "set EXPOSURE_POLICY_FAMILIES \<subseteq> set SAFETY_CRITICAL_FAMILIES"
    by (simp_all add: SAFETY_CRITICAL_FAMILIES_def)
  note families = this[THEN family]
  have "sort_uniq (filter (\<lambda>t. t \<in> set SEQUENCE_SIGNAL_TYPES) (x # map sv_signal_type ?some))
      = sort_uniq (filter (\<lambda>t. t \<in> set SEQUENCE_SIGNAL_TYPES) (x # map sv_signal_type ?all))" for x
  proof (rule sort_uniq_cong)
    have kept: "f \<in> sv_signal_type ` set ?some \<longleftrightarrow> f \<in> sv_signal_type ` set ?all" if "f \<in> set SEQUENCE_SIGNAL_TYPES" for f
      using that by (rule sequence_type_kept)
    show "set (filter (\<lambda>t. t \<in> set SEQUENCE_SIGNAL_TYPES) (x # map sv_signal_type ?some))
        = set (filter (\<lambda>t. t \<in> set SEQUENCE_SIGNAL_TYPES) (x # map sv_signal_type ?all))"
      unfolding set_filter list.set set_map using kept by blast
  qed
  with families show ?thesis unfolding classify_incident_def Let_def by (simp only:)
qed

lemma sort_view_Inr: "sort_view es = Inr xs \<Longrightarrow> mset xs = mset es"
  by (auto simp: sort_view_def split: if_splits)

lemma length_signal_views: "length (select_signal_views ds ev preferred primary) \<le> MAX_SIGNAL_VIEWS"
proof -
  have "length (somes f xs) \<le> length xs" for f :: "string \<Rightarrow> TriageSignalView option" and xs
    by (simp add: somes_filter)
  then show ?thesis
    using selected_ids(1) unfolding select_signal_views_def Let_def length_sort by (meson order_trans)
qed

lemma kept_signal:
  assumes "Some i \<in> set (representatives (signals_by_id ds []) preferred primary)"
    and "(i, s) \<in> set (signals_by_id ds [])"
  shows "i \<in> sv_signal_id ` set (select_signal_views ds ev preferred primary)"
proof -
  have "i \<noteq> []" using assms(2) signals_by_id_facts[of "[]" ds] by auto
  moreover have "i \<in> set (map fst (signals_by_id ds []))" using assms(2) by force
  ultimately have "i \<in> set (select_signal_ids (signals_by_id ds []) preferred primary)"
    using assms(1) by (intro selected_ids(4))
  then have "build_single_signal_view i s ev \<in> set (select_signal_views ds ev preferred primary)"
    using assms(2) unfolding set_selected_views by blast
  then show ?thesis by (force simp: build_single_signal_view_def image_iff)
qed


section \<open>Witness\<close>

definition small_limits :: TriageLimits where
  "small_limits = \<lparr>tl_max_event_preview_chars = 100, tl_max_context_events = 2, tl_max_candidate_evidence = 2\<rparr>"

definition scan_signal :: DetectedSignal where
  "scan_signal = \<lparr>ds_signal_id = Some ''SIG-1'', ds_rule_id = Some ''repeated_blocked_scanner'', ds_rule_name = None,
     ds_signal_type = None, ds_signal_family = Some ''network_scanning'', ds_severity = Some ''low'',
     ds_confidence_score = Some (1/2), ds_matched_event_ids = Some [''E1''], ds_mitre_techniques = None\<rparr>"


end
