(* ===== verification/TriageValidation.thy ===== *)
theory TriageValidation
  imports TriageView
begin

text \<open>
  What is left of a language model's answer: the submission (\<open>triage/models.py\<close>, \<open>enums.py\<close>), the
  validation of its evidence (\<open>validation.py\<close>) and claims (\<open>claims.py\<close>), and the validation node of
  the workflow (\<open>nodes.py\<close>), which caps verdict and severity by the deterministic facts.
\<close>

section \<open>Submission\<close>

datatype TriageVerdict = FALSE_POSITIVE | SUSPICIOUS_ACTIVITY | CONFIRMED_INCIDENT | NEEDS_REVIEW

datatype TriageSeverity = SevInformational | SevLow | SevMedium | SevHigh | SevCritical | SevNone

primrec triage_severity_value :: "TriageSeverity \<Rightarrow> string" where
  "triage_severity_value SevInformational = ''informational''"
| "triage_severity_value SevLow = ''low''"
| "triage_severity_value SevMedium = ''medium''"
| "triage_severity_value SevHigh = ''high''"
| "triage_severity_value SevCritical = ''critical''"
| "triage_severity_value SevNone = ''none''"

text \<open>\<open>TriageSeverity(value)\<close>.\<close>

definition severity_of :: "string \<Rightarrow> TriageSeverity option" where
  "severity_of v = find (\<lambda>s. triage_severity_value s = v) [SevInformational, SevLow, SevMedium, SevHigh, SevCritical, SevNone]"

datatype ClaimType = ACCOUNT_COMPROMISE | CREDENTIAL_THEFT | SUCCESSFUL_EXPLOITATION | DATA_EXFILTRATION
  | DATABASE_COMPROMISE | MALWARE_EXECUTION | PERSISTENCE | LATERAL_MOVEMENT | BRUTE_FORCE_SUCCESS
  | SUCCESSFUL_AUTHENTICATION | COMMAND_EXECUTION | OTHER_CLAIM

datatype RejectionReason = MISSING_SUPPORTING_EVIDENCE | EVENT_OUTSIDE_INCIDENT_SCOPE | UNSUPPORTED_CLAIM_TYPE
  | INSUFFICIENT_STRUCTURED_FIELDS | EVIDENCE_REJECTED | CLAIM_EVIDENCE_MISMATCH | FIREWALL_ONLY_EVIDENCE_INSUFFICIENT

record TriageClaim =
  cl_claim_id :: string
  cl_claim_type :: ClaimType
  cl_statement :: string
  cl_supporting_event_ids :: "string list"
  cl_supporting_evidence_ids :: "string list"

record TriageSubmission =
  su_triage_verdict :: TriageVerdict
  su_incident_type :: string
  su_severity :: TriageSeverity
  su_confidence_score :: rat
  su_summary :: string
  su_selected_evidence_ids :: "string list"
  su_claims :: "TriageClaim list"

text \<open>The constructor: the field constraints, then the model validator.\<close>

definition validate_submission :: "TriageSubmission \<Rightarrow> string + TriageSubmission" where
  "validate_submission s =
     (if su_confidence_score s < 0 \<or> su_confidence_score s > 1 \<or> length (su_summary s) > 2000
      then Inl ''ValidationError''
      else if su_triage_verdict s = CONFIRMED_INCIDENT \<and> su_selected_evidence_ids s = [] then Inl ''ValidationError''
      else (let t = (if su_triage_verdict s = NEEDS_REVIEW
                then s\<lparr>su_severity := SevNone, su_confidence_score := 0\<rparr> else s)
            in Inr (t\<lparr>su_selected_evidence_ids := rev (remdups (rev (su_selected_evidence_ids t)))\<rparr>)))"

section \<open>Evidence\<close>

record EvidenceValidationResult =
  vr_evidence_id :: string
  vr_event_id :: string
  vr_validated :: bool
  vr_rejection_reason :: "RejectionReason option"

text \<open>\<open>re.sub(r'\s+', ' ', text)\<close>.\<close>

function squeeze :: "string \<Rightarrow> string" where
  "squeeze [] = []"
| "squeeze (c # cs) = (if is_space c then CHR '' '' # squeeze (dropWhile is_space cs) else c # squeeze cs)"
  by pat_completeness auto
termination
  by (relation "measure length") (auto simp: less_Suc_eq_le length_dropWhile_le)

definition normalize_text :: "string \<Rightarrow> string" where
  "normalize_text s = squeeze (py_lower (py_strip s))"

text \<open>\<open>str(value)\<close>; how a float, a list or a dictionary is written is a parameter.\<close>

definition py_str :: "(pyval \<Rightarrow> string) \<Rightarrow> pyval \<Rightarrow> string" where
  "py_str other v = (case v of PNone \<Rightarrow> ''None'' | PBool b \<Rightarrow> if b then ''True'' else ''False''
     | PInt n \<Rightarrow> str_of_int n | PStr s \<Rightarrow> s | _ \<Rightarrow> other v)"

definition opt_text :: "string option \<Rightarrow> pyval" where
  "opt_text v = (case v of None \<Rightarrow> PNone | Some s \<Rightarrow> PStr s)"

definition opt_int :: "int option \<Rightarrow> pyval" where
  "opt_int v = (case v of None \<Rightarrow> PNone | Some n \<Rightarrow> PInt n)"

definition opt_time :: "timestamp option \<Rightarrow> pyval" where
  "opt_time v = (case v of None \<Rightarrow> PNone | Some t \<Rightarrow> PStr (timestamp_text t))"

text \<open>\<open>getattr(event, name)\<close> with a time already written by \<open>isoformat\<close>. A name that is no field is
  absent; what the class itself offers under a name is never equal to the text of a value.\<close>

definition event_fields :: "canonical_event \<Rightarrow> pydict" where
  "event_fields e =
     [(''event_id'', PStr (e_event_id e)), (''timestamp'', opt_time (e_timestamp e)),
      (''observed_at'', opt_time (e_observed_at e)), (''src_ip'', opt_text (e_src_ip e)),
      (''dst_ip'', opt_text (e_dst_ip e)), (''src_port'', opt_int (e_src_port e)), (''dst_port'', opt_int (e_dst_port e)),
      (''protocol'', opt_text (e_protocol e)), (''action'', opt_text (e_action e)),
      (''action_reason'', opt_text (e_action_reason e)), (''event_type'', opt_text (e_event_type e)),
      (''event_category'', opt_text (e_event_category e)), (''event_outcome'', opt_text (e_event_outcome e)),
      (''tcp_flags'', opt_text (e_tcp_flags e)), (''inbound_interface'', opt_text (e_inbound_interface e)),
      (''outbound_interface'', opt_text (e_outbound_interface e)), (''inbound_zone'', opt_text (e_inbound_zone e)),
      (''outbound_zone'', opt_text (e_outbound_zone e)), (''source_fqdns'', PList (map PStr (e_source_fqdns e))),
      (''destination_fqdns'', PList (map PStr (e_destination_fqdns e))),
      (''source_username'', opt_text (e_source_username e)), (''bytes'', opt_int (e_bytes e)),
      (''packets'', opt_int (e_packets e)), (''duration_ms'', opt_int (e_duration_ms e)),
      (''nat_type'', opt_text (e_nat_type e)), (''translated_src_ip'', opt_text (e_translated_src_ip e)),
      (''translated_dst_ip'', opt_text (e_translated_dst_ip e)),
      (''translated_src_port'', opt_int (e_translated_src_port e)),
      (''translated_dst_port'', opt_int (e_translated_dst_port e)), (''parser_name'', PStr (e_parser_name e)),
      (''parser_version'', opt_text (e_parser_version e)), (''parser_confidence'', PFloat (e_parser_confidence e)),
      (''schema_fingerprint'', opt_text (e_schema_fingerprint e)), (''parse_status'', PStr (e_parse_status e)),
      (''parse_warnings'', PList (map PStr (e_parse_warnings e))), (''source_name'', opt_text (e_source_name e)),
      (''source_line'', opt_int (e_source_line e)), (''raw_record_hash'', opt_text (e_raw_record_hash e)),
      (''safe_message_excerpt'', PStr (e_safe_message_excerpt e)),
      (''parser_metadata'', case e_parser_metadata e of None \<Rightarrow> PNone | Some d \<Rightarrow> PDict d)]"

definition fields_agree :: "(pyval \<Rightarrow> string) \<Rightarrow> pydict \<Rightarrow> pydict \<Rightarrow> bool" where
  "fields_agree other actual claimed =
     list_all (\<lambda>(k, v). case map_of actual k of None \<Rightarrow> False | Some w \<Rightarrow> py_str other w = py_str other v) claimed"

definition provenance_key :: "string \<Rightarrow> string \<Rightarrow> string \<Rightarrow> string \<Rightarrow> string" where
  "provenance_key event_id source quote reason = py_join '':'' [event_id, source, quote, reason]"

definition ALLOWLISTED_FIELDS :: "string list" where
  "ALLOWLISTED_FIELDS = [''source_entity'', ''target_entity'', ''src_ip'', ''dst_ip'', ''user'', ''hostname'']"

definition context_agrees :: "TriageInput \<Rightarrow> pydict \<Rightarrow> bool" where
  "context_agrees input correlation_context =
     list_all (\<lambda>(k, v). k \<in> set ALLOWLISTED_FIELDS \<longrightarrow>
       v \<in> PStr ` set (ti_target_entities input) \<or> v = PStr (ti_primary_entity input)) correlation_context"

definition source_known :: "TriageIncidentContext \<Rightarrow> canonical_event \<Rightarrow> EvidenceCandidate \<Rightarrow> bool" where
  "source_known context event c =
     (provenance_key (ec_event_id c) (ec_source c) (ec_quote c) (ec_reason c)
        \<in> set (map (\<lambda>ev. provenance_key (ev_event_id ev) (ev_source ev) (ev_quote ev) (ev_reason ev))
             (i_evidence (tc_incident context)))
      \<or> Some (ec_source c) = e_source_name event \<or> ec_source c = e_parser_name event)"

text \<open>The checks of a candidate against its event, in order; \<open>None\<close> when it passes them all.\<close>

definition check_candidate :: "(pyval \<Rightarrow> string) \<Rightarrow> TriageInput \<Rightarrow> TriageIncidentContext \<Rightarrow> canonical_event
    \<Rightarrow> EvidenceCandidate \<Rightarrow> RejectionReason option" where
  "check_candidate other input context event c = first_failure
     [(ec_quote c = [] \<or> contains (normalize_text (ec_quote c)) (normalize_text (e_safe_message_excerpt event)),
       EVIDENCE_REJECTED),
      (fields_agree other (event_fields event) (ec_canonical_fields c), EVIDENCE_REJECTED),
      (fields_agree other (case e_parser_metadata event of None \<Rightarrow> [] | Some d \<Rightarrow> d) (ec_vendor_original_fields c),
       EVIDENCE_REJECTED),
      (ec_source c = [] \<or> source_known context event c, EVIDENCE_REJECTED),
      (context_agrees input (ec_correlation_context c), EVENT_OUTSIDE_INCIDENT_SCOPE)]"

definition trusted_events :: "TriageIncidentContext \<Rightarrow> (string \<times> canonical_event) list" where
  "trusted_events context = dict_of e_event_id (tc_events context @ tc_context_events context)"

definition rejected :: "string \<Rightarrow> string \<Rightarrow> RejectionReason \<Rightarrow> EvidenceValidationResult" where
  "rejected evidence_id event_id reason = \<lparr>vr_evidence_id = evidence_id, vr_event_id = event_id,
     vr_validated = False, vr_rejection_reason = Some reason\<rparr>"

definition validate_selected :: "(pyval \<Rightarrow> string) \<Rightarrow> TriageInput \<Rightarrow> TriageIncidentContext \<Rightarrow> string list \<Rightarrow> string
    \<Rightarrow> EvidenceValidationResult" where
  "validate_selected other input context seen evidence_id =
     (if evidence_id \<in> set seen then rejected evidence_id ''unknown'' EVIDENCE_REJECTED
      else case map_of (dict_of ec_evidence_id (ti_candidate_evidence input)) evidence_id of
        None \<Rightarrow> rejected evidence_id ''unknown'' MISSING_SUPPORTING_EVIDENCE
      | Some c \<Rightarrow> (case map_of (trusted_events context) (ec_event_id c) of
          None \<Rightarrow> rejected evidence_id (ec_event_id c) EVENT_OUTSIDE_INCIDENT_SCOPE
        | Some event \<Rightarrow> (case check_candidate other input context event c of
            Some reason \<Rightarrow> rejected evidence_id (ec_event_id c) reason
          | None \<Rightarrow> \<lparr>vr_evidence_id = evidence_id, vr_event_id = ec_event_id c, vr_validated = True,
              vr_rejection_reason = None\<rparr>)))"

fun validate_ids :: "(pyval \<Rightarrow> string) \<Rightarrow> TriageInput \<Rightarrow> TriageIncidentContext \<Rightarrow> string list \<Rightarrow> string list
    \<Rightarrow> EvidenceValidationResult list" where
  "validate_ids other input context seen [] = []"
| "validate_ids other input context seen (i # ids) =
     validate_selected other input context seen i # validate_ids other input context (i # seen) ids"

definition validate_evidence :: "(pyval \<Rightarrow> string) \<Rightarrow> TriageSubmission \<Rightarrow> TriageInput \<Rightarrow> TriageIncidentContext
    \<Rightarrow> EvidenceValidationResult list" where
  "validate_evidence other submission input context = validate_ids other input context [] (su_selected_evidence_ids submission)"

section \<open>Claims\<close>

definition HIGH_IMPACT_CLAIMS :: "ClaimType list" where
  "HIGH_IMPACT_CLAIMS = [ACCOUNT_COMPROMISE, CREDENTIAL_THEFT, SUCCESSFUL_EXPLOITATION, DATA_EXFILTRATION,
     DATABASE_COMPROMISE, MALWARE_EXECUTION, PERSISTENCE, LATERAL_MOVEMENT, BRUTE_FORCE_SUCCESS,
     SUCCESSFUL_AUTHENTICATION, COMMAND_EXECUTION]"

definition check_claim :: "EvidenceValidationResult list \<Rightarrow> bool \<Rightarrow> TriageClaim \<Rightarrow> RejectionReason option" where
  "check_claim results firewall_only claim =
     (let valid = filter vr_validated results
      in first_failure
        [(cl_supporting_evidence_ids claim \<noteq> [] \<and> cl_supporting_event_ids claim \<noteq> [], MISSING_SUPPORTING_EVIDENCE),
         (list_all (\<lambda>i. i \<in> set (map vr_evidence_id valid)) (cl_supporting_evidence_ids claim)
           \<and> list_all (\<lambda>i. i \<in> set (map vr_event_id valid)) (cl_supporting_event_ids claim), EVIDENCE_REJECTED),
         (cl_claim_type claim \<notin> set HIGH_IMPACT_CLAIMS, UNSUPPORTED_CLAIM_TYPE),
         (\<not> (firewall_only \<and> cl_claim_type claim = OTHER_CLAIM), FIREWALL_ONLY_EVIDENCE_INSUFFICIENT)])"

definition validate_claims :: "TriageClaim list \<Rightarrow> EvidenceValidationResult list \<Rightarrow> bool
    \<Rightarrow> TriageClaim list \<times> (string \<times> RejectionReason) list" where
  "validate_claims claims results firewall_only =
     (filter (\<lambda>c. check_claim results firewall_only c = None) claims,
      somes (\<lambda>c. map_option (Pair (cl_claim_id c)) (check_claim results firewall_only c)) claims)"

section \<open>The validation node\<close>

text \<open>The updates of the state; \<open>None\<close> leaves a key as it was.\<close>

record ValidationUpdate =
  vu_validated_evidence :: "EvidenceValidationResult list"
  vu_rejected_evidence :: "EvidenceValidationResult list"
  vu_claims :: "TriageClaim list"
  vu_validated_claims :: "TriageClaim list option"
  vu_rejected_claims :: "(string \<times> RejectionReason) list option"
  vu_triage_verdict :: "TriageVerdict option"
  vu_incident_type :: "string option"
  vu_severity :: "string option"
  vu_confidence_score :: "rat option"
  vu_review_reason :: "string option"
  vu_policy_adjustments :: "string list option"
  vu_triage_submission :: "TriageSubmission option"

definition needs_review_update :: "string \<Rightarrow> ValidationUpdate" where
  "needs_review_update reason =
     \<lparr>vu_validated_evidence = [], vu_rejected_evidence = [], vu_claims = [], vu_validated_claims = None,
      vu_rejected_claims = None, vu_triage_verdict = Some NEEDS_REVIEW, vu_incident_type = None,
      vu_severity = Some ''none'', vu_confidence_score = Some 0, vu_review_reason = Some reason,
      vu_policy_adjustments = None, vu_triage_submission = None\<rparr>"

definition claim_severity_rank :: "string \<Rightarrow> int" where
  "claim_severity_rank s = (case map_of [(''none'', - 1), (''informational'', 0), (''low'', 1), (''medium'', 2),
     (''high'', 3), (''critical'', 4)] s of None \<Rightarrow> 0 | Some r \<Rightarrow> r)"

text \<open>The caps of one submission: the submission, its verdict and severity updates, and the adjustments.\<close>

record Capped =
  cp_submission :: TriageSubmission
  cp_verdict :: "TriageVerdict option"
  cp_severity :: "string option"
  cp_adjustments :: "string list"

definition cap_verdict :: "string list \<Rightarrow> Capped \<Rightarrow> Capped" where
  "cap_verdict adjustments c =
     (if su_triage_verdict (cp_submission c) = CONFIRMED_INCIDENT
      then c\<lparr>cp_submission := (cp_submission c)\<lparr>su_triage_verdict := SUSPICIOUS_ACTIVITY\<rparr>,
             cp_verdict := Some SUSPICIOUS_ACTIVITY, cp_adjustments := cp_adjustments c @ adjustments\<rparr>
      else c)"

definition cap_severity :: "string \<Rightarrow> Capped \<Rightarrow> string + Capped" where
  "cap_severity detected c =
     (if claim_severity_rank (triage_severity_value (su_severity (cp_submission c))) > claim_severity_rank detected
      then (case severity_of detected of None \<Rightarrow> Inl ''ValueError''
        | Some s \<Rightarrow> Inr (c\<lparr>cp_submission := (cp_submission c)\<lparr>su_severity := s\<rparr>, cp_severity := Some detected,
            cp_adjustments := cp_adjustments c @ [''exposure_severity_capped'']\<rparr>))
      else Inr c)"

definition firewall_adjustments :: "string list" where
  "firewall_adjustments = [''firewall_only_confirmed_verdict_capped'', ''application_success_not_proven'',
     ''compromise_not_proven'']"

definition cap_by_facts :: "IncidentFacts \<Rightarrow> string \<Rightarrow> Capped \<Rightarrow> string + Capped" where
  "cap_by_facts facts detected c = (case facts of
     ScanProbe f \<Rightarrow> Inr (if sp_all_attempts_blocked f then cap_verdict [''all_blocked_network_verdict_capped''] c else c)
   | FirewallExposure f \<Rightarrow> cap_severity detected
       (if \<not> fe_application_success_proven f \<and> \<not> fe_compromise_proven f then cap_verdict firewall_adjustments c else c)
   | SequenceIncident f \<Rightarrow> cap_severity detected
       (if \<not> sq_application_success_proven f \<and> \<not> sq_compromise_proven f then cap_verdict firewall_adjustments c else c)
   | GenericIncident t \<Rightarrow> Inr c)"

definition evidence_validation_node :: "(pyval \<Rightarrow> string) \<Rightarrow> TriageSubmission option \<Rightarrow> TriageInput option
    \<Rightarrow> (string + TriageIncidentContext) option \<Rightarrow> string + ValidationUpdate" where
  "evidence_validation_node other submission_state input_state incident_state =
     (case (submission_state, input_state, incident_state) of
        (Some dumped, Some input, Some parsed) \<Rightarrow>
          bind_err (validate_submission dumped) (\<lambda>submission.
          case parsed of Inl _ \<Rightarrow> Inr (needs_review_update ''invalid_llm_output'')
          | Inr context \<Rightarrow>
            (let incident = tc_incident context;
                 results = validate_evidence other submission input context;
                 firewall_only = is_firewall_only (classify_incident context (ti_signal_views input));
                 claims = validate_claims (su_claims submission) results firewall_only;
                 valid = filter vr_validated results;
                 update = \<lparr>vu_validated_evidence = valid,
                   vu_rejected_evidence = filter (\<lambda>r. \<not> vr_validated r) results, vu_claims = su_claims submission,
                   vu_validated_claims = Some (fst claims), vu_rejected_claims = Some (snd claims),
                   vu_triage_verdict = None, vu_incident_type = None, vu_severity = None, vu_confidence_score = None,
                   vu_review_reason = None, vu_policy_adjustments = None, vu_triage_submission = None\<rparr>
             in if valid = [] \<and> su_triage_verdict submission \<noteq> NEEDS_REVIEW
                then Inr (update\<lparr>vu_triage_verdict := Some NEEDS_REVIEW, vu_severity := Some ''none'',
                  vu_confidence_score := Some 0, vu_review_reason := Some ''no_validated_evidence''\<rparr>)
                else (let locked = submission\<lparr>su_incident_type := i_incident_type incident\<rparr>;
                          start = \<lparr>cp_submission = locked, cp_verdict = None, cp_severity = None,
                            cp_adjustments = (if su_incident_type submission \<noteq> i_incident_type incident
                              then [''deterministic_incident_type_locked''] else [])\<rparr>
                      in bind_err (cap_by_facts (derive_incident_facts context (ti_signal_views input)) (i_severity incident) start)
                        (\<lambda>c. let review = (su_triage_verdict (cp_submission c) = NEEDS_REVIEW);
                                 final = (if review then (cp_submission c)\<lparr>su_severity := SevNone, su_confidence_score := 0\<rparr>
                                   else cp_submission c)
                             in Inr (update\<lparr>vu_incident_type := Some (i_incident_type incident),
                               vu_triage_verdict := cp_verdict c,
                               vu_severity := (if review then Some ''none'' else cp_severity c),
                               vu_confidence_score := (if review then Some 0 else None),
                               vu_policy_adjustments := (if cp_adjustments c \<noteq> [] then Some (sort_uniq (cp_adjustments c)) else None),
                               vu_triage_submission := Some final\<rparr>)))))
      | _ \<Rightarrow> Inr (needs_review_update ''no_validated_evidence''))"

section \<open>Facts about the validation\<close>

lemma validate_ids_member:
  "r \<in> set (validate_ids other input context seen ids) \<Longrightarrow> vr_validated r \<Longrightarrow>
     \<exists>seen' i. i \<in> set ids \<and> i \<notin> set seen' \<and> set seen \<subseteq> set seen' \<and> r = validate_selected other input context seen' i"
proof (induction ids arbitrary: seen)
  case (Cons i ids)
  show ?case
  proof (cases "r = validate_selected other input context seen i")
    case True
    then have "i \<notin> set seen" using Cons.prems(2) by (auto simp: validate_selected_def rejected_def)
    with True show ?thesis by auto
  next
    case False
    with Cons.prems have "r \<in> set (validate_ids other input context (i # seen) ids)" by simp
    from Cons.IH[OF this Cons.prems(2)] obtain seen' j where "j \<in> set ids" "j \<notin> set seen'"
      "set (i # seen) \<subseteq> set seen'" "r = validate_selected other input context seen' j" by blast
    then show ?thesis by (intro exI[of _ seen'] exI[of _ j]) auto
  qed
qed simp

lemma validate_selected_id: "vr_evidence_id (validate_selected other input context seen i) = i"
  by (simp add: validate_selected_def rejected_def split: option.splits)

lemma validated_selected:
  assumes "vr_validated (validate_selected other input context seen i)"
  obtains c e where "c \<in> set (ti_candidate_evidence input)" and "ec_evidence_id c = i"
    and "e \<in> set (tc_events context @ tc_context_events context)" and "e_event_id e = ec_event_id c"
    and "check_candidate other input context e c = None"
    and "vr_event_id (validate_selected other input context seen i) = ec_event_id c"
proof -
  from assms obtain c e where c: "map_of (dict_of ec_evidence_id (ti_candidate_evidence input)) i = Some c"
    and e: "map_of (trusted_events context) (ec_event_id c) = Some e"
    and ok: "check_candidate other input context e c = None" and new: "i \<notin> set seen"
    by (auto simp: validate_selected_def rejected_def split: if_splits option.splits)
  have "vr_event_id (validate_selected other input context seen i) = ec_event_id c"
    using c e ok new by (simp add: validate_selected_def)
  with map_of_dict_of_SomeD[OF c] map_of_dict_of_SomeD[OF e[unfolded trusted_events_def]] ok show ?thesis
    by (intro that) auto
qed

lemma distinct_validated:
  "distinct (map vr_evidence_id (filter vr_validated (validate_ids other input context seen ids)))
    \<and> set (map vr_evidence_id (filter vr_validated (validate_ids other input context seen ids))) \<inter> set seen = {}"
proof (induction ids arbitrary: seen)
  case (Cons i ids)
  have "vr_validated (validate_selected other input context seen i) \<Longrightarrow> i \<notin> set seen"
    by (auto simp: validate_selected_def rejected_def)
  with Cons.IH[of "i # seen"] show ?case by (auto simp: validate_selected_id)
qed simp

text \<open>C9: evidence that survives is genuine: each validated item is one the model was offered and
  selected, of an event of this incident; a quote, where it gives one, occurs in that event's text, each
  canonical field it cites has the event's value and each vendor field the value in the event's parser
  metadata, a source, where it names one, is the detection's or the event's own, and what it says about
  entities concerns this incident. No item is validated twice.\<close>

theorem validated_evidence_genuine:
  assumes "r \<in> set (validate_evidence other s input context)" and "vr_validated r"
  shows "\<exists>c \<in> set (ti_candidate_evidence input). \<exists>e \<in> set (tc_events context @ tc_context_events context).
      vr_evidence_id r = ec_evidence_id c \<and> ec_evidence_id c \<in> set (su_selected_evidence_ids s)
    \<and> vr_event_id r = e_event_id e \<and> ec_event_id c = e_event_id e
    \<and> (ec_quote c = [] \<or> contains (normalize_text (ec_quote c)) (normalize_text (e_safe_message_excerpt e)))
    \<and> fields_agree other (event_fields e) (ec_canonical_fields c)
    \<and> fields_agree other (case e_parser_metadata e of None \<Rightarrow> [] | Some d \<Rightarrow> d) (ec_vendor_original_fields c)
    \<and> (ec_source c = [] \<or> source_known context e c) \<and> context_agrees input (ec_correlation_context c)
    \<and> distinct (map vr_evidence_id (filter vr_validated (validate_evidence other s input context)))"
proof -
  from validate_ids_member[OF assms(1)[unfolded validate_evidence_def] assms(2)] obtain seen i where
    i: "i \<in> set (su_selected_evidence_ids s)" "r = validate_selected other input context seen i" by blast
  then have "vr_validated (validate_selected other input context seen i)" using assms(2) by simp
  then obtain c e where ce: "c \<in> set (ti_candidate_evidence input)" "ec_evidence_id c = i"
    "e \<in> set (tc_events context @ tc_context_events context)" "e_event_id e = ec_event_id c"
    "check_candidate other input context e c = None" "vr_event_id r = ec_event_id c"
    unfolding i(2) by (rule validated_selected)
  from ce(5) have checks: "ec_quote c = [] \<or> contains (normalize_text (ec_quote c)) (normalize_text (e_safe_message_excerpt e))"
    "fields_agree other (event_fields e) (ec_canonical_fields c)"
    "fields_agree other (case e_parser_metadata e of None \<Rightarrow> [] | Some d \<Rightarrow> d) (ec_vendor_original_fields c)"
    "ec_source c = [] \<or> source_known context e c" "context_agrees input (ec_correlation_context c)"
    by (auto simp: check_candidate_def split: if_splits)
  have "vr_evidence_id r = i" unfolding i(2) by (rule validate_selected_id)
  with ce checks i(1) distinct_validated[of other input "context" "[]" "su_selected_evidence_ids s"] show ?thesis
    unfolding validate_evidence_def by (intro bexI[of _ c] bexI[of _ e]) simp_all
qed

lemma check_claim_None:
  "check_claim results firewall_only c = None \<longleftrightarrow>
     cl_supporting_evidence_ids c \<noteq> [] \<and> cl_supporting_event_ids c \<noteq> []
     \<and> set (cl_supporting_evidence_ids c) \<subseteq> vr_evidence_id ` set (filter vr_validated results)
     \<and> set (cl_supporting_event_ids c) \<subseteq> vr_event_id ` set (filter vr_validated results)
     \<and> cl_claim_type c = OTHER_CLAIM \<and> \<not> firewall_only"
  by (cases "cl_claim_type c") (auto simp: check_claim_def Let_def list_all_iff HIGH_IMPACT_CLAIMS_def)

lemma claims_accounted:
  "length (fst (validate_claims claims results firewall_only)) + length (snd (validate_claims claims results firewall_only))
     = length claims"
  by (induction claims) (auto simp: validate_claims_def somes_def List.map_filter_simps split: option.splits)

text \<open>C10: claims are grounded or rejected: every claim is accepted or rejected, never lost; an accepted one
  cites evidence and events, all of them validated, and is never of a high-impact type, whatever its
  evidence; for a firewall-only incident no claim is accepted at all.\<close>

theorem triage_claims_grounded:
  "length (fst (validate_claims claims results firewall_only)) + length (snd (validate_claims claims results firewall_only))
      = length claims
   \<and> (c \<in> set (fst (validate_claims claims results firewall_only)) \<longleftrightarrow>
       c \<in> set claims \<and> cl_claim_type c = OTHER_CLAIM \<and> \<not> firewall_only
       \<and> cl_supporting_evidence_ids c \<noteq> [] \<and> cl_supporting_event_ids c \<noteq> []
       \<and> set (cl_supporting_evidence_ids c) \<subseteq> vr_evidence_id ` set (filter vr_validated results)
       \<and> set (cl_supporting_event_ids c) \<subseteq> vr_event_id ` set (filter vr_validated results))"
  using claims_accounted[of claims results firewall_only]
  by (auto simp: validate_claims_def check_claim_None)

section \<open>The caps\<close>

text \<open>What the state says after the node: the update, or else what the triage node had put there from
  the submission.\<close>

definition final_verdict :: "TriageSubmission \<Rightarrow> ValidationUpdate \<Rightarrow> TriageVerdict" where
  "final_verdict s u = (case vu_triage_verdict u of Some v \<Rightarrow> v | None \<Rightarrow> su_triage_verdict s)"

definition final_severity :: "TriageSubmission \<Rightarrow> ValidationUpdate \<Rightarrow> string" where
  "final_severity s u = (case vu_severity u of Some v \<Rightarrow> v | None \<Rightarrow> triage_severity_value (su_severity s))"

definition final_confidence :: "TriageSubmission \<Rightarrow> ValidationUpdate \<Rightarrow> rat" where
  "final_confidence s u = (case vu_confidence_score u of Some q \<Rightarrow> q | None \<Rightarrow> su_confidence_score s)"

lemma claim_severity_rank_ge: "- 1 \<le> claim_severity_rank v"
  by (simp add: claim_severity_rank_def)

lemma severity_of_Some: "severity_of v = Some s \<Longrightarrow> triage_severity_value s = v"
  by (auto simp: severity_of_def split: if_splits)

definition capped_ok :: "TriageSubmission \<Rightarrow> IncidentFacts \<Rightarrow> string \<Rightarrow> Capped \<Rightarrow> bool" where
  "capped_ok s facts detected c =
     (let verdict = su_triage_verdict (cp_submission c); severity = triage_severity_value (su_severity (cp_submission c))
      in (case cp_verdict c of Some v \<Rightarrow> v = verdict | None \<Rightarrow> verdict = su_triage_verdict s)
       \<and> (case cp_severity c of Some v \<Rightarrow> v = severity | None \<Rightarrow> severity = triage_severity_value (su_severity s))
       \<and> su_confidence_score (cp_submission c) = su_confidence_score s
       \<and> (verdict = NEEDS_REVIEW \<longleftrightarrow> su_triage_verdict s = NEEDS_REVIEW)
       \<and> (case facts of
            ScanProbe f \<Rightarrow> sp_all_attempts_blocked f \<longrightarrow> verdict \<noteq> CONFIRMED_INCIDENT
          | FirewallExposure f \<Rightarrow> claim_severity_rank severity \<le> claim_severity_rank detected
              \<and> (\<not> fe_application_success_proven f \<and> \<not> fe_compromise_proven f \<longrightarrow> verdict \<noteq> CONFIRMED_INCIDENT)
          | SequenceIncident f \<Rightarrow> claim_severity_rank severity \<le> claim_severity_rank detected
              \<and> (\<not> sq_application_success_proven f \<and> \<not> sq_compromise_proven f \<longrightarrow> verdict \<noteq> CONFIRMED_INCIDENT)
          | GenericIncident t \<Rightarrow> True))"

lemma cap_verdict_simps:
  "su_triage_verdict (cp_submission (cap_verdict adj c)) = (if su_triage_verdict (cp_submission c) = CONFIRMED_INCIDENT
     then SUSPICIOUS_ACTIVITY else su_triage_verdict (cp_submission c))"
  "cp_verdict (cap_verdict adj c) = (if su_triage_verdict (cp_submission c) = CONFIRMED_INCIDENT
     then Some SUSPICIOUS_ACTIVITY else cp_verdict c)"
  "su_severity (cp_submission (cap_verdict adj c)) = su_severity (cp_submission c)"
  "su_confidence_score (cp_submission (cap_verdict adj c)) = su_confidence_score (cp_submission c)"
  "cp_severity (cap_verdict adj c) = cp_severity c"
  by (simp_all add: cap_verdict_def)

lemma cap_severity_Inr:
  assumes "cap_severity detected c = Inr c'"
  shows "su_triage_verdict (cp_submission c') = su_triage_verdict (cp_submission c)"
    and "cp_verdict c' = cp_verdict c"
    and "su_confidence_score (cp_submission c') = su_confidence_score (cp_submission c)"
    and "claim_severity_rank (triage_severity_value (su_severity (cp_submission c'))) \<le> claim_severity_rank detected"
    and "cp_severity c' = Some (triage_severity_value (su_severity (cp_submission c')))
      \<or> cp_severity c' = cp_severity c \<and> su_severity (cp_submission c') = su_severity (cp_submission c)"
  using assms by (auto simp: cap_severity_def split: if_splits option.splits dest: severity_of_Some)

lemma cap_by_facts_ok:
  assumes "cap_by_facts facts detected \<lparr>cp_submission = s\<lparr>su_incident_type := t\<rparr>, cp_verdict = None, cp_severity = None,
      cp_adjustments = adj\<rparr> = Inr c"
  shows "capped_ok s facts detected c"
proof (cases facts)
  case (ScanProbe f)
  then show ?thesis using assms
    by (cases "sp_all_attempts_blocked f") (auto simp: cap_by_facts_def capped_ok_def Let_def cap_verdict_simps split: if_splits)
next
  case (FirewallExposure f)
  with assms obtain start where "cap_severity detected start = Inr c"
    and "start = (if \<not> fe_application_success_proven f \<and> \<not> fe_compromise_proven f then cap_verdict firewall_adjustments
        \<lparr>cp_submission = s\<lparr>su_incident_type := t\<rparr>, cp_verdict = None, cp_severity = None, cp_adjustments = adj\<rparr>
      else \<lparr>cp_submission = s\<lparr>su_incident_type := t\<rparr>, cp_verdict = None, cp_severity = None, cp_adjustments = adj\<rparr>)"
    by (simp add: cap_by_facts_def)
  with cap_severity_Inr[OF this(1)] FirewallExposure show ?thesis
    by (cases "\<not> fe_application_success_proven f \<and> \<not> fe_compromise_proven f")
       (auto simp: capped_ok_def Let_def cap_verdict_simps split: if_splits)
next
  case (SequenceIncident f)
  with assms obtain start where "cap_severity detected start = Inr c"
    and "start = (if \<not> sq_application_success_proven f \<and> \<not> sq_compromise_proven f then cap_verdict firewall_adjustments
        \<lparr>cp_submission = s\<lparr>su_incident_type := t\<rparr>, cp_verdict = None, cp_severity = None, cp_adjustments = adj\<rparr>
      else \<lparr>cp_submission = s\<lparr>su_incident_type := t\<rparr>, cp_verdict = None, cp_severity = None, cp_adjustments = adj\<rparr>)"
    by (simp add: cap_by_facts_def)
  with cap_severity_Inr[OF this(1)] SequenceIncident show ?thesis
    by (cases "\<not> sq_application_success_proven f \<and> \<not> sq_compromise_proven f")
       (auto simp: capped_ok_def Let_def cap_verdict_simps split: if_splits)
next
  case (GenericIncident i)
  then show ?thesis using assms by (auto simp: cap_by_facts_def capped_ok_def Let_def)
qed

lemma firewall_only_cases:
  assumes "is_firewall_only (classify_incident c vs)"
  obtains f where "derive_incident_facts c vs = FirewallExposure f" "\<not> fe_application_success_proven f" "\<not> fe_compromise_proven f"
    | f where "derive_incident_facts c vs = SequenceIncident f" "\<not> sq_application_success_proven f" "\<not> sq_compromise_proven f"
  using assms firewall_only_facts[of c vs] exposure_facts_unproven sequence_facts_unproven by blast

text \<open>C8: whatever a model answers, the triage of an incident stays conservative. A verdict other than
  \<open>needs_review\<close> rests on validated evidence; \<open>needs_review\<close> carries no severity and no confidence. A
  scan whose every attempt was blocked and a firewall-only incident are never confirmed incidents, and a
  firewall-only incident is never rated above its detection and keeps no claim of the model. The
  incident type, where set, is the detected one.\<close>

theorem model_output_conservative:
  assumes "validate_submission dumped = Inr s"
    and "evidence_validation_node other (Some dumped) (Some input) (Some (Inr c)) = Inr u"
  shows "(final_verdict s u \<noteq> NEEDS_REVIEW \<longrightarrow> vu_validated_evidence u \<noteq> [])
    \<and> (final_verdict s u = NEEDS_REVIEW \<longrightarrow> final_severity s u = ''none'' \<and> final_confidence s u = 0)
    \<and> (\<forall>f. derive_incident_facts c (ti_signal_views input) = ScanProbe f \<and> sp_all_attempts_blocked f
         \<longrightarrow> final_verdict s u \<noteq> CONFIRMED_INCIDENT)
    \<and> (is_firewall_only (classify_incident c (ti_signal_views input)) \<longrightarrow>
         final_verdict s u \<noteq> CONFIRMED_INCIDENT \<and> vu_validated_claims u = Some []
         \<and> claim_severity_rank (final_severity s u) \<le> claim_severity_rank (i_severity (tc_incident c)))
    \<and> vu_incident_type u \<in> {None, Some (i_incident_type (tc_incident c))}"
proof -
  let ?views = "ti_signal_views input"
  let ?facts = "derive_incident_facts c ?views"
  let ?results = "validate_evidence other s input c"
  have none: "claim_severity_rank ''none'' \<le> claim_severity_rank v" for v using claim_severity_rank_ge[of v] by (simp add: claim_severity_rank_def)
  have claims: "is_firewall_only (classify_incident c ?views) \<Longrightarrow> vu_validated_claims u = Some []"
    using assms
    by (auto simp: evidence_validation_node_def Let_def bind_err_Inr validate_claims_def check_claim_None filter_empty_conv
        split: if_splits)
  show ?thesis
  proof (cases "filter vr_validated ?results = [] \<and> su_triage_verdict s \<noteq> NEEDS_REVIEW")
    case True
    then have "final_verdict s u = NEEDS_REVIEW" "final_severity s u = ''none''" "final_confidence s u = 0" "vu_incident_type u = None"
      using assms by (auto simp: evidence_validation_node_def Let_def final_verdict_def final_severity_def final_confidence_def)
    then show ?thesis using claims none by simp
  next
    case False
    then obtain cap where cap: "cap_by_facts ?facts (i_severity (tc_incident c))
        \<lparr>cp_submission = s\<lparr>su_incident_type := i_incident_type (tc_incident c)\<rparr>, cp_verdict = None, cp_severity = None,
         cp_adjustments = (if su_incident_type s \<noteq> i_incident_type (tc_incident c)
           then [''deterministic_incident_type_locked''] else [])\<rparr> = Inr cap"
      and u: "vu_triage_verdict u = cp_verdict cap"
        "vu_severity u = (if su_triage_verdict (cp_submission cap) = NEEDS_REVIEW then Some ''none'' else cp_severity cap)"
        "vu_confidence_score u = (if su_triage_verdict (cp_submission cap) = NEEDS_REVIEW then Some 0 else None)"
        "vu_incident_type u = Some (i_incident_type (tc_incident c))"
        "vu_validated_evidence u = filter vr_validated ?results"
      using assms by (auto simp: evidence_validation_node_def Let_def bind_err_Inr split: if_splits)
    have ok: "capped_ok s ?facts (i_severity (tc_incident c)) cap" by (rule cap_by_facts_ok[OF cap])
    have verdict: "final_verdict s u = su_triage_verdict (cp_submission cap)"
      using ok u(1) by (auto simp: capped_ok_def Let_def final_verdict_def split: option.splits)
    have severity: "final_severity s u = (if su_triage_verdict (cp_submission cap) = NEEDS_REVIEW then ''none''
        else triage_severity_value (su_severity (cp_submission cap)))"
      using ok u(2) by (auto simp: capped_ok_def Let_def final_severity_def split: option.splits)
    have confidence: "su_triage_verdict (cp_submission cap) = NEEDS_REVIEW \<Longrightarrow> final_confidence s u = 0"
      using u(3) by (simp add: final_confidence_def)
    have evidence: "su_triage_verdict (cp_submission cap) \<noteq> NEEDS_REVIEW \<Longrightarrow> vu_validated_evidence u \<noteq> []"
      using ok u(5) False by (auto simp: capped_ok_def Let_def)
    have scan: "?facts = ScanProbe f \<Longrightarrow> sp_all_attempts_blocked f \<Longrightarrow> su_triage_verdict (cp_submission cap) \<noteq> CONFIRMED_INCIDENT" for f
      using ok by (simp add: capped_ok_def Let_def)
    have firewall: "su_triage_verdict (cp_submission cap) \<noteq> CONFIRMED_INCIDENT
        \<and> claim_severity_rank (triage_severity_value (su_severity (cp_submission cap))) \<le> claim_severity_rank (i_severity (tc_incident c))"
      if "is_firewall_only (classify_incident c ?views)"
      using that by (rule firewall_only_cases) (use ok in \<open>simp_all add: capped_ok_def Let_def\<close>)
    show ?thesis
      unfolding verdict severity u(4) using confidence evidence scan firewall claims none by simp
  qed
qed

section \<open>Witnesses\<close>

text \<open>A model that calls an exposure a confirmed, critical account compromise.\<close>

definition exposure_candidate :: EvidenceCandidate where
  "exposure_candidate = \<lparr>ec_evidence_id = ''ev1'', ec_event_id = ''E1'', ec_quote = ''pass  in'', ec_reason = ''pass'',
     ec_source = ''mock'', ec_canonical_fields = [(''dst_port'', PInt 22), (''action'', PStr ''pass'')],
     ec_vendor_original_fields = [(''interface'', PStr ''wan'')],
     ec_correlation_context = [(''target_entity'', PStr ''203.0.113.7'')]\<rparr>"

definition exposure_input :: TriageInput where
  "exposure_input = \<lparr>ti_incident_id = ''INC-1'', ti_incident_type = ''exposure'', ti_incident_family = ''firewall_exposure'',
     ti_title = ''Detected'', ti_deterministic_severity = ''low'', ti_deterministic_confidence = 1/2, ti_first_seen = [],
     ti_last_seen = [], ti_primary_entity = ''203.0.113.7'', ti_target_entities = [], ti_deterministic_metrics = [],
     ti_signal_summaries = [], ti_signal_views = [], ti_candidate_evidence = [exposure_candidate],
     ti_limited_context_events = [], ti_allowed_mitre_candidates = [], ti_parser_warnings = [],
     ti_data_quality_warnings = []\<rparr>"

definition bold_claim :: TriageClaim where
  "bold_claim = \<lparr>cl_claim_id = ''c1'', cl_claim_type = ACCOUNT_COMPROMISE, cl_statement = ''compromised'',
     cl_supporting_event_ids = [''E1''], cl_supporting_evidence_ids = [''ev1'']\<rparr>"

definition bold_submission :: TriageSubmission where
  "bold_submission = \<lparr>su_triage_verdict = CONFIRMED_INCIDENT, su_incident_type = ''breach'', su_severity = SevCritical,
     su_confidence_score = 1, su_summary = ''breach'', su_selected_evidence_ids = [''ev1'', ''ev2''],
     su_claims = [bold_claim]\<rparr>"

lemma bold_valid: "validate_submission bold_submission = Inr bold_submission"
  by (simp add: validate_submission_def bold_submission_def)

lemma quote_found: "contains (normalize_text ''pass  in'') (normalize_text ''Pass in on wan'')"
  by code_simp

lemma bold_evidence:
  "validate_evidence other bold_submission exposure_input exposure_context =
     [\<lparr>vr_evidence_id = ''ev1'', vr_event_id = ''E1'', vr_validated = True, vr_rejection_reason = None\<rparr>,
      rejected ''ev2'' ''unknown'' MISSING_SUPPORTING_EVIDENCE]"
  by (simp add: validate_evidence_def bold_submission_def validate_selected_def exposure_input_def exposure_candidate_def
      exposure_context_def dict_of_def trusted_events_def blocked_probe_def CanonicalLogEvent_def check_candidate_def
      fields_agree_def event_fields_def py_str_def opt_text_def opt_int_def source_known_def context_agrees_def
      ALLOWLISTED_FIELDS_def quote_found)

theorem validated_evidence_genuine_witness:
  "\<exists>r c e. r \<in> set (validate_evidence (\<lambda>_. []) bold_submission exposure_input exposure_context) \<and> vr_validated r
     \<and> c \<in> set (ti_candidate_evidence exposure_input) \<and> e \<in> set (tc_events exposure_context) \<and> vr_evidence_id r = ec_evidence_id c
     \<and> ec_quote c \<noteq> [] \<and> contains (normalize_text (ec_quote c)) (normalize_text (e_safe_message_excerpt e))
     \<and> ec_vendor_original_fields c \<noteq> []
     \<and> fields_agree (\<lambda>_. []) (case e_parser_metadata e of None \<Rightarrow> [] | Some d \<Rightarrow> d) (ec_vendor_original_fields c)"
proof -
  let ?r = "\<lparr>vr_evidence_id = ''ev1'', vr_event_id = ''E1'', vr_validated = True, vr_rejection_reason = None\<rparr>"
  have r: "?r \<in> set (validate_evidence (\<lambda>_. []) bold_submission exposure_input exposure_context)" "vr_validated ?r"
    unfolding bold_evidence by simp_all
  have only: "set (ti_candidate_evidence exposure_input) = {exposure_candidate}" "tc_context_events exposure_context = []"
    "ec_quote exposure_candidate \<noteq> []" "ec_vendor_original_fields exposure_candidate \<noteq> []"
    by (simp_all add: exposure_input_def exposure_context_def exposure_candidate_def)
  from validated_evidence_genuine[OF r] obtain c e where "c \<in> set (ti_candidate_evidence exposure_input)"
    "e \<in> set (tc_events exposure_context)" "vr_evidence_id ?r = ec_evidence_id c"
    "ec_quote c = [] \<or> contains (normalize_text (ec_quote c)) (normalize_text (e_safe_message_excerpt e))"
    "fields_agree (\<lambda>_. []) (case e_parser_metadata e of None \<Rightarrow> [] | Some d \<Rightarrow> d) (ec_vendor_original_fields c)"
    unfolding only(2) append_Nil2 by blast
  moreover from this(1) have "c = exposure_candidate" using only(1) by blast
  ultimately show ?thesis using r only(3,4) by blast
qed

lemma exposure_firewall_only: "is_firewall_only (classify_incident exposure_context vs)"
  by (simp add: exposure_context_def is_firewall_only_def classify_simps EXPOSURE_POLICY_FAMILIES_def scanner_incident_def)

theorem model_output_conservative_witness:
  "\<exists>u. evidence_validation_node (\<lambda>_. []) (Some bold_submission) (Some exposure_input) (Some (Inr exposure_context)) = Inr u
     \<and> vu_validated_evidence u \<noteq> [] \<and> final_verdict bold_submission u \<noteq> CONFIRMED_INCIDENT
     \<and> final_verdict bold_submission u \<noteq> NEEDS_REVIEW \<and> vu_validated_claims u = Some []
     \<and> claim_severity_rank (final_severity bold_submission u) \<le> claim_severity_rank ''low''"
proof -
  have facts: "derive_incident_facts exposure_context [] = FirewallExposure (derive_exposure_facts exposure_context ''repeated_blocked_scanner'')"
    using exposure_firewall_only[of "[]"]
    by (simp add: derive_incident_facts_def Let_def classify_simps exposure_context_def scanner_incident_def
        EXPOSURE_POLICY_FAMILIES_def SEQUENCE_SIGNAL_TYPES_def)
  have fields: "i_severity (tc_incident exposure_context) = ''low''" "ti_signal_views exposure_input = []"
    "i_incident_type (tc_incident exposure_context) = ''repeated_blocked_scanner''"
    by (simp_all add: exposure_context_def scanner_incident_def exposure_input_def)
  have "\<exists>u. evidence_validation_node (\<lambda>_. []) (Some bold_submission) (Some exposure_input) (Some (Inr exposure_context)) = Inr u
      \<and> vu_triage_verdict u = Some SUSPICIOUS_ACTIVITY"
    unfolding evidence_validation_node_def prod.case option.case bold_valid bind_err_simps sum.case Let_def bold_evidence
    by (simp add: fields facts exposure_facts_unproven[OF facts] cap_by_facts_def cap_verdict_def
        cap_severity_def bold_submission_def claim_severity_rank_def severity_of_def rejected_def)
  then obtain u where u: "evidence_validation_node (\<lambda>_. []) (Some bold_submission) (Some exposure_input)
      (Some (Inr exposure_context)) = Inr u" "vu_triage_verdict u = Some SUSPICIOUS_ACTIVITY" by blast
  have "final_verdict bold_submission u = SUSPICIOUS_ACTIVITY" using u(2) by (simp add: final_verdict_def)
  moreover have "i_severity (tc_incident exposure_context) = ''low''" by (simp add: exposure_context_def scanner_incident_def)
  ultimately show ?thesis
    using model_output_conservative[OF bold_valid u(1)] exposure_firewall_only[of "ti_signal_views exposure_input"] u(1)
    by auto
qed

end
