(* ===== verification/Retention.thy ===== *)
theory Retention
  imports SocPrelude
begin

text \<open>
  Retention: the policy and its cut-offs (\<open>application/retention.py\<close>) and the central predicates that
  say which rows may go (\<open>persistence/retention_repository.py\<close>), over the tables they read. A row
  holds the columns the predicates and the cleanup use; a nullable column is an option. The checks of
  the days against \<open>bool\<close> and non-integers are left to the types.
\<close>

section \<open>Policy\<close>

datatype RetentionEntity = CanonicalEventEntity | DetectionSignalEntity | IngestionJobEntity | IncidentEntity
  | AuditEventEntity

primrec entity_name :: "RetentionEntity \<Rightarrow> string" where
  "entity_name CanonicalEventEntity = ''canonical_event''"
| "entity_name DetectionSignalEntity = ''detection_signal''"
| "entity_name IngestionJobEntity = ''ingestion_job''"
| "entity_name IncidentEntity = ''incident''"
| "entity_name AuditEventEntity = ''audit_event''"

record RetentionPolicy =
  rp_version :: string
  rp_canonical_event_days :: int
  rp_detection_signal_days :: int
  rp_completed_job_days :: int
  rp_terminal_incident_days :: int
  rp_audit_event_days :: int

definition version_start :: "char \<Rightarrow> bool" where
  "version_start c = (is_upper c \<or> is_lower c \<or> is_digit c)"

definition version_rest :: "char \<Rightarrow> bool" where
  "version_rest c = (version_start c \<or> c = CHR ''.'' \<or> c = CHR ''_'' \<or> c = CHR ''-'')"

definition version_ok :: "string \<Rightarrow> bool" where
  "version_ok s = (case s of [] \<Rightarrow> False | c # cs \<Rightarrow> version_start c \<and> list_all version_rest cs \<and> length cs \<le> 31)"

definition validate_policy :: "RetentionPolicy \<Rightarrow> string + RetentionPolicy" where
  "validate_policy p =
     (if \<not> version_ok (rp_version p) then Inl ''retention_policy_version_invalid''
      else if list_ex (\<lambda>d. d < 1 \<or> d > 36500) [rp_canonical_event_days p, rp_detection_signal_days p,
          rp_completed_job_days p, rp_terminal_incident_days p, rp_audit_event_days p]
      then Inl ''retention_policy_days_invalid'' else Inr p)"

record RetentionCutoffs =
  rc_canonical_event :: datetime
  rc_detection_signal :: datetime
  rc_ingestion_job :: datetime
  rc_incident :: datetime
  rc_audit_event :: datetime

definition minus_days :: "datetime \<Rightarrow> int \<Rightarrow> datetime" where
  "minus_days t d = plus_seconds t (- 86400 * d)"

definition policy_cutoffs :: "RetentionPolicy \<Rightarrow> datetime \<Rightarrow> RetentionCutoffs" where
  "policy_cutoffs p as_of = \<lparr>rc_canonical_event = minus_days as_of (rp_canonical_event_days p),
     rc_detection_signal = minus_days as_of (rp_detection_signal_days p),
     rc_ingestion_job = minus_days as_of (rp_completed_job_days p),
     rc_incident = minus_days as_of (rp_terminal_incident_days p),
     rc_audit_event = minus_days as_of (rp_audit_event_days p)\<rparr>"

section \<open>Tables\<close>

record StoredEvent =
  st_event_id :: string
  st_timestamp :: "datetime option"

record StoredSignal =
  sg_signal_id :: string
  sg_created_at :: "datetime option"
  sg_event_ids :: "string list"

record StoredJob =
  jb_id :: string
  jb_status :: "string option"
  jb_completed_at :: "datetime option"

record StoredIncident =
  in_incident_id :: string
  in_status :: "string option"
  in_updated_at :: "datetime option"

record StoredAudit =
  au_id :: nat
  au_audit_event_id :: "string option"
  au_timestamp :: "datetime option"
  au_incident_id :: "string option"

text \<open>A triage run, an evidence item or a report; the last two may belong to a triage run.\<close>

record Dependent =
  dp_id :: nat
  dp_key :: "string option"
  dp_incident_id :: "string option"
  dp_job_id :: "string option"
  dp_event_id :: "string option"
  dp_triage_run_id :: "nat option"

record RetentionHold =
  rh_entity_type :: string
  rh_entity_id :: string
  rh_released_at :: "datetime option"
  rh_expires_at :: "datetime option"

text \<open>The associations are pairs, the owner (incident or job) first.\<close>

record Tables =
  db_events :: "StoredEvent list"
  db_signals :: "StoredSignal list"
  db_jobs :: "StoredJob list"
  db_incidents :: "StoredIncident list"
  db_audit :: "StoredAudit list"
  db_triage :: "Dependent list"
  db_evidence :: "Dependent list"
  db_reports :: "Dependent list"
  db_incident_events :: "(string \<times> string) list"
  db_incident_signals :: "(string \<times> string) list"
  db_job_events :: "(string \<times> string) list"
  db_job_signals :: "(string \<times> string) list"
  db_job_incidents :: "(string \<times> string) list"
  db_correlation :: "string list"
  db_holds :: "RetentionHold list"

section \<open>Predicates\<close>

definition TERMINAL_INCIDENT_STATUSES :: "string list" where
  "TERMINAL_INCIDENT_STATUSES = [''resolved'', ''closed'']"

definition ELIGIBLE_JOB_STATUSES :: "string list" where
  "ELIGIBLE_JOB_STATUSES = [''completed'']"

definition active_hold :: "RetentionEntity \<Rightarrow> string \<Rightarrow> datetime \<Rightarrow> Tables \<Rightarrow> bool" where
  "active_hold entity i as_of db = list_ex (\<lambda>h. rh_entity_type h = entity_name entity \<and> rh_entity_id h = i
     \<and> rh_released_at h = None \<and> (case rh_expires_at h of None \<Rightarrow> True | Some t \<Rightarrow> t > as_of)) (db_holds db)"

definition status_in :: "string option \<Rightarrow> string list \<Rightarrow> bool" where
  "status_in status allowed = (case status of None \<Rightarrow> False | Some s \<Rightarrow> s \<in> set allowed)"

definition protected_incident_status :: "StoredIncident \<Rightarrow> bool" where
  "protected_incident_status i = (in_status i = None \<or> \<not> status_in (in_status i) TERMINAL_INCIDENT_STATUSES)"

definition protected_job_status :: "StoredJob \<Rightarrow> bool" where
  "protected_job_status j = (jb_status j = None \<or> \<not> status_in (jb_status j) ELIGIBLE_JOB_STATUSES)"

definition aged :: "datetime option \<Rightarrow> datetime \<Rightarrow> bool" where
  "aged t cutoff = (case t of None \<Rightarrow> False | Some u \<Rightarrow> u < cutoff)"

text \<open>\<open>exists(select ... join ...)\<close>: an association of the row with an owner that is protected.\<close>

definition linked_incident :: "(string \<times> string) list \<Rightarrow> string \<Rightarrow> Tables \<Rightarrow> bool" where
  "linked_incident associations i db = list_ex (\<lambda>(owner, x). x = i \<and>
     list_ex (\<lambda>inc. in_incident_id inc = owner \<and> protected_incident_status inc) (db_incidents db)) associations"

definition linked_job :: "(string \<times> string) list \<Rightarrow> string \<Rightarrow> Tables \<Rightarrow> bool" where
  "linked_job associations i db = list_ex (\<lambda>(owner, x). x = i \<and>
     list_ex (\<lambda>j. jb_id j = owner \<and> protected_job_status j) (db_jobs db)) associations"

definition event_protected :: "Tables \<Rightarrow> StoredEvent \<Rightarrow> bool" where
  "event_protected db e = (linked_incident (db_incident_events db) (st_event_id e) db
     \<or> linked_job (db_job_events db) (st_event_id e) db)"

definition event_candidate :: "RetentionCutoffs \<Rightarrow> datetime \<Rightarrow> Tables \<Rightarrow> StoredEvent \<Rightarrow> bool" where
  "event_candidate cutoffs as_of db e = (aged (st_timestamp e) (rc_canonical_event cutoffs)
     \<and> \<not> event_protected db e \<and> \<not> active_hold CanonicalEventEntity (st_event_id e) as_of db)"

definition signal_protected :: "Tables \<Rightarrow> StoredSignal \<Rightarrow> bool" where
  "signal_protected db s = (linked_incident (db_incident_signals db) (sg_signal_id s) db
     \<or> linked_job (db_job_signals db) (sg_signal_id s) db)"

definition signal_candidate :: "RetentionCutoffs \<Rightarrow> datetime \<Rightarrow> Tables \<Rightarrow> StoredSignal \<Rightarrow> bool" where
  "signal_candidate cutoffs as_of db s = (aged (sg_created_at s) (rc_detection_signal cutoffs)
     \<and> \<not> signal_protected db s \<and> \<not> active_hold DetectionSignalEntity (sg_signal_id s) as_of db)"

definition job_active_incident :: "Tables \<Rightarrow> StoredJob \<Rightarrow> bool" where
  "job_active_incident db j = linked_incident (map prod.swap (db_job_incidents db)) (jb_id j) db"

definition job_candidate :: "RetentionCutoffs \<Rightarrow> datetime \<Rightarrow> Tables \<Rightarrow> StoredJob \<Rightarrow> bool" where
  "job_candidate cutoffs as_of db j = (aged (jb_completed_at j) (rc_ingestion_job cutoffs)
     \<and> status_in (jb_status j) ELIGIBLE_JOB_STATUSES \<and> \<not> job_active_incident db j
     \<and> \<not> active_hold IngestionJobEntity (jb_id j) as_of db)"

definition incident_candidate :: "RetentionCutoffs \<Rightarrow> datetime \<Rightarrow> Tables \<Rightarrow> StoredIncident \<Rightarrow> bool" where
  "incident_candidate cutoffs as_of db i = (aged (in_updated_at i) (rc_incident cutoffs)
     \<and> status_in (in_status i) TERMINAL_INCIDENT_STATUSES \<and> \<not> active_hold IncidentEntity (in_incident_id i) as_of db)"

definition audit_archive_id :: "StoredAudit \<Rightarrow> string" where
  "audit_archive_id a = (case au_audit_event_id a of Some i \<Rightarrow> i | None \<Rightarrow> str_of_nat (au_id a))"

definition audit_candidate :: "RetentionCutoffs \<Rightarrow> datetime \<Rightarrow> Tables \<Rightarrow> StoredAudit \<Rightarrow> bool" where
  "audit_candidate cutoffs as_of db a = (aged (au_timestamp a) (rc_audit_event cutoffs)
     \<and> \<not> active_hold AuditEventEntity (audit_archive_id a) as_of db)"

section \<open>Planning\<close>

text \<open>The rows of an entity with the predicates of its specification: the identifier, the time and
  whether the row is a candidate, protected by an active relation, and protected by a hold.\<close>

record SpecRow =
  sr_id :: string
  sr_time :: "datetime option"
  sr_candidate :: bool
  sr_protected_active :: bool
  sr_protected_hold :: bool

definition candidate_spec :: "RetentionEntity \<Rightarrow> RetentionCutoffs \<Rightarrow> datetime \<Rightarrow> Tables \<Rightarrow> SpecRow list" where
  "candidate_spec entity cutoffs as_of db = (case entity of
     CanonicalEventEntity \<Rightarrow> map (\<lambda>e. \<lparr>sr_id = st_event_id e, sr_time = st_timestamp e,
       sr_candidate = event_candidate cutoffs as_of db e,
       sr_protected_active = (aged (st_timestamp e) (rc_canonical_event cutoffs) \<and> event_protected db e),
       sr_protected_hold = (aged (st_timestamp e) (rc_canonical_event cutoffs)
         \<and> active_hold entity (st_event_id e) as_of db)\<rparr>) (db_events db)
   | DetectionSignalEntity \<Rightarrow> map (\<lambda>s. \<lparr>sr_id = sg_signal_id s, sr_time = sg_created_at s,
       sr_candidate = signal_candidate cutoffs as_of db s,
       sr_protected_active = (aged (sg_created_at s) (rc_detection_signal cutoffs) \<and> signal_protected db s),
       sr_protected_hold = (aged (sg_created_at s) (rc_detection_signal cutoffs)
         \<and> active_hold entity (sg_signal_id s) as_of db)\<rparr>) (db_signals db)
   | IngestionJobEntity \<Rightarrow> map (\<lambda>j. \<lparr>sr_id = jb_id j, sr_time = jb_completed_at j,
       sr_candidate = job_candidate cutoffs as_of db j,
       sr_protected_active = (aged (jb_completed_at j) (rc_ingestion_job cutoffs)
         \<and> (protected_job_status j \<or> job_active_incident db j)),
       sr_protected_hold = (aged (jb_completed_at j) (rc_ingestion_job cutoffs)
         \<and> status_in (jb_status j) ELIGIBLE_JOB_STATUSES \<and> active_hold entity (jb_id j) as_of db)\<rparr>) (db_jobs db)
   | IncidentEntity \<Rightarrow> map (\<lambda>i. \<lparr>sr_id = in_incident_id i, sr_time = in_updated_at i,
       sr_candidate = incident_candidate cutoffs as_of db i,
       sr_protected_active = (aged (in_updated_at i) (rc_incident cutoffs) \<and> protected_incident_status i),
       sr_protected_hold = (aged (in_updated_at i) (rc_incident cutoffs)
         \<and> status_in (in_status i) TERMINAL_INCIDENT_STATUSES \<and> active_hold entity (in_incident_id i) as_of db)\<rparr>)
       (db_incidents db)
   | AuditEventEntity \<Rightarrow> map (\<lambda>a. \<lparr>sr_id = audit_archive_id a, sr_time = au_timestamp a,
       sr_candidate = audit_candidate cutoffs as_of db a, sr_protected_active = False,
       sr_protected_hold = (aged (au_timestamp a) (rc_audit_event cutoffs)
         \<and> active_hold entity (audit_archive_id a) as_of db)\<rparr>) (db_audit db))"

record RetentionCandidateSummary =
  rs_entity_type :: RetentionEntity
  rs_candidate_count :: nat
  rs_oldest_candidate_at :: "datetime option"
  rs_newest_candidate_at :: "datetime option"
  rs_protected_active_count :: nat
  rs_protected_hold_count :: nat

definition aggregate_spec :: "RetentionEntity \<Rightarrow> SpecRow list \<Rightarrow> RetentionCandidateSummary" where
  "aggregate_spec entity rows =
     (let times = somes sr_time (filter sr_candidate rows)
      in \<lparr>rs_entity_type = entity, rs_candidate_count = length (filter sr_candidate rows),
          rs_oldest_candidate_at = (if times = [] then None else Some (Min (set times))),
          rs_newest_candidate_at = (if times = [] then None else Some (Max (set times))),
          rs_protected_active_count = length (filter sr_protected_active rows),
          rs_protected_hold_count = length (filter sr_protected_hold rows)\<rparr>)"

definition summarize :: "RetentionCutoffs \<Rightarrow> datetime \<Rightarrow> Tables \<Rightarrow> RetentionCandidateSummary list" where
  "summarize cutoffs as_of db = map (\<lambda>entity. aggregate_spec entity (candidate_spec entity cutoffs as_of db))
     [CanonicalEventEntity, DetectionSignalEntity, IngestionJobEntity, IncidentEntity, AuditEventEntity]"

section \<open>Batches by cursor\<close>

text \<open>The rows after the cursor in the order of the key, at most a batch of them; the next cursor is
  the key of the last row.\<close>

definition batch_after :: "('a \<Rightarrow> 'k::linorder) \<Rightarrow> nat \<Rightarrow> 'k option \<Rightarrow> 'a list \<Rightarrow> 'a list" where
  "batch_after key limit cursor rows = take limit (sort_key key
     (filter (\<lambda>r. case cursor of None \<Rightarrow> True | Some k \<Rightarrow> key r > k) rows))"

text \<open>The loop \<open>while True\<close>, by the rows that remain.\<close>

function batches_after :: "('a \<Rightarrow> 'k::linorder) \<Rightarrow> nat \<Rightarrow> 'k option \<Rightarrow> 'a list \<Rightarrow> 'a list list" where
  "batches_after key limit cursor rows =
     (let batch = batch_after key limit cursor rows
      in if batch = [] then []
         else batch # batches_after key limit (Some (key (last batch))) rows)"
  by pat_completeness auto

definition after :: "('a \<Rightarrow> 'k::linorder) \<Rightarrow> 'k option \<Rightarrow> 'a list \<Rightarrow> 'a list" where
  "after key cursor rows = filter (\<lambda>r. case cursor of None \<Rightarrow> True | Some k \<Rightarrow> key r > k) rows"

lemma batch_after_alt: "batch_after key limit cursor rows = take limit (sort_key key (after key cursor rows))"
  by (simp add: batch_after_def after_def)

lemma after_advances:
  assumes "batch_after key limit cursor rows \<noteq> []"
  shows "length (after key (Some (key (last (batch_after key limit cursor rows)))) rows) < length (after key cursor rows)"
proof -
  let ?k = "key (last (batch_after key limit cursor rows))"
  have "last (batch_after key limit cursor rows) \<in> set (after key cursor rows)"
    using last_in_set[OF assms] by (metis batch_after_alt in_set_takeD set_sort)
  then have past: "case cursor of None \<Rightarrow> True | Some c \<Rightarrow> ?k > c" and row: "last (batch_after key limit cursor rows) \<in> set rows"
    by (auto simp: after_def)
  have sub: "after key (Some ?k) rows = filter (\<lambda>r. key r > ?k) (after key cursor rows)"
    unfolding after_def filter_filter using past by (intro filter_cong) (auto split: option.splits)
  have "last (batch_after key limit cursor rows) \<in> set (after key cursor rows)" using past row by (simp add: after_def)
  then show ?thesis unfolding sub by (intro length_filter_less) auto
qed

termination batches_after
  by (relation "measure (\<lambda>(key, limit, cursor, rows). length (after key cursor rows))") (simp_all add: after_advances)

declare batches_after.simps [simp del]

lemma filter_beyond:
  fixes key :: "'a \<Rightarrow> 'k::linorder"
  assumes "sorted_wrt (<) (map key (xs @ x # ys))"
  shows "filter (\<lambda>r. key r > key x) (xs @ x # ys) = ys"
proof -
  have "\<forall>r \<in> set xs. \<not> key r > key x" and "\<forall>r \<in> set ys. key r > key x"
    using assms by (auto simp: sorted_wrt_append not_less intro: less_imp_le)
  then show ?thesis by (simp add: filter_id_conv filter_empty_conv)
qed

lemma strictly_sorted:
  "distinct (map key rows) \<Longrightarrow> sorted_wrt (<) (map key (sort_key key rows))"
  by (rule strict_sorted_iff[THEN iffD2]) (simp add: distinct_map)

lemma after_batch:
  assumes "distinct (map key rows)" and "batch_after key limit cursor rows \<noteq> []"
  shows "sort_key key (after key (Some (key (last (batch_after key limit cursor rows)))) rows)
     = drop limit (sort_key key (after key cursor rows))"
proof -
  let ?sorted = "sort_key key (after key cursor rows)"
  have ne: "take limit ?sorted \<noteq> []" using assms(2) by (simp add: batch_after_alt)
  define x where "x = last (take limit ?sorted)"
  obtain xs where xs: "take limit ?sorted = xs @ [x]" using ne unfolding x_def by (metis append_butlast_last_id)
  then have split: "?sorted = xs @ x # drop limit ?sorted"
    using append_take_drop_id[of limit ?sorted] by simp
  have "distinct (map key (after key cursor rows))" using assms(1) unfolding after_def by (rule distinct_map_filter)
  then have "sorted_wrt (<) (map key ?sorted)" by (rule strictly_sorted)
  then have beyond: "filter (\<lambda>r. key r > key x) ?sorted = drop limit ?sorted"
    using filter_beyond[of key xs x "drop limit ?sorted"] split by simp
  have "x \<in> set (after key cursor rows)" using xs by (metis in_set_conv_decomp in_set_takeD set_sort)
  then have past: "case cursor of None \<Rightarrow> True | Some c \<Rightarrow> key x > c" by (simp add: after_def)
  have "after key (Some (key x)) rows = filter (\<lambda>r. key r > key x) (after key cursor rows)"
    unfolding after_def filter_filter using past by (intro filter_cong) (auto split: option.splits)
  then have "sort_key key (after key (Some (key x)) rows) = filter (\<lambda>r. key r > key x) ?sorted" by (simp add: filter_sort)
  then show ?thesis using beyond by (simp add: x_def batch_after_alt)
qed

text \<open>Reading the candidates batch by batch loses and repeats nothing: the batches in order are all
  rows beyond the cursor in the order of the key, each batch is non-empty and within the limit, and the
  reading ends.\<close>

theorem cursor_batches_complete:
  assumes "distinct (map key rows)" and "0 < limit"
  shows "concat (batches_after key limit cursor rows) = sort_key key (after key cursor rows)
    \<and> (\<forall>batch \<in> set (batches_after key limit cursor rows). batch \<noteq> [] \<and> length batch \<le> limit)"
  using assms
proof (induction key limit cursor rows rule: batches_after.induct)
  case (1 key limit cursor rows)
  let ?batch = "batch_after key limit cursor rows"
  show ?case
  proof (cases "?batch = []")
    case True
    then have "sort_key key (after key cursor rows) = []" using "1.prems"(2) by (auto simp: batch_after_alt)
    with True show ?thesis by (subst (1 2) batches_after.simps) simp
  next
    case False
    let ?rest = "batches_after key limit (Some (key (last ?batch))) rows"
    have eq: "batches_after key limit cursor rows = ?batch # ?rest"
      using False by (subst batches_after.simps) (simp add: Let_def)
    have "length ?batch \<le> limit" by (simp add: batch_after_def)
    moreover have "concat ?rest = drop limit (sort_key key (after key cursor rows))
        \<and> (\<forall>batch \<in> set ?rest. batch \<noteq> [] \<and> length batch \<le> limit)"
      using "1.IH"[OF refl False "1.prems"] after_batch[OF "1.prems"(1) False] by simp
    ultimately show ?thesis unfolding eq using False by (auto simp: batch_after_alt)
  qed
qed

theorem cursor_batches_complete_witness:
  "concat (batches_after id 2 None [5, 3, 9, 1, 7 :: int]) = [1, 3, 5, 7, 9]"
  using cursor_batches_complete[of id "[5, 3, 9, 1, 7 :: int]" 2 None] by (simp add: after_def)

end
