(* ===== verification/Cleanup.thy ===== *)
theory Cleanup
  imports Retention
begin

text \<open>
  Deleting archived rows, \<open>persistence/cleanup_repository.py\<close>, with the membership index of
  \<open>archive/index.py\<close>: a batch of archived candidates is classified against the current tables, and
  the rows that are still candidates and whose dependent rows are all in the archive are deleted, in
  one transaction. A set of identifiers is a list without repetitions. The foreign keys of the driver
  are not modelled; that no reference is left dangling is proved.
\<close>

section \<open>The archive\<close>

record ArchiveRecord =
  ar_entity_type :: string
  ar_entity_id :: string
  ar_role :: string
  ar_recorded_at :: datetime

text \<open>\<open>ArchiveMembershipIndex.build\<close>: the primary key refuses a second record of an entity.\<close>

definition build_index :: "nat \<Rightarrow> nat \<Rightarrow> ArchiveRecord list \<Rightarrow> string + ArchiveRecord list" where
  "build_index candidate_count dependency_count records =
     (if \<not> distinct (map (\<lambda>r. (ar_entity_type r, ar_entity_id r)) records) then Inl ''archive_index_duplicate''
      else if length (filter (\<lambda>r. ar_role r = ''retention_candidate'') records) \<noteq> candidate_count
         \<or> length (filter (\<lambda>r. ar_role r \<noteq> ''retention_candidate'') records) \<noteq> dependency_count
      then Inl ''archive_index_count_mismatch'' else Inr records)"

definition candidate_key :: "ArchiveRecord \<Rightarrow> datetime \<times> string" where
  "candidate_key r = (ar_recorded_at r, ar_entity_id r)"

definition archived_candidates :: "ArchiveRecord list \<Rightarrow> RetentionEntity \<Rightarrow> ArchiveRecord list" where
  "archived_candidates index entity =
     filter (\<lambda>r. ar_role r = ''retention_candidate'' \<and> ar_entity_type r = entity_name entity) index"

definition candidate_batch :: "ArchiveRecord list \<Rightarrow> RetentionEntity \<Rightarrow> (datetime \<times> string) option \<Rightarrow> nat
    \<Rightarrow> string + ArchiveRecord list" where
  "candidate_batch index entity cursor batch_size =
     (if \<not> (1 \<le> batch_size \<and> batch_size \<le> 5000) then Inl ''cleanup_batch_size_invalid''
      else if (case cursor of None \<Rightarrow> False | Some k \<Rightarrow> k \<notin> candidate_key ` set (archived_candidates index entity))
      then Inl ''cleanup_cursor_invalid''
      else Inr (batch_after candidate_key batch_size cursor (archived_candidates index entity)))"

definition contains_all_dependencies :: "ArchiveRecord list \<Rightarrow> (string \<times> string) list \<Rightarrow> bool" where
  "contains_all_dependencies index keys = list_all (\<lambda>(t, i). list_ex (\<lambda>r. ar_role r = ''dependency''
     \<and> ar_entity_type r = t \<and> ar_entity_id r = i) index) keys"

section \<open>Dependent rows\<close>

definition dependent_key :: "string \<Rightarrow> string \<Rightarrow> Dependent \<Rightarrow> string \<times> string" where
  "dependent_key kind fallback r = (kind, case truthy_value (dp_key r) of Some k \<Rightarrow> k
     | None \<Rightarrow> fallback @ str_of_nat (dp_id r))"

definition pair_key :: "string \<Rightarrow> string \<times> string \<Rightarrow> string \<times> string" where
  "pair_key kind p = (kind, fst p @ '':'' @ snd p)"

definition owned_by :: "(Dependent \<Rightarrow> string option) \<Rightarrow> string \<Rightarrow> Dependent list \<Rightarrow> Dependent list" where
  "owned_by owner i rows = filter (\<lambda>r. owner r = Some i) rows"

text \<open>\<open>_incident_dependency_rows\<close>: the keys and the linked jobs, or \<open>None\<close> beyond the limit. A query is
  limited to one row more than the limit, which does not change whether the total exceeds it.\<close>

definition incident_dependency_rows :: "string \<Rightarrow> nat \<Rightarrow> Tables \<Rightarrow> ((string \<times> string) list \<times> string list) option" where
  "incident_dependency_rows i limit db =
     (let triage = owned_by dp_incident_id i (db_triage db);
          evidence = owned_by dp_incident_id i (db_evidence db);
          reports = owned_by dp_incident_id i (db_reports db);
          incident_events = filter (\<lambda>p. fst p = i) (db_incident_events db);
          incident_signals = filter (\<lambda>p. fst p = i) (db_incident_signals db);
          job_incidents = filter (\<lambda>p. snd p = i) (db_job_incidents db)
      in if length triage + length evidence + length reports + length incident_events + length incident_signals
            + length job_incidents > limit then None
         else Some
           (map (dependent_key ''triage_run'' ''triage-row-'') triage @ map (dependent_key ''evidence_item'' ''evidence-row-'') evidence
            @ map (dependent_key ''report'' ''report-row-'') reports
            @ map (pair_key ''incident_event_association'') incident_events
            @ map (pair_key ''incident_signal_association'') incident_signals
            @ map (pair_key ''job_incident_association'') job_incidents,
            remdups (somes dp_job_id (triage @ evidence @ reports) @ map fst job_incidents)))"

definition job_dependency_rows :: "string \<Rightarrow> nat \<Rightarrow> Tables \<Rightarrow> ((string \<times> string) list \<times> bool) option" where
  "job_dependency_rows j limit db =
     (let triage = owned_by dp_job_id j (db_triage db);
          evidence = owned_by dp_job_id j (db_evidence db);
          reports = owned_by dp_job_id j (db_reports db);
          job_events = filter (\<lambda>p. fst p = j) (db_job_events db);
          job_signals = filter (\<lambda>p. fst p = j) (db_job_signals db);
          job_incidents = filter (\<lambda>p. fst p = j) (db_job_incidents db)
      in if length triage + length evidence + length reports + length job_events + length job_signals
            + length job_incidents > limit then None
         else Some
           (map (dependent_key ''triage_run'' ''triage-row-'') triage @ map (dependent_key ''evidence_item'' ''evidence-row-'') evidence
            @ map (dependent_key ''report'' ''report-row-'') reports
            @ map (pair_key ''job_event_association'') job_events
            @ map (pair_key ''job_signal_association'') job_signals,
            job_incidents \<noteq> [] \<or> list_ex (\<lambda>r. dp_incident_id r \<noteq> None) (triage @ evidence @ reports)))"

section \<open>Classification\<close>

definition classify :: "RetentionEntity \<Rightarrow> string list \<Rightarrow> RetentionCutoffs \<Rightarrow> datetime \<Rightarrow> Tables \<Rightarrow> string list \<times> string list" where
  "classify entity ids cutoffs as_of db =
     (let rows = candidate_spec entity cutoffs as_of db; asked = remdups ids
      in (filter (\<lambda>i. i \<in> set (map sr_id rows)) asked,
          filter (\<lambda>i. i \<in> set (map sr_id (filter sr_candidate rows))) asked))"

definition safe_incident :: "RetentionCutoffs \<Rightarrow> datetime \<Rightarrow> ArchiveRecord list \<Rightarrow> nat \<Rightarrow> Tables \<Rightarrow> string \<Rightarrow> bool" where
  "safe_incident cutoffs as_of index limit db i = (case incident_dependency_rows i limit db of
     None \<Rightarrow> False
   | Some (keys, linked_jobs) \<Rightarrow>
       (linked_jobs = [] \<or> (case classify IngestionJobEntity linked_jobs cutoffs as_of db of (existing, eligible) \<Rightarrow>
          set existing = set linked_jobs \<and> set eligible = set linked_jobs))
       \<and> contains_all_dependencies index keys
       \<and> \<not> list_ex (\<lambda>a. au_incident_id a = Some i) (db_audit db))"

definition safe_job :: "ArchiveRecord list \<Rightarrow> nat \<Rightarrow> Tables \<Rightarrow> string \<Rightarrow> bool" where
  "safe_job index limit db j = (case job_dependency_rows j limit db of
     None \<Rightarrow> False
   | Some (keys, has_incident_reference) \<Rightarrow> \<not> has_incident_reference \<and> contains_all_dependencies index keys)"

definition event_referenced :: "Tables \<Rightarrow> string \<Rightarrow> bool" where
  "event_referenced db i = (i \<in> set (map snd (db_incident_events db)) \<or> i \<in> set (map snd (db_job_events db))
     \<or> list_ex (\<lambda>r. dp_event_id r = Some i) (db_evidence db))"

definition signal_referenced :: "Tables \<Rightarrow> string \<Rightarrow> bool" where
  "signal_referenced db i = (i \<in> set (map snd (db_incident_signals db)) \<or> i \<in> set (map snd (db_job_signals db)))"

definition safe_ids :: "RetentionEntity \<Rightarrow> RetentionCutoffs \<Rightarrow> datetime \<Rightarrow> ArchiveRecord list \<Rightarrow> nat \<Rightarrow> Tables
    \<Rightarrow> string list \<Rightarrow> string list" where
  "safe_ids entity cutoffs as_of index limit db eligible = (case entity of
     IncidentEntity \<Rightarrow> filter (safe_incident cutoffs as_of index limit db) eligible
   | IngestionJobEntity \<Rightarrow> filter (safe_job index limit db) eligible
   | CanonicalEventEntity \<Rightarrow> filter (\<lambda>i. \<not> event_referenced db i) eligible
   | DetectionSignalEntity \<Rightarrow> filter (\<lambda>i. \<not> signal_referenced db i) eligible
   | AuditEventEntity \<Rightarrow> eligible)"

section \<open>Deletion\<close>

definition without :: "(Dependent \<Rightarrow> string option) \<Rightarrow> string list \<Rightarrow> Dependent list \<Rightarrow> Dependent list" where
  "without owner ids rows = filter (\<lambda>r. owner r \<notin> Some ` set ids) rows"

definition delete_incident_dependencies :: "string list \<Rightarrow> Tables \<Rightarrow> Tables" where
  "delete_incident_dependencies ids db = db\<lparr>
     db_reports := without dp_incident_id ids (db_reports db),
     db_evidence := without dp_incident_id ids (db_evidence db),
     db_triage := without dp_incident_id ids (db_triage db),
     db_incident_events := filter (\<lambda>p. fst p \<notin> set ids) (db_incident_events db),
     db_incident_signals := filter (\<lambda>p. fst p \<notin> set ids) (db_incident_signals db),
     db_job_incidents := filter (\<lambda>p. snd p \<notin> set ids) (db_job_incidents db),
     db_correlation := filter (\<lambda>i. i \<notin> set ids) (db_correlation db)\<rparr>"

definition delete_job_dependencies :: "string list \<Rightarrow> Tables \<Rightarrow> Tables" where
  "delete_job_dependencies ids db = db\<lparr>
     db_reports := without dp_job_id ids (db_reports db),
     db_evidence := without dp_job_id ids (db_evidence db),
     db_triage := without dp_job_id ids (db_triage db),
     db_job_events := filter (\<lambda>p. fst p \<notin> set ids) (db_job_events db),
     db_job_signals := filter (\<lambda>p. fst p \<notin> set ids) (db_job_signals db),
     db_job_incidents := filter (\<lambda>p. fst p \<notin> set ids) (db_job_incidents db)\<rparr>"

text \<open>\<open>DELETE ... WHERE\<close>: the number of rows and the rows that remain.\<close>

definition delete_where :: "('a \<Rightarrow> bool) \<Rightarrow> 'a list \<Rightarrow> nat \<times> 'a list" where
  "delete_where p rows = (length (filter p rows), filter (\<lambda>r. \<not> p r) rows)"

definition delete_roots :: "RetentionEntity \<Rightarrow> string list \<Rightarrow> RetentionCutoffs \<Rightarrow> datetime \<Rightarrow> Tables \<Rightarrow> nat \<times> Tables" where
  "delete_roots entity ids cutoffs as_of db = (case entity of
     CanonicalEventEntity \<Rightarrow> (case delete_where (\<lambda>e. st_event_id e \<in> set ids \<and> event_candidate cutoffs as_of db e)
         (db_events db) of (n, rows) \<Rightarrow> (n, db\<lparr>db_events := rows\<rparr>))
   | DetectionSignalEntity \<Rightarrow> (case delete_where (\<lambda>s. sg_signal_id s \<in> set ids \<and> signal_candidate cutoffs as_of db s)
         (db_signals db) of (n, rows) \<Rightarrow> (n, db\<lparr>db_signals := rows\<rparr>))
   | IngestionJobEntity \<Rightarrow> (case delete_where (\<lambda>j. jb_id j \<in> set ids \<and> job_candidate cutoffs as_of db j)
         (db_jobs db) of (n, rows) \<Rightarrow> (n, db\<lparr>db_jobs := rows\<rparr>))
   | IncidentEntity \<Rightarrow> (case delete_where (\<lambda>i. in_incident_id i \<in> set ids \<and> incident_candidate cutoffs as_of db i
           \<and> \<not> list_ex (\<lambda>a. au_incident_id a = Some (in_incident_id i)) (db_audit db))
         (db_incidents db) of (n, rows) \<Rightarrow> (n, db\<lparr>db_incidents := rows\<rparr>))
   | AuditEventEntity \<Rightarrow> (case delete_where (\<lambda>a. audit_archive_id a \<in> set ids \<and> audit_candidate cutoffs as_of db a)
         (db_audit db) of (n, rows) \<Rightarrow> (n, db\<lparr>db_audit := rows\<rparr>)))"

definition delete_dependencies :: "RetentionEntity \<Rightarrow> string list \<Rightarrow> Tables \<Rightarrow> Tables" where
  "delete_dependencies entity ids db = (case entity of
     IncidentEntity \<Rightarrow> delete_incident_dependencies ids db
   | IngestionJobEntity \<Rightarrow> delete_job_dependencies ids db
   | _ \<Rightarrow> db)"

text \<open>The tables, the number deleted and the number protected by their dependent rows.\<close>

definition delete_eligible :: "RetentionEntity \<Rightarrow> string list \<Rightarrow> RetentionCutoffs \<Rightarrow> datetime \<Rightarrow> ArchiveRecord list
    \<Rightarrow> nat \<Rightarrow> Tables \<Rightarrow> string + Tables \<times> nat \<times> nat" where
  "delete_eligible entity eligible cutoffs as_of index limit db =
     (if eligible = [] then Inr (db, 0, 0)
      else (let safe = safe_ids entity cutoffs as_of index limit db eligible
            in if safe = [] then Inr (db, 0, length eligible)
               else (case delete_roots entity safe cutoffs as_of (delete_dependencies entity safe db) of (n, db') \<Rightarrow>
                 if n \<noteq> length safe then Inl ''cleanup_root_delete_conflict''
                 else Inr (db', length safe, length eligible - length safe))))"

section \<open>A batch\<close>

record CleanupBatchCounts =
  cb_scanned :: nat
  cb_deleted :: nat
  cb_protected :: nat
  cb_missing :: nat
  cb_skipped :: nat

definition MAX_DEPENDENCIES_PER_ROOT :: nat where
  "MAX_DEPENDENCIES_PER_ROOT = 5000"

definition cleanup_batch :: "RetentionEntity \<Rightarrow> string list \<Rightarrow> RetentionPolicy \<Rightarrow> datetime \<Rightarrow> ArchiveRecord list
    \<Rightarrow> Tables \<Rightarrow> string + Tables \<times> CleanupBatchCounts" where
  "cleanup_batch entity entity_ids policy now index db =
     (let cutoffs = policy_cutoffs policy now
      in case classify entity entity_ids cutoffs now db of (existing, eligible) \<Rightarrow>
        bind_err (delete_eligible entity eligible cutoffs now index MAX_DEPENDENCIES_PER_ROOT db)
          (\<lambda>(db', deleted, dependency_protected).
            let counts = \<lparr>cb_scanned = length entity_ids, cb_deleted = deleted,
                  cb_protected = length (filter (\<lambda>i. i \<notin> set eligible) existing) + dependency_protected,
                  cb_missing = length (filter (\<lambda>i. i \<notin> set existing) (remdups entity_ids)), cb_skipped = 0\<rparr>
            in if cb_deleted counts + cb_protected counts + cb_missing counts \<noteq> cb_scanned counts
               then Inl ''cleanup_batch_count_mismatch'' else Inr (db', counts)))"

section \<open>What a batch deletes\<close>

lemma classify_facts:
  assumes "classify entity ids cutoffs as_of db = (existing, eligible)"
  shows "set eligible \<subseteq> set existing" and "set existing \<subseteq> set ids" and "distinct existing" and "distinct eligible"
    and "eligible = filter (\<lambda>i. i \<in> set eligible) existing" and "existing = filter (\<lambda>i. i \<in> set existing) (remdups ids)"
proof -
  have e: "existing = filter (\<lambda>i. i \<in> set (map sr_id (candidate_spec entity cutoffs as_of db))) (remdups ids)"
    and g: "eligible = filter (\<lambda>i. i \<in> set (map sr_id (filter sr_candidate (candidate_spec entity cutoffs as_of db)))) (remdups ids)"
    using assms by (auto simp: classify_def Let_def)
  show sub: "set eligible \<subseteq> set existing" unfolding e g by auto
  show "set existing \<subseteq> set ids" "distinct existing" "distinct eligible" unfolding e g by auto
  show "eligible = filter (\<lambda>i. i \<in> set eligible) existing"
    unfolding e g filter_filter by (intro filter_cong) auto
  show "existing = filter (\<lambda>i. i \<in> set existing) (remdups ids)"
    unfolding e by (intro filter_cong) auto
qed

lemma eligible_row:
  assumes "classify entity ids cutoffs as_of db = (existing, eligible)" and "i \<in> set eligible"
  shows "i \<in> sr_id ` set (filter sr_candidate (candidate_spec entity cutoffs as_of db))"
  using assms by (auto simp: classify_def Let_def)

lemma delete_eligible_cases:
  assumes "delete_eligible entity eligible cutoffs as_of index limit db = Inr (db', deleted, kept)"
  shows "(db' = db \<and> deleted = 0 \<and> kept = length eligible)
    \<or> (let safe = safe_ids entity cutoffs as_of index limit db eligible in
         safe \<noteq> [] \<and> deleted = length safe \<and> kept = length eligible - length safe
         \<and> delete_roots entity safe cutoffs as_of (delete_dependencies entity safe db) = (length safe, db'))"
  using assms by (auto simp: delete_eligible_def Let_def split: if_splits prod.splits)

lemma safe_ids_subset: "set (safe_ids entity cutoffs as_of index limit db eligible) \<subseteq> set eligible"
  by (cases entity) (auto simp: safe_ids_def)

lemma safe_ids_length: "length (safe_ids entity cutoffs as_of index limit db eligible) \<le> length eligible"
  by (cases entity) (auto simp: safe_ids_def)

text \<open>The count check of the loop never fails on an archive without repetitions.\<close>

lemma batch_counts_match:
  assumes "distinct ids" and "delete_eligible entity eligible cutoffs as_of index limit db = Inr (db', deleted, kept)"
    and c: "classify entity ids cutoffs as_of db = (existing, eligible)"
  shows "deleted + (length (filter (\<lambda>i. i \<notin> set eligible) existing) + kept)
     + length (filter (\<lambda>i. i \<notin> set existing) (remdups ids)) = length ids"
proof -
  have "deleted + kept = length eligible"
    using delete_eligible_cases[OF assms(2)] safe_ids_length[of entity cutoffs as_of index limit db eligible]
    by (auto simp: Let_def)
  moreover have "length eligible + length (filter (\<lambda>i. i \<notin> set eligible) existing) = length existing"
    using classify_facts(5)[OF c] sum_length_filter_compl[of "\<lambda>i. i \<in> set eligible" existing] by simp
  moreover have "length existing + length (filter (\<lambda>i. i \<notin> set existing) (remdups ids)) = length ids"
    using classify_facts(6)[OF c] sum_length_filter_compl[of "\<lambda>i. i \<in> set existing" "remdups ids"] assms(1)
    by (simp add: distinct_remdups_id)
  ultimately show ?thesis by simp
qed

lemma contains_all_iff:
  "contains_all_dependencies index keys \<longleftrightarrow> (\<forall>k \<in> set keys. contains_all_dependencies index [k])"
  by (simp add: contains_all_dependencies_def list_all_iff)

lemma safe_incident_keys:
  assumes "safe_incident cutoffs as_of index limit db i"
  shows "r \<in> set (db_triage db) \<Longrightarrow> dp_incident_id r = Some i \<Longrightarrow>
       contains_all_dependencies index [dependent_key ''triage_run'' ''triage-row-'' r]"
    and "r \<in> set (db_evidence db) \<Longrightarrow> dp_incident_id r = Some i \<Longrightarrow>
       contains_all_dependencies index [dependent_key ''evidence_item'' ''evidence-row-'' r]"
    and "r \<in> set (db_reports db) \<Longrightarrow> dp_incident_id r = Some i \<Longrightarrow>
       contains_all_dependencies index [dependent_key ''report'' ''report-row-'' r]"
    and "(i, x) \<in> set (db_incident_events db) \<Longrightarrow>
       contains_all_dependencies index [pair_key ''incident_event_association'' (i, x)]"
    and "(i, x) \<in> set (db_incident_signals db) \<Longrightarrow>
       contains_all_dependencies index [pair_key ''incident_signal_association'' (i, x)]"
    and "(x, i) \<in> set (db_job_incidents db) \<Longrightarrow>
       contains_all_dependencies index [pair_key ''job_incident_association'' (x, i)]"
    and "a \<in> set (db_audit db) \<Longrightarrow> au_incident_id a \<noteq> Some i"
proof -
  obtain keys jobs where rows: "incident_dependency_rows i limit db = Some (keys, jobs)"
    and keys: "contains_all_dependencies index keys" and audit: "\<not> list_ex (\<lambda>a. au_incident_id a = Some i) (db_audit db)"
    using assms by (auto simp: safe_incident_def split: option.splits)
  have all: "k \<in> set keys \<Longrightarrow> contains_all_dependencies index [k]" for k
    using keys contains_all_iff by blast
  have set_keys: "set keys = dependent_key ''triage_run'' ''triage-row-'' ` {r \<in> set (db_triage db). dp_incident_id r = Some i}
      \<union> dependent_key ''evidence_item'' ''evidence-row-'' ` {r \<in> set (db_evidence db). dp_incident_id r = Some i}
      \<union> dependent_key ''report'' ''report-row-'' ` {r \<in> set (db_reports db). dp_incident_id r = Some i}
      \<union> pair_key ''incident_event_association'' ` {p \<in> set (db_incident_events db). fst p = i}
      \<union> pair_key ''incident_signal_association'' ` {p \<in> set (db_incident_signals db). fst p = i}
      \<union> pair_key ''job_incident_association'' ` {p \<in> set (db_job_incidents db). snd p = i}"
    using rows by (auto simp: incident_dependency_rows_def Let_def owned_by_def split: if_splits)
  show "r \<in> set (db_triage db) \<Longrightarrow> dp_incident_id r = Some i \<Longrightarrow>
      contains_all_dependencies index [dependent_key ''triage_run'' ''triage-row-'' r]"
    and "r \<in> set (db_evidence db) \<Longrightarrow> dp_incident_id r = Some i \<Longrightarrow>
      contains_all_dependencies index [dependent_key ''evidence_item'' ''evidence-row-'' r]"
    and "r \<in> set (db_reports db) \<Longrightarrow> dp_incident_id r = Some i \<Longrightarrow>
      contains_all_dependencies index [dependent_key ''report'' ''report-row-'' r]"
    and "(i, x) \<in> set (db_incident_events db) \<Longrightarrow>
      contains_all_dependencies index [pair_key ''incident_event_association'' (i, x)]"
    and "(i, x) \<in> set (db_incident_signals db) \<Longrightarrow>
      contains_all_dependencies index [pair_key ''incident_signal_association'' (i, x)]"
    and "(x, i) \<in> set (db_job_incidents db) \<Longrightarrow>
      contains_all_dependencies index [pair_key ''job_incident_association'' (x, i)]"
    by (rule all, unfold set_keys, force)+
  show "a \<in> set (db_audit db) \<Longrightarrow> au_incident_id a \<noteq> Some i" using audit by (auto simp: list_ex_iff)
qed

lemma safe_job_keys:
  assumes "safe_job index limit db j"
  shows "r \<in> set (db_triage db) \<Longrightarrow> dp_job_id r = Some j \<Longrightarrow>
       contains_all_dependencies index [dependent_key ''triage_run'' ''triage-row-'' r] \<and> dp_incident_id r = None"
    and "r \<in> set (db_evidence db) \<Longrightarrow> dp_job_id r = Some j \<Longrightarrow>
       contains_all_dependencies index [dependent_key ''evidence_item'' ''evidence-row-'' r] \<and> dp_incident_id r = None"
    and "r \<in> set (db_reports db) \<Longrightarrow> dp_job_id r = Some j \<Longrightarrow>
       contains_all_dependencies index [dependent_key ''report'' ''report-row-'' r] \<and> dp_incident_id r = None"
    and "(j, x) \<in> set (db_job_events db) \<Longrightarrow>
       contains_all_dependencies index [pair_key ''job_event_association'' (j, x)]"
    and "(j, x) \<in> set (db_job_signals db) \<Longrightarrow>
       contains_all_dependencies index [pair_key ''job_signal_association'' (j, x)]"
    and "(j, x) \<notin> set (db_job_incidents db)"
proof -
  obtain keys where rows: "job_dependency_rows j limit db = Some (keys, False)"
    and keys: "contains_all_dependencies index keys"
    using assms by (auto simp: safe_job_def split: option.splits)
  have all: "k \<in> set keys \<Longrightarrow> contains_all_dependencies index [k]" for k
    using keys contains_all_iff by blast
  have set_keys: "set keys = dependent_key ''triage_run'' ''triage-row-'' ` {r \<in> set (db_triage db). dp_job_id r = Some j}
      \<union> dependent_key ''evidence_item'' ''evidence-row-'' ` {r \<in> set (db_evidence db). dp_job_id r = Some j}
      \<union> dependent_key ''report'' ''report-row-'' ` {r \<in> set (db_reports db). dp_job_id r = Some j}
      \<union> pair_key ''job_event_association'' ` {p \<in> set (db_job_events db). fst p = j}
      \<union> pair_key ''job_signal_association'' ` {p \<in> set (db_job_signals db). fst p = j}"
    and free: "filter (\<lambda>p. fst p = j) (db_job_incidents db) = []"
    and none: "\<And>r. r \<in> set (db_triage db) \<union> set (db_evidence db) \<union> set (db_reports db) \<Longrightarrow> dp_job_id r = Some j
        \<Longrightarrow> dp_incident_id r = None"
    using rows by (auto simp: job_dependency_rows_def Let_def owned_by_def list_ex_iff split: if_splits)
  show "r \<in> set (db_triage db) \<Longrightarrow> dp_job_id r = Some j \<Longrightarrow>
      contains_all_dependencies index [dependent_key ''triage_run'' ''triage-row-'' r] \<and> dp_incident_id r = None"
    and "r \<in> set (db_evidence db) \<Longrightarrow> dp_job_id r = Some j \<Longrightarrow>
      contains_all_dependencies index [dependent_key ''evidence_item'' ''evidence-row-'' r] \<and> dp_incident_id r = None"
    and "r \<in> set (db_reports db) \<Longrightarrow> dp_job_id r = Some j \<Longrightarrow>
      contains_all_dependencies index [dependent_key ''report'' ''report-row-'' r] \<and> dp_incident_id r = None"
    by (rule conjI, rule all, unfold set_keys, force, rule none, simp_all)+
  show "(j, x) \<in> set (db_job_events db) \<Longrightarrow>
      contains_all_dependencies index [pair_key ''job_event_association'' (j, x)]"
    and "(j, x) \<in> set (db_job_signals db) \<Longrightarrow>
      contains_all_dependencies index [pair_key ''job_signal_association'' (j, x)]"
    by (rule all, unfold set_keys, force)+
  show "(j, x) \<notin> set (db_job_incidents db)" using free by (auto simp: filter_empty_conv)
qed

section \<open>References\<close>

definition dependents :: "Tables \<Rightarrow> Dependent list" where
  "dependents db = db_triage db @ db_evidence db @ db_reports db"

definition incident_refs :: "Tables \<Rightarrow> string set" where
  "incident_refs db = fst ` set (db_incident_events db) \<union> fst ` set (db_incident_signals db) \<union> snd ` set (db_job_incidents db)
     \<union> set (db_correlation db) \<union> set (somes dp_incident_id (dependents db)) \<union> set (somes au_incident_id (db_audit db))"

definition job_refs :: "Tables \<Rightarrow> string set" where
  "job_refs db = fst ` set (db_job_events db) \<union> fst ` set (db_job_signals db) \<union> fst ` set (db_job_incidents db)
     \<union> set (somes dp_job_id (dependents db))"

text \<open>An evidence item or report of a triage run is of the incident and job of the run.\<close>

definition triage_refs_ok :: "Tables \<Rightarrow> bool" where
  "triage_refs_ok db = (\<forall>r \<in> set (db_evidence db @ db_reports db). \<forall>n. dp_triage_run_id r = Some n \<longrightarrow>
     (\<exists>t \<in> set (db_triage db). dp_id t = n \<and> dp_incident_id t = dp_incident_id r \<and> dp_job_id t = dp_job_id r))"

text \<open>Every reference of a row has its target.\<close>

definition references_ok :: "Tables \<Rightarrow> bool" where
  "references_ok db =
     (triage_refs_ok db \<and> incident_refs db \<subseteq> in_incident_id ` set (db_incidents db) \<and> job_refs db \<subseteq> jb_id ` set (db_jobs db)
      \<and> Collect (event_referenced db) \<subseteq> st_event_id ` set (db_events db)
      \<and> Collect (signal_referenced db) \<subseteq> sg_signal_id ` set (db_signals db))"

lemma kept_id:
  "i \<in> f ` set rows \<Longrightarrow> i \<notin> set ids \<Longrightarrow> i \<in> f ` set (snd (delete_where (\<lambda>r. f r \<in> set ids \<and> q r) rows))"
  by (auto simp: delete_where_def)

lemma diff_chain: "A \<subseteq> B - S \<Longrightarrow> B \<subseteq> C \<Longrightarrow> C - S \<subseteq> D \<Longrightarrow> A \<subseteq> D"
  by blast

lemma delete_roots_snd:
  "snd (delete_roots entity ids cutoffs as_of db) = (case entity of
     CanonicalEventEntity \<Rightarrow> db\<lparr>db_events := snd (delete_where (\<lambda>e. st_event_id e \<in> set ids \<and> event_candidate cutoffs as_of db e) (db_events db))\<rparr>
   | DetectionSignalEntity \<Rightarrow> db\<lparr>db_signals := snd (delete_where (\<lambda>s. sg_signal_id s \<in> set ids \<and> signal_candidate cutoffs as_of db s) (db_signals db))\<rparr>
   | IngestionJobEntity \<Rightarrow> db\<lparr>db_jobs := snd (delete_where (\<lambda>j. jb_id j \<in> set ids \<and> job_candidate cutoffs as_of db j) (db_jobs db))\<rparr>
   | IncidentEntity \<Rightarrow> db\<lparr>db_incidents := snd (delete_where (\<lambda>i. in_incident_id i \<in> set ids \<and> incident_candidate cutoffs as_of db i
           \<and> \<not> list_ex (\<lambda>a. au_incident_id a = Some (in_incident_id i)) (db_audit db)) (db_incidents db))\<rparr>
   | AuditEventEntity \<Rightarrow> db\<lparr>db_audit := snd (delete_where (\<lambda>a. audit_archive_id a \<in> set ids \<and> audit_candidate cutoffs as_of db a) (db_audit db))\<rparr>)"
  by (cases entity) (simp_all add: delete_roots_def split: prod.splits)

lemma triage_refs_without:
  assumes "triage_refs_ok db"
    and "\<And>r t. dp_incident_id t = dp_incident_id r \<Longrightarrow> dp_job_id t = dp_job_id r \<Longrightarrow> owner t = owner r"
    and "db_evidence db' = without owner ids (db_evidence db)" "db_reports db' = without owner ids (db_reports db)"
    and "db_triage db' = without owner ids (db_triage db)"
  shows "triage_refs_ok db'"
  unfolding triage_refs_ok_def
proof (intro ballI allI impI)
  fix r n assume r: "r \<in> set (db_evidence db' @ db_reports db')" "dp_triage_run_id r = Some n"
  then have "r \<in> set (db_evidence db @ db_reports db)" and kept: "owner r \<notin> Some ` set ids"
    using assms(3,4) by (auto simp: without_def)
  then obtain t where t: "t \<in> set (db_triage db)" "dp_id t = n" "dp_incident_id t = dp_incident_id r" "dp_job_id t = dp_job_id r"
    using assms(1) r(2) unfolding triage_refs_ok_def by blast
  moreover have "t \<in> set (db_triage db')" using t assms(2)[of t r] kept by (simp add: assms(5) without_def)
  ultimately show "\<exists>t \<in> set (db_triage db'). dp_id t = n \<and> dp_incident_id t = dp_incident_id r \<and> dp_job_id t = dp_job_id r"
    by blast
qed

lemma triage_refs_same:
  "db_evidence db' = db_evidence db \<Longrightarrow> db_reports db' = db_reports db \<Longrightarrow> db_triage db' = db_triage db
    \<Longrightarrow> triage_refs_ok db' = triage_refs_ok db"
  by (simp add: triage_refs_ok_def)

lemma delete_roots_references:
  assumes refs: "references_ok db"
    and safe: "safe = safe_ids entity cutoffs as_of index limit db eligible"
    and db': "db' = snd (delete_roots entity safe cutoffs as_of (delete_dependencies entity safe db))"
  shows "references_ok db'"
proof (cases entity)
  case CanonicalEventEntity
  have eq: "db' = db\<lparr>db_events := snd (delete_where (\<lambda>e. st_event_id e \<in> set safe \<and> event_candidate cutoffs as_of db e) (db_events db))\<rparr>"
    using db' CanonicalEventEntity by (simp add: delete_roots_snd delete_dependencies_def)
  have "\<forall>i \<in> set safe. \<not> event_referenced db i" using safe CanonicalEventEntity by (simp add: safe_ids_def)
  then have kept: "Collect (event_referenced db) \<subseteq> st_event_id ` set (db_events db')"
    using refs unfolding references_ok_def eq by (auto intro!: kept_id)
  have same: "incident_refs db' = incident_refs db" "job_refs db' = job_refs db"
    "event_referenced db' = event_referenced db" "signal_referenced db' = signal_referenced db"
    "db_incidents db' = db_incidents db" "db_jobs db' = db_jobs db" "db_signals db' = db_signals db"
    "triage_refs_ok db' = triage_refs_ok db"
    by (simp_all add: fun_eq_iff eq triage_refs_ok_def incident_refs_def job_refs_def dependents_def event_referenced_def signal_referenced_def)
  show ?thesis using refs kept unfolding references_ok_def same by blast
next
  case DetectionSignalEntity
  have eq: "db' = db\<lparr>db_signals := snd (delete_where (\<lambda>s. sg_signal_id s \<in> set safe \<and> signal_candidate cutoffs as_of db s) (db_signals db))\<rparr>"
    using db' DetectionSignalEntity by (simp add: delete_roots_snd delete_dependencies_def)
  have "\<forall>i \<in> set safe. \<not> signal_referenced db i" using safe DetectionSignalEntity by (simp add: safe_ids_def)
  then have kept: "Collect (signal_referenced db) \<subseteq> sg_signal_id ` set (db_signals db')"
    using refs unfolding references_ok_def eq by (auto intro!: kept_id)
  have same: "incident_refs db' = incident_refs db" "job_refs db' = job_refs db"
    "event_referenced db' = event_referenced db" "signal_referenced db' = signal_referenced db"
    "db_incidents db' = db_incidents db" "db_jobs db' = db_jobs db" "db_events db' = db_events db"
    "triage_refs_ok db' = triage_refs_ok db"
    by (simp_all add: fun_eq_iff eq triage_refs_ok_def incident_refs_def job_refs_def dependents_def event_referenced_def signal_referenced_def)
  show ?thesis using refs kept unfolding references_ok_def same by blast
next
  case AuditEventEntity
  then have "db' = db\<lparr>db_audit := snd (delete_where (\<lambda>a. audit_archive_id a \<in> set safe \<and> audit_candidate cutoffs as_of db a) (db_audit db))\<rparr>"
    using db' by (simp add: delete_roots_snd delete_dependencies_def)
  then have less: "incident_refs db' \<subseteq> incident_refs db"
    and same: "job_refs db' = job_refs db" "event_referenced db' = event_referenced db"
    "signal_referenced db' = signal_referenced db" "db_incidents db' = db_incidents db" "db_jobs db' = db_jobs db"
    "db_events db' = db_events db" "db_signals db' = db_signals db" "triage_refs_ok db' = triage_refs_ok db"
    by (auto simp: fun_eq_iff triage_refs_ok_def incident_refs_def job_refs_def dependents_def event_referenced_def signal_referenced_def
      set_somes delete_where_def)
  show ?thesis using refs less unfolding references_ok_def same by blast
next
  case IngestionJobEntity
  let ?mid = "delete_job_dependencies safe db"
  have eq: "db' = ?mid\<lparr>db_jobs := snd (delete_where (\<lambda>j. jb_id j \<in> set safe \<and> job_candidate cutoffs as_of ?mid j) (db_jobs ?mid))\<rparr>"
    using db' IngestionJobEntity by (simp add: delete_roots_snd delete_dependencies_def)
  have less: "incident_refs db' \<subseteq> incident_refs db" and gone: "job_refs db' \<subseteq> job_refs db - set safe"
    unfolding eq incident_refs_def job_refs_def dependents_def delete_job_dependencies_def without_def
    by (auto simp: set_somes)
  moreover have "event_referenced db' i \<Longrightarrow> event_referenced db i" "signal_referenced db' i \<Longrightarrow> signal_referenced db i" for i
    unfolding eq event_referenced_def signal_referenced_def delete_job_dependencies_def without_def
    by (auto simp: list_ex_iff)
  moreover have kept: "jb_id ` set (db_jobs db) - set safe \<subseteq> jb_id ` set (db_jobs db')"
    unfolding eq by (auto intro!: kept_id simp: delete_job_dependencies_def)
  moreover have "db_incidents db' = db_incidents db" "db_events db' = db_events db" "db_signals db' = db_signals db"
    by (simp_all add: eq delete_job_dependencies_def)
  moreover have "triage_refs_ok db'"
    by (rule triage_refs_without[of db dp_job_id db' safe]) (use refs in \<open>auto simp: references_ok_def eq delete_job_dependencies_def\<close>)
  moreover have "job_refs db' \<subseteq> jb_id ` set (db_jobs db')"
    using refs diff_chain[OF gone _ kept] by (simp add: references_ok_def)
  ultimately show ?thesis using refs less unfolding references_ok_def by (auto dest: subsetD)
next
  case IncidentEntity
  let ?mid = "delete_incident_dependencies safe db"
  let ?q = "\<lambda>i. incident_candidate cutoffs as_of ?mid i \<and> \<not> list_ex (\<lambda>a. au_incident_id a = Some (in_incident_id i)) (db_audit ?mid)"
  have "safe = filter (safe_incident cutoffs as_of index limit db) eligible" using safe IncidentEntity by (simp add: safe_ids_def)
  then have audit: "a \<in> set (db_audit db) \<Longrightarrow> au_incident_id a = Some i \<Longrightarrow> i \<notin> set safe" for a i
    using safe_incident_keys(7) by auto
  have eq: "db' = ?mid\<lparr>db_incidents := snd (delete_where (\<lambda>i. in_incident_id i \<in> set safe \<and> ?q i) (db_incidents ?mid))\<rparr>"
    using db' IncidentEntity by (simp add: delete_roots_snd delete_dependencies_def)
  have gone: "incident_refs db' \<subseteq> incident_refs db - set safe"
    unfolding eq incident_refs_def dependents_def delete_incident_dependencies_def without_def
    using audit by (auto simp: set_somes)
  have less: "job_refs db' \<subseteq> job_refs db"
    unfolding eq job_refs_def dependents_def delete_incident_dependencies_def without_def by (auto simp: set_somes)
  have "event_referenced db' i \<Longrightarrow> event_referenced db i" "signal_referenced db' i \<Longrightarrow> signal_referenced db i" for i
    unfolding eq event_referenced_def signal_referenced_def delete_incident_dependencies_def without_def
    by (auto simp: list_ex_iff)
  moreover have kept: "in_incident_id ` set (db_incidents db) - set safe \<subseteq> in_incident_id ` set (db_incidents db')"
  proof
    fix i assume "i \<in> in_incident_id ` set (db_incidents db) - set safe"
    then show "i \<in> in_incident_id ` set (db_incidents db')"
      using kept_id[of i in_incident_id "db_incidents db" safe ?q] by (simp add: eq delete_incident_dependencies_def)
  qed
  moreover have "db_jobs db' = db_jobs db" "db_events db' = db_events db" "db_signals db' = db_signals db"
    by (simp_all add: eq delete_incident_dependencies_def)
  moreover have "triage_refs_ok db'"
    by (rule triage_refs_without[of db dp_incident_id db' safe])
      (use refs in \<open>auto simp: references_ok_def eq delete_incident_dependencies_def\<close>)
  moreover have "incident_refs db' \<subseteq> in_incident_id ` set (db_incidents db')"
    using refs diff_chain[OF gone _ kept] by (simp add: references_ok_def)
  ultimately show ?thesis using refs less unfolding references_ok_def by (auto dest: subsetD)
qed

lemma batch_references:
  assumes "references_ok db" and "cleanup_batch entity ids policy now index db = Inr (db', counts)"
  shows "references_ok db'"
proof -
  obtain existing eligible deleted kept where "classify entity ids (policy_cutoffs policy now) now db = (existing, eligible)"
    and del: "delete_eligible entity eligible (policy_cutoffs policy now) now index MAX_DEPENDENCIES_PER_ROOT db = Inr (db', deleted, kept)"
    using assms(2) by (auto simp: cleanup_batch_def Let_def bind_err_Inr split: prod.splits if_splits)
  from delete_eligible_cases[OF del] show ?thesis
    using assms(1) delete_roots_references[OF assms(1) refl refl, of entity "policy_cutoffs policy now" now index MAX_DEPENDENCIES_PER_ROOT eligible]
    by (auto simp: Let_def)
qed


definition demo_policy :: RetentionPolicy where
  "demo_policy = \<lparr>rp_version = ''v1'', rp_canonical_event_days = 30, rp_detection_signal_days = 30,
     rp_completed_job_days = 30, rp_terminal_incident_days = 30, rp_audit_event_days = 30\<rparr>"

definition demo_now :: datetime where
  "demo_now = Instant (100 * 86400 * 1000000)"

definition demo_tables :: Tables where
  "demo_tables = \<lparr>db_events = [\<lparr>st_event_id = ''e1'', st_timestamp = Some (Instant 7)\<rparr>,
       \<lparr>st_event_id = ''e2'', st_timestamp = Some (Instant 7)\<rparr>],
     db_signals = [\<lparr>sg_signal_id = ''s1'', sg_created_at = Some demo_now, sg_event_ids = [''e2'']\<rparr>], db_jobs = [],
     db_incidents = [\<lparr>in_incident_id = ''i1'', in_status = Some ''closed'', in_updated_at = Some (Instant 5)\<rparr>,
       \<lparr>in_incident_id = ''i2'', in_status = Some ''new'', in_updated_at = Some (Instant 5)\<rparr>],
     db_audit = [], db_triage = [\<lparr>dp_id = 1, dp_key = Some ''t1'', dp_incident_id = Some ''i1'', dp_job_id = None,
       dp_event_id = None, dp_triage_run_id = None\<rparr>], db_evidence = [\<lparr>dp_id = 4, dp_key = Some ''v1'', dp_incident_id = Some ''i1'',
       dp_job_id = None, dp_event_id = Some ''e1'', dp_triage_run_id = Some 1\<rparr>], db_reports = [], db_incident_events = [(''i1'', ''e1'')],
     db_incident_signals = [], db_job_events = [], db_job_signals = [], db_job_incidents = [],
     db_correlation = [''i1'', ''i2''], db_holds = []\<rparr>"

definition demo_index :: "ArchiveRecord list" where
  "demo_index = [\<lparr>ar_entity_type = ''incident'', ar_entity_id = ''i1'', ar_role = ''retention_candidate'', ar_recorded_at = Instant 5\<rparr>,
     \<lparr>ar_entity_type = ''triage_run'', ar_entity_id = ''t1'', ar_role = ''dependency'', ar_recorded_at = Instant 5\<rparr>,
     \<lparr>ar_entity_type = ''evidence_item'', ar_entity_id = ''v1'', ar_role = ''dependency'', ar_recorded_at = Instant 5\<rparr>,
     \<lparr>ar_entity_type = ''incident_event_association'', ar_entity_id = ''i1:e1'', ar_role = ''dependency'',
       ar_recorded_at = Instant 5\<rparr>]"

lemma demo_batch_evaluates:
  "(case cleanup_batch IncidentEntity [''i1'', ''i2'', ''i3''] demo_policy demo_now demo_index demo_tables of
     Inl _ \<Rightarrow> False
   | Inr (db', counts) \<Rightarrow> counts = \<lparr>cb_scanned = 3, cb_deleted = 1, cb_protected = 1, cb_missing = 1, cb_skipped = 0\<rparr>
       \<and> map in_incident_id (db_incidents db') = [''i2''])"
  by code_simp

lemma demo_batch:
  obtains db' counts where "cleanup_batch IncidentEntity [''i1'', ''i2'', ''i3''] demo_policy demo_now demo_index demo_tables
      = Inr (db', counts)" and "map in_incident_id (db_incidents db') = [''i2'']"
  using demo_batch_evaluates by (auto split: sum.splits prod.splits)

lemma demo_references: "references_ok demo_tables"
  by (auto simp: references_ok_def demo_tables_def incident_refs_def job_refs_def dependents_def event_referenced_def
    signal_referenced_def somes_def triage_refs_ok_def)

text \<open>What the reference claim leaves out: a signal that stays can name an event that goes.\<close>

lemma signal_events_outlive:
  "(case cleanup_batch CanonicalEventEntity [''e2''] demo_policy demo_now demo_index demo_tables of
     Inl _ \<Rightarrow> False
   | Inr (db', _) \<Rightarrow> map st_event_id (db_events db') = [''e1''] \<and> map sg_event_ids (db_signals db') = [[''e2'']])"
  by code_simp


lemma cleanup_batch_safe:
  assumes "cleanup_batch entity ids policy now index db = Inr (db', counts)" and "db' \<noteq> db"
  obtains existing eligible safe where
    "classify entity ids (policy_cutoffs policy now) now db = (existing, eligible)"
    "safe = safe_ids entity (policy_cutoffs policy now) now index MAX_DEPENDENCIES_PER_ROOT db eligible"
    "delete_roots entity safe (policy_cutoffs policy now) now (delete_dependencies entity safe db) = (length safe, db')"
proof -
  obtain existing eligible deleted kept where c: "classify entity ids (policy_cutoffs policy now) now db = (existing, eligible)"
    and del: "delete_eligible entity eligible (policy_cutoffs policy now) now index MAX_DEPENDENCIES_PER_ROOT db = Inr (db', deleted, kept)"
    using assms(1) by (auto simp: cleanup_batch_def Let_def bind_err_Inr split: prod.splits if_splits)
  from delete_eligible_cases[OF del] assms(2) show thesis by (auto simp: Let_def intro: that[OF c refl])
qed

lemma safe_incident_archived:
  assumes "safe_incident cutoffs as_of index limit db i"
  shows "\<exists>keys jobs. incident_dependency_rows i limit db = Some (keys, jobs) \<and> contains_all_dependencies index keys
    \<and> (\<forall>j \<in> set jobs. \<exists>job \<in> set (db_jobs db). jb_id job = j \<and> job_candidate cutoffs as_of db job)"
proof -
  obtain keys jobs where rows: "incident_dependency_rows i limit db = Some (keys, jobs)"
    and keys: "contains_all_dependencies index keys"
    and jobs: "jobs = [] \<or> set (snd (classify IngestionJobEntity jobs cutoffs as_of db)) = set jobs"
    using assms by (auto simp: safe_incident_def split: option.splits prod.splits)
  have "\<exists>job \<in> set (db_jobs db). jb_id job = j \<and> job_candidate cutoffs as_of db job" if "j \<in> set jobs" for j
  proof -
    have "j \<in> set (snd (classify IngestionJobEntity jobs cutoffs as_of db))" using that jobs by auto
    then have "j \<in> sr_id ` set (filter sr_candidate (candidate_spec IngestionJobEntity cutoffs as_of db))"
      using eligible_row[of IngestionJobEntity jobs cutoffs as_of db "fst (classify IngestionJobEntity jobs cutoffs as_of db)"
          "snd (classify IngestionJobEntity jobs cutoffs as_of db)" j]
      by simp
    then show ?thesis by (auto simp: candidate_spec_def)
  qed
  then show ?thesis using rows keys by blast
qed

lemma dependency_rows_deleted:
  assumes "i \<in> set ids"
  shows "incident_dependency_rows i limit (delete_incident_dependencies ids db\<lparr>db_incidents := rows\<rparr>) = Some ([], [])"
proof -
  have own: "owned_by dp_incident_id i (without dp_incident_id ids xs) = []" for xs
    using assms by (auto simp: owned_by_def without_def filter_empty_conv)
  have "filter (\<lambda>p. fst p = i) (filter (\<lambda>p. fst p \<notin> set ids) ps) = []"
    "filter (\<lambda>p. snd p = i) (filter (\<lambda>p. snd p \<notin> set ids) ps) = []" for ps :: "(string \<times> string) list"
    using assms by (auto simp: filter_empty_conv)
  then show ?thesis
    by (simp add: incident_dependency_rows_def delete_incident_dependencies_def own Let_def somes_def del: filter_filter)
qed



text \<open>The correlation state goes although the archive has no record of it.\<close>

lemma correlation_state_unarchived:
  "(case cleanup_batch IncidentEntity [''i1''] demo_policy demo_now demo_index demo_tables of
     Inl _ \<Rightarrow> False
   | Inr (db', _) \<Rightarrow> db_correlation demo_tables = [''i1'', ''i2''] \<and> db_correlation db' = [''i2'']
       \<and> \<not> list_ex (\<lambda>r. ar_entity_type r = ''incident_correlation_state'') demo_index)"
  by code_simp

end
