(* ===== verification/CleanupRuns.thy ===== *)
theory CleanupRuns
  imports Cleanup StateMachines
begin

text \<open>
  The cleanup run of an archive, \<open>application/cleanup.py\<close> with the run and progress rows of
  \<open>persistence/cleanup_repository.py\<close>: a worker claims the run under a lease, deletes the archived
  candidates of each entity in batches, one transaction each, and completes the run. Every
  transaction maps the database to the database or raises, and a raise rolls it back. The reads of
  the clock, the identifiers drawn and the verdicts of the archive verifier are arguments.
\<close>

section \<open>Rows\<close>

record CleanupRun =
  cr_id :: string
  cr_archive_id :: string
  cr_status :: string
  cr_policy_version :: string
  cr_schema_version :: string
  cr_manifest_sha256 :: string
  cr_archive_as_of :: datetime
  cr_snapshot :: string
  cr_started_at :: "datetime option"
  cr_updated_at :: datetime
  cr_completed_at :: "datetime option"
  cr_phase :: string
  cr_entity :: "RetentionEntity option"
  cr_lease_owner :: "string option"
  cr_lease_expires_at :: "datetime option"
  cr_attempt_count :: nat
  cr_deleted :: nat
  cr_protected :: nat
  cr_missing :: nat
  cr_skipped :: nat
  cr_error_code :: "string option"
  cr_version :: nat

record CleanupProgress =
  pg_run :: string
  pg_entity :: RetentionEntity
  pg_status :: string
  pg_last_recorded_at :: "datetime option"
  pg_last_entity_id :: "string option"
  pg_scanned :: nat
  pg_deleted :: nat
  pg_protected :: nat
  pg_missing :: nat
  pg_skipped :: nat
  pg_completed_at :: "datetime option"

record CleanupDb =
  cd_runs :: "CleanupRun list"
  cd_progress :: "CleanupProgress list"
  cd_tables :: Tables

text \<open>The exceptions, as far as \<open>_error_code\<close> tells them apart.\<close>

datatype Raised =
    CleanupOperation string
  | CleanupPersistence string
  | ArchiveIntegrity string
  | ArchiveStorage string
  | IntegrityViolation
  | ValueOrTypeError string
  | OtherException

fun cleanup_error_code :: "Raised \<Rightarrow> string" where
  "cleanup_error_code (CleanupOperation c) = c"
| "cleanup_error_code (CleanupPersistence c) = c"
| "cleanup_error_code (ArchiveIntegrity _) = ''cleanup_archive_integrity_failed''"
| "cleanup_error_code (ArchiveStorage _) = ''cleanup_archive_storage_failed''"
| "cleanup_error_code IntegrityViolation = ''cleanup_database_failed''"
| "cleanup_error_code (ValueOrTypeError _) = ''cleanup_validation_failed''"
| "cleanup_error_code OtherException = ''cleanup_operation_failed''"

definition CLEANUP_ENTITY_ORDER :: "RetentionEntity list" where
  "CLEANUP_ENTITY_ORDER = [AuditEventEntity, IncidentEntity, IngestionJobEntity, DetectionSignalEntity, CanonicalEventEntity]"

section \<open>The repository\<close>

definition get_run :: "string \<Rightarrow> CleanupDb \<Rightarrow> CleanupRun option" where
  "get_run i db = find (\<lambda>r. cr_id r = i) (cd_runs db)"

definition get_by_archive :: "string \<Rightarrow> CleanupDb \<Rightarrow> CleanupRun option" where
  "get_by_archive a db = find (\<lambda>r. cr_archive_id r = a) (cd_runs db)"

definition get_progress :: "string \<Rightarrow> RetentionEntity \<Rightarrow> CleanupDb \<Rightarrow> CleanupProgress option" where
  "get_progress i entity db = find (\<lambda>p. pg_run p = i \<and> pg_entity p = entity) (cd_progress db)"

text \<open>\<open>UPDATE ... WHERE\<close>: the number of rows hit and the rows.\<close>

definition update_rows :: "('a \<Rightarrow> bool) \<Rightarrow> ('a \<Rightarrow> 'a) \<Rightarrow> 'a list \<Rightarrow> nat \<times> 'a list" where
  "update_rows hit f rows = (length (filter hit rows), map (\<lambda>r. if hit r then f r else r) rows)"

definition lease_over :: "datetime \<Rightarrow> CleanupRun \<Rightarrow> bool" where
  "lease_over now r = (case cr_lease_expires_at r of None \<Rightarrow> True | Some t \<Rightarrow> t \<le> now)"

definition run_available :: "datetime \<Rightarrow> CleanupRun \<Rightarrow> bool" where
  "run_available now r = (cr_status r = ''pending'' \<or> cr_status r = ''failed'' \<or> cr_status r = ''running'' \<and> lease_over now r)"

definition claim_run :: "string \<Rightarrow> string \<Rightarrow> datetime \<Rightarrow> int \<Rightarrow> CleanupDb \<Rightarrow> bool \<times> CleanupDb" where
  "claim_run i owner now lease db = (case update_rows (\<lambda>r. cr_id r = i \<and> run_available now r)
       (\<lambda>r. r\<lparr>cr_status := ''running'',
          cr_started_at := (case cr_started_at r of None \<Rightarrow> Some now | Some t \<Rightarrow> Some t),
          cr_updated_at := now, cr_phase := ''cleanup'', cr_lease_owner := Some owner,
          cr_lease_expires_at := Some (plus_seconds now lease), cr_attempt_count := cr_attempt_count r + 1,
          cr_error_code := None, cr_version := cr_version r + 1\<rparr>) (cd_runs db) of
     (n, rows) \<Rightarrow> (n = 1, db\<lparr>cd_runs := rows\<rparr>))"

definition guarded :: "string \<Rightarrow> string \<Rightarrow> nat \<Rightarrow> datetime \<Rightarrow> CleanupRun \<Rightarrow> bool" where
  "guarded i owner version now r = (cr_id r = i \<and> cr_status r = ''running'' \<and> cr_lease_owner r = Some owner
     \<and> \<not> lease_over now r \<and> cr_version r = version)"

definition guarded_run_update :: "string \<Rightarrow> string \<Rightarrow> nat \<Rightarrow> datetime \<Rightarrow> (CleanupRun \<Rightarrow> CleanupRun) \<Rightarrow> CleanupDb
    \<Rightarrow> Raised + CleanupDb" where
  "guarded_run_update i owner version now f db = (case update_rows (guarded i owner version now) f (cd_runs db) of
     (n, rows) \<Rightarrow> if n \<noteq> 1 then Inl (CleanupPersistence ''cleanup_lease_lost'') else Inr (db\<lparr>cd_runs := rows\<rparr>))"

definition progress_update :: "string \<Rightarrow> RetentionEntity \<Rightarrow> (CleanupProgress \<Rightarrow> CleanupProgress) \<Rightarrow> CleanupDb
    \<Rightarrow> Raised + CleanupDb" where
  "progress_update i entity f db = (case update_rows (\<lambda>p. pg_run p = i \<and> pg_entity p = entity
        \<and> (pg_status p = ''pending'' \<or> pg_status p = ''running'')) f (cd_progress db) of
     (n, rows) \<Rightarrow> if n \<noteq> 1 then Inl (CleanupPersistence ''cleanup_progress_update_conflict'')
        else Inr (db\<lparr>cd_progress := rows\<rparr>))"

definition apply_batch :: "string \<Rightarrow> RetentionEntity \<Rightarrow> string \<Rightarrow> nat \<Rightarrow> datetime \<Rightarrow> int \<Rightarrow> CleanupBatchCounts
    \<Rightarrow> datetime \<Rightarrow> string \<Rightarrow> CleanupDb \<Rightarrow> Raised + CleanupDb" where
  "apply_batch i entity owner version now lease counts last_recorded_at last_entity_id db =
     bind_err (progress_update i entity (\<lambda>p. p\<lparr>pg_status := ''running'',
         pg_last_recorded_at := Some last_recorded_at, pg_last_entity_id := Some last_entity_id,
         pg_scanned := pg_scanned p + cb_scanned counts, pg_deleted := pg_deleted p + cb_deleted counts,
         pg_protected := pg_protected p + cb_protected counts, pg_missing := pg_missing p + cb_missing counts,
         pg_skipped := pg_skipped p + cb_skipped counts\<rparr>) db)
       (guarded_run_update i owner version now (\<lambda>r. r\<lparr>cr_updated_at := now, cr_phase := ''cleanup'',
         cr_entity := Some entity, cr_lease_expires_at := Some (plus_seconds now lease),
         cr_deleted := cr_deleted r + cb_deleted counts, cr_protected := cr_protected r + cb_protected counts,
         cr_missing := cr_missing r + cb_missing counts, cr_skipped := cr_skipped r + cb_skipped counts,
         cr_version := cr_version r + 1\<rparr>))"

definition complete_progress :: "string \<Rightarrow> RetentionEntity \<Rightarrow> string \<Rightarrow> nat \<Rightarrow> datetime \<Rightarrow> int
    \<Rightarrow> RetentionEntity option \<Rightarrow> CleanupDb \<Rightarrow> Raised + CleanupDb" where
  "complete_progress i entity owner version now lease next_entity db =
     bind_err (progress_update i entity (\<lambda>p. p\<lparr>pg_status := ''completed'', pg_completed_at := Some now\<rparr>) db)
       (guarded_run_update i owner version now (\<lambda>r. r\<lparr>cr_updated_at := now, cr_entity := next_entity,
         cr_lease_expires_at := Some (plus_seconds now lease), cr_version := cr_version r + 1\<rparr>))"

definition complete_run :: "string \<Rightarrow> string \<Rightarrow> nat \<Rightarrow> datetime \<Rightarrow> CleanupDb \<Rightarrow> Raised + CleanupDb" where
  "complete_run i owner version now =
     guarded_run_update i owner version now (\<lambda>r. r\<lparr>cr_status := ''completed'', cr_updated_at := now,
       cr_completed_at := Some now, cr_phase := ''completed'', cr_entity := None, cr_lease_owner := None,
       cr_lease_expires_at := None, cr_error_code := None, cr_version := cr_version r + 1\<rparr>)"

definition fail_run :: "string \<Rightarrow> string \<Rightarrow> datetime \<Rightarrow> string \<Rightarrow> CleanupDb \<Rightarrow> bool \<times> CleanupDb" where
  "fail_run i owner now code db = (case update_rows
       (\<lambda>r. cr_id r = i \<and> cr_status r = ''running'' \<and> cr_lease_owner r = Some owner)
       (\<lambda>r. r\<lparr>cr_status := ''failed'', cr_updated_at := now, cr_lease_owner := None, cr_lease_expires_at := None,
          cr_error_code := Some code, cr_version := cr_version r + 1\<rparr>) (cd_runs db) of
     (n, rows) \<Rightarrow> (n = 1, db\<lparr>cd_runs := rows\<rparr>))"

section \<open>The service\<close>

text \<open>What \<open>ArchiveVerifier.verify\<close> returns, with the stability snapshot taken from it; the snapshot
  is compared only.\<close>

record Verification =
  vf_archive_id :: string
  vf_policy_version :: string
  vf_manifest_sha256 :: string
  vf_archive_as_of :: datetime
  vf_snapshot :: string
  vf_candidate_count :: nat
  vf_dependency_count :: nat
  vf_total_count :: nat

definition new_run :: "string \<Rightarrow> Verification \<Rightarrow> string \<Rightarrow> datetime \<Rightarrow> CleanupRun" where
  "new_run i v schema now = \<lparr>cr_id = i, cr_archive_id = vf_archive_id v, cr_status = ''pending'',
     cr_policy_version = vf_policy_version v, cr_schema_version = schema, cr_manifest_sha256 = vf_manifest_sha256 v,
     cr_archive_as_of = vf_archive_as_of v, cr_snapshot = vf_snapshot v, cr_started_at = None, cr_updated_at = now,
     cr_completed_at = None, cr_phase = ''pending'', cr_entity = Some (hd CLEANUP_ENTITY_ORDER), cr_lease_owner = None,
     cr_lease_expires_at = None, cr_attempt_count = 0, cr_deleted = 0, cr_protected = 0, cr_missing = 0, cr_skipped = 0,
     cr_error_code = None, cr_version = 1\<rparr>"

definition new_progress :: "string \<Rightarrow> RetentionEntity \<Rightarrow> CleanupProgress" where
  "new_progress i entity = \<lparr>pg_run = i, pg_entity = entity, pg_status = ''pending'', pg_last_recorded_at = None,
     pg_last_entity_id = None, pg_scanned = 0, pg_deleted = 0, pg_protected = 0, pg_missing = 0, pg_skipped = 0,
     pg_completed_at = None\<rparr>"

definition cleanup_run_id_ok :: "string \<Rightarrow> bool" where
  "cleanup_run_id_ok i = (length i = 36 \<and> take 4 i = ''CLN-'' \<and> list_all (\<lambda>c. c \<in> set ''0123456789abcdef'') (drop 4 i))"

text \<open>\<open>flush\<close>: the primary keys and the unique archive are enforced.\<close>

definition add_run :: "CleanupRun \<Rightarrow> CleanupDb \<Rightarrow> Raised + CleanupDb" where
  "add_run r db = (if list_ex (\<lambda>q. cr_id q = cr_id r \<or> cr_archive_id q = cr_archive_id r) (cd_runs db)
       \<or> list_ex (\<lambda>p. pg_run p = cr_id r) (cd_progress db) then Inl IntegrityViolation
     else Inr (db\<lparr>cd_runs := cd_runs db @ [r],
       cd_progress := cd_progress db @ map (new_progress (cr_id r)) CLEANUP_ENTITY_ORDER\<rparr>))"

text \<open>\<open>_add_audit\<close>: the columns of the audit row that the model has; the identifier is \<open>ae_\<close> and 32
  random digits.\<close>

definition add_cleanup_audit :: "nat \<Rightarrow> string \<Rightarrow> datetime \<Rightarrow> CleanupDb \<Rightarrow> CleanupDb" where
  "add_cleanup_audit row_id hex now db = db\<lparr>cd_tables := (cd_tables db)\<lparr>db_audit := db_audit (cd_tables db) @
     [\<lparr>au_id = row_id, au_audit_event_id = Some (''ae_'' @ hex), au_timestamp = Some now, au_incident_id = None\<rparr>]\<rparr>\<rparr>"

definition validate_existing_run :: "CleanupRun \<Rightarrow> Verification \<Rightarrow> Raised + unit" where
  "validate_existing_run r v =
     (if cr_archive_id r \<noteq> vf_archive_id v \<or> cr_policy_version r \<noteq> vf_policy_version v
         \<or> cr_manifest_sha256 r \<noteq> vf_manifest_sha256 v \<or> cr_archive_as_of r \<noteq> vf_archive_as_of v
         \<or> cr_snapshot r \<noteq> vf_snapshot v
      then Inl (CleanupOperation ''cleanup_run_archive_mismatch'') else Inr ())"

text \<open>The run, whether it is resumed, and whether it was completed before.\<close>

definition claim_with_audit :: "string \<Rightarrow> bool \<Rightarrow> string \<Rightarrow> int \<Rightarrow> datetime \<Rightarrow> nat \<times> string \<Rightarrow> CleanupDb
    \<Rightarrow> Raised + (string \<times> bool \<times> bool) \<times> CleanupDb" where
  "claim_with_audit i resumed worker lease now audit db = (case claim_run i worker now lease db of
     (won, db') \<Rightarrow> if \<not> won then Inl (CleanupOperation ''cleanup_lease_active'')
       else Inr ((i, resumed, False), add_cleanup_audit (fst audit) (snd audit) now db'))"

definition prepare_and_claim_once :: "Verification \<Rightarrow> string \<Rightarrow> string \<Rightarrow> int \<Rightarrow> datetime \<Rightarrow> string \<Rightarrow> nat \<times> string
    \<Rightarrow> CleanupDb \<Rightarrow> Raised + (string \<times> bool \<times> bool) \<times> CleanupDb" where
  "prepare_and_claim_once v schema worker lease now drawn audit db =
     (case get_by_archive (vf_archive_id v) db of
        None \<Rightarrow> if \<not> cleanup_run_id_ok drawn then Inl (CleanupOperation ''cleanup_run_id_invalid'')
          else bind_err (add_run (new_run drawn v schema now) db) (claim_with_audit drawn False worker lease now audit)
      | Some r \<Rightarrow> bind_err (validate_existing_run r v) (\<lambda>_.
          if cr_status r = ''completed'' then Inr ((cr_id r, False, True), db)
          else claim_with_audit (cr_id r) (cr_status r \<in> {''pending'', ''running'', ''failed''}) worker lease now audit db))"

definition prepare_and_claim :: "Verification \<Rightarrow> string \<Rightarrow> string \<Rightarrow> int \<Rightarrow> datetime \<times> datetime \<Rightarrow> string \<times> string
    \<Rightarrow> nat \<times> string \<Rightarrow> (CleanupDb \<Rightarrow> CleanupDb) \<Rightarrow> CleanupDb \<Rightarrow> Raised + (string \<times> bool \<times> bool) \<times> CleanupDb" where
  "prepare_and_claim v schema worker lease nows drawn audit others db =
     (case prepare_and_claim_once v schema worker lease (fst nows) (fst drawn) audit db of
        Inl IntegrityViolation \<Rightarrow>
          (case prepare_and_claim_once v schema worker lease (snd nows) (snd drawn) audit (others db) of
             Inl IntegrityViolation \<Rightarrow> Inl (CleanupOperation ''cleanup_run_conflict'')
           | r \<Rightarrow> r)
      | r \<Rightarrow> r)"

definition assert_run_lease :: "datetime \<Rightarrow> CleanupRun \<Rightarrow> string \<Rightarrow> Raised + unit" where
  "assert_run_lease now r worker = (if cr_status r \<noteq> ''running'' \<or> cr_lease_owner r \<noteq> Some worker \<or> lease_over now r
     then Inl (CleanupPersistence ''cleanup_lease_lost'') else Inr ())"

definition assert_snapshot :: "CleanupRun \<Rightarrow> string \<Rightarrow> Raised + unit" where
  "assert_snapshot r expected = (if cr_snapshot r \<noteq> expected then Inl (ArchiveIntegrity ''archive_snapshot_changed'') else Inr ())"

definition cursor_of :: "CleanupProgress \<Rightarrow> Raised + (datetime \<times> string) option" where
  "cursor_of p = (case (pg_last_recorded_at p, pg_last_entity_id p) of
     (None, None) \<Rightarrow> Inr None
   | (Some t, Some i) \<Rightarrow> Inr (Some (t, i))
   | _ \<Rightarrow> Inl (ArchiveIntegrity ''cleanup_cursor_invalid''))"

definition raised_batch :: "string + 'a \<Rightarrow> Raised + 'a" where
  "raised_batch r = (case r of Inr x \<Rightarrow> Inr x
     | Inl c \<Rightarrow> Inl (if c = ''cleanup_batch_size_invalid'' then ValueOrTypeError c else ArchiveIntegrity c))"

definition raised_persistence :: "string + 'a \<Rightarrow> Raised + 'a" where
  "raised_persistence r = (case r of Inr x \<Rightarrow> Inr x | Inl c \<Rightarrow> Inl (CleanupPersistence c))"

text \<open>What a worker brings: its identity, the run, the archive and the configuration.\<close>

record CleanupWork =
  cw_run :: string
  cw_worker :: string
  cw_snapshot :: string
  cw_index :: "ArchiveRecord list"
  cw_policy :: RetentionPolicy
  cw_batch_size :: nat
  cw_lease :: int

text \<open>What the environment does at one iteration: what other transactions commit before it reads,
  three reads of the clock and \<open>assert_stable\<close>.\<close>

record Moment =
  mo_others :: "CleanupDb \<Rightarrow> CleanupDb"
  mo_lease_check :: datetime
  mo_now :: datetime
  mo_finished :: datetime
  mo_stable :: "Raised option"

datatype Iteration = PhaseOver | PhaseCompleted CleanupDb | BatchCommitted CleanupDb

definition require :: "Raised option \<Rightarrow> Raised + unit" where
  "require e = (case e of None \<Rightarrow> Inr () | Some x \<Rightarrow> Inl x)"

definition close_phase :: "CleanupWork \<Rightarrow> RetentionEntity \<Rightarrow> RetentionEntity option \<Rightarrow> CleanupRun \<Rightarrow> Moment \<Rightarrow> CleanupDb
    \<Rightarrow> Raised + Iteration" where
  "close_phase w entity next_entity run m db =
     bind_err (complete_progress (cw_run w) entity (cw_worker w) (cr_version run) (mo_now m) (cw_lease w) next_entity db)
       (\<lambda>db'. Inr (PhaseCompleted db'))"

definition commit_batch :: "CleanupWork \<Rightarrow> RetentionEntity \<Rightarrow> CleanupRun \<Rightarrow> Moment \<Rightarrow> ArchiveRecord list \<Rightarrow> CleanupDb
    \<Rightarrow> Raised + Iteration" where
  "commit_batch w entity run m batch db =
     bind_err (raised_persistence (cleanup_batch entity (map ar_entity_id batch) (cw_policy w) (mo_now m)
         (cw_index w) (cd_tables db))) (\<lambda>(tables, counts).
     bind_err (apply_batch (cw_run w) entity (cw_worker w) (cr_version run) (mo_finished m) (cw_lease w) counts
         (ar_recorded_at (last batch)) (ar_entity_id (last batch)) (db\<lparr>cd_tables := tables\<rparr>)) (\<lambda>db'.
     Inr (BatchCommitted db')))"

definition iteration :: "CleanupWork \<Rightarrow> RetentionEntity \<Rightarrow> RetentionEntity option \<Rightarrow> Moment \<Rightarrow> CleanupDb
    \<Rightarrow> Raised + Iteration" where
  "iteration w entity next_entity m db =
     (case (get_run (cw_run w) db, get_progress (cw_run w) entity db) of
        (Some run, Some progress) \<Rightarrow>
          if pg_status progress = ''completed'' then Inr PhaseOver
          else bind_err (assert_run_lease (mo_lease_check m) run (cw_worker w)) (\<lambda>_.
               bind_err (assert_snapshot run (cw_snapshot w)) (\<lambda>_.
               bind_err (require (mo_stable m)) (\<lambda>_.
               bind_err (cursor_of progress) (\<lambda>cursor.
               bind_err (raised_batch (candidate_batch (cw_index w) entity cursor (cw_batch_size w))) (\<lambda>batch.
               if batch = [] then close_phase w entity next_entity run m db
               else commit_batch w entity run m batch db)))))
      | _ \<Rightarrow> Inl (CleanupPersistence ''cleanup_progress_missing''))"

text \<open>The loop of one entity, and the loop over the entities. \<open>env\<close> gives the moment of each
  iteration, each of which is a transaction of its own on the database as the other transactions have
  left it; an exhausted fuel is \<open>None\<close>, a raise keeps the database of the last commit.\<close>

fun phase :: "nat \<Rightarrow> CleanupWork \<Rightarrow> RetentionEntity \<Rightarrow> RetentionEntity option \<Rightarrow> (nat \<Rightarrow> Moment) \<Rightarrow> nat \<Rightarrow> CleanupDb
    \<Rightarrow> (Raised option \<times> nat \<times> CleanupDb) option" where
  "phase 0 w entity next_entity env n db = None"
| "phase (Suc fuel) w entity next_entity env n db = (let start = mo_others (env n) db in
     case iteration w entity next_entity (env n) start of
       Inl e \<Rightarrow> Some (Some e, Suc n, start)
     | Inr PhaseOver \<Rightarrow> Some (None, Suc n, start)
     | Inr (PhaseCompleted db') \<Rightarrow> phase fuel w entity next_entity env (Suc n) db'
     | Inr (BatchCommitted db') \<Rightarrow> phase fuel w entity next_entity env (Suc n) db')"

fun phases :: "nat \<Rightarrow> CleanupWork \<Rightarrow> RetentionEntity list \<Rightarrow> (nat \<Rightarrow> Moment) \<Rightarrow> nat \<Rightarrow> CleanupDb
    \<Rightarrow> (Raised option \<times> nat \<times> CleanupDb) option" where
  "phases fuel w [] env n db = Some (None, n, db)"
| "phases fuel w (entity # rest) env n db =
     (case phase fuel w entity (case rest of [] \<Rightarrow> None | e # _ \<Rightarrow> Some e) env n db of
        None \<Rightarrow> None
      | Some (Some e, n', db') \<Rightarrow> Some (Some e, n', db')
      | Some (None, n', db') \<Rightarrow> phases fuel w rest env n' db')"

definition execute_phases :: "nat \<Rightarrow> CleanupWork \<Rightarrow> (nat \<Rightarrow> Moment) \<Rightarrow> CleanupDb
    \<Rightarrow> (Raised option \<times> nat \<times> CleanupDb) option" where
  "execute_phases fuel w env db = phases fuel w CLEANUP_ENTITY_ORDER env 0 db"

definition all_phases_completed :: "string \<Rightarrow> CleanupDb \<Rightarrow> bool" where
  "all_phases_completed i db = list_all (\<lambda>entity. case get_progress i entity db of
     None \<Rightarrow> False | Some p \<Rightarrow> pg_status p = ''completed'') CLEANUP_ENTITY_ORDER"

definition complete_cleanup :: "CleanupWork \<Rightarrow> Moment \<Rightarrow> nat \<times> string \<Rightarrow> CleanupDb \<Rightarrow> Raised + CleanupDb" where
  "complete_cleanup w m audit db = (case get_run (cw_run w) db of
     None \<Rightarrow> Inl (CleanupPersistence ''cleanup_run_missing'')
   | Some run \<Rightarrow>
       bind_err (assert_run_lease (mo_lease_check m) run (cw_worker w)) (\<lambda>_.
       bind_err (assert_snapshot run (cw_snapshot w)) (\<lambda>_.
       bind_err (require (mo_stable m)) (\<lambda>_.
       if \<not> all_phases_completed (cw_run w) db then Inl (CleanupPersistence ''cleanup_progress_incomplete'')
       else bind_err (complete_run (cw_run w) (cw_worker w) (cr_version run) (mo_now m) db)
         (\<lambda>db'. Inr (add_cleanup_audit (fst audit) (snd audit) (mo_now m) db'))))))"

text \<open>\<open>_mark_failed\<close>: its transaction runs on what others have committed, and whatever it raises is
  rolled back and swallowed.\<close>

record FailureWrite =
  fw_others :: "CleanupDb \<Rightarrow> CleanupDb"
  fw_now :: datetime
  fw_raises :: bool

definition mark_failed :: "CleanupWork \<Rightarrow> FailureWrite \<Rightarrow> Raised \<Rightarrow> nat \<times> string \<Rightarrow> CleanupDb \<Rightarrow> CleanupDb" where
  "mark_failed w fw e audit before = (let db = fw_others fw before in
     if fw_raises fw then db
     else case get_run (cw_run w) db of
       None \<Rightarrow> db
     | Some run \<Rightarrow> (case fail_run (cw_run w) (cw_worker w) (fw_now fw) (cleanup_error_code e) db of
          (False, _) \<Rightarrow> db
        | (True, db') \<Rightarrow> add_cleanup_audit (fst audit) (snd audit) (fw_now fw) db'))"

text \<open>The part of \<open>execute\<close> after the claim.\<close>

definition run_cleanup :: "nat \<Rightarrow> CleanupWork \<Rightarrow> (nat \<Rightarrow> Moment) \<Rightarrow> Moment \<Rightarrow> FailureWrite \<Rightarrow> nat \<times> string \<Rightarrow> CleanupDb
    \<Rightarrow> (Raised option \<times> CleanupDb) option" where
  "run_cleanup fuel w env final fw audit db = (case execute_phases fuel w env db of
     None \<Rightarrow> None
   | Some (Some e, _, db') \<Rightarrow> Some (Some (CleanupOperation (cleanup_error_code e)), mark_failed w fw e audit db')
   | Some (None, _, db') \<Rightarrow> (case complete_cleanup w final audit (mo_others final db') of
        Inl e \<Rightarrow> Some (Some (CleanupOperation (cleanup_error_code e)), mark_failed w fw e audit (mo_others final db'))
      | Inr db'' \<Rightarrow> Some (None, db'')))"

text \<open>The columns of the archive run that the gate reads.\<close>

record ArchiveRun =
  av_status :: string
  av_storage_key :: string
  av_manifest_sha256 :: "string option"
  av_policy_version :: string
  av_schema_version :: string
  av_archive_as_of :: datetime
  av_candidate_count :: nat
  av_dependency_count :: nat
  av_total_count :: nat

definition verify_gate :: "string \<Rightarrow> string \<Rightarrow> RetentionPolicy \<Rightarrow> ArchiveRun option \<Rightarrow> Raised + Verification
    \<Rightarrow> Raised + Verification" where
  "verify_gate archive_id schema policy archive verified = (case archive of
     None \<Rightarrow> Inl (CleanupOperation ''cleanup_archive_not_found'')
   | Some a \<Rightarrow>
       if av_status a \<noteq> ''verified'' then Inl (CleanupOperation ''cleanup_archive_not_verified'')
       else if av_storage_key a \<noteq> archive_id then Inl (CleanupOperation ''cleanup_archive_storage_key_invalid'')
       else (case verified of
          Inl e \<Rightarrow> Inl (CleanupOperation (cleanup_error_code e))
        | Inr v \<Rightarrow>
            if vf_manifest_sha256 v \<noteq> (case av_manifest_sha256 a of None \<Rightarrow> [] | Some h \<Rightarrow> h)
               \<or> av_schema_version a \<noteq> schema \<or> av_policy_version a \<noteq> rp_version policy
               \<or> vf_policy_version v \<noteq> av_policy_version a \<or> vf_archive_as_of v \<noteq> av_archive_as_of a
               \<or> av_candidate_count a \<noteq> vf_candidate_count v \<or> av_dependency_count a \<noteq> vf_dependency_count v
               \<or> av_total_count a \<noteq> vf_total_count v
            then Inl (CleanupOperation ''cleanup_archive_integrity_failed'')
            else Inr v))"

text \<open>\<open>execute\<close>, with what it draws and reads from its environment: the verdicts of the two
  verifications, the records of the archive, the identifiers and the moments.\<close>

record CleanupInput =
  ci_archive_id :: string
  ci_schema :: string
  ci_policy :: RetentionPolicy
  ci_batch_size :: nat
  ci_lease :: int
  ci_archive :: "ArchiveRun option"
  ci_verified :: "Raised + Verification"
  ci_records :: "ArchiveRecord list"
  ci_verified_again :: "Raised + Verification"
  ci_worker :: string
  ci_claimed_at :: "datetime \<times> datetime"
  ci_drawn_ids :: "string \<times> string"

definition worker_id_ok :: "string \<Rightarrow> bool" where
  "worker_id_ok i = (length i = 32 \<and> list_all (\<lambda>c. c \<in> set ''0123456789abcdef'') i)"

definition cleanup_work :: "CleanupInput \<Rightarrow> Verification \<Rightarrow> ArchiveRecord list \<Rightarrow> string \<Rightarrow> CleanupWork" where
  "cleanup_work c v index i = \<lparr>cw_run = i, cw_worker = ci_worker c, cw_snapshot = vf_snapshot v, cw_index = index,
     cw_policy = ci_policy c, cw_batch_size = ci_batch_size c, cw_lease = ci_lease c\<rparr>"

definition wrapped :: "Raised + 'a \<Rightarrow> Raised + 'a" where
  "wrapped r = (case r of Inl e \<Rightarrow> Inl (CleanupOperation (cleanup_error_code e)) | Inr x \<Rightarrow> Inr x)"

definition opened :: "CleanupInput \<Rightarrow> Raised + Verification \<times> ArchiveRecord list" where
  "opened c =
     bind_err (verify_gate (ci_archive_id c) (ci_schema c) (ci_policy c) (ci_archive c) (ci_verified c)) (\<lambda>v.
     if \<not> worker_id_ok (ci_worker c) then Inl (CleanupOperation ''cleanup_worker_id_invalid'')
     else bind_err (wrapped (case build_index (vf_candidate_count v) (vf_dependency_count v) (ci_records c) of
             Inl e \<Rightarrow> Inl (ArchiveIntegrity e) | Inr index \<Rightarrow> Inr index)) (\<lambda>index.
       bind_err (wrapped (ci_verified_again c)) (\<lambda>again.
       if vf_snapshot again \<noteq> vf_snapshot v then Inl (CleanupOperation ''cleanup_archive_integrity_failed'')
       else Inr (v, index))))"

definition execute_cleanup :: "nat \<Rightarrow> CleanupInput \<Rightarrow> (CleanupDb \<Rightarrow> CleanupDb) \<Rightarrow> (nat \<Rightarrow> Moment) \<Rightarrow> Moment \<Rightarrow> FailureWrite
    \<Rightarrow> nat \<times> string \<Rightarrow> nat \<times> string \<Rightarrow> CleanupDb \<Rightarrow> (Raised option \<times> CleanupDb) option" where
  "execute_cleanup fuel c others env final fw audit1 audit2 db = (case opened c of
     Inl e \<Rightarrow> Some (Some e, db)
   | Inr (v, index) \<Rightarrow>
       (case prepare_and_claim v (ci_schema c) (ci_worker c) (ci_lease c) (ci_claimed_at c) (ci_drawn_ids c) audit1 others db of
          Inl e \<Rightarrow> Some (Some e, db)
        | Inr ((i, _, was_completed), db') \<Rightarrow>
            if was_completed then Some (None, db')
            else run_cleanup fuel (cleanup_work c v index i) env final fw audit2 db'))"

section \<open>Accounting\<close>

definition progress_of :: "string \<Rightarrow> CleanupDb \<Rightarrow> CleanupProgress list" where
  "progress_of i db = filter (\<lambda>p. pg_run p = i) (cd_progress db)"

text \<open>The candidates of the archive that a progress row has not passed.\<close>

definition candidates_of :: "(string \<Rightarrow> ArchiveRecord list) \<Rightarrow> CleanupProgress \<Rightarrow> ArchiveRecord list" where
  "candidates_of index_of p = archived_candidates (index_of (pg_run p)) (pg_entity p)"

definition progress_ok :: "(string \<Rightarrow> ArchiveRecord list) \<Rightarrow> CleanupProgress \<Rightarrow> bool" where
  "progress_ok index_of p = (pg_scanned p = pg_deleted p + pg_protected p + pg_missing p \<and> pg_skipped p = 0
     \<and> (case cursor_of p of Inl _ \<Rightarrow> False | Inr cursor \<Rightarrow>
          pg_scanned p + length (after candidate_key cursor (candidates_of index_of p)) = length (candidates_of index_of p)
          \<and> (pg_status p = ''completed'' \<longrightarrow> after candidate_key cursor (candidates_of index_of p) = [])))"

definition run_ok :: "CleanupDb \<Rightarrow> CleanupRun \<Rightarrow> bool" where
  "run_ok db r = (cr_deleted r = sum_list (map pg_deleted (progress_of (cr_id r) db))
     \<and> cr_protected r = sum_list (map pg_protected (progress_of (cr_id r) db))
     \<and> cr_missing r = sum_list (map pg_missing (progress_of (cr_id r) db))
     \<and> cr_skipped r = sum_list (map pg_skipped (progress_of (cr_id r) db))
     \<and> (cr_status r = ''completed'' \<longrightarrow> all_phases_completed (cr_id r) db))"

definition accounts_ok :: "(string \<Rightarrow> ArchiveRecord list) \<Rightarrow> CleanupDb \<Rightarrow> bool" where
  "accounts_ok index_of db = (distinct (map cr_id (cd_runs db))
     \<and> distinct (map (\<lambda>p. (pg_run p, pg_entity p)) (cd_progress db))
     \<and> (\<forall>p \<in> set (cd_progress db). progress_ok index_of p)
     \<and> (\<forall>r \<in> set (cd_runs db). run_ok db r)
     \<and> references_ok (cd_tables db))"

text \<open>One transaction of a worker of any run, or a change of the tables by the rest of the program.
  All workers of a run read the archive it belongs to.\<close>

inductive cleanup_step :: "(string \<Rightarrow> ArchiveRecord list) \<Rightarrow> CleanupDb \<Rightarrow> CleanupDb \<Rightarrow> bool" for index_of where
  step_claim: "prepare_and_claim_once v schema worker lease now drawn audit db = Inr (claimed, db')
     \<Longrightarrow> cleanup_step index_of db db'"
| step_phase: "cw_index w = index_of (cw_run w) \<Longrightarrow> iteration w entity next_entity m db = Inr (PhaseCompleted db')
     \<Longrightarrow> cleanup_step index_of db db'"
| step_batch: "cw_index w = index_of (cw_run w)
     \<Longrightarrow> distinct (map (\<lambda>r. (ar_entity_type r, ar_entity_id r)) (cw_index w))
     \<Longrightarrow> iteration w entity next_entity m db = Inr (BatchCommitted db') \<Longrightarrow> cleanup_step index_of db db'"
| step_complete: "complete_cleanup w m audit db = Inr db' \<Longrightarrow> cleanup_step index_of db db'"
| step_failed: "fail_run i owner now code db = (True, db') \<Longrightarrow> cleanup_step index_of db (add_cleanup_audit n hex now db')"
| step_others: "references_ok t \<Longrightarrow> cleanup_step index_of db (db\<lparr>cd_tables := t\<rparr>)"

lemma sum_update:
  fixes f :: "'a \<Rightarrow> nat"
  assumes "\<And>x. hit x \<Longrightarrow> f (g x) = f x + k"
  shows "sum_list (map f (map (\<lambda>x. if hit x then g x else x) xs)) = sum_list (map f xs) + k * length (filter hit xs)"
  by (induction xs) (auto simp: assms)

lemma progress_of_update:
  assumes "\<And>p. pg_run (f p) = pg_run p"
  shows "filter (\<lambda>p. pg_run p = i) (map (\<lambda>p. if hit p then f p else p) ps)
     = map (\<lambda>p. if hit p then f p else p) (filter (\<lambda>p. pg_run p = i) ps)"
  by (induction ps) (auto simp: assms)

lemma find_filter: "find p (filter q xs) = find (\<lambda>x. p x \<and> q x) xs"
  by (induction xs) auto

lemma phases_by_rows: "all_phases_completed i db = list_all (\<lambda>entity.
    case find (\<lambda>p. pg_entity p = entity) (progress_of i db) of None \<Rightarrow> False | Some p \<Rightarrow> pg_status p = ''completed'') CLEANUP_ENTITY_ORDER"
  by (simp add: all_phases_completed_def get_progress_def progress_of_def find_filter conj_commute)

text \<open>A run depends on its own progress rows only.\<close>

lemma run_ok_cong:
  "progress_of (cr_id r) db' = progress_of (cr_id r) db \<Longrightarrow> run_ok db' r = run_ok db r"
  by (simp add: run_ok_def phases_by_rows)

lemma get_run_Some: "get_run i db = Some r \<Longrightarrow> r \<in> set (cd_runs db) \<and> cr_id r = i"
  by (auto simp: get_run_def find_Some_iff)

lemma get_progress_Some:
  "get_progress i entity db = Some p \<Longrightarrow> p \<in> set (cd_progress db) \<and> pg_run p = i \<and> pg_entity p = entity"
  by (auto simp: get_progress_def find_Some_iff)

lemma guarded_update_cases:
  assumes "guarded_run_update i owner version now f db = Inr db'"
  obtains old where "old \<in> set (cd_runs db)" "guarded i owner version now old"
    "db' = db\<lparr>cd_runs := map (\<lambda>r. if guarded i owner version now r then f r else r) (cd_runs db)\<rparr>"
proof -
  have one: "length (filter (guarded i owner version now) (cd_runs db)) = 1"
    and "db' = db\<lparr>cd_runs := map (\<lambda>r. if guarded i owner version now r then f r else r) (cd_runs db)\<rparr>"
    using assms by (auto simp: guarded_run_update_def update_rows_def split: if_splits)
  moreover obtain old where "filter (guarded i owner version now) (cd_runs db) = [old]"
    using one by (cases "filter (guarded i owner version now) (cd_runs db)") auto
  then have "old \<in> set (filter (guarded i owner version now) (cd_runs db))" by simp
  ultimately show thesis using that by auto
qed

text \<open>The rows of a run that changes its state but not its counts stay accounted for.\<close>

lemma accounts_runs:
  assumes ok: "accounts_ok index_of db"
    and upd: "\<And>r. r \<in> set (cd_runs db) \<Longrightarrow> hit r \<Longrightarrow> cr_id (f r) = cr_id r \<and> cr_deleted (f r) = cr_deleted r
       \<and> cr_protected (f r) = cr_protected r \<and> cr_missing (f r) = cr_missing r \<and> cr_skipped (f r) = cr_skipped r
       \<and> (cr_status (f r) = ''completed'' \<longrightarrow> all_phases_completed (cr_id r) db)"
  shows "accounts_ok index_of (db\<lparr>cd_runs := map (\<lambda>r. if hit r then f r else r) (cd_runs db)\<rparr>)"
proof -
  let ?db = "db\<lparr>cd_runs := map (\<lambda>r. if hit r then f r else r) (cd_runs db)\<rparr>"
  have rows: "progress_of i ?db = progress_of i db" for i by (simp add: progress_of_def)
  have phases: "all_phases_completed i ?db = all_phases_completed i db" for i by (simp add: phases_by_rows rows)
  have ids: "map cr_id (cd_runs ?db) = map cr_id (cd_runs db)" using upd by simp
  have row: "run_ok ?db (if hit r then f r else r)" if "r \<in> set (cd_runs db)" for r
  proof -
    have "run_ok db r" using ok that by (simp add: accounts_ok_def)
    then show ?thesis using upd[OF that] by (auto simp: run_ok_def rows phases)
  qed
  have "\<forall>r \<in> set (map (\<lambda>r. if hit r then f r else r) (cd_runs db)). run_ok ?db r"
    unfolding set_map using row by blast
  then have "\<forall>r \<in> set (cd_runs ?db). run_ok ?db r" by simp
  with ids show ?thesis using ok unfolding accounts_ok_def ids by simp
qed

text \<open>A change of one progress row with the run it belongs to.\<close>

lemma accounts_progress:
  assumes ok: "accounts_ok index_of db" and refs: "references_ok tables"
    and p: "get_progress i entity db = Some p"
    and upd: "bind_err (progress_update i entity f (db\<lparr>cd_tables := tables\<rparr>)) (guarded_run_update i owner version now g) = Inr db'"
    and f: "\<And>q. pg_run (f q) = pg_run q \<and> pg_entity (f q) = pg_entity q
        \<and> pg_deleted (f q) = pg_deleted q + cb_deleted counts \<and> pg_protected (f q) = pg_protected q + cb_protected counts
        \<and> pg_missing (f q) = pg_missing q + cb_missing counts \<and> pg_skipped (f q) = pg_skipped q + cb_skipped counts"
    and g: "\<And>r. cr_id (g r) = cr_id r \<and> cr_status (g r) = cr_status r
        \<and> cr_deleted (g r) = cr_deleted r + cb_deleted counts \<and> cr_protected (g r) = cr_protected r + cb_protected counts
        \<and> cr_missing (g r) = cr_missing r + cb_missing counts \<and> cr_skipped (g r) = cr_skipped r + cb_skipped counts"
    and new: "progress_ok index_of (f p)"
  shows "accounts_ok index_of db'"
proof -
  let ?hit = "\<lambda>q. pg_run q = i \<and> pg_entity q = entity \<and> (pg_status q = ''pending'' \<or> pg_status q = ''running'')"
  let ?up = "\<lambda>q. if ?hit q then f q else q"
  let ?mid = "db\<lparr>cd_tables := tables, cd_progress := map ?up (cd_progress db)\<rparr>"
  have one: "length (filter ?hit (cd_progress db)) = 1" and run: "guarded_run_update i owner version now g ?mid = Inr db'"
    using upd by (auto simp: progress_update_def update_rows_def bind_err_Inr split: if_splits)
  obtain old where old: "old \<in> set (cd_runs db)" "guarded i owner version now old"
    and db': "db' = ?mid\<lparr>cd_runs := map (\<lambda>r. if guarded i owner version now r then g r else r) (cd_runs db)\<rparr>"
    using guarded_update_cases[OF run] by auto
  have dist: "distinct (map cr_id (cd_runs db))" "distinct (map (\<lambda>p. (pg_run p, pg_entity p)) (cd_progress db))"
    using ok by (simp_all add: accounts_ok_def)
  have only: "r = old" if "r \<in> set (cd_runs db)" "cr_id r = i" for r
    using dist(1) that old by (auto simp: distinct_map guarded_def dest: inj_onD)
  have same: "q = p" if "q \<in> set (cd_progress db)" "?hit q" for q
    using dist(2) that get_progress_Some[OF p] by (auto simp: distinct_map dest: inj_onD)
  have own: "progress_of j db' = map ?up (progress_of j db)" for j
    using f by (simp add: progress_of_def db' progress_of_update)
  have other: "progress_of j db' = progress_of j db" if "j \<noteq> i" for j
    unfolding own using that by (intro map_idI) (auto simp: progress_of_def)
  have "filter ?hit (progress_of i db) = filter ?hit (cd_progress db)"
    unfolding progress_of_def filter_filter by (intro filter_cong) auto
  then have hits: "length (filter ?hit (progress_of i db)) = 1" using one by simp
  have sums: "sum_list (map pg_deleted (progress_of i db')) = sum_list (map pg_deleted (progress_of i db)) + cb_deleted counts"
    "sum_list (map pg_protected (progress_of i db')) = sum_list (map pg_protected (progress_of i db)) + cb_protected counts"
    "sum_list (map pg_missing (progress_of i db')) = sum_list (map pg_missing (progress_of i db)) + cb_missing counts"
    "sum_list (map pg_skipped (progress_of i db')) = sum_list (map pg_skipped (progress_of i db)) + cb_skipped counts"
    unfolding own using f hits by (subst sum_update; simp)+
  have row: "run_ok db' (if guarded i owner version now r then g r else r)" if r: "r \<in> set (cd_runs db)" for r
  proof (cases "cr_id r = i")
    case True
    then have "r = old" using only r by blast
    moreover have "run_ok db r" using ok r by (simp add: accounts_ok_def)
    ultimately show ?thesis using old(2) g[of old] sums True by (simp add: run_ok_def guarded_def)
  next
    case False
    then show ?thesis using ok r run_ok_cong[OF other[OF False]] by (simp add: accounts_ok_def guarded_def)
  qed
  have runs: "cd_runs db' = map (\<lambda>r. if guarded i owner version now r then g r else r) (cd_runs db)" by (simp add: db')
  have "\<forall>r \<in> set (cd_runs db'). run_ok db' r" unfolding runs set_map using row by blast
  moreover have "map cr_id (cd_runs db') = map cr_id (cd_runs db)" using g by (simp add: db')
  moreover have "map (\<lambda>p. (pg_run p, pg_entity p)) (cd_progress db') = map (\<lambda>p. (pg_run p, pg_entity p)) (cd_progress db)"
    using f by (simp add: db')
  moreover have "\<forall>q \<in> set (cd_progress db'). progress_ok index_of q"
    using ok new same by (auto simp: db' accounts_ok_def)
  moreover have "cd_tables db' = tables" by (simp add: db')
  ultimately show ?thesis using dist refs unfolding accounts_ok_def by metis
qed

text \<open>The steps one by one.\<close>

lemma accounts_tables: "accounts_ok index_of db \<Longrightarrow> references_ok t \<Longrightarrow> accounts_ok index_of (db\<lparr>cd_tables := t\<rparr>)"
  by (simp add: accounts_ok_def run_ok_def phases_by_rows progress_of_def)

lemma accounts_audit:
  assumes "accounts_ok index_of db"
  shows "accounts_ok index_of (add_cleanup_audit n hex now db)"
proof -
  let ?t = "cd_tables db" and ?row = "\<lparr>au_id = n, au_audit_event_id = Some (''ae_'' @ hex), au_timestamp = Some now, au_incident_id = None\<rparr>"
  have "references_ok (cd_tables db)" using assms by (simp add: accounts_ok_def)
  moreover have same: "incident_refs (?t\<lparr>db_audit := db_audit ?t @ [?row]\<rparr>) = incident_refs ?t"
    "job_refs (?t\<lparr>db_audit := db_audit ?t @ [?row]\<rparr>) = job_refs ?t"
    "event_referenced (?t\<lparr>db_audit := db_audit ?t @ [?row]\<rparr>) = event_referenced ?t"
    "signal_referenced (?t\<lparr>db_audit := db_audit ?t @ [?row]\<rparr>) = signal_referenced ?t"
    "triage_refs_ok (?t\<lparr>db_audit := db_audit ?t @ [?row]\<rparr>) = triage_refs_ok ?t"
    by (simp_all add: fun_eq_iff triage_refs_ok_def incident_refs_def job_refs_def dependents_def event_referenced_def signal_referenced_def set_somes)
  ultimately have "references_ok (?t\<lparr>db_audit := db_audit ?t @ [?row]\<rparr>)" unfolding references_ok_def same by simp
  then show ?thesis unfolding add_cleanup_audit_def by (rule accounts_tables[OF assms])
qed

lemma accounts_add_run:
  assumes ok: "accounts_ok index_of db" and add: "add_run (new_run i v schema now) db = Inr db'"
  shows "accounts_ok index_of db'"
proof -
  have fresh: "i \<notin> cr_id ` set (cd_runs db)" "i \<notin> pg_run ` set (cd_progress db)"
    and db': "db' = db\<lparr>cd_runs := cd_runs db @ [new_run i v schema now],
       cd_progress := cd_progress db @ map (new_progress i) CLEANUP_ENTITY_ORDER\<rparr>"
    using add by (auto simp: add_run_def list_ex_iff new_run_def split: if_splits)
  have keys: "pg_run (new_progress i e) = i" "pg_entity (new_progress i e) = e" for e by (simp_all add: new_progress_def)
  have other: "progress_of j db' = progress_of j db" if "j \<noteq> i" for j
    using that by (auto simp: progress_of_def db' filter_empty_conv keys)
  have own: "progress_of i db' = map (new_progress i) CLEANUP_ENTITY_ORDER"
    using fresh(2) by (auto simp: progress_of_def db' filter_empty_conv filter_id_conv keys)
  have "run_ok db' (new_run i v schema now)"
    by (simp add: run_ok_def new_run_def own CLEANUP_ENTITY_ORDER_def new_progress_def)
  moreover have "run_ok db' r" if "r \<in> set (cd_runs db)" for r
  proof -
    have "cr_id r \<noteq> i" using fresh(1) that by auto
    then show ?thesis using ok that run_ok_cong[OF other] by (simp add: accounts_ok_def)
  qed
  moreover have "progress_ok index_of (new_progress i e)" for e
    by (simp add: progress_ok_def new_progress_def cursor_of_def after_def)
  moreover have "distinct (map (\<lambda>p. (pg_run p, pg_entity p)) (cd_progress db'))"
    using ok fresh(2) by (auto simp: db' accounts_ok_def keys CLEANUP_ENTITY_ORDER_def image_iff)
  ultimately show ?thesis using ok fresh(1) by (auto simp: accounts_ok_def db' new_run_def)
qed

lemma accounts_claim:
  assumes "accounts_ok index_of db" and "claim_run i owner now lease db = (True, db')"
  shows "accounts_ok index_of db'"
  using accounts_runs[OF assms(1)] assms(2) by (auto simp: claim_run_def update_rows_def)

lemma accounts_fail:
  assumes "accounts_ok index_of db" and "fail_run i owner now code db = (True, db')"
  shows "accounts_ok index_of db'"
  using accounts_runs[OF assms(1)] assms(2) by (auto simp: fail_run_def update_rows_def)

lemma claim_with_audit_cases:
  assumes "claim_with_audit j r worker lease now audit db = Inr ((i, resumed, completed), db')"
  obtains mid where "j = i" "claim_run j worker now lease db = (True, mid)"
    "db' = add_cleanup_audit (fst audit) (snd audit) now mid" "\<not> completed"
proof -
  obtain won mid where c: "claim_run j worker now lease db = (won, mid)" by fastforce
  then have won by (rule contrapos_pp) (use assms c in \<open>simp add: claim_with_audit_def\<close>)
  with c assms show thesis by (intro that[of mid]) (simp_all add: claim_with_audit_def)
qed

lemma prepare_cases:
  assumes "prepare_and_claim_once v schema worker lease now drawn audit db = Inr ((i, resumed, completed), db')"
  obtains (completed) r where "get_by_archive (vf_archive_id v) db = Some r" "cr_id r = i" "cr_status r = ''completed''" "db' = db"
    "completed"
  | (claimed) start mid where "start = db \<or> (\<exists>i. add_run (new_run i v schema now) db = Inr start)"
      "claim_run i worker now lease start = (True, mid)" "db' = add_cleanup_audit (fst audit) (snd audit) now mid" "\<not> completed"
proof (cases "get_by_archive (vf_archive_id v) db")
  case None
  then obtain start where "add_run (new_run drawn v schema now) db = Inr start"
    and "claim_with_audit drawn False worker lease now audit start = Inr ((i, resumed, completed), db')"
    using assms by (auto simp: prepare_and_claim_once_def bind_err_Inr split: if_splits)
  moreover from this(2) obtain mid where "drawn = i" "claim_run drawn worker now lease start = (True, mid)"
    "db' = add_cleanup_audit (fst audit) (snd audit) now mid" "\<not> completed" by (rule claim_with_audit_cases)
  ultimately show thesis using claimed[of start mid] by blast
next
  case (Some r)
  show thesis
  proof (cases "cr_status r = ''completed''")
    case True
    then have "cr_id r = i \<and> db' = db \<and> completed" using Some assms
      by (clarsimp simp: prepare_and_claim_once_def bind_err_Inr)
    then show thesis using completed[OF Some] True by blast
  next
    case False
    then have "claim_with_audit (cr_id r) (cr_status r \<in> {''pending'', ''running'', ''failed''}) worker lease now audit db
        = Inr ((i, resumed, completed), db')"
      using Some assms by (auto simp: prepare_and_claim_once_def bind_err_Inr)
    then obtain mid where "cr_id r = i" "claim_run (cr_id r) worker now lease db = (True, mid)"
      "db' = add_cleanup_audit (fst audit) (snd audit) now mid" "\<not> completed" by (rule claim_with_audit_cases)
    then show thesis using claimed[of db mid] by blast
  qed
qed

lemma accounts_prepare:
  assumes ok: "accounts_ok index_of db"
    and step: "prepare_and_claim_once v schema worker lease now drawn audit db = Inr (claimed, db')"
  shows "accounts_ok index_of db'"
proof -
  obtain i resumed completed where c: "claimed = (i, resumed, completed)" by (cases claimed)
  from step[unfolded c] show ?thesis
  proof (cases rule: prepare_cases)
    case completed
    then show ?thesis using ok by simp
  next
    case (claimed start mid)
    then have "accounts_ok index_of start" using ok accounts_add_run by blast
    then show ?thesis using claimed accounts_claim accounts_audit by blast
  qed
qed

lemma accounts_complete:
  assumes ok: "accounts_ok index_of db" and step: "complete_cleanup w m audit db = Inr db'"
  shows "accounts_ok index_of db'"
proof -
  obtain run where found: "get_run (cw_run w) db = Some run"
    using step by (auto simp: complete_cleanup_def split: option.splits)
  then obtain mid where all: "all_phases_completed (cw_run w) db"
    and run: "complete_run (cw_run w) (cw_worker w) (cr_version run) (mo_now m) db = Inr mid"
    and db': "db' = add_cleanup_audit (fst audit) (snd audit) (mo_now m) mid"
    using step by (auto simp: complete_cleanup_def bind_err_Inr split: if_splits)
  let ?hit = "guarded (cw_run w) (cw_worker w) (cr_version run) (mo_now m)"
  let ?f = "\<lambda>r. r\<lparr>cr_status := ''completed'', cr_updated_at := mo_now m,
       cr_completed_at := Some (mo_now m), cr_phase := ''completed'', cr_entity := None, cr_lease_owner := None,
       cr_lease_expires_at := None, cr_error_code := None, cr_version := cr_version r + 1\<rparr>"
  have mid: "mid = db\<lparr>cd_runs := map (\<lambda>r. if ?hit r then ?f r else r) (cd_runs db)\<rparr>"
    by (rule guarded_update_cases[OF run[unfolded complete_run_def]])
  have "accounts_ok index_of mid" unfolding mid using all by (intro accounts_runs[OF ok]) (simp add: guarded_def)
  then show ?thesis unfolding db' by (rule accounts_audit)
qed

text \<open>What an iteration that commits has checked.\<close>

lemma iteration_cases:
  assumes "iteration w entity next_entity m db = Inr it" and "it \<noteq> PhaseOver"
  obtains (ended) run p cursor db' where "get_run (cw_run w) db = Some run" "get_progress (cw_run w) entity db = Some p"
      "pg_status p \<noteq> ''completed''" "assert_run_lease (mo_lease_check m) run (cw_worker w) = Inr ()"
      "cursor_of p = Inr cursor" "candidate_batch (cw_index w) entity cursor (cw_batch_size w) = Inr []"
      "complete_progress (cw_run w) entity (cw_worker w) (cr_version run) (mo_now m) (cw_lease w) next_entity db = Inr db'"
      "it = PhaseCompleted db'"
  | (batch) run p cursor batch tables counts db' where "get_run (cw_run w) db = Some run"
      "get_progress (cw_run w) entity db = Some p" "pg_status p \<noteq> ''completed''"
      "assert_run_lease (mo_lease_check m) run (cw_worker w) = Inr ()" "cursor_of p = Inr cursor"
      "candidate_batch (cw_index w) entity cursor (cw_batch_size w) = Inr batch" "batch \<noteq> []"
      "cleanup_batch entity (map ar_entity_id batch) (cw_policy w) (mo_now m) (cw_index w) (cd_tables db) = Inr (tables, counts)"
      "apply_batch (cw_run w) entity (cw_worker w) (cr_version run) (mo_finished m) (cw_lease w) counts
         (ar_recorded_at (last batch)) (ar_entity_id (last batch)) (db\<lparr>cd_tables := tables\<rparr>) = Inr db'"
      "it = BatchCommitted db'"
proof -
  obtain run p where rp: "get_run (cw_run w) db = Some run" "get_progress (cw_run w) entity db = Some p"
    using assms(1) by (auto simp: iteration_def split: option.splits)
  have open_phase: "pg_status p \<noteq> ''completed''" using assms rp by (auto simp: iteration_def)
  obtain cursor batch where first: "assert_run_lease (mo_lease_check m) run (cw_worker w) = Inr ()"
      "cursor_of p = Inr cursor" "raised_batch (candidate_batch (cw_index w) entity cursor (cw_batch_size w)) = Inr batch"
    and rest: "(if batch = [] then close_phase w entity next_entity run m db else commit_batch w entity run m batch db) = Inr it"
    using assms(1) rp open_phase by (simp add: iteration_def bind_err_Inr) blast
  have read: "candidate_batch (cw_index w) entity cursor (cw_batch_size w) = Inr batch"
    using first(3) by (auto simp: raised_batch_def split: sum.splits)
  show thesis
  proof (cases "batch = []")
    case True
    then show thesis using ended[OF rp open_phase first(1,2)] read rest by (auto simp: close_phase_def bind_err_Inr)
  next
    case False
    obtain tables counts db' where "raised_persistence (cleanup_batch entity (map ar_entity_id batch) (cw_policy w) (mo_now m)
                      (cw_index w) (cd_tables db)) = Inr (tables, counts)"
      and "apply_batch (cw_run w) entity (cw_worker w) (cr_version run) (mo_finished m) (cw_lease w) counts
         (ar_recorded_at (last batch)) (ar_entity_id (last batch)) (db\<lparr>cd_tables := tables\<rparr>) = Inr db'"
      and "it = BatchCommitted db'"
      using rest False by (auto simp: commit_batch_def bind_err_Inr)
    moreover from this(1) have "cleanup_batch entity (map ar_entity_id batch) (cw_policy w) (mo_now m)
                      (cw_index w) (cd_tables db) = Inr (tables, counts)"
      by (auto simp: raised_persistence_def split: sum.splits)
    ultimately show thesis using batch[OF rp open_phase first(1,2) read False] by blast
  qed
qed

lemma candidate_batch_Inr:
  assumes "candidate_batch index entity cursor n = Inr batch"
  shows "1 \<le> n" and "batch = batch_after candidate_key n cursor (archived_candidates index entity)"
  using assms by (auto simp: candidate_batch_def split: if_splits)

lemma candidate_keys_distinct:
  assumes "distinct (map (\<lambda>r. (ar_entity_type r, ar_entity_id r)) index)"
  shows "distinct (map candidate_key (archived_candidates index entity))"
proof -
  let ?cands = "archived_candidates index entity"
  have "distinct (map (\<lambda>r. (ar_entity_type r, ar_entity_id r)) ?cands)"
    unfolding archived_candidates_def by (rule distinct_map_filter[OF assms])
  moreover have "map (\<lambda>r. (ar_entity_type r, ar_entity_id r)) ?cands = map (\<lambda>r. (entity_name entity, ar_entity_id r)) ?cands"
    by (auto simp: archived_candidates_def)
  ultimately have "distinct ?cands \<and> inj_on (\<lambda>r. (entity_name entity, ar_entity_id r)) (set ?cands)" by (simp add: distinct_map)
  then show ?thesis by (auto simp: distinct_map candidate_key_def inj_on_def)
qed

lemma after_batch_length:
  assumes "distinct (map key rows)" and "batch_after key limit cursor rows \<noteq> []"
  shows "length (after key (Some (key (last (batch_after key limit cursor rows)))) rows) + length (batch_after key limit cursor rows)
     = length (after key cursor rows)"
proof -
  let ?b = "batch_after key limit cursor rows"
  have "length (after key (Some (key (last ?b))) rows) = length (sort_key key (after key (Some (key (last ?b))) rows))" by simp
  also have "\<dots> = length (drop limit (sort_key key (after key cursor rows)))" using after_batch[OF assms] by simp
  finally show ?thesis by (simp add: batch_after_alt)
qed

lemma cleanup_batch_counts:
  assumes "cleanup_batch entity ids policy now index db = Inr (db', counts)"
  shows "cb_scanned counts = length ids \<and> cb_deleted counts + cb_protected counts + cb_missing counts = length ids
    \<and> cb_skipped counts = 0"
  using assms by (auto simp: cleanup_batch_def Let_def bind_err_Inr split: prod.splits if_splits)

lemma sort_key_Nil: "sort_key f xs = [] \<longleftrightarrow> xs = []"
  by (metis length_0_conv length_sort)

lemma accounts_phase:
  assumes ok: "accounts_ok index_of db" and index: "cw_index w = index_of (cw_run w)"
    and step: "iteration w entity next_entity m db = Inr (PhaseCompleted db')"
  shows "accounts_ok index_of db'"
proof -
  have "PhaseCompleted db' \<noteq> PhaseOver" by simp
  with step show ?thesis
proof (cases rule: iteration_cases)
  case (ended run p cursor db2)
  let ?none = "\<lparr>cb_scanned = 0, cb_deleted = 0, cb_protected = 0, cb_missing = 0, cb_skipped = 0\<rparr>"
  have p: "p \<in> set (cd_progress db)" "pg_run p = cw_run w" "pg_entity p = entity" using get_progress_Some[OF ended(2)] by auto
  have "progress_ok index_of p" using ok p by (simp add: accounts_ok_def)
  moreover have "after candidate_key cursor (candidates_of index_of p) = []"
    using candidate_batch_Inr[OF ended(6)] p index by (auto simp: batch_after_alt candidates_of_def sort_key_Nil)
  ultimately have new: "progress_ok index_of (p\<lparr>pg_status := ''completed'', pg_completed_at := Some (mo_now m)\<rparr>)"
    using ended(5) by (simp add: progress_ok_def candidates_of_def cursor_of_def)
  have upd: "bind_err (progress_update (cw_run w) entity
        (\<lambda>p. p\<lparr>pg_status := ''completed'', pg_completed_at := Some (mo_now m)\<rparr>) (db\<lparr>cd_tables := cd_tables db\<rparr>))
      (guarded_run_update (cw_run w) (cw_worker w) (cr_version run) (mo_now m)
        (\<lambda>r. r\<lparr>cr_updated_at := mo_now m, cr_entity := next_entity,
           cr_lease_expires_at := Some (plus_seconds (mo_now m) (cw_lease w)), cr_version := cr_version r + 1\<rparr>)) = Inr db2"
    using ended(7) by (simp add: complete_progress_def)
  have refs: "references_ok (cd_tables db)" using ok by (simp add: accounts_ok_def)
  have "accounts_ok index_of db2"
    by (rule accounts_progress[OF ok refs ended(2) upd _ _ new, where counts = ?none]) simp_all
  then show ?thesis using ended(8) by simp
qed simp_all
qed

lemma accounts_batch:
  assumes ok: "accounts_ok index_of db" and index: "cw_index w = index_of (cw_run w)"
    and unique: "distinct (map (\<lambda>r. (ar_entity_type r, ar_entity_id r)) (cw_index w))"
    and step: "iteration w entity next_entity m db = Inr (BatchCommitted db')"
  shows "accounts_ok index_of db'"
proof -
  have "BatchCommitted db' \<noteq> PhaseOver" by simp
  with step show ?thesis
  proof (cases rule: iteration_cases)
    case (batch run p cursor rows tables counts db2)
    have p: "p \<in> set (cd_progress db)" "pg_run p = cw_run w" "pg_entity p = entity" using get_progress_Some[OF batch(2)] by auto
    let ?new = "p\<lparr>pg_status := ''running'',
         pg_last_recorded_at := Some (ar_recorded_at (last rows)), pg_last_entity_id := Some (ar_entity_id (last rows)),
         pg_scanned := pg_scanned p + cb_scanned counts, pg_deleted := pg_deleted p + cb_deleted counts,
         pg_protected := pg_protected p + cb_protected counts, pg_missing := pg_missing p + cb_missing counts,
         pg_skipped := pg_skipped p + cb_skipped counts\<rparr>"
    have counts: "cb_scanned counts = length rows" "cb_deleted counts + cb_protected counts + cb_missing counts = length rows"
      "cb_skipped counts = 0" using cleanup_batch_counts[OF batch(8)] by auto
    have cands: "candidates_of index_of p = archived_candidates (cw_index w) entity" using p index by (simp add: candidates_of_def)
    have rows: "rows = batch_after candidate_key (cw_batch_size w) cursor (candidates_of index_of p)"
      using candidate_batch_Inr(2)[OF batch(6)] by (simp add: cands)
    have "length (after candidate_key (Some (candidate_key (last rows))) (candidates_of index_of p)) + length rows
        = length (after candidate_key cursor (candidates_of index_of p))"
      using after_batch_length[of candidate_key "candidates_of index_of p" "cw_batch_size w" cursor] batch(7)
        candidate_keys_distinct[OF unique] rows cands by simp
    moreover have "progress_ok index_of p" using ok p by (simp add: accounts_ok_def)
    ultimately have new: "progress_ok index_of ?new"
      using batch(5) counts by (simp add: progress_ok_def candidates_of_def cursor_of_def candidate_key_def)
    have refs: "references_ok tables" using batch_references[OF _ batch(8)] ok by (simp add: accounts_ok_def)
    have "accounts_ok index_of db2"
      by (rule accounts_progress[OF ok refs batch(2) batch(9)[unfolded apply_batch_def] _ _ new, where counts = counts]) simp_all
    then show ?thesis using batch(10) by simp
  qed simp_all
qed

lemma accounts_step: "accounts_ok index_of db \<Longrightarrow> cleanup_step index_of db db' \<Longrightarrow> accounts_ok index_of db'"
  by (erule cleanup_step.cases)
    (auto intro: accounts_prepare accounts_phase accounts_batch accounts_complete accounts_audit accounts_fail accounts_tables)

definition fresh_db :: "CleanupDb \<Rightarrow> bool" where
  "fresh_db db = (cd_runs db = [] \<and> cd_progress db = [] \<and> references_ok (cd_tables db))"

interpretation cleanup: invariant_machine fresh_db "cleanup_step index_of" "accounts_ok index_of" for index_of
  by unfold_locales (simp add: fresh_db_def accounts_ok_def, rule accounts_step)

section \<open>What a completed run has done\<close>

lemma distinct_entity_rows:
  assumes "accounts_ok index_of db"
  shows "distinct (map pg_entity (progress_of i db))"
proof -
  have "distinct (map (\<lambda>p. (pg_run p, pg_entity p)) (progress_of i db))"
    using assms unfolding progress_of_def by (intro distinct_map_filter) (simp add: accounts_ok_def)
  then show ?thesis by (auto simp: distinct_map inj_on_def progress_of_def)
qed

lemma get_progress_unique:
  assumes "accounts_ok index_of db" and "p \<in> set (cd_progress db)" and "pg_run p = i" and "pg_entity p = entity"
  shows "get_progress i entity db = Some p"
proof (cases "get_progress i entity db")
  case None
  then show ?thesis using assms(2-) by (auto simp: get_progress_def find_None_iff)
next
  case (Some q)
  then show ?thesis using assms get_progress_Some[OF Some] by (auto simp: accounts_ok_def distinct_map dest: inj_onD)
qed

lemma completed_progress:
  assumes ok: "accounts_ok index_of db" and all: "all_phases_completed i db"
  shows "mset (map pg_entity (progress_of i db)) = mset CLEANUP_ENTITY_ORDER"
    and "p \<in> set (progress_of i db) \<Longrightarrow> pg_scanned p = length (archived_candidates (index_of i) (pg_entity p))"
proof -
  have every: "entity \<in> set CLEANUP_ENTITY_ORDER" for entity by (cases entity) (simp_all add: CLEANUP_ENTITY_ORDER_def)
  have row: "\<exists>p. get_progress i entity db = Some p \<and> pg_status p = ''completed''" for entity
    using all every[of entity] by (auto simp: all_phases_completed_def list_all_iff split: option.splits)
  have "entity \<in> set (map pg_entity (progress_of i db))" for entity
    using row[of entity] get_progress_Some by (force simp: progress_of_def)
  then have "set (map pg_entity (progress_of i db)) = set CLEANUP_ENTITY_ORDER" using every by blast
  then show "mset (map pg_entity (progress_of i db)) = mset CLEANUP_ENTITY_ORDER"
    using distinct_entity_rows[OF ok] by (subst set_eq_iff_mset_eq_distinct[symmetric]) (simp_all add: CLEANUP_ENTITY_ORDER_def)
  assume p: "p \<in> set (progress_of i db)"
  then have "get_progress i (pg_entity p) db = Some p" using get_progress_unique[OF ok] by (simp add: progress_of_def)
  then have "pg_status p = ''completed''" using row[of "pg_entity p"] by simp
  moreover have "progress_ok index_of p" using ok p by (simp add: accounts_ok_def progress_of_def)
  ultimately show "pg_scanned p = length (archived_candidates (index_of i) (pg_entity p))"
    using p by (auto simp: progress_ok_def candidates_of_def progress_of_def split: sum.splits)
qed

lemma progress_ok_bound: "progress_ok index_of p \<Longrightarrow> pg_scanned p \<le> length (candidates_of index_of p)"
  by (cases "cursor_of p") (auto simp: progress_ok_def)

text \<open>C12: the counts of a cleanup run are those of its batches, whatever workers claimed, lost and
  resumed it: every archived candidate passed so far was deleted, protected or missing, none twice,
  and a completed run has passed all candidates of its archive.\<close>

theorem cleanup_accounts:
  assumes reached: "reach fresh_db (cleanup_step index_of) db" and r: "r \<in> set (cd_runs db)"
  shows "cr_deleted r + cr_protected r + cr_missing r = sum_list (map pg_scanned (progress_of (cr_id r) db))
    \<and> cr_skipped r = 0
    \<and> (\<forall>p \<in> set (progress_of (cr_id r) db). pg_scanned p \<le> length (archived_candidates (index_of (cr_id r)) (pg_entity p)))
    \<and> (cr_status r = ''completed'' \<longrightarrow>
        cr_deleted r + cr_protected r + cr_missing r
          = sum_list (map (\<lambda>entity. length (archived_candidates (index_of (cr_id r)) entity)) CLEANUP_ENTITY_ORDER))
    \<and> references_ok (cd_tables db)"
proof -
  have ok: "accounts_ok index_of db" by (rule cleanup.reach_inv[OF reached])
  then have run: "run_ok db r" and rows: "\<forall>p \<in> set (progress_of (cr_id r) db). progress_ok index_of p"
    using r by (auto simp: accounts_ok_def progress_of_def)
  have parts: "sum_list (map pg_scanned ps) = sum_list (map pg_deleted ps) + sum_list (map pg_protected ps)
      + sum_list (map pg_missing ps) \<and> sum_list (map pg_skipped ps) = 0" if "\<forall>p \<in> set ps. progress_ok index_of p" for ps
    using that by (induction ps) (auto simp: progress_ok_def)
  have "\<forall>p \<in> set (progress_of (cr_id r) db). pg_scanned p \<le> length (archived_candidates (index_of (cr_id r)) (pg_entity p))"
    using rows progress_ok_bound by (fastforce simp: candidates_of_def progress_of_def)
  moreover have "sum_list (map pg_scanned (progress_of (cr_id r) db))
      = sum_list (map (\<lambda>entity. length (archived_candidates (index_of (cr_id r)) entity)) CLEANUP_ENTITY_ORDER)"
    if "cr_status r = ''completed''"
  proof -
    let ?n = "\<lambda>entity. length (archived_candidates (index_of (cr_id r)) entity)"
    have all: "all_phases_completed (cr_id r) db" using run that by (simp add: run_ok_def)
    have "map pg_scanned (progress_of (cr_id r) db) = map ?n (map pg_entity (progress_of (cr_id r) db))"
      using completed_progress(2)[OF ok all] by simp
    also have "sum_list \<dots> = sum_mset (image_mset ?n (mset (map pg_entity (progress_of (cr_id r) db))))"
      by (simp add: sum_mset_sum_list[symmetric] mset_map[symmetric] del: mset_map)
    finally show ?thesis
      unfolding completed_progress(1)[OF ok all] by (simp add: sum_mset_sum_list[symmetric] mset_map[symmetric] del: mset_map)
  qed
  ultimately show ?thesis using parts[OF rows] run ok by (simp add: run_ok_def accounts_ok_def)
qed

definition demo_verification :: Verification where
  "demo_verification = \<lparr>vf_archive_id = ''ARC-1'', vf_policy_version = ''v1'', vf_manifest_sha256 = ''m'',
     vf_archive_as_of = Instant 9, vf_snapshot = ''s'', vf_candidate_count = 1, vf_dependency_count = 3,
     vf_total_count = 4\<rparr>"

definition demo_run_id :: string where
  "demo_run_id = ''CLN-'' @ replicate 32 (CHR ''a'')"

definition demo_start :: CleanupDb where
  "demo_start = \<lparr>cd_runs = [], cd_progress = [], cd_tables = demo_tables\<rparr>"

definition demo_work :: CleanupWork where
  "demo_work = \<lparr>cw_run = demo_run_id, cw_worker = ''worker'', cw_snapshot = ''s'', cw_index = demo_index,
     cw_policy = demo_policy, cw_batch_size = 2, cw_lease = 60\<rparr>"

definition demo_moment :: "nat \<Rightarrow> Moment" where
  "demo_moment n = \<lparr>mo_others = (\<lambda>db. db), mo_lease_check = demo_now, mo_now = demo_now, mo_finished = demo_now, mo_stable = None\<rparr>"

definition demo_claimed :: "Raised + (string \<times> bool \<times> bool) \<times> CleanupDb" where
  "demo_claimed = prepare_and_claim_once demo_verification ''schema'' ''worker'' 60 demo_now demo_run_id (7, ''0'') demo_start"

definition demo_batch_step :: "CleanupDb \<Rightarrow> Raised + Iteration" where
  "demo_batch_step = iteration demo_work IncidentEntity (Some IngestionJobEntity) (demo_moment 0)"

lemma demo_steps_evaluate:
  "(case demo_claimed of Inl _ \<Rightarrow> False | Inr (_, db) \<Rightarrow>
     (case demo_batch_step db of Inr (BatchCommitted db') \<Rightarrow> map cr_deleted (cd_runs db') = [1] | _ \<Rightarrow> False))"
  by code_simp

lemma case_claimed: "(case x of Inl _ \<Rightarrow> False | Inr (_, b) \<Rightarrow> P b) \<Longrightarrow> \<exists>a b. x = Inr (a, b) \<and> P b"
  by (auto split: sum.splits prod.splits)

lemma case_committed: "(case x of Inr (BatchCommitted d) \<Rightarrow> P d | _ \<Rightarrow> False) \<Longrightarrow> \<exists>d. x = Inr (BatchCommitted d) \<and> P d"
  by (auto split: sum.splits Iteration.splits)

theorem cleanup_accounts_witness:
  "\<exists>db r. r \<in> set (cd_runs db) \<and> cr_deleted r = 1
     \<and> cr_deleted r + cr_protected r + cr_missing r = sum_list (map pg_scanned (progress_of (cr_id r) db))"
proof -
  obtain c db where claimed: "demo_claimed = Inr (c, db)"
    and rest: "case demo_batch_step db of Inr (BatchCommitted db') \<Rightarrow> map cr_deleted (cd_runs db') = [1] | _ \<Rightarrow> False"
    using case_claimed[OF demo_steps_evaluate] by (elim exE conjE) (rule that)
  then obtain db' where steps: "demo_claimed = Inr (c, db)" "demo_batch_step db = Inr (BatchCommitted db')"
    and one: "map cr_deleted (cd_runs db') = [1]"
    using case_committed[OF rest] claimed by (elim exE conjE) (rule that)
  let ?index = "\<lambda>_. demo_index"
  have "fresh_db demo_start" using demo_references by (simp add: fresh_db_def demo_start_def)
  then have "reach fresh_db (cleanup_step ?index) db"
    using steps(1)[unfolded demo_claimed_def] by (blast intro: reach.intros step_claim)
  moreover have "cleanup_step ?index db db'"
    using steps(2)[unfolded demo_batch_step_def] by (intro step_batch) (auto simp: demo_work_def demo_index_def)
  ultimately have reached: "reach fresh_db (cleanup_step ?index) db'" by (rule reach_step)
  obtain r where r: "r \<in> set (cd_runs db')" "cr_deleted r = 1" using one by auto
  show ?thesis using cleanup_accounts[OF reached r(1)] r by blast
qed

section \<open>The loop ends\<close>

text \<open>The candidates that the phase of an entity has still to pass, and one for its end.\<close>

definition remaining :: "CleanupWork \<Rightarrow> RetentionEntity \<Rightarrow> CleanupDb \<Rightarrow> nat" where
  "remaining w entity db = (case get_progress (cw_run w) entity db of
     None \<Rightarrow> length (archived_candidates (cw_index w) entity) + 1
   | Some p \<Rightarrow> if pg_status p = ''completed'' then 0
       else (case cursor_of p of Inl _ \<Rightarrow> 0
         | Inr cursor \<Rightarrow> length (after candidate_key cursor (archived_candidates (cw_index w) entity)) + 1))"

lemma progress_step_rows:
  assumes "bind_err (progress_update i entity f db) (guarded_run_update i owner version now g) = Inr db'"
  shows "length (filter (\<lambda>q. pg_run q = i \<and> pg_entity q = entity \<and> (pg_status q = ''pending'' \<or> pg_status q = ''running''))
      (cd_progress db)) = 1"
    and "cd_progress db' = map (\<lambda>q. if pg_run q = i \<and> pg_entity q = entity \<and> (pg_status q = ''pending'' \<or> pg_status q = ''running'')
      then f q else q) (cd_progress db)"
proof -
  let ?hit = "\<lambda>q. pg_run q = i \<and> pg_entity q = entity \<and> (pg_status q = ''pending'' \<or> pg_status q = ''running'')"
  obtain mid where mid: "progress_update i entity f db = Inr mid" and run: "guarded_run_update i owner version now g mid = Inr db'"
    using assms by (auto simp: bind_err_Inr)
  show "length (filter ?hit (cd_progress db)) = 1"
    using mid by (auto simp: progress_update_def update_rows_def split: if_splits)
  have "cd_progress mid = map (\<lambda>q. if ?hit q then f q else q) (cd_progress db)"
    using mid by (auto simp: progress_update_def update_rows_def split: if_splits)
  then show "cd_progress db' = map (\<lambda>q. if ?hit q then f q else q) (cd_progress db)"
    using guarded_update_cases[OF run] by (metis CleanupDb.ext_inject CleanupDb.surjective CleanupDb.update_convs(1))
qed

lemma progress_step_row:
  assumes ok': "accounts_ok index_of db'"
    and step: "bind_err (progress_update i entity f db) (guarded_run_update i owner version now g) = Inr db'"
    and f: "\<And>q. pg_run (f q) = pg_run q \<and> pg_entity (f q) = pg_entity q"
  obtains q where "get_progress i entity db' = Some (f q)" and "q \<in> set (cd_progress db)" "pg_run q = i" "pg_entity q = entity"
proof -
  let ?hit = "\<lambda>q. pg_run q = i \<and> pg_entity q = entity \<and> (pg_status q = ''pending'' \<or> pg_status q = ''running'')"
  note rows = progress_step_rows[OF step]
  have "filter ?hit (cd_progress db) \<noteq> []" using rows(1) by (metis list.size(3) zero_neq_one)
  then obtain q where q: "q \<in> set (cd_progress db)" "?hit q" by (auto simp: filter_empty_conv)
  then have "f q \<in> set (cd_progress db')" unfolding rows(2) by force
  then have "get_progress i entity db' = Some (f q)" using get_progress_unique[OF ok'] q(2) f by simp
  with q that show thesis by blast
qed

lemma find_map_other: "(\<And>x. p (g x) = p x) \<Longrightarrow> (\<And>x. p x \<Longrightarrow> g x = x) \<Longrightarrow> find p (map g xs) = find p xs"
  by (induction xs) auto

text \<open>A transaction on one progress row leaves the others.\<close>

lemma progress_step_other:
  assumes "bind_err (progress_update i entity f db) (guarded_run_update i owner version now g) = Inr db'"
    and "\<And>q. pg_run (f q) = pg_run q \<and> pg_entity (f q) = pg_entity q" and "(j, other) \<noteq> (i, entity)"
  shows "get_progress j other db' = get_progress j other db"
  unfolding get_progress_def progress_step_rows(2)[OF assms(1)]
  by (rule find_map_other) (use assms(2,3) in auto)

lemma batch_remaining:
  assumes ok: "accounts_ok index_of db" and index: "cw_index w = index_of (cw_run w)"
    and unique: "distinct (map (\<lambda>r. (ar_entity_type r, ar_entity_id r)) (cw_index w))"
    and step: "iteration w entity next_entity m db = Inr (BatchCommitted db')"
  shows "remaining w entity db' < remaining w entity db"
    and "(j, other) \<noteq> (cw_run w, entity) \<Longrightarrow> get_progress j other db' = get_progress j other db"
proof -
  have ok': "accounts_ok index_of db'" by (rule accounts_batch[OF ok index unique step])
  have "BatchCommitted db' \<noteq> PhaseOver" by simp
  with step have "remaining w entity db' < remaining w entity db
    \<and> ((j, other) \<noteq> (cw_run w, entity) \<longrightarrow> get_progress j other db' = get_progress j other db)"
  proof (cases rule: iteration_cases)
    case (batch run p cursor rows tables counts db2)
    let ?f = "\<lambda>p. p\<lparr>pg_status := ''running'',
         pg_last_recorded_at := Some (ar_recorded_at (last rows)), pg_last_entity_id := Some (ar_entity_id (last rows)),
         pg_scanned := pg_scanned p + cb_scanned counts, pg_deleted := pg_deleted p + cb_deleted counts,
         pg_protected := pg_protected p + cb_protected counts, pg_missing := pg_missing p + cb_missing counts,
         pg_skipped := pg_skipped p + cb_skipped counts\<rparr>"
    have "db2 = db'" using batch(10) by simp
    note upd = batch(9)[unfolded apply_batch_def this]
    obtain q where q: "get_progress (cw_run w) entity db' = Some (?f q)"
      using upd by (auto elim!: progress_step_row[OF ok'])
    then have "cursor_of (?f q) = Inr (Some (candidate_key (last rows)))" by (simp add: cursor_of_def candidate_key_def)
    note q this
    moreover have "rows = batch_after candidate_key (cw_batch_size w) cursor (archived_candidates (cw_index w) entity)"
      using candidate_batch_Inr(2)[OF batch(6)] .
    ultimately have "remaining w entity db' < remaining w entity db"
      using after_advances[of candidate_key "cw_batch_size w" cursor "archived_candidates (cw_index w) entity"] batch(2,3,5,7)
      by (simp add: remaining_def)
    moreover have "get_progress j other db' = get_progress j other db" if "(j, other) \<noteq> (cw_run w, entity)"
      using progress_step_other[OF upd _ that] by (simp add: get_progress_def)
    ultimately show ?thesis by blast
  qed simp_all
  then show "remaining w entity db' < remaining w entity db"
    and "(j, other) \<noteq> (cw_run w, entity) \<Longrightarrow> get_progress j other db' = get_progress j other db" by blast+
qed

lemma phase_remaining:
  assumes ok: "accounts_ok index_of db" and index: "cw_index w = index_of (cw_run w)"
    and step: "iteration w entity next_entity m db = Inr (PhaseCompleted db')"
  shows "remaining w entity db' < remaining w entity db"
    and "(j, other) \<noteq> (cw_run w, entity) \<Longrightarrow> get_progress j other db' = get_progress j other db"
proof -
  have ok': "accounts_ok index_of db'" by (rule accounts_phase[OF ok index step])
  have "PhaseCompleted db' \<noteq> PhaseOver" by simp
  with step have "remaining w entity db' < remaining w entity db
    \<and> ((j, other) \<noteq> (cw_run w, entity) \<longrightarrow> get_progress j other db' = get_progress j other db)"
  proof (cases rule: iteration_cases)
    case (ended run p cursor db2)
    have "db2 = db'" using ended(8) by simp
    note upd = ended(7)[unfolded complete_progress_def this]
    obtain q where "get_progress (cw_run w) entity db' = Some (q\<lparr>pg_status := ''completed'', pg_completed_at := Some (mo_now m)\<rparr>)"
      using upd by (auto elim!: progress_step_row[OF ok'])
    then have "remaining w entity db' < remaining w entity db" using ended(2,3,5) by (simp add: remaining_def)
    moreover have "get_progress j other db' = get_progress j other db" if "(j, other) \<noteq> (cw_run w, entity)"
      using progress_step_other[OF upd _ that] by simp
    ultimately show ?thesis by blast
  qed simp_all
  then show "remaining w entity db' < remaining w entity db"
    and "(j, other) \<noteq> (cw_run w, entity) \<Longrightarrow> get_progress j other db' = get_progress j other db" by blast+
qed

text \<open>The work is that of an archive without repetitions, the one of its run.\<close>

definition work_ok :: "(string \<Rightarrow> ArchiveRecord list) \<Rightarrow> CleanupWork \<Rightarrow> bool" where
  "work_ok index_of w = (cw_index w = index_of (cw_run w) \<and> distinct (map (\<lambda>r. (ar_entity_type r, ar_entity_id r)) (cw_index w)))"

text \<open>No transaction of any worker gives a phase more to pass.\<close>

lemma remaining_cong: "get_progress (cw_run w) entity db' = get_progress (cw_run w) entity db
    \<Longrightarrow> remaining w entity db' = remaining w entity db"
  by (simp add: remaining_def)

lemma same_work: "cw_run v = cw_run w \<Longrightarrow> cw_index v = cw_index w \<Longrightarrow> remaining v entity db = remaining w entity db"
  by (simp only: remaining_def)

lemma claim_rows: "claim_run i owner now lease db = (True, db') \<Longrightarrow> cd_progress db' = cd_progress db"
  by (auto simp: claim_run_def update_rows_def)

lemma audit_rows [simp]: "cd_progress (add_cleanup_audit n hex now db) = cd_progress db"
  "cd_runs (add_cleanup_audit n hex now db) = cd_runs db"
  by (simp_all add: add_cleanup_audit_def)

lemma added_remaining:
  assumes "add_run (new_run i v schema now) db = Inr db'"
  shows "remaining w entity db' \<le> remaining w entity db"
proof -
  have fresh: "\<forall>p \<in> set (cd_progress db). pg_run p \<noteq> i"
    and rows: "cd_progress db' = cd_progress db @ map (new_progress i) CLEANUP_ENTITY_ORDER"
    using assms by (auto simp: add_run_def list_ex_iff new_run_def split: if_splits)
  show ?thesis
  proof (cases "cw_run w = i")
    case True
    have none: "find (\<lambda>p. pg_run p = i \<and> pg_entity p = entity) (cd_progress db) = None"
      using fresh by (auto simp: find_None_iff)
    moreover have "get_progress i entity db' = Some (new_progress i entity)"
      unfolding get_progress_def rows find_append none
      by (cases entity) (simp_all add: CLEANUP_ENTITY_ORDER_def new_progress_def)
    ultimately show ?thesis unfolding remaining_def True
      by (simp add: get_progress_def new_progress_def cursor_of_def after_def)
  next
    case False
    then have "find (\<lambda>p. pg_run p = cw_run w \<and> pg_entity p = entity) (map (new_progress i) CLEANUP_ENTITY_ORDER) = None"
      by (auto simp: find_None_iff new_progress_def)
    then have "get_progress (cw_run w) entity db' = get_progress (cw_run w) entity db"
      unfolding get_progress_def rows find_append
      by (cases "find (\<lambda>p. pg_run p = cw_run w \<and> pg_entity p = entity) (cd_progress db)") simp_all
    from remaining_cong[OF this] show ?thesis by simp
  qed
qed

lemma step_remaining:
  assumes "cleanup_step index_of db db'" and "accounts_ok index_of db" and "work_ok index_of w"
  shows "remaining w entity db' \<le> remaining w entity db"
  using assms(1)
proof (cases rule: cleanup_step.cases)
  case (step_claim v schema worker lease now drawn audit claimed)
  obtain i resumed was_completed where "claimed = (i, resumed, was_completed)" by (cases claimed)
  with step_claim have "prepare_and_claim_once v schema worker lease now drawn audit db = Inr ((i, resumed, was_completed), db')"
    by simp
  then show ?thesis
  proof (cases rule: prepare_cases)
    case (claimed start mid)
    have "cd_progress db' = cd_progress start" using claim_rows[OF claimed(2)] claimed(3) by simp
    then have "remaining w entity db' = remaining w entity start" by (intro remaining_cong) (simp add: get_progress_def)
    then show ?thesis using claimed(1) added_remaining by auto
  qed simp
next
  case (step_phase v entity' next_entity m)
  show ?thesis
  proof (cases "(cw_run w, entity) = (cw_run v, entity')")
    case True
    then show ?thesis using phase_remaining(1)[OF assms(2) step_phase] step_phase(1) assms(3) same_work[of v w]
      by (simp add: work_ok_def)
  next
    case False
    then show ?thesis using remaining_cong[OF phase_remaining(2)[OF assms(2) step_phase False]] by simp
  qed
next
  case (step_batch v entity' next_entity m)
  show ?thesis
  proof (cases "(cw_run w, entity) = (cw_run v, entity')")
    case True
    then show ?thesis using batch_remaining(1)[OF assms(2) step_batch] step_batch(1) assms(3) same_work[of v w]
      by (simp add: work_ok_def)
  next
    case False
    then show ?thesis using remaining_cong[OF batch_remaining(2)[OF assms(2) step_batch False]] by simp
  qed
next
  case (step_complete v m audit)
  then have "cd_progress db' = cd_progress db"
    by (auto simp: complete_cleanup_def complete_run_def guarded_run_update_def update_rows_def bind_err_Inr
      split: option.splits if_splits)
  then show ?thesis by (simp add: remaining_def get_progress_def)
next
  case (step_failed i owner now code db2 n hex)
  then have "cd_progress db' = cd_progress db" by (auto simp: fail_run_def update_rows_def)
  then show ?thesis by (simp add: remaining_def get_progress_def)
next
  case (step_others t)
  then show ?thesis by (simp add: remaining_def get_progress_def)
qed

lemma steps_remaining:
  assumes "(cleanup_step index_of)\<^sup>*\<^sup>* db db'" and "accounts_ok index_of db" and "work_ok index_of w"
  shows "remaining w entity db' \<le> remaining w entity db"
  using assms(1)
proof (induction rule: rtranclp_induct)
  case (step db1 db2)
  then show ?case using step_remaining[OF step(2) cleanup.steps_inv[OF step(1) assms(2)] assms(3)] le_trans by blast
qed simp

lemma phase_ends:
  assumes "accounts_ok index_of db" and "work_ok index_of w" and "remaining w entity db < fuel"
    and others: "\<And>k d. (cleanup_step index_of)\<^sup>*\<^sup>* d (mo_others (env k) d)"
  shows "\<exists>e n' db'. phase fuel w entity next_entity env n db = Some (e, n', db') \<and> (cleanup_step index_of)\<^sup>*\<^sup>* db db'"
  using assms(1-3)
proof (induction fuel arbitrary: n db)
  case (Suc fuel)
  let ?start = "mo_others (env n) db"
  have start: "(cleanup_step index_of)\<^sup>*\<^sup>* db ?start" by (rule others)
  have ok: "accounts_ok index_of ?start" by (rule cleanup.steps_inv[OF start Suc.prems(1)])
  have index: "cw_index w = index_of (cw_run w)" and unique: "distinct (map (\<lambda>r. (ar_entity_type r, ar_entity_id r)) (cw_index w))"
    using Suc.prems(2) unfolding work_ok_def by auto
  have less: "remaining w entity ?start < Suc fuel"
    using steps_remaining[OF start Suc.prems(1,2)] Suc.prems(3) by (rule le_less_trans)
  have continue: ?case if step: "cleanup_step index_of ?start db'" and ok': "accounts_ok index_of db'"
    and fewer: "remaining w entity db' < remaining w entity ?start"
    and loop: "phase (Suc fuel) w entity next_entity env n db = phase fuel w entity next_entity env (Suc n) db'" for db'
  proof -
    have "remaining w entity db' < fuel" using fewer less by simp
    from Suc.IH[OF ok' Suc.prems(2) this, of "Suc n"] obtain e n' db2 where
      "phase fuel w entity next_entity env (Suc n) db' = Some (e, n', db2)" "(cleanup_step index_of)\<^sup>*\<^sup>* db' db2" by blast
    then show ?thesis using start step unfolding loop
      by (meson converse_rtranclp_into_rtranclp rtranclp_trans)
  qed
  show ?case
  proof (cases "iteration w entity next_entity (env n) ?start")
    case (Inl e)
    then show ?thesis using start by auto
  next
    case (Inr it)
    show ?thesis
    proof (cases it)
      case PhaseOver
      then show ?thesis using Inr start by auto
    next
      case (PhaseCompleted db')
      have it: "iteration w entity next_entity (env n) ?start = Inr (PhaseCompleted db')" using Inr PhaseCompleted by simp
      show ?thesis
        by (rule continue[OF step_phase[where index_of = index_of, OF index it] accounts_phase[OF ok index it]
          phase_remaining(1)[OF ok index it]]) (simp add: it Let_def)
    next
      case (BatchCommitted db')
      have it: "iteration w entity next_entity (env n) ?start = Inr (BatchCommitted db')" using Inr BatchCommitted by simp
      show ?thesis
        by (rule continue[OF step_batch[where index_of = index_of, OF index unique it] accounts_batch[OF ok index unique it]
          batch_remaining(1)[OF ok index unique it]]) (simp add: it Let_def)
    qed
  qed
qed simp

lemma remaining_bound: "remaining w entity db \<le> length (cw_index w) + 1"
proof -
  have "length (after candidate_key cursor (archived_candidates (cw_index w) entity)) \<le> length (cw_index w)" for cursor
    unfolding after_def archived_candidates_def using length_filter_le order_trans by blast
  moreover have "length (archived_candidates (cw_index w) entity) \<le> length (cw_index w)"
    unfolding archived_candidates_def using length_filter_le .
  ultimately show ?thesis by (auto simp: remaining_def split: option.splits sum.splits)
qed

lemma phases_end:
  assumes "accounts_ok index_of db" and "work_ok index_of w" and "length (cw_index w) + 1 < fuel"
    and others: "\<And>k d. (cleanup_step index_of)\<^sup>*\<^sup>* d (mo_others (env k) d)"
  shows "\<exists>e n' db'. phases fuel w entities env n db = Some (e, n', db') \<and> (cleanup_step index_of)\<^sup>*\<^sup>* db db'"
  using assms(1-3)
proof (induction entities arbitrary: n db)
  case (Cons entity rest)
  have "remaining w entity db < fuel" using remaining_bound[of w entity db] Cons.prems(3) by simp
  then obtain e n' db' where phase: "phase fuel w entity (case rest of [] \<Rightarrow> None | e # _ \<Rightarrow> Some e) env n db = Some (e, n', db')"
    and steps: "(cleanup_step index_of)\<^sup>*\<^sup>* db db'"
    using phase_ends[where env = env, OF Cons.prems(1,2) _ others] by blast
  note ok = cleanup.steps_inv[OF steps Cons.prems(1)]
  show ?case
  proof (cases e)
    case None
    then show ?thesis using Cons.IH[OF ok Cons.prems(2,3), of n'] phase steps by (auto intro: rtranclp_trans)
  next
    case (Some x)
    then show ?thesis using phase steps by auto
  qed
qed auto

text \<open>The run is held by the worker.\<close>

definition holds_run :: "CleanupWork \<Rightarrow> CleanupDb \<Rightarrow> bool" where
  "holds_run w db = list_ex (\<lambda>r. cr_id r = cw_run w \<and> cr_status r = ''running'' \<and> cr_lease_owner r = Some (cw_worker w)) (cd_runs db)"

lemma one_run:
  assumes "accounts_ok index_of db" and "r \<in> set (cd_runs db)" and "hit r" and "\<And>q. hit q \<Longrightarrow> cr_id q = cr_id r"
  shows "length (filter hit (cd_runs db)) = 1"
proof -
  have dist: "distinct (map cr_id (cd_runs db))" using assms(1) by (simp add: accounts_ok_def)
  have "set (filter hit (cd_runs db)) = {r}" using dist assms(2-4) by (auto simp: distinct_map dest: inj_onD)
  moreover have "distinct (filter hit (cd_runs db))" using dist by (simp add: distinct_map)
  ultimately show ?thesis using distinct_card[of "filter hit (cd_runs db)"] by simp
qed

text \<open>A failure write that is not rolled back releases the run.\<close>

lemma mark_failed_step:
  assumes "accounts_ok index_of (fw_others fw db)"
  shows "mark_failed w fw e audit db = fw_others fw db \<or> cleanup_step index_of (fw_others fw db) (mark_failed w fw e audit db)"
    and "holds_run w (mark_failed w fw e audit db) \<Longrightarrow> fw_raises fw"
proof -
  let ?db = "fw_others fw db"
  let ?hit = "\<lambda>r. cr_id r = cw_run w \<and> cr_status r = ''running'' \<and> cr_lease_owner r = Some (cw_worker w)"
  show "mark_failed w fw e audit db = ?db \<or> cleanup_step index_of ?db (mark_failed w fw e audit db)"
    by (auto simp: mark_failed_def Let_def intro: step_failed split: option.splits prod.splits bool.splits)
  assume held: "holds_run w (mark_failed w fw e audit db)"
  show "fw_raises fw"
  proof (rule ccontr)
    assume kept: "\<not> fw_raises fw"
    show False
    proof (cases "holds_run w ?db")
      case True
      then obtain r where r: "r \<in> set (cd_runs ?db)" "?hit r" by (auto simp: holds_run_def list_ex_iff)
      then have one: "length (filter ?hit (cd_runs ?db)) = 1" by (intro one_run[OF assms]) auto
      obtain r' where "get_run (cw_run w) ?db = Some r'"
        using r by (cases "get_run (cw_run w) ?db") (auto simp: get_run_def find_None_iff)
      then show False using one kept held
        by (auto simp: mark_failed_def Let_def fail_run_def update_rows_def holds_run_def list_ex_iff)
    next
      case False
      then have "fst (fail_run (cw_run w) (cw_worker w) (fw_now fw) (cleanup_error_code e) ?db) = False"
        by (auto simp: holds_run_def list_ex_iff filter_empty_conv fail_run_def update_rows_def)
      then show False using False kept held by (auto simp: mark_failed_def Let_def split: option.splits prod.splits bool.splits)
    qed
  qed
qed

text \<open>A run that is still held can be claimed from the end of its lease on.\<close>

lemma held_run_claimable:
  assumes "accounts_ok index_of db" and "holds_run w db"
  shows "\<exists>lease_end. \<forall>now owner lease. lease_end \<le> now \<longrightarrow> fst (claim_run (cw_run w) owner now lease db)"
proof -
  obtain r where r: "r \<in> set (cd_runs db)" "cr_id r = cw_run w" "cr_status r = ''running''"
    using assms(2) by (auto simp: holds_run_def list_ex_iff)
  have "fst (claim_run (cw_run w) owner now lease db)" if "(case cr_lease_expires_at r of None \<Rightarrow> now | Some t \<Rightarrow> t) \<le> now" for now owner lease
  proof -
    have "lease_over now r" using that by (simp add: lease_over_def split: option.splits)
    then have "length (filter (\<lambda>r. cr_id r = cw_run w \<and> run_available now r) (cd_runs db)) = 1"
      using r by (intro one_run[OF assms(1) r(1)]) (auto simp: run_available_def)
    then show ?thesis by (simp add: claim_run_def update_rows_def)
  qed
  then show ?thesis by (cases "cr_lease_expires_at r") auto
qed

lemma complete_releases:
  assumes ok: "accounts_ok index_of db" and step: "complete_cleanup w m audit db = Inr db'"
  shows "\<not> holds_run w db'" and "\<exists>r \<in> set (cd_runs db'). cr_id r = cw_run w \<and> cr_status r = ''completed''"
proof -
  obtain run where found: "get_run (cw_run w) db = Some run"
    using step by (auto simp: complete_cleanup_def split: option.splits)
  then obtain mid where run: "complete_run (cw_run w) (cw_worker w) (cr_version run) (mo_now m) db = Inr mid"
    and db': "db' = add_cleanup_audit (fst audit) (snd audit) (mo_now m) mid"
    using step by (auto simp: complete_cleanup_def bind_err_Inr split: if_splits)
  let ?hit = "guarded (cw_run w) (cw_worker w) (cr_version run) (mo_now m)"
  let ?f = "\<lambda>r. r\<lparr>cr_status := ''completed'', cr_updated_at := mo_now m,
       cr_completed_at := Some (mo_now m), cr_phase := ''completed'', cr_entity := None, cr_lease_owner := None,
       cr_lease_expires_at := None, cr_error_code := None, cr_version := cr_version r + 1\<rparr>"
  obtain old where old: "old \<in> set (cd_runs db)" "?hit old"
    and mid: "mid = db\<lparr>cd_runs := map (\<lambda>r. if ?hit r then ?f r else r) (cd_runs db)\<rparr>"
    by (rule guarded_update_cases[OF run[unfolded complete_run_def]])
  have only: "r = old" if "r \<in> set (cd_runs db)" "cr_id r = cw_run w" for r
    using ok that old by (auto simp: accounts_ok_def distinct_map guarded_def intro: inj_onD[of cr_id])
  have "?hit r" if "r \<in> set (cd_runs db)" "cr_id r = cw_run w" for r using only[OF that] old(2) by simp
  then show "\<not> holds_run w db'" by (auto simp: db' mid holds_run_def list_ex_iff)
  show "\<exists>r \<in> set (cd_runs db'). cr_id r = cw_run w \<and> cr_status r = ''completed''"
  proof (rule bexI)
    have "?f old = (if ?hit old then ?f old else old)" using old(2) by simp
    then have "?f old \<in> (\<lambda>r. if ?hit r then ?f r else r) ` set (cd_runs db)" using old(1) by (rule image_eqI)
    then show "?f old \<in> set (cd_runs db')" by (simp add: db' mid)
  qed (use old in \<open>simp add: guarded_def\<close>)
qed


lemma demo_work_ok: "work_ok (\<lambda>_. demo_index) demo_work"
  by (simp add: work_ok_def demo_work_def demo_index_def)

text \<open>Another worker tries to claim the run before every transaction, each time after the lease it was
  given at first.\<close>

definition rival_claim :: "CleanupDb \<Rightarrow> CleanupDb" where
  "rival_claim db = (case prepare_and_claim_once demo_verification ''schema'' ''rival'' 60 (plus_seconds demo_now 90) demo_run_id
       (9, ''2'') db of Inl _ \<Rightarrow> db | Inr (_, db') \<Rightarrow> db')"

lemma rival_steps: "(cleanup_step index_of)\<^sup>*\<^sup>* db (rival_claim db)"
  by (auto simp: rival_claim_def intro: step_claim split: sum.splits)

definition contended :: "nat \<Rightarrow> Moment" where
  "contended n = (demo_moment n)\<lparr>mo_others := rival_claim\<rparr>"


end
